(* ===== verification/Pastebin_Prelude.thy ===== *)
theory Pastebin_Prelude
  imports Main
begin

section \<open>Shared vocabulary\<close>

text \<open>
  What every component of the development shares: Go's byte strings and the functions of
  the package \<^verbatim>\<open>strings\<close> that the sources call, 64-bit signed arithmetic, instants and
  durations in nanoseconds, and the theorem collections of the components.

  A Go string is a sequence of bytes; \<^typ>\<open>string\<close> is a list of 8-bit characters, so a
  length here is Go's \<^verbatim>\<open>len\<close>. Case mapping is modelled on the ASCII range; bytes from
  128 on are left alone.
\<close>

named_theorems sql_simps \<open>how the row operations act on membership, keys and lengths\<close>
named_theorems str_simps \<open>evaluation of the string functions\<close>
named_theorems store_defs \<open>definitions of the database operations\<close>

type_synonym bytes = string
type_synonym instant = int   \<comment> \<open>nanoseconds since the Unix epoch (time.Time)\<close>
type_synonym duration = int  \<comment> \<open>nanoseconds (time.Duration)\<close>

subsection \<open>64-bit integers\<close>

definition wrap64 :: "int \<Rightarrow> int" where
  "wrap64 x = (x + 2 ^ 63) mod 2 ^ 64 - 2 ^ 63"

definition max_int64 :: int where "max_int64 = 2 ^ 63 - 1"
definition min_int64 :: int where "min_int64 = - (2 ^ 63)"

abbreviation in_int64 :: "int \<Rightarrow> bool" where
  "in_int64 x \<equiv> min_int64 \<le> x \<and> x \<le> max_int64"

lemma wrap64_id: "in_int64 x \<Longrightarrow> wrap64 x = x"
  by (simp add: wrap64_def min_int64_def max_int64_def)

lemma wrap64_bounds: "in_int64 (wrap64 x)"
proof -
  have "0 \<le> (x + 2 ^ 63) mod 2 ^ 64" and "(x + 2 ^ 63) mod 2 ^ 64 < 2 ^ 64"
    by simp_all
  then show ?thesis
    unfolding wrap64_def min_int64_def max_int64_def by (simp del: pos_mod_bound pos_mod_sign)
qed

subsection \<open>Instants and durations\<close>

definition Nanosecond :: duration where "Nanosecond = 1"
definition Millisecond :: duration where "Millisecond = 1000000"
definition Second :: duration where "Second = 1000000000"
definition Minute :: duration where "Minute = 60000000000"
definition Hour :: duration where "Hour = 3600000000000"

lemmas duration_defs = Nanosecond_def Millisecond_def Second_def Minute_def Hour_def

text \<open>The zero value of \<^verbatim>\<open>time.Time\<close> is the first of January of year 1, 00:00 UTC.\<close>

definition zero_time :: instant where "zero_time = - 62135596800000000000"

definition IsZero :: "instant \<Rightarrow> bool" where "IsZero t \<longleftrightarrow> t = zero_time"

text \<open>\<^verbatim>\<open>Unix()\<close>: whole seconds, rounded towards minus infinity.\<close>

definition unix :: "instant \<Rightarrow> int" where "unix t = t div Second"

lemma unix_mono: "s \<le> t \<Longrightarrow> unix s \<le> unix t"
  by (simp add: unix_def Second_def zdiv_mono1)

subsection \<open>Strings\<close>

definition has_prefix :: "string \<Rightarrow> string \<Rightarrow> bool" where
  "has_prefix s p \<longleftrightarrow> take (length p) s = p"

definition has_suffix :: "string \<Rightarrow> string \<Rightarrow> bool" where
  "has_suffix s p \<longleftrightarrow> length p \<le> length s \<and> drop (length s - length p) s = p"

definition trim_prefix :: "string \<Rightarrow> string \<Rightarrow> string" where
  "trim_prefix s p = (if has_prefix s p then drop (length p) s else s)"

definition trim_suffix :: "string \<Rightarrow> string \<Rightarrow> string" where
  "trim_suffix s p = (if has_suffix s p then take (length s - length p) s else s)"

fun contains :: "string \<Rightarrow> string \<Rightarrow> bool" where
  "contains [] p \<longleftrightarrow> p = []"
| "contains (c # cs) p \<longleftrightarrow> has_prefix (c # cs) p \<or> contains cs p"

text \<open>\<^verbatim>\<open>strings.ContainsAny\<close> for a cutset of ASCII characters.\<close>

definition contains_any :: "string \<Rightarrow> string \<Rightarrow> bool" where
  "contains_any s cs \<longleftrightarrow> list_ex (\<lambda>c. c \<in> set cs) s"

text \<open>\<^verbatim>\<open>strings.TrimRight\<close> and \<^verbatim>\<open>strings.TrimLeft\<close> with a single ASCII character.\<close>

definition trim_right_char :: "char \<Rightarrow> string \<Rightarrow> string" where
  "trim_right_char c s = rev (dropWhile (\<lambda>x. x = c) (rev s))"

fun split_on :: "char \<Rightarrow> string \<Rightarrow> string list" where
  "split_on c [] = [[]]"
| "split_on c (x # xs) =
     (if x = c then [] # split_on c xs
      else (case split_on c xs of [] \<Rightarrow> [[x]] | y # ys \<Rightarrow> (x # y) # ys))"

text \<open>\<^verbatim>\<open>strings.Join\<close> with a separator of one character.\<close>

fun join :: "char \<Rightarrow> string list \<Rightarrow> string" where
  "join c [] = []"
| "join c [x] = x"
| "join c (x # y # xs) = x @ c # join c (y # xs)"

lemma split_on_join:
  "xs \<noteq> [] \<Longrightarrow> \<forall>x \<in> set xs. c \<notin> set x \<Longrightarrow> split_on c (join c xs) = xs"
proof (induction c xs rule: join.induct)
  case (2 c x)
  then have "c \<notin> set x" by simp
  then show ?case by (induction x) auto
next
  case (3 c x y xs)
  have "split_on c (x @ c # s) = x # split_on c s" if "c \<notin> set x" for s
    using that by (induction x) auto
  with 3 show ?case by simp
qed simp

lemma set_join: "set (join c xs) \<subseteq> insert c (\<Union> (set ` set xs))"
  by (induction c xs rule: join.induct) auto

text \<open>The part after the last occurrence of a character, or the whole string.\<close>

definition after_last :: "char \<Rightarrow> string \<Rightarrow> string" where
  "after_last c s = rev (takeWhile (\<lambda>x. x \<noteq> c) (rev s))"

definition lower_char :: "char \<Rightarrow> char" where
  "lower_char c = (let n = (of_char c :: nat) in
     if 65 \<le> n \<and> n \<le> 90 then char_of (n + 32) else c)"

text \<open>
  \<^verbatim>\<open>strings.ToLower\<close>: besides the ASCII letters two runes have an ASCII lower case, U+0130
  (to i) and the Kelvin sign U+212A (to k). Every other rune outside ASCII has a lower case
  outside ASCII that is not white space; it is left as it stands, since the code only looks for
  ASCII text in what it lowers.
\<close>

fun to_lower :: "string \<Rightarrow> string" where
  "to_lower [] = []"
| "to_lower (c # s) =
     (if c = CHR 0xC4 \<and> take 1 s = [CHR 0xB0] then CHR ''i'' # to_lower (drop 1 s)
      else if c = CHR 0xE2 \<and> take 2 s = [CHR 0x84, CHR 0xAA] then CHR ''k'' # to_lower (drop 2 s)
      else lower_char c # to_lower s)"

text \<open>
  \<^verbatim>\<open>unicode.IsSpace\<close> as the UTF-8 encodings of the white space code points: the six
  ASCII ones, U+0085, U+00A0, U+1680, U+2000 to U+200A, U+2028, U+2029, U+202F, U+205F and
  U+3000. A Go string starts (or ends) with a white space rune exactly when it starts (ends)
  with one of these byte sequences.
\<close>

definition byte_seq :: "nat list \<Rightarrow> string" where
  "byte_seq ns = map char_of ns"

definition space_seqs :: "string list" where
  "space_seqs = map byte_seq
     ([[9], [10], [11], [12], [13], [32], [194, 133], [194, 160], [225, 154, 128],
       [226, 128, 168], [226, 128, 169], [226, 128, 175], [226, 129, 159], [227, 128, 128]]
      @ map (\<lambda>i. [226, 128, i]) [128, 129, 130, 131, 132, 133, 134, 135, 136, 137, 138])"

definition space_prefix :: "string \<Rightarrow> nat" where
  "space_prefix s = (case find (\<lambda>p. has_prefix s p) space_seqs of None \<Rightarrow> 0 | Some p \<Rightarrow> length p)"

definition space_suffix :: "string \<Rightarrow> nat" where
  "space_suffix s = (case find (\<lambda>p. has_suffix s p) space_seqs of None \<Rightarrow> 0 | Some p \<Rightarrow> length p)"

lemma space_prefix_le: "space_prefix s \<le> length s"
proof (cases "find (\<lambda>p. has_prefix s p) space_seqs")
  case None
  then show ?thesis by (simp add: space_prefix_def)
next
  case (Some p)
  then have "has_prefix s p" by (simp add: find_Some_iff) blast
  then have "length p \<le> length s"
    by (metis has_prefix_def length_take min.absorb_iff2 nat_le_linear min.absorb2)
  with Some show ?thesis by (simp add: space_prefix_def)
qed

lemma space_suffix_le: "space_suffix s \<le> length s"
proof (cases "find (\<lambda>p. has_suffix s p) space_seqs")
  case None
  then show ?thesis by (simp add: space_suffix_def)
next
  case (Some p)
  then have "has_suffix s p" by (simp add: find_Some_iff) blast
  with Some show ?thesis by (simp add: space_suffix_def has_suffix_def)
qed

function trim_left_space :: "string \<Rightarrow> string" where
  "trim_left_space s =
     (let n = space_prefix s in if n = 0 then s else trim_left_space (drop n s))"
  by pat_completeness auto
termination
proof (relation "measure length")
  fix s :: string and n
  assume "n = space_prefix s" and "n \<noteq> 0"
  with space_prefix_le[of s] show "(drop n s, s) \<in> measure length" by auto
qed auto

function trim_right_space :: "string \<Rightarrow> string" where
  "trim_right_space s =
     (let n = space_suffix s in if n = 0 then s else trim_right_space (take (length s - n) s))"
  by pat_completeness auto
termination
proof (relation "measure length")
  fix s :: string and n
  assume "n = space_suffix s" and "n \<noteq> 0"
  with space_suffix_le[of s] show "(take (length s - n) s, s) \<in> measure length" by auto
qed auto

declare trim_left_space.simps [simp del] trim_right_space.simps [simp del]

definition trim_space :: "string \<Rightarrow> string" where
  "trim_space s = trim_right_space (trim_left_space s)"

lemma trim_space_id: "space_prefix s = 0 \<Longrightarrow> space_suffix s = 0 \<Longrightarrow> trim_space s = s"
  by (simp add: trim_space_def trim_left_space.simps trim_right_space.simps)

lemmas space_eval = space_prefix_def space_suffix_def space_seqs_def byte_seq_def has_prefix_def
  has_suffix_def char_of_def

lemma trim_space_Nil [simp]: "trim_space [] = []"
  by (rule trim_space_id) (simp_all add: space_eval)

subsection \<open>Strings without white space\<close>

text \<open>Printable ASCII characters other than the blank. White space begins and ends with bytes that are not plain.\<close>

definition plain_char :: "char \<Rightarrow> bool" where
  "plain_char c \<longleftrightarrow> 33 \<le> (of_char c :: nat) \<and> (of_char c :: nat) < 128"

lemma space_seq_ends:
  "\<forall>p \<in> set space_seqs. p \<noteq> [] \<and> \<not> plain_char (hd p) \<and> \<not> plain_char (last p)"
  by (simp add: space_seqs_def byte_seq_def plain_char_def)

lemma space_prefix_plain:
  assumes "plain_char c"
  shows "space_prefix (c # s) = 0"
proof -
  have "\<not> has_prefix (c # s) p" if "p \<in> set space_seqs" for p
    using space_seq_ends that assms by (cases p) (auto simp: has_prefix_def)
  then have "find (\<lambda>p. has_prefix (c # s) p) space_seqs = None" by (auto simp: find_None_iff)
  then show ?thesis by (simp add: space_prefix_def)
qed

lemma space_suffix_plain:
  assumes "plain_char c"
  shows "space_suffix (s @ [c]) = 0"
proof -
  have "\<not> has_suffix (s @ [c]) p" if p: "p \<in> set space_seqs" for p
  proof
    assume "has_suffix (s @ [c]) p"
    then obtain xs where "s @ [c] = xs @ p" unfolding has_suffix_def by (metis append_take_drop_id)
    moreover have "p \<noteq> []" using space_seq_ends p by blast
    ultimately have "last p = c" by (metis last_append last_snoc)
    with space_seq_ends p assms show False by blast
  qed
  then have "find (\<lambda>p. has_suffix (s @ [c]) p) space_seqs = None" by (auto simp: find_None_iff)
  then show ?thesis by (simp add: space_suffix_def)
qed

lemma trim_space_plain:
  assumes "s \<noteq> []" "plain_char (hd s)" "plain_char (last s)"
  shows "trim_space s = s"
  using assms space_prefix_plain[of "hd s" "tl s"] space_suffix_plain[of "last s" "butlast s"]
  by (intro trim_space_id) simp_all

lemma space_seqs_chars: "space_seqs =
    [[CHR 0x09], [CHR 0x0A], [CHR 0x0B], [CHR 0x0C], [CHR 0x0D], [CHR 0x20], [CHR 0xC2, CHR 0x85],
     [CHR 0xC2, CHR 0xA0], [CHR 0xE1, CHR 0x9A, CHR 0x80], [CHR 0xE2, CHR 0x80, CHR 0xA8],
     [CHR 0xE2, CHR 0x80, CHR 0xA9], [CHR 0xE2, CHR 0x80, CHR 0xAF], [CHR 0xE2, CHR 0x81, CHR 0x9F],
     [CHR 0xE3, CHR 0x80, CHR 0x80]] @ map (\<lambda>c. [CHR 0xE2, CHR 0x80, c])
       [CHR 0x80, CHR 0x81, CHR 0x82, CHR 0x83, CHR 0x84, CHR 0x85, CHR 0x86, CHR 0x87, CHR 0x88,
        CHR 0x89, CHR 0x8A]"
  by code_simp

lemma trim_blank_after:
  assumes "s \<noteq> []" "\<forall>c \<in> set s. plain_char c"
  shows "trim_space (s @ '' '') = s"
proof -
  have c: "plain_char (hd s)" "plain_char (last s)" using assms by auto
  have "trim_left_space (s @ '' '') = s @ '' ''"
    using assms(1) c(1) space_prefix_plain[of "hd s" "tl s @ '' ''"]
    by (subst trim_left_space.simps) (simp flip: append.simps(2))
  moreover have "space_suffix (s @ '' '') = 1"
    by (simp add: space_suffix_def space_seqs_chars has_suffix_def)
  then have "trim_right_space (s @ '' '') = trim_right_space s"
    by (subst trim_right_space.simps) simp
  moreover have "trim_right_space s = s"
    using assms(1) c(2) space_suffix_plain[of "last s" "butlast s"]
    by (subst trim_right_space.simps) simp
  ultimately show ?thesis by (simp add: trim_space_def)
qed

subsection \<open>Cutting and lowering\<close>

text \<open>\<^verbatim>\<open>strings.SplitN(s, sep, 2)\<close> for a separator of one byte: what comes before its first
  occurrence and, if there is one, what comes after.\<close>

definition split2 :: "char \<Rightarrow> string \<Rightarrow> string \<times> string option" where
  "split2 c s = (takeWhile (\<lambda>x. x \<noteq> c) s,
     if c \<in> set s then Some (tl (dropWhile (\<lambda>x. x \<noteq> c) s)) else None)"

lemma split2_join: "c \<notin> set a \<Longrightarrow> split2 c (a @ c # b) = (a, Some b)"
  by (induction a) (auto simp: split2_def)

lemma suffix_append: "has_suffix (s @ p) p" "trim_suffix (s @ p) p = s"
  by (simp_all add: has_suffix_def trim_suffix_def)

lemma suffix_within: "length p \<le> length t \<Longrightarrow> has_suffix (s @ t) p = has_suffix t p"
  by (auto simp: has_suffix_def)

text \<open>Lowering ASCII text is pointwise.\<close>

lemma to_lower_ascii: "\<forall>c \<in> set s. (of_char c :: nat) < 128 \<Longrightarrow> to_lower s = map lower_char s"
proof (induction s)
  case (Cons c s)
  then have "c \<noteq> CHR 0xC4" "c \<noteq> CHR 0xE2" by auto
  with Cons show ?case by simp
qed simp

end
