(* ===== verification/Go_Stdlib.thy ===== *)
theory Go_Stdlib
  imports Pastebin_Prelude
begin

section \<open>The parts of Go's standard library that compute\<close>

text \<open>
  \<^verbatim>\<open>strconv.ParseInt\<close> in base 10 (and \<^verbatim>\<open>strconv.Atoi\<close>, which agrees with it on a
  64-bit platform), \<^verbatim>\<open>hex.EncodeToString\<close> and the standard encoding of
  \<^verbatim>\<open>encoding/base64\<close>, with the facts the components rest on: a parsed number is in
  range, the hexadecimal form determines the bytes, decoding undoes encoding.
\<close>

subsection \<open>Decimal numbers\<close>

datatype num_error = ErrSyntax | ErrRange

definition digit_val :: "char \<Rightarrow> nat option" where
  "digit_val c = (let n = (of_char c :: nat) in if 48 \<le> n \<and> n \<le> 57 then Some (n - 48) else None)"

text \<open>
  The scan stops with a range error as soon as the accumulated value leaves 64 bits, even
  when an invalid character follows later, as \<^verbatim>\<open>ParseUint\<close> does.
\<close>

fun scan_uint :: "nat \<Rightarrow> string \<Rightarrow> num_error + nat" where
  "scan_uint n [] = Inr n"
| "scan_uint n (c # cs) =
     (case digit_val c of
        None \<Rightarrow> Inl ErrSyntax
      | Some d \<Rightarrow> if 2 ^ 64 \<le> 10 * n + d then Inl ErrRange else scan_uint (10 * n + d) cs)"

definition clamp_sign :: "bool \<Rightarrow> nat \<Rightarrow> int \<times> num_error option" where
  "clamp_sign neg un =
     (if \<not> neg \<and> 2 ^ 63 \<le> un then (max_int64, Some ErrRange)
      else if neg \<and> 2 ^ 63 < un then (min_int64, Some ErrRange)
      else (if neg then - int un else int un, None))"

definition ParseInt :: "string \<Rightarrow> int \<times> num_error option" where
  "ParseInt s =
     (let neg = (s \<noteq> [] \<and> hd s = CHR ''-'');
          digits = (if s \<noteq> [] \<and> (hd s = CHR ''+'' \<or> hd s = CHR ''-'') then tl s else s)
      in if digits = [] then (0, Some ErrSyntax)
         else case scan_uint 0 digits of
                Inl ErrSyntax \<Rightarrow> (0, Some ErrSyntax)
              | Inl ErrRange \<Rightarrow> clamp_sign neg (2 ^ 64 - 1)
              | Inr un \<Rightarrow> clamp_sign neg un)"

abbreviation Atoi :: "string \<Rightarrow> int \<times> num_error option" where "Atoi \<equiv> ParseInt"

lemma clamp_sign_range: "in_int64 (fst (clamp_sign neg un))"
  by (auto simp: clamp_sign_def max_int64_def min_int64_def)

lemma ParseInt_range: "in_int64 (fst (ParseInt s))"
  by (auto simp: ParseInt_def Let_def clamp_sign_range
      split: sum.splits num_error.splits intro: clamp_sign_range[THEN conjunct1] clamp_sign_range[THEN conjunct2])
     (auto simp: min_int64_def max_int64_def)

subsection \<open>Hexadecimal\<close>

definition hex_digit :: "nat \<Rightarrow> char" where
  "hex_digit n = (if n < 10 then char_of (48 + n) else char_of (87 + n))"

definition hex_byte :: "char \<Rightarrow> string" where
  "hex_byte c = [hex_digit (of_char c div 16), hex_digit (of_char c mod 16)]"

definition hex_encode :: "bytes \<Rightarrow> string" where
  "hex_encode bs = concat (map hex_byte bs)"

lemma of_char_hex_digit: "n < 16 \<Longrightarrow> of_char (hex_digit n) = (if n < 10 then 48 + n else 87 + n)"
  by (simp add: hex_digit_def)

lemma hex_digit_eq_iff:
  assumes "m < 16" and "n < 16"
  shows "hex_digit m = hex_digit n \<longleftrightarrow> m = n"
proof
  assume "hex_digit m = hex_digit n"
  then have "of_char (hex_digit m) = (of_char (hex_digit n) :: nat)" by simp
  then show "m = n"
    using assms by (simp only: of_char_hex_digit) (simp split: if_splits)
qed simp

lemma hex_byte_inject: "hex_byte a = hex_byte b \<longleftrightarrow> a = b"
proof
  assume "hex_byte a = hex_byte b"
  then have "of_char a div 16 = (of_char b div 16 :: nat)" "of_char a mod 16 = (of_char b mod 16 :: nat)"
    by (auto simp: hex_byte_def hex_digit_eq_iff less_mult_imp_div_less)
  then have "of_char a = (of_char b :: nat)" by (metis div_mult_mod_eq)
  then show "a = b" by simp
qed simp

lemma hex_encode_inject: "hex_encode xs = hex_encode ys \<longleftrightarrow> xs = ys"
proof (induction xs arbitrary: ys)
  case Nil
  then show ?case by (cases ys) (auto simp: hex_encode_def hex_byte_def)
next
  case (Cons x xs)
  have len: "length (hex_byte c) = 2" for c by (simp add: hex_byte_def)
  show ?case
  proof (cases ys)
    case Nil
    then show ?thesis by (simp add: hex_encode_def hex_byte_def)
  next
    case (Cons y zs)
    with Cons.IH[of zs] show ?thesis
      by (auto simp: hex_encode_def append_eq_append_conv len hex_byte_inject)
  qed
qed

definition hex_val :: "char \<Rightarrow> nat option" where
  "hex_val c = (let n = of_char c in
     if 48 \<le> n \<and> n \<le> 57 then Some (n - 48)
     else if 97 \<le> n \<and> n \<le> 102 then Some (n - 87)
     else if 65 \<le> n \<and> n \<le> 70 then Some (n - 55) else None)"

lemma hex_val_digit: "n < 16 \<Longrightarrow> hex_val (hex_digit n) = Some n"
  by (simp add: hex_val_def of_char_hex_digit Let_def)

subsection \<open>Base64, standard encoding\<close>

text \<open>The alphabet A-Z, a-z, 0-9, + and / by character ranges.\<close>

definition b64_char :: "nat \<Rightarrow> char" where
  "b64_char n =
     (if n < 26 then char_of (65 + n)
      else if n < 52 then char_of (71 + n)
      else if n < 62 then char_of (n - 4)
      else if n = 62 then CHR ''+'' else CHR ''/'')"

definition b64_val :: "char \<Rightarrow> nat option" where
  "b64_val c = (let n = of_char c in
     if 65 \<le> n \<and> n \<le> 90 then Some (n - 65)
     else if 97 \<le> n \<and> n \<le> 122 then Some (n - 71)
     else if 48 \<le> n \<and> n \<le> 57 then Some (n + 4)
     else if n = 43 then Some 62
     else if n = 47 then Some 63 else None)"

fun b64_encode :: "bytes \<Rightarrow> string" where
  "b64_encode [] = []"
| "b64_encode [a] =
     (let v = of_char a * 65536
      in [b64_char (v div 262144), b64_char (v div 4096 mod 64), CHR ''='', CHR ''=''])"
| "b64_encode [a, b] =
     (let v = of_char a * 65536 + of_char b * 256
      in [b64_char (v div 262144), b64_char (v div 4096 mod 64), b64_char (v div 64 mod 64),
          CHR ''=''])"
| "b64_encode (a # b # c # rest) =
     (let v = of_char a * 65536 + of_char b * 256 + of_char c
      in [b64_char (v div 262144), b64_char (v div 4096 mod 64), b64_char (v div 64 mod 64),
          b64_char (v mod 64)] @ b64_encode rest)"

text \<open>
  Decoding skips carriage returns and newlines wherever they stand, then reads quanta of
  four characters; padding may only close the last one. Non-zero trailing bits are accepted,
  as by a non-strict \<^verbatim>\<open>Encoding\<close>.
\<close>

fun b64_quanta :: "string \<Rightarrow> bytes option" where
  "b64_quanta [] = Some []"
| "b64_quanta (w # x # y # z # rest) =
     (case (b64_val w, b64_val x) of
        (Some p, Some q) \<Rightarrow>
          (if y = CHR ''='' then
             (if z = CHR ''='' \<and> rest = []
              then Some [char_of ((p * 262144 + q * 4096) div 65536)] else None)
           else (case b64_val y of
              None \<Rightarrow> None
            | Some r \<Rightarrow>
                (if z = CHR ''='' then
                   (if rest = []
                    then (let v = p * 262144 + q * 4096 + r * 64
                          in Some [char_of (v div 65536), char_of (v div 256 mod 256)])
                    else None)
                 else (case b64_val z of
                    None \<Rightarrow> None
                  | Some s \<Rightarrow>
                      (let v = p * 262144 + q * 4096 + r * 64 + s
                       in map_option (\<lambda>bs. char_of (v div 65536) # char_of (v div 256 mod 256)
                                           # char_of (v mod 256) # bs)
                            (b64_quanta rest))))))
      | _ \<Rightarrow> None)"
| "b64_quanta _ = None"

definition b64_decode :: "string \<Rightarrow> bytes option" where
  "b64_decode s = b64_quanta (filter (\<lambda>c. c \<noteq> CHR 0x0D \<and> c \<noteq> CHR 0x0A) s)"

lemma of_char_b64_char:
  "n < 64 \<Longrightarrow> of_char (b64_char n) =
     (if n < 26 then 65 + n else if n < 52 then 71 + n else if n < 62 then n - 4
      else if n = 62 then 43 else 47 :: nat)"
  by (simp add: b64_char_def)

lemma b64_val_char: "n < 64 \<Longrightarrow> b64_val (b64_char n) = Some n"
  unfolding b64_val_def Let_def of_char_b64_char by auto

lemma b64_char_plain:
  assumes "n < 64"
  shows "b64_char n \<noteq> CHR 0x0D \<and> b64_char n \<noteq> CHR 0x0A \<and> b64_char n \<noteq> CHR ''=''"
proof -
  have "of_char (b64_char n) \<notin> {13, 10, 61 :: nat}"
    unfolding of_char_b64_char[OF assms] using assms by auto
  then show ?thesis by auto
qed

text \<open>Splitting a 24-bit group into 6-bit digits and back.\<close>

lemma sextets2:
  fixes v :: nat
  shows "(v div 262144) * 262144 + (v div 4096 mod 64) * 4096 = (v div 4096) * 4096"
proof -
  have "v div 262144 = v div 4096 div 64" by (simp add: div_mult2_eq[symmetric])
  then have "v div 4096 = 64 * (v div 262144) + v div 4096 mod 64" by simp
  then show ?thesis by linarith
qed

lemma sextets3:
  fixes v :: nat
  shows "(v div 262144) * 262144 + (v div 4096 mod 64) * 4096 + (v div 64 mod 64) * 64
    = (v div 64) * 64"
proof -
  have "v div 4096 = v div 64 div 64" by (simp add: div_mult2_eq[symmetric])
  then have "v div 64 = 64 * (v div 4096) + v div 64 mod 64" by simp
  then show ?thesis using sextets2[of v] by linarith
qed

lemma sextets4:
  fixes v :: nat
  shows "(v div 262144) * 262144 + (v div 4096 mod 64) * 4096 + (v div 64 mod 64) * 64 + v mod 64 = v"
  using sextets3[of v] by simp

lemma sextet_bounds:
  assumes "v < 16777216"
  shows "v div 262144 < 64" "v div 4096 mod 64 < 64" "v div 64 mod 64 < 64" "v mod 64 < (64::nat)"
  using assms by (simp_all add: less_mult_imp_div_less)

lemma of_char_zero: "of_char (CHR 0x00) = (0 :: nat)"
  by simp

lemma group_bound: "of_char a * 65536 + of_char b * 256 + of_char c < (16777216 :: nat)"
  using nat_of_char_less_256[of a] nat_of_char_less_256[of b] nat_of_char_less_256[of c] by linarith

lemma char_of_high [simp]: "char_of (256 * n + of_char b :: nat) = b"
  by (metis char_of_char char_of_mod_256 mod_mult_self4)

lemma byte_high: "b < 256 \<Longrightarrow> c < 256 \<Longrightarrow> (a * 65536 + b * 256 + c) div 65536 = (a :: nat)"
  by (intro div_nat_eqI) simp_all

lemma group_bytes:
  fixes a b c :: char
  defines "v \<equiv> of_char a * 65536 + of_char b * 256 + (of_char c :: nat)"
  shows "char_of (v div 65536) = a" "char_of (v div 256 mod 256) = b" "char_of (v mod 256) = c"
proof -
  note bnd = nat_of_char_less_256[of b] nat_of_char_less_256[of c]
  have "v div 65536 = of_char a" unfolding v_def by (rule byte_high[OF bnd])
  then show "char_of (v div 65536) = a" by simp
  have "v div 256 = of_char a * 256 + of_char b" using bnd unfolding v_def by (intro div_nat_eqI) simp_all
  then show "char_of (v div 256 mod 256) = b" by (simp add: mod_nat_eqI)
  have "v = 256 * (of_char a * 256 + of_char b) + of_char c" unfolding v_def by simp
  then show "char_of (v mod 256) = c" by (simp only: char_of_mod_256 char_of_high)
qed

lemmas sextet_chars = sextet_bounds[THEN b64_val_char] sextet_bounds[THEN b64_char_plain]

lemma b64_quanta_4:
  assumes "v < 16777216"
  shows "b64_quanta (b64_char (v div 262144) # b64_char (v div 4096 mod 64)
      # b64_char (v div 64 mod 64) # b64_char (v mod 64) # rest) =
    map_option (\<lambda>bs. char_of (v div 65536) # char_of (v div 256 mod 256) # char_of (v mod 256) # bs)
      (b64_quanta rest)"
  using sextet_chars[OF assms] by (simp only: b64_quanta.simps option.case prod.case sextets4 Let_def if_False)

lemma b64_quanta_3:
  assumes "v < 16777216" and "v div 64 * 64 = v"
  shows "b64_quanta [b64_char (v div 262144), b64_char (v div 4096 mod 64),
      b64_char (v div 64 mod 64), CHR ''=''] = Some [char_of (v div 65536), char_of (v div 256 mod 256)]"
  using sextet_chars[OF assms(1)]
  by (simp only: b64_quanta.simps option.case prod.case sextets3 assms(2) Let_def if_False if_True simp_thms)

lemma b64_quanta_2:
  assumes "v < 16777216" and "v div 4096 * 4096 = v"
  shows "b64_quanta [b64_char (v div 262144), b64_char (v div 4096 mod 64), CHR ''='', CHR ''=''] =
    Some [char_of (v div 65536)]"
  using sextet_chars[OF assms(1)]
  by (simp only: b64_quanta.simps option.case prod.case sextets2 assms(2) Let_def if_False if_True simp_thms)

lemma b64_quanta_encode: "b64_quanta (b64_encode xs) = Some xs"
proof (induction xs rule: b64_encode.induct)
  case (2 a)
  let ?v = "of_char a * 65536 :: nat"
  have "?v < 16777216" using group_bound[of a "CHR 0x00" "CHR 0x00"] by simp
  moreover have "?v div 4096 * 4096 = ?v" by simp
  ultimately show ?case
    using b64_quanta_2[of ?v] group_bytes(1)[of a "CHR 0x00" "CHR 0x00"]
    by (simp only: b64_encode.simps Let_def) simp
next
  case (3 a b)
  let ?v = "of_char a * 65536 + of_char b * 256 :: nat"
  have "?v < 16777216" using group_bound[of a b "CHR 0x00"] by simp
  moreover have "?v = 64 * (of_char a * 1024 + of_char b * 4)" by simp
  then have "?v div 64 * 64 = ?v" by (metis nonzero_mult_div_cancel_left mult.commute zero_neq_numeral)
  ultimately show ?case
    using b64_quanta_3[of ?v] group_bytes(1,2)[of a b "CHR 0x00"]
    by (simp only: b64_encode.simps Let_def of_char_zero add_0_right)
next
  case (4 a b c rest)
  then show ?case
    using b64_quanta_4[OF group_bound[of a b c]] group_bytes[of a b c]
    by (simp only: b64_encode.simps Let_def append.simps option.map)
qed simp

lemma b64_encode_plain: "filter (\<lambda>c. c \<noteq> CHR 0x0D \<and> c \<noteq> CHR 0x0A) (b64_encode xs) = b64_encode xs"
proof (induction xs rule: b64_encode.induct)
  case (2 a)
  show ?case
    using sextet_chars[OF group_bound[of a "CHR 0x00" "CHR 0x00"]] by (simp add: Let_def)
next
  case (3 a b)
  show ?case
    using sextet_chars[OF group_bound[of a b "CHR 0x00"]] by (simp add: Let_def)
next
  case (4 a b c rest)
  then show ?case
    using sextet_chars[OF group_bound[of a b c]] by (simp add: Let_def)
qed simp

lemma b64_roundtrip: "b64_decode (b64_encode xs) = Some xs"
  by (simp add: b64_decode_def b64_encode_plain b64_quanta_encode)

lemma b64_encode_eq_Nil_iff [simp]: "b64_encode xs = [] \<longleftrightarrow> xs = []"
  by (cases xs rule: b64_encode.cases) (auto simp: Let_def)

end
