(* ===== verification/Go_Text.thy ===== *)
theory Go_Text
  imports Go_Stdlib
begin

section \<open>Printing numbers, and text through JSON\<close>

text \<open>
  Decimal printing (\<^verbatim>\<open>%d\<close>), which \<^verbatim>\<open>ParseInt\<close> reads back, and what a Go string becomes when it
  is written by \<^verbatim>\<open>encoding/json\<close> and read again: every byte that does not belong to a valid
  UTF-8 sequence turns into the replacement character U+FFFD.
\<close>

subsection \<open>Decimal printing\<close>

definition digit_char :: "nat \<Rightarrow> char" where "digit_char n = char_of (48 + n)"

fun show_nat :: "nat \<Rightarrow> string" where
  "show_nat n = (if n < 10 then [digit_char n] else show_nat (n div 10) @ [digit_char (n mod 10)])"

declare show_nat.simps [simp del]

definition show_int :: "int \<Rightarrow> string" where
  "show_int i = (if i < 0 then CHR ''-'' # show_nat (nat (- i)) else show_nat (nat i))"

lemma digit_val_char: "d < 10 \<Longrightarrow> digit_val (digit_char d) = Some d"
  by (simp add: digit_val_def digit_char_def Let_def)

lemma scan_uint_append:
  "scan_uint a (xs @ ys) = (case scan_uint a xs of Inl e \<Rightarrow> Inl e | Inr m \<Rightarrow> scan_uint m ys)"
  by (induction a xs rule: scan_uint.induct) (auto split: option.splits)

lemma scan_show_nat: "n < 2 ^ 64 \<Longrightarrow> scan_uint 0 (show_nat n) = Inr n"
proof (induction n rule: show_nat.induct)
  case (1 n)
  show ?case
  proof (cases "n < 10")
    case True
    then show ?thesis by (subst show_nat.simps) (simp add: digit_val_char)
  next
    case False
    from False 1 have "scan_uint 0 (show_nat (n div 10)) = Inr (n div 10)" by simp
    moreover have "10 * (n div 10) + n mod 10 = n" by simp
    ultimately show ?thesis
      using False "1.prems" by (subst show_nat.simps) (simp add: scan_uint_append digit_val_char)
  qed
qed

lemma show_nat_head: "\<exists>c cs. show_nat n = c # cs \<and> c \<noteq> CHR ''+'' \<and> c \<noteq> CHR ''-''"
proof (induction n rule: show_nat.induct)
  case (1 n)
  show ?case
  proof (cases "n < 10")
    case True
    then have "of_char (digit_char n) = 48 + n" by (simp add: digit_char_def)
    then have "of_char (digit_char n) \<noteq> (of_char (CHR ''+'') :: nat)"
      and "of_char (digit_char n) \<noteq> (of_char (CHR ''-'') :: nat)" by simp_all
    then have "digit_char n \<noteq> CHR ''+''" "digit_char n \<noteq> CHR ''-''" by auto
    with True show ?thesis by (subst show_nat.simps) simp
  next
    case False
    with 1 obtain c cs where "show_nat (n div 10) = c # cs" "c \<noteq> CHR ''+''" "c \<noteq> CHR ''-''" by blast
    with False show ?thesis by (subst show_nat.simps) simp
  qed
qed

lemma ParseInt_show_int: "in_int64 i \<Longrightarrow> ParseInt (show_int i) = (i, None)"
proof (cases "i < 0")
  case True
  assume i: "in_int64 i"
  let ?n = "nat (- i)"
  from i have n: "?n \<le> 2 ^ 63" by (simp add: min_int64_def nat_le_iff)
  obtain c cs where s: "show_nat ?n = c # cs" using show_nat_head by blast
  have "scan_uint 0 (show_nat ?n) = Inr ?n" using n by (intro scan_show_nat) simp
  with True n s show ?thesis by (simp add: ParseInt_def show_int_def clamp_sign_def)
next
  case False
  assume i: "in_int64 i"
  let ?n = "nat i"
  from i False have n: "?n < 2 ^ 63" by (simp add: max_int64_def nat_less_iff)
  obtain c cs where s: "show_nat ?n = c # cs" "c \<noteq> CHR ''+''" "c \<noteq> CHR ''-''" using show_nat_head by blast
  have "scan_uint 0 (show_nat ?n) = Inr ?n" using n by (intro scan_show_nat) simp
  with False n s show ?thesis by (simp add: ParseInt_def show_int_def clamp_sign_def)
qed

lemma digit_char_range: "d < 10 \<Longrightarrow> 48 \<le> (of_char (digit_char d) :: nat) \<and> (of_char (digit_char d) :: nat) \<le> 57"
  by (simp add: digit_char_def)

lemma show_nat_digits: "c \<in> set (show_nat n) \<Longrightarrow> 48 \<le> (of_char c :: nat) \<and> (of_char c :: nat) \<le> 57"
proof (induction n rule: show_nat.induct)
  case (1 n)
  have "set (show_nat n) = (if n < 10 then {digit_char n} else insert (digit_char (n mod 10)) (set (show_nat (n div 10))))"
    by (subst show_nat.simps) simp
  with 1 digit_char_range[of n] digit_char_range[of "n mod 10"] show ?case by (auto split: if_splits)
qed

lemma show_nat_no: "\<not> (48 \<le> (of_char c :: nat) \<and> (of_char c :: nat) \<le> 57) \<Longrightarrow> c \<notin> set (show_nat n)"
  using show_nat_digits by blast

lemma contains_char: "contains s [c] \<longleftrightarrow> c \<in> set s"
  by (induction s) (auto simp: has_prefix_def)

lemma plain_show_int: "c \<in> set (show_int i) \<Longrightarrow> plain_char c \<and> c \<noteq> CHR '','' \<and> c \<noteq> CHR ''@''"
  using show_nat_digits[of c "nat i"] show_nat_digits[of c "nat (- i)"]
  by (auto simp: show_int_def plain_char_def split: if_splits)

lemma show_int_ne: "show_int k \<noteq> []"
  using show_nat_head[of "nat k"] show_nat_head[of "nat (- k)"] by (auto simp: show_int_def)

subsection \<open>UTF-8\<close>

definition in_range :: "nat \<Rightarrow> nat \<Rightarrow> char \<Rightarrow> bool" where
  "in_range lo hi c \<longleftrightarrow> lo \<le> of_char c \<and> of_char c \<le> hi"

abbreviation cont :: "char \<Rightarrow> bool" where "cont \<equiv> in_range 128 191"

text \<open>\<^verbatim>\<open>strings.ToUpper\<close> on ASCII text; the digits of a percent escape.\<close>

definition to_upper :: "string \<Rightarrow> string" where
  "to_upper s = map (\<lambda>c. if in_range 97 122 c then char_of ((of_char c :: nat) - 32) else c) s"

definition upper_hex :: "nat \<Rightarrow> char" where
  "upper_hex n = (if n < 10 then char_of (48 + n) else char_of (55 + n))"

lemma of_char_upper_hex: "n < 16 \<Longrightarrow> of_char (upper_hex n) = (if n < 10 then 48 + n else 55 + n)"
  by (simp add: upper_hex_def)

text \<open>The length of the valid sequence at the start of a string, 0 if there is none.\<close>

fun utf8_len :: "string \<Rightarrow> nat" where
  "utf8_len [] = 0"
| "utf8_len (a # s) =
     (if in_range 0 127 a then 1
      else if in_range 194 223 a then
        (case s of b # _ \<Rightarrow> if cont b then 2 else 0 | _ \<Rightarrow> 0)
      else if in_range 224 239 a then
        (case s of
           b # c # _ \<Rightarrow>
             if (if in_range 224 224 a then in_range 160 191 b
                 else if in_range 237 237 a then in_range 128 159 b else cont b) \<and> cont c
             then 3 else 0
         | _ \<Rightarrow> 0)
      else if in_range 240 244 a then
        (case s of
           b # c # d # _ \<Rightarrow>
             if (if in_range 240 240 a then in_range 144 191 b
                 else if in_range 244 244 a then in_range 128 143 b else cont b) \<and> cont c \<and> cont d
             then 4 else 0
         | _ \<Rightarrow> 0)
      else 0)"

lemma utf8_len_le: "utf8_len s \<le> length s"
  by (cases s rule: utf8_len.cases) (auto split: list.splits)

definition replacement :: string where "replacement = byte_seq [239, 191, 189]"

function utf8_coerce :: "string \<Rightarrow> string" where
  "utf8_coerce [] = []"
| "utf8_coerce (a # s) =
     (let n = utf8_len (a # s)
      in if n = 0 then replacement @ utf8_coerce s
         else take n (a # s) @ utf8_coerce (drop n (a # s)))"
  by pat_completeness auto
termination
  by (relation "measure length") auto

function utf8_valid :: "string \<Rightarrow> bool" where
  "utf8_valid [] = True"
| "utf8_valid (a # s) =
     (let n = utf8_len (a # s) in if n = 0 then False else utf8_valid (drop n (a # s)))"
  by pat_completeness auto
termination
  by (relation "measure length") auto

declare utf8_valid.simps(2) [simp del] utf8_coerce.simps(2) [simp del]

lemma utf8_coerce_valid: "utf8_valid s \<Longrightarrow> utf8_coerce s = s"
proof (induction s rule: utf8_valid.induct)
  case (2 a s)
  then show ?case
    by (auto simp: utf8_valid.simps(2) utf8_coerce.simps(2) Let_def split: if_splits)
qed simp

end
