(* ===== verification/Paste_Model.thy ===== *)
theory Paste_Model
  imports Pastebin_Prelude
begin

section \<open>Pastes\<close>

text \<open>
  The data of \<^verbatim>\<open>src/src/model/models.go\<close>: the stored paste, its entry in list views and
  the response to a creation. A pointer to a time is an option; \<^typ>\<open>int\<close> stands for Go's
  \<^verbatim>\<open>int\<close>, whose values here are small counters.
\<close>

definition VisibilityPublic :: int where "VisibilityPublic = 0"
definition VisibilityUnlisted :: int where "VisibilityUnlisted = 1"

record paste =
  p_ID :: string
  p_Title :: string
  p_Content :: bytes
  p_ContentType :: string
  p_Language :: string
  p_Visibility :: int
  p_IsLink :: bool
  p_ExpiresAt :: "instant option"
  p_BurnAfter :: int
  p_DeleteTokenHash :: string
  p_Views :: int
  p_CreatedAt :: instant
  p_UpdatedAt :: instant

record paste_list_item =
  li_ID :: string
  li_Title :: string
  li_Language :: string
  li_Views :: int
  li_ExpiresAt :: "instant option"
  li_BurnAfter :: int
  li_CreatedAt :: instant

record create_response =
  cr_ID :: string
  cr_Title :: string
  cr_Language :: string
  cr_Visibility :: int
  cr_IsLink :: bool
  cr_BurnAfter :: int
  cr_ExpiresAt :: "instant option"
  cr_Views :: int
  cr_CreatedAt :: instant
  cr_Link :: string
  cr_OwnerToken :: string

text \<open>The zero value of the struct, which a composite literal fills in.\<close>

definition zero_paste :: paste where
  "zero_paste = \<lparr>p_ID = [], p_Title = [], p_Content = [], p_ContentType = [], p_Language = [],
     p_Visibility = 0, p_IsLink = False, p_ExpiresAt = None, p_BurnAfter = 0,
     p_DeleteTokenHash = [], p_Views = 0, p_CreatedAt = zero_time, p_UpdatedAt = zero_time\<rparr>"

definition ToListItem :: "paste \<Rightarrow> paste_list_item" where
  "ToListItem p = \<lparr>li_ID = p_ID p, li_Title = p_Title p, li_Language = p_Language p,
     li_Views = p_Views p, li_ExpiresAt = p_ExpiresAt p, li_BurnAfter = p_BurnAfter p,
     li_CreatedAt = p_CreatedAt p\<rparr>"

text \<open>Two readings of expiry: the handlers' (\<^verbatim>\<open>ExpiresAt.Before(now)\<close>) and the queries'
  (\<^verbatim>\<open>expires_at <= now\<close>). They differ in the one nanosecond of equality.\<close>

definition expired_before :: "instant \<Rightarrow> paste \<Rightarrow> bool" where
  "expired_before now p \<longleftrightarrow> (case p_ExpiresAt p of None \<Rightarrow> False | Some t \<Rightarrow> t < now)"

definition expired_at :: "instant \<Rightarrow> paste \<Rightarrow> bool" where
  "expired_at now p \<longleftrightarrow> (case p_ExpiresAt p of None \<Rightarrow> False | Some t \<Rightarrow> t \<le> now)"

lemma expired_before_imp_at: "expired_before now p \<Longrightarrow> expired_at now p"
  by (auto simp: expired_before_def expired_at_def split: option.splits)

end
