(* ===== verification/Http.thy ===== *)
theory Http
  imports Go_Text Paste_Model
begin

section \<open>Requests, responses and content negotiation\<close>

text \<open>
  The HTTP vocabulary of the handlers: requests, the replies they write, the canonical error
  codes of \<^verbatim>\<open>src/src/handler/paste.go\<close> and the client detection of
  \<^verbatim>\<open>src/src/common/httputil/detect.go\<close>.

  What the handlers call and the sources do not define (SHA-256, MIME sniffing, URL and
  media-type parsing, JSON and form decoding, RFC 3339 printing) is a parameter: a record of
  functions that every handler takes as its first argument. No property assumes more of them
  than it states.
\<close>

subsection \<open>Requests and library functions\<close>

record http_request =
  rq_method :: string
  rq_path :: string
  rq_txt :: bool                              \<comment> \<open>the flag of the txt-extension middleware\<close>
  rq_tls :: bool
  rq_host :: string
  rq_header :: "string \<Rightarrow> string"          \<comment> \<open>Header.Get: empty when absent\<close>
  rq_query :: "string \<Rightarrow> string option"    \<comment> \<open>first value of a query parameter\<close>
  rq_body :: bytes                            \<comment> \<open>what is left to read of the body\<close>
  rq_maxbytes :: "int option"                 \<comment> \<open>the limit of http.MaxBytesReader around the body\<close>
  rq_form :: "(string \<Rightarrow> string option) option"  \<comment> \<open>PostForm, once the form has been parsed\<close>

record create_request =
  q_Content :: bytes
  q_Title :: string
  q_Language :: string
  q_Visibility :: string
  q_ExpiresIn :: string
  q_BurnAfter :: int
  q_ContentType :: string
  q_IsLink :: bool

definition zero_create_request :: create_request where
  "zero_create_request = \<lparr>q_Content = [], q_Title = [], q_Language = [], q_Visibility = [],
     q_ExpiresIn = [], q_BurnAfter = 0, q_ContentType = [], q_IsLink = False\<rparr>"

record multipart =
  mp_value :: "string \<Rightarrow> string option"
  mp_file :: "string \<Rightarrow> (string \<times> bytes) option"  \<comment> \<open>name and bytes of the first file of a field\<close>

record golib =
  lib_sha256 :: "bytes \<Rightarrow> bytes"
  lib_detect :: "bytes \<Rightarrow> string"                            \<comment> \<open>http.DetectContentType\<close>
  lib_url :: "string \<Rightarrow> (string \<times> string) option"            \<comment> \<open>url.Parse: scheme and host\<close>
  lib_json_create :: "bytes \<Rightarrow> create_request option"
  lib_json_token :: "bytes \<Rightarrow> string"
  lib_form :: "bytes \<Rightarrow> (string \<Rightarrow> string option) \<times> bool"  \<comment> \<open>url.ParseQuery: values, well-formed\<close>
  lib_multipart :: "string \<Rightarrow> bytes \<Rightarrow> multipart option"
  lib_parse_media :: "string \<Rightarrow> (string \<times> (string \<times> string) list) option"
  lib_format_media :: "string \<Rightarrow> (string \<times> string) list \<Rightarrow> string"
  lib_rfc3339 :: "instant \<Rightarrow> string"
  lib_quote :: "string \<Rightarrow> string"                            \<comment> \<open>strconv.Quote\<close>

definition opt_str :: "string option \<Rightarrow> string" where
  "opt_str x = (case x of None \<Rightarrow> [] | Some s \<Rightarrow> s)"

text \<open>\<^verbatim>\<open>r.URL.Query().Get\<close>, and the two readings of a form: urlencoded bodies come before the
  query, multipart values after it. Bodies are only parsed for POST, PUT and PATCH.\<close>

definition query_get :: "http_request \<Rightarrow> string \<Rightarrow> string" where
  "query_get r k = opt_str (rq_query r k)"

definition parses_body :: "http_request \<Rightarrow> bool" where
  "parses_body r \<longleftrightarrow> rq_method r = ''POST'' \<or> rq_method r = ''PUT'' \<or> rq_method r = ''PATCH''"

text \<open>What a reader of the body gets: with a \<^verbatim>\<open>MaxBytesReader\<close> the bytes up to its limit, then an
  error.\<close>

definition body_bytes :: "http_request \<Rightarrow> bytes" where
  "body_bytes r = (case rq_maxbytes r of None \<Rightarrow> rq_body r | Some m \<Rightarrow> take (nat m) (rq_body r))"

definition body_overrun :: "http_request \<Rightarrow> bool" where
  "body_overrun r \<longleftrightarrow> (case rq_maxbytes r of None \<Rightarrow> False | Some m \<Rightarrow> int (length (rq_body r)) > m)"

datatype form_error = FormTooLarge | FormInvalid

text \<open>\<^verbatim>\<open>Request.ParseForm\<close>: a form that was parsed before is kept and reported without error. Only a
  urlencoded body is read; without a \<^verbatim>\<open>MaxBytesReader\<close> it may have 10 MiB.\<close>

definition ParseForm ::
  "golib \<Rightarrow> http_request \<Rightarrow> (string \<Rightarrow> string option) \<times> form_error option" where
  "ParseForm L r =
     (case rq_form r of
        Some f \<Rightarrow> (f, None)
      | None \<Rightarrow>
          if \<not> parses_body r then (Map.empty, None)
          else
            let ct = rq_header r ''Content-Type''
            in case lib_parse_media L (if ct = [] then ''application/octet-stream'' else ct) of
                 None \<Rightarrow> (Map.empty, Some FormInvalid)
               | Some (mt, _) \<Rightarrow>
                   if mt \<noteq> ''application/x-www-form-urlencoded'' then (Map.empty, None)
                   else if body_overrun r then (Map.empty, Some FormTooLarge)
                   else if rq_maxbytes r = None \<and> length (rq_body r) > 10485760
                   then (Map.empty, Some FormInvalid)
                   else (let (f, ok) = lib_form L (rq_body r) in (f, if ok then None else Some FormInvalid)))"

text \<open>\<^verbatim>\<open>Request.ParseMultipartForm\<close>.\<close>

definition ParseMultipartForm :: "golib \<Rightarrow> http_request \<Rightarrow> form_error + multipart" where
  "ParseMultipartForm L r =
     (if body_overrun r then Inl FormTooLarge
      else case lib_multipart L (rq_header r ''Content-Type'') (rq_body r) of
             None \<Rightarrow> Inl FormInvalid | Some mp \<Rightarrow> Inr mp)"

definition form_value :: "http_request \<Rightarrow> (string \<Rightarrow> string option) \<Rightarrow> string \<Rightarrow> string" where
  "form_value r post k = opt_str (case post k of Some v \<Rightarrow> Some v | None \<Rightarrow> rq_query r k)"

definition multipart_value :: "http_request \<Rightarrow> multipart \<Rightarrow> string \<Rightarrow> string" where
  "multipart_value r mp k = opt_str (case rq_query r k of Some v \<Rightarrow> Some v | None \<Rightarrow> mp_value mp k)"

subsection \<open>Replies\<close>

datatype jval = JStr string | JInt int | JBool bool | JArr "jval list" | JMap "(string \<times> jval) list"

datatype reply_body =
    JError string string
  | JPaste paste
  | JCreated create_response
  | JMessage string
  | JPage "paste_list_item list" int int int int   \<comment> \<open>items, page, limit, total, pages\<close>
  | JObj "(string \<times> jval) list"
  | Text string
  | Raw bytes
  | NoBody

record reply =
  rp_status :: int
  rp_header :: "string \<Rightarrow> string option"
  rp_body :: reply_body

definition httpErrCode :: "int \<Rightarrow> string" where
  "httpErrCode status =
     (if status = 400 then ''BAD_REQUEST''
      else if status = 401 then ''UNAUTHORIZED''
      else if status = 403 then ''FORBIDDEN''
      else if status = 404 then ''NOT_FOUND''
      else if status = 405 then ''METHOD_NOT_ALLOWED''
      else if status = 409 then ''CONFLICT''
      else if status = 410 then ''GONE''
      else if status = 413 then ''PAYLOAD_TOO_LARGE''
      else if status = 429 then ''RATE_LIMITED''
      else if status = 503 then ''MAINTENANCE''
      else ''SERVER_ERROR'')"

definition mapAPIErrorCodeToHTTPStatus :: "string \<Rightarrow> int" where
  "mapAPIErrorCodeToHTTPStatus code =
     (if code = ''BAD_REQUEST'' \<or> code = ''VALIDATION_FAILED'' then 400
      else if code = ''UNAUTHORIZED'' \<or> code = ''TOKEN_EXPIRED'' \<or> code = ''TOKEN_INVALID'' then 401
      else if code = ''FORBIDDEN'' \<or> code = ''ACCOUNT_LOCKED'' \<or> code = ''CSRF_FAILED'' then 403
      else if code = ''NOT_FOUND'' then 404
      else if code = ''METHOD_NOT_ALLOWED'' then 405
      else if code = ''CONFLICT'' then 409
      else if code = ''GONE'' then 410
      else if code = ''PAYLOAD_TOO_LARGE'' then 413
      else if code = ''RATE_LIMITED'' then 429
      else if code = ''MAINTENANCE'' then 503
      else 500)"

definition writeJSON :: "int \<Rightarrow> reply_body \<Rightarrow> reply" where
  "writeJSON status b = \<lparr>rp_status = status, rp_header = [''Content-Type'' \<mapsto> ''application/json''],
     rp_body = b\<rparr>"

definition sendAPIError :: "string \<Rightarrow> string \<Rightarrow> reply" where
  "sendAPIError code message = writeJSON (mapAPIErrorCodeToHTTPStatus code) (JError code message)"

definition text_reply :: "int \<Rightarrow> string \<Rightarrow> reply" where
  "text_reply status s = \<lparr>rp_status = status, rp_header = [''Content-Type'' \<mapsto> ''text/plain; charset=utf-8''],
     rp_body = Text s\<rparr>"

definition http_Error :: "string \<Rightarrow> int \<Rightarrow> reply" where
  "http_Error msg code = \<lparr>rp_status = code,
     rp_header = [''Content-Type'' \<mapsto> ''text/plain; charset=utf-8'', ''X-Content-Type-Options'' \<mapsto> ''nosniff''],
     rp_body = Text (msg @ [CHR 0x0A])\<rparr>"

text \<open>\<^verbatim>\<open>http.Redirect\<close> to an absolute URL or a rooted path: bytes outside ASCII are percent-escaped
  in the header, and a GET is also answered with a small page.\<close>

definition hexEscapeNonASCII :: "string \<Rightarrow> string" where
  "hexEscapeNonASCII s =
     concat (map (\<lambda>c. if 128 \<le> (of_char c :: nat) then CHR ''%'' # hex_encode [c] else [c]) s)"

definition html_escape_char :: "char \<Rightarrow> string" where
  "html_escape_char c =
     (if c = CHR ''&'' then ''&amp;'' else if c = CHR ''<'' then ''&lt;''
      else if c = CHR ''>'' then ''&gt;'' else if c = CHR 0x22 then ''&#34;''
      else if c = CHR 0x27 then ''&#39;'' else [c])"

definition status_text :: "int \<Rightarrow> string" where
  "status_text code = (if code = 302 then ''Found'' else if code = 303 then ''See Other''
     else if code = 301 then ''Moved Permanently'' else [])"

definition http_Redirect :: "http_request \<Rightarrow> string \<Rightarrow> int \<Rightarrow> reply" where
  "http_Redirect r url code =
     \<lparr>rp_status = code,
      rp_header = (if rq_method r = ''GET'' \<or> rq_method r = ''HEAD''
                   then [''Location'' \<mapsto> hexEscapeNonASCII url, ''Content-Type'' \<mapsto> ''text/html; charset=utf-8'']
                   else [''Location'' \<mapsto> hexEscapeNonASCII url]),
      rp_body = (if rq_method r = ''GET''
                 then Text (''<a href='' @ [CHR 0x22] @ concat (map html_escape_char url) @ [CHR 0x22] @ ''>''
                            @ status_text code @ ''</a>.'' @ [CHR 0x0A])
                 else NoBody)\<rparr>"

text \<open>A status that has a canonical code of its own comes back from that code; every other
  status is reported as 500.\<close>

lemma error_code_roundtrip:
  "mapAPIErrorCodeToHTTPStatus (httpErrCode status) =
     (if status \<in> {400, 401, 403, 404, 405, 409, 410, 413, 429, 503} then status else 500)"
  by (simp add: httpErrCode_def mapAPIErrorCodeToHTTPStatus_def)

text \<open>The hash of the operator's token; this value stands for none.\<close>

definition zero_hash :: bytes where "zero_hash = replicate 32 (CHR 0x00)"

subsection \<open>Client detection\<close>

definition user_agent :: "http_request \<Rightarrow> string" where
  "user_agent r = rq_header r ''User-Agent''"

definition IsOurCliClient :: "http_request \<Rightarrow> bool" where
  "IsOurCliClient r \<longleftrightarrow> has_prefix (user_agent r) ''pastebin-cli/''"

definition textBrowsers :: "string list" where
  "textBrowsers = [''lynx/'', ''w3m/'', ''links '', ''links/'', ''elinks/'', ''browsh/'', ''carbonyl/'',
     ''netsurf'']"

definition IsTextBrowser :: "http_request \<Rightarrow> bool" where
  "IsTextBrowser r \<longleftrightarrow> list_ex (contains (to_lower (user_agent r))) textBrowsers"

definition httpTools :: "string list" where
  "httpTools = [''curl/'', ''wget/'', ''httpie/'', ''libcurl/'', ''python-requests/'', ''go-http-client/'',
     ''axios/'', ''node-fetch/'']"

definition IsHttpTool :: "http_request \<Rightarrow> bool" where
  "IsHttpTool r \<longleftrightarrow>
     list_ex (contains (to_lower (user_agent r))) httpTools \<or> to_lower (user_agent r) = []"

definition IsNonInteractiveClient :: "http_request \<Rightarrow> bool" where
  "IsNonInteractiveClient r \<longleftrightarrow>
     (if IsOurCliClient r then False else if IsTextBrowser r then False else IsHttpTool r)"

definition GetAPIResponseFormat :: "http_request \<Rightarrow> string" where
  "GetAPIResponseFormat r =
     (if has_suffix (rq_path r) ''.txt'' \<or> rq_txt r then ''text''
      else let accept = rq_header r ''Accept''
           in if contains accept ''application/json'' then ''json''
              else if contains accept ''text/plain'' then ''text''
              else if IsNonInteractiveClient r then ''text''
              else ''json'')"

lemma response_format_cases: "GetAPIResponseFormat r = ''text'' \<or> GetAPIResponseFormat r = ''json''"
  by (simp add: GetAPIResponseFormat_def Let_def)

text \<open>The choice of the web pages, from \<^verbatim>\<open>server/server.go\<close>.\<close>

definition detectClientType :: "http_request \<Rightarrow> string" where
  "detectClientType r =
     (let accept = rq_header r ''Accept'' in
      if contains accept ''application/json'' then ''json''
      else if contains accept ''text/html'' then ''html''
      else if contains accept ''text/plain'' then ''text''
      else if IsOurCliClient r then ''json''
      else if IsTextBrowser r then ''html''
      else if IsHttpTool r then ''text''
      else ''html'')"

end
