(* ===== verification/Sql_Rows.thy ===== *)
theory Sql_Rows
  imports Pastebin_Prelude "HOL-Library.Multiset"
begin

section \<open>SQL statements on lists of rows\<close>

text \<open>
  The database layer (\<^verbatim>\<open>src/src/database\<close>) issues single-table statements. A table is the
  list of its rows in insertion order; a primary key or a unique column is a key function
  that is injective on the rows. The operations below are the meaning of
  \<^verbatim>\<open>SELECT .. WHERE\<close>, \<^verbatim>\<open>UPDATE .. WHERE\<close>, \<^verbatim>\<open>DELETE .. WHERE\<close>, \<^verbatim>\<open>ORDER BY .. DESC\<close> and
  \<^verbatim>\<open>LIMIT .. OFFSET\<close>.
  Rows that compare equal under an \<^verbatim>\<open>ORDER BY\<close> keep their insertion order; SQL leaves
  that order open, and no property of the development depends on it.
\<close>

definition update_where :: "('r \<Rightarrow> bool) \<Rightarrow> ('r \<Rightarrow> 'r) \<Rightarrow> 'r list \<Rightarrow> 'r list" where
  "update_where P f rows = map (\<lambda>r. if P r then f r else r) rows"

definition delete_where :: "('r \<Rightarrow> bool) \<Rightarrow> 'r list \<Rightarrow> 'r list" where
  "delete_where P rows = filter (\<lambda>r. \<not> P r) rows"

definition rows_affected :: "('r \<Rightarrow> bool) \<Rightarrow> 'r list \<Rightarrow> nat" where
  "rows_affected P rows = length (filter P rows)"

definition order_desc :: "('r \<Rightarrow> int) \<Rightarrow> 'r list \<Rightarrow> 'r list" where
  "order_desc key rows = sort_key (\<lambda>r. - key r) rows"

text \<open>A negative \<^verbatim>\<open>LIMIT\<close> is no limit, a negative \<^verbatim>\<open>OFFSET\<close> is zero.\<close>

definition limit_offset :: "int \<Rightarrow> int \<Rightarrow> 'r list \<Rightarrow> 'r list" where
  "limit_offset limit offset rows =
     (let rest = drop (nat offset) rows in if limit < 0 then rest else take (nat limit) rest)"

text \<open>The row with a given key: what \<^verbatim>\<open>QueryRow\<close> scans, or \<^verbatim>\<open>sql.ErrNoRows\<close>.\<close>

definition row_by :: "('r \<Rightarrow> 'k) \<Rightarrow> 'k \<Rightarrow> 'r list \<Rightarrow> 'r option" where
  "row_by key k rows = find (\<lambda>r. key r = k) rows"

abbreviation unique_key :: "('r \<Rightarrow> 'k) \<Rightarrow> 'r list \<Rightarrow> bool" where
  "unique_key key rows \<equiv> distinct (map key rows)"

lemmas row_defs = update_where_def delete_where_def rows_affected_def row_by_def

subsection \<open>Membership\<close>

lemma set_update_where [sql_simps]:
  "set (update_where P f rows) = (\<lambda>r. if P r then f r else r) ` set rows"
  by (simp add: update_where_def)

lemma set_delete_where [sql_simps]: "set (delete_where P rows) = {r \<in> set rows. \<not> P r}"
  by (simp add: delete_where_def)

lemma mset_order_desc [sql_simps]: "mset (order_desc key rows) = mset rows"
  by (simp add: order_desc_def)

lemma set_order_desc [sql_simps]: "set (order_desc key rows) = set rows"
  by (simp add: order_desc_def)

lemma length_order_desc [sql_simps]: "length (order_desc key rows) = length rows"
  by (simp add: order_desc_def)

lemma order_desc_sorted: "sorted_wrt (\<lambda>a b. key b \<le> key a) (order_desc key rows)"
proof -
  have "sorted (map (\<lambda>r. - key r) (order_desc key rows))" by (simp add: order_desc_def)
  then show ?thesis by (simp add: sorted_wrt_map sorted_map)
qed

lemma rows_affected_0 [sql_simps]: "rows_affected P rows = 0 \<longleftrightarrow> (\<forall>r \<in> set rows. \<not> P r)"
  by (auto simp: rows_affected_def filter_empty_conv)

lemma length_delete_where: "length (delete_where P rows) + rows_affected P rows = length rows"
  unfolding delete_where_def rows_affected_def by (metis add.commute sum_length_filter_compl)

lemma delete_where_none [sql_simps]: "\<forall>r \<in> set rows. \<not> P r \<Longrightarrow> delete_where P rows = rows"
  by (simp add: delete_where_def)

lemma update_where_none [sql_simps]: "\<forall>r \<in> set rows. \<not> P r \<Longrightarrow> update_where P f rows = rows"
  by (simp add: update_where_def map_idI)

subsection \<open>Keys\<close>

lemma unique_key_update:
  "(\<And>r. key (f r) = key r) \<Longrightarrow> unique_key key rows \<Longrightarrow> unique_key key (update_where P f rows)"
  unfolding update_where_def by (simp add: comp_def if_distrib[of key] cong: if_cong)

lemma unique_key_change:
  assumes "\<And>r. P r \<Longrightarrow> key (f r) = key r"
  shows "unique_key key (update_where P f rows) \<longleftrightarrow> unique_key key rows"
proof -
  have "map key (update_where P f rows) = map key rows" using assms by (simp add: update_where_def)
  then show ?thesis by simp
qed

lemma unique_key_delete: "unique_key key rows \<Longrightarrow> unique_key key (delete_where P rows)"
  unfolding delete_where_def by (rule distinct_map_filter)

lemma unique_keyD: "unique_key key (r # rows) \<Longrightarrow> x \<in> set rows \<Longrightarrow> key x \<noteq> key r"
  by (metis distinct.simps(2) image_eqI list.set_map list.simps(9))

lemma row_by_Some_iff:
  "unique_key key rows \<Longrightarrow> row_by key k rows = Some r \<longleftrightarrow> r \<in> set rows \<and> key r = k"
  unfolding row_by_def by (induction rows) auto

lemma row_by_SomeD: "row_by key k rows = Some r \<Longrightarrow> r \<in> set rows \<and> key r = k"
  unfolding row_by_def by (induction rows) (auto split: if_splits)

lemma row_by_None_iff: "row_by key k rows = None \<longleftrightarrow> k \<notin> key ` set rows"
  unfolding row_by_def by (induction rows) auto

lemma row_by_append [sql_simps]:
  "row_by key k (rows @ [r]) =
     (case row_by key k rows of Some x \<Rightarrow> Some x | None \<Rightarrow> if key r = k then Some r else None)"
  unfolding row_by_def by (induction rows) auto

lemma row_by_update [sql_simps]:
  "(\<And>r. key (f r) = key r) \<Longrightarrow>
   row_by key k (update_where P f rows) = map_option (\<lambda>r. if P r then f r else r) (row_by key k rows)"
  unfolding row_by_def update_where_def by (induction rows) auto

lemma row_by_update_key:
  assumes "\<And>r. key r = j \<Longrightarrow> key (f r) = j"
  shows "row_by key k (update_where (\<lambda>r. key r = j) f rows) =
    (if k = j then map_option f (row_by key k rows) else row_by key k rows)"
  unfolding row_by_def update_where_def using assms by (induction rows) auto

lemma row_by_delete_key [sql_simps]:
  "row_by key k (delete_where (\<lambda>r. key r = j) rows) = (if k = j then None else row_by key k rows)"
  unfolding row_by_def delete_where_def by (induction rows) auto

lemma row_by_delete:
  "unique_key key rows \<Longrightarrow>
   row_by key k (delete_where P rows) =
     (case row_by key k rows of Some r \<Rightarrow> if P r then None else Some r | None \<Rightarrow> None)"
  unfolding row_by_def delete_where_def
proof (induction rows)
  case (Cons r rows)
  then have "find (\<lambda>x. key x = key r) (filter (\<lambda>x. \<not> P x) rows) = None"
    using unique_keyD[OF Cons.prems] by (auto simp: find_None_iff)
  with Cons show ?case by auto
qed simp

lemma rows_affected_key:
  "unique_key key rows \<Longrightarrow>
   rows_affected (\<lambda>r. key r = k) rows = (if row_by key k rows = None then 0 else 1)"
  unfolding rows_affected_def row_by_def
proof (induction rows)
  case (Cons r rows)
  show ?case
  proof (cases "key r = k")
    case True
    with Cons.prems have "filter (\<lambda>x. key x = k) rows = []"
      using unique_keyD[OF Cons.prems] by (auto simp: filter_empty_conv)
    with True show ?thesis by simp
  next
    case False
    with Cons show ?thesis by simp
  qed
qed simp

lemma rows_affected_by_row: "0 < rows_affected (\<lambda>r. key r = k) rows \<longleftrightarrow> row_by key k rows \<noteq> None"
  by (auto simp: rows_affected_def row_by_None_iff filter_empty_conv)

subsection \<open>Pages\<close>

lemma limit_offset_pos:
  "0 \<le> limit \<Longrightarrow> limit_offset limit offset rows = take (nat limit) (drop (nat offset) rows)"
  by (simp add: limit_offset_def Let_def)

lemma concat_pages:
  "0 < n \<Longrightarrow> concat (map (\<lambda>i. take n (drop (i * n) xs)) [0..<m]) = take (m * n) xs"
proof (induction m)
  case (Suc m)
  then show ?case by (simp add: take_add[symmetric] add.commute)
qed simp

end
