(* ===== verification/Database_Schema.thy ===== *)
theory Database_Schema
  imports Paste_Model Sql_Rows
begin

section \<open>The database\<close>

text \<open>
  The tables that \<^verbatim>\<open>ensureSchema\<close> of \<^verbatim>\<open>src/src/database/database.go\<close> creates and the code
  reads or writes, one record per row and one list per table. \<^verbatim>\<open>INTEGER\<close> columns that hold
  Unix seconds are \<^typ>\<open>int\<close>; a nullable column is an option. The tables \<^verbatim>\<open>config\<close>,
  \<^verbatim>\<open>config_meta\<close>, \<^verbatim>\<open>rate_limits\<close>, \<^verbatim>\<open>audit_log\<close> and \<^verbatim>\<open>backups\<close> are created but no statement
  of the database layer touches them.

  Every operation of the layer takes a flag that says whether the engine fails the
  statement (a lock time-out, an I/O error, an expired context); what the statement itself
  can refuse (a duplicate key, no such row) is computed from the rows.
\<close>

datatype db_error = EngineError | ConstraintError | Errorf string

record api_token_row =
  tk_id :: int
  tk_hash :: string
  tk_prefix :: string
  tk_resource_type :: string
  tk_resource_id :: string
  tk_created_at :: int
  tk_expires_at :: "int option"
  tk_last_used_at :: "int option"
  tk_revoked_at :: "int option"
  tk_revoked_reason :: "string option"

record task_row =
  sr_task_id :: string
  sr_task_name :: string
  sr_schedule :: string
  sr_last_run :: "instant option"
  sr_last_status :: string
  sr_last_error :: string
  sr_next_run :: "instant option"
  sr_run_count :: int
  sr_fail_count :: int
  sr_enabled :: int

record task_history =
  h_TaskID :: string
  h_StartedAt :: instant
  h_FinishedAt :: instant
  h_Status :: string
  h_ErrorMsg :: string
  h_DurationMS :: int

record secret_row =
  s_key :: string
  s_value :: string
  s_created_at :: instant
  s_updated_at :: instant

record security_report =
  r_TrackingID :: string
  r_Status :: string
  r_Severity :: string
  r_Component :: string
  r_EncryptedBody :: bytes
  r_EncMethod :: string
  r_CreditPreference :: string
  r_CreditName :: string
  r_TokenHash :: string
  r_MaintainerComment :: string
  r_DisclosureDays :: int
  r_CreatedAt :: instant
  r_UpdatedAt :: instant
  r_DisclosedAt :: "instant option"
  r_TokenLastUsed :: "instant option"

record db =
  pastes :: "paste list"
  api_tokens :: "api_token_row list"
  api_token_seq :: int
  scheduler_tasks :: "task_row list"
  scheduler_history :: "task_history list"
  app_secrets :: "secret_row list"
  security_reports :: "security_report list"

definition empty_db :: db where
  "empty_db = \<lparr>pastes = [], api_tokens = [], api_token_seq = 0, scheduler_tasks = [],
     scheduler_history = [], app_secrets = [], security_reports = []\<rparr>"

text \<open>
  The constraints the schema declares: primary keys and \<^verbatim>\<open>UNIQUE\<close> columns, and an
  \<^verbatim>\<open>AUTOINCREMENT\<close> counter that is at least every row id handed out.
\<close>

definition schema_ok :: "db \<Rightarrow> bool" where
  "schema_ok d \<longleftrightarrow>
     unique_key p_ID (pastes d) \<and>
     unique_key tk_hash (api_tokens d) \<and>
     unique_key tk_id (api_tokens d) \<and>
     (\<forall>r \<in> set (api_tokens d). tk_id r \<le> api_token_seq d) \<and>
     unique_key sr_task_id (scheduler_tasks d) \<and>
     unique_key s_key (app_secrets d) \<and>
     unique_key r_TrackingID (security_reports d)"

lemma schema_ok_empty: "schema_ok empty_db"
  by (simp add: schema_ok_def empty_db_def)

end
