(* ===== verification/Paste_Store.thy ===== *)
theory Paste_Store
  imports Database_Schema
begin

section \<open>The paste operations of the database\<close>

text \<open>
  \<^verbatim>\<open>CreatePaste\<close>, \<^verbatim>\<open>GetPasteByID\<close>, \<^verbatim>\<open>GetPublicPastes\<close>, \<^verbatim>\<open>IncrementViewsAndCheckBurn\<close>,
  the delete operations and \<^verbatim>\<open>CountPastes\<close> of \<^verbatim>\<open>src/src/database/database.go\<close>. They are
  shown to implement a map from identifiers to pastes, to keep the schema's constraints,
  and to destroy a burn-after-reading paste at exactly the reading its author asked for.
\<close>

subsection \<open>Operations\<close>

definition CreatePaste :: "bool \<Rightarrow> instant \<Rightarrow> paste \<Rightarrow> db \<Rightarrow> db_error + paste \<times> db" where
  "CreatePaste fault now p d =
     (let p1 = p\<lparr>p_CreatedAt := now, p_UpdatedAt := now\<rparr>;
          p2 = (if p_Title p1 = [] then p1\<lparr>p_Title := ''Untitled''\<rparr> else p1);
          p3 = (if p_Language p2 = [] \<and> \<not> p_IsLink p2 then p2\<lparr>p_Language := ''text''\<rparr> else p2)
      in if fault then Inl EngineError
         else if row_by p_ID (p_ID p3) (pastes d) \<noteq> None then Inl ConstraintError
         else Inr (p3, d\<lparr>pastes := pastes d @ [p3]\<rparr>))"

definition GetPasteByID :: "bool \<Rightarrow> string \<Rightarrow> db \<Rightarrow> db_error + paste option" where
  "GetPasteByID fault pid d =
     (if fault then Inl EngineError else Inr (row_by p_ID pid (pastes d)))"

definition listed :: "instant \<Rightarrow> paste \<Rightarrow> bool" where
  "listed now p \<longleftrightarrow>
     p_Visibility p = 0 \<and> (case p_ExpiresAt p of None \<Rightarrow> True | Some t \<Rightarrow> t > now)"

definition GetPublicPastes ::
  "bool \<Rightarrow> instant \<Rightarrow> int \<Rightarrow> int \<Rightarrow> db \<Rightarrow> db_error + paste_list_item list \<times> int" where
  "GetPublicPastes fault now page limit d =
     (let page' = (if page < 1 then 1 else page);
          limit' = (if limit < 1 then 1 else limit);
          offset = wrap64 (wrap64 (page' - 1) * limit');
          total = int (length (filter (listed now) (pastes d)));
          rows = limit_offset limit' offset (order_desc p_CreatedAt (filter (listed now) (pastes d)))
      in if fault then Inl EngineError else Inr (map ToListItem rows, total))"

definition IncrementViewsAndCheckBurn ::
  "bool \<Rightarrow> instant \<Rightarrow> string \<Rightarrow> db \<Rightarrow> db_error + int \<times> bool \<times> db" where
  "IncrementViewsAndCheckBurn fault now pid d =
     (if fault then Inl EngineError
      else
        let rows = update_where (\<lambda>p. p_ID p = pid)
                     (\<lambda>p. p\<lparr>p_Views := p_Views p + 1, p_UpdatedAt := now\<rparr>) (pastes d)
        in case row_by p_ID pid rows of
             None \<Rightarrow> Inl (Errorf ''paste not found'')
           | Some q \<Rightarrow>
               (if p_BurnAfter q > 0 \<and> p_Views q \<ge> p_BurnAfter q
                then Inr (p_Views q, True, d\<lparr>pastes := delete_where (\<lambda>p. p_ID p = pid) rows\<rparr>)
                else Inr (p_Views q, False, d\<lparr>pastes := rows\<rparr>)))"

definition DeletePaste :: "bool \<Rightarrow> string \<Rightarrow> db \<Rightarrow> db_error + db" where
  "DeletePaste fault pid d =
     (if fault then Inl EngineError
      else if rows_affected (\<lambda>p. p_ID p = pid) (pastes d) = 0 then Inl (Errorf ''paste not found'')
      else Inr (d\<lparr>pastes := delete_where (\<lambda>p. p_ID p = pid) (pastes d)\<rparr>))"

text \<open>Two statements, hence two flags: the lookup of the stored hash and the delete.\<close>

definition DeletePasteByToken ::
  "bool \<Rightarrow> bool \<Rightarrow> string \<Rightarrow> string \<Rightarrow> db \<Rightarrow> db_error + db" where
  "DeletePasteByToken fault1 fault2 pid deleteTokenHash d =
     (if fault1 then Inl EngineError
      else case row_by p_ID pid (pastes d) of
             None \<Rightarrow> Inl (Errorf ''paste not found or invalid token'')
           | Some p \<Rightarrow>
               (if p_DeleteTokenHash p \<noteq> deleteTokenHash
                then Inl (Errorf ''paste not found or invalid token'')
                else if fault2 then Inl EngineError
                else Inr (d\<lparr>pastes := delete_where (\<lambda>p. p_ID p = pid) (pastes d)\<rparr>)))"

definition DeleteExpiredPastes :: "bool \<Rightarrow> instant \<Rightarrow> db \<Rightarrow> db_error + int \<times> db" where
  "DeleteExpiredPastes fault now d =
     (if fault then Inl EngineError
      else Inr (int (rows_affected (expired_at now) (pastes d)),
                d\<lparr>pastes := delete_where (expired_at now) (pastes d)\<rparr>))"

definition burned_out :: "paste \<Rightarrow> bool" where
  "burned_out p \<longleftrightarrow> p_BurnAfter p > 0 \<and> p_Views p \<ge> p_BurnAfter p"

definition DeleteBurnedPastes :: "bool \<Rightarrow> db \<Rightarrow> db_error + int \<times> db" where
  "DeleteBurnedPastes fault d =
     (if fault then Inl EngineError
      else Inr (int (rows_affected burned_out (pastes d)),
                d\<lparr>pastes := delete_where burned_out (pastes d)\<rparr>))"

definition CountPastes :: "bool \<Rightarrow> db \<Rightarrow> db_error + int" where
  "CountPastes fault d = (if fault then Inl EngineError else Inr (int (length (pastes d))))"

lemmas paste_op_defs [store_defs] = CreatePaste_def GetPasteByID_def GetPublicPastes_def
  IncrementViewsAndCheckBurn_def DeletePaste_def DeletePasteByToken_def
  DeleteExpiredPastes_def DeleteBurnedPastes_def CountPastes_def

subsection \<open>The abstract store\<close>

text \<open>The rows read as a map from identifiers to pastes.\<close>

definition paste_map :: "db \<Rightarrow> string \<Rightarrow> paste option" where
  "paste_map d = (\<lambda>pid. row_by p_ID pid (pastes d))"

definition normalized :: "instant \<Rightarrow> paste \<Rightarrow> paste" where
  "normalized now p =
     p\<lparr>p_Title := (if p_Title p = [] then ''Untitled'' else p_Title p),
       p_Language := (if p_Language p = [] \<and> \<not> p_IsLink p then ''text'' else p_Language p),
       p_CreatedAt := now, p_UpdatedAt := now\<rparr>"

definition viewed :: "instant \<Rightarrow> paste \<Rightarrow> paste" where
  "viewed now p = p\<lparr>p_Views := p_Views p + 1, p_UpdatedAt := now\<rparr>"

definition burns :: "paste \<Rightarrow> bool" where
  "burns p \<longleftrightarrow> p_BurnAfter p > 0 \<and> p_Views p + 1 \<ge> p_BurnAfter p"

lemma viewed_simps [simp]:
  "p_ID (viewed now p) = p_ID p" "p_Views (viewed now p) = p_Views p + 1"
  "p_BurnAfter (viewed now p) = p_BurnAfter p" "p_Content (viewed now p) = p_Content p"
  "p_ExpiresAt (viewed now p) = p_ExpiresAt p" "p_Visibility (viewed now p) = p_Visibility p"
  "p_IsLink (viewed now p) = p_IsLink p" "p_ContentType (viewed now p) = p_ContentType p"
  "p_DeleteTokenHash (viewed now p) = p_DeleteTokenHash p"
  by (simp_all add: viewed_def)

lemma CreatePaste_eq:
  "CreatePaste fault now p d =
     (if fault then Inl EngineError
      else if paste_map d (p_ID p) \<noteq> None then Inl ConstraintError
      else Inr (normalized now p, d\<lparr>pastes := pastes d @ [normalized now p]\<rparr>))"
  by (auto simp: CreatePaste_def normalized_def paste_map_def Let_def)

lemma IncrementViewsAndCheckBurn_eq:
  "IncrementViewsAndCheckBurn False now pid d =
     (case paste_map d pid of
        None \<Rightarrow> Inl (Errorf ''paste not found'')
      | Some p \<Rightarrow> Inr (p_Views p + 1, burns p,
          d\<lparr>pastes := (if burns p then delete_where (\<lambda>p. p_ID p = pid) (pastes d)
             else update_where (\<lambda>p. p_ID p = pid) (viewed now) (pastes d))\<rparr>))"
proof -
  let ?f = "\<lambda>p. p\<lparr>p_Views := p_Views p + 1, p_UpdatedAt := now\<rparr>"
  have del: "delete_where (\<lambda>p. p_ID p = pid) (update_where (\<lambda>p. p_ID p = pid) ?f rows) =
      delete_where (\<lambda>p. p_ID p = pid) rows" for rows :: "paste list"
    unfolding delete_where_def update_where_def by (induction rows) auto
  show ?thesis
    by (auto simp: IncrementViewsAndCheckBurn_def paste_map_def row_by_update burns_def del
        viewed_def[abs_def] dest!: row_by_SomeD split: option.splits)
qed

text \<open>The lookup after each operation.\<close>

lemma paste_map_insert [simp]:
  "paste_map d (p_ID p) = None \<Longrightarrow>
   paste_map (d\<lparr>pastes := pastes d @ [p]\<rparr>) = (paste_map d)(p_ID p \<mapsto> p)"
  by (auto simp: paste_map_def sql_simps fun_eq_iff split: option.splits)

lemma paste_map_remove [simp]:
  "paste_map (d\<lparr>pastes := delete_where (\<lambda>p. p_ID p = pid) (pastes d)\<rparr>) = (paste_map d)(pid := None)"
  by (auto simp: paste_map_def sql_simps fun_eq_iff)

lemma paste_map_view [simp]:
  assumes "paste_map d pid = Some p"
  shows "paste_map (d\<lparr>pastes := update_where (\<lambda>p. p_ID p = pid) (viewed now) (pastes d)\<rparr>) =
    (paste_map d)(pid \<mapsto> viewed now p)"
proof
  fix k
  show "paste_map (d\<lparr>pastes := update_where (\<lambda>p. p_ID p = pid) (viewed now) (pastes d)\<rparr>) k =
    ((paste_map d)(pid \<mapsto> viewed now p)) k"
    using assms by (cases "row_by p_ID k (pastes d)")
      (auto simp: paste_map_def row_by_update dest: row_by_SomeD)
qed

lemma paste_map_delete_where:
  "schema_ok d \<Longrightarrow> paste_map (d\<lparr>pastes := delete_where P (pastes d)\<rparr>) pid =
     (case paste_map d pid of Some p \<Rightarrow> if P p then None else Some p | None \<Rightarrow> None)"
  by (simp add: paste_map_def row_by_delete schema_ok_def)

lemma paste_map_ID: "paste_map d pid = Some p \<Longrightarrow> p_ID p = pid"
  by (auto simp: paste_map_def dest: row_by_SomeD)

lemma DeletePaste_eq:
  "DeletePaste False pid d =
     (if paste_map d pid = None then Inl (Errorf ''paste not found'')
      else Inr (d\<lparr>pastes := delete_where (\<lambda>p. p_ID p = pid) (pastes d)\<rparr>))"
  using rows_affected_by_row[of p_ID pid "pastes d"]
  by (auto simp: DeletePaste_def paste_map_def)

subsection \<open>Schema constraints are kept\<close>

lemma schema_ok_pastes:
  "schema_ok d \<Longrightarrow> unique_key p_ID rows \<Longrightarrow> schema_ok (d\<lparr>pastes := rows\<rparr>)"
  by (simp add: schema_ok_def)

lemma schema_ok_pasteD: "schema_ok d \<Longrightarrow> unique_key p_ID (pastes d)"
  by (simp add: schema_ok_def)

lemmas schema_ok_paste_rows =
  schema_ok_pastes[OF _ unique_key_delete[OF schema_ok_pasteD]]
  schema_ok_pastes[OF _ unique_key_update[OF _ schema_ok_pasteD]]

lemma schema_ok_insert_paste:
  "schema_ok d \<Longrightarrow> paste_map d (p_ID p) = None \<Longrightarrow> schema_ok (d\<lparr>pastes := pastes d @ [p]\<rparr>)"
  by (rule schema_ok_pastes) (auto simp: schema_ok_def paste_map_def row_by_None_iff)

lemma CreatePaste_schema: "schema_ok d \<Longrightarrow> CreatePaste f now p d = Inr (q, d') \<Longrightarrow> schema_ok d'"
  by (auto simp: CreatePaste_eq normalized_def intro!: schema_ok_insert_paste split: if_splits)

lemma IncrementViews_schema:
  "schema_ok d \<Longrightarrow> IncrementViewsAndCheckBurn f now pid d = Inr (v, b, d') \<Longrightarrow> schema_ok d'"
  by (cases f) (auto simp: IncrementViewsAndCheckBurn_eq intro!: schema_ok_paste_rows
      split: option.splits if_splits, simp add: IncrementViewsAndCheckBurn_def)

lemma DeletePaste_schema: "schema_ok d \<Longrightarrow> DeletePaste f pid d = Inr d' \<Longrightarrow> schema_ok d'"
  by (auto simp: DeletePaste_def intro!: schema_ok_paste_rows split: if_splits)

lemma DeletePasteByToken_schema:
  "schema_ok d \<Longrightarrow> DeletePasteByToken f g pid h d = Inr d' \<Longrightarrow> schema_ok d'"
  by (auto simp: DeletePasteByToken_def intro!: schema_ok_paste_rows split: if_splits option.splits)

lemma DeleteExpiredPastes_schema:
  "schema_ok d \<Longrightarrow> DeleteExpiredPastes f now d = Inr (n, d') \<Longrightarrow> schema_ok d'"
  by (auto simp: DeleteExpiredPastes_def intro!: schema_ok_paste_rows split: if_splits)

lemma DeleteBurnedPastes_schema:
  "schema_ok d \<Longrightarrow> DeleteBurnedPastes f d = Inr (n, d') \<Longrightarrow> schema_ok d'"
  by (auto simp: DeleteBurnedPastes_def intro!: schema_ok_paste_rows split: if_splits)

lemmas paste_schema_intros = CreatePaste_schema IncrementViews_schema DeletePaste_schema
  DeletePasteByToken_schema DeleteExpiredPastes_schema DeleteBurnedPastes_schema

subsection \<open>The interface the handlers rely on\<close>

text \<open>
  What a store of pastes promises to its clients, over an abstract lookup: insertion,
  counting a reading, removal. A client may iterate readings; \<open>views_seq\<close> is the sequence
  of readings of one paste, each at its own instant, with the results handed back.
\<close>

fun views_seq ::
  "(instant \<Rightarrow> string \<Rightarrow> 'd \<Rightarrow> db_error + int \<times> bool \<times> 'd) \<Rightarrow> instant list \<Rightarrow> string \<Rightarrow> 'd
     \<Rightarrow> (db_error + int \<times> bool) list \<times> 'd" where
  "views_seq view [] pid d = ([], d)"
| "views_seq view (t # ts) pid d =
     (case view t pid d of
        Inl e \<Rightarrow> (let (rs, d') = views_seq view ts pid d in (Inl e # rs, d'))
      | Inr (n, b, d1) \<Rightarrow> (let (rs, d') = views_seq view ts pid d1 in (Inr (n, b) # rs, d')))"

lemma shift_counts:
  "f (v + 1) # map (\<lambda>i. f (v + 1 + int i)) [1..<Suc n] = map (\<lambda>i. f (v + int i)) [1..<Suc (Suc n)]"
  by (intro nth_equalityI) (auto simp: nth_Cons algebra_simps simp del: upt_Suc split: nat.splits)

locale paste_repository =
  fixes lookup :: "'d \<Rightarrow> string \<Rightarrow> paste option"
    and create :: "instant \<Rightarrow> paste \<Rightarrow> 'd \<Rightarrow> db_error + paste \<times> 'd"
    and view :: "instant \<Rightarrow> string \<Rightarrow> 'd \<Rightarrow> db_error + int \<times> bool \<times> 'd"
    and remove :: "string \<Rightarrow> 'd \<Rightarrow> db_error + 'd"
    and inv :: "'d \<Rightarrow> bool"
  assumes create_fresh: "inv d \<Longrightarrow> lookup d (p_ID p) = None \<Longrightarrow>
      \<exists>d'. create now p d = Inr (normalized now p, d') \<and> inv d' \<and>
           lookup d' = (lookup d)(p_ID p \<mapsto> normalized now p)"
    and create_taken: "lookup d (p_ID p) \<noteq> None \<Longrightarrow> create now p d = Inl ConstraintError"
    and view_hit: "inv d \<Longrightarrow> lookup d pid = Some p \<Longrightarrow>
      \<exists>d'. view now pid d = Inr (p_Views p + 1, burns p, d') \<and> inv d' \<and>
           lookup d' = (lookup d)(pid := if burns p then None else Some (viewed now p))"
    and view_miss: "lookup d pid = None \<Longrightarrow> view now pid d = Inl (Errorf ''paste not found'')"
    and remove_hit: "inv d \<Longrightarrow> lookup d pid \<noteq> None \<Longrightarrow>
      \<exists>d'. remove pid d = Inr d' \<and> inv d' \<and> lookup d' = (lookup d)(pid := None)"
    and remove_miss: "lookup d pid = None \<Longrightarrow> remove pid d = Inl (Errorf ''paste not found'')"
begin

lemma views_seq_gone:
  "lookup d pid = None \<Longrightarrow>
   views_seq view ts pid d = (map (\<lambda>_. Inl (Errorf ''paste not found'')) ts, d)"
  by (induction ts) (simp_all add: view_miss)

text \<open>Readings short of the limit leave the paste in place and count up.\<close>

lemma views_seq_below:
  assumes "inv d" and "lookup d pid = Some p"
    and "p_BurnAfter p \<le> 0 \<or> p_Views p + int (length ts) < p_BurnAfter p"
  shows "\<exists>d' q. views_seq view ts pid d =
      (map (\<lambda>i. Inr (p_Views p + int i, False)) [1..<Suc (length ts)], d') \<and> inv d' \<and>
      lookup d' = (lookup d)(pid \<mapsto> q) \<and> p_Views q = p_Views p + int (length ts) \<and>
      p_BurnAfter q = p_BurnAfter p \<and> p_Content q = p_Content p"
  using assms
proof (induction ts arbitrary: d p)
  case Nil
  then show ?case by (auto intro!: exI[of _ p])
next
  case (Cons t ts)
  from Cons.prems have nb: "\<not> burns p" by (auto simp: burns_def)
  with view_hit[OF Cons.prems(1,2), of t] obtain d1 where
    d1: "view t pid d = Inr (p_Views p + 1, False, d1)" "inv d1"
        "lookup d1 = (lookup d)(pid \<mapsto> viewed t p)" by auto
  have lk: "lookup d1 pid = Some (viewed t p)" by (simp add: d1)
  have "p_BurnAfter (viewed t p) \<le> 0 \<or> p_Views (viewed t p) + int (length ts) < p_BurnAfter (viewed t p)"
    using Cons.prems(3) by auto
  from Cons.IH[OF d1(2) lk this] obtain d' q where
    d': "views_seq view ts pid d1 =
      (map (\<lambda>i. Inr (p_Views p + 1 + int i, False)) [1..<Suc (length ts)], d')" "inv d'"
      "lookup d' = (lookup d1)(pid \<mapsto> q)" "p_Views q = p_Views p + 1 + int (length ts)"
      "p_BurnAfter q = p_BurnAfter p" "p_Content q = p_Content p"
    by (simp del: upt_Suc fun_upd_apply) blast
  note shift = shift_counts[of "\<lambda>n. Inr (n, False)" "p_Views p" "length ts"]
  with d1 d' show ?case by (intro exI[of _ d'] exI[of _ q]) (simp add: shift del: upt_Suc)
qed

text \<open>The reading that reaches the limit still succeeds and destroys the paste; every later
  reading finds nothing.\<close>

lemma views_seq_burn:
  assumes "inv d" and "lookup d pid = Some p" and "p_Views p = 0"
    and "p_BurnAfter p = int (length ts) + 1"
  shows "\<exists>d'. views_seq view (ts @ t # us) pid d =
      (map (\<lambda>i. Inr (int i, False)) [1..<Suc (length ts)] @ [Inr (int (length ts) + 1, True)]
         @ map (\<lambda>_. Inl (Errorf ''paste not found'')) us, d') \<and>
      lookup d' = (lookup d)(pid := None)"
proof -
  have app: "views_seq view (xs @ ys) pid e =
      (let (rs, e1) = views_seq view xs pid e; (ss, e2) = views_seq view ys pid e1 in (rs @ ss, e2))"
    for xs ys e
    by (induction xs arbitrary: e) (auto simp: Let_def split: sum.splits prod.splits)
  from views_seq_below[OF assms(1,2), of ts] assms(3,4) obtain d1 q where
    d1: "views_seq view ts pid d = (map (\<lambda>i. Inr (int i, False)) [1..<Suc (length ts)], d1)" "inv d1"
      "lookup d1 = (lookup d)(pid \<mapsto> q)" "p_Views q = int (length ts)" "p_BurnAfter q = int (length ts) + 1"
    by (auto simp del: upt_Suc)
  have "burns q" using d1 by (simp add: burns_def)
  moreover have "lookup d1 pid = Some q" by (simp add: d1)
  ultimately obtain d2 where
    d2: "view t pid d1 = Inr (int (length ts) + 1, True, d2)" "lookup d2 = (lookup d)(pid := None)"
    using view_hit[OF d1(2), of pid q t] d1 by auto
  have "views_seq view us pid d2 = (map (\<lambda>_. Inl (Errorf ''paste not found'')) us, d2)"
    by (rule views_seq_gone) (simp add: d2)
  with d1 d2 show ?thesis by (intro exI[of _ d2]) (simp add: app)
qed

end

interpretation sqlite: paste_repository paste_map "CreatePaste False"
  "IncrementViewsAndCheckBurn False" "DeletePaste False" schema_ok
proof unfold_locales
  fix d :: db and p :: paste and now
  assume "schema_ok d" and "paste_map d (p_ID p) = None"
  moreover have "p_ID (normalized now p) = p_ID p" by (simp add: normalized_def)
  ultimately show "\<exists>d'. CreatePaste False now p d = Inr (normalized now p, d') \<and> schema_ok d' \<and>
      paste_map d' = (paste_map d)(p_ID p \<mapsto> normalized now p)"
    using schema_ok_insert_paste[of d "normalized now p"] paste_map_insert[of d "normalized now p"]
    by (simp add: CreatePaste_eq)
next
  fix d :: db and pid and p :: paste and now
  assume "schema_ok d" and "paste_map d pid = Some p"
  then show "\<exists>d'. IncrementViewsAndCheckBurn False now pid d = Inr (p_Views p + 1, burns p, d') \<and>
      schema_ok d' \<and> paste_map d' = (paste_map d)(pid := if burns p then None else Some (viewed now p))"
    by (auto simp: IncrementViewsAndCheckBurn_eq intro!: schema_ok_paste_rows)
qed (auto simp: CreatePaste_eq IncrementViewsAndCheckBurn_eq DeletePaste_eq intro!: schema_ok_paste_rows)

end
