(* ===== verification/Token_Store.thy ===== *)
theory Token_Store
  imports Database_Schema Go_Stdlib
begin

section \<open>Owner tokens\<close>

text \<open>
  The \<^verbatim>\<open>api_tokens\<close> operations of \<^verbatim>\<open>src/src/database/database.go\<close>. A token is stored as the
  hexadecimal SHA-256 digest of its text, bound to one resource, with an optional expiry and
  revocation in Unix seconds. The lemmas characterise when a token authorises, and show that
  a token that no longer does never does again unless it is granted anew.
\<close>

subsection \<open>Operations\<close>

record api_token_record =
  tr_ID :: int
  tr_TokenPrefix :: string
  tr_ResourceType :: string
  tr_ResourceID :: string
  tr_CreatedAt :: instant
  tr_ExpiresAt :: "instant option"
  tr_LastUsedAt :: "instant option"
  tr_RevokedAt :: "instant option"
  tr_RevokedReason :: string

definition CreateAPIToken ::
  "bool \<Rightarrow> instant \<Rightarrow> string \<Rightarrow> string \<Rightarrow> string \<Rightarrow> string \<Rightarrow> instant option \<Rightarrow> db \<Rightarrow> db_error + db" where
  "CreateAPIToken fault now tokenHash tokenPrefix resourceType resourceID expiresAt d =
     (if fault then Inl EngineError
      else if row_by tk_hash tokenHash (api_tokens d) \<noteq> None then Inl ConstraintError
      else Inr (d\<lparr>api_tokens := api_tokens d @
             [\<lparr>tk_id = api_token_seq d + 1, tk_hash = tokenHash, tk_prefix = tokenPrefix,
               tk_resource_type = resourceType, tk_resource_id = resourceID,
               tk_created_at = unix now, tk_expires_at = map_option unix expiresAt,
               tk_last_used_at = None, tk_revoked_at = None, tk_revoked_reason = None\<rparr>],
           api_token_seq := api_token_seq d + 1\<rparr>))"

text \<open>
  The second flag is the failure of the best-effort \<^verbatim>\<open>last_used_at\<close> update, which is ignored.
\<close>

definition VerifyAPIToken ::
  "bool \<Rightarrow> bool \<Rightarrow> instant \<Rightarrow> bytes \<Rightarrow> string \<Rightarrow> string \<Rightarrow> db \<Rightarrow> db_error + db" where
  "VerifyAPIToken fault wfault t tokenHash resourceType resourceID d =
     (let hashHex = hex_encode tokenHash; now = unix t;
          invalid = Errorf ''paste not found or invalid token''
      in if fault then Inl EngineError
         else case find (\<lambda>r. tk_hash r = hashHex \<and> tk_resource_type r = resourceType
                             \<and> tk_resource_id r = resourceID) (api_tokens d) of
                None \<Rightarrow> Inl invalid
              | Some r \<Rightarrow>
                  (if tk_hash r \<noteq> hashHex then Inl invalid
                   else if tk_revoked_at r \<noteq> None then Inl invalid
                   else if (case tk_expires_at r of Some e \<Rightarrow> e \<le> now | None \<Rightarrow> False) then Inl invalid
                   else Inr (if wfault then d
                             else d\<lparr>api_tokens := update_where (\<lambda>q. tk_id q = tk_id r)
                                      (\<lambda>q. q\<lparr>tk_last_used_at := Some now\<rparr>) (api_tokens d)\<rparr>)))"

definition ValidateAPIToken :: "bool \<Rightarrow> instant \<Rightarrow> bytes \<Rightarrow> string \<Rightarrow> db \<Rightarrow> db_error + unit" where
  "ValidateAPIToken fault t tokenHash resourceType d =
     (let hashHex = hex_encode tokenHash; now = unix t
      in if fault then Inl EngineError
         else case limit_offset 1 0 (order_desc tk_created_at
                     (filter (\<lambda>r. tk_hash r = hashHex \<and> tk_resource_type r = resourceType)
                        (api_tokens d))) of
                [] \<Rightarrow> Inl (Errorf ''token not found'')
              | r # _ \<Rightarrow>
                  (if tk_hash r \<noteq> hashHex then Inl (Errorf ''token not found'')
                   else if tk_revoked_at r \<noteq> None then Inl (Errorf ''token has been revoked'')
                   else if (case tk_expires_at r of Some e \<Rightarrow> e \<le> now | None \<Rightarrow> False)
                        then Inl (Errorf ''token has expired'')
                   else Inr ()))"

definition RevokeAPIToken :: "bool \<Rightarrow> instant \<Rightarrow> string \<Rightarrow> string \<Rightarrow> db \<Rightarrow> db_error + db" where
  "RevokeAPIToken fault t prefix reason d =
     (let hit = (\<lambda>r. tk_prefix r = prefix \<and> tk_revoked_at r = None)
      in if fault then Inl EngineError
         else if rows_affected hit (api_tokens d) = 0
              then Inl (Errorf ''token not found or already revoked'')
         else Inr (d\<lparr>api_tokens := update_where hit
                (\<lambda>r. r\<lparr>tk_revoked_at := Some (unix t), tk_revoked_reason := Some reason\<rparr>)
                (api_tokens d)\<rparr>))"

definition token_record :: "api_token_row \<Rightarrow> api_token_record" where
  "token_record r = \<lparr>tr_ID = tk_id r, tr_TokenPrefix = tk_prefix r,
     tr_ResourceType = tk_resource_type r, tr_ResourceID = tk_resource_id r,
     tr_CreatedAt = tk_created_at r * Second,
     tr_ExpiresAt = map_option (\<lambda>s. s * Second) (tk_expires_at r),
     tr_LastUsedAt = map_option (\<lambda>s. s * Second) (tk_last_used_at r),
     tr_RevokedAt = None, tr_RevokedReason = []\<rparr>"

definition ListAPITokens :: "bool \<Rightarrow> db \<Rightarrow> db_error + api_token_record list" where
  "ListAPITokens fault d =
     (if fault then Inl EngineError
      else Inr (map token_record (order_desc tk_created_at
                  (filter (\<lambda>r. tk_revoked_at r = None) (api_tokens d)))))"

definition GetAPITokenByPrefix :: "bool \<Rightarrow> string \<Rightarrow> db \<Rightarrow> db_error + api_token_record" where
  "GetAPITokenByPrefix fault prefix d =
     (if fault then Inl EngineError
      else case find (\<lambda>r. tk_prefix r = prefix \<and> tk_revoked_at r = None) (api_tokens d) of
             None \<Rightarrow> Inl (Errorf ''token not found or revoked'')
           | Some r \<Rightarrow> Inr (token_record r))"

definition DeleteExpiredAPITokens :: "bool \<Rightarrow> instant \<Rightarrow> db \<Rightarrow> db_error + int \<times> db" where
  "DeleteExpiredAPITokens fault t d =
     (let now = unix t;
          dead = (\<lambda>r. tk_revoked_at r \<noteq> None
                     \<or> (case tk_expires_at r of Some e \<Rightarrow> e \<le> now | None \<Rightarrow> False))
      in if fault then Inl EngineError
         else Inr (int (rows_affected dead (api_tokens d)),
                   d\<lparr>api_tokens := delete_where dead (api_tokens d)\<rparr>))"

subsection \<open>When a token authorises\<close>

definition live_row :: "int \<Rightarrow> api_token_row \<Rightarrow> bool" where
  "live_row now r \<longleftrightarrow>
     tk_revoked_at r = None \<and> (case tk_expires_at r of None \<Rightarrow> True | Some e \<Rightarrow> now < e)"

definition authorises :: "instant \<Rightarrow> string \<Rightarrow> string \<Rightarrow> string \<Rightarrow> db \<Rightarrow> bool" where
  "authorises t h rtype rid d \<longleftrightarrow>
     (\<exists>r \<in> set (api_tokens d). tk_hash r = h \<and> tk_resource_type r = rtype \<and>
        tk_resource_id r = rid \<and> live_row (unix t) r)"

lemma live_row_mono: "s \<le> t \<Longrightarrow> live_row t r \<Longrightarrow> live_row s r"
  by (auto simp: live_row_def split: option.splits)

lemma token_schemaD:
  "schema_ok d \<Longrightarrow> unique_key tk_hash (api_tokens d)"
  "schema_ok d \<Longrightarrow> unique_key tk_id (api_tokens d)"
  "schema_ok d \<Longrightarrow> r \<in> set (api_tokens d) \<Longrightarrow> tk_id r \<le> api_token_seq d"
  by (auto simp: schema_ok_def)

lemma unique_key_inj: "unique_key key rows \<Longrightarrow> x \<in> set rows \<Longrightarrow> y \<in> set rows \<Longrightarrow> key x = key y \<Longrightarrow> x = y"
  by (metis distinct_map inj_onD)

lemma find_SomeD: "find P xs = Some x \<Longrightarrow> P x \<and> x \<in> set xs"
  by (induction xs) (auto split: if_splits)

abbreviation token_for :: "bytes \<Rightarrow> string \<Rightarrow> string \<Rightarrow> api_token_row \<Rightarrow> bool" where
  "token_for h rtype rid r \<equiv>
     tk_hash r = hex_encode h \<and> tk_resource_type r = rtype \<and> tk_resource_id r = rid"

abbreviation touch_token :: "api_token_row \<Rightarrow> instant \<Rightarrow> db \<Rightarrow> db" where
  "touch_token r t d \<equiv> d\<lparr>api_tokens := update_where (\<lambda>q. tk_id q = tk_id r)
     (\<lambda>q. q\<lparr>tk_last_used_at := Some (unix t)\<rparr>) (api_tokens d)\<rparr>"

lemma Verify_eq:
  "VerifyAPIToken False wfl t h rtype rid d =
     (case find (token_for h rtype rid) (api_tokens d) of
        Some r \<Rightarrow> if live_row (unix t) r then Inr (if wfl then d else touch_token r t d)
                  else Inl (Errorf ''paste not found or invalid token'')
      | None \<Rightarrow> Inl (Errorf ''paste not found or invalid token''))"
proof (cases "find (token_for h rtype rid) (api_tokens d)")
  case (Some r)
  with find_SomeD[OF Some] show ?thesis
    by (cases "tk_expires_at r") (simp_all add: VerifyAPIToken_def live_row_def Let_def)
qed (simp add: VerifyAPIToken_def)

lemma Sweep_eq:
  "DeleteExpiredAPITokens False t d =
     Inr (int (rows_affected (\<lambda>r. \<not> live_row (unix t) r) (api_tokens d)),
          d\<lparr>api_tokens := filter (live_row (unix t)) (api_tokens d)\<rparr>)"
proof -
  have "(tk_revoked_at r \<noteq> None \<or> (case tk_expires_at r of Some e \<Rightarrow> e \<le> unix t | None \<Rightarrow> False))
      \<longleftrightarrow> \<not> live_row (unix t) r" for r :: api_token_row
    by (auto simp: live_row_def split: option.splits)
  then show ?thesis
    by (simp only: DeleteExpiredAPITokens_def delete_where_def Let_def not_not if_False)
qed

lemma Sweep_Inr: "DeleteExpiredAPITokens f t d = Inr (n, d') \<Longrightarrow>
   d' = d\<lparr>api_tokens := filter (live_row (unix t)) (api_tokens d)\<rparr>"
  by (cases f) (simp_all add: Sweep_eq, simp add: DeleteExpiredAPITokens_def)

lemma Verify_Inr: "VerifyAPIToken f wfl t h rtype rid d = Inr d' \<Longrightarrow>
   VerifyAPIToken False wfl t h rtype rid d = Inr d'"
  by (cases f) (simp_all add: VerifyAPIToken_def)

lemma Verify_iff:
  assumes "schema_ok d"
  shows "(\<exists>d'. VerifyAPIToken False wfl t h rtype rid d = Inr d') \<longleftrightarrow> authorises t (hex_encode h) rtype rid d"
proof (cases "find (token_for h rtype rid) (api_tokens d)")
  case None
  moreover from None have "\<not> authorises t (hex_encode h) rtype rid d"
    by (auto simp: authorises_def find_None_iff)
  ultimately show ?thesis by (simp add: Verify_eq)
next
  case (Some r)
  then have r: "r \<in> set (api_tokens d)" "token_for h rtype rid r" using find_SomeD[OF Some] by auto
  have "authorises t (hex_encode h) rtype rid d \<longleftrightarrow> live_row (unix t) r"
    using r unique_key_inj[OF token_schemaD(1)[OF assms]] unfolding authorises_def by metis
  then show ?thesis using Some by (auto simp: Verify_eq)
qed

lemma Verify_rejects:
  assumes "schema_ok d" and "\<not> authorises t (hex_encode h) rtype rid d"
  shows "VerifyAPIToken False wfl t h rtype rid d = Inl (Errorf ''paste not found or invalid token'')"
proof -
  have "VerifyAPIToken False wfl t h rtype rid d = Inl (Errorf ''paste not found or invalid token'')
      \<or> (\<exists>d'. VerifyAPIToken False wfl t h rtype rid d = Inr d')"
    by (auto simp: Verify_eq split: option.splits)
  with Verify_iff[OF assms(1)] assms(2) show ?thesis by blast
qed

text \<open>Verification leaves everything but the time of last use alone.\<close>

lemma Verify_frame:
  "VerifyAPIToken f wfl t h rtype rid d = Inr d' \<Longrightarrow>
   \<exists>rows. d' = d\<lparr>api_tokens := rows\<rparr> \<and>
     map (\<lambda>r. r\<lparr>tk_last_used_at := None\<rparr>) rows = map (\<lambda>r. r\<lparr>tk_last_used_at := None\<rparr>) (api_tokens d)"
  by (drule Verify_Inr) (auto simp: Verify_eq update_where_def split: option.splits if_splits
      intro: exI[of _ "api_tokens d"] exI[of _ "update_where _ _ (api_tokens d)"])

lemma live_row_last_used [simp]: "live_row n (r\<lparr>tk_last_used_at := x\<rparr>) = live_row n r"
  by (simp add: live_row_def)

lemma authorises_cong:
  assumes "map (\<lambda>r. r\<lparr>tk_last_used_at := None\<rparr>) rows = map (\<lambda>r. r\<lparr>tk_last_used_at := None\<rparr>) (api_tokens d)"
  shows "authorises t h rtype rid (d\<lparr>api_tokens := rows\<rparr>) = authorises t h rtype rid d"
proof -
  let ?norm = "\<lambda>r. r\<lparr>tk_last_used_at := None\<rparr>"
  have *: "(\<exists>r \<in> set rs. tk_hash r = h \<and> tk_resource_type r = rtype \<and> tk_resource_id r = rid \<and> live_row n r)
    \<longleftrightarrow> (\<exists>r \<in> set (map ?norm rs). tk_hash r = h \<and> tk_resource_type r = rtype \<and> tk_resource_id r = rid \<and> live_row n r)"
    for rs n by (auto simp: bex_simps)
  show ?thesis unfolding authorises_def by (simp add: *[of rows] *[of "api_tokens d"] assms del: set_map)
qed

lemma authorises_verify:
  "VerifyAPIToken f wfl t h rtype rid d = Inr d' \<Longrightarrow> authorises u k rt ri d' = authorises u k rt ri d"
  using Verify_frame authorises_cong by metis

lemma authorises_create:
  "CreateAPIToken f t k pre rt ri ex d = Inr d' \<Longrightarrow>
   authorises u h rtype rid d' \<longleftrightarrow> authorises u h rtype rid d \<or>
     (h = k \<and> rtype = rt \<and> rid = ri \<and> (case ex of None \<Rightarrow> True | Some e \<Rightarrow> unix u < unix e))"
  by (cases ex) (auto simp: CreateAPIToken_def authorises_def split: if_splits, auto simp: live_row_def)

lemma authorises_revoke:
  assumes "RevokeAPIToken f t pre reason d = Inr d'" and "authorises u h rtype rid d'"
  shows "authorises u h rtype rid d"
  using assms
  by (auto simp: RevokeAPIToken_def authorises_def live_row_def Let_def set_update_where split: if_splits)

lemma authorises_sweep:
  assumes "DeleteExpiredAPITokens f t d = Inr (n, d')"
  shows "authorises u h rtype rid d' \<longleftrightarrow>
    (\<exists>r \<in> set (api_tokens d). tk_hash r = h \<and> tk_resource_type r = rtype \<and> tk_resource_id r = rid \<and>
       live_row (unix u) r \<and> live_row (unix t) r)"
  using Sweep_Inr[OF assms] by (auto simp: authorises_def)

lemma authorises_antimono: "s \<le> t \<Longrightarrow> authorises t h rtype rid d \<Longrightarrow> authorises s h rtype rid d"
  using live_row_mono[OF unix_mono] by (auto simp: authorises_def)

subsection \<open>Schema constraints are kept\<close>

lemma schema_ok_tokens:
  "schema_ok d \<Longrightarrow> unique_key tk_hash rows \<Longrightarrow> unique_key tk_id rows \<Longrightarrow>
   \<forall>r \<in> set rows. tk_id r \<le> api_token_seq d \<Longrightarrow> schema_ok (d\<lparr>api_tokens := rows\<rparr>)"
  by (simp add: schema_ok_def)

lemma schema_ok_token_update:
  assumes "schema_ok d" and "\<And>r. tk_hash (f r) = tk_hash r" and "\<And>r. tk_id (f r) = tk_id r"
  shows "schema_ok (d\<lparr>api_tokens := update_where P f (api_tokens d)\<rparr>)"
  using assms token_schemaD[OF assms(1)]
  by (intro schema_ok_tokens unique_key_update) (auto simp: set_update_where)

lemma schema_ok_token_delete:
  "schema_ok d \<Longrightarrow> schema_ok (d\<lparr>api_tokens := delete_where P (api_tokens d)\<rparr>)"
  using token_schemaD[of d]
  by (intro schema_ok_tokens unique_key_delete) (auto simp: set_delete_where)

lemma CreateAPIToken_schema: "schema_ok d \<Longrightarrow> CreateAPIToken f t k pre rt ri ex d = Inr d' \<Longrightarrow> schema_ok d'"
  by (force simp: CreateAPIToken_def schema_ok_def row_by_None_iff split: if_splits)

lemma VerifyAPIToken_schema: "schema_ok d \<Longrightarrow> VerifyAPIToken f wfl t h rt ri d = Inr d' \<Longrightarrow> schema_ok d'"
  by (auto simp: VerifyAPIToken_def Let_def split: option.splits if_splits intro!: schema_ok_token_update)

lemma RevokeAPIToken_schema: "schema_ok d \<Longrightarrow> RevokeAPIToken f t pre reason d = Inr d' \<Longrightarrow> schema_ok d'"
  by (auto simp: RevokeAPIToken_def Let_def split: if_splits intro!: schema_ok_token_update)

lemma DeleteExpiredAPITokens_schema:
  "schema_ok d \<Longrightarrow> DeleteExpiredAPITokens f t d = Inr (n, d') \<Longrightarrow> schema_ok d'"
  by (auto simp: DeleteExpiredAPITokens_def Let_def split: if_splits intro!: schema_ok_token_delete)

lemmas token_schema_intros = CreateAPIToken_schema VerifyAPIToken_schema RevokeAPIToken_schema
  DeleteExpiredAPITokens_schema

subsection \<open>Token histories\<close>

text \<open>
  Operations on the token table in any order, at instants that do not decrease. A failing
  operation leaves the table as it is.
\<close>

datatype token_op =
    Grant string string string string "instant option"
  | Verify bool bytes string string
  | Revoke string string
  | Sweep

fun token_step :: "bool \<Rightarrow> instant \<Rightarrow> token_op \<Rightarrow> db \<Rightarrow> db" where
  "token_step f t (Grant k pre rt ri ex) d =
     (case CreateAPIToken f t k pre rt ri ex d of Inl _ \<Rightarrow> d | Inr d' \<Rightarrow> d')"
| "token_step f t (Verify wfl h rt ri) d =
     (case VerifyAPIToken f wfl t h rt ri d of Inl _ \<Rightarrow> d | Inr d' \<Rightarrow> d')"
| "token_step f t (Revoke pre reason) d =
     (case RevokeAPIToken f t pre reason d of Inl _ \<Rightarrow> d | Inr d' \<Rightarrow> d')"
| "token_step f t Sweep d =
     (case DeleteExpiredAPITokens f t d of Inl _ \<Rightarrow> d | Inr (n, d') \<Rightarrow> d')"

fun token_run :: "(bool \<times> instant \<times> token_op) list \<Rightarrow> db \<Rightarrow> db" where
  "token_run [] d = d"
| "token_run ((f, t, c) # cs) d = token_run cs (token_step f t c d)"

fun grants :: "string \<Rightarrow> token_op \<Rightarrow> bool" where
  "grants h (Grant k _ _ _ _) = (k = h)"
| "grants h _ = False"

text \<open>The contract of an authority that hands out, checks and withdraws rights.\<close>

locale token_authority =
  fixes auth :: "instant \<Rightarrow> 'k \<Rightarrow> 'd \<Rightarrow> bool"
    and step :: "bool \<Rightarrow> instant \<Rightarrow> 'c \<Rightarrow> 'd \<Rightarrow> 'd"
    and giving :: "'k \<Rightarrow> 'c \<Rightarrow> bool"
  assumes ageing: "s \<le> t \<Longrightarrow> auth t k d \<Longrightarrow> auth s k d"
    and no_gain: "\<not> giving k c \<Longrightarrow> auth t k (step f u c d) \<Longrightarrow> auth t k d"
begin

lemma lost_stays_lost:
  assumes "\<not> auth s k d" and "s \<le> t" and "\<forall>(f, u, c) \<in> set cs. \<not> giving k c"
  shows "\<not> auth t k (fold (\<lambda>(f, u, c) e. step f u c e) cs d)"
  using assms
proof (induction cs arbitrary: d)
  case Nil
  then show ?case using ageing by auto
next
  case (Cons x cs)
  obtain f u c where x: "x = (f, u, c)" by (cases x)
  from Cons.prems(3) have "\<not> giving k c" by (simp add: x)
  with Cons.prems(1) have "\<not> auth s k (step f u c d)" using no_gain by blast
  from Cons.IH[OF this Cons.prems(2)] Cons.prems(3) show ?case by (simp add: x)
qed

end

lemma token_run_fold: "token_run cs d = fold (\<lambda>(f, u, c) e. token_step f u c e) cs d"
  by (induction cs d rule: token_run.induct) simp_all

interpretation tokens: token_authority
  "\<lambda>t (h, rt, ri). authorises t h rt ri" token_step "\<lambda>(h, rt, ri). grants h"
proof (unfold_locales, goal_cases)
  case (1 s t k d)
  then show ?case by (auto split: prod.splits intro: authorises_antimono)
next
  case (2 k c t f u d)
  then show ?case
    by (cases c) (auto split: prod.splits sum.splits
        simp: authorises_verify authorises_create authorises_sweep authorises_def[of _ _ _ _ d]
        dest: authorises_revoke)
qed

lemma Revoke_rows:
  assumes "RevokeAPIToken f t pre reason d = Inr d'" and "r \<in> set (api_tokens d')"
  shows "(tk_prefix r = pre \<longrightarrow> tk_revoked_at r \<noteq> None) \<and>
    (\<exists>q \<in> set (api_tokens d). tk_hash q = tk_hash r \<and> tk_prefix q = tk_prefix r)"
proof -
  have "r \<in> set (update_where (\<lambda>r. tk_prefix r = pre \<and> tk_revoked_at r = None)
      (\<lambda>r. r\<lparr>tk_revoked_at := Some (unix t), tk_revoked_reason := Some reason\<rparr>) (api_tokens d))"
    using assms by (auto simp: RevokeAPIToken_def Let_def split: if_splits)
  then show ?thesis by (auto simp: set_update_where)
qed

lemma token_step_schema: "schema_ok d \<Longrightarrow> schema_ok (token_step f t c d)"
  by (cases c) (auto split: sum.splits intro: token_schema_intros)

lemma token_run_schema: "schema_ok d \<Longrightarrow> schema_ok (token_run cs d)"
  by (induction cs d rule: token_run.induct) (auto intro: token_step_schema)

subsection \<open>Properties\<close>


lemma empty_db_tokens [simp]: "api_tokens empty_db = []"
  by (simp add: empty_db_def)


text \<open>C38: Revocation is final. Once the tokens with a given prefix have been revoked, a token
  with that prefix is refused after any later history of grants of other tokens,
  verifications, revocations and clean-ups, failing or not, at any later time.\<close>

theorem revocation_is_final:
  assumes "schema_ok d" and "RevokeAPIToken False t pre reason d = Inr d'"
    and "\<forall>r \<in> set (api_tokens d). tk_hash r = hex_encode h \<longrightarrow> tk_prefix r = pre"
    and "\<forall>(f, u, c) \<in> set cs. \<not> grants (hex_encode h) c"
  shows "VerifyAPIToken False wfl u h rt ri (token_run cs d') =
    Inl (Errorf ''paste not found or invalid token'')"
proof (rule Verify_rejects)
  have ok: "schema_ok d'" using assms(1,2) by (rule RevokeAPIToken_schema)
  then show "schema_ok (token_run cs d')" by (rule token_run_schema)
  have "\<not> authorises u (hex_encode h) rt ri d'"
    using Revoke_rows[OF assms(2)] assms(3) unfolding authorises_def live_row_def by metis
  with assms(4) show "\<not> authorises u (hex_encode h) rt ri (token_run cs d')"
    using tokens.lost_stays_lost[of u "(hex_encode h, rt, ri)" d' u cs] by (simp add: token_run_fold)
qed

definition one_token_db :: db where
  "one_token_db = empty_db\<lparr>api_tokens := [\<lparr>tk_id = 1, tk_hash = hex_encode ''k'', tk_prefix = ''tok_k'',
     tk_resource_type = ''paste'', tk_resource_id = ''aa'', tk_created_at = 0, tk_expires_at = None,
     tk_last_used_at = None, tk_revoked_at = None, tk_revoked_reason = None\<rparr>], api_token_seq := 1\<rparr>"

lemma one_token_ok: "schema_ok one_token_db"
  by (simp add: one_token_db_def schema_ok_def empty_db_def)

theorem revocation_is_final_witness:
  "\<exists>d'. RevokeAPIToken False 0 ''tok_k'' ''leaked'' one_token_db = Inr d' \<and>
     VerifyAPIToken False False 9 ''k'' ''paste'' ''aa'' (token_run [(False, 3, Sweep)] d') =
       Inl (Errorf ''paste not found or invalid token'')"
proof -
  obtain d' where d': "RevokeAPIToken False 0 ''tok_k'' ''leaked'' one_token_db = Inr d'"
    by (auto simp: RevokeAPIToken_def one_token_db_def rows_affected_def)
  have "VerifyAPIToken False False 9 ''k'' ''paste'' ''aa'' (token_run [(False, 3, Sweep)] d') =
       Inl (Errorf ''paste not found or invalid token'')"
    by (rule revocation_is_final[OF one_token_ok d']) (auto simp: one_token_db_def)
  with d' show ?thesis by blast
qed

text \<open>The clean-up of tokens removes exactly the revoked and expired rows, and no later
  verification can tell the difference: it succeeds after the clean-up exactly when it would
  have succeeded without it.\<close>

theorem token_cleanup_unobservable:
  assumes "schema_ok d" and "s \<le> u"
  shows "\<exists>n d'. DeleteExpiredAPITokens False s d = Inr (n, d') \<and>
    n + int (length (api_tokens d')) = int (length (api_tokens d)) \<and>
    set (api_tokens d') = {r \<in> set (api_tokens d). live_row (unix s) r} \<and>
    ((\<exists>e. VerifyAPIToken False wfl u h rt ri d' = Inr e) \<longleftrightarrow> (\<exists>e. VerifyAPIToken False wfl u h rt ri d = Inr e))"
proof -
  let ?d' = "d\<lparr>api_tokens := filter (live_row (unix s)) (api_tokens d)\<rparr>"
  have c: "DeleteExpiredAPITokens False s d =
      Inr (int (rows_affected (\<lambda>r. \<not> live_row (unix s) r) (api_tokens d)), ?d')" by (rule Sweep_eq)
  have ok: "schema_ok ?d'" by (rule DeleteExpiredAPITokens_schema[OF assms(1) c])
  have "authorises u (hex_encode h) rt ri ?d' \<longleftrightarrow> authorises u (hex_encode h) rt ri d"
    unfolding authorises_sweep[OF c] using live_row_mono[OF unix_mono[OF assms(2)]]
    by (auto simp: authorises_def)
  moreover have "length (filter (live_row (unix s)) (api_tokens d)) +
      rows_affected (\<lambda>r. \<not> live_row (unix s) r) (api_tokens d) = length (api_tokens d)"
    unfolding rows_affected_def by (rule sum_length_filter_compl)
  ultimately show ?thesis
    using Verify_iff[OF assms(1)] Verify_iff[OF ok] c by simp
qed

theorem token_cleanup_unobservable_witness:
  "\<exists>n d'. DeleteExpiredAPITokens False 0 one_token_db = Inr (n, d') \<and>
    n + int (length (api_tokens d')) = int (length (api_tokens one_token_db)) \<and>
    ((\<exists>e. VerifyAPIToken False False 7 ''k'' ''paste'' ''aa'' d' = Inr e) \<longleftrightarrow>
     (\<exists>e. VerifyAPIToken False False 7 ''k'' ''paste'' ''aa'' one_token_db = Inr e))"
  using token_cleanup_unobservable[OF one_token_ok, of 0 7 False "''k''" "''paste''" "''aa''"] by auto

end
