(* ===== verification/Cache.thy ===== *)
theory Cache
  imports Pastebin_Prelude
begin

section \<open>The read cache\<close>

text \<open>
  \<^verbatim>\<open>src/src/cache/cache.go\<close>: the driver selection, the in-process driver with expiring
  entries, its reaper and the no-op driver. The drivers store strings; the model leaves the
  type of values open. The Redis and Valkey drivers talk to an external server and are not
  modelled; the contract below is the one every driver has to meet for its clients.
\<close>

subsection \<open>Drivers\<close>

datatype cache_kind = KMemory | KNone | KRedis

definition cache_New :: "string \<Rightarrow> cache_kind option" where
  "cache_New typ =
     (let k = to_lower (trim_space typ)
      in if k = [] \<or> k = ''memory'' then Some KMemory
         else if k = ''none'' then Some KNone
         else if k = ''valkey'' \<or> k = ''redis'' then Some KRedis
         else None)"

definition cache_default_ttl :: "duration \<Rightarrow> duration" where
  "cache_default_ttl ttl = (if ttl = 0 then Hour else ttl)"

record 'v mem_entry =
  ce_value :: 'v
  ce_expiresAt :: instant

record 'v memory_cache =
  mc_data :: "string \<Rightarrow> 'v mem_entry option"
  mc_prefix :: string
  mc_defaultTTL :: duration

definition newMemoryCache :: "string \<Rightarrow> duration \<Rightarrow> 'v memory_cache" where
  "newMemoryCache pre ttl = \<lparr>mc_data = Map.empty, mc_prefix = pre, mc_defaultTTL = ttl\<rparr>"

definition mc_key :: "'v memory_cache \<Rightarrow> string \<Rightarrow> string" where
  "mc_key c k = mc_prefix c @ k"

definition entry_expired :: "instant \<Rightarrow> 'v mem_entry \<Rightarrow> bool" where
  "entry_expired now e \<longleftrightarrow> \<not> IsZero (ce_expiresAt e) \<and> now > ce_expiresAt e"

text \<open>A miss is \<^const>\<open>None\<close>; reading an expired entry removes it.\<close>

definition mem_Get :: "instant \<Rightarrow> string \<Rightarrow> 'v memory_cache \<Rightarrow> 'v option \<times> 'v memory_cache" where
  "mem_Get now k c =
     (case mc_data c (mc_key c k) of
        None \<Rightarrow> (None, c)
      | Some e \<Rightarrow>
          if entry_expired now e
          then (None, c\<lparr>mc_data := (mc_data c)(mc_key c k := None)\<rparr>)
          else (Some (ce_value e), c))"

definition mem_Set :: "instant \<Rightarrow> string \<Rightarrow> 'v \<Rightarrow> duration \<Rightarrow> 'v memory_cache \<Rightarrow> 'v memory_cache" where
  "mem_Set now k v ttl c =
     (let ttl' = (if ttl = 0 then mc_defaultTTL c else ttl);
          expiresAt = (if ttl' > 0 then now + ttl' else zero_time)
      in c\<lparr>mc_data := (mc_data c)(mc_key c k \<mapsto> \<lparr>ce_value = v, ce_expiresAt = expiresAt\<rparr>)\<rparr>)"

definition mem_Delete :: "string \<Rightarrow> 'v memory_cache \<Rightarrow> 'v memory_cache" where
  "mem_Delete k c = c\<lparr>mc_data := (mc_data c)(mc_key c k := None)\<rparr>"

definition mem_reap :: "instant \<Rightarrow> 'v memory_cache \<Rightarrow> 'v memory_cache" where
  "mem_reap now c =
     c\<lparr>mc_data := (\<lambda>k. case mc_data c k of
        None \<Rightarrow> None | Some e \<Rightarrow> if entry_expired now e then None else Some e)\<rparr>"

datatype 'v cache_driver = MemoryCache "'v memory_cache" | NoopCache

fun cache_Get :: "instant \<Rightarrow> string \<Rightarrow> 'v cache_driver \<Rightarrow> 'v option \<times> 'v cache_driver" where
  "cache_Get now k (MemoryCache c) = map_prod id MemoryCache (mem_Get now k c)"
| "cache_Get now k NoopCache = (None, NoopCache)"

fun cache_Set :: "instant \<Rightarrow> string \<Rightarrow> 'v \<Rightarrow> duration \<Rightarrow> 'v cache_driver \<Rightarrow> 'v cache_driver" where
  "cache_Set now k v ttl (MemoryCache c) = MemoryCache (mem_Set now k v ttl c)"
| "cache_Set now k v ttl NoopCache = NoopCache"

fun cache_Delete :: "string \<Rightarrow> 'v cache_driver \<Rightarrow> 'v cache_driver" where
  "cache_Delete k (MemoryCache c) = MemoryCache (mem_Delete k c)"
| "cache_Delete k NoopCache = NoopCache"

fun cache_Reap :: "instant \<Rightarrow> 'v cache_driver \<Rightarrow> 'v cache_driver" where
  "cache_Reap now (MemoryCache c) = MemoryCache (mem_reap now c)"
| "cache_Reap now NoopCache = NoopCache"

subsection \<open>The contract\<close>

text \<open>
  What a client may rely on: a hit is something that is held under the key, reads and
  sweeps only ever drop entries, a write replaces at most the entry of its key, and a
  deleted key is not held. Nothing is promised to be kept.
\<close>

locale cache_contract =
  fixes get :: "instant \<Rightarrow> string \<Rightarrow> 'c \<Rightarrow> 'v option \<times> 'c"
    and put :: "instant \<Rightarrow> string \<Rightarrow> 'v \<Rightarrow> duration \<Rightarrow> 'c \<Rightarrow> 'c"
    and del :: "string \<Rightarrow> 'c \<Rightarrow> 'c"
    and reap :: "instant \<Rightarrow> 'c \<Rightarrow> 'c"
    and held :: "'c \<Rightarrow> string \<Rightarrow> 'v option"
  assumes get_held: "fst (get now k c) = Some v \<Longrightarrow> held c k = Some v"
    and get_drops: "held (snd (get now k c)) \<subseteq>\<^sub>m held c"
    and put_held: "held (put now k v ttl c) \<subseteq>\<^sub>m (held c)(k \<mapsto> v)"
    and del_held: "held (del k c) \<subseteq>\<^sub>m (held c)(k := None)"
    and reap_drops: "held (reap now c) \<subseteq>\<^sub>m held c"
begin

text \<open>An invariant on the entries is kept by every operation, provided writes respect it.\<close>

definition coherent :: "(string \<Rightarrow> 'v \<Rightarrow> bool) \<Rightarrow> 'c \<Rightarrow> bool" where
  "coherent R c \<longleftrightarrow> (\<forall>k v. held c k = Some v \<longrightarrow> R k v)"

lemma coherent_mono: "coherent R c \<Longrightarrow> held c' \<subseteq>\<^sub>m held c \<Longrightarrow> coherent R c'"
  unfolding coherent_def map_le_def by (metis domI)

lemma coherent_hit: "coherent R c \<Longrightarrow> fst (get now k c) = Some v \<Longrightarrow> R k v"
  using get_held by (simp add: coherent_def)

lemma coherent_get: "coherent R c \<Longrightarrow> coherent R (snd (get now k c))"
  by (erule coherent_mono) (rule get_drops)

lemma coherent_reap: "coherent R c \<Longrightarrow> coherent R (reap now c)"
  by (erule coherent_mono) (rule reap_drops)

lemma coherent_put: "coherent R c \<Longrightarrow> R k v \<Longrightarrow> coherent R (put now k v ttl c)"
  using put_held[of now k v ttl c] unfolding coherent_def map_le_def
  by (metis domI fun_upd_apply option.inject)

lemma held_del: "held (del k c) k = None"
  using del_held[of k c] unfolding map_le_def by (metis domIff fun_upd_same)

text \<open>After a deletion the invariant may be weakened at the deleted key only.\<close>

lemma coherent_del: "coherent R c \<Longrightarrow> (\<And>j v. j \<noteq> k \<Longrightarrow> R j v \<Longrightarrow> R' j v) \<Longrightarrow> coherent R' (del k c)"
  using del_held[of k c] unfolding coherent_def map_le_def
  by (metis domI fun_upd_apply option.distinct(1))

lemma get_after_del: "fst (get now k (del k c)) = None"
  by (metis get_held held_del not_None_eq option.distinct(1))

end

fun driver_held :: "'v cache_driver \<Rightarrow> string \<Rightarrow> 'v option" where
  "driver_held (MemoryCache c) = (\<lambda>k. map_option ce_value (mc_data c (mc_key c k)))"
| "driver_held NoopCache = Map.empty"

lemma mc_key_eq_iff [simp]: "mc_key c j = mc_key c k \<longleftrightarrow> j = k"
  by (simp add: mc_key_def)

lemma mc_key_data [simp]: "mc_key (c\<lparr>mc_data := x\<rparr>) k = mc_key c k"
  by (simp add: mc_key_def)

lemmas mem_defs = mem_Get_def mem_Set_def mem_Delete_def mem_reap_def

interpretation drivers: cache_contract cache_Get cache_Set cache_Delete cache_Reap driver_held
proof (unfold_locales, goal_cases)
  case (1 now k c v)
  then show ?case by (cases c) (auto simp: mem_defs split: option.splits if_splits)
next
  case (2 now k c)
  then show ?case by (cases c) (auto simp: mem_defs map_le_def split: option.splits if_splits)
next
  case (3 now k v ttl c)
  then show ?case by (cases c) (auto simp: mem_defs map_le_def Let_def)
next
  case (4 k c)
  then show ?case by (cases c) (auto simp: mem_defs map_le_def)
next
  case (5 now c)
  then show ?case by (cases c) (auto simp: mem_defs map_le_def split: option.splits if_splits)
qed

subsection \<open>Properties of the in-process driver\<close>

datatype 'v cache_op = OGet string | OSet string 'v duration | ODelete string | OReap

fun mem_op :: "instant \<Rightarrow> 'v cache_op \<Rightarrow> 'v memory_cache \<Rightarrow> 'v memory_cache" where
  "mem_op now (OGet k) c = snd (mem_Get now k c)"
| "mem_op now (OSet k v ttl) c = mem_Set now k v ttl c"
| "mem_op now (ODelete k) c = mem_Delete k c"
| "mem_op now OReap c = mem_reap now c"

fun op_touches :: "string \<Rightarrow> 'v cache_op \<Rightarrow> bool" where
  "op_touches k (OSet j _ _) = (j = k)"
| "op_touches k (ODelete j) = (j = k)"
| "op_touches k _ = False"

definition mem_run :: "(instant \<times> 'v cache_op) list \<Rightarrow> 'v memory_cache \<Rightarrow> 'v memory_cache" where
  "mem_run ops c = fold (\<lambda>(t, o1). mem_op t o1) ops c"

lemma mem_prefix_kept [simp]: "mc_prefix (mem_op t o1 c) = mc_prefix c"
  by (cases o1) (auto simp: mem_defs Let_def split: option.splits)

lemma mem_key_kept [simp]: "mc_key (mem_op t o1 c) k = mc_key c k"
  by (simp add: mc_key_def)

lemma mem_op_entry:
  assumes "mc_data c (mc_key c k) = Some e" and "\<not> entry_expired t e" and "\<not> op_touches k o1"
  shows "mc_data (mem_op t o1 c) (mc_key c k) = Some e"
  using assms by (cases o1) (auto simp: mem_defs Let_def split: option.splits)

lemma mem_run_entry:
  assumes "mc_data c (mc_key c k) = Some e" and "\<forall>(t, o1) \<in> set ops. \<not> entry_expired t e \<and> \<not> op_touches k o1"
  shows "mc_data (mem_run ops c) (mc_key c k) = Some e \<and> mc_prefix (mem_run ops c) = mc_prefix c"
  using assms unfolding mem_run_def
proof (induction ops arbitrary: c)
  case (Cons x ops)
  obtain t o1 where x: "x = (t, o1)" by (cases x)
  have "mc_data (mem_op t o1 c) (mc_key (mem_op t o1 c) k) = Some e"
    using mem_op_entry[OF Cons.prems(1)] Cons.prems(2) by (simp add: x)
  from Cons.IH[OF this] Cons.prems(2) show ?case by (simp add: x)
qed simp

text \<open>The in-process driver keeps what it is given: a value written with a positive
  time-to-live is read back until its lifetime has passed, and misses afterwards, whatever
  reads, writes and deletes of other keys, reads of the same key and sweeps of the reaper
  happen in between; a deleted key misses at once.\<close>

theorem mem_cache_ttl:
  assumes "0 < ttl" and "now + ttl \<noteq> zero_time"
    and "\<forall>(t, o1) \<in> set ops. t \<le> now + ttl \<and> \<not> op_touches k o1"
  shows "fst (mem_Get u k (mem_run ops (mem_Set now k v ttl c))) = (if u \<le> now + ttl then Some v else None)
    \<and> fst (mem_Get u k (mem_Delete k (mem_run ops (mem_Set now k v ttl c)))) = None"
proof -
  let ?e = "\<lparr>ce_value = v, ce_expiresAt = now + ttl\<rparr>" and ?c = "mem_Set now k v ttl c"
  have e: "mc_data ?c (mc_key ?c k) = Some ?e"
    using assms(1) by (simp add: mem_Set_def Let_def)
  have exp: "entry_expired t ?e \<longleftrightarrow> t > now + ttl" for t
    using assms(2) by (simp add: entry_expired_def IsZero_def)
  from assms(3) have "\<forall>(t, o1) \<in> set ops. \<not> entry_expired t ?e \<and> \<not> op_touches k o1"
    by (auto simp: exp)
  from mem_run_entry[OF e this] have "mc_data (mem_run ops ?c) (mc_key (mem_run ops ?c) k) = Some ?e"
    by (simp add: mc_key_def)
  then show ?thesis by (simp add: mem_Get_def mem_Delete_def exp)
qed

theorem mem_cache_ttl_witness:
  "fst (mem_Get 8 ''a'' (mem_run [(6, OReap), (7, ODelete ''b'')] (mem_Set 5 ''a'' ''x'' 5 (newMemoryCache ''p:'' Hour))))
     = Some ''x'' \<and>
   fst (mem_Get 11 ''a'' (mem_run [(6, OReap), (7, ODelete ''b'')] (mem_Set 5 ''a'' ''x'' 5 (newMemoryCache ''p:'' Hour))))
     = None"
  using mem_cache_ttl[of 5 5 "[(6, OReap), (7, ODelete ''b'')]" "''a''" 8 "''x''" "newMemoryCache ''p:'' Hour"]
    mem_cache_ttl[of 5 5 "[(6, OReap), (7, ODelete ''b'')]" "''a''" 11 "''x''" "newMemoryCache ''p:'' Hour"]
  by (simp add: zero_time_def)

end
