(* ===== verification/Paste_Handler.thy ===== *)
theory Paste_Handler
  imports Http Paste_Store Token_Store Cache
begin

section \<open>The paste handler\<close>

text \<open>
  \<^verbatim>\<open>src/src/handler/paste.go\<close>, function by function: the handler's configuration, the read
  cache, identifiers and owner tokens, creation from a request, the read handlers, listing
  and deletion. A handler maps a world (database, cache, metrics) to a reply and a new world;
  the environment of a request gives the instant it runs at, the random bytes it draws and
  the database statements that fail.
\<close>

subsection \<open>State\<close>

record paste_handler =
  ph_baseURL :: string
  ph_baseURLFn :: "(http_request \<Rightarrow> string) option"
  ph_operatorTokenHash :: bytes
  ph_maxSizeBytes :: int
  ph_maxSizeSet :: bool

record world =
  w_db :: db
  w_cache :: "paste cache_driver option"
  w_created :: int
  w_viewed :: int
  w_deleted :: int
  w_tokens_active :: int

datatype dbcall = CallGetID nat | CallGet | CallCreate | CallValidate | CallToken | CallList
  | CallView | CallDelete | CallDeleteByToken | CallVerify | CallTouch | CallPublic

record env =
  e_now :: instant
  e_idrand :: "nat \<Rightarrow> bytes option"   \<comment> \<open>the draw of each attempt at an identifier\<close>
  e_tokrand :: "bytes option"
  e_fault :: "dbcall \<Rightarrow> bool"

definition defaultMaxSizeBytes :: int where "defaultMaxSizeBytes = 10485760"

definition maxSize :: "paste_handler \<Rightarrow> int" where
  "maxSize h = (if ph_maxSizeSet h then ph_maxSizeBytes h else defaultMaxSizeBytes)"

definition effectiveReadLimit :: "paste_handler \<Rightarrow> int" where
  "effectiveReadLimit h = (let n = maxSize h in if n \<le> 0 then max_int64 - 1 else n)"

definition SetMaxSize :: "int \<Rightarrow> paste_handler \<Rightarrow> paste_handler" where
  "SetMaxSize n h = h\<lparr>ph_maxSizeBytes := (if n < 0 then 0 else n), ph_maxSizeSet := True\<rparr>"

definition SetBaseURLResolver :: "(http_request \<Rightarrow> string) \<Rightarrow> paste_handler \<Rightarrow> paste_handler" where
  "SetBaseURLResolver f h = h\<lparr>ph_baseURLFn := Some f\<rparr>"

definition SetCache :: "paste cache_driver option \<Rightarrow> world \<Rightarrow> world" where
  "SetCache c w = w\<lparr>w_cache := c\<rparr>"

definition refreshActiveTokenGauge :: "env \<Rightarrow> world \<Rightarrow> world" where
  "refreshActiveTokenGauge e w =
     (case ListAPITokens (e_fault e CallList) (w_db w) of
        Inl _ \<Rightarrow> w | Inr toks \<Rightarrow> w\<lparr>w_tokens_active := int (length toks)\<rparr>)"

definition NewPasteHandler :: "env \<Rightarrow> string \<Rightarrow> bytes \<Rightarrow> world \<Rightarrow> paste_handler \<times> world" where
  "NewPasteHandler e url operatorHash w =
     (\<lparr>ph_baseURL = url, ph_baseURLFn = None, ph_operatorTokenHash = operatorHash,
       ph_maxSizeBytes = 0, ph_maxSizeSet = False\<rparr>,
      refreshActiveTokenGauge e (w\<lparr>w_cache := None\<rparr>))"

subsection \<open>The read cache\<close>

definition pasteCacheTTL :: duration where "pasteCacheTTL = 5 * Minute"

definition pasteCacheKey :: "string \<Rightarrow> string" where "pasteCacheKey pid = ''paste:'' @ pid"

text \<open>What is left of a paste after \<^verbatim>\<open>json.Marshal\<close> and \<^verbatim>\<open>json.Unmarshal\<close>: the delete-token hash
  is not written, and strings are coerced to valid UTF-8.\<close>

definition json_roundtrip :: "paste \<Rightarrow> paste" where
  "json_roundtrip p =
     p\<lparr>p_ID := utf8_coerce (p_ID p), p_Title := utf8_coerce (p_Title p),
       p_Content := utf8_coerce (p_Content p), p_ContentType := utf8_coerce (p_ContentType p),
       p_Language := utf8_coerce (p_Language p), p_DeleteTokenHash := []\<rparr>"

definition getCachedPaste :: "instant \<Rightarrow> string \<Rightarrow> world \<Rightarrow> paste option \<times> world" where
  "getCachedPaste now pid w =
     (case w_cache w of
        None \<Rightarrow> (None, w)
      | Some c \<Rightarrow>
          (case cache_Get now (pasteCacheKey pid) c of
             (None, c') \<Rightarrow> (None, w\<lparr>w_cache := Some c'\<rparr>)
           | (Some p, c') \<Rightarrow> (if p_BurnAfter p > 0 then None else Some p, w\<lparr>w_cache := Some c'\<rparr>)))"

definition cachePaste :: "instant \<Rightarrow> paste \<Rightarrow> world \<Rightarrow> world" where
  "cachePaste now p w =
     (case w_cache w of
        None \<Rightarrow> w
      | Some c \<Rightarrow>
          if p_BurnAfter p > 0 then w
          else w\<lparr>w_cache := Some (cache_Set now (pasteCacheKey (p_ID p)) (json_roundtrip p) pasteCacheTTL c)\<rparr>)"

definition invalidatePasteCache :: "string \<Rightarrow> world \<Rightarrow> world" where
  "invalidatePasteCache pid w =
     (case w_cache w of None \<Rightarrow> w | Some c \<Rightarrow> w\<lparr>w_cache := Some (cache_Delete (pasteCacheKey pid) c)\<rparr>)"

subsection \<open>Identifiers and tokens\<close>

definition idCharset :: string where
  "idCharset = ''abcdefghijklmnopqrstuvwxyzABCDEFGHIJKLMNOPQRSTUVWXYZ0123456789''"

definition generateID :: "bytes option \<Rightarrow> string option" where
  "generateID draw = map_option (map (\<lambda>v. idCharset ! (of_char v mod length idCharset))) draw"

definition generateOwnerToken :: "golib \<Rightarrow> bytes option \<Rightarrow> (string \<times> bytes) option" where
  "generateOwnerToken L draw =
     map_option (\<lambda>raw. let plaintext = ''tok_'' @ map (\<lambda>v. idCharset ! (of_char v mod length idCharset)) raw
                       in (plaintext, lib_sha256 L plaintext)) draw"

definition HashToken :: "golib \<Rightarrow> string \<Rightarrow> string" where
  "HashToken L token = hex_encode (lib_sha256 L token)"

definition extractToken :: "golib \<Rightarrow> http_request \<Rightarrow> string" where
  "extractToken L r =
     (let auth = rq_header r ''Authorization''; ct = rq_header r ''Content-Type''
      in if auth \<noteq> [] then trim_prefix auth ''Bearer ''
         else case find (\<lambda>v. v \<noteq> []) (map (rq_header r) [''X-Api-Token'', ''X-Token'', ''X-Delete-Token'']) of
                Some v \<Rightarrow> v
              | None \<Rightarrow>
                  (if query_get r ''token'' \<noteq> [] then query_get r ''token''
                   else
                     let owner = (if has_prefix ct ''application/x-www-form-urlencoded''
                                  then opt_str (fst (ParseForm L r) ''owner_token'')
                                  else [])
                     in if owner \<noteq> [] then owner
                        else if has_prefix ct ''application/json'' then lib_json_token L (take 1024 (body_bytes r))
                        else []))"

subsection \<open>Parsing a creation request\<close>

definition ValidateLinkTarget :: "golib \<Rightarrow> string \<Rightarrow> bool" where
  "ValidateLinkTarget L target =
     (case lib_url L target of
        None \<Rightarrow> False
      | Some (scheme, host) \<Rightarrow>
          if scheme \<noteq> ''http'' \<and> scheme \<noteq> ''https'' then False else host \<noteq> [])"

definition isSingleURLContent :: "golib \<Rightarrow> bytes \<Rightarrow> bool" where
  "isSingleURLContent L content =
     (let trimmed = trim_space content
      in if trimmed = [] then False
         else if contains_any trimmed [CHR '' '', CHR 0x09, CHR 0x0A, CHR 0x0D] then False
         else if \<not> has_prefix trimmed ''http://'' \<and> \<not> has_prefix trimmed ''https://'' then False
         else ValidateLinkTarget L trimmed)"

text \<open>\<^verbatim>\<open>readLimited\<close> together with what it leaves unread.\<close>

definition readLimited :: "bytes \<Rightarrow> int \<Rightarrow> bytes \<times> bool \<times> bytes" where
  "readLimited body limit =
     (let n = nat (wrap64 (limit + 1)); raw = take n body; rest = drop n body
      in if int (length raw) > limit then (take (nat limit) raw, True, rest) else (raw, False, rest))"

definition language_table :: "(string \<times> string) list" where
  "language_table =
     [(''js'', ''javascript''), (''ts'', ''typescript''), (''jsx'', ''jsx''), (''tsx'', ''tsx''),
      (''py'', ''python''), (''rb'', ''ruby''), (''go'', ''go''), (''rs'', ''rust''),
      (''java'', ''java''), (''c'', ''c''), (''cpp'', ''cpp''), (''cc'', ''cpp''),
      (''h'', ''c''), (''hpp'', ''cpp''), (''cs'', ''csharp''), (''php'', ''php''),
      (''sh'', ''bash''), (''bash'', ''bash''), (''zsh'', ''bash''), (''fish'', ''bash''),
      (''ps1'', ''powershell''), (''html'', ''html''), (''htm'', ''html''), (''css'', ''css''),
      (''scss'', ''scss''), (''sass'', ''sass''), (''json'', ''json''), (''yaml'', ''yaml''),
      (''yml'', ''yaml''), (''toml'', ''toml''), (''xml'', ''xml''), (''sql'', ''sql''),
      (''md'', ''markdown''), (''txt'', ''text''), (''lua'', ''lua''), (''r'', ''r''),
      (''swift'', ''swift''), (''kt'', ''kotlin''), (''dart'', ''dart''), (''ex'', ''elixir''),
      (''exs'', ''elixir''), (''erl'', ''erlang''), (''hs'', ''haskell''), (''clj'', ''clojure''),
      (''scala'', ''scala''), (''pl'', ''perl''), (''ini'', ''ini''), (''conf'', ''ini''),
      (''env'', ''bash''), (''diff'', ''diff''), (''patch'', ''diff''), (''dockerfile'', ''dockerfile''),
      (''makefile'', ''makefile''), (''mk'', ''makefile'')]"

definition DetectLanguage :: "string \<Rightarrow> string" where
  "DetectLanguage filename =
     (let ext = after_last CHR ''.'' (to_lower filename)
      in case map_of language_table ext of Some lang \<Rightarrow> lang | None \<Rightarrow> ''text'')"

definition too_large :: "int \<Rightarrow> int \<times> string" where
  "too_large limit = (413, ''paste exceeds maximum size of '' @ show_int limit @ '' bytes'')"

definition burn_field :: "string \<Rightarrow> create_request \<Rightarrow> create_request" where
  "burn_field s q = (case Atoi s of (ba, None) \<Rightarrow> q\<lparr>q_BurnAfter := ba\<rparr> | _ \<Rightarrow> q)"

text \<open>A file part: sniffed on its first 512 bytes, kept as text or stored as base64.\<close>

definition file_content :: "golib \<Rightarrow> bytes \<Rightarrow> create_request" where
  "file_content L raw =
     (let detectedCT = lib_detect L (take 512 raw)
      in if has_prefix detectedCT ''text/'' then zero_create_request\<lparr>q_Content := raw\<rparr>
         else zero_create_request\<lparr>q_Content := b64_encode raw, q_ContentType := detectedCT\<rparr>)"

definition parse_multipart_request ::
  "golib \<Rightarrow> int \<Rightarrow> http_request \<Rightarrow> multipart \<Rightarrow> (int \<times> string) + create_request" where
  "parse_multipart_request L limit r mp =
     (let fv = multipart_value r mp;
          common = (\<lambda>q. burn_field (fv ''burn_after'')
                     (q\<lparr>q_Visibility := fv ''visibility'', q_ExpiresIn := fv ''expires_in''\<rparr>))
      in case mp_file mp ''files'' of
           Some (filename, filebytes) \<Rightarrow>
             (let (raw, tooLarge, rest) = readLimited filebytes limit
              in if tooLarge then Inl (too_large limit)
                 else Inr (common ((file_content L raw)\<lparr>q_Title := filename,
                                      q_Language := DetectLanguage filename\<rparr>)))
         | None \<Rightarrow>
             Inr (common (zero_create_request\<lparr>q_Content := fv ''content'', q_Title := fv ''title'',
                                               q_Language := fv ''language''\<rparr>)))"

text \<open>The switch on the content type. The request comes back with what is left of its body.\<close>

definition parse_create ::
  "golib \<Rightarrow> paste_handler \<Rightarrow> http_request \<Rightarrow> (int \<times> string) + create_request \<times> http_request" where
  "parse_create L h r =
     (let ct = rq_header r ''Content-Type''; limit = effectiveReadLimit h
      in if has_prefix ct ''application/json'' then
           (let (raw, tooLarge, rest) = readLimited (body_bytes r) limit
            in if tooLarge then Inl (too_large limit)
               else case lib_json_create L raw of
                      None \<Rightarrow> Inl (400, ''invalid JSON'')
                    | Some q \<Rightarrow> Inr (q, r\<lparr>rq_body := rest\<rparr>))
         else if has_prefix ct ''multipart/form-data'' then
           (case ParseMultipartForm L r of
              Inl _ \<Rightarrow> Inl (400, ''failed to parse form'')
            | Inr mp \<Rightarrow>
                (case parse_multipart_request L limit r mp of
                   Inl e \<Rightarrow> Inl e
                 | Inr q \<Rightarrow> Inr (q, r\<lparr>rq_body := []\<rparr>)))
         else if has_prefix ct ''application/x-www-form-urlencoded'' then
           (case ParseForm L r of
              (_, Some _) \<Rightarrow> Inl (400, ''failed to parse form'')
            | (f, None) \<Rightarrow>
                (let fv = form_value r f
                 in Inr (burn_field (fv ''burn_after'')
                      (zero_create_request\<lparr>q_Content := fv ''content'', q_Title := fv ''title'',
                         q_Language := fv ''language'', q_Visibility := fv ''visibility'',
                         q_ExpiresIn := fv ''expires_in''\<rparr>), r\<lparr>rq_body := [], rq_form := Some f\<rparr>)))
         else
           (let (raw, tooLarge, rest) = readLimited (body_bytes r) limit
            in if tooLarge then Inl (too_large limit)
               else Inr (zero_create_request\<lparr>q_Content := raw, q_Title := rq_header r ''X-Title'',
                           q_Language := rq_header r ''X-Language'',
                           q_ExpiresIn := rq_header r ''X-Expires-In''\<rparr>, r\<lparr>rq_body := rest\<rparr>)))"

subsection \<open>From the request to the paste\<close>

text \<open>Link detection, base64 of binary content, trimming, and the check that something is left.\<close>

definition normalize_content :: "golib \<Rightarrow> create_request \<Rightarrow> (int \<times> string) + create_request" where
  "normalize_content L q0 =
     (let q = q0\<lparr>q_IsLink := isSingleURLContent L (q_Content q0)\<rparr>;
          step = (if q_IsLink q then
                    (let q1 = q\<lparr>q_ContentType := [], q_Language := [], q_Content := trim_space (q_Content q)\<rparr>
                     in if \<not> ValidateLinkTarget L (q_Content q1)
                        then Inl (400, ''content must be an absolute http:// or https:// URL'')
                        else Inr q1)
                  else if q_ContentType q \<noteq> [] \<and> \<not> has_prefix (q_ContentType q) ''text/''
                          \<and> b64_decode (q_Content q) = None
                  then Inl (400, ''binary content must be base64-encoded'')
                  else
                    (let q2 = (if q_ContentType q = [] \<and> q_Content q \<noteq> [] then
                                 (let detected = lib_detect L (take 512 (q_Content q))
                                  in if \<not> has_prefix detected ''text/''
                                     then q\<lparr>q_ContentType := detected, q_Content := b64_encode (q_Content q)\<rparr>
                                     else q)
                               else q)
                     in Inr (if q_ContentType q2 = []
                             then q2\<lparr>q_Content := trim_right_char CHR 0x0A (q_Content q2)\<rparr> else q2)))
      in case step of
           Inl e \<Rightarrow> Inl e
         | Inr q3 \<Rightarrow> if trim_space (q_Content q3) = [] then Inl (400, ''content is required'') else Inr q3)"

definition visibility_of :: "string \<Rightarrow> int" where
  "visibility_of s = (if s = ''unlisted'' \<or> s = ''1'' then VisibilityUnlisted else VisibilityPublic)"

definition clamp_burn :: "int \<Rightarrow> int" where
  "clamp_burn b = (let b1 = (if b < 0 then 0 else b) in if b1 > 9999 then 9999 else b1)"

definition maxExpirySeconds :: int where "maxExpirySeconds = 10 * 365 * 24 * 60 * 60"

definition ParseExpiry :: "instant \<Rightarrow> string \<Rightarrow> instant option" where
  "ParseExpiry now s =
     (if s = ''1h'' then Some (now + Hour)
      else if s = ''1d'' then Some (now + 24 * Hour)
      else if s = ''1w'' then Some (now + 7 * 24 * Hour)
      else if s = ''1m'' then Some (now + 30 * 24 * Hour)
      else if s = ''3m'' then Some (now + 90 * 24 * Hour)
      else if s = ''6m'' then Some (now + 180 * 24 * Hour)
      else if s = ''18m'' then Some (now + 540 * 24 * Hour)
      else if s = ''1y'' then Some (now + 365 * 24 * Hour)
      else if s = ''2y'' then Some (now + 730 * 24 * Hour)
      else case ParseInt s of
             (sec, None) \<Rightarrow> if sec > 0 \<and> sec \<le> maxExpirySeconds
                            then Some (now + wrap64 (sec * Second)) else None
           | (_, Some _) \<Rightarrow> None)"

definition default_fields :: "create_request \<Rightarrow> create_request" where
  "default_fields q =
     (let q1 = (if q_Language q = [] \<and> \<not> q_IsLink q then q\<lparr>q_Language := ''text''\<rparr> else q)
      in if q_Title q1 = []
         then q1\<lparr>q_Title := (if q_IsLink q1 then q_Content q1 else ''Untitled'')\<rparr> else q1)"

text \<open>Up to ten draws; an identifier is taken when the lookup finds no row, and also when the
  lookup fails, because its error is discarded.\<close>

fun find_unique_id :: "env \<Rightarrow> db \<Rightarrow> nat \<Rightarrow> nat \<Rightarrow> (int \<times> string) + string" where
  "find_unique_id e d i 0 = Inl (500, ''could not generate unique ID'')"
| "find_unique_id e d i (Suc n) =
     (case generateID (e_idrand e i) of
        None \<Rightarrow> Inl (500, ''failed to generate ID'')
      | Some pid \<Rightarrow>
          (case GetPasteByID (e_fault e (CallGetID i)) pid d of
             Inr (Some _) \<Rightarrow> find_unique_id e d (Suc i) n
           | _ \<Rightarrow> if pid = [] then Inl (500, ''could not generate unique ID'') else Inr pid))"

text \<open>An offered token is reused when it is valid for pastes, otherwise a new one is made.\<close>

definition resolve_token :: "golib \<Rightarrow> env \<Rightarrow> http_request \<Rightarrow> db \<Rightarrow> (int \<times> string) + string \<times> bytes" where
  "resolve_token L e r d =
     (let incoming = extractToken L r; inHash = lib_sha256 L incoming
      in if incoming \<noteq> [] \<and>
            (case ValidateAPIToken (e_fault e CallValidate) (e_now e) inHash ''paste'' d of
               Inr _ \<Rightarrow> True | Inl _ \<Rightarrow> False)
         then Inr (incoming, inHash)
         else case generateOwnerToken L (e_tokrand e) of
                None \<Rightarrow> Inl (500, ''failed to generate token'')
              | Some th \<Rightarrow> Inr th)"

definition base :: "paste_handler \<Rightarrow> http_request \<Rightarrow> string" where
  "base h r =
     (case ph_baseURLFn h of
        Some f \<Rightarrow> trim_right_char CHR ''/'' (f r)
      | None \<Rightarrow>
          if ph_baseURL h \<noteq> [] then trim_right_char CHR ''/'' (ph_baseURL h)
          else (if rq_tls r then ''https'' else ''http'') @ ''://'' @ rq_host r)"

definition pasteURL :: "paste_handler \<Rightarrow> http_request \<Rightarrow> string \<Rightarrow> string" where
  "pasteURL h r pid = base h r @ ''/'' @ pid"

text \<open>Storing the paste, then the token; a failure to store the token is only logged.\<close>

definition persist_paste ::
  "paste_handler \<Rightarrow> env \<Rightarrow> http_request \<Rightarrow> paste \<Rightarrow> string \<Rightarrow> bytes \<Rightarrow> world
     \<Rightarrow> ((int \<times> string) + create_response) \<times> world" where
  "persist_paste h e r p plainToken tokenHash w =
     (case CreatePaste (e_fault e CallCreate) (e_now e) p (w_db w) of
        Inl _ \<Rightarrow> (Inl (500, ''failed to create paste''), w)
      | Inr (q, d1) \<Rightarrow>
          (let w1 = w\<lparr>w_db := d1, w_created := w_created w + 1\<rparr>;
               w2 = (case CreateAPIToken (e_fault e CallToken) (e_now e) (hex_encode tokenHash)
                            (take 12 plainToken) ''paste'' (p_ID q) (p_ExpiresAt q) d1 of
                       Inl _ \<Rightarrow> w1
                     | Inr d2 \<Rightarrow> refreshActiveTokenGauge e (w1\<lparr>w_db := d2\<rparr>))
           in (Inr \<lparr>cr_ID = p_ID q, cr_Title = p_Title q, cr_Language = p_Language q,
                 cr_Visibility = p_Visibility q, cr_IsLink = p_IsLink q, cr_BurnAfter = p_BurnAfter q,
                 cr_ExpiresAt = p_ExpiresAt q, cr_Views = 0, cr_CreatedAt = p_CreatedAt q,
                 cr_Link = pasteURL h r (p_ID q), cr_OwnerToken = plainToken\<rparr>, w2)))"

definition expiry_of :: "instant \<Rightarrow> string \<Rightarrow> instant option" where
  "expiry_of now s = (if s \<noteq> [] \<and> s \<noteq> ''never'' then ParseExpiry now s else None)"

definition build_paste :: "instant \<Rightarrow> string \<Rightarrow> create_request \<Rightarrow> paste" where
  "build_paste now pid q0 =
     (let q = default_fields q0
      in zero_paste\<lparr>p_ID := pid, p_Title := q_Title q, p_Content := q_Content q,
           p_ContentType := q_ContentType q, p_Language := q_Language q,
           p_Visibility := visibility_of (q_Visibility q), p_IsLink := q_IsLink q,
           p_ExpiresAt := expiry_of now (q_ExpiresIn q), p_BurnAfter := clamp_burn (q_BurnAfter q)\<rparr>)"

definition createFromRequest ::
  "golib \<Rightarrow> paste_handler \<Rightarrow> env \<Rightarrow> http_request \<Rightarrow> world
     \<Rightarrow> ((int \<times> string) + create_response) \<times> world" where
  "createFromRequest L h e r w =
     (case parse_create L h r of
        Inl er \<Rightarrow> (Inl er, w)
      | Inr (q0, r1) \<Rightarrow>
          (case normalize_content L q0 of
             Inl er \<Rightarrow> (Inl er, w)
           | Inr q \<Rightarrow>
               (case find_unique_id e (w_db w) 0 10 of
                  Inl er \<Rightarrow> (Inl er, w)
                | Inr pid \<Rightarrow>
                    (case resolve_token L e r1 (w_db w) of
                       Inl er \<Rightarrow> (Inl er, w)
                     | Inr (plainToken, tokenHash) \<Rightarrow>
                         persist_paste h e r1 (build_paste (e_now e) pid q) plainToken tokenHash w))))"

definition handle_CreatePaste ::
  "golib \<Rightarrow> paste_handler \<Rightarrow> env \<Rightarrow> http_request \<Rightarrow> world \<Rightarrow> reply \<times> world" where
  "handle_CreatePaste L h e r w =
     (case createFromRequest L h e r w of
        (Inl (status, msg), w') \<Rightarrow> (sendAPIError (httpErrCode status) msg, w')
      | (Inr resp, w') \<Rightarrow>
          (let ct = rq_header r ''Content-Type''; accept = rq_header r ''Accept'';
               isAPI = has_prefix (rq_path r) ''/api/''; isJSON = contains accept ''application/json''
           in if \<not> isAPI \<and> \<not> isJSON \<and> has_prefix ct ''application/x-www-form-urlencoded''
              then (http_Redirect r (''/'' @ cr_ID resp) 303, w')
              else if \<not> isAPI \<and> \<not> isJSON
              then (\<lparr>rp_status = 201, rp_header = [''Content-Type'' \<mapsto> ''text/plain; charset=utf-8''],
                     rp_body = Text (cr_Link resp @ [CHR 0x0A])\<rparr>, w')
              else (writeJSON 201 (JCreated resp), w')))"

subsection \<open>Reading\<close>

text \<open>The lookup shared by the read handlers: cache, then database (filling the cache), then
  expiry. \<^verbatim>\<open>loadLivePaste\<close> answers an unavailable paste itself.\<close>

definition loadLivePaste :: "env \<Rightarrow> string \<Rightarrow> world \<Rightarrow> (reply + paste) \<times> world" where
  "loadLivePaste e pid w =
     (let (cached, w1) = getCachedPaste (e_now e) pid w;
          loaded = (case cached of
             Some p \<Rightarrow> (Inr p, w1)
           | None \<Rightarrow>
               (case GetPasteByID (e_fault e CallGet) pid (w_db w1) of
                  Inl _ \<Rightarrow> (Inl (sendAPIError ''SERVER_ERROR'' ''internal server error''), w1)
                | Inr None \<Rightarrow> (Inl (sendAPIError ''NOT_FOUND'' ''paste not found''), w1)
                | Inr (Some p) \<Rightarrow> (Inr p, cachePaste (e_now e) p w1)))
      in case loaded of
           (Inl rp, w2) \<Rightarrow> (Inl rp, w2)
         | (Inr p, w2) \<Rightarrow>
             if expired_before (e_now e) p then
               (let d' = (case DeletePaste (e_fault e CallDelete) pid (w_db w2) of Inl _ \<Rightarrow> w_db w2 | Inr d' \<Rightarrow> d')
                in (Inl (sendAPIError ''GONE'' ''paste has expired''), invalidatePasteCache pid (w2\<lparr>w_db := d'\<rparr>)))
             else (Inr p, w2))"

text \<open>Counting the reading. The paste handed out shows the new count; when the database refuses
  (also when the paste is already gone) the count is only bumped on the copy.\<close>

definition count_view :: "env \<Rightarrow> string \<Rightarrow> paste \<Rightarrow> world \<Rightarrow> paste \<times> world" where
  "count_view e pid p w =
     (case IncrementViewsAndCheckBurn (e_fault e CallView) (e_now e) pid (w_db w) of
        Inl _ \<Rightarrow> (p\<lparr>p_Views := p_Views p + 1\<rparr>, w\<lparr>w_viewed := w_viewed w + 1\<rparr>)
      | Inr (views, burned, d') \<Rightarrow>
          (p\<lparr>p_Views := views\<rparr>,
           (let w1 = w\<lparr>w_db := d', w_viewed := w_viewed w + 1\<rparr>
            in if burned then (invalidatePasteCache pid w1)\<lparr>w_deleted := w_deleted w + 1\<rparr> else w1)))"

definition paste_as_text :: "golib \<Rightarrow> paste \<Rightarrow> string" where
  "paste_as_text L p =
     ''id: '' @ p_ID p @ [CHR 0x0A] @ ''title: '' @ p_Title p @ [CHR 0x0A] @
     ''language: '' @ p_Language p @ [CHR 0x0A] @ ''views: '' @ show_int (p_Views p) @ [CHR 0x0A] @
     ''created: '' @ lib_rfc3339 L (p_CreatedAt p) @ [CHR 0x0A] @
     (case p_ExpiresAt p of None \<Rightarrow> [] | Some t \<Rightarrow> ''expires: '' @ lib_rfc3339 L t @ [CHR 0x0A]) @
     [CHR 0x0A] @ p_Content p @ [CHR 0x0A]"

definition GetPaste :: "golib \<Rightarrow> env \<Rightarrow> http_request \<Rightarrow> string \<Rightarrow> world \<Rightarrow> reply \<times> world" where
  "GetPaste L e r pid w =
     (case loadLivePaste e pid w of
        (Inl rp, w1) \<Rightarrow> (rp, w1)
      | (Inr p0, w1) \<Rightarrow>
          (let (p1, w2) = count_view e pid p0 w1; p = p1\<lparr>p_DeleteTokenHash := []\<rparr>
           in if p_IsLink p
              then (http_Redirect r (p_Content p) 302, w2)
              else if GetAPIResponseFormat r = ''text''
              then (\<lparr>rp_status = 200, rp_header = [''Content-Type'' \<mapsto> ''text/plain; charset=utf-8''],
                     rp_body = Text (paste_as_text L p)\<rparr>, w2)
              else (writeJSON 200 (JPaste p), w2)))"

definition activeContentTypes :: "string list" where
  "activeContentTypes = [''text/html'', ''application/xhtml+xml'', ''image/svg+xml'', ''text/xml'',
     ''application/xml'', ''application/javascript'', ''text/javascript'']"

definition raw_body :: "paste \<Rightarrow> bytes" where
  "raw_body p =
     (if p_ContentType p \<noteq> [] \<and> \<not> has_prefix (p_ContentType p) ''text/''
      then (case b64_decode (p_Content p) of Some decoded \<Rightarrow> decoded | None \<Rightarrow> p_Content p)
      else p_Content p)"

text \<open>The headers and body of a raw download: an unparseable media type fails closed as an
  octet-stream attachment, an active one is forced to download.\<close>

definition raw_reply :: "golib \<Rightarrow> paste \<Rightarrow> reply" where
  "raw_reply L p =
     (let body = raw_body p;
          detected = (if p_ContentType p = [] then lib_detect L (take 512 body) else p_ContentType p);
          (baseType, served, disp) =
            (case lib_parse_media L detected of
               None \<Rightarrow> ([], ''application/octet-stream'', [''Content-Disposition'' \<mapsto> ''attachment''])
             | Some (bt, params) \<Rightarrow>
                 (let f = lib_format_media L bt params in (bt, if f = [] then bt else f, Map.empty)));
          disp' = (if baseType \<in> set activeContentTypes
                   then disp(''Content-Disposition'' \<mapsto> ''attachment'') else disp)
      in \<lparr>rp_status = 200,
          rp_header = disp'(''Content-Type'' \<mapsto> served, ''X-Content-Type-Options'' \<mapsto> ''nosniff''),
          rp_body = Raw body\<rparr>)"

definition GetRawPaste :: "golib \<Rightarrow> env \<Rightarrow> string \<Rightarrow> world \<Rightarrow> reply \<times> world" where
  "GetRawPaste L e pid w =
     (case loadLivePaste e pid w of
        (Inl rp, w1) \<Rightarrow> (rp, w1)
      | (Inr p, w1) \<Rightarrow> (raw_reply L p, snd (count_view e pid p w1)))"

definition list_page :: "http_request \<Rightarrow> int \<times> int" where
  "list_page r =
     (let page = fst (Atoi (query_get r ''page'')); limit = fst (Atoi (query_get r ''limit''));
          limit1 = (if limit < 1 then 250 else limit)
      in (if page < 1 then 1 else page, if limit1 > 250 then 250 else limit1))"

definition list_as_text :: "int \<Rightarrow> int \<Rightarrow> paste_list_item list \<Rightarrow> string" where
  "list_as_text tot page items =
     ''# pastes: '' @ show_int tot @ '' (page '' @ show_int page @ '')'' @ [CHR 0x0A] @
     concat (map (\<lambda>p. li_ID p @ [CHR 0x09] @ li_Language p @ [CHR 0x09] @ li_Title p @ [CHR 0x0A]) items)"

definition ListPastes :: "env \<Rightarrow> http_request \<Rightarrow> world \<Rightarrow> reply \<times> world" where
  "ListPastes e r w =
     (let (page, limit) = list_page r
      in case GetPublicPastes (e_fault e CallPublic) (e_now e) page limit (w_db w) of
           Inl _ \<Rightarrow> (sendAPIError ''SERVER_ERROR'' ''failed to fetch pastes'', w)
         | Inr (items, tot) \<Rightarrow>
             if GetAPIResponseFormat r = ''text''
             then (\<lparr>rp_status = 200, rp_header = [''Content-Type'' \<mapsto> ''text/plain; charset=utf-8''],
                    rp_body = Text (list_as_text tot page items)\<rparr>, w)
             else (writeJSON 200 (JPage items page limit tot ((tot + limit - 1) div limit)), w))"

text \<open>\<^verbatim>\<open>GetPasteForWeb\<close>: the same lookup for the HTML pages, with errors instead of replies.\<close>

definition GetPasteForWeb :: "env \<Rightarrow> string \<Rightarrow> world \<Rightarrow> (db_error + paste option) \<times> world" where
  "GetPasteForWeb e pid w =
     (let (cached, w1) = getCachedPaste (e_now e) pid w;
          loaded = (case cached of
             Some p \<Rightarrow> (Inr (Some p), w1)
           | None \<Rightarrow>
               (case GetPasteByID (e_fault e CallGet) pid (w_db w1) of
                  Inl er \<Rightarrow> (Inl er, w1)
                | Inr None \<Rightarrow> (Inr None, w1)
                | Inr (Some p) \<Rightarrow> (Inr (Some p), cachePaste (e_now e) p w1)))
      in case loaded of
           (Inl er, w2) \<Rightarrow> (Inl er, w2)
         | (Inr None, w2) \<Rightarrow> (Inr None, w2)
         | (Inr (Some p), w2) \<Rightarrow>
             if expired_before (e_now e) p then
               (let d' = (case DeletePaste (e_fault e CallDelete) pid (w_db w2) of Inl _ \<Rightarrow> w_db w2 | Inr d' \<Rightarrow> d')
                in (Inr None, invalidatePasteCache pid (w2\<lparr>w_db := d'\<rparr>)))
             else
               (let (p1, w3) = count_view e pid p w2
                in (Inr (Some (p1\<lparr>p_DeleteTokenHash := []\<rparr>)), w3)))"

subsection \<open>Deletion\<close>

definition deleted_reply :: reply where
  "deleted_reply = writeJSON 200 (JMessage ''paste deleted'')"

definition handle_DeletePaste ::
  "golib \<Rightarrow> paste_handler \<Rightarrow> env \<Rightarrow> http_request \<Rightarrow> string \<Rightarrow> world \<Rightarrow> reply \<times> world" where
  "handle_DeletePaste L h e r pid w =
     (let token = extractToken L r
      in if token = []
         then (sendAPIError ''UNAUTHORIZED'' ''owner token required (Authorization: Bearer tok_...)'', w)
         else
           (let incomingHash = lib_sha256 L token
            in if ph_operatorTokenHash h \<noteq> zero_hash \<and> incomingHash = ph_operatorTokenHash h
               then (case DeletePaste (e_fault e CallDelete) pid (w_db w) of
                       Inl _ \<Rightarrow> (sendAPIError ''NOT_FOUND'' ''paste not found'', w)
                     | Inr d' \<Rightarrow>
                         (deleted_reply,
                          (invalidatePasteCache pid (w\<lparr>w_db := d'\<rparr>))\<lparr>w_deleted := w_deleted w + 1\<rparr>))
               else
                 (case VerifyAPIToken (e_fault e CallVerify) (e_fault e CallTouch) (e_now e) incomingHash
                         ''paste'' pid (w_db w) of
                    Inl _ \<Rightarrow> (sendAPIError ''NOT_FOUND'' ''paste not found or invalid token'', w)
                  | Inr d1 \<Rightarrow>
                      (case DeletePaste (e_fault e CallDelete) pid d1 of
                         Inl _ \<Rightarrow> (sendAPIError ''NOT_FOUND'' ''paste not found'', w\<lparr>w_db := d1\<rparr>)
                       | Inr d2 \<Rightarrow>
                           (deleted_reply,
                            refreshActiveTokenGauge e
                              ((invalidatePasteCache pid (w\<lparr>w_db := d2\<rparr>))\<lparr>w_deleted := w_deleted w + 1\<rparr>))))))"

end
