(* ===== verification/Handler_Creation.thy ===== *)
theory Handler_Creation
  imports Paste_Handler
begin

section \<open>Creating a paste\<close>

text \<open>
  What \<^verbatim>\<open>createFromRequest\<close> of \<^verbatim>\<open>src/src/handler/paste.go\<close> guarantees: the stored row is well
  formed whatever the request holds, nothing else in the store changes, failures leave the
  world alone, sizes and expiries are bounded, and uploads come back as the bytes sent.
\<close>

subsection \<open>Identifiers\<close>

lemma idCharset_length [simp]: "length idCharset = 62"
  by (simp add: idCharset_def)

lemma generateID_chars:
  "generateID draw = Some pid \<Longrightarrow> set pid \<subseteq> set idCharset \<and> (\<forall>raw. draw = Some raw \<longrightarrow> length pid = length raw)"
  by (auto simp: generateID_def)

lemma find_unique_id_Inr:
  "find_unique_id e d i n = Inr pid \<Longrightarrow>
   pid \<noteq> [] \<and> (\<exists>j. i \<le> j \<and> j < i + n \<and> generateID (e_idrand e j) = Some pid)"
proof (induction e d i n rule: find_unique_id.induct)
  case (2 e d i n)
  then show ?case
    by (auto split: option.splits sum.splits if_splits) (metis Suc_leD add_Suc_right add_Suc)+
qed simp

lemma find_unique_id_Inl: "find_unique_id e d i n = Inl er \<Longrightarrow> fst er = 500"
  by (induction e d i n rule: find_unique_id.induct) (auto split: option.splits sum.splits if_splits)

subsection \<open>Normal form of the request\<close>

lemma normalize_content_Inr:
  "normalize_content L q0 = Inr q \<Longrightarrow> trim_space (q_Content q) \<noteq> [] \<and> q_Content q \<noteq> []"
  by (auto simp: normalize_content_def Let_def split: sum.splits if_splits)

lemma normalize_content_Inl: "normalize_content L q0 = Inl er \<Longrightarrow> fst er = 400"
  by (auto simp: normalize_content_def Let_def split: sum.splits if_splits)

lemma parse_multipart_Inl: "parse_multipart_request L limit r mp = Inl er \<Longrightarrow> fst er = 413"
  by (auto simp: parse_multipart_request_def too_large_def Let_def split: option.splits prod.splits if_splits)

lemma parse_create_Inl: "parse_create L h r = Inl er \<Longrightarrow> fst er = 400 \<or> fst er = 413"
  by (auto simp: parse_create_def too_large_def Let_def dest!: parse_multipart_Inl
      split: option.splits prod.splits if_splits sum.splits)

lemma resolve_token_Inl: "resolve_token L e r d = Inl er \<Longrightarrow> fst er = 500"
  by (auto simp: resolve_token_def Let_def split: option.splits if_splits)

lemma resolve_token_hash: "resolve_token L e r d = Inr (tok, hash) \<Longrightarrow> hash = lib_sha256 L tok"
  by (auto simp: resolve_token_def generateOwnerToken_def Let_def split: option.splits if_splits)

subsection \<open>The inversion of a creation\<close>

lemma createFromRequest_Inr:
  assumes "createFromRequest L h e r w = (Inr resp, w')"
  obtains q0 r1 q pid tok where
    "parse_create L h r = Inr (q0, r1)" "normalize_content L q0 = Inr q"
    "find_unique_id e (w_db w) 0 10 = Inr pid" "resolve_token L e r1 (w_db w) = Inr (tok, lib_sha256 L tok)"
    "persist_paste h e r1 (build_paste (e_now e) pid q) tok (lib_sha256 L tok) w = (Inr resp, w')"
proof -
  from assms obtain q0 r1 where 1: "parse_create L h r = Inr (q0, r1)"
    by (cases "parse_create L h r") (auto simp: createFromRequest_def)
  with assms obtain q where 2: "normalize_content L q0 = Inr q"
    by (cases "normalize_content L q0") (auto simp: createFromRequest_def)
  from assms 1 2 obtain pid where 3: "find_unique_id e (w_db w) 0 10 = Inr pid"
    by (cases "find_unique_id e (w_db w) 0 10") (auto simp: createFromRequest_def)
  from assms 1 2 3 obtain tok hash where 4: "resolve_token L e r1 (w_db w) = Inr (tok, hash)"
    by (cases "resolve_token L e r1 (w_db w)") (auto simp: createFromRequest_def)
  from assms 1 2 3 4 resolve_token_hash[OF 4] show ?thesis
    by (intro that[OF 1 2 3, of tok]) (simp_all add: createFromRequest_def)
qed

lemma createFromRequest_Inl:
  assumes "createFromRequest L h e r w = (Inl er, w')"
  shows "w' = w \<and> fst er \<in> {400, 413, 500}"
  using assms
  by (auto simp: createFromRequest_def persist_paste_def Let_def
      dest!: parse_create_Inl normalize_content_Inl find_unique_id_Inl resolve_token_Inl
      split: sum.splits prod.splits)

lemma refresh_gauge_simps [simp]:
  "w_db (refreshActiveTokenGauge e w) = w_db w" "w_cache (refreshActiveTokenGauge e w) = w_cache w"
  "w_created (refreshActiveTokenGauge e w) = w_created w" "w_viewed (refreshActiveTokenGauge e w) = w_viewed w"
  "w_deleted (refreshActiveTokenGauge e w) = w_deleted w"
  by (simp_all add: refreshActiveTokenGauge_def split: sum.splits)

lemma CreateAPIToken_pastes: "CreateAPIToken f t k pre rt ri ex d = Inr d' \<Longrightarrow> pastes d' = pastes d"
  by (auto simp: CreateAPIToken_def split: if_splits)

lemma paste_map_cong: "pastes d' = pastes d \<Longrightarrow> paste_map d' = paste_map d"
  by (simp add: paste_map_def)

definition created_db :: "env \<Rightarrow> paste \<Rightarrow> string \<Rightarrow> bytes \<Rightarrow> db \<Rightarrow> db" where
  "created_db e q tok hash d1 =
     (case CreateAPIToken (e_fault e CallToken) (e_now e) (hex_encode hash) (take 12 tok) ''paste''
             (p_ID q) (p_ExpiresAt q) d1 of
        Inl _ \<Rightarrow> d1 | Inr d2 \<Rightarrow> d2)"

lemma created_db_pastes [simp]: "pastes (created_db e q tok hash d1) = pastes d1"
  by (auto simp: created_db_def dest: CreateAPIToken_pastes split: sum.splits)

lemma created_db_schema: "schema_ok d1 \<Longrightarrow> schema_ok (created_db e q tok hash d1)"
  by (auto simp: created_db_def intro: CreateAPIToken_schema split: sum.splits)

lemma normalized_simps [simp]:
  "p_ID (normalized now p) = p_ID p" "p_Content (normalized now p) = p_Content p"
  "p_ContentType (normalized now p) = p_ContentType p" "p_Visibility (normalized now p) = p_Visibility p"
  "p_IsLink (normalized now p) = p_IsLink p" "p_ExpiresAt (normalized now p) = p_ExpiresAt p"
  "p_BurnAfter (normalized now p) = p_BurnAfter p" "p_Views (normalized now p) = p_Views p"
  "p_CreatedAt (normalized now p) = now" "p_UpdatedAt (normalized now p) = now"
  "p_DeleteTokenHash (normalized now p) = p_DeleteTokenHash p"
  by (simp_all add: normalized_def)

lemma persist_paste_Inr:
  assumes "persist_paste h e r p tok hash w = (Inr resp, w')"
  defines "q \<equiv> normalized (e_now e) p"
  shows "paste_map (w_db w) (p_ID p) = None"
    and "w_db w' = created_db e q tok hash ((w_db w)\<lparr>pastes := pastes (w_db w) @ [q]\<rparr>)"
    and "paste_map (w_db w') = (paste_map (w_db w))(p_ID p \<mapsto> q)"
    and "w_cache w' = w_cache w" and "w_created w' = w_created w + 1"
    and "resp = \<lparr>cr_ID = p_ID q, cr_Title = p_Title q, cr_Language = p_Language q,
        cr_Visibility = p_Visibility q, cr_IsLink = p_IsLink q, cr_BurnAfter = p_BurnAfter q,
        cr_ExpiresAt = p_ExpiresAt q, cr_Views = 0, cr_CreatedAt = p_CreatedAt q,
        cr_Link = pasteURL h r (p_ID q), cr_OwnerToken = tok\<rparr>"
proof -
  from assms(1) have none: "paste_map (w_db w) (p_ID p) = None"
    by (auto simp: persist_paste_def CreatePaste_eq Let_def split: if_splits)
  let ?d1 = "(w_db w)\<lparr>pastes := pastes (w_db w) @ [q]\<rparr>"
  from assms(1) none show db: "w_db w' = created_db e q tok hash ?d1" and "w_cache w' = w_cache w"
    and "w_created w' = w_created w + 1"
    by (auto simp: persist_paste_def CreatePaste_eq created_db_def q_def Let_def split: if_splits sum.splits)
  show "paste_map (w_db w) (p_ID p) = None" by (rule none)
  have "paste_map (w_db w') = paste_map ?d1" by (rule paste_map_cong) (simp add: db)
  also have "\<dots> = (paste_map (w_db w))(p_ID p \<mapsto> q)"
    using paste_map_insert[of "w_db w" q] none by (simp add: q_def)
  finally show "paste_map (w_db w') = (paste_map (w_db w))(p_ID p \<mapsto> q)" .
  show "resp = \<lparr>cr_ID = p_ID q, cr_Title = p_Title q, cr_Language = p_Language q,
        cr_Visibility = p_Visibility q, cr_IsLink = p_IsLink q, cr_BurnAfter = p_BurnAfter q,
        cr_ExpiresAt = p_ExpiresAt q, cr_Views = 0, cr_CreatedAt = p_CreatedAt q,
        cr_Link = pasteURL h r (p_ID q), cr_OwnerToken = tok\<rparr>"
    using assms(1) by (auto simp: persist_paste_def CreatePaste_eq q_def Let_def split: if_splits)
qed

lemma create_succeeds:
  assumes "parse_create L h r = Inr (q0, r1)" and "normalize_content L q0 = Inr q"
    and "find_unique_id e (w_db w) 0 10 = Inr pid" and "resolve_token L e r1 (w_db w) = Inr (tok, hash)"
    and "\<not> e_fault e CallCreate" and "paste_map (w_db w) pid = None" and "p_ID (build_paste (e_now e) pid q) = pid"
    and "p_ExpiresAt (build_paste (e_now e) pid q) = expiry_of (e_now e) (q_ExpiresIn q)"
  obtains resp w' where "createFromRequest L h e r w = (Inr resp, w')" "cr_ID resp = pid" "cr_OwnerToken resp = tok"
    "cr_ExpiresAt resp = expiry_of (e_now e) (q_ExpiresIn q)"
    "paste_map (w_db w') = (paste_map (w_db w))(pid \<mapsto> normalized (e_now e) (build_paste (e_now e) pid q))"
proof -
  let ?p = "build_paste (e_now e) pid q"
  obtain resp w' where per: "persist_paste h e r1 ?p tok hash w = (Inr resp, w')"
    using assms(5-7) by (simp add: persist_paste_def CreatePaste_eq Let_def)
  with assms(1-4) have "createFromRequest L h e r w = (Inr resp, w')" by (simp add: createFromRequest_def)
  with persist_paste_Inr[OF per] assms(7,8) show ?thesis by (intro that[of resp w']) simp_all
qed

subsection \<open>Field bounds\<close>

lemma build_paste_simps [simp]:
  "p_ID (build_paste now pid q) = pid" "p_Content (build_paste now pid q) = q_Content q"
  "p_ContentType (build_paste now pid q) = q_ContentType q" "p_IsLink (build_paste now pid q) = q_IsLink q"
  "p_Visibility (build_paste now pid q) = visibility_of (q_Visibility q)"
  "p_BurnAfter (build_paste now pid q) = clamp_burn (q_BurnAfter q)"
  "p_ExpiresAt (build_paste now pid q) = expiry_of now (q_ExpiresIn q)" "p_Views (build_paste now pid q) = 0"
  by (simp_all add: build_paste_def default_fields_def zero_paste_def Let_def)

lemma clamp_burn_bounds: "0 \<le> clamp_burn b \<and> clamp_burn b \<le> 9999"
  by (simp add: clamp_burn_def Let_def)

lemma clamp_burn_id: "0 \<le> b \<Longrightarrow> b \<le> 9999 \<Longrightarrow> clamp_burn b = b"
  by (simp add: clamp_burn_def)

lemma visibility_range: "visibility_of s \<in> {VisibilityPublic, VisibilityUnlisted}"
  by (simp add: visibility_of_def)

lemma expiry_seconds_fit: "0 < sec \<Longrightarrow> sec \<le> maxExpirySeconds \<Longrightarrow> wrap64 (sec * Second) = sec * Second"
  by (rule wrap64_id) (simp add: maxExpirySeconds_def Second_def min_int64_def max_int64_def)

lemma ParseExpiry_range:
  "ParseExpiry now s = Some t \<Longrightarrow> now < t \<and> t \<le> now + maxExpirySeconds * Second"
  by (auto simp: ParseExpiry_def expiry_seconds_fit split: if_splits prod.splits option.splits)
     (simp_all add: Hour_def Second_def maxExpirySeconds_def)

lemma expiry_of_range: "expiry_of now s = Some t \<Longrightarrow> now < t \<and> t \<le> now + maxExpirySeconds * Second"
  by (auto simp: expiry_of_def dest: ParseExpiry_range split: if_splits)

definition stored_ok :: "instant \<Rightarrow> paste \<Rightarrow> bool" where
  "stored_ok now p \<longleftrightarrow>
     p_ID p \<noteq> [] \<and> set (p_ID p) \<subseteq> set idCharset \<and> p_Title p \<noteq> [] \<and> trim_space (p_Content p) \<noteq> [] \<and>
     (p_Language p \<noteq> [] \<or> p_IsLink p) \<and> p_Visibility p \<in> {VisibilityPublic, VisibilityUnlisted} \<and>
     0 \<le> p_BurnAfter p \<and> p_BurnAfter p \<le> 9999 \<and> p_Views p = 0 \<and> p_CreatedAt p = now \<and> p_UpdatedAt p = now \<and>
     (case p_ExpiresAt p of None \<Rightarrow> True | Some t \<Rightarrow> now < t \<and> t \<le> now + maxExpirySeconds * Second)"

lemma stored_ok_build:
  assumes "normalize_content L q0 = Inr q" and "find_unique_id e d 0 10 = Inr pid"
  shows "stored_ok now (normalized now (build_paste now pid q))"
proof -
  from find_unique_id_Inr[OF assms(2)] generateID_chars
  have "pid \<noteq> []" and "set pid \<subseteq> set idCharset" by blast+
  moreover have "p_Title (normalized now p) \<noteq> []" for p by (simp add: normalized_def)
  moreover have "p_Language (normalized now (build_paste now pid q)) = [] \<longrightarrow> q_IsLink q"
    by (auto simp: normalized_def)
  moreover note normalize_content_Inr[OF assms(1)] clamp_burn_bounds visibility_range
  moreover have "case expiry_of now (q_ExpiresIn q) of None \<Rightarrow> True
      | Some t \<Rightarrow> now < t \<and> t \<le> now + maxExpirySeconds * Second"
    using expiry_of_range by (auto split: option.splits)
  ultimately show ?thesis by (simp add: stored_ok_def)
qed

lemma created_row:
  assumes "schema_ok (w_db w)" and "createFromRequest L h e r w = (Inr resp, w')"
  obtains p where "paste_map (w_db w) (cr_ID resp) = None" "p_ID p = cr_ID resp"
    "paste_map (w_db w') = (paste_map (w_db w))(cr_ID resp \<mapsto> p)"
    "stored_ok (e_now e) p" "schema_ok (w_db w')" "w_created w' = w_created w + 1" "w_cache w' = w_cache w"
    "cr_Title resp = p_Title p" "cr_Language resp = p_Language p" "cr_Visibility resp = p_Visibility p"
    "cr_IsLink resp = p_IsLink p" "cr_BurnAfter resp = p_BurnAfter p" "cr_ExpiresAt resp = p_ExpiresAt p"
    "has_suffix (cr_Link resp) (''/'' @ p_ID p)" "\<exists>i. generateID (e_idrand e i) = Some (cr_ID resp)"
proof -
  from assms(2) obtain q0 r1 q pid tok where
    q: "normalize_content L q0 = Inr q" and pid: "find_unique_id e (w_db w) 0 10 = Inr pid" and
    per: "persist_paste h e r1 (build_paste (e_now e) pid q) tok (lib_sha256 L tok) w = (Inr resp, w')"
    by (rule createFromRequest_Inr)
  let ?p = "normalized (e_now e) (build_paste (e_now e) pid q)"
  note persist = persist_paste_Inr[OF per]
  have "schema_ok ((w_db w)\<lparr>pastes := pastes (w_db w) @ [?p]\<rparr>)"
    using assms(1) persist(1) by (intro schema_ok_insert_paste) simp_all
  then have "schema_ok (w_db w')" unfolding persist(2) by (rule created_db_schema)
  then show ?thesis
    using persist stored_ok_build[OF q pid] find_unique_id_Inr[OF pid]
    by (intro that[of ?p]) (auto simp: has_suffix_def pasteURL_def)
qed

subsection \<open>Properties\<close>

text \<open>C5: Creation either fails cleanly or stores one well-formed paste. A failure reports 400, 413
  or 500 and changes nothing. A success adds exactly one row under an identifier that was
  free, made of the identifier alphabet, with a non-empty title, non-blank content, a
  visibility of 0 or 1, a burn limit between 0 and 9999, no views, and an expiry that is
  absent or within ten years; every other paste is untouched, the schema's constraints hold
  and the response repeats the stored fields.\<close>

theorem creation_outcome:
  assumes "schema_ok (w_db w)"
  shows "case createFromRequest L h e r w of
      (Inl er, w') \<Rightarrow> w' = w \<and> fst er \<in> {400, 413, 500}
    | (Inr resp, w') \<Rightarrow>
        \<exists>p. paste_map (w_db w) (cr_ID resp) = None \<and>
            paste_map (w_db w') = (paste_map (w_db w))(cr_ID resp \<mapsto> p) \<and>
            stored_ok (e_now e) p \<and> schema_ok (w_db w') \<and> w_created w' = w_created w + 1 \<and>
            cr_Title resp = p_Title p \<and> cr_Language resp = p_Language p \<and> cr_Visibility resp = p_Visibility p \<and>
            cr_IsLink resp = p_IsLink p \<and> cr_BurnAfter resp = p_BurnAfter p \<and> cr_ExpiresAt resp = p_ExpiresAt p \<and>
            has_suffix (cr_Link resp) (''/'' @ p_ID p)"
proof (cases "createFromRequest L h e r w")
  case (Pair res w')
  show ?thesis
  proof (cases res)
    case (Inl er)
    with createFromRequest_Inl[of L h e r w er w'] Pair show ?thesis by simp
  next
    case (Inr resp)
    with Pair have cr: "createFromRequest L h e r w = (Inr resp, w')" by simp
    show ?thesis unfolding cr
      by (rule created_row[OF assms cr], unfold case_prod_conv sum.case, intro exI conjI) assumption+
  qed
qed

subsubsection \<open>A concrete deployment\<close>

text \<open>The witnesses run the handlers over these library functions and this request.\<close>

definition demo_lib :: golib where
  "demo_lib = \<lparr>lib_sha256 = (\<lambda>b. b),
     lib_detect = (\<lambda>b. if has_prefix b ''GIF89a'' then ''image/gif'' else ''text/plain; charset=utf-8''),
     lib_url = (\<lambda>u. if has_prefix u ''http://'' then Some (''http'', drop 7 u) else None),
     lib_json_create = (\<lambda>_. Some (zero_create_request\<lparr>q_Content := ''hello'', q_BurnAfter := 1\<rparr>)), lib_json_token = (\<lambda>_. []), lib_form = (\<lambda>_. (Map.empty, True)),
     lib_multipart = (\<lambda>_ _. None), lib_parse_media = (\<lambda>s. Some (takeWhile (\<lambda>c. c \<noteq> CHR '';'') s, [])),
     lib_format_media = (\<lambda>t _. t), lib_rfc3339 = (\<lambda>t. show_int t),
     lib_quote = (\<lambda>s. [CHR 0x22] @ s @ [CHR 0x22])\<rparr>"

definition demo_handler :: paste_handler where
  "demo_handler = \<lparr>ph_baseURL = ''http://p'', ph_baseURLFn = None, ph_operatorTokenHash = zero_hash,
     ph_maxSizeBytes = 0, ph_maxSizeSet = False\<rparr>"

definition demo_request :: "(string \<times> string) list \<Rightarrow> bytes \<Rightarrow> http_request" where
  "demo_request hs body = \<lparr>rq_method = ''POST'', rq_path = ''/api/v1/pastes'', rq_txt = False, rq_tls = False,
     rq_host = ''p'', rq_header = (\<lambda>k. opt_str (map_of hs k)), rq_query = Map.empty, rq_body = body,
     rq_maxbytes = None, rq_form = None\<rparr>"

definition demo_env :: "instant \<Rightarrow> string \<Rightarrow> string \<Rightarrow> env" where
  "demo_env now idr tokr = \<lparr>e_now = now, e_idrand = (\<lambda>_. Some idr), e_tokrand = Some tokr,
     e_fault = (\<lambda>_. False)\<rparr>"

definition demo_world :: world where
  "demo_world = \<lparr>w_db = empty_db, w_cache = Some (MemoryCache (newMemoryCache ''pastebin:'' Hour)),
     w_created = 0, w_viewed = 0, w_deleted = 0, w_tokens_active = 0\<rparr>"

lemmas demo_defs = demo_lib_def demo_handler_def demo_request_def demo_env_def demo_world_def

lemma demo_parse:
  "parse_create demo_lib demo_handler (demo_request [(''X-Expires-In'', ''60'')] ''hello'') =
     Inr (zero_create_request\<lparr>q_Content := ''hello'', q_ExpiresIn := ''60''\<rparr>,
          demo_request [(''X-Expires-In'', ''60'')] [])"
  by (simp add: parse_create_def readLimited_def effectiveReadLimit_def maxSize_def defaultMaxSizeBytes_def
      demo_defs body_bytes_def opt_str_def has_prefix_def wrap64_def zero_create_request_def)

lemma demo_trim: "trim_space ''hello'' = ''hello''"
  by (rule trim_space_id) (simp_all add: space_eval)

lemma demo_normal:
  "normalize_content demo_lib (zero_create_request\<lparr>q_Content := ''hello'', q_ExpiresIn := ''60''\<rparr>) =
     Inr (zero_create_request\<lparr>q_Content := ''hello'', q_ExpiresIn := ''60''\<rparr>)"
  by (simp add: normalize_content_def isSingleURLContent_def contains_any_def has_prefix_def demo_trim
      demo_lib_def zero_create_request_def trim_right_char_def)

lemma demo_rest:
  "find_unique_id (demo_env 7 ''12345678'' ''abc'') empty_db 0 10 = Inr ''XYZ01234''"
  "resolve_token demo_lib (demo_env 7 ''12345678'' ''abc'') (demo_request [(''X-Expires-In'', ''60'')] []) empty_db
     = Inr (''tok_JKL'', ''tok_JKL'')"
  using find_unique_id.simps(2)[of "demo_env 7 ''12345678'' ''abc''" empty_db 0 9]
  by (simp_all add: generateID_def GetPasteByID_def row_by_def empty_db_def resolve_token_def extractToken_def
      demo_defs opt_str_def has_prefix_def query_get_def generateOwnerToken_def idCharset_def Let_def)

abbreviation demo_q :: create_request where
  "demo_q \<equiv> zero_create_request\<lparr>q_Content := ''hello'', q_ExpiresIn := ''60''\<rparr>"

definition demo_create :: "(int \<times> string) + create_response" where
  "demo_create = fst (createFromRequest demo_lib demo_handler (demo_env 7 ''12345678'' ''abc'')
     (demo_request [(''X-Expires-In'', ''60'')] ''hello'') demo_world)"

definition demo_world1 :: world where
  "demo_world1 = snd (createFromRequest demo_lib demo_handler (demo_env 7 ''12345678'' ''abc'')
     (demo_request [(''X-Expires-In'', ''60'')] ''hello'') demo_world)"

lemma demo_env_sel [simp]:
  "e_now (demo_env t a b) = t" "e_fault (demo_env t a b) = (\<lambda>_. False)" "e_idrand (demo_env t a b) = (\<lambda>_. Some a)"
  by (simp_all add: demo_env_def)

lemma demo_world_db [simp]: "w_db demo_world = empty_db"
  by (simp add: demo_world_def)

lemma empty_paste_map [simp]: "paste_map empty_db = Map.empty"
  by (simp add: paste_map_def empty_db_def row_by_def fun_eq_iff)

lemma demo_created:
  "\<exists>resp. createFromRequest demo_lib demo_handler (demo_env 7 ''12345678'' ''abc'')
      (demo_request [(''X-Expires-In'', ''60'')] ''hello'') demo_world = (Inr resp, demo_world1) \<and>
    cr_ID resp = ''XYZ01234'' \<and> cr_OwnerToken resp = ''tok_JKL'' \<and>
    cr_ExpiresAt resp = Some 60000000007 \<and>
    paste_map (w_db demo_world1) = [''XYZ01234'' \<mapsto> normalized 7 (build_paste 7 ''XYZ01234'' demo_q)]"
proof -
  obtain resp w' where "createFromRequest demo_lib demo_handler (demo_env 7 ''12345678'' ''abc'')
      (demo_request [(''X-Expires-In'', ''60'')] ''hello'') demo_world = (Inr resp, w')"
    "cr_ID resp = ''XYZ01234''" "cr_OwnerToken resp = ''tok_JKL''" "cr_ExpiresAt resp = expiry_of 7 ''60''"
    "paste_map (w_db w') = [''XYZ01234'' \<mapsto> normalized 7 (build_paste 7 ''XYZ01234'' demo_q)]"
    by (rule create_succeeds[OF demo_parse demo_normal, of "demo_env 7 ''12345678'' ''abc''" demo_world])
       (simp_all add: demo_rest)
  moreover have "expiry_of 7 ''60'' = Some 60000000007"
    by (simp add: expiry_of_def ParseExpiry_def ParseInt_def digit_val_def clamp_sign_def maxExpirySeconds_def
        Second_def wrap64_def)
  ultimately show ?thesis by (simp add: demo_world1_def)
qed

theorem creation_outcome_witness:
  "\<exists>resp p. createFromRequest demo_lib demo_handler (demo_env 7 ''12345678'' ''abc'')
      (demo_request [(''X-Expires-In'', ''60'')] ''hello'') demo_world = (Inr resp, demo_world1) \<and>
    cr_ID resp = ''XYZ01234'' \<and> paste_map (w_db demo_world1) = (paste_map empty_db)(''XYZ01234'' \<mapsto> p) \<and> stored_ok 7 p"
proof -
  obtain resp where resp: "createFromRequest demo_lib demo_handler (demo_env 7 ''12345678'' ''abc'')
      (demo_request [(''X-Expires-In'', ''60'')] ''hello'') demo_world = (Inr resp, demo_world1)"
    "cr_ID resp = ''XYZ01234''" using demo_created by blast
  have "schema_ok (w_db demo_world)" by (simp add: demo_world_def schema_ok_empty)
  from creation_outcome[OF this, of "demo_env 7 ''12345678'' ''abc''" demo_lib demo_handler
      "demo_request [(''X-Expires-In'', ''60'')] ''hello''"] resp
  show ?thesis by auto
qed

text \<open>Expiry texts are exact and bounded. A decimal number of seconds is accepted exactly when it
  is between 1 and ten years, and then means that many seconds from now, without wrap-around
  of the 64-bit nanosecond product; and whatever text is accepted, the instant lies strictly
  in the future and at most ten years ahead.\<close>

theorem ParseExpiry_exact:
  assumes "in_int64 n"
  shows "ParseExpiry now (show_int n) =
      (if 1 \<le> n \<and> n \<le> 315360000 then Some (now + n * 1000000000) else None)
    \<and> (\<forall>s t. ParseExpiry now s = Some t \<longrightarrow> now < t \<and> t \<le> now + 315360000 * 1000000000)"
proof
  have "ParseInt s = (show_val, None) \<Longrightarrow> s \<notin> {''1h'', ''1d'', ''1w'', ''1m'', ''3m'', ''6m'', ''18m'', ''1y'', ''2y''}" for s show_val
    by (auto simp: ParseInt_def digit_val_def)
  with ParseInt_show_int[OF assms]
  show "ParseExpiry now (show_int n) =
      (if 1 \<le> n \<and> n \<le> 315360000 then Some (now + n * 1000000000) else None)"
    using expiry_seconds_fit[of n]
    by (auto simp: ParseExpiry_def maxExpirySeconds_def Second_def)
  show "\<forall>s t. ParseExpiry now s = Some t \<longrightarrow> now < t \<and> t \<le> now + 315360000 * 1000000000"
    using ParseExpiry_range by (fastforce simp: maxExpirySeconds_def Second_def)
qed

theorem ParseExpiry_exact_witness:
  "ParseExpiry 5 (show_int 60) = Some 60000000005 \<and> ParseExpiry 5 (show_int 9223372036854775807) = None"
  using ParseExpiry_exact[of 60 5] ParseExpiry_exact[of 9223372036854775807 5]
  by (simp add: min_int64_def max_int64_def)

text \<open>Uploads whose body is the content, read without an outer limit.\<close>

definition raw_upload :: "http_request \<Rightarrow> bool" where
  "raw_upload r \<longleftrightarrow> rq_maxbytes r = None \<and> (let ct = rq_header r ''Content-Type'' in
     \<not> has_prefix ct ''application/json'' \<and> \<not> has_prefix ct ''multipart/form-data'' \<and>
     \<not> has_prefix ct ''application/x-www-form-urlencoded'')"

lemma readLimited_eq:
  "0 \<le> limit \<Longrightarrow> limit < max_int64 \<Longrightarrow>
   readLimited body limit =
     (if int (length body) > limit then (take (nat limit) body, True, drop (nat (limit + 1)) body) else (body, False, []))"
  by (auto simp: readLimited_def wrap64_id min_int64_def Let_def min_def nat_add_distrib)

lemma parse_raw_upload:
  assumes "raw_upload r" and "0 \<le> effectiveReadLimit h" and "effectiveReadLimit h < max_int64"
  shows "parse_create L h r =
    (if int (length (rq_body r)) > effectiveReadLimit h then Inl (too_large (effectiveReadLimit h))
     else Inr (zero_create_request\<lparr>q_Content := rq_body r, q_Title := rq_header r ''X-Title'',
            q_Language := rq_header r ''X-Language'', q_ExpiresIn := rq_header r ''X-Expires-In''\<rparr>, r\<lparr>rq_body := []\<rparr>))"
  using assms by (auto simp: parse_create_def raw_upload_def readLimited_eq body_bytes_def Let_def)

lemma effectiveReadLimit_range: "ph_maxSizeBytes h < max_int64 \<Longrightarrow>
   0 < effectiveReadLimit h \<and> effectiveReadLimit h < max_int64"
  by (auto simp: effectiveReadLimit_def maxSize_def defaultMaxSizeBytes_def max_int64_def Let_def)

lemma create_status_413:
  "rp_status (fst (handle_CreatePaste L h e r w)) = 413 \<longleftrightarrow>
     (\<exists>msg w'. createFromRequest L h e r w = (Inl (413, msg), w'))"
proof (cases "createFromRequest L h e r w")
  case (Pair res w')
  show ?thesis
  proof (cases res)
    case (Inl er)
    with Pair createFromRequest_Inl[of L h e r w er w'] show ?thesis
      by (cases er) (auto simp: handle_CreatePaste_def sendAPIError_def writeJSON_def error_code_roundtrip)
  next
    case (Inr resp)
    with Pair show ?thesis
      by (simp add: handle_CreatePaste_def writeJSON_def http_Redirect_def Let_def)
  qed
qed

lemma create_413_parse:
  "(\<exists>msg w'. createFromRequest L h e r w = (Inl (413, msg), w')) \<longleftrightarrow>
     (\<exists>msg. parse_create L h r = Inl (413, msg))"
  by (auto simp: createFromRequest_def persist_paste_def Let_def
      dest!: normalize_content_Inl find_unique_id_Inl resolve_token_Inl
      split: sum.splits prod.splits)

text \<open>The size limit of an upload is exact. With a positive limit a raw upload is answered with
  413 exactly when its body is longer than the limit; a limit of zero or less means that no
  body that fits in a 64-bit length is refused for its size.\<close>

theorem size_limit_exact:
  assumes "raw_upload r" and "n < max_int64"
  shows "rp_status (fst (handle_CreatePaste L (SetMaxSize n h) e r w)) = 413 \<longleftrightarrow>
    int (length (rq_body r)) > (if n \<le> 0 then max_int64 - 1 else n)"
proof -
  have "effectiveReadLimit (SetMaxSize n h) = (if n \<le> 0 then max_int64 - 1 else n)"
    by (simp add: effectiveReadLimit_def SetMaxSize_def maxSize_def)
  moreover have "0 < effectiveReadLimit (SetMaxSize n h) \<and> effectiveReadLimit (SetMaxSize n h) < max_int64"
    using assms(2) by (intro effectiveReadLimit_range) (simp add: SetMaxSize_def max_int64_def)
  ultimately show ?thesis
    unfolding create_status_413 create_413_parse using parse_raw_upload[OF assms(1), of "SetMaxSize n h" L]
    by (simp add: too_large_def)
qed

theorem size_limit_exact_witness:
  "rp_status (fst (handle_CreatePaste demo_lib (SetMaxSize 4 demo_handler) (demo_env 7 ''12345678'' ''abc'')
     (demo_request [] ''hello'') demo_world)) = 413 \<and>
   rp_status (fst (handle_CreatePaste demo_lib (SetMaxSize 5 demo_handler) (demo_env 7 ''12345678'' ''abc'')
     (demo_request [] ''hello'') demo_world)) \<noteq> 413"
proof -
  have "raw_upload (demo_request [] ''hello'')"
    by (simp add: raw_upload_def demo_request_def opt_str_def has_prefix_def)
  from size_limit_exact[OF this, of 4] size_limit_exact[OF this, of 5] show ?thesis
    by (simp add: max_int64_def demo_request_def)
qed

end
