(* ===== verification/Handler_Reading.thy ===== *)
theory Handler_Reading
  imports Handler_Creation
begin

section \<open>Reading a paste through the cache\<close>

text \<open>
  The read cache and the database may drift apart: views are counted in the database only,
  strings pass through JSON on their way into the cache, and the periodic sweeps delete rows
  without telling the cache. This theory states what may be held for a paste, shows that
  every handler and sweep keeps it so, and derives that a read through the cache answers
  what the database would answer.
\<close>

subsection \<open>What may be cached\<close>

definition stripped :: "paste \<Rightarrow> paste" where
  "stripped p = p\<lparr>p_Views := 0, p_UpdatedAt := zero_time\<rparr>"

text \<open>A cached copy mirrors a row when they agree after JSON, up to the counter and its time.\<close>

definition mirrors :: "paste \<Rightarrow> paste \<Rightarrow> bool" where
  "mirrors c q \<longleftrightarrow> stripped c = stripped (json_roundtrip q)"

definition entry_ok :: "instant \<Rightarrow> db \<Rightarrow> string \<Rightarrow> paste \<Rightarrow> bool" where
  "entry_ok t d k c \<longleftrightarrow>
     (\<exists>pid. k = pasteCacheKey pid \<and> p_BurnAfter c \<le> 0 \<and>
        (case paste_map d pid of
           Some q \<Rightarrow> mirrors c q
         | None \<Rightarrow> (case p_ExpiresAt c of None \<Rightarrow> False | Some x \<Rightarrow> x \<le> t)))"

definition cache_ok :: "instant \<Rightarrow> world \<Rightarrow> bool" where
  "cache_ok t w \<longleftrightarrow> (case w_cache w of None \<Rightarrow> True | Some c \<Rightarrow> drivers.coherent (entry_ok t (w_db w)) c)"

lemma pasteCacheKey_inj [simp]: "pasteCacheKey a = pasteCacheKey b \<longleftrightarrow> a = b"
  by (simp add: pasteCacheKey_def)

lemma entry_ok_key:
  "entry_ok t d (pasteCacheKey pid) c \<longleftrightarrow> p_BurnAfter c \<le> 0 \<and>
     (case paste_map d pid of
        Some q \<Rightarrow> mirrors c q
      | None \<Rightarrow> (case p_ExpiresAt c of None \<Rightarrow> False | Some x \<Rightarrow> x \<le> t))"
  by (auto simp: entry_ok_def)

lemma mirrors_fields:
  assumes "mirrors c q"
  shows "p_BurnAfter c = p_BurnAfter q" "p_ExpiresAt c = p_ExpiresAt q" "p_IsLink c = p_IsLink q"
    "p_Visibility c = p_Visibility q" "p_Content c = utf8_coerce (p_Content q)"
    "p_Title c = utf8_coerce (p_Title q)" "p_ContentType c = utf8_coerce (p_ContentType q)"
    "p_DeleteTokenHash c = []"
  using assms by (cases c, cases q, simp add: mirrors_def stripped_def json_roundtrip_def)+

lemma mirrors_self: "mirrors (json_roundtrip q) q"
  by (simp add: mirrors_def)

lemma mirrors_viewed [simp]: "mirrors c (viewed now q) \<longleftrightarrow> mirrors c q"
  by (cases q) (simp add: mirrors_def stripped_def json_roundtrip_def viewed_def)

lemma json_roundtrip_burn [simp]: "p_BurnAfter (json_roundtrip p) = p_BurnAfter p"
  by (simp add: json_roundtrip_def)

text \<open>How the invariant moves along a change of the database at one identifier, and in time.\<close>

lemma entry_ok_transfer:
  assumes "entry_ok t d k c" and "\<And>pid. entry_ok t d (pasteCacheKey pid) c \<Longrightarrow> entry_ok t' d' (pasteCacheKey pid) c"
  shows "entry_ok t' d' k c"
proof -
  from assms(1) obtain pid where "k = pasteCacheKey pid" by (auto simp: entry_ok_def)
  with assms show ?thesis by simp
qed

lemma entry_ok_mono: "s \<le> t \<Longrightarrow> entry_ok s d k c \<Longrightarrow> entry_ok t d k c"
  by (erule entry_ok_transfer) (auto simp: entry_ok_key split: option.splits)

lemma coherent_weaken:
  "drivers.coherent R c \<Longrightarrow> (\<And>k v. R k v \<Longrightarrow> R' k v) \<Longrightarrow> drivers.coherent R' c"
  by (auto simp: drivers.coherent_def)

lemma cache_ok_mono: "s \<le> t \<Longrightarrow> cache_ok s w \<Longrightarrow> cache_ok t w"
  by (auto simp: cache_ok_def intro: coherent_weaken entry_ok_mono split: option.splits)

lemma cache_ok_db:
  assumes "cache_ok t w" and "w_cache w' = w_cache w" and "\<And>k c. entry_ok t (w_db w) k c \<Longrightarrow> entry_ok t (w_db w') k c"
  shows "cache_ok t w'"
  using assms by (auto simp: cache_ok_def intro: coherent_weaken split: option.splits)

lemma cache_ok_same:
  "cache_ok t w \<Longrightarrow> w_cache w' = w_cache w \<Longrightarrow> paste_map (w_db w') = paste_map (w_db w) \<Longrightarrow> cache_ok t w'"
  by (erule cache_ok_db) (simp_all add: entry_ok_def)

lemma invalidate_simps [simp]:
  "w_db (invalidatePasteCache pid w) = w_db w" "w_viewed (invalidatePasteCache pid w) = w_viewed w"
  "w_deleted (invalidatePasteCache pid w) = w_deleted w" "w_created (invalidatePasteCache pid w) = w_created w"
  by (simp_all add: invalidatePasteCache_def split: option.splits)

lemma cache_ok_invalidate:
  assumes "cache_ok t w" and "\<And>k. k \<noteq> pid \<Longrightarrow> paste_map d' k = paste_map (w_db w) k"
  shows "cache_ok t (invalidatePasteCache pid (w\<lparr>w_db := d'\<rparr>))"
proof (cases "w_cache w")
  case None
  then show ?thesis by (simp add: cache_ok_def invalidatePasteCache_def)
next
  case (Some c)
  from assms(1) Some have "drivers.coherent (entry_ok t (w_db w)) c" by (simp add: cache_ok_def)
  then have "drivers.coherent (entry_ok t d') (cache_Delete (pasteCacheKey pid) c)"
  proof (rule drivers.coherent_del)
    fix j v assume "j \<noteq> pasteCacheKey pid" and "entry_ok t (w_db w) j v"
    then obtain pid' where "j = pasteCacheKey pid'" "pid' \<noteq> pid" "entry_ok t (w_db w) (pasteCacheKey pid') v"
      by (auto simp: entry_ok_def)
    then show "entry_ok t d' j v" using assms(2) by (simp add: entry_ok_key)
  qed
  with Some show ?thesis by (simp add: cache_ok_def invalidatePasteCache_def)
qed

subsection \<open>The cache operations of the handler\<close>

lemma getCached_hit:
  assumes "getCachedPaste now pid w = (res, w1)" and "cache_ok t w"
  shows "w1 = w\<lparr>w_cache := w_cache w1\<rparr>" and "cache_ok t w1"
    and "res = Some p \<Longrightarrow> entry_ok t (w_db w) (pasteCacheKey pid) p"
proof (atomize (full), cases "w_cache w")
  case None
  with assms show "w1 = w\<lparr>w_cache := w_cache w1\<rparr> \<and> cache_ok t w1 \<and>
      (res = Some p \<longrightarrow> entry_ok t (w_db w) (pasteCacheKey pid) p)"
    by (auto simp: getCachedPaste_def)
next
  case (Some c)
  obtain r c' where g: "cache_Get now (pasteCacheKey pid) c = (r, c')" by (cases "cache_Get now (pasteCacheKey pid) c")
  from assms(2) Some have co: "drivers.coherent (entry_ok t (w_db w)) c" by (simp add: cache_ok_def)
  from drivers.coherent_get[OF co, of now "pasteCacheKey pid"] drivers.coherent_hit[OF co, of now "pasteCacheKey pid"] g
  have c': "drivers.coherent (entry_ok t (w_db w)) c'"
    and hit: "\<And>v. r = Some v \<Longrightarrow> entry_ok t (w_db w) (pasteCacheKey pid) v" by simp_all
  from assms(1) Some g have "w1 = w\<lparr>w_cache := Some c'\<rparr> \<and> (res = None \<or> res = r)"
    by (auto simp: getCachedPaste_def split: option.splits if_splits)
  with c' hit show "w1 = w\<lparr>w_cache := w_cache w1\<rparr> \<and> cache_ok t w1 \<and>
      (res = Some p \<longrightarrow> entry_ok t (w_db w) (pasteCacheKey pid) p)"
    by (auto simp: cache_ok_def)
qed

lemma cachePaste_simps [simp]:
  "w_db (cachePaste now p w) = w_db w" "w_viewed (cachePaste now p w) = w_viewed w"
  "w_deleted (cachePaste now p w) = w_deleted w"
  by (simp_all add: cachePaste_def split: option.splits)

lemma cachePaste_ok:
  assumes "cache_ok t w" and "paste_map (w_db w) (p_ID p) = Some p"
  shows "cache_ok t (cachePaste now p w)"
proof (cases "w_cache w")
  case (Some c)
  show ?thesis
  proof (cases "p_BurnAfter p > 0")
    case False
    have "entry_ok t (w_db w) (pasteCacheKey (p_ID p)) (json_roundtrip p)"
      using assms(2) False by (simp add: entry_ok_key mirrors_self)
    with assms(1) Some drivers.coherent_put show ?thesis by (auto simp: cache_ok_def cachePaste_def)
  qed (use assms Some in \<open>simp add: cachePaste_def\<close>)
qed (use assms in \<open>simp add: cachePaste_def\<close>)

subsection \<open>The lookup\<close>

text \<open>The first half of the lookup: the copy found, in the cache or in the database.\<close>

definition lookup_paste :: "env \<Rightarrow> string \<Rightarrow> world \<Rightarrow> (db_error + paste option) \<times> world" where
  "lookup_paste e pid w =
     (case getCachedPaste (e_now e) pid w of
        (Some p, w1) \<Rightarrow> (Inr (Some p), w1)
      | (None, w1) \<Rightarrow>
          (case GetPasteByID (e_fault e CallGet) pid (w_db w1) of
             Inl er \<Rightarrow> (Inl er, w1)
           | Inr None \<Rightarrow> (Inr None, w1)
           | Inr (Some p) \<Rightarrow> (Inr (Some p), cachePaste (e_now e) p w1)))"

definition drop_paste :: "env \<Rightarrow> string \<Rightarrow> world \<Rightarrow> world" where
  "drop_paste e pid w =
     invalidatePasteCache pid (w\<lparr>w_db := (case DeletePaste (e_fault e CallDelete) pid (w_db w) of
        Inl _ \<Rightarrow> w_db w | Inr d' \<Rightarrow> d')\<rparr>)"

lemma loadLivePaste_eq:
  "loadLivePaste e pid w =
     (case lookup_paste e pid w of
        (Inl _, w1) \<Rightarrow> (Inl (sendAPIError ''SERVER_ERROR'' ''internal server error''), w1)
      | (Inr None, w1) \<Rightarrow> (Inl (sendAPIError ''NOT_FOUND'' ''paste not found''), w1)
      | (Inr (Some p), w1) \<Rightarrow>
          if expired_before (e_now e) p
          then (Inl (sendAPIError ''GONE'' ''paste has expired''), drop_paste e pid w1)
          else (Inr p, w1))"
  by (simp add: loadLivePaste_def lookup_paste_def drop_paste_def split: prod.splits option.splits sum.splits)

lemma GetPasteForWeb_eq:
  "GetPasteForWeb e pid w =
     (case lookup_paste e pid w of
        (Inl er, w1) \<Rightarrow> (Inl er, w1)
      | (Inr None, w1) \<Rightarrow> (Inr None, w1)
      | (Inr (Some p), w1) \<Rightarrow>
          if expired_before (e_now e) p then (Inr None, drop_paste e pid w1)
          else (let (p1, w2) = count_view e pid p w1 in (Inr (Some (p1\<lparr>p_DeleteTokenHash := []\<rparr>)), w2)))"
  by (simp add: GetPasteForWeb_def lookup_paste_def drop_paste_def split: prod.splits option.splits sum.splits)

lemma GetPasteByID_eq: "GetPasteByID f pid d = (if f then Inl EngineError else Inr (paste_map d pid))"
  by (simp add: GetPasteByID_def paste_map_def)

lemma lookup_paste_sound:
  assumes "lookup_paste e pid w = (res, w1)" and "cache_ok t w"
  shows "w_db w1 = w_db w \<and> w_viewed w1 = w_viewed w \<and> w_deleted w1 = w_deleted w \<and> cache_ok t w1 \<and>
    (case res of
       Inl _ \<Rightarrow> e_fault e CallGet
     | Inr None \<Rightarrow> paste_map (w_db w) pid = None
     | Inr (Some p) \<Rightarrow> paste_map (w_db w) pid = Some p \<or> entry_ok t (w_db w) (pasteCacheKey pid) p)"
proof -
  obtain c w0 where g: "getCachedPaste (e_now e) pid w = (c, w0)" by (cases "getCachedPaste (e_now e) pid w")
  note hit = getCached_hit[OF g assms(2)]
  have w0: "w_db w0 = w_db w" "w_viewed w0 = w_viewed w" "w_deleted w0 = w_deleted w"
    by (subst hit(1), simp)+
  show ?thesis
  proof (cases c)
    case (Some p)
    with assms(1) g hit w0 show ?thesis by (auto simp: lookup_paste_def)
  next
    case None
    with assms(1) g hit(2) w0 show ?thesis
      by (auto simp: lookup_paste_def GetPasteByID_eq paste_map_ID intro!: cachePaste_ok
          split: if_splits option.splits)
  qed
qed

lemma DeletePaste_map:
  "DeletePaste f pid d = Inr d' \<Longrightarrow> paste_map d' = (paste_map d)(pid := None) \<and> paste_map d pid \<noteq> None"
  by (cases f) (simp add: DeletePaste_def, auto simp: DeletePaste_eq split: if_splits)

lemma drop_paste_ok: "cache_ok t w \<Longrightarrow> cache_ok t (drop_paste e pid w)"
  unfolding drop_paste_def by (erule cache_ok_invalidate) (auto dest!: DeletePaste_map split: sum.splits)

lemma drop_paste_map:
  "\<not> e_fault e CallDelete \<Longrightarrow> paste_map (w_db (drop_paste e pid w)) = (paste_map (w_db w))(pid := None)"
  by (auto simp: drop_paste_def DeletePaste_eq fun_upd_idem)

lemma IncrementViews_map:
  assumes "IncrementViewsAndCheckBurn f now pid d = Inr (v, b, d')"
  obtains q where "paste_map d pid = Some q" "b = burns q" "v = p_Views q + 1"
    "paste_map d' = (paste_map d)(pid := if burns q then None else Some (viewed now q))"
proof -
  from assms have f: "IncrementViewsAndCheckBurn False now pid d = Inr (v, b, d')"
    by (cases f) (simp_all add: IncrementViewsAndCheckBurn_def)
  then obtain q where "paste_map d pid = Some q" by (auto simp: IncrementViewsAndCheckBurn_eq split: option.splits)
  with f that[OF this] show ?thesis by (auto simp: IncrementViewsAndCheckBurn_eq split: if_splits)
qed

lemma count_view_ok:
  assumes "cache_ok t w"
  shows "cache_ok t (snd (count_view e pid p w))"
proof (cases "IncrementViewsAndCheckBurn (e_fault e CallView) (e_now e) pid (w_db w)")
  case (Inl er)
  with assms show ?thesis by (auto simp: count_view_def intro: cache_ok_same)
next
  case (Inr vbd)
  obtain v b d' where vbd: "vbd = (v, b, d')" by (cases vbd)
  with Inr obtain q where q: "paste_map (w_db w) pid = Some q" "b = burns q"
    "paste_map d' = (paste_map (w_db w))(pid := if burns q then None else Some (viewed (e_now e) q))"
    by (auto elim: IncrementViews_map)
  let ?w = "w\<lparr>w_viewed := w_viewed w + 1\<rparr>"
  have *: "w\<lparr>w_db := d', w_viewed := w_viewed w + 1\<rparr> = ?w\<lparr>w_db := d'\<rparr>" by simp
  have w: "cache_ok t ?w" by (rule cache_ok_same[OF assms]) simp_all
  show ?thesis
  proof (cases "burns q")
    case True
    have "cache_ok t (invalidatePasteCache pid (w\<lparr>w_db := d', w_viewed := w_viewed w + 1\<rparr>))"
      unfolding * using w by (rule cache_ok_invalidate) (use True q in simp)
    with True q Inr vbd show ?thesis by (auto simp: count_view_def intro: cache_ok_same)
  next
    case False
    have "cache_ok t (?w\<lparr>w_db := d'\<rparr>)"
      by (rule cache_ok_db[OF w], simp, erule entry_ok_transfer)
         (use False q in \<open>auto simp: entry_ok_key split: if_splits option.splits\<close>)
    then have "cache_ok t (w\<lparr>w_db := d', w_viewed := w_viewed w + 1\<rparr>)" by (simp only: *)
    with False q Inr vbd show ?thesis by (simp add: count_view_def)
  qed
qed

lemma lookup_paste_ok: "cache_ok t w \<Longrightarrow> cache_ok t (snd (lookup_paste e pid w))"
  using lookup_paste_sound by (metis prod.collapse)

lemma loadLivePaste_ok: "cache_ok t w \<Longrightarrow> cache_ok t (snd (loadLivePaste e pid w))"
  by (simp add: loadLivePaste_eq split_beta lookup_paste_ok drop_paste_ok split: sum.splits option.splits)

lemmas read_ok = lookup_paste_ok loadLivePaste_ok drop_paste_ok count_view_ok

lemma GetPaste_ok: "cache_ok t w \<Longrightarrow> cache_ok t (snd (GetPaste L e r pid w))"
  by (simp add: GetPaste_def Let_def split_beta read_ok split: sum.splits)

lemma GetRawPaste_ok: "cache_ok t w \<Longrightarrow> cache_ok t (snd (GetRawPaste L e pid w))"
  by (simp add: GetRawPaste_def split_beta read_ok split: sum.splits)

lemma GetPasteForWeb_ok: "cache_ok t w \<Longrightarrow> cache_ok t (snd (GetPasteForWeb e pid w))"
  by (simp add: GetPasteForWeb_eq Let_def split_beta read_ok split: sum.splits option.splits)

lemma Verify_pastes: "VerifyAPIToken f wfl t h rt ri d = Inr d' \<Longrightarrow> pastes d' = pastes d"
  using Verify_frame by fastforce

lemma handle_DeletePaste_ok: "cache_ok t w \<Longrightarrow> cache_ok t (snd (handle_DeletePaste L h e r pid w))"
proof -
  assume w: "cache_ok t w"
  have inv: "cache_ok t (invalidatePasteCache pid (w\<lparr>w_db := d2\<rparr>))"
    if "DeletePaste f pid d1 = Inr d2" and "pastes d1 = pastes (w_db w)" for f d1 d2
    using w by (rule cache_ok_invalidate) (use DeletePaste_map[OF that(1)] paste_map_cong[OF that(2)] in simp)
  have keep: "cache_ok t (w\<lparr>w_db := d1\<rparr>)" if "pastes d1 = pastes (w_db w)" for d1
    using w by (rule cache_ok_same) (simp_all add: paste_map_cong[OF that])
  show ?thesis
    using w by (auto simp: handle_DeletePaste_def Let_def split: sum.splits
        intro: cache_ok_same[OF inv] keep dest: Verify_pastes)
qed

subsection \<open>Every service of the program\<close>

text \<open>
  The worlds a running server can get into: it starts with an empty store, then serves
  requests one after another in any order, with any statement of any request failing, while
  the scheduler's sweeps and the cache's reaper run in between. Instants do not decrease. An
  identifier is not drawn again while the cache still holds a paste under it.
\<close>

definition unheld :: "env \<Rightarrow> world \<Rightarrow> bool" where
  "unheld e w \<longleftrightarrow> (\<forall>i pid c. generateID (e_idrand e i) = Some pid \<longrightarrow> w_cache w = Some c \<longrightarrow>
     driver_held c (pasteCacheKey pid) = None)"

inductive served :: "golib \<Rightarrow> paste_handler \<Rightarrow> instant \<Rightarrow> world \<Rightarrow> bool" for L h where
  boot: "w_db w = empty_db \<Longrightarrow>
    w_cache w \<in> {None, Some NoopCache, Some (MemoryCache (newMemoryCache pre ttl))} \<Longrightarrow> served L h t w"
| create: "served L h t w \<Longrightarrow> t \<le> e_now e \<Longrightarrow> unheld e w \<Longrightarrow>
    served L h (e_now e) (snd (handle_CreatePaste L h e r w))"
| get: "served L h t w \<Longrightarrow> t \<le> e_now e \<Longrightarrow> served L h (e_now e) (snd (GetPaste L e r pid w))"
| raw: "served L h t w \<Longrightarrow> t \<le> e_now e \<Longrightarrow> served L h (e_now e) (snd (GetRawPaste L e pid w))"
| web: "served L h t w \<Longrightarrow> t \<le> e_now e \<Longrightarrow> served L h (e_now e) (snd (GetPasteForWeb e pid w))"
| list: "served L h t w \<Longrightarrow> t \<le> e_now e \<Longrightarrow> served L h (e_now e) (snd (ListPastes e r w))"
| delete: "served L h t w \<Longrightarrow> t \<le> e_now e \<Longrightarrow> served L h (e_now e) (snd (handle_DeletePaste L h e r pid w))"
| sweep_expired: "served L h t w \<Longrightarrow> t \<le> u \<Longrightarrow> DeleteExpiredPastes f u (w_db w) = Inr (n, d') \<Longrightarrow>
    served L h u (w\<lparr>w_db := d'\<rparr>)"
| sweep_burned: "served L h t w \<Longrightarrow> t \<le> u \<Longrightarrow> DeleteBurnedPastes f (w_db w) = Inr (n, d') \<Longrightarrow>
    served L h u (w\<lparr>w_db := d'\<rparr>)"
| sweep_tokens: "served L h t w \<Longrightarrow> t \<le> u \<Longrightarrow> DeleteExpiredAPITokens f u (w_db w) = Inr (n, d') \<Longrightarrow>
    served L h u (w\<lparr>w_db := d'\<rparr>)"
| reap: "served L h t w \<Longrightarrow> t \<le> u \<Longrightarrow> w_cache w = Some c \<Longrightarrow>
    served L h u (w\<lparr>w_cache := Some (cache_Reap u c)\<rparr>)"

subsubsection \<open>What holds in every such world\<close>

lemma lookup_paste_db [simp]: "w_db (snd (lookup_paste e pid w)) = w_db w"
  by (simp add: lookup_paste_def getCachedPaste_def split: prod.splits option.splits sum.splits)

lemma drop_paste_schema: "schema_ok (w_db w) \<Longrightarrow> schema_ok (w_db (drop_paste e pid w))"
  by (auto simp: drop_paste_def intro: DeletePaste_schema split: sum.splits)

lemma count_view_schema: "schema_ok (w_db w) \<Longrightarrow> schema_ok (w_db (snd (count_view e pid p w)))"
  by (auto simp: count_view_def Let_def intro: IncrementViews_schema split: sum.splits)

lemma loadLivePaste_schema: "schema_ok (w_db w) \<Longrightarrow> schema_ok (w_db (snd (loadLivePaste e pid w)))"
  by (simp add: loadLivePaste_eq split_beta drop_paste_schema split: sum.splits option.splits)

lemmas read_schema = loadLivePaste_schema drop_paste_schema count_view_schema

lemma GetPaste_schema: "schema_ok (w_db w) \<Longrightarrow> schema_ok (w_db (snd (GetPaste L e r pid w)))"
  by (simp add: GetPaste_def Let_def split_beta read_schema split: sum.splits)

lemma GetRawPaste_schema: "schema_ok (w_db w) \<Longrightarrow> schema_ok (w_db (snd (GetRawPaste L e pid w)))"
  by (simp add: GetRawPaste_def split_beta read_schema split: sum.splits)

lemma GetPasteForWeb_schema: "schema_ok (w_db w) \<Longrightarrow> schema_ok (w_db (snd (GetPasteForWeb e pid w)))"
  by (simp add: GetPasteForWeb_eq Let_def split_beta read_schema split: sum.splits option.splits)

lemma handle_DeletePaste_schema:
  "schema_ok (w_db w) \<Longrightarrow> schema_ok (w_db (snd (handle_DeletePaste L h e r pid w)))"
  by (auto simp: handle_DeletePaste_def Let_def split: sum.splits
      intro: DeletePaste_schema VerifyAPIToken_schema)

lemma handle_CreatePaste_world:
  "snd (handle_CreatePaste L h e r w) = snd (createFromRequest L h e r w)"
  by (simp add: handle_CreatePaste_def Let_def split: prod.splits sum.splits)

lemma ListPastes_world [simp]: "snd (ListPastes e r w) = w"
  by (simp add: ListPastes_def split: prod.splits sum.splits)

lemma create_cache_ok:
  assumes "cache_ok t w" and "schema_ok (w_db w)" and "unheld e w" and "createFromRequest L h e r w = (res, w')"
  shows "cache_ok t w' \<and> schema_ok (w_db w')"
proof (cases res)
  case (Inl er)
  with assms createFromRequest_Inl[of L h e r w er w'] show ?thesis by simp
next
  case (Inr resp)
  with assms(4) have "createFromRequest L h e r w = (Inr resp, w')" by simp
  then obtain p where p: "paste_map (w_db w') = (paste_map (w_db w))(cr_ID resp \<mapsto> p)" "schema_ok (w_db w')"
    "w_cache w' = w_cache w" "\<exists>i. generateID (e_idrand e i) = Some (cr_ID resp)"
    by (rule created_row[OF assms(2)])
  have "drivers.coherent (entry_ok t (w_db w')) c" if c: "w_cache w = Some c" for c
    unfolding drivers.coherent_def
  proof (intro allI impI)
    fix k v assume v: "driver_held c k = Some v"
    with assms(1) c have "entry_ok t (w_db w) k v" by (auto simp: cache_ok_def drivers.coherent_def)
    moreover from v c p(4) assms(3) have "k \<noteq> pasteCacheKey (cr_ID resp)" by (auto simp: unheld_def)
    ultimately show "entry_ok t (w_db w') k v" by (auto simp: entry_ok_def p(1))
  qed
  with p show ?thesis by (simp add: cache_ok_def split: option.splits)
qed

lemma sweep_expired_ok:
  assumes "cache_ok u w" and "schema_ok (w_db w)" and "DeleteExpiredPastes f u (w_db w) = Inr (n, d')"
  shows "cache_ok u (w\<lparr>w_db := d'\<rparr>) \<and> schema_ok d'"
proof -
  from assms(3) have d': "d' = (w_db w)\<lparr>pastes := delete_where (expired_at u) (pastes (w_db w))\<rparr>"
    by (auto simp: DeleteExpiredPastes_def split: if_splits)
  have "cache_ok u (w\<lparr>w_db := d'\<rparr>)"
    by (rule cache_ok_db[OF assms(1)], simp, erule entry_ok_transfer)
       (auto simp: entry_ok_key d' paste_map_delete_where[OF assms(2)] expired_at_def mirrors_fields(2)
         split: option.splits)
  with DeleteExpiredPastes_schema[OF assms(2,3)] show ?thesis by simp
qed

lemma sweep_burned_ok:
  assumes "cache_ok u w" and "schema_ok (w_db w)" and "DeleteBurnedPastes f (w_db w) = Inr (n, d')"
  shows "cache_ok u (w\<lparr>w_db := d'\<rparr>) \<and> schema_ok d'"
proof -
  from assms(3) have d': "d' = (w_db w)\<lparr>pastes := delete_where burned_out (pastes (w_db w))\<rparr>"
    by (auto simp: DeleteBurnedPastes_def split: if_splits)
  have "cache_ok u (w\<lparr>w_db := d'\<rparr>)"
    by (rule cache_ok_db[OF assms(1)], simp, erule entry_ok_transfer)
       (auto simp: entry_ok_key d' paste_map_delete_where[OF assms(2)] burned_out_def mirrors_fields(1)
         split: option.splits)
  with DeleteBurnedPastes_schema[OF assms(2,3)] show ?thesis by simp
qed

lemma served_ok: "served L h t w \<Longrightarrow> cache_ok t w \<and> schema_ok (w_db w)"
proof (induction rule: served.induct)
  case (boot w pre ttl t)
  then show ?case
    by (auto simp: cache_ok_def drivers.coherent_def newMemoryCache_def schema_ok_empty)
next
  case (create t w e r)
  then show ?case
    using create_cache_ok[of "e_now e" w e L h r] cache_ok_mono
    unfolding handle_CreatePaste_world by (metis prod.collapse)
next
  case (sweep_expired t w u f n d')
  then show ?case using sweep_expired_ok[of u w f n d'] cache_ok_mono[of t u w] by simp
next
  case (sweep_burned t w u f n d')
  then show ?case using sweep_burned_ok[of u w f n d'] cache_ok_mono[of t u w] by simp
next
  case (sweep_tokens t w u f n d')
  then have "pastes d' = pastes (w_db w)" by (auto simp: DeleteExpiredAPITokens_def Let_def split: if_splits)
  from paste_map_cong[OF this] have "cache_ok u (w\<lparr>w_db := d'\<rparr>)"
    using sweep_tokens cache_ok_mono[of t u w] by (intro cache_ok_same[of u w "w\<lparr>w_db := d'\<rparr>"]) simp_all
  with sweep_tokens show ?case using DeleteExpiredAPITokens_schema by auto
next
  case (reap t w u c)
  then show ?case using cache_ok_mono drivers.coherent_reap by (fastforce simp: cache_ok_def)
qed (auto intro: cache_ok_mono GetPaste_ok GetPaste_schema GetRawPaste_ok GetRawPaste_schema GetPasteForWeb_ok
    GetPasteForWeb_schema handle_DeletePaste_ok handle_DeletePaste_schema)

subsection \<open>Properties\<close>

lemma api_error_status [simp]:
  "rp_status (sendAPIError ''NOT_FOUND'' m) = 404" "rp_status (sendAPIError ''GONE'' m) = 410"
  "rp_status (sendAPIError ''SERVER_ERROR'' m) = 500" "rp_status (sendAPIError ''UNAUTHORIZED'' m) = 401"
  by (simp_all add: sendAPIError_def writeJSON_def mapAPIErrorCodeToHTTPStatus_def)

lemma demo_served: "served demo_lib demo_handler 7 demo_world1"
proof -
  have "served demo_lib demo_handler 0 demo_world"
    by (rule served.boot[of _ "''pastebin:''" Hour]) (simp_all add: demo_world_def)
  then have "served demo_lib demo_handler (e_now (demo_env 7 ''12345678'' ''abc''))
      (snd (handle_CreatePaste demo_lib demo_handler (demo_env 7 ''12345678'' ''abc'')
        (demo_request [(''X-Expires-In'', ''60'')] ''hello'') demo_world))"
    by (rule served.create) (simp_all add: demo_env_def unheld_def demo_world_def newMemoryCache_def)
  then show ?thesis by (simp add: handle_CreatePaste_world demo_world1_def[symmetric])
qed

subsubsection \<open>Burn after reading\<close>

text \<open>No entry is held for the paste.\<close>

definition uncached :: "string \<Rightarrow> world \<Rightarrow> bool" where
  "uncached pid w \<longleftrightarrow>
     (case w_cache w of None \<Rightarrow> True | Some c \<Rightarrow> drivers.coherent (\<lambda>k v. k \<noteq> pasteCacheKey pid) c)"

lemma getCached_uncached:
  assumes "uncached pid w"
  obtains w1 where "getCachedPaste now pid w = (None, w1)" "w_db w1 = w_db w" "uncached pid w1"
proof (cases "w_cache w")
  case None
  with assms show ?thesis by (intro that[of w]) (simp_all add: getCachedPaste_def)
next
  case (Some c)
  with assms have co: "drivers.coherent (\<lambda>k v. k \<noteq> pasteCacheKey pid) c" by (simp add: uncached_def)
  obtain r c' where g: "cache_Get now (pasteCacheKey pid) c = (r, c')" by (cases "cache_Get now (pasteCacheKey pid) c")
  from drivers.coherent_hit[OF co, of now "pasteCacheKey pid"] g have "r = None" by (cases r) auto
  moreover from drivers.coherent_get[OF co, of now "pasteCacheKey pid"] g
  have "drivers.coherent (\<lambda>k v. k \<noteq> pasteCacheKey pid) c'" by simp
  ultimately show ?thesis
    using Some g by (intro that[of "w\<lparr>w_cache := Some c'\<rparr>"]) (simp_all add: getCachedPaste_def uncached_def)
qed

lemma lookup_uncached:
  assumes "uncached pid w" and "\<not> e_fault e CallGet"
  obtains w1 where "lookup_paste e pid w = (Inr (paste_map (w_db w) pid), w1)" "w_db w1 = w_db w"
    "(\<forall>q. paste_map (w_db w) pid = Some q \<longrightarrow> p_BurnAfter q > 0) \<Longrightarrow> uncached pid w1"
proof -
  obtain w1 where w1: "getCachedPaste (e_now e) pid w = (None, w1)" "w_db w1 = w_db w" "uncached pid w1"
    using getCached_uncached[OF assms(1)] .
  show ?thesis
  proof (cases "paste_map (w_db w) pid")
    case None
    with w1 assms(2) show ?thesis by (intro that[of w1]) (simp_all add: lookup_paste_def GetPasteByID_eq)
  next
    case (Some q)
    with w1 assms(2) show ?thesis
      by (intro that[of "cachePaste (e_now e) q w1"])
         (auto simp: lookup_paste_def GetPasteByID_eq cachePaste_def split: option.splits)
  qed
qed

lemma cache_ok_uncached:
  assumes "cache_ok t w" and "paste_map (w_db w) pid = Some q" and "p_BurnAfter q > 0"
  shows "uncached pid w"
proof (cases "w_cache w")
  case (Some c)
  with assms(1) have co: "drivers.coherent (entry_ok t (w_db w)) c" by (simp add: cache_ok_def)
  have "\<not> entry_ok t (w_db w) (pasteCacheKey pid) v" for v
    using assms(2,3) mirrors_fields(1)[of v q] by (auto simp: entry_ok_key)
  with co have "drivers.coherent (\<lambda>k v. k \<noteq> pasteCacheKey pid) c" by (auto intro: coherent_weaken)
  with Some show ?thesis by (simp add: uncached_def)
qed (simp add: uncached_def)

lemma served_uncached:
  "served L h t w \<Longrightarrow> paste_map (w_db w) pid = Some q \<Longrightarrow> p_BurnAfter q > 0 \<Longrightarrow> uncached pid w"
  using served_ok cache_ok_uncached by blast

lemma uncached_invalidate: "uncached pid (invalidatePasteCache pid w)"
proof (cases "w_cache w")
  case (Some c)
  have "drivers.coherent (\<lambda>k v. True) c" by (simp add: drivers.coherent_def)
  then have "drivers.coherent (\<lambda>k v. k \<noteq> pasteCacheKey pid) (cache_Delete (pasteCacheKey pid) c)"
    by (rule drivers.coherent_del) simp
  with Some show ?thesis by (simp add: uncached_def invalidatePasteCache_def)
qed (simp add: uncached_def invalidatePasteCache_def)

lemma uncached_cong: "w_cache w' = w_cache w \<Longrightarrow> uncached pid w \<Longrightarrow> uncached pid w'"
  by (simp add: uncached_def)

lemma count_view_uncached:
  assumes "uncached pid w" and "paste_map (w_db w) pid = Some q" and "\<not> e_fault e CallView"
  shows "uncached pid (snd (count_view e pid p w)) \<and>
    paste_map (w_db (snd (count_view e pid p w))) =
      (paste_map (w_db w))(pid := if burns q then None else Some (viewed (e_now e) q))"
proof (cases "burns q")
  case True
  with assms show ?thesis
    using uncached_cong[OF _ uncached_invalidate] by (simp add: count_view_def IncrementViewsAndCheckBurn_eq)
next
  case False
  with assms show ?thesis by (auto simp: count_view_def IncrementViewsAndCheckBurn_eq intro: uncached_cong)
qed

text \<open>The three ways to read a paste, and whether it was handed out.\<close>

datatype read_kind = ReadAPI http_request | ReadRaw | ReadWeb

fun read_paste :: "golib \<Rightarrow> read_kind \<Rightarrow> env \<Rightarrow> string \<Rightarrow> world \<Rightarrow> bool \<times> world" where
  "read_paste L (ReadAPI r) e pid w = (let (rp, w') = GetPaste L e r pid w in (rp_status rp < 400, w'))"
| "read_paste L ReadRaw e pid w = (let (rp, w') = GetRawPaste L e pid w in (rp_status rp < 400, w'))"
| "read_paste L ReadWeb e pid w =
     (let (res, w') = GetPasteForWeb e pid w in (case res of Inr (Some _) \<Rightarrow> True | _ \<Rightarrow> False, w'))"

lemma raw_reply_status [simp]: "rp_status (raw_reply L p) = 200"
  by (simp add: raw_reply_def Let_def split: prod.splits)

lemma read_paste_hit:
  assumes "lookup_paste e pid w = (Inr (Some q), w1)" and "\<not> expired_before (e_now e) q"
  shows "read_paste L k e pid w = (True, snd (count_view e pid q w1))"
  using assms by (cases k) (auto simp: GetPaste_def GetRawPaste_def GetPasteForWeb_eq loadLivePaste_eq
      http_Redirect_def writeJSON_def Let_def split: prod.splits)

lemma read_paste_miss: "lookup_paste e pid w = (Inr None, w1) \<Longrightarrow> read_paste L k e pid w = (False, w1)"
  by (cases k) (simp_all add: GetPaste_def GetRawPaste_def GetPasteForWeb_eq loadLivePaste_eq)

text \<open>The count and the check are one transaction, but the content is loaded before it and is
  handed out whatever it says. Two requests that both load a paste with a limit of one before
  either counts are both answered with its content, although the first count already
  destroyed it.\<close>

theorem burn_limit_race:
  assumes "served L h t w" and "paste_map (w_db w) pid = Some q" and "p_Views q = 0" and "p_BurnAfter q = 1"
    and "\<not> e_fault e CallGet" and "\<not> e_fault e CallView" and "\<not> expired_before (e_now e) q"
  shows "\<exists>w1 w2 w3 w4 c1 c2.
    loadLivePaste e pid w = (Inr q, w1) \<and> loadLivePaste e pid w1 = (Inr q, w2) \<and>
    count_view e pid q w2 = (c1, w3) \<and> paste_map (w_db w3) pid = None \<and>
    count_view e pid q w3 = (c2, w4) \<and> p_Content c1 = p_Content q \<and> p_Content c2 = p_Content q"
proof -
  have load: "\<exists>w'. loadLivePaste e pid v = (Inr q, w') \<and> w_db w' = w_db v \<and> uncached pid w'"
    if "uncached pid v" "paste_map (w_db v) pid = Some q" for v
    using lookup_uncached[OF that(1) assms(5)] that(2) assms(4,7) by (fastforce simp: loadLivePaste_eq)
  from load[OF served_uncached[OF assms(1,2)] assms(2)] assms(4) obtain w1 where
    w1: "loadLivePaste e pid w = (Inr q, w1)" "w_db w1 = w_db w" "uncached pid w1" by auto
  from load[OF w1(3)] assms(2) obtain w2 where
    w2: "loadLivePaste e pid w1 = (Inr q, w2)" "w_db w2 = w_db w" "uncached pid w2" by (auto simp: w1(2))
  obtain c1 w3 where c1: "count_view e pid q w2 = (c1, w3)" by (cases "count_view e pid q w2")
  obtain c2 w4 where c2: "count_view e pid q w3 = (c2, w4)" by (cases "count_view e pid q w3")
  have "burns q" using assms(3,4) by (simp add: burns_def)
  with count_view_uncached[OF w2(3), of q e q] assms(2,6) c1 have "paste_map (w_db w3) pid = None"
    by (simp add: w2(2))
  moreover have "p_Content (fst (count_view e pid q v)) = p_Content q" for v
    by (simp add: count_view_def split: sum.splits)
  ultimately show ?thesis using w1 w2 c1 c2 by (metis fst_conv)
qed

subsubsection \<open>A burning paste\<close>

text \<open>The demonstration deployment after a JSON request for a paste that burns after one reading.\<close>

definition burning_world :: world where
  "burning_world = snd (handle_CreatePaste demo_lib demo_handler (demo_env 7 ''12345678'' ''abc'')
     (demo_request [(''Content-Type'', ''application/json'')] ''{}'') demo_world)"

abbreviation burning_q :: create_request where
  "burning_q \<equiv> zero_create_request\<lparr>q_Content := ''hello'', q_BurnAfter := 1\<rparr>"

abbreviation burning_paste :: paste where
  "burning_paste \<equiv> normalized 7 (build_paste 7 ''XYZ01234'' burning_q)"

lemma burning_served: "served demo_lib demo_handler 7 burning_world"
proof -
  have "served demo_lib demo_handler 0 demo_world"
    by (rule served.boot[of _ "''pastebin:''" Hour]) (simp_all add: demo_world_def)
  from served.create[OF this, of "demo_env 7 ''12345678'' ''abc''"
      "demo_request [(''Content-Type'', ''application/json'')] ''{}''"]
  show ?thesis by (simp add: burning_world_def unheld_def demo_world_def newMemoryCache_def)
qed

lemma burning_row: "paste_map (w_db burning_world) ''XYZ01234'' = Some burning_paste"
proof -
  have p: "parse_create demo_lib demo_handler (demo_request [(''Content-Type'', ''application/json'')] ''{}'') =
      Inr (burning_q, demo_request [(''Content-Type'', ''application/json'')] [])"
    by (simp add: parse_create_def readLimited_def effectiveReadLimit_def maxSize_def defaultMaxSizeBytes_def
        demo_defs body_bytes_def opt_str_def has_prefix_def wrap64_def)
  have n: "normalize_content demo_lib burning_q = Inr burning_q"
    by (simp add: normalize_content_def isSingleURLContent_def contains_any_def has_prefix_def demo_trim
        demo_lib_def zero_create_request_def trim_right_char_def)
  have t: "resolve_token demo_lib (demo_env 7 ''12345678'' ''abc'')
      (demo_request [(''Content-Type'', ''application/json'')] []) empty_db = Inr (''tok_JKL'', ''tok_JKL'')"
    by (simp add: resolve_token_def extractToken_def demo_defs opt_str_def has_prefix_def query_get_def
       generateOwnerToken_def idCharset_def Let_def)
  obtain resp w' where "createFromRequest demo_lib demo_handler (demo_env 7 ''12345678'' ''abc'')
      (demo_request [(''Content-Type'', ''application/json'')] ''{}'') demo_world = (Inr resp, w')"
    "paste_map (w_db w') = [''XYZ01234'' \<mapsto> burning_paste]"
    by (rule create_succeeds[OF p n, of "demo_env 7 ''12345678'' ''abc''" demo_world]) (simp_all add: demo_rest(1) t)
  then show ?thesis by (simp add: burning_world_def handle_CreatePaste_world)
qed

lemma burning_fields:
  "p_Views burning_paste = 0" "p_BurnAfter burning_paste = 1" "\<not> expired_before t burning_paste"
  by (simp_all add: clamp_burn_id expired_before_def expiry_of_def zero_create_request_def)

theorem burn_limit_race_witness:
  "\<exists>w1 w2 w3 w4 c1 c2.
    loadLivePaste (demo_env 8 [] []) ''XYZ01234'' burning_world = (Inr burning_paste, w1) \<and>
    loadLivePaste (demo_env 8 [] []) ''XYZ01234'' w1 = (Inr burning_paste, w2) \<and>
    count_view (demo_env 8 [] []) ''XYZ01234'' burning_paste w2 = (c1, w3) \<and> paste_map (w_db w3) ''XYZ01234'' = None \<and>
    count_view (demo_env 8 [] []) ''XYZ01234'' burning_paste w3 = (c2, w4) \<and>
    p_Content c1 = p_Content burning_paste \<and> p_Content c2 = p_Content burning_paste"
  by (rule burn_limit_race[OF burning_served burning_row]) (simp_all only: burning_fields demo_env_sel not_False_eq_True)

end
