(* ===== verification/Handler_Access.thy ===== *)
theory Handler_Access
  imports Handler_Reading
begin

section \<open>Downloads and deletion\<close>

text \<open>
  What a raw download returns and how it is labelled, and who may delete a paste: the
  end-to-end properties of \<^verbatim>\<open>GetRawPaste\<close> and \<^verbatim>\<open>DeletePaste\<close> of
  \<^verbatim>\<open>src/src/handler/paste.go\<close>.
\<close>

subsection \<open>Uploads come back\<close>

text \<open>What is kept of an upload: a single link without surrounding blanks, a text without its
  trailing newlines, anything else byte for byte.\<close>

definition kept_bytes :: "golib \<Rightarrow> bytes \<Rightarrow> bytes" where
  "kept_bytes L b =
     (if isSingleURLContent L b then trim_space b
      else if has_prefix (lib_detect L (take 512 b)) ''text/'' then trim_right_char CHR 0x0A b
      else b)"

lemma raw_body_normalized [simp]: "raw_body (normalized now p) = raw_body p"
  by (simp add: raw_body_def split: option.splits)

lemma raw_reply_body [simp]: "rp_body (raw_reply L p) = Raw (raw_body p)"
  by (simp add: raw_reply_def Let_def split: prod.splits)

lemma raw_body_kept:
  assumes "normalize_content L q0 = Inr q" and "q_ContentType q0 = []" and "\<And>b. lib_detect L b \<noteq> []"
  shows "raw_body (build_paste now pid q) = kept_bytes L (q_Content q0)"
proof (cases "isSingleURLContent L (q_Content q0)")
  case True
  with assms(1) show ?thesis
    by (auto simp: normalize_content_def kept_bytes_def raw_body_def Let_def split: if_splits)
next
  case False
  have "trim_right_char CHR 0x0A [] = []" by (simp add: trim_right_char_def)
  with False assms show ?thesis
    by (cases "q_Content q0 = []")
       (auto simp: normalize_content_def kept_bytes_def raw_body_def b64_roundtrip Let_def split: if_splits)
qed

lemma find_unheld_uncached:
  assumes "unheld e w" and "find_unique_id e d 0 10 = Inr pid" and "w_cache w' = w_cache w"
  shows "uncached pid w'"
proof -
  from find_unique_id_Inr[OF assms(2)] obtain j where "generateID (e_idrand e j) = Some pid" by blast
  with assms(1,3) show ?thesis
    unfolding uncached_def unheld_def drivers.coherent_def by (auto split: option.splits)
qed



subsection \<open>Active content\<close>



subsection \<open>Who may delete\<close>

definition is_operator :: "golib \<Rightarrow> paste_handler \<Rightarrow> http_request \<Rightarrow> bool" where
  "is_operator L h r \<longleftrightarrow>
     ph_operatorTokenHash h \<noteq> zero_hash \<and> lib_sha256 L (extractToken L r) = ph_operatorTokenHash h"

lemma Verify_map: "VerifyAPIToken f wfl t h rt ri d = Inr d' \<Longrightarrow> paste_map d' = paste_map d"
  by (drule Verify_pastes) (rule paste_map_cong)

lemma Verify_authorises:
  "schema_ok d \<Longrightarrow> VerifyAPIToken f wfl t h rt ri d = Inr d' \<Longrightarrow> authorises t (hex_encode h) rt ri d"
  using Verify_iff Verify_Inr by blast

lemma deleted_status [simp]: "rp_status deleted_reply = 200"
  by (simp add: deleted_reply_def writeJSON_def)

lemma owner_delete:
  "extractToken L r \<noteq> [] \<Longrightarrow> \<not> is_operator L h r \<Longrightarrow> handle_DeletePaste L h e r pid w =
     (case VerifyAPIToken (e_fault e CallVerify) (e_fault e CallTouch) (e_now e)
             (lib_sha256 L (extractToken L r)) ''paste'' pid (w_db w) of
        Inl _ \<Rightarrow> (sendAPIError ''NOT_FOUND'' ''paste not found or invalid token'', w)
      | Inr d1 \<Rightarrow>
          (case DeletePaste (e_fault e CallDelete) pid d1 of
             Inl _ \<Rightarrow> (sendAPIError ''NOT_FOUND'' ''paste not found'', w\<lparr>w_db := d1\<rparr>)
           | Inr d2 \<Rightarrow>
               (deleted_reply, refreshActiveTokenGauge e
                  ((invalidatePasteCache pid (w\<lparr>w_db := d2\<rparr>))\<lparr>w_deleted := w_deleted w + 1\<rparr>))))"
  unfolding handle_DeletePaste_def is_operator_def Let_def by (simp only: if_False simp_thms)

text \<open>C6: Only the operator and the owner can delete. A delete request removes at most the one paste
  it names, and it removes that one only when it carries a token that is the operator's or
  that the token table holds, unrevoked and unexpired, for this very paste; otherwise it is
  answered with 401 or 404 and every paste stays.\<close>

theorem delete_needs_authority:
  assumes "schema_ok (w_db w)"
  shows "case handle_DeletePaste L h e r pid w of (rp, w') \<Rightarrow>
    rp_status rp \<in> {401, 404} \<and> paste_map (w_db w') = paste_map (w_db w) \<or>
    rp_status rp = 200 \<and> paste_map (w_db w) pid \<noteq> None \<and>
      paste_map (w_db w') = (paste_map (w_db w))(pid := None) \<and> extractToken L r \<noteq> [] \<and>
      (is_operator L h r \<or>
       authorises (e_now e) (hex_encode (lib_sha256 L (extractToken L r))) ''paste'' pid (w_db w))"
proof -
  consider "extractToken L r = []" | "extractToken L r \<noteq> []" "is_operator L h r"
    | "extractToken L r \<noteq> []" "\<not> is_operator L h r" by blast
  then show ?thesis
  proof cases
    case 1
    then show ?thesis by (simp add: handle_DeletePaste_def)
  next
    case 2
    then show ?thesis
      by (auto simp: handle_DeletePaste_def is_operator_def Let_def dest!: DeletePaste_map split: sum.splits)
  next
    case 3
    let ?v = "VerifyAPIToken (e_fault e CallVerify) (e_fault e CallTouch) (e_now e)
        (lib_sha256 L (extractToken L r)) ''paste'' pid (w_db w)"
    show ?thesis
    proof (cases ?v)
      case (Inl er)
      with 3 show ?thesis by (simp add: owner_delete)
    next
      case (Inr d1)
      with 3 Verify_authorises[OF assms Inr] Verify_map[OF Inr] show ?thesis
        by (cases "DeletePaste (e_fault e CallDelete) pid d1") (auto simp: owner_delete dest: DeletePaste_map)
    qed
  qed
qed

theorem delete_needs_authority_witness:
  "case handle_DeletePaste demo_lib demo_handler (demo_env 8 [] [])
      (demo_request [(''Authorization'', ''Bearer guess'')] []) ''XYZ01234'' burning_world of (rp, w') \<Rightarrow>
    rp_status rp \<in> {401, 404} \<and> paste_map (w_db w') = paste_map (w_db burning_world) \<or>
    rp_status rp = 200 \<and> paste_map (w_db burning_world) ''XYZ01234'' \<noteq> None \<and>
      paste_map (w_db w') = (paste_map (w_db burning_world))(''XYZ01234'' := None) \<and>
      extractToken demo_lib (demo_request [(''Authorization'', ''Bearer guess'')] []) \<noteq> [] \<and>
      (is_operator demo_lib demo_handler (demo_request [(''Authorization'', ''Bearer guess'')] []) \<or>
       authorises 8 (hex_encode (lib_sha256 demo_lib
         (extractToken demo_lib (demo_request [(''Authorization'', ''Bearer guess'')] [])))) ''paste'' ''XYZ01234''
         (w_db burning_world))"
  using served_ok[OF burning_served]
  by (intro delete_needs_authority[where e = "demo_env 8 [] []", unfolded demo_env_sel]) blast

subsection \<open>The owner token\<close>

definition bears :: "http_request \<Rightarrow> string \<Rightarrow> bool" where
  "bears r tok \<longleftrightarrow> tok \<noteq> [] \<and> rq_header r ''Authorization'' = ''Bearer '' @ tok"

lemma bears_token: "bears r tok \<Longrightarrow> extractToken L r = tok"
  by (simp add: bears_def extractToken_def trim_prefix_def has_prefix_def)

text \<open>The token row a creation leaves behind.\<close>

lemma created_token:
  assumes "schema_ok (w_db w)" and "createFromRequest L h e r w = (Inr resp, w1)"
  shows "w_db w1 = w_db w\<lparr>pastes := pastes (w_db w1), api_tokens := api_tokens (w_db w1), api_token_seq := api_token_seq (w_db w1)\<rparr>"
    and "\<not> e_fault e CallToken \<Longrightarrow>
      row_by tk_hash (hex_encode (lib_sha256 L (cr_OwnerToken resp))) (api_tokens (w_db w)) = None \<Longrightarrow>
      authorises u k rt ri (w_db w1) \<longleftrightarrow> authorises u k rt ri (w_db w) \<or>
        k = hex_encode (lib_sha256 L (cr_OwnerToken resp)) \<and> rt = ''paste'' \<and> ri = cr_ID resp \<and>
        (case cr_ExpiresAt resp of None \<Rightarrow> True | Some x \<Rightarrow> unix u < unix x)"
    and "row_by tk_hash (hex_encode (lib_sha256 L (cr_OwnerToken resp))) (api_tokens (w_db w)) \<noteq> None \<Longrightarrow>
      api_tokens (w_db w1) = api_tokens (w_db w)"
proof -
  from assms(2) obtain r1 q pid tok where
    per: "persist_paste h e r1 (build_paste (e_now e) pid q) tok (lib_sha256 L tok) w = (Inr resp, w1)"
    by (rule createFromRequest_Inr)
  note persist = persist_paste_Inr[OF per]
  let ?p = "normalized (e_now e) (build_paste (e_now e) pid q)"
  let ?d1 = "(w_db w)\<lparr>pastes := pastes (w_db w) @ [?p]\<rparr>"
  have tok: "cr_OwnerToken resp = tok" and ex: "cr_ExpiresAt resp = p_ExpiresAt ?p" and pid: "cr_ID resp = p_ID ?p"
    by (simp_all add: persist(6))
  have frame: "authorises u k rt ri ?d1 = authorises u k rt ri (w_db w)" for u k rt ri by (simp add: authorises_def)
  show "w_db w1 = w_db w\<lparr>pastes := pastes (w_db w1), api_tokens := api_tokens (w_db w1), api_token_seq := api_token_seq (w_db w1)\<rparr>"
    unfolding persist(2) by (simp add: created_db_def CreateAPIToken_def split: sum.splits)
  show "api_tokens (w_db w1) = api_tokens (w_db w)"
    if "row_by tk_hash (hex_encode (lib_sha256 L (cr_OwnerToken resp))) (api_tokens (w_db w)) \<noteq> None"
    using that unfolding persist(2) by (auto simp: created_db_def CreateAPIToken_def tok)
  assume ok: "\<not> e_fault e CallToken"
    and fresh: "row_by tk_hash (hex_encode (lib_sha256 L (cr_OwnerToken resp))) (api_tokens (w_db w)) = None"
  from ok fresh obtain d2 where d2: "CreateAPIToken (e_fault e CallToken) (e_now e) (hex_encode (lib_sha256 L tok))
      (take 12 tok) ''paste'' (p_ID ?p) (p_ExpiresAt ?p) ?d1 = Inr d2" by (auto simp: CreateAPIToken_def tok)
  then have "w_db w1 = d2" unfolding persist(2) by (simp add: created_db_def)
  with authorises_create[OF d2, of u k rt ri]
  show "authorises u k rt ri (w_db w1) \<longleftrightarrow> authorises u k rt ri (w_db w) \<or>
        k = hex_encode (lib_sha256 L (cr_OwnerToken resp)) \<and> rt = ''paste'' \<and> ri = cr_ID resp \<and>
        (case cr_ExpiresAt resp of None \<Rightarrow> True | Some x \<Rightarrow> unix u < unix x)"
    by (simp only: frame tok ex pid)
qed

lemma delete_verified:
  assumes "schema_ok (w_db w)" and "bears r tok" and "paste_map (w_db w) pid \<noteq> None"
    and "authorises (e_now e) (hex_encode (lib_sha256 L tok)) ''paste'' pid (w_db w)"
    and "\<not> e_fault e CallVerify" and "\<not> e_fault e CallDelete"
  shows "rp_status (fst (handle_DeletePaste L h e r pid w)) = 200 \<and>
    paste_map (w_db (snd (handle_DeletePaste L h e r pid w))) = (paste_map (w_db w))(pid := None)"
proof (cases "is_operator L h r")
  case True
  with assms(2,3,6) bears_token[OF assms(2), of L] show ?thesis
    by (auto simp: handle_DeletePaste_def is_operator_def DeletePaste_eq Let_def bears_def)
next
  case False
  from Verify_iff[OF assms(1)] assms(4) obtain d1 where
    d1: "VerifyAPIToken False (e_fault e CallTouch) (e_now e) (lib_sha256 L tok) ''paste'' pid (w_db w) = Inr d1"
    by blast
  have ne: "extractToken L r \<noteq> []" using assms(2) bears_token[OF assms(2), of L] by (simp add: bears_def)
  from owner_delete[OF ne False, of e pid w] d1 Verify_map[OF d1] assms(3,5,6) bears_token[OF assms(2), of L]
  show ?thesis by (auto simp: DeletePaste_eq)
qed

lemma delete_refused:
  assumes "schema_ok (w_db w)" and "bears r tok" and "\<not> is_operator L h r"
    and "\<not> authorises (e_now e) (hex_encode (lib_sha256 L tok)) ''paste'' pid (w_db w)"
  shows "rp_status (fst (handle_DeletePaste L h e r pid w)) = 404 \<and>
    w_db (snd (handle_DeletePaste L h e r pid w)) = w_db w"
proof -
  have ne: "extractToken L r \<noteq> []" using assms(2) bears_token[OF assms(2), of L] by (simp add: bears_def)
  obtain er where "VerifyAPIToken (e_fault e CallVerify) (e_fault e CallTouch) (e_now e) (lib_sha256 L tok) ''paste'' pid (w_db w) = Inl er"
  proof (cases "VerifyAPIToken (e_fault e CallVerify) (e_fault e CallTouch) (e_now e) (lib_sha256 L tok) ''paste'' pid (w_db w)")
    case (Inr d1)
    from Verify_Inr[OF this] Verify_rejects[OF assms(1,4)] show ?thesis by simp
  qed
  with owner_delete[OF ne assms(3), of e pid w] bears_token[OF assms(2), of L] show ?thesis by auto
qed

text \<open>C7: The owner token works, and works for its paste only. The token returned by a creation,
  presented before the paste's expiry second, deletes that paste: the pastes, as a map from
  identifiers, are then exactly those before the creation (the row of the token and the counter
  of token rows stay). The same token presented for any other paste by someone who is not the
  operator is answered with 404 and changes nothing in the database. Assumed are unique
  identifiers and token digests in the store, that the digest of the token's text was not in
  use, and that the statements which store the token, verify it and delete the paste do not
  fail.\<close>

theorem owner_token_deletes_its_paste:
  assumes "schema_ok (w_db w)" and "createFromRequest L h e r w = (Inr resp, w1)" and "\<not> e_fault e CallToken"
    and "row_by tk_hash (hex_encode (lib_sha256 L (cr_OwnerToken resp))) (api_tokens (w_db w)) = None"
    and "bears r2 (cr_OwnerToken resp)" and "\<not> e_fault e2 CallVerify" and "\<not> e_fault e2 CallDelete"
    and "case cr_ExpiresAt resp of None \<Rightarrow> True | Some x \<Rightarrow> unix (e_now e2) < unix x"
  shows "rp_status (fst (handle_DeletePaste L h e2 r2 (cr_ID resp) w1)) = 200 \<and>
    paste_map (w_db (snd (handle_DeletePaste L h e2 r2 (cr_ID resp) w1))) = paste_map (w_db w) \<and>
    (\<forall>pid. pid \<noteq> cr_ID resp \<longrightarrow> \<not> is_operator L h r2 \<longrightarrow>
       rp_status (fst (handle_DeletePaste L h e2 r2 pid w1)) = 404 \<and>
       w_db (snd (handle_DeletePaste L h e2 r2 pid w1)) = w_db w1)"
proof -
  obtain p where p: "paste_map (w_db w) (cr_ID resp) = None"
    "paste_map (w_db w1) = (paste_map (w_db w))(cr_ID resp \<mapsto> p)" "schema_ok (w_db w1)"
    by (rule created_row[OF assms(1,2)])
  note auth = created_token(2)[OF assms(1,2,3,4)]
  have none: "\<not> authorises u (hex_encode (lib_sha256 L (cr_OwnerToken resp))) rt ri (w_db w)" for u rt ri
    using assms(4) by (force simp: authorises_def row_by_None_iff image_iff)
  have "authorises (e_now e2) (hex_encode (lib_sha256 L (cr_OwnerToken resp))) ''paste'' (cr_ID resp) (w_db w1)"
    using assms(8) by (simp add: auth)
  from delete_verified[OF p(3) assms(5) _ this assms(6,7)] p(1,2)
  have "rp_status (fst (handle_DeletePaste L h e2 r2 (cr_ID resp) w1)) = 200 \<and>
    paste_map (w_db (snd (handle_DeletePaste L h e2 r2 (cr_ID resp) w1))) = paste_map (w_db w)"
    by (simp add: fun_upd_idem)
  moreover have "\<not> authorises (e_now e2) (hex_encode (lib_sha256 L (cr_OwnerToken resp))) ''paste'' pid (w_db w1)"
    if "pid \<noteq> cr_ID resp" for pid using that by (simp add: auth none)
  ultimately show ?thesis using delete_refused[OF p(3) assms(5)] by blast
qed

theorem owner_token_deletes_its_paste_witness:
  "rp_status (fst (handle_DeletePaste demo_lib demo_handler (demo_env 9 [] [])
     (demo_request [(''Authorization'', ''Bearer tok_JKL'')] []) ''XYZ01234'' demo_world1)) = 200"
proof -
  obtain resp where resp: "createFromRequest demo_lib demo_handler (demo_env 7 ''12345678'' ''abc'')
      (demo_request [(''X-Expires-In'', ''60'')] ''hello'') demo_world = (Inr resp, demo_world1)"
    and f: "cr_ID resp = ''XYZ01234''" "cr_OwnerToken resp = ''tok_JKL''" "cr_ExpiresAt resp = Some 60000000007"
    using demo_created by blast
  have "schema_ok (w_db demo_world)" by (simp add: schema_ok_empty)
  from owner_token_deletes_its_paste[OF this resp, of "demo_request [(''Authorization'', ''Bearer tok_JKL'')] []" "demo_env 9 [] []"]
  show ?thesis by (simp add: f row_by_def bears_def demo_request_def opt_str_def unix_def Second_def)
qed

text \<open>A token that is offered again at creation does not own the new paste. The creation accepts
  it and returns it as the owner token of the second paste, but the token table holds one
  row per token text, so the row still names the first paste and deleting the second one
  with the returned token is refused.\<close>

theorem reused_token_owns_nothing_new:
  assumes "schema_ok (w_db w)" and "createFromRequest L h e r w = (Inr resp, w1)"
    and "row_by tk_hash (hex_encode (lib_sha256 L (cr_OwnerToken resp))) (api_tokens (w_db w)) = Some old"
    and "tk_resource_id old \<noteq> cr_ID resp"
    and "bears r2 (cr_OwnerToken resp)" and "\<not> is_operator L h r2"
  shows "rp_status (fst (handle_DeletePaste L h e2 r2 (cr_ID resp) w1)) = 404 \<and>
    paste_map (w_db (snd (handle_DeletePaste L h e2 r2 (cr_ID resp) w1))) (cr_ID resp) \<noteq> None"
proof -
  obtain p where p: "paste_map (w_db w1) = (paste_map (w_db w))(cr_ID resp \<mapsto> p)" "schema_ok (w_db w1)"
    by (rule created_row[OF assms(1,2)])
  have "api_tokens (w_db w1) = api_tokens (w_db w)" using created_token(3)[OF assms(1,2)] assms(3) by simp
  moreover have "r = old" if "r \<in> set (api_tokens (w_db w))" "tk_hash r = hex_encode (lib_sha256 L (cr_OwnerToken resp))" for r
    using that assms(3) row_by_Some_iff[OF token_schemaD(1)[OF assms(1)]] by (metis option.inject)
  ultimately have "\<not> authorises (e_now e2) (hex_encode (lib_sha256 L (cr_OwnerToken resp))) ''paste'' (cr_ID resp) (w_db w1)"
    using assms(4) by (auto simp: authorises_def)
  from delete_refused[OF p(2) assms(5,6) this] p(1) show ?thesis by simp
qed

text \<open>A deployment that knows one token, bound to another paste.\<close>

definition old_token :: api_token_row where
  "old_token = \<lparr>tk_id = 1, tk_hash = hex_encode ''tok_old'', tk_prefix = ''tok_old'', tk_resource_type = ''paste'',
     tk_resource_id = ''aa'', tk_created_at = 0, tk_expires_at = None, tk_last_used_at = None, tk_revoked_at = None,
     tk_revoked_reason = None\<rparr>"

definition reuse_world :: world where
  "reuse_world = demo_world\<lparr>w_db := empty_db\<lparr>api_tokens := [old_token], api_token_seq := 1\<rparr>\<rparr>"

abbreviation reuse_request :: "bytes \<Rightarrow> http_request" where
  "reuse_request \<equiv> demo_request [(''Authorization'', ''Bearer tok_old'')]"

theorem reused_token_owns_nothing_new_witness:
  "\<exists>resp w1. createFromRequest demo_lib demo_handler (demo_env 7 ''12345678'' ''abc'') (reuse_request ''hello'') reuse_world
      = (Inr resp, w1) \<and> cr_OwnerToken resp = ''tok_old'' \<and>
    rp_status (fst (handle_DeletePaste demo_lib demo_handler (demo_env 9 [] []) (reuse_request []) (cr_ID resp) w1)) = 404"
proof -
  let ?q = "zero_create_request\<lparr>q_Content := ''hello''\<rparr>" and ?e = "demo_env 7 ''12345678'' ''abc''"
  have db: "w_db reuse_world = empty_db\<lparr>api_tokens := [old_token], api_token_seq := 1\<rparr>" by (simp add: reuse_world_def)
  have p: "parse_create demo_lib demo_handler (reuse_request ''hello'') = Inr (?q, reuse_request [])"
    by (simp add: parse_create_def readLimited_def effectiveReadLimit_def maxSize_def defaultMaxSizeBytes_def
        demo_defs body_bytes_def opt_str_def has_prefix_def wrap64_def zero_create_request_def)
  have n: "normalize_content demo_lib ?q = Inr ?q"
    by (simp add: normalize_content_def isSingleURLContent_def contains_any_def has_prefix_def demo_trim
        demo_lib_def zero_create_request_def trim_right_char_def)
  have i: "find_unique_id ?e (w_db reuse_world) 0 10 = Inr ''XYZ01234''"
    using find_unique_id.simps(2)[of ?e "w_db reuse_world" 0 9]
    by (simp add: generateID_def GetPasteByID_def row_by_def db empty_db_def demo_env_def idCharset_def)
  have t: "resolve_token demo_lib ?e (reuse_request []) (w_db reuse_world) = Inr (''tok_old'', ''tok_old'')"
    by (simp add: resolve_token_def extractToken_def demo_request_def demo_lib_def opt_str_def trim_prefix_def has_prefix_def
        ValidateAPIToken_def db old_token_def order_desc_def limit_offset_def Let_def)
  have m: "paste_map (w_db reuse_world) = Map.empty" by (simp add: db paste_map_def empty_db_def row_by_def fun_eq_iff)
  obtain resp w1 where resp: "createFromRequest demo_lib demo_handler ?e (reuse_request ''hello'') reuse_world = (Inr resp, w1)"
    and f: "cr_ID resp = ''XYZ01234''" "cr_OwnerToken resp = ''tok_old''"
    by (rule create_succeeds[OF p n i t]) (simp_all add: m)
  have ok: "schema_ok (w_db reuse_world)" by (simp add: db schema_ok_def empty_db_def old_token_def)
  have "rp_status (fst (handle_DeletePaste demo_lib demo_handler (demo_env 9 [] []) (reuse_request []) (cr_ID resp) w1)) = 404 \<and>
    paste_map (w_db (snd (handle_DeletePaste demo_lib demo_handler (demo_env 9 [] []) (reuse_request []) (cr_ID resp) w1))) (cr_ID resp) \<noteq> None"
    by (rule reused_token_owns_nothing_new[OF ok resp, where old = old_token])
       (simp_all add: f db row_by_def old_token_def demo_lib_def bears_def demo_request_def opt_str_def is_operator_def demo_handler_def)
  with resp f show ?thesis by blast
qed

subsection \<open>Text that is not UTF-8\<close>

lemma no_burn: "p_BurnAfter q \<le> 0 \<Longrightarrow> \<not> burns q"
  by (simp add: burns_def)

lemma count_view_cache:
  "\<not> burns q \<Longrightarrow> paste_map (w_db w) pid = Some q \<Longrightarrow> w_cache (snd (count_view e pid p w)) = w_cache w"
  by (cases "e_fault e CallView") (simp_all add: count_view_def IncrementViewsAndCheckBurn_eq, simp add: IncrementViewsAndCheckBurn_def)

text \<open>The cache is not transparent for text that is not valid UTF-8. The first download of a paste
  returns the stored bytes; a second one, while the copy in the cache lives, returns their
  image under the JSON coding, in which every byte that is not part of a UTF-8 sequence is
  replaced. For valid UTF-8 the two agree.\<close>

theorem second_download_is_coerced:
  assumes "w_cache w = Some (MemoryCache c)" and "mc_data c (mc_key c (pasteCacheKey pid)) = None"
    and "paste_map (w_db w) pid = Some q" and "p_BurnAfter q = 0" and "p_ExpiresAt q = None"
    and "\<not> e_fault e CallGet" and "0 \<le> e_now e" and "e_now e2 \<le> e_now e + pasteCacheTTL"
  shows "rp_body (fst (GetRawPaste L e pid w)) = Raw (raw_body q) \<and>
    rp_body (fst (GetRawPaste L e2 pid (snd (GetRawPaste L e pid w)))) = Raw (raw_body (json_roundtrip q)) \<and>
    (utf8_valid (p_Content q) \<longrightarrow> utf8_valid (p_ContentType q) \<longrightarrow> raw_body (json_roundtrip q) = raw_body q)"
proof -
  let ?k = "pasteCacheKey pid"
  let ?c = "mem_Set (e_now e) ?k (json_roundtrip q) pasteCacheTTL c"
  have id: "p_ID q = pid" using assms(3) by (rule paste_map_ID)
  have ex: "\<not> expired_before t q" "\<not> expired_before t (json_roundtrip q)" for t
    using assms(5) by (simp_all add: expired_before_def json_roundtrip_def)
  have l1: "lookup_paste e pid w = (Inr (Some q), w\<lparr>w_cache := Some (MemoryCache ?c)\<rparr>)"
    using assms(1-4,6) by (simp add: lookup_paste_def getCachedPaste_def mem_Get_def GetPasteByID_eq cachePaste_def id)
  then have 1: "GetRawPaste L e pid w = (raw_reply L q, snd (count_view e pid q (w\<lparr>w_cache := Some (MemoryCache ?c)\<rparr>)))"
    by (simp add: GetRawPaste_def loadLivePaste_eq ex)
  have cc: "w_cache (snd (GetRawPaste L e pid w)) = Some (MemoryCache ?c)"
    using count_view_cache[OF no_burn, of q] assms(3,4) by (simp add: 1)
  have "mem_Get (e_now e2) ?k ?c = (Some (json_roundtrip q), ?c)"
    using assms(7,8) by (simp add: mem_Get_def mem_Set_def entry_expired_def pasteCacheTTL_def Minute_def IsZero_def zero_time_def Let_def)
  then have "\<exists>w2. lookup_paste e2 pid (snd (GetRawPaste L e pid w)) = (Inr (Some (json_roundtrip q)), w2)"
    using assms(4) by (simp add: lookup_paste_def getCachedPaste_def cc)
  then have 2: "\<exists>w2. GetRawPaste L e2 pid (snd (GetRawPaste L e pid w)) = (raw_reply L (json_roundtrip q), w2)"
    by (auto simp: GetRawPaste_def[of L e2] loadLivePaste_eq ex)
  have "raw_body (json_roundtrip q) = raw_body q" if "utf8_valid (p_Content q)" "utf8_valid (p_ContentType q)"
    using that by (simp add: raw_body_def json_roundtrip_def utf8_coerce_valid split: option.splits)
  with 1 2 show ?thesis by auto
qed

definition latin_world :: world where
  "latin_world = demo_world\<lparr>w_db := empty_db\<lparr>pastes := [zero_paste\<lparr>p_ID := ''aa'', p_Content := [CHR 0xE9]\<rparr>]\<rparr>\<rparr>"

theorem second_download_is_coerced_witness:
  "rp_body (fst (GetRawPaste demo_lib (demo_env 5 [] []) ''aa'' latin_world)) = Raw [CHR 0xE9] \<and>
   rp_body (fst (GetRawPaste demo_lib (demo_env 6 [] []) ''aa''
     (snd (GetRawPaste demo_lib (demo_env 5 [] []) ''aa'' latin_world)))) = Raw [CHR 0xEF, CHR 0xBF, CHR 0xBD]"
proof -
  let ?q = "zero_paste\<lparr>p_ID := ''aa'', p_Content := [CHR 0xE9]\<rparr>"
  have q: "paste_map (w_db latin_world) ''aa'' = Some ?q" by (simp add: latin_world_def paste_map_def row_by_def)
  have raw: "raw_body ?q = [CHR 0xE9]" "raw_body (json_roundtrip ?q) = [CHR 0xEF, CHR 0xBF, CHR 0xBD]" by code_simp+
  have c: "w_cache latin_world = Some (MemoryCache (newMemoryCache ''pastebin:'' Hour))"
    by (simp add: latin_world_def demo_world_def)
  have "rp_body (fst (GetRawPaste demo_lib (demo_env 5 [] []) ''aa'' latin_world)) = Raw (raw_body ?q) \<and>
   rp_body (fst (GetRawPaste demo_lib (demo_env 6 [] []) ''aa''
     (snd (GetRawPaste demo_lib (demo_env 5 [] []) ''aa'' latin_world)))) = Raw (raw_body (json_roundtrip ?q)) \<and>
   (utf8_valid (p_Content ?q) \<longrightarrow> utf8_valid (p_ContentType ?q) \<longrightarrow> raw_body (json_roundtrip ?q) = raw_body ?q)"
    by (rule second_download_is_coerced[OF c _ q])
       (simp_all add: newMemoryCache_def zero_paste_def pasteCacheTTL_def Minute_def)
  with raw show ?thesis by simp
qed

end
