(* ===== verification/Compat_Handler.thy ===== *)
theory Compat_Handler
  imports Handler_Access
begin

section \<open>The compatibility handlers\<close>

text \<open>
  \<^verbatim>\<open>src/src/handler/compat.go\<close>: the wire protocols of other paste services over the same store.
  They share \<^verbatim>\<open>createPasteInternal\<close>, read the database without the cache, and delete with a
  token whose hash is kept in the paste row itself instead of the token table. Every
  operation has the shape of the native handlers.
\<close>

subsection \<open>Forms and the shared creation\<close>

definition limited :: "paste_handler \<Rightarrow> http_request \<Rightarrow> http_request" where
  "limited h r = r\<lparr>rq_maxbytes := Some (effectiveReadLimit h)\<rparr>"

definition parseFormLimited ::
  "golib \<Rightarrow> paste_handler \<Rightarrow> http_request \<Rightarrow> form_error + (string \<Rightarrow> string)" where
  "parseFormLimited L h r =
     (case ParseForm L (limited h r) of
        (_, Some er) \<Rightarrow> Inl er
      | (f, None) \<Rightarrow> Inr (form_value r f))"

definition store_form :: "golib \<Rightarrow> bytes \<Rightarrow> string \<times> bytes" where
  "store_form L content =
     (if content = [] then ([], content)
      else (let detected = lib_detect L (take 512 content)
            in if has_prefix detected ''text/'' then ([], content) else (detected, b64_encode content)))"

definition createPasteInternal ::
  "golib \<Rightarrow> env \<Rightarrow> string \<Rightarrow> bytes \<Rightarrow> string \<Rightarrow> int \<Rightarrow> int \<Rightarrow> instant option \<Rightarrow> world
     \<Rightarrow> (string \<times> string) option \<times> world" where
  "createPasteInternal L e title content lang vis burnAfter expiresAt w =
     (let title' = (if title = [] then ''Untitled'' else title);
          lang' = (if lang = [] then ''text'' else lang);
          (contentType, content') = store_form L content
      in case find_unique_id e (w_db w) 0 10 of
           Inl _ \<Rightarrow> (None, w)
         | Inr pasteID \<Rightarrow>
             (case e_tokrand e of
                None \<Rightarrow> (None, w)
              | Some rawBytes \<Rightarrow>
                  (let deleteToken = hex_encode rawBytes;
                       p = zero_paste\<lparr>p_ID := pasteID, p_Title := title', p_Content := content',
                             p_ContentType := contentType, p_Language := lang', p_Visibility := vis,
                             p_ExpiresAt := expiresAt, p_BurnAfter := burnAfter,
                             p_DeleteTokenHash := HashToken L deleteToken\<rparr>
                   in case CreatePaste (e_fault e CallCreate) (e_now e) p (w_db w) of
                        Inl _ \<Rightarrow> (None, w)
                      | Inr (_, d') \<Rightarrow> (Some (pasteID, deleteToken), w\<lparr>w_db := d'\<rparr>))))"

text \<open>An expiry given as a count of some unit, multiplied in 64 bits.\<close>

definition unit_expiry :: "instant \<Rightarrow> duration \<Rightarrow> string \<Rightarrow> instant option" where
  "unit_expiry now u s =
     (case ParseInt s of
        (n, None) \<Rightarrow> if n > 0 then Some (now + wrap64 (n * u)) else None
      | (_, Some _) \<Rightarrow> None)"

definition or_text :: "string \<Rightarrow> string" where
  "or_text lang = (if lang = [] then ''text'' else lang)"

definition origin :: "paste_handler \<Rightarrow> http_request \<Rightarrow> string" where
  "origin h r = base h r"

definition rawURL :: "paste_handler \<Rightarrow> http_request \<Rightarrow> string \<Rightarrow> string" where
  "rawURL h r pid = origin h r @ ''/raw/'' @ pid"

definition json_error :: "int \<Rightarrow> string \<Rightarrow> reply" where
  "json_error status msg = writeJSON status (JObj [(''error'', JStr msg)])"

text \<open>The lookup of the compatibility readers: the database only, and an expired row is removed
  (its cached copy is left to its own expiry check).\<close>

definition compat_lookup :: "env \<Rightarrow> string \<Rightarrow> world \<Rightarrow> paste option \<times> world" where
  "compat_lookup e pid w =
     (case GetPasteByID (e_fault e CallGet) pid (w_db w) of
        Inl _ \<Rightarrow> (None, w)
      | Inr None \<Rightarrow> (None, w)
      | Inr (Some p) \<Rightarrow>
          if expired_before (e_now e) p
          then (None, w\<lparr>w_db := (case DeletePaste (e_fault e CallDelete) pid (w_db w) of
                                   Inl _ \<Rightarrow> w_db w | Inr d' \<Rightarrow> d')\<rparr>)
          else (Some p, w))"

text \<open>Counting a reading without the view metric.\<close>

definition compat_view :: "env \<Rightarrow> string \<Rightarrow> world \<Rightarrow> int option \<times> world" where
  "compat_view e pid w =
     (case IncrementViewsAndCheckBurn (e_fault e CallView) (e_now e) pid (w_db w) of
        Inl _ \<Rightarrow> (None, w)
      | Inr (views, burned, d') \<Rightarrow>
          (Some views,
           (if burned then (invalidatePasteCache pid (w\<lparr>w_db := d'\<rparr>))\<lparr>w_deleted := w_deleted w + 1\<rparr>
            else w\<lparr>w_db := d'\<rparr>)))"

subsection \<open>pastebin.com\<close>

definition parsePastebinExpiry :: "instant \<Rightarrow> string \<Rightarrow> instant option" where
  "parsePastebinExpiry now code =
     (if code = ''10M'' then Some (now + 10 * Minute)
      else if code = ''1H'' then Some (now + Hour)
      else if code = ''1D'' then Some (now + 24 * Hour)
      else if code = ''1W'' then Some (now + 7 * 24 * Hour)
      else if code = ''2W'' then Some (now + 14 * 24 * Hour)
      else if code = ''1M'' then Some (now + 30 * 24 * Hour)
      else if code = ''6M'' then Some (now + 180 * 24 * Hour)
      else if code = ''1Y'' then Some (now + 365 * 24 * Hour)
      else None)"

definition pastebinCreate ::
  "golib \<Rightarrow> paste_handler \<Rightarrow> env \<Rightarrow> http_request \<Rightarrow> (string \<Rightarrow> string) \<Rightarrow> world \<Rightarrow> reply \<times> world" where
  "pastebinCreate L h e r fv w =
     (let content = fv ''api_paste_code''
      in if trim_space content = []
         then (http_Error (''Bad API request, the value you use for '' @ [CHR 0x27] @ ''api_paste_code'' @ [CHR 0x27]
                 @ '' is empty.'') 400, w)
         else
           (let priv = fv ''api_paste_private'';
                vis = (if priv = ''1'' \<or> priv = ''2'' then VisibilityUnlisted else VisibilityPublic)
            in case createPasteInternal L e (fv ''api_paste_name'') content (or_text (fv ''api_paste_format'')) vis 0
                      (parsePastebinExpiry (e_now e) (fv ''api_paste_expire_date'')) w of
                 (None, w') \<Rightarrow> (http_Error ''internal server error'' 500, w')
               | (Some (pasteID, _), w') \<Rightarrow> (text_reply 200 (pasteURL h r pasteID), w')))"

definition replace_char :: "char \<Rightarrow> string \<Rightarrow> string \<Rightarrow> string" where
  "replace_char c new s = concat (map (\<lambda>x. if x = c then new else [x]) s)"

definition xmlEscape :: "string \<Rightarrow> string" where
  "xmlEscape s =
     (let s1 = replace_char CHR ''&'' ''&amp;'' s;
          s2 = replace_char CHR ''<'' ''&lt;'' s1;
          s3 = replace_char CHR ''>'' ''&gt;'' s2;
          s4 = replace_char CHR 0x22 ''&quot;'' s3
      in replace_char CHR 0x27 ''&#39;'' s4)"

definition xml_item :: "paste_list_item \<Rightarrow> string" where
  "xml_item p =
     ''<paste><paste_key>'' @ xmlEscape (li_ID p) @ ''</paste_key><paste_title>'' @ xmlEscape (li_Title p) @
     ''</paste_title><paste_date>'' @ show_int (unix (li_CreatedAt p)) @
     ''</paste_date><paste_expire_date>'' @
     (case li_ExpiresAt p of None \<Rightarrow> ''0'' | Some t \<Rightarrow> show_int (unix t)) @
     ''</paste_expire_date><paste_hits>'' @ show_int (li_Views p) @
     ''</paste_hits><paste_private>0</paste_private></paste>''"

definition xml_reply :: "string \<Rightarrow> reply" where
  "xml_reply s = \<lparr>rp_status = 200, rp_header = [''Content-Type'' \<mapsto> ''text/xml; charset=utf-8''], rp_body = Text s\<rparr>"

definition pastebinList :: "env \<Rightarrow> (string \<Rightarrow> string) \<Rightarrow> world \<Rightarrow> reply \<times> world" where
  "pastebinList e fv w =
     (let limit = fst (Atoi (fv ''api_results_limit''));
          limit1 = (if limit < 1 then 50 else limit);
          limit2 = (if limit1 > 1000 then 1000 else limit1)
      in case GetPublicPastes (e_fault e CallPublic) (e_now e) 1 limit2 (w_db w) of
           Inl _ \<Rightarrow> (http_Error ''internal server error'' 500, w)
         | Inr (items, _) \<Rightarrow> (xml_reply (''<pastes>'' @ concat (map xml_item items) @ ''</pastes>''), w))"

definition pastebinDelete :: "golib \<Rightarrow> env \<Rightarrow> (string \<Rightarrow> string) \<Rightarrow> world \<Rightarrow> reply \<times> world" where
  "pastebinDelete L e fv w =
     (let pid = fv ''api_paste_key''; token = fv ''api_user_key''
      in if pid = [] then (http_Error ''Bad API request, you need to be logged in to delete a paste.'' 400, w)
         else if token = [] \<or> token = ''ANONYMOUS''
         then (http_Error ''Bad API request, you are not authorized to delete this paste.'' 403, w)
         else case DeletePasteByToken (e_fault e CallDeleteByToken) (e_fault e CallDelete) pid (HashToken L token) (w_db w) of
                Inl _ \<Rightarrow> (http_Error ''Bad API request, invalid paste ID.'' 404, w)
              | Inr d' \<Rightarrow> (text_reply 200 ''Paste Removed'', w\<lparr>w_db := d'\<rparr>))"

definition pastebinUserDetails :: reply where
  "pastebinUserDetails = xml_reply (''<user><user_name>anonymous</user_name><user_email></user_email>'' @
     ''<user_website></user_website><user_avatar_url></user_avatar_url><user_location></user_location>'' @
     ''<user_account_type>0</user_account_type><user_private>0</user_private>'' @
     ''<user_format_short>text</user_format_short><user_expiration>N</user_expiration></user>'')"

definition PastebinPost :: "golib \<Rightarrow> paste_handler \<Rightarrow> env \<Rightarrow> http_request \<Rightarrow> world \<Rightarrow> reply \<times> world" where
  "PastebinPost L h e r w =
     (case parseFormLimited L h r of
        Inl FormTooLarge \<Rightarrow> (http_Error ''Bad API request, paste exceeds the maximum allowed size.'' 413, w)
      | Inl FormInvalid \<Rightarrow> (http_Error ''Bad Request | invalid form'' 400, w)
      | Inr fv \<Rightarrow>
          if fv ''api_option'' = ''list'' then pastebinList e fv w
          else if fv ''api_option'' = ''delete'' then pastebinDelete L e fv w
          else if fv ''api_option'' = ''userdetails'' then (pastebinUserDetails, w)
          else pastebinCreate L h e r fv w)"

definition PastebinRaw :: "env \<Rightarrow> http_request \<Rightarrow> world \<Rightarrow> reply \<times> world" where
  "PastebinRaw e r w =
     (let pid = query_get r ''i''
      in if pid = [] then (http_Error ''Bad API request'' 400, w)
         else case compat_lookup e pid w of
                (None, w') \<Rightarrow> (http_Error ''Bad API request, invalid paste ID'' 404, w')
              | (Some p, w') \<Rightarrow> (text_reply 200 (p_Content p), snd (compat_view e pid w')))"

definition PastebinLogin :: reply where "PastebinLogin = text_reply 200 ''ANONYMOUS''"

subsection \<open>microbin\<close>

definition MicrobinCreate :: "golib \<Rightarrow> paste_handler \<Rightarrow> env \<Rightarrow> http_request \<Rightarrow> world \<Rightarrow> reply \<times> world" where
  "MicrobinCreate = handle_CreatePaste"

definition MicrobinGet :: "golib \<Rightarrow> env \<Rightarrow> http_request \<Rightarrow> string \<Rightarrow> world \<Rightarrow> reply \<times> world" where
  "MicrobinGet = GetPaste"

definition MicrobinDelete ::
  "golib \<Rightarrow> paste_handler \<Rightarrow> env \<Rightarrow> http_request \<Rightarrow> string \<Rightarrow> world \<Rightarrow> reply \<times> world" where
  "MicrobinDelete = handle_DeletePaste"

definition MicrobinList :: "env \<Rightarrow> http_request \<Rightarrow> world \<Rightarrow> reply \<times> world" where
  "MicrobinList = ListPastes"

subsection \<open>lenpaste\<close>

definition LenCreate :: "golib \<Rightarrow> paste_handler \<Rightarrow> env \<Rightarrow> http_request \<Rightarrow> world \<Rightarrow> reply \<times> world" where
  "LenCreate L h e r w =
     (case parseFormLimited L h r of
        Inl FormTooLarge \<Rightarrow> (json_error 413 ''body exceeds maximum paste size'', w)
      | Inl FormInvalid \<Rightarrow> (json_error 400 ''invalid form'', w)
      | Inr fv \<Rightarrow>
          (let content = fv ''body''
           in if trim_space content = [] then (json_error 400 ''body is required'', w)
              else
                (let burn = (if fv ''oneUse'' = ''true'' then 1 else 0)
                 in case createPasteInternal L e (fv ''title'') content (or_text (fv ''syntax'')) VisibilityPublic burn
                           (unit_expiry (e_now e) Second (fv ''expiration'')) w of
                      (None, w') \<Rightarrow> (json_error 500 ''failed to create paste'', w')
                    | (Some (pasteID, deleteToken), w') \<Rightarrow>
                        (writeJSON 200 (JObj [(''id'', JStr pasteID), (''url'', JStr (pasteURL h r pasteID)),
                           (''deleteToken'', JStr deleteToken)]), w'))))"

definition expiryUnix :: "instant option \<Rightarrow> int" where
  "expiryUnix t = (case t of None \<Rightarrow> 0 | Some x \<Rightarrow> unix x)"

definition LenGet :: "env \<Rightarrow> http_request \<Rightarrow> world \<Rightarrow> reply \<times> world" where
  "LenGet e r w =
     (let pid = query_get r ''id''
      in if pid = [] then (json_error 400 ''id is required'', w)
         else case GetPasteByID (e_fault e CallGet) pid (w_db w) of
                Inr (Some p) \<Rightarrow>
                  if expired_before (e_now e) p
                  then (json_error 404 ''paste has expired'', snd (compat_lookup e pid w))
                  else if p_BurnAfter p = 1 \<and> query_get r ''openOneUse'' \<noteq> ''true''
                  then (writeJSON 200 (JObj [(''id'', JStr (p_ID p)), (''oneUse'', JBool True)]), w)
                  else (let (views, w1) = compat_view e pid w
                        in (writeJSON 200 (JObj [(''id'', JStr (p_ID p)), (''title'', JStr (p_Title p)),
                              (''body'', JStr (p_Content p)), (''syntax'', JStr (p_Language p)),
                              (''oneUse'', JBool (p_BurnAfter p = 1)), (''createTime'', JInt (unix (p_CreatedAt p))),
                              (''deleteTime'', JInt (expiryUnix (p_ExpiresAt p))),
                              (''views'', JInt (case views of Some v \<Rightarrow> v | None \<Rightarrow> p_Views p + 1))]), w1))
              | _ \<Rightarrow> (json_error 404 ''paste not found'', w))"

definition LenRemove :: "golib \<Rightarrow> env \<Rightarrow> http_request \<Rightarrow> world \<Rightarrow> reply \<times> world" where
  "LenRemove L e r w =
     (let pid = query_get r ''id''; token = query_get r ''deleteToken''
      in if pid = [] \<or> token = [] then (json_error 400 ''id and deleteToken are required'', w)
         else case DeletePasteByToken (e_fault e CallDeleteByToken) (e_fault e CallDelete) pid (HashToken L token) (w_db w) of
                Inl _ \<Rightarrow> (json_error 404 ''paste not found or invalid token'', w)
              | Inr d' \<Rightarrow> (writeJSON 200 (JObj [(''message'', JStr ''paste deleted'')]), w\<lparr>w_db := d'\<rparr>))"

definition LenList :: "env \<Rightarrow> http_request \<Rightarrow> world \<Rightarrow> reply \<times> world" where
  "LenList e r w =
     (let page = fst (Atoi (query_get r ''page'')); page1 = (if page < 1 then 1 else page);
          limit = fst (Atoi (query_get r ''pageSize''));
          limit1 = (if limit < 1 \<or> limit > 100 then 20 else limit)
      in case GetPublicPastes (e_fault e CallPublic) (e_now e) page1 limit1 (w_db w) of
           Inl _ \<Rightarrow> (json_error 500 ''failed to fetch'', w)
         | Inr (items, tot) \<Rightarrow>
             (writeJSON 200 (JObj
                [(''pastes'', JArr (map (\<lambda>p. JMap [(''id'', JStr (li_ID p)), (''title'', JStr (li_Title p)),
                    (''syntax'', JStr (li_Language p)), (''createTime'', JInt (unix (li_CreatedAt p))),
                    (''views'', JInt (li_Views p))]) items)),
                 (''count'', JInt tot)]), w))"

definition LenServerInfo :: "string \<Rightarrow> string list \<Rightarrow> reply" where
  "LenServerInfo version languages = writeJSON 200 (JObj
     [(''version'', JStr version), (''titleMaxlength'', JInt 100), (''bodyMaxlength'', JInt (10 * 1024 * 1024)),
      (''maxLifeTime'', JInt (- 1)), (''serverAbout'', JStr []), (''serverRules'', JStr []),
      (''adminName'', JStr []), (''adminMail'', JStr []), (''syntaxes'', JArr (map JStr languages))])"

definition AuthStubRedirect :: "http_request \<Rightarrow> reply" where
  "AuthStubRedirect r = http_Redirect r ''/'' 302"

subsection \<open>stikked, hastebin, dpaste\<close>

definition StikkedCreate :: "golib \<Rightarrow> paste_handler \<Rightarrow> env \<Rightarrow> http_request \<Rightarrow> world \<Rightarrow> reply \<times> world" where
  "StikkedCreate L h e r w =
     (case parseFormLimited L h r of
        Inl FormTooLarge \<Rightarrow> (text_reply 413 ''Error: paste exceeds the maximum allowed size.'', w)
      | Inl FormInvalid \<Rightarrow> (text_reply 200 ''Error: invalid form'', w)
      | Inr fv \<Rightarrow>
          (let content = fv ''text''
           in if trim_space content = [] then (text_reply 200 ''Error: No paste data sent.'', w)
              else
                (let vis = (if fv ''private'' = ''1'' then VisibilityUnlisted else VisibilityPublic)
                 in case createPasteInternal L e (fv ''title'') content (or_text (fv ''lang'')) vis 0
                           (unit_expiry (e_now e) Minute (fv ''expire'')) w of
                      (None, w') \<Rightarrow> (text_reply 200 ''Error: could not create paste'', w')
                    | (Some (pasteID, _), w') \<Rightarrow> (text_reply 200 (origin h r @ ''/view/'' @ pasteID), w'))))"

definition StikkedJSON :: "env \<Rightarrow> string \<Rightarrow> world \<Rightarrow> reply \<times> world" where
  "StikkedJSON e pid w =
     (case compat_lookup e pid w of
        (None, w') \<Rightarrow> (json_error 404 ''paste not found'', w')
      | (Some p, w') \<Rightarrow>
          (writeJSON 200 (JObj [(''pid'', JStr (p_ID p)), (''title'', JStr (p_Title p)), (''name'', JStr []),
             (''created'', JInt (unix (p_CreatedAt p))), (''lang'', JStr (p_Language p)),
             (''raw'', JStr (p_Content p)), (''hits'', JInt (p_Views p))]), w'))"

definition HastebinCreate :: "golib \<Rightarrow> paste_handler \<Rightarrow> env \<Rightarrow> http_request \<Rightarrow> world \<Rightarrow> reply \<times> world" where
  "HastebinCreate L h e r w =
     (let r1 = limited h r; body = body_bytes r1
      in if body_overrun r1 \<or> trim_space body = []
         then (writeJSON 400 (JObj [(''message'', JStr ''no content'')]), w)
         else case createPasteInternal L e [] body ''text'' VisibilityPublic 0 None w of
                (None, w') \<Rightarrow> (writeJSON 500 (JObj [(''message'', JStr ''could not create document'')]), w')
              | (Some (pasteID, _), w') \<Rightarrow> (writeJSON 200 (JObj [(''key'', JStr pasteID)]), w'))"

definition HastebinGet :: "env \<Rightarrow> string \<Rightarrow> world \<Rightarrow> reply \<times> world" where
  "HastebinGet e pid w =
     (case compat_lookup e pid w of
        (None, w') \<Rightarrow> (writeJSON 404 (JObj [(''message'', JStr ''document not found'')]), w')
      | (Some p, w') \<Rightarrow>
          (writeJSON 200 (JObj [(''key'', JStr (p_ID p)), (''data'', JStr (p_Content p))]),
           snd (compat_view e pid w')))"

definition DpasteCreate :: "golib \<Rightarrow> paste_handler \<Rightarrow> env \<Rightarrow> http_request \<Rightarrow> world \<Rightarrow> reply \<times> world" where
  "DpasteCreate L h e r w =
     (case parseFormLimited L h r of
        Inl FormTooLarge \<Rightarrow> (http_Error ''content exceeds the maximum allowed size'' 413, w)
      | Inl FormInvalid \<Rightarrow> (http_Error ''invalid form'' 400, w)
      | Inr fv \<Rightarrow>
          (let content = fv ''content''
           in if trim_space content = [] then (http_Error ''This field is required.'' 400, w)
              else
                (let l1 = fv ''lexer''; l2 = (if l1 = [] then fv ''syntax'' else l1);
                     lang = or_text (if l2 = [] then fv ''filename'' else l2)
                 in case createPasteInternal L e [] content lang VisibilityPublic 0
                           (unit_expiry (e_now e) (24 * Hour) (fv ''expires'')) w of
                      (None, w') \<Rightarrow> (http_Error ''could not create snippet'' 500, w')
                    | (Some (pasteID, _), w') \<Rightarrow>
                        (let link = origin h r @ ''/'' @ pasteID
                         in (if fv ''format'' = ''url'' then text_reply 200 (link @ [CHR 0x0A])
                             else if fv ''format'' = ''json''
                             then writeJSON 200 (JObj [(''url'', JStr link), (''content'', JStr content), (''lexer'', JStr lang)])
                             else text_reply 200 (lib_quote L link), w')))))"

subsection \<open>Uploads to the root, and termbin\<close>

definition curlRespond ::
  "golib \<Rightarrow> paste_handler \<Rightarrow> env \<Rightarrow> http_request \<Rightarrow> bytes \<Rightarrow> string \<Rightarrow> bool \<Rightarrow> world \<Rightarrow> reply \<times> world" where
  "curlRespond L h e r content expires withToken w =
     (if trim_space content = [] then (http_Error ''no content'' 400, w)
      else case createPasteInternal L e [] content ''text'' VisibilityPublic 0 (unit_expiry (e_now e) Hour expires) w of
             (None, w') \<Rightarrow> (http_Error ''could not create paste'' 500, w')
           | (Some (pasteID, deleteToken), w') \<Rightarrow>
               (let rp = text_reply 200 (rawURL h r pasteID @ [CHR 0x0A])
                in (if withToken then rp\<lparr>rp_header := (rp_header rp)(''X-Token'' \<mapsto> deleteToken)\<rparr> else rp, w')))"

definition is_multipart :: "golib \<Rightarrow> http_request \<Rightarrow> bool" where
  "is_multipart L r \<longleftrightarrow> (case lib_parse_media L (rq_header r ''Content-Type'') of
     Some (mt, _) \<Rightarrow> mt = ''multipart/form-data'' \<or> mt = ''multipart/mixed'' | None \<Rightarrow> False)"

definition RootUpload :: "golib \<Rightarrow> paste_handler \<Rightarrow> env \<Rightarrow> http_request \<Rightarrow> world \<Rightarrow> reply \<times> world" where
  "RootUpload L h e r0 w =
     (let r = limited h r0; (f, er) = ParseForm L r; r1 = r\<lparr>rq_form := Some f\<rparr>;
          tooLarge = http_Error ''content exceeds the maximum allowed size'' 413;
          text_fields = (\<lambda>fv.
            if trim_space (fv ''sprunge'') \<noteq> [] then curlRespond L h e r1 (fv ''sprunge'') [] False w
            else if trim_space (fv ''f:1'') \<noteq> [] then curlRespond L h e r1 (fv ''f:1'') [] False w
            else handle_CreatePaste L h e r1 w)
      in if er = Some FormTooLarge then (tooLarge, w)
         else if is_multipart L r then
           (case ParseMultipartForm L r of
              Inl FormTooLarge \<Rightarrow> (tooLarge, w)
            | Inl FormInvalid \<Rightarrow> text_fields (form_value r f)
            | Inr mp \<Rightarrow>
                (case mp_file mp ''file'' of
                   Some (_, bytes) \<Rightarrow>
                     curlRespond L h e r1 (take (nat (effectiveReadLimit h)) bytes) (multipart_value r mp ''expires'') True w
                 | None \<Rightarrow> text_fields (multipart_value r mp)))
         else text_fields (form_value r f))"

definition trim_right_set :: "char list \<Rightarrow> string \<Rightarrow> string" where
  "trim_right_set cs s = rev (dropWhile (\<lambda>x. x \<in> set cs) (rev s))"

text \<open>One connection: the bytes the client sent, and whether reading them ended in an error.\<close>

definition TermbinServe ::
  "golib \<Rightarrow> env \<Rightarrow> bytes \<Rightarrow> bool \<Rightarrow> string \<Rightarrow> int \<Rightarrow> world \<Rightarrow> string \<times> world" where
  "TermbinServe L e sent readErr url limit w =
     (let got = take (nat (wrap64 (limit + 1))) sent
      in if readErr \<and> got = [] then (''Error: read failed'' @ [CHR 0x0A], w)
         else if int (length got) > limit then (''Error: paste too large'' @ [CHR 0x0A], w)
         else
           (let content = trim_right_set [CHR 0x0D, CHR 0x0A] got
            in if trim_space content = [] then (''Error: no content'' @ [CHR 0x0A], w)
               else case createPasteInternal L e [] content ''text'' VisibilityPublic 0 None w of
                      (None, w') \<Rightarrow> (''Error: could not create paste'' @ [CHR 0x0A], w')
                    | (Some (pasteID, _), w') \<Rightarrow>
                        (trim_right_char CHR ''/'' url @ ''/'' @ pasteID @ [CHR 0x0A], w')))"

end
