(* ===== verification/Compat_Properties.thy ===== *)
theory Compat_Properties
  imports Compat_Handler
begin

section \<open>Properties of the compatibility handlers\<close>

text \<open>
  The creation and deletion protocol shared by the compatibility handlers, the escaping of
  the XML listing, expiries counted in units, and where these handlers part from the native
  ones: they leave cached copies behind, read without counting, and cut off uploads.
\<close>

subsection \<open>Escaping\<close>

definition xml_char :: "char \<Rightarrow> string" where
  "xml_char c =
     (if c = CHR ''&'' then ''&amp;'' else if c = CHR ''<'' then ''&lt;'' else if c = CHR ''>'' then ''&gt;''
      else if c = CHR 0x22 then ''&quot;'' else if c = CHR 0x27 then ''&#39;'' else [c])"

lemma replace_char_simps [simp]:
  "replace_char c new [] = []"
  "replace_char c new (x # s) = (if x = c then new @ replace_char c new s else x # replace_char c new s)"
  "replace_char c new (s @ t) = replace_char c new s @ replace_char c new t"
  by (simp_all add: replace_char_def)

lemma xmlEscape_append: "xmlEscape (s @ t) = xmlEscape s @ xmlEscape t"
  by (simp add: xmlEscape_def)

lemma xmlEscape_single: "xmlEscape [c] = xml_char c"
  by (simp add: xmlEscape_def xml_char_def)

lemma xmlEscape_eq: "xmlEscape s = concat (map xml_char s)"
proof (induction s)
  case (Cons c s)
  then show ?case using xmlEscape_append[of "[c]" s] by (simp add: xmlEscape_single)
qed (simp add: xmlEscape_def)

text \<open>A reader of the escaped text: the five entities, everything else as it is.\<close>

definition xml_entities :: "(string \<times> char) list" where
  "xml_entities = [(''&amp;'', CHR ''&''), (''&lt;'', CHR ''<''), (''&gt;'', CHR ''>''), (''&quot;'', CHR 0x22),
     (''&#39;'', CHR 0x27)]"

fun xml_read :: "nat \<Rightarrow> string \<Rightarrow> string" where
  "xml_read 0 s = []"
| "xml_read (Suc n) [] = []"
| "xml_read (Suc n) (c # s) =
     (case find (\<lambda>(ent, x). has_prefix (c # s) ent) xml_entities of
        Some (ent, x) \<Rightarrow> x # xml_read n (drop (length ent) (c # s))
      | None \<Rightarrow> c # xml_read n s)"

lemma xml_read_char: "xml_read (Suc n) (xml_char c @ s) = c # xml_read n s"
  by (auto simp: xml_char_def xml_entities_def has_prefix_def)

text \<open>Titles cannot break the XML listing. The escaped text holds none of the characters that
  delimit elements and attributes, and reading the five entities back gives exactly the
  title that was escaped.\<close>

theorem xmlEscape_roundtrip:
  "set (xmlEscape s) \<inter> {CHR ''<'', CHR ''>'', CHR 0x22, CHR 0x27} = {} \<and>
   xml_read (length s) (xmlEscape s) = s"
proof
  have "set (xml_char c) \<inter> {CHR ''<'', CHR ''>'', CHR 0x22, CHR 0x27} = {}" for c
    by (simp add: xml_char_def)
  then show "set (xmlEscape s) \<inter> {CHR ''<'', CHR ''>'', CHR 0x22, CHR 0x27} = {}"
    unfolding xmlEscape_eq set_concat set_map by blast
  show "xml_read (length s) (xmlEscape s) = s"
    unfolding xmlEscape_eq by (induction s) (simp_all add: xml_read_char)
qed

subsection \<open>Expiries in units\<close>

text \<open>A number of units is exact as long as the product fits in 64 bits, and wraps beyond: a
  paste that a client asks to keep for 106752 days (dpaste, the first number of days that
  does not fit) is given an expiry centuries in the past.\<close>

theorem unit_expiry_wraps:
  assumes "0 < n" and "in_int64 n" and "0 < u" and "n * u \<le> max_int64"
  shows "unit_expiry now u (show_int n) = Some (now + n * u) \<and>
    (\<exists>t. unit_expiry now (24 * Hour) (show_int 106752) = Some t \<and> t < now - 200 * 365 * 24 * Hour)"
proof
  have "0 < n * u" using assms by simp
  then have "min_int64 \<le> n * u" by (simp add: min_int64_def)
  with assms have "wrap64 (n * u) = n * u" by (intro wrap64_id) simp
  with assms ParseInt_show_int[of n] show "unit_expiry now u (show_int n) = Some (now + n * u)"
    by (simp add: unit_expiry_def)
  show "\<exists>t. unit_expiry now (24 * Hour) (show_int 106752) = Some t \<and> t < now - 200 * 365 * 24 * Hour"
    using ParseInt_show_int[of 106752]
    by (simp add: unit_expiry_def Hour_def wrap64_def min_int64_def max_int64_def)
qed

theorem unit_expiry_wraps_witness:
  "unit_expiry 5 Minute (show_int 10) = Some (5 + 10 * Minute)"
  using unit_expiry_wraps[of 10 Minute 5] by (simp add: Minute_def min_int64_def max_int64_def)

subsection \<open>The delete token of a compatibility paste\<close>

lemma createPasteInternal_Some:
  assumes "createPasteInternal L e title content lang vis burn ex w = (Some (pid, tok), w')"
  obtains p where "paste_map (w_db w) pid = None" "paste_map (w_db w') = (paste_map (w_db w))(pid \<mapsto> p)"
    "pastes (w_db w') = pastes (w_db w) @ [p]" "w' = w\<lparr>w_db := (w_db w)\<lparr>pastes := pastes (w_db w) @ [p]\<rparr>\<rparr>"
    "p_ID p = pid" "p_DeleteTokenHash p = HashToken L tok" "p_BurnAfter p = burn" "p_Visibility p = vis"
    "p_ExpiresAt p = ex" "p_Views p = 0" "p_Title p \<noteq> []" "p_ContentType p = fst (store_form L content)"
    "p_Content p = snd (store_form L content)" "find_unique_id e (w_db w) 0 10 = Inr pid"
proof -
  obtain ct c where sf: "store_form L content = (ct, c)" by (cases "store_form L content")
  let ?p = "normalized (e_now e) (zero_paste\<lparr>p_ID := pid, p_Title := (if title = [] then ''Untitled'' else title),
      p_Content := c, p_ContentType := ct, p_Language := (if lang = [] then ''text'' else lang), p_Visibility := vis,
      p_ExpiresAt := ex, p_BurnAfter := burn, p_DeleteTokenHash := HashToken L tok\<rparr>)"
  have w': "paste_map (w_db w) pid = None" "w' = w\<lparr>w_db := (w_db w)\<lparr>pastes := pastes (w_db w) @ [?p]\<rparr>\<rparr>"
    "find_unique_id e (w_db w) 0 10 = Inr pid"
    using assms by (auto simp: createPasteInternal_def sf CreatePaste_eq Let_def
        split: sum.splits option.splits if_splits)
  then have "paste_map (w_db w') = (paste_map (w_db w))(pid \<mapsto> ?p)"
    using paste_map_insert[of "w_db w" ?p] by simp
  moreover have "p_Title ?p \<noteq> []" by (simp add: normalized_def)
  ultimately show ?thesis using w' by (intro that[of ?p]) (simp_all add: sf zero_paste_def)
qed

lemma createPasteInternal_None: "createPasteInternal L e title content lang vis burn ex w = (None, w') \<Longrightarrow> w' = w"
  by (auto simp: createPasteInternal_def Let_def split: sum.splits option.splits prod.splits if_splits)

lemma row_paste_map: "row_by p_ID pid (pastes d) = paste_map d pid"
  by (simp add: paste_map_def)

lemma DeletePasteByToken_map:
  assumes "DeletePasteByToken f g pid hash d = Inr d'"
  obtains p where "paste_map d pid = Some p" "p_DeleteTokenHash p = hash" "paste_map d' = (paste_map d)(pid := None)"
    "d' = d\<lparr>pastes := delete_where (\<lambda>p. p_ID p = pid) (pastes d)\<rparr>"
  using assms that
  by (auto simp: DeletePasteByToken_def row_paste_map split: if_splits option.splits)

text \<open>A lenpaste request to remove a paste.\<close>

definition removes :: "http_request \<Rightarrow> string \<Rightarrow> string \<Rightarrow> bool" where
  "removes r pid tok \<longleftrightarrow> rq_query r ''id'' = Some pid \<and> rq_query r ''deleteToken'' = Some tok"

text \<open>The delete token of a compatibility creation removes the new paste, leaving the store as it
  was before; and a removal only ever succeeds for a token whose digest is stored with the
  paste it names, and then takes away that paste alone.\<close>

theorem compat_token_removes:
  assumes "createPasteInternal L e title content lang vis burn ex w = (Some (pid, tok), w1)"
    and "pid \<noteq> []" and "tok \<noteq> []" and "removes r pid tok"
    and "\<not> e_fault e2 CallDeleteByToken" and "\<not> e_fault e2 CallDelete"
  shows "rp_status (fst (LenRemove L e2 r w1)) = 200 \<and>
    paste_map (w_db (snd (LenRemove L e2 r w1))) = paste_map (w_db w) \<and>
    (\<forall>e3 r3 w3. rp_status (fst (LenRemove L e3 r3 w3)) = 200 \<longrightarrow>
       (\<exists>p. paste_map (w_db w3) (query_get r3 ''id'') = Some p \<and>
            p_DeleteTokenHash p = HashToken L (query_get r3 ''deleteToken'') \<and>
            paste_map (w_db (snd (LenRemove L e3 r3 w3))) = (paste_map (w_db w3))(query_get r3 ''id'' := None)))"
proof -
  have q: "query_get r ''id'' = pid" "query_get r ''deleteToken'' = tok"
    using assms(4) by (simp_all add: removes_def query_get_def opt_str_def)
  obtain p where p: "paste_map (w_db w) pid = None" "paste_map (w_db w1) = (paste_map (w_db w))(pid \<mapsto> p)"
    "p_DeleteTokenHash p = HashToken L tok" using createPasteInternal_Some[OF assms(1)] by metis
  then have "DeletePasteByToken (e_fault e2 CallDeleteByToken) (e_fault e2 CallDelete) pid (HashToken L tok) (w_db w1) =
      Inr ((w_db w1)\<lparr>pastes := delete_where (\<lambda>p. p_ID p = pid) (pastes (w_db w1))\<rparr>)"
    using assms(5,6) by (simp add: DeletePasteByToken_def row_paste_map)
  with p q assms(2,3) have "rp_status (fst (LenRemove L e2 r w1)) = 200 \<and>
    paste_map (w_db (snd (LenRemove L e2 r w1))) = paste_map (w_db w)"
    by (simp add: LenRemove_def writeJSON_def fun_upd_idem)
  moreover have "\<exists>p. paste_map (w_db w3) (query_get r3 ''id'') = Some p \<and>
            p_DeleteTokenHash p = HashToken L (query_get r3 ''deleteToken'') \<and>
            paste_map (w_db (snd (LenRemove L e3 r3 w3))) = (paste_map (w_db w3))(query_get r3 ''id'' := None)"
    if "rp_status (fst (LenRemove L e3 r3 w3)) = 200" for e3 r3 w3
    using that by (auto simp: LenRemove_def json_error_def writeJSON_def Let_def split: if_splits sum.splits
        elim!: DeletePasteByToken_map)
  ultimately show ?thesis by blast
qed

lemma demo_internal:
  "\<exists>w1. createPasteInternal demo_lib (demo_env 7 ''12345678'' ''abc'') [] ''hello'' [] 0 0 None demo_world =
     (Some (''XYZ01234'', ''616263''), w1)"
proof -
  have "store_form demo_lib ''hello'' = ([], ''hello'')" by (simp add: store_form_def demo_lib_def has_prefix_def)
  moreover have "hex_encode ''abc'' = ''616263''" by code_simp
  moreover have "e_tokrand (demo_env 7 ''12345678'' ''abc'') = Some ''abc''" by (simp add: demo_env_def)
  ultimately show ?thesis
    by (simp add: createPasteInternal_def demo_rest(1) CreatePaste_eq Let_def)
qed

definition len_request :: http_request where
  "len_request = (demo_request [] [])\<lparr>rq_query := [''id'' \<mapsto> ''XYZ01234'', ''deleteToken'' \<mapsto> ''616263'']\<rparr>"

theorem compat_token_removes_witness:
  "\<exists>w1. createPasteInternal demo_lib (demo_env 7 ''12345678'' ''abc'') [] ''hello'' [] 0 0 None demo_world =
     (Some (''XYZ01234'', ''616263''), w1) \<and> rp_status (fst (LenRemove demo_lib (demo_env 8 [] []) len_request w1)) = 200"
proof -
  obtain w1 where w1: "createPasteInternal demo_lib (demo_env 7 ''12345678'' ''abc'') [] ''hello'' [] 0 0 None demo_world =
     (Some (''XYZ01234'', ''616263''), w1)" using demo_internal by blast
  from compat_token_removes[OF w1, of len_request "demo_env 8 [] []"] w1 show ?thesis
    by (simp add: removes_def len_request_def)
qed

subsection \<open>Where the compatibility handlers differ\<close>

text \<open>A removal through the compatibility handlers does not reach the cache. After a paste has been
  downloaded once (and is therefore cached) and then removed with its delete token, the
  store no longer has it, but another download within the lifetime of the cached copy is
  still answered with its content.\<close>

theorem compat_removal_leaves_cached_copy:
  assumes "w_cache w = Some (MemoryCache c)" and "mc_data c (mc_key c (pasteCacheKey pid)) = None"
    and "paste_map (w_db w) pid = Some q" and "p_BurnAfter q = 0" and "p_ExpiresAt q = None"
    and "p_DeleteTokenHash q = HashToken L tok" and "pid \<noteq> []" and "tok \<noteq> []" and "removes r pid tok"
    and "e_fault e = (\<lambda>_. False)" and "e_fault e1 = (\<lambda>_. False)"
    and "0 \<le> e_now e" and "e_now e2 \<le> e_now e + pasteCacheTTL"
  shows "let w1 = snd (GetRawPaste L e pid w); w2 = snd (LenRemove L e1 r w1); rp = fst (GetRawPaste L e2 pid w2)
    in rp_status (fst (LenRemove L e1 r w1)) = 200 \<and> paste_map (w_db w2) pid = None \<and>
       rp_status rp = 200 \<and> rp_body rp = Raw (raw_body (json_roundtrip q))"
proof -
  let ?k = "pasteCacheKey pid" and ?w1 = "snd (GetRawPaste L e pid w)"
  let ?c = "mem_Set (e_now e) ?k (json_roundtrip q) pasteCacheTTL c"
  let ?w2 = "snd (LenRemove L e1 r ?w1)"
  have id: "p_ID q = pid" using assms(3) by (rule paste_map_ID)
  have ex: "\<not> expired_before t q" "\<not> expired_before t (json_roundtrip q)" for t
    using assms(5) by (simp_all add: expired_before_def json_roundtrip_def)
  have nb: "\<not> burns q" using assms(4) by (simp add: burns_def)
  have l1: "lookup_paste e pid w = (Inr (Some q), w\<lparr>w_cache := Some (MemoryCache ?c)\<rparr>)"
    using assms(1-4,10) by (simp add: lookup_paste_def getCachedPaste_def mem_Get_def GetPasteByID_eq cachePaste_def id)
  then have w1: "?w1 = snd (count_view e pid q (w\<lparr>w_cache := Some (MemoryCache ?c)\<rparr>))"
    by (simp add: GetRawPaste_def loadLivePaste_eq ex)
  have c1: "w_cache ?w1 = Some (MemoryCache ?c)" and m1: "paste_map (w_db ?w1) pid = Some (viewed (e_now e) q)"
    unfolding w1 using count_view_cache[OF nb] assms(3,10) nb
    by (simp_all add: count_view_def IncrementViewsAndCheckBurn_eq)
  have q: "query_get r ''id'' = pid" "query_get r ''deleteToken'' = tok"
    using assms(9) by (simp_all add: removes_def query_get_def opt_str_def)
  have "DeletePasteByToken False False pid (HashToken L tok) (w_db ?w1) =
      Inr ((w_db ?w1)\<lparr>pastes := delete_where (\<lambda>p. p_ID p = pid) (pastes (w_db ?w1))\<rparr>)"
    using m1 assms(6) by (simp add: DeletePasteByToken_def row_paste_map)
  then have w2: "rp_status (fst (LenRemove L e1 r ?w1)) = 200" "paste_map (w_db ?w2) pid = None"
    "w_cache ?w2 = Some (MemoryCache ?c)"
    using assms(7,8,11) q c1 by (simp_all add: LenRemove_def writeJSON_def)
  have "mem_Get (e_now e2) ?k ?c = (Some (json_roundtrip q), ?c)"
    using assms(12,13) by (simp add: mem_Get_def mem_Set_def entry_expired_def pasteCacheTTL_def Minute_def IsZero_def zero_time_def Let_def)
  then have "\<exists>w3. lookup_paste e2 pid ?w2 = (Inr (Some (json_roundtrip q)), w3)"
    using assms(4) by (simp add: lookup_paste_def getCachedPaste_def w2(3))
  then have "fst (GetRawPaste L e2 pid ?w2) = raw_reply L (json_roundtrip q)"
    by (auto simp: GetRawPaste_def[of L e2] loadLivePaste_eq ex)
  with w2 show ?thesis by (simp add: Let_def)
qed

definition cached_world :: world where
  "cached_world = demo_world\<lparr>w_db := empty_db\<lparr>pastes :=
     [zero_paste\<lparr>p_ID := ''XYZ01234'', p_Content := ''secret'', p_DeleteTokenHash := HashToken demo_lib ''616263''\<rparr>]\<rparr>\<rparr>"

theorem compat_removal_leaves_cached_copy_witness:
  "let w1 = snd (GetRawPaste demo_lib (demo_env 5 [] []) ''XYZ01234'' cached_world);
       w2 = snd (LenRemove demo_lib (demo_env 6 [] []) len_request w1);
       rp = fst (GetRawPaste demo_lib (demo_env 7 [] []) ''XYZ01234'' w2)
   in paste_map (w_db w2) ''XYZ01234'' = None \<and> rp_status rp = 200 \<and> rp_body rp = Raw ''secret''"
proof -
  let ?q = "zero_paste\<lparr>p_ID := ''XYZ01234'', p_Content := ''secret'', p_DeleteTokenHash := HashToken demo_lib ''616263''\<rparr>"
  have q: "paste_map (w_db cached_world) ''XYZ01234'' = Some ?q" by (simp add: cached_world_def paste_map_def row_by_def)
  have c: "w_cache cached_world = Some (MemoryCache (newMemoryCache ''pastebin:'' Hour))"
    by (simp add: cached_world_def demo_world_def)
  have b: "raw_body (json_roundtrip ?q) = ''secret''" by code_simp
  have r: "removes len_request ''XYZ01234'' ''616263''" by (simp add: removes_def len_request_def)
  from compat_removal_leaves_cached_copy[OF c _ q _ _ _ _ _ r, of demo_lib "demo_env 5 [] []" "demo_env 6 [] []" "demo_env 7 [] []"] b
  show ?thesis by (simp add: Let_def newMemoryCache_def zero_paste_def pasteCacheTTL_def Minute_def)
qed

text \<open>The stikked reader hands out a paste without counting the reading. Reading a burn-after-reading
  paste through it, any number of times, returns its content each time and leaves the store
  as it is, so the limit never comes into play.\<close>

theorem stikked_read_never_burns:
  assumes "paste_map (w_db w) pid = Some p" and "\<not> e_fault e CallGet" and "\<not> expired_before (e_now e) p"
  shows "\<exists>rp. rp_status rp = 200 \<and> rp_body rp = JObj [(''pid'', JStr (p_ID p)), (''title'', JStr (p_Title p)),
      (''name'', JStr []), (''created'', JInt (unix (p_CreatedAt p))), (''lang'', JStr (p_Language p)),
      (''raw'', JStr (p_Content p)), (''hits'', JInt (p_Views p))] \<and>
    ((\<lambda>v. snd (StikkedJSON e pid v)) ^^ n) w = w \<and> StikkedJSON e pid w = (rp, w)"
proof -
  have 1: "StikkedJSON e pid w = (fst (StikkedJSON e pid w), w)"
    using assms by (simp add: StikkedJSON_def compat_lookup_def GetPasteByID_eq)
  then have "((\<lambda>v. snd (StikkedJSON e pid v)) ^^ n) w = w" by (induction n) (simp_all, metis snd_conv)
  with 1 assms show ?thesis
    by (intro exI[of _ "fst (StikkedJSON e pid w)"])
       (simp add: StikkedJSON_def compat_lookup_def GetPasteByID_eq writeJSON_def)
qed

theorem stikked_read_never_burns_witness:
  "((\<lambda>v. snd (StikkedJSON (demo_env 8 [] []) ''XYZ01234'' v)) ^^ 100) burning_world = burning_world"
  using stikked_read_never_burns[OF burning_row, of "demo_env 8 [] []" 100] burning_fields(3) by auto

text \<open>An upload to the root is cut off where the same upload to the native handler is refused. A raw
  body longer than the limit gets 413 from the native handler; posted to the root it passes
  through a bounded reader whose error is dropped, and what is created is a paste of the
  first bytes up to the limit.\<close>

theorem root_upload_truncates:
  assumes "raw_upload r" and "0 < n" and "n < max_int64" and "int (length (rq_body r)) > n"
    and "parses_body r" and "rq_form r = None" and "rq_query r = Map.empty"
    and "lib_parse_media L (if rq_header r ''Content-Type'' = [] then ''application/octet-stream''
           else rq_header r ''Content-Type'') = Some (mt, ps)"
    and "mt \<noteq> ''application/x-www-form-urlencoded''" and "\<not> is_multipart L r" and "\<And>b. lib_detect L b \<noteq> []"
  shows "let h' = SetMaxSize n h; r1 = (limited h' r)\<lparr>rq_form := Some Map.empty\<rparr>
   in rp_status (fst (handle_CreatePaste L h' e r w)) = 413 \<and>
    RootUpload L h' e r w = handle_CreatePaste L h' e r1 w \<and> rp_status (fst (RootUpload L h' e r w)) \<noteq> 413 \<and>
    (\<forall>resp w1. createFromRequest L h' e r1 w = (Inr resp, w1) \<longrightarrow>
      (\<exists>p. paste_map (w_db w1) (cr_ID resp) = Some p \<and> raw_body p = kept_bytes L (take (nat n) (rq_body r))))"
proof -
  define h' where "h' = SetMaxSize n h"
  define r1 where "r1 = (limited h' r)\<lparr>rq_form := Some Map.empty\<rparr>"
  have lim: "effectiveReadLimit h' = n"
    using assms(2) by (simp add: h'_def effectiveReadLimit_def SetMaxSize_def maxSize_def)
  have body: "body_bytes r1 = take (nat n) (rq_body r)" by (simp add: r1_def limited_def body_bytes_def lim)
  have parse: "parse_create L h' r1 = Inr (zero_create_request\<lparr>q_Content := take (nat n) (rq_body r),
      q_Title := rq_header r ''X-Title'', q_Language := rq_header r ''X-Language'',
      q_ExpiresIn := rq_header r ''X-Expires-In''\<rparr>, r1\<lparr>rq_body := []\<rparr>)"
    using assms(1-3) by (simp add: parse_create_def raw_upload_def lim body readLimited_eq Let_def)
       (simp add: r1_def limited_def)
  have "ParseForm L (limited h' r) = (Map.empty, None)"
    using assms(5,6,8,9) by (simp add: ParseForm_def limited_def parses_body_def)
  moreover have "is_multipart L (limited h' r) = is_multipart L r" by (simp add: is_multipart_def limited_def)
  moreover have "form_value (limited h' r) Map.empty k = []" for k
    using assms(7) by (simp add: form_value_def limited_def opt_str_def)
  ultimately have root: "RootUpload L h' e r w = handle_CreatePaste L h' e r1 w"
    using assms(10) by (simp add: RootUpload_def Let_def r1_def)
  have "rp_status (fst (handle_CreatePaste L h' e r1 w)) \<noteq> 413"
    unfolding create_status_413 create_413_parse by (simp add: parse)
  moreover have "rp_status (fst (handle_CreatePaste L h' e r w)) = 413"
    unfolding create_status_413 create_413_parse
    using parse_raw_upload[OF assms(1), of h' L] assms(2-4) lim by (simp add: too_large_def)
  moreover have "\<exists>p. paste_map (w_db w1) (cr_ID resp) = Some p \<and> raw_body p = kept_bytes L (take (nat n) (rq_body r))"
    if cr: "createFromRequest L h' e r1 w = (Inr resp, w1)" for resp w1
  proof -
    from cr obtain q0 r2 q pid tok where q0: "parse_create L h' r1 = Inr (q0, r2)" and
      q: "normalize_content L q0 = Inr q" and
      per: "persist_paste h' e r2 (build_paste (e_now e) pid q) tok (lib_sha256 L tok) w = (Inr resp, w1)"
      by (rule createFromRequest_Inr)
    note persist = persist_paste_Inr[OF per]
    from q0 parse have "q_Content q0 = take (nat n) (rq_body r)" "q_ContentType q0 = []"
      by (auto simp: zero_create_request_def)
    with raw_body_kept[OF q] assms(11) persist(3,6) show ?thesis by simp
  qed
  ultimately show ?thesis using root unfolding Let_def h'_def[symmetric] r1_def[symmetric] by simp
qed

theorem root_upload_truncates_witness:
  "rp_status (fst (handle_CreatePaste demo_lib (SetMaxSize 5 demo_handler) (demo_env 7 ''12345678'' ''abc'')
     (demo_request [] ''hello world'') demo_world)) = 413 \<and>
   rp_status (fst (RootUpload demo_lib (SetMaxSize 5 demo_handler) (demo_env 7 ''12345678'' ''abc'')
     (demo_request [] ''hello world'') demo_world)) \<noteq> 413"
proof -
  have raw: "raw_upload (demo_request [] ''hello world'')"
    by (simp add: raw_upload_def demo_request_def opt_str_def has_prefix_def)
  have mp: "\<not> is_multipart demo_lib (demo_request [] ''hello world'')"
    by (simp add: is_multipart_def demo_request_def demo_lib_def opt_str_def)
  have pm: "lib_parse_media demo_lib (if rq_header (demo_request [] ''hello world'') ''Content-Type'' = []
      then ''application/octet-stream'' else rq_header (demo_request [] ''hello world'') ''Content-Type'') =
      Some (''application/octet-stream'', [])"
    by (simp add: demo_request_def demo_lib_def opt_str_def)
  have rq: "int (length (rq_body (demo_request [] ''hello world''))) > 5" "parses_body (demo_request [] ''hello world'')"
    "rq_form (demo_request [] ''hello world'') = None" "rq_query (demo_request [] ''hello world'') = Map.empty"
    by (simp_all add: demo_request_def parses_body_def)
  have d: "lib_detect demo_lib b \<noteq> []" for b by (simp add: demo_lib_def)
  have n: "(0 :: int) < 5" "5 < max_int64" and ne: "''application/octet-stream'' \<noteq> ''application/x-www-form-urlencoded''"
    by (simp_all add: max_int64_def)
  from root_upload_truncates[OF raw n rq pm ne mp d, of demo_handler "demo_env 7 ''12345678'' ''abc''" demo_world,
      unfolded Let_def]
  show ?thesis by blast
qed

end
