(* ===== verification/Store_Invariant.thy ===== *)
theory Store_Invariant
  imports Compat_Properties
begin

section \<open>What holds of the store whatever is served\<close>

text \<open>
  All handlers, native and compatible, and the maintenance tasks as steps of one transition
  system on the world, and the invariant of the store that every one of them keeps.
\<close>

subsection \<open>The invariant\<close>

definition row_ok :: "paste \<Rightarrow> bool" where
  "row_ok p \<longleftrightarrow>
     p_ID p \<noteq> [] \<and> set (p_ID p) \<subseteq> set idCharset \<and> p_Title p \<noteq> [] \<and>
     p_Visibility p \<in> {VisibilityPublic, VisibilityUnlisted} \<and>
     0 \<le> p_BurnAfter p \<and> p_BurnAfter p \<le> 9999 \<and> 0 \<le> p_Views p \<and>
     (p_BurnAfter p > 0 \<longrightarrow> p_Views p < p_BurnAfter p)"

definition store_ok :: "db \<Rightarrow> bool" where
  "store_ok d \<longleftrightarrow> schema_ok d \<and> (\<forall>pid p. paste_map d pid = Some p \<longrightarrow> row_ok p)"

lemma store_ok_schema: "store_ok d \<Longrightarrow> schema_ok d"
  by (simp add: store_ok_def)

lemma store_ok_empty: "store_ok empty_db"
  by (simp add: store_ok_def schema_ok_empty)

lemma store_ok_shrink:
  "store_ok d \<Longrightarrow> schema_ok d' \<Longrightarrow> paste_map d' \<subseteq>\<^sub>m paste_map d \<Longrightarrow> store_ok d'"
  unfolding store_ok_def map_le_def by (metis domI)

lemma store_ok_insert:
  "store_ok d \<Longrightarrow> schema_ok d' \<Longrightarrow> paste_map d' = (paste_map d)(pid \<mapsto> p) \<Longrightarrow> row_ok p \<Longrightarrow> store_ok d'"
  by (auto simp: store_ok_def)

lemma remove_le: "(m(k := None)) \<subseteq>\<^sub>m m"
  by (simp add: map_le_def)

lemma store_ok_filter:
  assumes "store_ok d" and "schema_ok (d\<lparr>pastes := delete_where P (pastes d)\<rparr>)"
  shows "store_ok (d\<lparr>pastes := delete_where P (pastes d)\<rparr>)"
  using assms by (rule store_ok_shrink)
    (auto simp: map_le_def paste_map_delete_where[OF store_ok_schema[OF assms(1)]] split: option.splits if_splits)

subsection \<open>The statements keep it\<close>

lemma DeletePaste_store: "store_ok d \<Longrightarrow> DeletePaste f pid d = Inr d' \<Longrightarrow> store_ok d'"
  by (rule store_ok_shrink) (auto simp: remove_le intro: DeletePaste_schema store_ok_schema dest: DeletePaste_map)

lemma DeletePasteByToken_store: "store_ok d \<Longrightarrow> DeletePasteByToken f g pid hash d = Inr d' \<Longrightarrow> store_ok d'"
  by (rule store_ok_shrink)
     (auto simp: remove_le intro: DeletePasteByToken_schema store_ok_schema elim: DeletePasteByToken_map)

lemma row_ok_viewed: "row_ok q \<Longrightarrow> \<not> burns q \<Longrightarrow> row_ok (viewed now q)"
  by (auto simp: row_ok_def burns_def viewed_def)

lemma IncrementViews_store:
  assumes "store_ok d" and "IncrementViewsAndCheckBurn f now pid d = Inr (v, b, d')"
  shows "store_ok d'"
proof -
  from assms(2) obtain q where q: "paste_map d pid = Some q"
    "paste_map d' = (paste_map d)(pid := if burns q then None else Some (viewed now q))"
    by (rule IncrementViews_map)
  note schema = IncrementViews_schema[OF store_ok_schema[OF assms(1)] assms(2)]
  show ?thesis
  proof (cases "burns q")
    case True
    with q schema assms(1) show ?thesis by (intro store_ok_shrink[of d d']) (simp_all add: remove_le)
  next
    case False
    with q(1) assms(1) have "row_ok (viewed now q)" by (simp add: store_ok_def row_ok_viewed)
    with False q schema assms(1) show ?thesis by (intro store_ok_insert[of d d' pid]) simp_all
  qed
qed

lemma tokens_store: "store_ok d \<Longrightarrow> schema_ok d' \<Longrightarrow> pastes d' = pastes d \<Longrightarrow> store_ok d'"
  using paste_map_cong[of d' d] by (simp add: store_ok_def)

lemma find_unique_id_row: "find_unique_id e d 0 10 = Inr pid \<Longrightarrow> pid \<noteq> [] \<and> set pid \<subseteq> set idCharset"
  using find_unique_id_Inr generateID_chars by blast

lemma createPasteInternal_store:
  assumes "store_ok (w_db w)" and "vis \<in> {VisibilityPublic, VisibilityUnlisted}" and "0 \<le> burn" and "burn \<le> 9999"
  shows "store_ok (w_db (snd (createPasteInternal L e title content lang vis burn ex w)))"
proof (cases "createPasteInternal L e title content lang vis burn ex w")
  case (Pair res w')
  show ?thesis
  proof (cases res)
    case None
    with Pair assms createPasteInternal_None[of L e title content lang vis burn ex w w'] show ?thesis by simp
  next
    case (Some pt)
    obtain pid tok where pt: "pt = (pid, tok)" by (cases pt)
    from Pair Some pt have "createPasteInternal L e title content lang vis burn ex w = (Some (pid, tok), w')" by simp
    then obtain p where p: "paste_map (w_db w) pid = None" "paste_map (w_db w') = (paste_map (w_db w))(pid \<mapsto> p)"
      "w' = w\<lparr>w_db := (w_db w)\<lparr>pastes := pastes (w_db w) @ [p]\<rparr>\<rparr>" "p_ID p = pid" "p_BurnAfter p = burn"
      "p_Visibility p = vis" "p_Views p = 0" "p_Title p \<noteq> []" "find_unique_id e (w_db w) 0 10 = Inr pid"
      by (rule createPasteInternal_Some)
    then have "schema_ok (w_db w')"
      using schema_ok_insert_paste[OF store_ok_schema[OF assms(1)]] by simp
    moreover have "row_ok p" using p assms(2-4) find_unique_id_row[OF p(9)] by (simp add: row_ok_def)
    ultimately show ?thesis using store_ok_insert[OF assms(1) _ p(2)] by (simp add: Pair)
  qed
qed

lemma create_store: "store_ok (w_db w) \<Longrightarrow> store_ok (w_db (snd (createFromRequest L h e r w)))"
proof -
  assume w: "store_ok (w_db w)"
  obtain res w' where cr: "createFromRequest L h e r w = (res, w')" by (cases "createFromRequest L h e r w")
  show ?thesis
  proof (cases res)
    case (Inl er)
    with cr createFromRequest_Inl[of L h e r w er w'] w show ?thesis by simp
  next
    case (Inr resp)
    from cr Inr have "createFromRequest L h e r w = (Inr resp, w')" by simp
    then obtain p where "paste_map (w_db w') = (paste_map (w_db w))(cr_ID resp \<mapsto> p)" "stored_ok (e_now e) p"
      "schema_ok (w_db w')" by (rule created_row[OF store_ok_schema[OF w]])
    then show ?thesis
      using w by (auto simp: cr stored_ok_def row_ok_def intro!: store_ok_insert[of "w_db w" _ "cr_ID resp" p])
  qed
qed

lemma compat_lookup_store: "store_ok (w_db w) \<Longrightarrow> store_ok (w_db (snd (compat_lookup e pid w)))"
  by (auto simp: compat_lookup_def intro: DeletePaste_store split: sum.splits option.splits)

lemma compat_view_store: "store_ok (w_db w) \<Longrightarrow> store_ok (w_db (snd (compat_view e pid w)))"
  by (auto simp: compat_view_def intro: IncrementViews_store split: sum.splits)

lemma drop_paste_store: "store_ok (w_db w) \<Longrightarrow> store_ok (w_db (drop_paste e pid w))"
  by (auto simp: drop_paste_def intro: DeletePaste_store split: sum.splits)

lemma count_view_store: "store_ok (w_db w) \<Longrightarrow> store_ok (w_db (snd (count_view e pid p w)))"
  by (auto simp: count_view_def Let_def intro: IncrementViews_store split: sum.splits)

lemma loadLivePaste_store: "store_ok (w_db w) \<Longrightarrow> store_ok (w_db (snd (loadLivePaste e pid w)))"
  by (simp add: loadLivePaste_eq split_beta drop_paste_store split: sum.splits option.splits)

lemmas store_keep = createPasteInternal_store create_store compat_lookup_store compat_view_store drop_paste_store
  count_view_store loadLivePaste_store

subsection \<open>The handlers keep it\<close>

lemma native_store:
  assumes "store_ok (w_db w)"
  shows "store_ok (w_db (snd (handle_CreatePaste L h e r w)))" "store_ok (w_db (snd (GetPaste L e r pid w)))"
    "store_ok (w_db (snd (GetRawPaste L e pid w)))" "store_ok (w_db (snd (GetPasteForWeb e pid w)))"
  using assms
  by (simp_all add: handle_CreatePaste_world GetPaste_def GetRawPaste_def GetPasteForWeb_eq Let_def split_beta store_keep
      split: sum.splits option.splits)

lemma delete_store:
  "store_ok (w_db w) \<Longrightarrow> store_ok (w_db (snd (handle_DeletePaste L h e r pid w)))"
  by (auto simp: handle_DeletePaste_def Let_def split: sum.splits
      intro: DeletePaste_store[OF tokens_store] DeletePaste_store tokens_store VerifyAPIToken_schema store_ok_schema Verify_pastes)

lemmas vis_simps = VisibilityPublic_def VisibilityUnlisted_def

lemma pastebin_store:
  assumes "store_ok (w_db w)"
  shows "store_ok (w_db (snd (pastebinCreate L h e r fv w)))" "store_ok (w_db (snd (pastebinDelete L e fv w)))"
    "store_ok (w_db (snd (pastebinList e fv w)))" "store_ok (w_db (snd (PastebinRaw e r w)))"
  using assms
  by (auto simp: pastebinCreate_def pastebinDelete_def pastebinList_def PastebinRaw_def Let_def split_beta store_keep vis_simps
      intro: DeletePasteByToken_store split: sum.splits option.splits)

lemma PastebinPost_store: "store_ok (w_db w) \<Longrightarrow> store_ok (w_db (snd (PastebinPost L h e r w)))"
  by (simp add: PastebinPost_def pastebin_store split: sum.splits form_error.splits)

lemma len_store:
  assumes "store_ok (w_db w)"
  shows "store_ok (w_db (snd (LenCreate L h e r w)))" "store_ok (w_db (snd (LenGet e r w)))"
    "store_ok (w_db (snd (LenRemove L e r w)))"
  using assms
  by (auto simp: LenCreate_def LenGet_def LenRemove_def Let_def split_beta store_keep vis_simps
      intro: DeletePasteByToken_store split: sum.splits option.splits form_error.splits)

lemma other_store:
  assumes "store_ok (w_db w)"
  shows "store_ok (w_db (snd (StikkedCreate L h e r w)))" "store_ok (w_db (snd (StikkedJSON e pid w)))"
    "store_ok (w_db (snd (HastebinCreate L h e r w)))" "store_ok (w_db (snd (HastebinGet e pid w)))"
    "store_ok (w_db (snd (DpasteCreate L h e r w)))" "store_ok (w_db (snd (curlRespond L h e r c x tk w)))"
    "store_ok (w_db (snd (TermbinServe L e sent re url lim w)))"
  using assms
  by (simp_all add: StikkedCreate_def StikkedJSON_def HastebinCreate_def HastebinGet_def DpasteCreate_def curlRespond_def
      TermbinServe_def Let_def split_beta store_keep vis_simps split: sum.splits option.splits form_error.splits)

lemma RootUpload_store: "store_ok (w_db w) \<Longrightarrow> store_ok (w_db (snd (RootUpload L h e r w)))"
  by (simp add: RootUpload_def Let_def split_beta other_store native_store split: sum.splits option.splits form_error.splits)

subsection \<open>The transition system\<close>

text \<open>One step of the server: any handler on any request with any failures, any maintenance task, a
  revocation by the operator, or a change of the cache.\<close>

inductive server_step :: "golib \<Rightarrow> paste_handler \<Rightarrow> world \<Rightarrow> world \<Rightarrow> bool" for L h where
  "server_step L h w (snd (handle_CreatePaste L h e r w))"
| "server_step L h w (snd (GetPaste L e r pid w))"
| "server_step L h w (snd (GetRawPaste L e pid w))"
| "server_step L h w (snd (GetPasteForWeb e pid w))"
| "server_step L h w (snd (ListPastes e r w))"
| "server_step L h w (snd (handle_DeletePaste L h e r pid w))"
| "server_step L h w (snd (PastebinPost L h e r w))"
| "server_step L h w (snd (PastebinRaw e r w))"
| "server_step L h w (snd (LenCreate L h e r w))"
| "server_step L h w (snd (LenGet e r w))"
| "server_step L h w (snd (LenRemove L e r w))"
| "server_step L h w (snd (LenList e r w))"
| "server_step L h w (snd (StikkedCreate L h e r w))"
| "server_step L h w (snd (StikkedJSON e pid w))"
| "server_step L h w (snd (HastebinCreate L h e r w))"
| "server_step L h w (snd (HastebinGet e pid w))"
| "server_step L h w (snd (DpasteCreate L h e r w))"
| "server_step L h w (snd (RootUpload L h e r w))"
| "server_step L h w (snd (TermbinServe L e sent re url lim w))"
| "DeleteExpiredPastes f t (w_db w) = Inr (n, d') \<Longrightarrow> server_step L h w (w\<lparr>w_db := d'\<rparr>)"
| "DeleteBurnedPastes f (w_db w) = Inr (n, d') \<Longrightarrow> server_step L h w (w\<lparr>w_db := d'\<rparr>)"
| "DeleteExpiredAPITokens f t (w_db w) = Inr (n, d') \<Longrightarrow> server_step L h w (w\<lparr>w_db := d'\<rparr>)"
| "RevokeAPIToken f t pre reason (w_db w) = Inr d' \<Longrightarrow> server_step L h w (w\<lparr>w_db := d'\<rparr>)"
| "server_step L h w (SetCache c w)"

lemma LenList_world [simp]: "snd (LenList e r w) = w"
  by (simp add: LenList_def Let_def split: sum.splits prod.splits)

lemma token_ops_pastes:
  "DeleteExpiredAPITokens f t d = Inr (n, d') \<Longrightarrow> pastes d' = pastes d"
  "RevokeAPIToken f t pre reason d = Inr d' \<Longrightarrow> pastes d' = pastes d"
  by (auto simp: DeleteExpiredAPITokens_def RevokeAPIToken_def Let_def split: if_splits)

lemma sweep_store:
  "store_ok d \<Longrightarrow> DeleteExpiredPastes f t d = Inr (n, d') \<Longrightarrow> store_ok d'"
  "store_ok d \<Longrightarrow> DeleteBurnedPastes f d = Inr (n, d') \<Longrightarrow> store_ok d'"
  "store_ok d \<Longrightarrow> DeleteExpiredAPITokens f t d = Inr (n, d') \<Longrightarrow> store_ok d'"
  "store_ok d \<Longrightarrow> RevokeAPIToken f t pre reason d = Inr d' \<Longrightarrow> store_ok d'"
proof -
  assume d: "store_ok d"
  show "store_ok d'" if "DeleteExpiredPastes f t d = Inr (n, d')"
    using that DeleteExpiredPastes_schema[OF store_ok_schema[OF d] that] store_ok_filter[OF d]
    by (auto simp: DeleteExpiredPastes_def split: if_splits)
  show "store_ok d'" if "DeleteBurnedPastes f d = Inr (n, d')"
    using that DeleteBurnedPastes_schema[OF store_ok_schema[OF d] that] store_ok_filter[OF d]
    by (auto simp: DeleteBurnedPastes_def split: if_splits)
  show "store_ok d'" if "DeleteExpiredAPITokens f t d = Inr (n, d')"
    using tokens_store[OF d DeleteExpiredAPITokens_schema[OF store_ok_schema[OF d] that] token_ops_pastes(1)[OF that]] .
  show "store_ok d'" if "RevokeAPIToken f t pre reason d = Inr d'"
    using tokens_store[OF d RevokeAPIToken_schema[OF store_ok_schema[OF d] that] token_ops_pastes(2)[OF that]] .
qed

lemma server_step_store: "server_step L h w w' \<Longrightarrow> store_ok (w_db w) \<Longrightarrow> store_ok (w_db w')"
  by (induction rule: server_step.induct)
     (auto simp: native_store delete_store pastebin_store PastebinPost_store len_store other_store RootUpload_store
        SetCache_def dest: sweep_store)

text \<open>C1: Whatever is served, in any order and with any failures, the store stays sound: starting from
  an empty database, every reachable one has unique identifiers made of the identifier
  alphabet and unique token digests; every paste has a title, a visibility of 0 or 1, a burn
  limit between 0 and 9999 and a non-negative counter; and no paste with a limit is ever
  kept once its counter has reached it.\<close>

theorem store_invariant:
  assumes "(server_step L h)\<^sup>*\<^sup>* w w'" and "w_db w = empty_db"
  shows "schema_ok (w_db w') \<and> (\<forall>pid p. paste_map (w_db w') pid = Some p \<longrightarrow> row_ok p)"
proof -
  have "store_ok (w_db w')"
    using assms(1)
  proof (induction rule: rtranclp_induct)
    case base
    then show ?case by (simp add: assms(2) store_ok_empty)
  next
    case (step y z)
    then show ?case by (rule_tac server_step_store)
  qed
  then show ?thesis by (simp add: store_ok_def)
qed

theorem store_invariant_witness:
  "\<exists>p. paste_map (w_db burning_world) ''XYZ01234'' = Some p \<and> row_ok p"
proof -
  have "(server_step demo_lib demo_handler)\<^sup>*\<^sup>* demo_world burning_world"
    unfolding burning_world_def by (intro r_into_rtranclp server_step.intros)
  from store_invariant[OF this] burning_row show ?thesis by auto
qed

end
