(* ===== verification/Server_Reads.thy ===== *)
theory Server_Reads
  imports Store_Invariant
begin

section \<open>Reading while every handler is serving\<close>

text \<open>
  The reads of \<^verbatim>\<open>src/src/handler/paste.go\<close> and \<^verbatim>\<open>src/src/handler/compat.go\<close> on a server that
  serves all its handlers, native and compatible, with the maintenance sweeps and the
  cache's reaper in between; the microbin handlers are the native ones under other paths.
  Two kinds of step are left out, because they break what is shown
  here: a removal through the compatibility handlers of a paste the cache still holds a
  copy of (\<^verbatim>\<open>compat_removal_leaves_cached_copy\<close>), and a creation under an identifier the cache
  still holds an entry for.
\<close>

subsection \<open>The worlds of a running server\<close>

text \<open>The cache holds an entry for a paste, expired or not.\<close>

definition copied :: "string \<Rightarrow> world \<Rightarrow> bool" where
  "copied pid w \<longleftrightarrow> (case w_cache w of None \<Rightarrow> False | Some c \<Rightarrow> driver_held c (pasteCacheKey pid) \<noteq> None)"

definition removal_of :: "golib \<Rightarrow> paste_handler \<Rightarrow> http_request \<Rightarrow> string option" where
  "removal_of L h r =
     (case parseFormLimited L h r of
        Inl _ \<Rightarrow> None
      | Inr fv \<Rightarrow> if fv ''api_option'' = ''delete'' then Some (fv ''api_paste_key'') else None)"

text \<open>One request at the instant of its environment. A creation does not draw an identifier the
  cache still holds an entry for; a compatible removal names a paste it holds no entry for.\<close>

inductive visit :: "golib \<Rightarrow> paste_handler \<Rightarrow> env \<Rightarrow> world \<Rightarrow> world \<Rightarrow> bool" for L h e w where
  create: "unheld e w \<Longrightarrow> visit L h e w (snd (handle_CreatePaste L h e r w))"
| get: "visit L h e w (snd (GetPaste L e r pid w))"
| raw: "visit L h e w (snd (GetRawPaste L e pid w))"
| web: "visit L h e w (snd (GetPasteForWeb e pid w))"
| list: "visit L h e w (snd (ListPastes e r w))"
| delete: "visit L h e w (snd (handle_DeletePaste L h e r pid w))"
| pastebin: "unheld e w \<Longrightarrow> (case removal_of L h r of None \<Rightarrow> True | Some pid \<Rightarrow> \<not> copied pid w) \<Longrightarrow>
    visit L h e w (snd (PastebinPost L h e r w))"
| pastebin_raw: "visit L h e w (snd (PastebinRaw e r w))"
| len_create: "unheld e w \<Longrightarrow> visit L h e w (snd (LenCreate L h e r w))"
| len_get: "visit L h e w (snd (LenGet e r w))"
| len_remove: "\<not> copied (query_get r ''id'') w \<Longrightarrow> visit L h e w (snd (LenRemove L e r w))"
| len_list: "visit L h e w (snd (LenList e r w))"
| stikked: "unheld e w \<Longrightarrow> visit L h e w (snd (StikkedCreate L h e r w))"
| stikked_json: "visit L h e w (snd (StikkedJSON e pid w))"
| hastebin: "unheld e w \<Longrightarrow> visit L h e w (snd (HastebinCreate L h e r w))"
| hastebin_get: "visit L h e w (snd (HastebinGet e pid w))"
| dpaste: "unheld e w \<Longrightarrow> visit L h e w (snd (DpasteCreate L h e r w))"
| upload: "unheld e w \<Longrightarrow> visit L h e w (snd (RootUpload L h e r w))"
| termbin: "unheld e w \<Longrightarrow> visit L h e w (snd (TermbinServe L e sent re url lim w))"

text \<open>A maintenance task, a revocation by the operator, or the cache's reaper.\<close>

inductive upkeep :: "instant \<Rightarrow> world \<Rightarrow> world \<Rightarrow> bool" for t w where
  expired: "DeleteExpiredPastes f t (w_db w) = Inr (n, d') \<Longrightarrow> upkeep t w (w\<lparr>w_db := d'\<rparr>)"
| burned: "DeleteBurnedPastes f (w_db w) = Inr (n, d') \<Longrightarrow> upkeep t w (w\<lparr>w_db := d'\<rparr>)"
| tokens: "DeleteExpiredAPITokens f t (w_db w) = Inr (n, d') \<Longrightarrow> upkeep t w (w\<lparr>w_db := d'\<rparr>)"
| revoke: "RevokeAPIToken f t pre reason (w_db w) = Inr d' \<Longrightarrow> upkeep t w (w\<lparr>w_db := d'\<rparr>)"
| reap: "w_cache w = Some c \<Longrightarrow> upkeep t w (w\<lparr>w_cache := Some (cache_Reap t c)\<rparr>)"

text \<open>A server starts with an empty store and a fresh cache of any driver, and instants do not
  decrease.\<close>

inductive reached :: "golib \<Rightarrow> paste_handler \<Rightarrow> instant \<Rightarrow> world \<Rightarrow> bool" for L h where
  boot: "w_db w = empty_db \<Longrightarrow>
    w_cache w \<in> {None, Some NoopCache, Some (MemoryCache (newMemoryCache pre ttl))} \<Longrightarrow> reached L h t w"
| request: "reached L h t w \<Longrightarrow> t \<le> e_now e \<Longrightarrow> visit L h e w w' \<Longrightarrow> reached L h (e_now e) w'"
| background: "reached L h t w \<Longrightarrow> t \<le> u \<Longrightarrow> upkeep u w w' \<Longrightarrow> reached L h u w'"

subsection \<open>Every step keeps the cache true to the store\<close>

definition sound :: "instant \<Rightarrow> world \<Rightarrow> bool" where
  "sound t w \<longleftrightarrow> cache_ok t w \<and> store_ok (w_db w)"

lemma sound_schema: "sound t w \<Longrightarrow> schema_ok (w_db w)"
  by (simp add: sound_def store_ok_def)

text \<open>A change at an identifier the cache has no entry for.\<close>

lemma cache_ok_at:
  assumes "cache_ok t w" and "w_cache w' = w_cache w" and "\<not> copied pid w"
    and "\<And>k. k \<noteq> pid \<Longrightarrow> paste_map (w_db w') k = paste_map (w_db w) k"
  shows "cache_ok t w'"
proof (cases "w_cache w")
  case (Some c)
  with assms(1) have co: "drivers.coherent (entry_ok t (w_db w)) c" by (simp add: cache_ok_def)
  have "entry_ok t (w_db w') k v" if "driver_held c k = Some v" for k v
  proof -
    from co that have "entry_ok t (w_db w) k v" by (simp add: drivers.coherent_def)
    moreover from that Some assms(3) have "k \<noteq> pasteCacheKey pid" by (auto simp: copied_def)
    ultimately show ?thesis using assms(4) by (auto simp: entry_ok_def)
  qed
  with Some assms(2) show ?thesis by (simp add: cache_ok_def drivers.coherent_def)
qed (use assms in \<open>simp add: cache_ok_def\<close>)

lemma createPasteInternal_keeps:
  assumes "cache_ok t w" and "unheld e w"
  shows "cache_ok t (snd (createPasteInternal L e title content lang vis burn ex w))"
proof (cases "createPasteInternal L e title content lang vis burn ex w")
  case (Pair res w')
  show ?thesis
  proof (cases res)
    case None
    with Pair assms createPasteInternal_None[of L e title content lang vis burn ex w w'] show ?thesis by simp
  next
    case (Some pt)
    obtain pid tok where pt: "pt = (pid, tok)" by (cases pt)
    from Pair Some pt have "createPasteInternal L e title content lang vis burn ex w = (Some (pid, tok), w')" by simp
    then obtain p where p: "paste_map (w_db w') = (paste_map (w_db w))(pid \<mapsto> p)"
      "w' = w\<lparr>w_db := (w_db w)\<lparr>pastes := pastes (w_db w) @ [p]\<rparr>\<rparr>" "find_unique_id e (w_db w) 0 10 = Inr pid"
      by (rule createPasteInternal_Some)
    have "w_cache w' = w_cache w" by (subst p(2), simp)
    moreover have "\<not> copied pid w"
      using find_unique_id_Inr[OF p(3)] assms(2) by (auto simp: copied_def unheld_def split: option.splits)
    ultimately have "cache_ok t w'" using p(1) by (auto intro: cache_ok_at[OF assms(1)])
    with Pair show ?thesis by simp
  qed
qed

lemma create_keeps:
  "cache_ok t w \<Longrightarrow> schema_ok (w_db w) \<Longrightarrow> unheld e w \<Longrightarrow> cache_ok t (snd (handle_CreatePaste L h e r w))"
  using create_cache_ok[of t w e L h r] unfolding handle_CreatePaste_world by (metis prod.collapse)

lemma compat_lookup_keeps: "cache_ok t w \<Longrightarrow> t \<le> e_now e \<Longrightarrow> cache_ok (e_now e) (snd (compat_lookup e pid w))"
proof -
  assume w: "cache_ok t w" and t: "t \<le> e_now e"
  note now = cache_ok_mono[OF t w]
  show ?thesis
  proof (cases "\<exists>p d'. paste_map (w_db w) pid = Some p \<and> expired_before (e_now e) p \<and>
      snd (compat_lookup e pid w) = w\<lparr>w_db := d'\<rparr> \<and> paste_map d' = (paste_map (w_db w))(pid := None)")
    case True
    then obtain p d' where p: "paste_map (w_db w) pid = Some p" "expired_before (e_now e) p"
      "snd (compat_lookup e pid w) = w\<lparr>w_db := d'\<rparr>" "paste_map d' = (paste_map (w_db w))(pid := None)" by blast
    have "cache_ok (e_now e) (w\<lparr>w_db := d'\<rparr>)"
      by (rule cache_ok_db[OF now], simp, erule entry_ok_transfer)
         (use p(1,2,4) in \<open>auto simp: entry_ok_key expired_before_def mirrors_fields(2) split: option.splits if_splits\<close>)
    with p(3) show ?thesis by simp
  next
    case False
    then have "snd (compat_lookup e pid w) = w"
      by (auto simp: compat_lookup_def GetPasteByID_eq dest: DeletePaste_map split: if_splits option.splits sum.splits)
    with now show ?thesis by simp
  qed
qed

text \<open>Counting a reading here and in the native handlers differ in the metric alone.\<close>

lemma compat_view_count:
  "w_db (snd (compat_view e pid w)) = w_db (snd (count_view e pid p w)) \<and>
   w_cache (snd (compat_view e pid w)) = w_cache (snd (count_view e pid p w))"
  by (simp add: compat_view_def count_view_def invalidatePasteCache_def Let_def split: sum.splits option.splits)

lemma compat_view_keeps: "cache_ok t w \<Longrightarrow> cache_ok t (snd (compat_view e pid w))"
  using compat_view_count[of e pid w zero_paste] cache_ok_same[OF count_view_ok[of t w e pid zero_paste]] by simp

lemma DeletePasteByToken_keeps:
  assumes "cache_ok t w" and "\<not> copied pid w" and "DeletePasteByToken f g pid hash (w_db w) = Inr d'"
  shows "cache_ok t (w\<lparr>w_db := d'\<rparr>)"
  using assms(3) by (rule DeletePasteByToken_map) (auto intro!: cache_ok_at[OF assms(1) _ assms(2)])

lemmas keeps = createPasteInternal_keeps create_keeps compat_view_keeps compat_lookup_keeps

lemma reading_keeps:
  assumes "cache_ok t w" and "t \<le> e_now e"
  shows "cache_ok (e_now e) (snd (PastebinRaw e r w))" "cache_ok (e_now e) (snd (LenGet e r w))"
    "cache_ok (e_now e) (snd (StikkedJSON e pid w))" "cache_ok (e_now e) (snd (HastebinGet e pid w))"
  using assms cache_ok_mono[OF assms(2,1)]
  by (auto simp: PastebinRaw_def LenGet_def StikkedJSON_def HastebinGet_def Let_def split_beta keeps
      split: sum.splits option.splits)

lemma writing_keeps:
  assumes "cache_ok t w" and "unheld e w"
  shows "cache_ok t (snd (pastebinCreate L h e r fv w))" "cache_ok t (snd (LenCreate L h e r w))"
    "cache_ok t (snd (StikkedCreate L h e r w))" "cache_ok t (snd (HastebinCreate L h e r w))"
    "cache_ok t (snd (DpasteCreate L h e r w))" "cache_ok t (snd (curlRespond L h e r c x tk w))"
    "cache_ok t (snd (TermbinServe L e sent re url lim w))"
  using assms
  by (simp_all add: pastebinCreate_def LenCreate_def StikkedCreate_def HastebinCreate_def DpasteCreate_def
      curlRespond_def TermbinServe_def Let_def split_beta keeps split: sum.splits option.splits form_error.splits)

lemma RootUpload_keeps:
  "cache_ok t w \<Longrightarrow> schema_ok (w_db w) \<Longrightarrow> unheld e w \<Longrightarrow> cache_ok t (snd (RootUpload L h e r w))"
  by (simp add: RootUpload_def Let_def split_beta writing_keeps keeps split: sum.splits option.splits form_error.splits)

lemma removing_keeps:
  assumes "cache_ok t w" and "\<not> copied (query_get r ''id'') w"
  shows "cache_ok t (snd (LenRemove L e r w))"
  using assms by (auto simp: LenRemove_def Let_def intro: DeletePasteByToken_keeps split: sum.splits)

lemma PastebinPost_keeps:
  assumes "cache_ok t w" and "unheld e w" and "case removal_of L h r of None \<Rightarrow> True | Some pid \<Rightarrow> \<not> copied pid w"
  shows "cache_ok t (snd (PastebinPost L h e r w))"
  using assms
  by (auto simp: PastebinPost_def removal_of_def writing_keeps pastebinList_def pastebinDelete_def Let_def
      intro: DeletePasteByToken_keeps split: sum.splits form_error.splits prod.splits if_splits)

lemma visit_server_step: "visit L h e w w' \<Longrightarrow> server_step L h w w'"
  by (induction rule: visit.induct) (rule server_step.intros)+

lemma visit_keeps:
  assumes "visit L h e w w'" and "sound t w" and "t \<le> e_now e"
  shows "sound (e_now e) w'"
proof -
  from assms(2) have t: "cache_ok t w" and d: "schema_ok (w_db w)" by (simp_all add: sound_def store_ok_def)
  note now = cache_ok_mono[OF assms(3) t]
  from assms(1) have "cache_ok (e_now e) w'"
    by (cases rule: visit.cases)
       (simp_all add: now t d assms(3) create_keeps GetPaste_ok GetRawPaste_ok GetPasteForWeb_ok handle_DeletePaste_ok
          writing_keeps RootUpload_keeps removing_keeps PastebinPost_keeps reading_keeps[OF t])
  with server_step_store[OF visit_server_step[OF assms(1)]] assms(2) show ?thesis by (simp add: sound_def)
qed

lemma upkeep_keeps:
  assumes "upkeep u w w'" and "sound t w" and "t \<le> u"
  shows "sound u w'"
proof -
  from assms(2) have d: "schema_ok (w_db w)" and s: "store_ok (w_db w)" by (simp_all add: sound_def store_ok_def)
  from assms(2,3) have now: "cache_ok u w" using cache_ok_mono by (simp add: sound_def)
  from assms(1) show ?thesis
  proof (cases rule: upkeep.cases)
    case (expired f n d')
    then show ?thesis using sweep_expired_ok[OF now d] sweep_store(1)[OF s] by (simp add: sound_def)
  next
    case (burned f n d')
    then show ?thesis using sweep_burned_ok[OF now d] sweep_store(2)[OF s] by (simp add: sound_def)
  next
    case (tokens f n d')
    from paste_map_cong[OF token_ops_pastes(1)[OF tokens(2)]] have "cache_ok u w'"
      unfolding tokens(1) by (intro cache_ok_same[OF now]) simp_all
    with tokens sweep_store(3)[OF s tokens(2)] show ?thesis by (simp add: sound_def)
  next
    case (revoke f pre reason d')
    from paste_map_cong[OF token_ops_pastes(2)[OF revoke(2)]] have "cache_ok u w'"
      unfolding revoke(1) by (intro cache_ok_same[OF now]) simp_all
    with revoke sweep_store(4)[OF s revoke(2)] show ?thesis by (simp add: sound_def)
  next
    case (reap c)
    with now s drivers.coherent_reap show ?thesis by (fastforce simp: sound_def cache_ok_def)
  qed
qed

lemma reached_sound: "reached L h t w \<Longrightarrow> sound t w"
proof (induction rule: reached.induct)
  case (boot w pre ttl t)
  then show ?case
    by (auto simp: sound_def cache_ok_def drivers.coherent_def newMemoryCache_def store_ok_empty)
qed (auto intro: visit_keeps upkeep_keeps)

lemma served_reached: "served L h t w \<Longrightarrow> reached L h t w"
  by (induction rule: served.induct) (blast intro: reached.intros visit.intros upkeep.intros)+

text \<open>An entry of a paste that burns is never held.\<close>

lemma reached_uncached:
  assumes "reached L h t w" and "paste_map (w_db w) pid = Some q" and "p_BurnAfter q > 0"
  shows "uncached pid w"
  using reached_sound[OF assms(1)] cache_ok_uncached[of t w pid q] assms(2,3) by (simp add: sound_def)

subsection \<open>Reads answer what the store would answer\<close>




subsection \<open>Burn after reading\<close>

text \<open>The ways to read a paste whose reading is counted: the native ones, the pastebin and
  hastebin readers, and the lenpaste reader told to open a paste of one use. A request to
  the compatible ones may be any that names the paste.\<close>

datatype reader = Native read_kind | ByPastebin http_request | ByHastebin | ByLenpaste http_request

fun read_by :: "golib \<Rightarrow> reader \<Rightarrow> env \<Rightarrow> string \<Rightarrow> world \<Rightarrow> bool \<times> world" where
  "read_by L (Native k) e pid w = read_paste L k e pid w"
| "read_by L (ByPastebin r) e pid w =
     (let (rp, w') = PastebinRaw e (r\<lparr>rq_query := (rq_query r)(''i'' \<mapsto> pid)\<rparr>) w in (rp_status rp < 400, w'))"
| "read_by L ByHastebin e pid w = (let (rp, w') = HastebinGet e pid w in (rp_status rp < 400, w'))"
| "read_by L (ByLenpaste r) e pid w =
     (let (rp, w') = LenGet e (r\<lparr>rq_query := (rq_query r)(''id'' \<mapsto> pid, ''openOneUse'' \<mapsto> ''true'')\<rparr>) w
      in (rp_status rp < 400, w'))"

fun read_series :: "golib \<Rightarrow> (reader \<times> env) list \<Rightarrow> string \<Rightarrow> world \<Rightarrow> bool list \<times> world" where
  "read_series L [] pid w = ([], w)"
| "read_series L ((k, e) # rs) pid w =
     (let (b, w1) = read_by L k e pid w; (bs, w2) = read_series L rs pid w1 in (b # bs, w2))"

lemma query_get_upd: "query_get (r\<lparr>rq_query := m(k \<mapsto> v)\<rparr>) k = v"
  by (simp add: query_get_def opt_str_def)

lemma query_get_upd2: "query_get (r\<lparr>rq_query := m(k \<mapsto> v, k2 \<mapsto> v2)\<rparr>) k = (if k = k2 then v2 else v)"
  by (simp add: query_get_def opt_str_def)

lemma compat_view_uncached:
  assumes "uncached pid w" and "paste_map (w_db w) pid = Some q" and "\<not> e_fault e CallView"
  shows "uncached pid (snd (compat_view e pid w)) \<and>
    paste_map (w_db (snd (compat_view e pid w))) =
      (paste_map (w_db w))(pid := if burns q then None else Some (viewed (e_now e) q))"
  using count_view_uncached[OF assms, of q] compat_view_count[of e pid w q]
    uncached_cong[of "snd (compat_view e pid w)" "snd (count_view e pid q w)" pid] by simp

text \<open>One counted reading of a paste the cache has no entry for.\<close>

lemma read_by_hit:
  assumes "uncached pid w" and "paste_map (w_db w) pid = Some q" and "p_BurnAfter q > 0" and "pid \<noteq> []"
    and "\<not> e_fault e CallGet" and "\<not> e_fault e CallView" and "\<not> expired_before (e_now e) q"
  obtains w' where "read_by L k e pid w = (True, w')" "uncached pid w'"
    "paste_map (w_db w') = (paste_map (w_db w))(pid := if burns q then None else Some (viewed (e_now e) q))"
proof (cases "\<exists>n. k = Native n")
  case True
  then obtain n where k: "k = Native n" by blast
  obtain w1 where w1: "lookup_paste e pid w = (Inr (Some q), w1)" "w_db w1 = w_db w" "uncached pid w1"
    using lookup_uncached[OF assms(1,5)] assms(2,3) by auto
  from count_view_uncached[OF w1(3), of q e q] assms(2,6) w1(2)
  show ?thesis by (intro that[of "snd (count_view e pid q w1)"]) (simp_all add: k read_paste_hit[OF w1(1) assms(7)])
next
  case False
  have look: "compat_lookup e pid w = (Some q, w)"
    using assms(2,5,7) by (simp add: compat_lookup_def GetPasteByID_eq)
  have "read_by L k e pid w = (True, snd (compat_view e pid w))"
    using False assms(2,4,5,7) look
    by (cases k) (simp_all add: PastebinRaw_def HastebinGet_def LenGet_def query_get_upd query_get_upd2 GetPasteByID_eq
        text_reply_def writeJSON_def split_beta)
  with compat_view_uncached[OF assms(1,2,6)] that show ?thesis by blast
qed

lemma read_by_miss:
  assumes "uncached pid w" and "paste_map (w_db w) pid = None" and "\<not> e_fault e CallGet"
  obtains w' where "read_by L k e pid w = (False, w')" "uncached pid w'" "w_db w' = w_db w"
proof (cases "\<exists>n. k = Native n")
  case True
  then obtain n where k: "k = Native n" by blast
  obtain w1 where "lookup_paste e pid w = (Inr None, w1)" "w_db w1 = w_db w" "uncached pid w1"
    using lookup_uncached[OF assms(1,3)] assms(2) by auto
  then show ?thesis by (intro that[of w1]) (simp_all add: k read_paste_miss)
next
  case False
  have "compat_lookup e pid w = (None, w)"
    using assms(2,3) by (simp add: compat_lookup_def GetPasteByID_eq)
  with False assms show ?thesis
    by (intro that[of w], cases k) (simp_all add: PastebinRaw_def HastebinGet_def LenGet_def query_get_upd
        query_get_upd2 GetPasteByID_eq http_Error_def json_error_def writeJSON_def)
qed

lemma read_series_gone:
  assumes "uncached pid w" and "paste_map (w_db w) pid = None" and "\<forall>(k, e) \<in> set rs. \<not> e_fault e CallGet"
  shows "fst (read_series L rs pid w) = map (\<lambda>_. False) rs"
  using assms
proof (induction rs arbitrary: w)
  case (Cons x rs)
  obtain k e where x: "x = (k, e)" by (cases x)
  with Cons.prems have e: "\<not> e_fault e CallGet" by simp
  obtain w1 where w1: "read_by L k e pid w = (False, w1)" "uncached pid w1" "w_db w1 = w_db w"
    using read_by_miss[OF Cons.prems(1,2) e] .
  with Cons.IH[of w1] Cons.prems x show ?case by (auto simp: Let_def split: prod.splits)
qed simp

lemma read_series_burn:
  assumes "uncached pid w" and "paste_map (w_db w) pid = Some q" and "p_BurnAfter q > 0" and "pid \<noteq> []"
    and "p_Views q + int n = p_BurnAfter q" and "0 < n"
    and "\<forall>(k, e) \<in> set rs. \<not> e_fault e CallGet \<and> \<not> e_fault e CallView \<and> \<not> expired_before (e_now e) q"
  shows "fst (read_series L rs pid w) = map (\<lambda>i. i < n) [0..<length rs]"
  using assms
proof (induction rs arbitrary: w q n)
  case (Cons x rs)
  obtain k e where x: "x = (k, e)" by (cases x)
  with Cons.prems have e: "\<not> e_fault e CallGet" "\<not> e_fault e CallView" "\<not> expired_before (e_now e) q" by auto
  obtain w2 where w2: "read_by L k e pid w = (True, w2)" "uncached pid w2"
    "paste_map (w_db w2) = (paste_map (w_db w))(pid := if burns q then None else Some (viewed (e_now e) q))"
    using read_by_hit[OF Cons.prems(1-4) e] .
  have step: "fst (read_series L (x # rs) pid w) = True # fst (read_series L rs pid w2)"
    by (simp add: x w2(1) split: prod.splits)
  have upt: "map (\<lambda>i. i < n) [0..<Suc (length rs)] = True # map (\<lambda>i. i < n - 1) [0..<length rs]"
    using Cons.prems(6) by (intro nth_equalityI) (auto simp: nth_Cons simp del: upt_Suc split: nat.splits)
  show ?case
  proof (cases "n = 1")
    case True
    with Cons.prems have "burns q" by (simp add: burns_def)
    with w2 read_series_gone[of pid w2 rs L] Cons.prems(7) True step upt show ?thesis
      by (auto simp: map_replicate_const simp del: upt_Suc)
  next
    case False
    with Cons.prems have "\<not> burns q" and n: "0 < n - 1" by (auto simp: burns_def)
    with w2 Cons.IH[OF w2(2), of "viewed (e_now e) q" "n - 1"] Cons.prems step upt show ?thesis
      by (auto simp: expired_before_def simp del: upt_Suc)
  qed
qed simp



end
