(* ===== verification/Go_Time.thy ===== *)
theory Go_Time
  imports Pastebin_Prelude
begin

section \<open>The civil calendar\<close>

text \<open>
  The part of Go's \<^verbatim>\<open>time\<close> package that the scheduler computes with: the proleptic Gregorian
  calendar in a zone without transitions (UTC). A day is counted from the first of January
  1970, a month from January of year 0, so that the months in time order are the integers.
\<close>

subsection \<open>Years and months\<close>

definition leap :: "int \<Rightarrow> bool" where
  "leap y \<longleftrightarrow> y mod 4 = 0 \<and> (y mod 100 \<noteq> 0 \<or> y mod 400 = 0)"

text \<open>The day number of the first of January.\<close>

definition ystart :: "int \<Rightarrow> int" where
  "ystart y = 365 * (y - 1970) + ((y - 1) div 4 - (y - 1) div 100 + (y - 1) div 400 - 477)"

lemma div_step:
  assumes "0 < (k :: int)"
  shows "y div k = (y - 1) div k + (if y mod k = 0 then 1 else 0)"
proof (cases "y mod k = 0")
  case True
  then have "y = k * (y div k)" using mult_div_mod_eq[of k y] by simp
  then have "y - 1 = k * (y div k - 1) + (k - 1)" by (simp add: algebra_simps)
  then have "(y - 1) div k = y div k - 1" by (rule int_div_pos_eq) (use assms in auto)
  with True show ?thesis by simp
next
  case False
  have "0 \<le> y mod k" "y mod k < k" using assms by simp_all
  with False have "0 \<le> y mod k - 1" "y mod k - 1 < k" by simp_all
  moreover have "y - 1 = k * (y div k) + (y mod k - 1)" using mult_div_mod_eq[of k y] by simp
  ultimately have "(y - 1) div k = y div k" by (intro int_div_pos_eq)
  with False show ?thesis by simp
qed

lemma year_arith:
  fixes y p q r p' q' r' :: int
  assumes "p' = p + (if a then 1 else 0)" "q' = q + (if b then 1 else 0)" "r' = r + (if c then 1 else 0)"
    and "c \<Longrightarrow> b" "b \<Longrightarrow> a"
  shows "365 * (y + 1 - 1970) + (p' - q' + r' - 477) =
         365 * (y - 1970) + (p - q + r - 477) + (if a \<and> (\<not> b \<or> c) then 366 else 365)"
  using assms by (cases a; cases b; cases c) simp_all

lemma ystart_step: "ystart (y + 1) = ystart y + (if leap y then 366 else 365)"
proof -
  have eq: "y + 1 - 1 = y" by simp
  show ?thesis unfolding ystart_def leap_def eq
    using mod_mod_cancel[of 100 400 y] mod_mod_cancel[of 4 100 y]
    by (intro year_arith div_step) auto
qed

lemma ystart_1970: "ystart 1970 = 0"
  by (simp add: ystart_def)

lemma ystart_less: "ystart y < ystart (y + 1)"
  by (simp add: ystart_step)

lemma ystart_up: "ystart (1970 + int n) \<le> 366 * int n"
proof (induction n)
  case (Suc n)
  have "ystart (1970 + int (Suc n)) = ystart ((1970 + int n) + 1)" by (rule arg_cong) simp
  also have "\<dots> \<le> ystart (1970 + int n) + 366" unfolding ystart_step by simp
  also have "\<dots> \<le> 366 * int (Suc n)" using Suc.IH by simp
  finally show ?case .
qed (simp add: ystart_1970)

lemma ystart_down: "ystart (1970 - int n) \<le> - 365 * int n"
proof (induction n)
  case (Suc n)
  have "ystart (1970 - int n) = ystart ((1970 - int (Suc n)) + 1)" by (rule arg_cong) simp
  also have "\<dots> \<ge> ystart (1970 - int (Suc n)) + 365" unfolding ystart_step by simp
  finally show ?case using Suc.IH by simp
qed (simp add: ystart_1970)

function year_up :: "int \<Rightarrow> int \<Rightarrow> int" where
  "year_up d y = (if ystart (y + 1) \<le> d then year_up d (y + 1) else y)"
  by pat_completeness auto
termination
proof (relation "measure (\<lambda>(d, y). nat (d - ystart y))")
  fix d y assume "ystart (y + 1) \<le> d"
  with ystart_less[of y] show "((d, y + 1), (d, y)) \<in> measure (\<lambda>(d, y). nat (d - ystart y))" by auto
qed simp

declare year_up.simps [simp del]

definition year_of :: "int \<Rightarrow> int" where
  "year_of d = year_up d (1970 + (if 0 \<le> d then d div 366 else d div 365))"

lemma year_up_bounds: "ystart y \<le> d \<Longrightarrow> ystart (year_up d y) \<le> d \<and> d < ystart (year_up d y + 1)"
  by (induction d y rule: year_up.induct) (subst (1 2) year_up.simps, auto)

lemma year_of_bounds: "ystart (year_of d) \<le> d" "d < ystart (year_of d + 1)"
proof -
  have "ystart (1970 + (if 0 \<le> d then d div 366 else d div 365)) \<le> d"
  proof (cases "0 \<le> d")
    case True
    then have "ystart (1970 + d div 366) \<le> 366 * (d div 366)" using ystart_up[of "nat (d div 366)"]
      by (simp add: pos_imp_zdiv_nonneg_iff)
    with True show ?thesis by simp
  next
    case False
    then have "d div 365 < 0" by presburger
    then have "ystart (1970 + d div 365) \<le> 365 * (d div 365)" using ystart_down[of "nat (- (d div 365))"] by simp
    with False show ?thesis by simp
  qed
  from year_up_bounds[OF this] show "ystart (year_of d) \<le> d" "d < ystart (year_of d + 1)"
    by (simp_all add: year_of_def)
qed

text \<open>Days before a month (from 0) within its year, and the month a day of the year is in.\<close>

definition cum :: "bool \<Rightarrow> int \<Rightarrow> int" where
  "cum lp k = [0, 31, 59, 90, 120, 151, 181, 212, 243, 273, 304, 334, 365] ! nat k + (if lp \<and> 2 \<le> k then 1 else 0)"

definition month0 :: "bool \<Rightarrow> int \<Rightarrow> int" where
  "month0 lp doy =
     (let x = (if lp then 1 else 0)
      in if doy < 31 then 0 else if doy < 59 + x then 1 else if doy < 90 + x then 2 else if doy < 120 + x then 3
         else if doy < 151 + x then 4 else if doy < 181 + x then 5 else if doy < 212 + x then 6
         else if doy < 243 + x then 7 else if doy < 273 + x then 8 else if doy < 304 + x then 9
         else if doy < 334 + x then 10 else 11)"

lemma month0_range: "0 \<le> month0 lp doy" "month0 lp doy < 12"
  by (simp_all add: month0_def Let_def)

lemma month0_bounds:
  "0 \<le> doy \<Longrightarrow> doy < (if lp then 366 else 365) \<Longrightarrow>
   cum lp (month0 lp doy) \<le> doy \<and> doy < cum lp (month0 lp doy + 1)"
  by (cases lp) (auto simp: month0_def cum_def Let_def split: if_splits)

definition month_index :: "int \<Rightarrow> int" where
  "month_index d = 12 * year_of d + month0 (leap (year_of d)) (d - ystart (year_of d))"

definition mstart :: "int \<Rightarrow> int" where
  "mstart i = ystart (i div 12) + cum (leap (i div 12)) (i mod 12)"

definition month_of :: "int \<Rightarrow> int" where "month_of d = month_index d mod 12 + 1"

definition day_of_month :: "int \<Rightarrow> int" where "day_of_month d = d - mstart (month_index d) + 1"

text \<open>The first of January 1970 was a Thursday.\<close>

definition weekday_of :: "int \<Rightarrow> int" where "weekday_of d = (d + 4) mod 7"

text \<open>\<^verbatim>\<open>time.Date\<close> for a month in range and any day.\<close>

definition date :: "int \<Rightarrow> int \<Rightarrow> int \<Rightarrow> int" where
  "date y m d = ystart y + cum (leap y) (m - 1) + d - 1"

lemma upto_cases:
  assumes "0 \<le> (k :: int)" "k < 12"
  obtains "k = 0" | "k = 1" | "k = 2" | "k = 3" | "k = 4" | "k = 5" | "k = 6" | "k = 7" | "k = 8" | "k = 9" | "k = 10" | "k = 11"
proof -
  have "k \<in> set [0..11]" using assms by simp
  then show thesis by (simp add: upto.simps that) (use that in blast)
qed

lemma cum_step: "0 \<le> k \<Longrightarrow> k < 12 \<Longrightarrow> cum lp k + 28 \<le> cum lp (k + 1)"
  by (erule (1) upto_cases) (simp_all add: cum_def)

lemma step_index:
  assumes "i mod 12 \<noteq> (11 :: int)"
  shows "(i + 1) div 12 = i div 12 \<and> (i + 1) mod 12 = i mod 12 + 1"
proof -
  have "i = 12 * (i div 12) + i mod 12" "0 \<le> i mod 12" "i mod 12 < 12" by simp_all
  with assms have "i + 1 = 12 * (i div 12) + (i mod 12 + 1)" "0 \<le> i mod 12 + 1" "i mod 12 + 1 < 12" by linarith+
  then show ?thesis by (intro conjI int_div_pos_eq int_mod_pos_eq)
qed

lemma mstart_step: "mstart i + 28 \<le> mstart (i + 1)"
proof (cases "i mod 12 = 11")
  case True
  then have "(i + 1) div 12 = i div 12 + 1" "(i + 1) mod 12 = 0"
    by (simp_all add: div_add1_eq mod_add_eq[symmetric])
  with True show ?thesis
    by (simp add: mstart_def ystart_step) (simp add: cum_def)
next
  case False
  then have "(i + 1) div 12 = i div 12" "(i + 1) mod 12 = i mod 12 + 1" "0 \<le> i mod 12" "i mod 12 < 12"
    by (simp_all add: step_index)
  with cum_step[of "i mod 12" "leap (i div 12)"] show ?thesis by (simp add: mstart_def)
qed

lemma mstart_mono: "i \<le> j \<Longrightarrow> mstart i \<le> mstart j"
proof (induction "nat (j - i)" arbitrary: j)
  case (Suc n)
  then have "mstart i \<le> mstart (j - 1)" by (intro Suc.hyps(1)) auto
  also have "\<dots> \<le> mstart j" using mstart_step[of "j - 1"] by simp
  finally show ?case .
qed simp

lemma mstart_less: "i < j \<Longrightarrow> mstart i < mstart j"
  using mstart_mono[of "i + 1" j] mstart_step[of i] by simp

lemma month_index_bounds: "mstart (month_index d) \<le> d" "d < mstart (month_index d + 1)"
proof -
  let ?y = "year_of d" and ?m = "month0 (leap (year_of d)) (d - ystart (year_of d))"
  have idx: "month_index d div 12 = ?y" "month_index d mod 12 = ?m"
    using month0_range[of "leap ?y" "d - ystart ?y"] by (simp_all add: month_index_def)
  have doy: "0 \<le> d - ystart ?y" "d - ystart ?y < (if leap ?y then 366 else 365)"
    using year_of_bounds[of d] by (simp_all add: ystart_step)
  note b = month0_bounds[OF doy]
  from b show "mstart (month_index d) \<le> d" by (simp add: mstart_def idx)
  have "mstart (month_index d + 1) \<ge> ystart ?y + cum (leap ?y) (?m + 1)"
  proof (cases "?m = 11")
    case True
    then have "(month_index d + 1) div 12 = ?y + 1" "(month_index d + 1) mod 12 = 0" by (simp_all add: month_index_def)
    with True show ?thesis by (simp add: mstart_def ystart_step) (simp add: cum_def)
  next
    case False
    then have "(month_index d + 1) div 12 = ?y" "(month_index d + 1) mod 12 = ?m + 1"
      using month0_range[of "leap ?y" "d - ystart ?y"] step_index[of "month_index d"] idx by simp_all
    then show ?thesis by (simp add: mstart_def)
  qed
  with b show "d < mstart (month_index d + 1)" by simp
qed

lemma month_index_mono: "d \<le> e \<Longrightarrow> month_index d \<le> month_index e"
  using month_index_bounds[of d] month_index_bounds[of e] mstart_mono[of "month_index e + 1" "month_index d"]
  by (metis add1_zle_eq linorder_not_less order.strict_trans1 order_trans)

lemma month_index_less: "e < mstart j \<Longrightarrow> month_index e < j"
  using month_index_bounds(1)[of e] mstart_mono[of j "month_index e"] by (metis linorder_not_less order_trans)

lemma date_index: "1 \<le> m \<Longrightarrow> m \<le> 12 \<Longrightarrow> date y m 1 = mstart (12 * y + (m - 1))"
  by (simp add: date_def mstart_def)

end
