(* ===== verification/Cron_Search.thy ===== *)
theory Cron_Search
  imports Go_Time
begin

section \<open>Cron expressions: the search for the next run\<close>

text \<open>
  \<^verbatim>\<open>src/src/scheduler/cron.go\<close>, the part that computes: field sets, parsed expressions and
  \<^verbatim>\<open>Next\<close> with its three ways to skip ahead. Expressions fire on whole minutes, so the search
  runs on minute numbers: minutes since the first of January 1970 on the clock of the
  location. The location is a zone with a fixed offset from UTC in whole minutes; the same loop
  in a zone with transitions is in the theory Cron_Zone. Years are unbounded.

  The search is shown to return the first minute that matches, and never to step over one.
\<close>

subsection \<open>Field sets and expressions\<close>

record fieldSet =
  bits :: "bool list"   \<comment> \<open>64 of them\<close>
  is_star :: bool

definition star :: fieldSet where "star = \<lparr>bits = replicate 64 False, is_star = True\<rparr>"

definition single :: "nat \<Rightarrow> fieldSet" where
  "single v = \<lparr>bits = (replicate 64 False)[v := True], is_star = False\<rparr>"

definition field_contains :: "fieldSet \<Rightarrow> int \<Rightarrow> bool" where
  "field_contains f v =
     (if is_star f then True
      else if v < 0 \<or> v \<ge> int (length (bits f)) then False
      else bits f ! nat v)"

record cronExpr =
  c_raw :: string
  c_minute :: fieldSet
  c_hour :: fieldSet
  c_dom :: fieldSet
  c_month :: fieldSet
  c_dow :: fieldSet

subsection \<open>The civil reading of a minute number\<close>

definition day_nr :: "int \<Rightarrow> int" where "day_nr n = n div 1440"
definition t_Hour :: "int \<Rightarrow> int" where "t_Hour n = n mod 1440 div 60"
definition t_Minute :: "int \<Rightarrow> int" where "t_Minute n = n mod 60"

definition dayMatches :: "cronExpr \<Rightarrow> int \<Rightarrow> bool" where
  "dayMatches c n =
     (let domOK = field_contains (c_dom c) (day_of_month (day_nr n));
          dowOK = field_contains (c_dow c) (weekday_of (day_nr n))
      in if is_star (c_dom c) \<and> is_star (c_dow c) then True
         else if is_star (c_dom c) then dowOK
         else if is_star (c_dow c) then domOK
         else domOK \<or> dowOK)"

subsection \<open>Skipping ahead\<close>

text \<open>Midnight that starts the given day.\<close>

definition midnight :: "int \<Rightarrow> int" where "midnight d = 1440 * d"

fun month_scan :: "fieldSet \<Rightarrow> nat \<Rightarrow> int \<Rightarrow> int \<Rightarrow> (int \<times> int) option" where
  "month_scan f 0 m year = None"
| "month_scan f (Suc i) m year =
     (let (m1, year1) = (if m > 12 then (1, year + 1) else (m, year))
      in if field_contains f m1 then Some (year1, m1) else month_scan f i (m1 + 1) year1)"

definition advanceToMonth :: "fieldSet \<Rightarrow> int \<Rightarrow> int" where
  "advanceToMonth f n =
     (case month_scan f 12 (month_of (day_nr n) + 1) (year_of (day_nr n)) of
        Some (year, m) \<Rightarrow> midnight (date year m 1)
      | None \<Rightarrow> n + 365 * 24 * 60)"

text \<open>The loops over the hours of a day and the minutes of an hour: the first value below the
  bound that the field contains.\<close>

fun value_scan :: "fieldSet \<Rightarrow> int \<Rightarrow> nat \<Rightarrow> int \<Rightarrow> int option" where
  "value_scan f hi 0 v = None"
| "value_scan f hi (Suc i) v =
     (if v \<ge> hi then None else if field_contains f v then Some v else value_scan f hi i (v + 1))"

definition advanceToHour :: "fieldSet \<Rightarrow> int \<Rightarrow> int" where
  "advanceToHour f n =
     (let day = midnight (day_nr n)
      in case value_scan f 24 24 (t_Hour n + 1) of Some h \<Rightarrow> day + h * 60 | None \<Rightarrow> day + 24 * 60)"

definition advanceToMinute :: "fieldSet \<Rightarrow> int \<Rightarrow> int" where
  "advanceToMinute f n =
     (let hour = midnight (day_nr n) + t_Hour n * 60
      in case value_scan f 60 60 (t_Minute n + 1) of Some m \<Rightarrow> hour + m | None \<Rightarrow> hour + 60)"

lemma minute_split: "n = midnight (day_nr n) + t_Hour n * 60 + t_Minute n"
proof -
  have "n mod 1440 mod 60 = n mod 60" by (rule mod_mod_cancel) simp
  then have "n mod 1440 = 60 * (n mod 1440 div 60) + n mod 60" using mult_div_mod_eq[of 60 "n mod 1440"] by simp
  moreover have "n = 1440 * (n div 1440) + n mod 1440" by (simp only: mult_div_mod_eq)
  ultimately show ?thesis unfolding midnight_def day_nr_def t_Hour_def t_Minute_def by linarith
qed

lemma clock_bounds: "0 \<le> t_Hour n" "t_Hour n < 24" "0 \<le> t_Minute n" "t_Minute n < 60"
proof -
  have "0 \<le> n mod 1440" "n mod 1440 < 24 * 60" by simp_all
  then show "0 \<le> t_Hour n" "t_Hour n < 24"
    by (simp_all add: t_Hour_def div_int_pos_iff div_less_iff_less_mult del: pos_mod_bound pos_mod_sign)
qed (simp_all add: t_Minute_def)

lemma clock_unique:
  assumes "n = midnight d + h * 60 + m" "0 \<le> h" "h < 24" "0 \<le> m" "m < 60"
  shows "day_nr n = d" "t_Hour n = h" "t_Minute n = m"
proof -
  have r: "n = 1440 * d + (h * 60 + m)" "0 \<le> h * 60 + m" "h * 60 + m < 1440"
    using assms by (simp_all add: midnight_def)
  then have "n div 1440 = d" "n mod 1440 = h * 60 + m" by (auto intro: int_div_pos_eq int_mod_pos_eq)
  moreover have "(h * 60 + m) div 60 = h" using assms by (intro int_div_pos_eq[of _ 60 h m]) simp_all
  ultimately show "day_nr n = d" "t_Hour n = h" by (simp_all add: day_nr_def t_Hour_def)
  have "n = 60 * (24 * d + h) + m" using r(1) by simp
  then show "t_Minute n = m" unfolding t_Minute_def using assms(4,5) by (rule int_mod_pos_eq)
qed

lemma day_nr_mono: "n \<le> k \<Longrightarrow> day_nr n \<le> day_nr k"
  by (simp add: day_nr_def zdiv_mono1)

lemma day_nr_less: "k < midnight d \<longleftrightarrow> day_nr k < d"
proof -
  have "k = 1440 * day_nr k + k mod 1440" "0 \<le> k mod 1440" "k mod 1440 < 1440" by (simp_all add: day_nr_def)
  then show ?thesis unfolding midnight_def by linarith
qed

lemma month_of_index: "month_of d = month_index d mod 12 + 1" "year_of d = month_index d div 12"
  using month0_range[of "leap (year_of d)" "d - ystart (year_of d)"]
  by (simp_all add: month_of_def month_index_def)

subsection \<open>What the scans find\<close>

text \<open>The first of \<open>i\<close> consecutive numbers that satisfies a predicate; both scans are instances.\<close>

fun first_from :: "(int \<Rightarrow> bool) \<Rightarrow> nat \<Rightarrow> int \<Rightarrow> int option" where
  "first_from P 0 k = None"
| "first_from P (Suc i) k = (if P k then Some k else first_from P i (k + 1))"

lemma first_from_Some:
  "first_from P i k = Some j \<Longrightarrow> k \<le> j \<and> j < k + int i \<and> P j \<and> (\<forall>l. k \<le> l \<and> l < j \<longrightarrow> \<not> P l)"
proof (induction P i k rule: first_from.induct)
  case (2 P i k)
  show ?case
  proof (cases "P k")
    case False
    with "2.prems" have "first_from P i (k + 1) = Some j" by simp
    with "2.IH"[OF False] have ih: "k + 1 \<le> j" "j < k + 1 + int i" "P j" "\<forall>l. k + 1 \<le> l \<and> l < j \<longrightarrow> \<not> P l"
      by blast+
    have "\<not> P l" if "k \<le> l" "l < j" for l
      using that ih(4) False by (cases "l = k") auto
    with ih show ?thesis by auto
  qed (use "2.prems" in auto)
qed simp

lemma first_from_None: "first_from P i k = None \<Longrightarrow> k \<le> l \<Longrightarrow> l < k + int i \<Longrightarrow> \<not> P l"
proof (induction P i k rule: first_from.induct)
  case (2 P i k)
  then show ?case by (cases "l = k") (auto split: if_splits)
qed simp

lemma month_scan_first:
  "1 \<le> m \<Longrightarrow> m \<le> 13 \<Longrightarrow>
   month_scan f i m year =
     map_option (\<lambda>j. (j div 12, j mod 12 + 1)) (first_from (\<lambda>j. field_contains f (j mod 12 + 1)) i (12 * year + (m - 1)))"
proof (induction f i m year rule: month_scan.induct)
  case (2 f i m year)
  define m' year' where mdefs: "m' = (if m > 12 then 1 else m)" "year' = (if m > 12 then year + 1 else year)"
  have m': "1 \<le> m'" "m' \<le> 12" "12 * year + (m - 1) = 12 * year' + (m' - 1)"
    using "2.prems" by (auto simp: mdefs)
  have cur: "(12 * year' + (m' - 1)) div 12 = year'" "(12 * year' + (m' - 1)) mod 12 + 1 = m'"
    using m'(1,2) by simp_all
  have step: "month_scan f (Suc i) m year =
    (if field_contains f m' then Some (year', m') else month_scan f i (m' + 1) year')"
    by (simp add: mdefs)
  have pair: "(m', year') = (if m > 12 then (1, year + 1) else (m, year))" by (simp add: mdefs)
  have "month_scan f i (m' + 1) year' = map_option (\<lambda>j. (j div 12, j mod 12 + 1))
    (first_from (\<lambda>j. field_contains f (j mod 12 + 1)) i (12 * year' + (m' - 1) + 1))"
    if "\<not> field_contains f m'"
    using "2.IH"[OF pair refl that] m' by simp
  note rest = this
  show ?case
  proof (cases "field_contains f m'")
    case True
    then show ?thesis unfolding step m'(3) by (simp only: first_from.simps cur if_True option.map)
  next
    case False
    from rest[OF False] show ?thesis unfolding step m'(3) by (simp only: first_from.simps cur False if_False)
  qed
qed simp

lemma value_scan_first: "value_scan f hi i v = first_from (field_contains f) (min i (nat (hi - v))) v"
proof (induction f hi i v rule: value_scan.induct)
  case (2 f hi i v)
  show ?case
  proof (cases "v \<ge> hi")
    case False
    then have "nat (hi - v) = Suc (nat (hi - (v + 1)))" by simp
    with False "2.IH" show ?thesis by simp
  qed simp
qed simp

lemma value_scan_next:
  assumes "u = (case value_scan f hi (nat hi) (v + 1) of Some h \<Rightarrow> h | None \<Rightarrow> hi)" "0 \<le> v" "v < hi"
  shows "v < u \<and> u \<le> hi \<and> (\<forall>l. v < l \<and> l < u \<longrightarrow> \<not> field_contains f l)"
proof -
  have scan: "value_scan f hi (nat hi) (v + 1) = first_from (field_contains f) (nat (hi - (v + 1))) (v + 1)"
    using assms by (simp add: value_scan_first min_def)
  show ?thesis
  proof (cases "first_from (field_contains f) (nat (hi - (v + 1))) (v + 1)")
    case None
    have "\<not> field_contains f l" if "v < l" "l < hi" for l
      using first_from_None[OF None, of l] that assms by simp
    with None show ?thesis using assms by (simp add: scan)
  next
    case (Some h)
    from first_from_Some[OF Some] have "v + 1 \<le> h" "h < v + 1 + int (nat (hi - (v + 1)))"
      "\<forall>l. v + 1 \<le> l \<and> l < h \<longrightarrow> \<not> field_contains f l" by blast+
    with Some show ?thesis using assms by (simp add: scan)
  qed
qed

subsection \<open>No way to skip ahead steps over a match\<close>

lemma advanceToMonth_skips:
  assumes "\<not> field_contains f (month_of (day_nr n))"
  shows "n < advanceToMonth f n \<and>
    (\<forall>k. n \<le> k \<and> k < advanceToMonth f n \<longrightarrow> \<not> field_contains f (month_of (day_nr k)))"
proof -
  let ?i = "month_index (day_nr n)" and ?P = "\<lambda>j. field_contains f (j mod 12 + 1)"
  have scan: "month_scan f 12 (month_of (day_nr n) + 1) (year_of (day_nr n)) =
    map_option (\<lambda>j. (j div 12, j mod 12 + 1)) (first_from ?P 12 (?i + 1))"
    using month_scan_first[of "month_of (day_nr n) + 1" f 12 "year_of (day_nr n)"]
    by (simp add: month_of_index algebra_simps)
  show ?thesis
  proof (cases "first_from ?P 12 (?i + 1)")
    case None
    have "\<not> ?P j" for j
    proof -
      let ?l = "?i + 1 + (j - ?i - 1) mod 12"
      have "\<not> ?P ?l" using first_from_None[OF None, of ?l] by simp
      moreover have "?l mod 12 = j mod 12" by (simp add: mod_simps)
      ultimately show ?thesis by metis
    qed
    then show ?thesis unfolding advanceToMonth_def scan None by (simp add: month_of_index)
  next
    case (Some j)
    note j = first_from_Some[OF Some]
    have adv: "advanceToMonth f n = midnight (mstart j)"
      unfolding advanceToMonth_def scan Some by (simp add: date_index)
    have "day_nr n < mstart j"
      using month_index_bounds(2)[of "day_nr n"] mstart_mono[of "?i + 1" j] j by linarith
    moreover have "\<not> ?P (month_index (day_nr k))" if k: "n \<le> k" "day_nr k < mstart j" for k
    proof -
      have "?i \<le> month_index (day_nr k)" "month_index (day_nr k) < j"
        using k day_nr_mono month_index_mono month_index_less by auto
      moreover have "\<not> ?P ?i" using assms by (simp add: month_of_index)
      ultimately show ?thesis using j by (cases "month_index (day_nr k) = ?i") auto
    qed
    ultimately show ?thesis unfolding adv day_nr_less by (simp add: month_of_index)
  qed
qed

lemma next_day_skips:
  "n < midnight (day_nr n + 1) \<and> (\<forall>k. n \<le> k \<and> k < midnight (day_nr n + 1) \<longrightarrow> day_nr k = day_nr n)"
  unfolding day_nr_less using day_nr_mono by fastforce

lemma advanceToHour_skips:
  assumes "\<not> field_contains f (t_Hour n)"
  shows "n < advanceToHour f n \<and>
    (\<forall>k. n \<le> k \<and> k < advanceToHour f n \<longrightarrow> \<not> field_contains f (t_Hour k))"
proof -
  define u where "u = (case value_scan f 24 24 (t_Hour n + 1) of Some h \<Rightarrow> h | None \<Rightarrow> 24)"
  have adv: "advanceToHour f n = midnight (day_nr n) + u * 60"
    by (simp add: advanceToHour_def u_def Let_def split: option.split)
  have u: "t_Hour n < u" "u \<le> 24" "\<forall>l. t_Hour n < l \<and> l < u \<longrightarrow> \<not> field_contains f l"
    using value_scan_next[where u = u and f = f and hi = 24 and v = "t_Hour n"] clock_bounds[of n] by (simp_all add: u_def)
  have "n < advanceToHour f n"
    using minute_split[of n] clock_bounds[of n] u(1) unfolding adv by linarith
  moreover have "\<not> field_contains f (t_Hour k)" if k: "n \<le> k" "k < midnight (day_nr n) + u * 60" for k
  proof -
    have "k < midnight (day_nr n + 1)" using k(2) u(2) by (simp add: midnight_def)
    then have day: "day_nr k = day_nr n" using next_day_skips k(1) by blast
    have "t_Hour n * 60 + t_Minute n \<le> t_Hour k * 60 + t_Minute k" "t_Hour k * 60 + t_Minute k < u * 60"
      using minute_split[of n] minute_split[of k] k unfolding day by linarith+
    then have "t_Hour n \<le> t_Hour k" "t_Hour k < u" using clock_bounds[of n] clock_bounds[of k] by linarith+
    then show ?thesis using u(3) assms by (cases "t_Hour k = t_Hour n") auto
  qed
  ultimately show ?thesis unfolding adv by blast
qed

lemma advanceToMinute_skips:
  assumes "\<not> field_contains f (t_Minute n)"
  shows "n < advanceToMinute f n \<and>
    (\<forall>k. n \<le> k \<and> k < advanceToMinute f n \<longrightarrow> \<not> field_contains f (t_Minute k))"
proof -
  define u where "u = (case value_scan f 60 60 (t_Minute n + 1) of Some h \<Rightarrow> h | None \<Rightarrow> 60)"
  let ?hour = "midnight (day_nr n) + t_Hour n * 60"
  have adv: "advanceToMinute f n = ?hour + u"
    by (simp add: advanceToMinute_def u_def Let_def split: option.split)
  have u: "t_Minute n < u" "u \<le> 60" "\<forall>l. t_Minute n < l \<and> l < u \<longrightarrow> \<not> field_contains f l"
    using value_scan_next[where u = u and f = f and hi = 60 and v = "t_Minute n"] clock_bounds[of n] by (simp_all add: u_def)
  have "n < ?hour + u" using minute_split[of n] u(1) by linarith
  moreover have "\<not> field_contains f (t_Minute k)" if k: "n \<le> k" "k < ?hour + u" for k
  proof -
    have m: "t_Minute n \<le> k - ?hour" "k - ?hour < u" using minute_split[of n] k by linarith+
    have "t_Minute k = k - ?hour"
      using clock_unique(3)[of k "day_nr n" "t_Hour n" "k - ?hour"] clock_bounds[of n] m u(2) by linarith
    then show ?thesis using u(3) assms m by (cases "k - ?hour = t_Minute n") auto
  qed
  ultimately show ?thesis unfolding adv by blast
qed

subsection \<open>Next\<close>

definition cron_matches :: "cronExpr \<Rightarrow> int \<Rightarrow> bool" where
  "cron_matches c n \<longleftrightarrow> field_contains (c_month c) (month_of (day_nr n)) \<and> dayMatches c n \<and>
     field_contains (c_hour c) (t_Hour n) \<and> field_contains (c_minute c) (t_Minute n)"

text \<open>The loop of \<^verbatim>\<open>Next\<close>; \<^const>\<open>None\<close> when the limit is reached.\<close>

function cron_loop :: "cronExpr \<Rightarrow> int \<Rightarrow> int \<Rightarrow> int option" where
  "cron_loop c limit n =
     (if n < limit then
        if \<not> field_contains (c_month c) (month_of (day_nr n)) then cron_loop c limit (advanceToMonth (c_month c) n)
        else if \<not> dayMatches c n then cron_loop c limit (midnight (day_nr n + 1))
        else if \<not> field_contains (c_hour c) (t_Hour n) then cron_loop c limit (advanceToHour (c_hour c) n)
        else if \<not> field_contains (c_minute c) (t_Minute n) then cron_loop c limit (advanceToMinute (c_minute c) n)
        else Some n
      else None)"
  by pat_completeness auto
termination
  by (relation "measure (\<lambda>(c, limit, n). nat (limit - n))")
    (use advanceToMonth_skips next_day_skips advanceToHour_skips advanceToMinute_skips in auto)

declare cron_loop.simps [simp del]

definition nextLimit :: int where "nextLimit = 4 * 365 * 24 * 60"

definition cron_Next :: "int \<Rightarrow> cronExpr \<Rightarrow> instant \<Rightarrow> instant" where
  "cron_Next off c t =
     (let nxt = t - t mod Minute + Minute; n = nxt div Minute + off
      in case cron_loop c (n + nextLimit) n of None \<Rightarrow> zero_time | Some k \<Rightarrow> (k - off) * Minute)"

text \<open>From a minute on, up to a limit: the first match, or none.\<close>

definition first_match :: "cronExpr \<Rightarrow> int \<Rightarrow> int \<Rightarrow> int option \<Rightarrow> bool" where
  "first_match c n limit r \<longleftrightarrow>
     (case r of
        Some k \<Rightarrow> n \<le> k \<and> k < limit \<and> cron_matches c k \<and> (\<forall>j. n \<le> j \<and> j < k \<longrightarrow> \<not> cron_matches c j)
      | None \<Rightarrow> \<forall>j. n \<le> j \<and> j < limit \<longrightarrow> \<not> cron_matches c j)"

lemma first_match_skip:
  assumes "first_match c n' limit r" "n < n' \<and> (\<forall>k. n \<le> k \<and> k < n' \<longrightarrow> \<not> cron_matches c k)"
  shows "first_match c n limit r"
  using assms unfolding first_match_def
  by (cases r) (simp_all, meson linorder_not_less, meson linorder_not_less less_imp_le order_trans)

lemma dayMatches_day: "day_nr k = day_nr n \<Longrightarrow> dayMatches c k = dayMatches c n"
  by (simp add: dayMatches_def)

lemma cron_loop_first: "first_match c n limit (cron_loop c limit n)"
proof (induction c limit n rule: cron_loop.induct)
  case (1 c limit n)
  show ?case
  proof (cases "n < limit")
    case False
    then show ?thesis by (subst cron_loop.simps) (auto simp: first_match_def)
  next
    case lim: True
    consider (month) "\<not> field_contains (c_month c) (month_of (day_nr n))"
      | (day) "field_contains (c_month c) (month_of (day_nr n))" "\<not> dayMatches c n"
      | (hour) "field_contains (c_month c) (month_of (day_nr n))" "dayMatches c n" "\<not> field_contains (c_hour c) (t_Hour n)"
      | (minute) "field_contains (c_month c) (month_of (day_nr n))" "dayMatches c n" "field_contains (c_hour c) (t_Hour n)"
          "\<not> field_contains (c_minute c) (t_Minute n)"
      | (hit) "field_contains (c_month c) (month_of (day_nr n))" "dayMatches c n" "field_contains (c_hour c) (t_Hour n)"
          "field_contains (c_minute c) (t_Minute n)"
      by blast
    then show ?thesis
    proof cases
      case month
      with "1.IH"(1)[OF lim] advanceToMonth_skips[OF month] lim show ?thesis
        by (subst cron_loop.simps) (simp add: cron_matches_def first_match_skip)
    next
      case day
      have "n < midnight (day_nr n + 1) \<and> (\<forall>k. n \<le> k \<and> k < midnight (day_nr n + 1) \<longrightarrow> \<not> cron_matches c k)"
        using next_day_skips[of n] dayMatches_day day(2) unfolding cron_matches_def by metis
      with "1.IH"(2)[OF lim] day lim show ?thesis
        by (subst cron_loop.simps) (simp add: first_match_skip)
    next
      case hour
      with "1.IH"(3)[OF lim] advanceToHour_skips[OF hour(3)] lim show ?thesis
        by (subst cron_loop.simps) (simp add: cron_matches_def first_match_skip)
    next
      case minute
      with "1.IH"(4)[OF lim] advanceToMinute_skips[OF minute(4)] lim show ?thesis
        by (subst cron_loop.simps) (simp add: cron_matches_def first_match_skip)
    next
      case hit
      with lim show ?thesis by (subst cron_loop.simps) (auto simp: first_match_def cron_matches_def)
    qed
  qed
qed

text \<open>An instant fires when it is a whole minute whose reading on the clock of the location matches;
  it is due after \<open>t\<close> when it lies within the span that \<^verbatim>\<open>Next\<close> looks at.\<close>

definition fires :: "int \<Rightarrow> cronExpr \<Rightarrow> instant \<Rightarrow> bool" where
  "fires off c u \<longleftrightarrow> u mod Minute = 0 \<and> cron_matches c (u div Minute + off)"

definition due :: "int \<Rightarrow> cronExpr \<Rightarrow> instant \<Rightarrow> instant \<Rightarrow> bool" where
  "due off c t u \<longleftrightarrow> fires off c u \<and> t < u \<and> u < t - t mod Minute + Minute + nextLimit * Minute"

lemma minutes: "(k * Minute) mod Minute = 0" "(k * Minute) div Minute = k"
  by (simp_all add: Minute_def)

lemma due_minute:
  "due off c t (k * Minute) \<longleftrightarrow>
   cron_matches c (k + off) \<and> t div Minute + 1 \<le> k \<and> k < t div Minute + 1 + nextLimit"
proof -
  have t: "t = t div 60000000000 * 60000000000 + t mod 60000000000"
    "0 \<le> t mod 60000000000" "t mod 60000000000 < 60000000000" by simp_all
  have "t < k * Minute \<longleftrightarrow> t div Minute + 1 \<le> k" unfolding Minute_def using t by linarith
  moreover have "k * Minute < t - t mod Minute + Minute + nextLimit * Minute \<longleftrightarrow> k < t div Minute + 1 + nextLimit"
    unfolding Minute_def nextLimit_def using t(1) by linarith
  ultimately show ?thesis by (auto simp: due_def fires_def minutes)
qed

lemma due_multiple: "due off c t u \<Longrightarrow> u = u div Minute * Minute"
  by (auto simp: due_def fires_def)

lemma first_minute: "(t - t mod Minute + Minute) div Minute = t div Minute + 1"
proof -
  have "t - t mod Minute + Minute = (t div Minute + 1) * Minute" by (simp add: minus_mod_eq_div_mult algebra_simps)
  then show ?thesis by (simp only: minutes)
qed

text \<open>C18: \<^verbatim>\<open>Next\<close> returns the first instant at which the expression fires. If the expression fires at
  all within the 1460 days after the given instant, the result is such an instant and none of
  them comes before it, for every expression, every starting instant and every fixed zone
  offset; otherwise the result is the zero time. In particular the search always ends, and
  skipping to the next month, day, hour or minute never steps over a run.\<close>

theorem cron_Next_first:
  "if \<exists>u. due off c t u
   then due off c t (cron_Next off c t) \<and> (\<forall>u. due off c t u \<longrightarrow> cron_Next off c t \<le> u)
   else cron_Next off c t = zero_time"
proof -
  let ?n = "t div Minute + 1 + off"
  have nxt: "cron_Next off c t =
    (case cron_loop c (?n + nextLimit) ?n of None \<Rightarrow> zero_time | Some k \<Rightarrow> (k - off) * Minute)"
    unfolding cron_Next_def Let_def first_minute by (simp add: add.commute add.left_commute)
  have iff: "due off c t ((k - off) * Minute) \<longleftrightarrow> cron_matches c k \<and> ?n \<le> k \<and> k < ?n + nextLimit" for k
    using due_minute[of off c t "k - off"] by auto
  have shift: "\<exists>k. u = (k - off) * Minute" if "due off c t u" for u
    using due_multiple[OF that] by (metis add_diff_cancel_right')
  note fm = cron_loop_first[of c ?n "?n + nextLimit", unfolded first_match_def]
  show ?thesis
  proof (cases "cron_loop c (?n + nextLimit) ?n")
    case None
    with fm have "\<not> due off c t ((k - off) * Minute)" for k using iff[of k] by auto
    then have "\<not> (\<exists>u. due off c t u)" using shift by metis
    then show ?thesis by (simp add: nxt None)
  next
    case (Some k)
    with fm have k: "due off c t ((k - off) * Minute)" "\<And>j. ?n \<le> j \<Longrightarrow> j < k \<Longrightarrow> \<not> cron_matches c j"
      using iff[of k] by auto
    have "(k - off) * Minute \<le> u" if d: "due off c t u" for u
    proof -
      obtain j where j: "u = (j - off) * Minute" using shift[OF d] by blast
      with d iff[of j] have "k \<le> j" using k(2)[of j] by (meson linorder_not_less)
      with j show ?thesis by (simp add: Minute_def)
    qed
    with k(1) show ?thesis by (auto simp: nxt Some)
  qed
qed

text \<open>Half past four on the first and the fifteenth and on Fridays, asked on a Saturday noon in March
  2024: the next run is the Friday after.\<close>

definition demo_expr :: cronExpr where
  "demo_expr = \<lparr>c_raw = ''30 4 1,15 * 5'', c_minute = single 30, c_hour = single 4,
     c_dom = \<lparr>bits = (replicate 64 False)[1 := True, 15 := True], is_star = False\<rparr>,
     c_month = star, c_dow = single 5\<rparr>"

theorem cron_Next_first_witness:
  "due 0 demo_expr 1710590400000000000 1711081800000000000 \<and>
   due 0 demo_expr 1710590400000000000 (cron_Next 0 demo_expr 1710590400000000000) \<and>
   cron_Next 0 demo_expr 1710590400000000000 \<le> 1711081800000000000"
proof -
  have d: "due 0 demo_expr 1710590400000000000 1711081800000000000" by code_simp
  then have ex: "\<exists>u. due 0 demo_expr 1710590400000000000 u" by blast
  from cron_Next_first[of 0 demo_expr 1710590400000000000] d show ?thesis
    unfolding if_P[OF ex] by blast
qed

end
