(* ===== verification/Cron_Cost.thy ===== *)
theory Cron_Cost
  imports Cron_Search
begin

section \<open>The cost of the search for the next run\<close>

text \<open>
  How often the loop of \<^verbatim>\<open>Next\<close> in \<^verbatim>\<open>src/src/scheduler/cron.go\<close> turns: after the first turn every candidate
  is a full hour, or the answer.
\<close>

function cron_iterations :: "cronExpr \<Rightarrow> int \<Rightarrow> int \<Rightarrow> nat" where
  "cron_iterations c limit n =
     (if n < limit then
        1 + (if \<not> field_contains (c_month c) (month_of (day_nr n)) then cron_iterations c limit (advanceToMonth (c_month c) n)
             else if \<not> dayMatches c n then cron_iterations c limit (midnight (day_nr n + 1))
             else if \<not> field_contains (c_hour c) (t_Hour n) then cron_iterations c limit (advanceToHour (c_hour c) n)
             else if \<not> field_contains (c_minute c) (t_Minute n) then cron_iterations c limit (advanceToMinute (c_minute c) n)
             else 0)
      else 0)"
  by pat_completeness auto
termination
  by (relation "measure (\<lambda>(c, limit, n). nat (limit - n))")
    (use advanceToMonth_skips next_day_skips advanceToHour_skips advanceToMinute_skips in auto)

declare cron_iterations.simps [simp del]

definition full_hour :: "int \<Rightarrow> bool" where "full_hour n \<longleftrightarrow> n mod 60 = 0"

lemma full_hours:
  "full_hour (midnight d)"
  "full_hour (midnight d + h * 60)"
  by (simp_all add: full_hour_def midnight_def mod_simps)

lemma full_hour_step: "full_hour n \<Longrightarrow> full_hour k \<Longrightarrow> n < k \<Longrightarrow> n + 60 \<le> k"
  unfolding full_hour_def by presburger

text \<open>Where a turn that does not answer goes: to a full hour, a year ahead when no month is allowed, or to a
  match in the same hour.\<close>

lemma advance_targets:
  "full_hour (advanceToMonth f n) \<or> advanceToMonth f n = n + 525600"
  "full_hour (advanceToHour f n)"
  using full_hours(2)[of "day_nr n" 24]
  by (auto simp: advanceToMonth_def advanceToHour_def Let_def full_hours split: option.splits prod.splits)

lemma minute_target:
  assumes no: "\<not> field_contains (c_minute c) (t_Minute n)"
    and ok: "field_contains (c_month c) (month_of (day_nr n))" "dayMatches c n" "field_contains (c_hour c) (t_Hour n)"
  shows "full_hour (advanceToMinute (c_minute c) n) \<or> cron_matches c (advanceToMinute (c_minute c) n)"
proof -
  let ?hour = "midnight (day_nr n) + t_Hour n * 60" and ?k = "advanceToMinute (c_minute c) n"
  define u where "u = (case value_scan (c_minute c) 60 60 (t_Minute n + 1) of Some h \<Rightarrow> h | None \<Rightarrow> 60)"
  have adv: "?k = ?hour + u" by (simp add: advanceToMinute_def u_def Let_def split: option.split)
  have u: "t_Minute n < u" "u \<le> 60"
    using value_scan_next[where u = u and f = "c_minute c" and hi = 60 and v = "t_Minute n"] clock_bounds[of n] by (simp_all add: u_def)
  show ?thesis
  proof (cases "u = 60")
    case True
    have "?k = midnight (day_nr n) + (t_Hour n + 1) * 60" unfolding adv True by simp
    then show ?thesis by (metis full_hours(2))
  next
    case False
    then have some: "value_scan (c_minute c) 60 60 (t_Minute n + 1) = Some u"
      by (simp add: u_def split: option.splits)
    have "value_scan (c_minute c) 60 60 (t_Minute n + 1) =
        first_from (field_contains (c_minute c)) (nat (60 - (t_Minute n + 1))) (t_Minute n + 1)"
    proof -
      have "min 60 (nat (60 - (t_Minute n + 1))) = nat (60 - (t_Minute n + 1))" using clock_bounds[of n] by simp
      then show ?thesis by (simp only: value_scan_first)
    qed
    then have "field_contains (c_minute c) u" using first_from_Some some by metis
    moreover have "day_nr ?k = day_nr n" "t_Hour ?k = t_Hour n" "t_Minute ?k = u"
      using clock_unique[OF adv] clock_bounds[of n] u False by simp_all
    ultimately show ?thesis using ok by (simp add: cron_matches_def dayMatches_def)
  qed
qed

lemma match_ends: "cron_matches c n \<Longrightarrow> cron_iterations c limit n \<le> 1"
  by (subst cron_iterations.simps) (simp add: cron_matches_def)

definition hours_left :: "int \<Rightarrow> int \<Rightarrow> nat" where
  "hours_left limit n = nat ((limit - n + 59) div 60)"

lemma hours_left:
  "n \<le> k \<Longrightarrow> hours_left limit k \<le> hours_left limit n"
  "n < limit \<Longrightarrow> n + 60 \<le> k \<Longrightarrow> hours_left limit k + 1 \<le> hours_left limit n"
  "n < limit \<Longrightarrow> 1 \<le> hours_left limit n"
  unfolding hours_left_def by (auto intro!: nat_mono zdiv_mono1)

lemma iterations_bound: "cron_iterations c limit n \<le> hours_left limit n + (if full_hour n then 1 else 2)"
proof (induction c limit n rule: cron_iterations.induct)
  case (1 c limit n)
  show ?case
  proof (cases "n < limit")
    case False
    then show ?thesis by (subst cron_iterations.simps) simp
  next
    case lim: True
    note left = hours_left(3)[OF lim]
    have go: "1 + cron_iterations c limit k \<le> hours_left limit n + (if full_hour n then 1 else 2)"
      if "n < k" "full_hour k" "cron_iterations c limit k \<le> hours_left limit k + (if full_hour k then 1 else 2)" for k
      using that hours_left(1)[of n k limit] hours_left(2)[OF lim] full_hour_step[of n k] by fastforce
    consider (month) "\<not> field_contains (c_month c) (month_of (day_nr n))"
      | (day) "field_contains (c_month c) (month_of (day_nr n))" "\<not> dayMatches c n"
      | (hour) "field_contains (c_month c) (month_of (day_nr n))" "dayMatches c n" "\<not> field_contains (c_hour c) (t_Hour n)"
      | (minute) "field_contains (c_month c) (month_of (day_nr n))" "dayMatches c n" "field_contains (c_hour c) (t_Hour n)"
          "\<not> field_contains (c_minute c) (t_Minute n)"
      | (hit) "cron_matches c n" by (auto simp: cron_matches_def)
    then show ?thesis
    proof cases
      case month
      let ?k = "advanceToMonth (c_month c) n"
      have it: "cron_iterations c limit n = 1 + cron_iterations c limit ?k"
        using lim month by (subst cron_iterations.simps) simp
      note ih = "1.IH"(1)[OF lim month]
      show ?thesis
      proof (cases "full_hour ?k")
        case True
        then show ?thesis unfolding it using go ih advanceToMonth_skips[OF month] by blast
      next
        case False
        then have "?k = n + 525600" using advance_targets(1) by blast
        moreover have "full_hour (n + 525600) \<longleftrightarrow> full_hour n" unfolding full_hour_def by presburger
        ultimately show ?thesis unfolding it using ih hours_left(2)[OF lim, of ?k] by simp
      qed
    next
      case day
      have "cron_iterations c limit n = 1 + cron_iterations c limit (midnight (day_nr n + 1))"
        using lim day by (subst cron_iterations.simps) simp
      then show ?thesis using go[OF _ full_hours(1) "1.IH"(2)[OF lim _ day(2)]] day(1) next_day_skips by simp
    next
      case hour
      have "cron_iterations c limit n = 1 + cron_iterations c limit (advanceToHour (c_hour c) n)"
        using lim hour by (subst cron_iterations.simps) simp
      then show ?thesis
        using go[OF _ advance_targets(2) "1.IH"(3)[OF lim _ _ hour(3)]] hour(1,2) advanceToHour_skips[OF hour(3)] by simp
    next
      case minute
      let ?k = "advanceToMinute (c_minute c) n"
      have it: "cron_iterations c limit n = 1 + cron_iterations c limit ?k"
        using lim minute by (subst cron_iterations.simps) simp
      have ih: "cron_iterations c limit ?k \<le> hours_left limit ?k + (if full_hour ?k then 1 else 2)"
        using "1.IH"(4) lim minute by simp
      show ?thesis
        using minute_target[OF minute(4,1-3)] go[OF _ _ ih] advanceToMinute_skips[OF minute(4)] match_ends[of c ?k limit] left
        unfolding it by fastforce
    next
      case hit
      then show ?thesis using match_ends[OF hit, of limit] left by simp
    qed
  qed
qed

text \<open>The loop with a bound on its turns; \<^const>\<open>None\<close> when the bound is used up.\<close>

fun cron_run :: "nat \<Rightarrow> cronExpr \<Rightarrow> int \<Rightarrow> int \<Rightarrow> int option option" where
  "cron_run 0 c limit n = None"
| "cron_run (Suc k) c limit n =
     (if n < limit then
        if \<not> field_contains (c_month c) (month_of (day_nr n)) then cron_run k c limit (advanceToMonth (c_month c) n)
        else if \<not> dayMatches c n then cron_run k c limit (midnight (day_nr n + 1))
        else if \<not> field_contains (c_hour c) (t_Hour n) then cron_run k c limit (advanceToHour (c_hour c) n)
        else if \<not> field_contains (c_minute c) (t_Minute n) then cron_run k c limit (advanceToMinute (c_minute c) n)
        else Some (Some n)
      else Some None)"

lemma cron_run_enough: "cron_iterations c limit n < k \<Longrightarrow> cron_run k c limit n = Some (cron_loop c limit n)"
proof (induction k c limit n rule: cron_run.induct)
  case (2 k c limit n)
  note it = "2.prems"[unfolded cron_iterations.simps[of c limit n]]
  show ?case
    unfolding cron_loop.simps[of c limit n] using it "2.IH" by (auto split: if_splits)
qed simp

text \<open>C20: In a zone with a fixed offset from UTC (UTC, or one without daylight saving), the
  search for the next run always ends, and soon: whatever the expression and the time, the loop
  of \<^verbatim>\<open>Next\<close> gives its answer within 35042 turns, two more than there are hours in the four
  years it looks ahead; one test of the loop condition may follow. (Where a day has 25 hours the
  loop may not end: the theory Cron_Zone.)\<close>

theorem cron_search_ends:
  "cron_run 35043 c (n + nextLimit) n = Some (cron_loop c (n + nextLimit) n)"
proof (rule cron_run_enough)
  show "cron_iterations c (n + nextLimit) n < 35043"
    using iterations_bound[of c "n + nextLimit" n] by (simp add: hours_left_def nextLimit_def split: if_splits)
qed

end
