(* ===== verification/Cron_Zone.thy ===== *)
theory Cron_Zone
  imports Cron_Cost
begin

section \<open>Cron expressions in a zone with daylight saving\<close>

text \<open>
  The loop of \<^verbatim>\<open>Next\<close> in \<^verbatim>\<open>src/src/scheduler/cron.go\<close> once more, now in a zone whose offset from UTC
  depends on the instant: instants are minutes since 1970 in UTC, a zone gives the offset in
  minutes that holds at an instant, and \<^verbatim>\<open>time.Date\<close> finds the instant of a wall clock
  reading as Go's does. With a constant offset this is the loop of Cron_Search and Cron_Cost. Where a day has 25 hours
  the loop does not end: from the last hour of such a day \<^verbatim>\<open>advanceToHour\<close> goes to its midnight
  plus 24 hours, which is where it came from.
\<close>

type_synonym zone = "int \<Rightarrow> int"

definition wall :: "zone \<Rightarrow> int \<Rightarrow> int" where "wall z n = n + z n"

text \<open>\<^verbatim>\<open>time.Date\<close>: the offset is looked up at the reading taken for UTC, and again at the instant found
  with it; within one period both are the same.\<close>

definition z_Date :: "zone \<Rightarrow> int \<Rightarrow> int" where "z_Date z l = l - z (l - z l)"

definition z_advanceToMonth :: "zone \<Rightarrow> fieldSet \<Rightarrow> int \<Rightarrow> int" where
  "z_advanceToMonth z f n =
     (case month_scan f 12 (month_of (day_nr (wall z n)) + 1) (year_of (day_nr (wall z n))) of
        Some (year, m) \<Rightarrow> z_Date z (midnight (date year m 1))
      | None \<Rightarrow> n + 365 * 24 * 60)"

definition z_nextDay :: "zone \<Rightarrow> int \<Rightarrow> int" where
  "z_nextDay z n = z_Date z (midnight (day_nr (wall z n) + 1))"

definition z_advanceToHour :: "zone \<Rightarrow> fieldSet \<Rightarrow> int \<Rightarrow> int" where
  "z_advanceToHour z f n =
     (let day = z_Date z (midnight (day_nr (wall z n)))
      in case value_scan f 24 24 (t_Hour (wall z n) + 1) of Some h \<Rightarrow> day + h * 60 | None \<Rightarrow> day + 24 * 60)"

definition z_advanceToMinute :: "zone \<Rightarrow> fieldSet \<Rightarrow> int \<Rightarrow> int" where
  "z_advanceToMinute z f n =
     (let hour = z_Date z (midnight (day_nr (wall z n)) + t_Hour (wall z n) * 60)
      in case value_scan f 60 60 (t_Minute (wall z n) + 1) of Some m \<Rightarrow> hour + m | None \<Rightarrow> hour + 60)"

text \<open>The loop with a bound on its turns; \<^const>\<open>None\<close> when the bound is used up.\<close>

fun z_run :: "nat \<Rightarrow> zone \<Rightarrow> cronExpr \<Rightarrow> int \<Rightarrow> int \<Rightarrow> int option option" where
  "z_run 0 z c limit n = None"
| "z_run (Suc k) z c limit n =
     (if n < limit then
        if \<not> field_contains (c_month c) (month_of (day_nr (wall z n))) then z_run k z c limit (z_advanceToMonth z (c_month c) n)
        else if \<not> dayMatches c (wall z n) then z_run k z c limit (z_nextDay z n)
        else if \<not> field_contains (c_hour c) (t_Hour (wall z n)) then z_run k z c limit (z_advanceToHour z (c_hour c) n)
        else if \<not> field_contains (c_minute c) (t_Minute (wall z n)) then z_run k z c limit (z_advanceToMinute z (c_minute c) n)
        else Some (Some n)
      else Some None)"

subsection \<open>A constant offset\<close>

lemma constant_offset:
  "wall (\<lambda>_. q) n = n + q" "z_nextDay (\<lambda>_. q) n + q = midnight (day_nr (n + q) + 1)"
  "z_advanceToMonth (\<lambda>_. q) f n + q = advanceToMonth f (n + q)"
  "z_advanceToHour (\<lambda>_. q) f n + q = advanceToHour f (n + q)"
  "z_advanceToMinute (\<lambda>_. q) f n + q = advanceToMinute f (n + q)"
  by (simp_all add: wall_def z_nextDay_def z_Date_def z_advanceToMonth_def advanceToMonth_def z_advanceToHour_def
      advanceToHour_def z_advanceToMinute_def advanceToMinute_def Let_def split: option.split prod.split)

text \<open>With the same offset throughout, the loop finds the instants of the minutes the loop on wall clock
  readings finds, in as many turns.\<close>

theorem fixed_zone_runs_alike:
  "z_run k (\<lambda>_. q) c limit n = map_option (map_option (\<lambda>m. m - q)) (cron_run k c (limit + q) (n + q))"
proof (induction k arbitrary: n)
  case (Suc k)
  show ?case by (simp add: Suc.IH constant_offset)
qed simp

subsection \<open>A day of 25 hours\<close>

text \<open>An instant that shows 23 o'clock and is 24 hours after the midnight of its day is where the loop stays,
  if the expression allows the day and not this hour.\<close>

theorem long_day_never_ends:
  assumes wall: "wall z t = midnight D + 23 * 60" and day: "z_Date z (midnight D) + 24 * 60 = t"
    and allowed: "field_contains (c_month c) (month_of D)" "dayMatches c (midnight D)" "\<not> field_contains (c_hour c) 23"
    and "t < limit"
  shows "z_run k z c limit t = None"
proof -
  have w: "day_nr (wall z t) = D" "t_Hour (wall z t) = 23"
    using clock_unique[of "wall z t" D 23 0] wall by simp_all
  have "day_nr (midnight D) = D" using clock_unique(1)[of "midnight D" D 0 0] by simp
  then have m: "dayMatches c (wall z t)" using allowed(2) w(1) by (simp add: dayMatches_def)
  have "value_scan (c_hour c) 24 24 24 = None" by (simp add: numeral_eq_Suc)
  then have stay: "z_advanceToHour z (c_hour c) t = t"
    using day by (simp add: z_advanceToHour_def w)
  show ?thesis by (induction k) (simp_all add: w m stay allowed \<open>t < limit\<close>)
qed

text \<open>New York on the third of November 2024: daylight saving ends at 6:00 UTC. After its run at two o'clock
  a task with the expression \<^verbatim>\<open>0 2 * * *\<close> asks for the next one.\<close>

definition new_york :: zone where
  "new_york n = (if n < 28843560 then - 240 else - 300)"

definition daily_at_two :: cronExpr where
  "daily_at_two = \<lparr>c_raw = ''0 2 * * *'', c_minute = single 0, c_hour = single 2, c_dom = star, c_month = star, c_dow = star\<rparr>"

theorem next_hangs_at_end_of_summer_time:
  "z_run k new_york daily_at_two (28843621 + nextLimit) 28843621 = None"
proof -
  have far: "28844880 < (28843621 :: int) + nextLimit" "(28843621 :: int) < 28843621 + nextLimit" "28843680 < (28843621 :: int) + nextLimit"
    "0 < nextLimit"
    by (simp_all add: nextLimit_def)
  have "wall new_york 28844880 = midnight 20030 + 23 * 60" "z_Date new_york (midnight 20030) + 24 * 60 = 28844880"
    by (simp_all add: wall_def new_york_def z_Date_def midnight_def)
  moreover have any: "field_contains (c_month daily_at_two) x" "dayMatches daily_at_two y"
    "\<not> field_contains (c_hour daily_at_two) 23" for x y
    by (simp_all add: daily_at_two_def field_contains_def star_def single_def dayMatches_def)
  ultimately have stuck: "z_run j new_york daily_at_two (28843621 + nextLimit) 28844880 = None" for j
    using far(1) by (intro long_day_never_ends) simp_all
  have h1: "field_contains (c_hour daily_at_two) (t_Hour (wall new_york 28843621))"
    "\<not> field_contains (c_minute daily_at_two) (t_Minute (wall new_york 28843621))"
    "z_advanceToMinute new_york (c_minute daily_at_two) 28843621 = 28843680" by code_simp+
  have h2: "\<not> field_contains (c_hour daily_at_two) (t_Hour (wall new_york 28843680))"
    "z_advanceToHour new_york (c_hour daily_at_two) 28843680 = 28844880" by code_simp+
  have two: "z_run j new_york daily_at_two (28843621 + nextLimit) 28843680 = None" for j
    by (cases j) (simp_all add: any h2 far stuck)
  show ?thesis by (cases k) (simp_all add: any h1 far two)
qed

end
