(* ===== verification/Paste_Refinement.thy ===== *)
theory Paste_Refinement
  imports Paste_Store
begin

section \<open>The paste table refines a map\<close>

text \<open>
  The abstract store is a map from identifiers to pastes. Each paste operation of the
  database, run on a database that meets the schema's constraints, answers what the map
  answers and moves to a database that represents the new map; so does every sequence of
  operations. The theory also states what the paginated public listing returns.
\<close>

subsection \<open>Commands\<close>

datatype paste_cmd =
    Create paste
  | Get string
  | View string
  | Delete string
  | DeleteByToken string string
  | PurgeExpired
  | PurgeBurned
  | Count

datatype paste_reply =
    Failed db_error
  | Created paste
  | Found "paste option"
  | Viewed int bool
  | Done
  | Number int

fun exec_cmd :: "instant \<Rightarrow> paste_cmd \<Rightarrow> db \<Rightarrow> paste_reply \<times> db" where
  "exec_cmd now (Create p) d =
     (case CreatePaste False now p d of Inl e \<Rightarrow> (Failed e, d) | Inr (q, d') \<Rightarrow> (Created q, d'))"
| "exec_cmd now (Get pid) d =
     (case GetPasteByID False pid d of Inl e \<Rightarrow> (Failed e, d) | Inr r \<Rightarrow> (Found r, d))"
| "exec_cmd now (View pid) d =
     (case IncrementViewsAndCheckBurn False now pid d of
        Inl e \<Rightarrow> (Failed e, d) | Inr (n, b, d') \<Rightarrow> (Viewed n b, d'))"
| "exec_cmd now (Delete pid) d =
     (case DeletePaste False pid d of Inl e \<Rightarrow> (Failed e, d) | Inr d' \<Rightarrow> (Done, d'))"
| "exec_cmd now (DeleteByToken pid h) d =
     (case DeletePasteByToken False False pid h d of Inl e \<Rightarrow> (Failed e, d) | Inr d' \<Rightarrow> (Done, d'))"
| "exec_cmd now PurgeExpired d =
     (case DeleteExpiredPastes False now d of Inl e \<Rightarrow> (Failed e, d) | Inr (n, d') \<Rightarrow> (Number n, d'))"
| "exec_cmd now PurgeBurned d =
     (case DeleteBurnedPastes False d of Inl e \<Rightarrow> (Failed e, d) | Inr (n, d') \<Rightarrow> (Number n, d'))"
| "exec_cmd now Count d =
     (case CountPastes False d of Inl e \<Rightarrow> (Failed e, d) | Inr n \<Rightarrow> (Number n, d))"

subsection \<open>The specification\<close>

definition keep_if :: "('v \<Rightarrow> bool) \<Rightarrow> ('k \<rightharpoonup> 'v) \<Rightarrow> ('k \<rightharpoonup> 'v)" where
  "keep_if P m = (\<lambda>k. case m k of Some v \<Rightarrow> if P v then Some v else None | None \<Rightarrow> None)"

definition purge :: "(paste \<Rightarrow> bool) \<Rightarrow> (string \<rightharpoonup> paste) \<Rightarrow> paste_reply \<times> (string \<rightharpoonup> paste)" where
  "purge P m = (Number (int (card {k. \<exists>p. m k = Some p \<and> P p})), keep_if (\<lambda>p. \<not> P p) m)"

fun spec_cmd :: "instant \<Rightarrow> paste_cmd \<Rightarrow> (string \<rightharpoonup> paste) \<Rightarrow> paste_reply \<times> (string \<rightharpoonup> paste)" where
  "spec_cmd now (Create p) m =
     (if p_ID p \<in> dom m then (Failed ConstraintError, m)
      else (Created (normalized now p), m(p_ID p \<mapsto> normalized now p)))"
| "spec_cmd now (Get pid) m = (Found (m pid), m)"
| "spec_cmd now (View pid) m =
     (case m pid of
        None \<Rightarrow> (Failed (Errorf ''paste not found''), m)
      | Some p \<Rightarrow> (Viewed (p_Views p + 1) (burns p),
                   m(pid := if burns p then None else Some (viewed now p))))"
| "spec_cmd now (Delete pid) m =
     (if pid \<in> dom m then (Done, m(pid := None)) else (Failed (Errorf ''paste not found''), m))"
| "spec_cmd now (DeleteByToken pid h) m =
     (case m pid of
        Some p \<Rightarrow> if p_DeleteTokenHash p = h then (Done, m(pid := None))
                  else (Failed (Errorf ''paste not found or invalid token''), m)
      | None \<Rightarrow> (Failed (Errorf ''paste not found or invalid token''), m))"
| "spec_cmd now PurgeExpired m = purge (expired_at now) m"
| "spec_cmd now PurgeBurned m = purge burned_out m"
| "spec_cmd now Count m = (Number (int (card (dom m))), m)"

fun run_cmds :: "('c \<Rightarrow> 's \<Rightarrow> 'r \<times> 's) \<Rightarrow> 'c list \<Rightarrow> 's \<Rightarrow> 'r list \<times> 's" where
  "run_cmds f [] s = ([], s)"
| "run_cmds f (c # cs) s = (let (r, s1) = f c s; (rs, s2) = run_cmds f cs s1 in (r # rs, s2))"

subsection \<open>Simulation\<close>

text \<open>A functional simulation between two deterministic machines over the same commands.\<close>

locale simulation =
  fixes impl :: "'c \<Rightarrow> 's \<Rightarrow> 'r \<times> 's"
    and spec :: "'c \<Rightarrow> 'a \<Rightarrow> 'r \<times> 'a"
    and abs :: "'s \<Rightarrow> 'a"
    and inv :: "'s \<Rightarrow> bool"
  assumes reply: "inv s \<Longrightarrow> fst (impl c s) = fst (spec c (abs s))"
    and commute: "inv s \<Longrightarrow> abs (snd (impl c s)) = snd (spec c (abs s))"
    and preserve: "inv s \<Longrightarrow> inv (snd (impl c s))"
begin

lemma run_simulates:
  "inv s \<Longrightarrow> fst (run_cmds impl cs s) = fst (run_cmds spec cs (abs s)) \<and>
    abs (snd (run_cmds impl cs s)) = snd (run_cmds spec cs (abs s)) \<and>
    inv (snd (run_cmds impl cs s))"
proof (induction cs arbitrary: s)
  case (Cons c cs)
  from Cons.IH[OF preserve[OF Cons.prems, of c]] show ?case
    using reply[OF Cons.prems, of c] commute[OF Cons.prems, of c]
    by (simp add: Let_def case_prod_beta)
qed simp

end

lemma rows_affected_card:
  "unique_key p_ID rows \<Longrightarrow>
   rows_affected P rows = card {k. \<exists>p. row_by p_ID k rows = Some p \<and> P p}"
proof -
  assume u: "unique_key p_ID rows"
  have "{k. \<exists>p. row_by p_ID k rows = Some p \<and> P p} = p_ID ` set (filter P rows)"
    using row_by_Some_iff[OF u] by auto
  moreover have "distinct (map p_ID (filter P rows))" using u by (rule distinct_map_filter)
  ultimately show ?thesis
    by (metis distinct_card length_map list.set_map rows_affected_def)
qed

lemma rows_affected_purge:
  "schema_ok d \<Longrightarrow> int (rows_affected P (pastes d)) = int (card {k. \<exists>p. paste_map d k = Some p \<and> P p})"
  by (simp add: rows_affected_card schema_ok_pasteD paste_map_def)

lemma paste_map_purge:
  "schema_ok d \<Longrightarrow> paste_map (d\<lparr>pastes := delete_where P (pastes d)\<rparr>) = keep_if (\<lambda>p. \<not> P p) (paste_map d)"
  by (rule ext) (simp add: paste_map_delete_where keep_if_def split: option.splits)

lemma card_paste_map: "schema_ok d \<Longrightarrow> length (pastes d) = card (dom (paste_map d))"
  using rows_affected_card[of "pastes d" "\<lambda>_. True"]
  by (simp add: schema_ok_pasteD rows_affected_def paste_map_def dom_def)

lemmas purge_simps = purge_def rows_affected_purge paste_map_purge

lemma exec_cmd_simulates:
  assumes "schema_ok d"
  shows "fst (exec_cmd now c d) = fst (spec_cmd now c (paste_map d)) \<and>
    paste_map (snd (exec_cmd now c d)) = snd (spec_cmd now c (paste_map d)) \<and>
    schema_ok (snd (exec_cmd now c d))"
proof (cases c)
  case (Create p)
  show ?thesis
  proof (cases "paste_map d (p_ID p)")
    case None
    then show ?thesis using sqlite.create_fresh[OF assms None, of now] Create by auto
  next
    case Some
    then show ?thesis using sqlite.create_taken[of d p now] assms Create by auto
  qed
next
  case (View pid)
  show ?thesis
  proof (cases "paste_map d pid")
    case None
    then show ?thesis using sqlite.view_miss[OF None, of now] assms View by simp
  next
    case (Some p)
    then show ?thesis using sqlite.view_hit[OF assms Some, of now] View by auto
  qed
next
  case (Delete pid)
  show ?thesis
  proof (cases "paste_map d pid")
    case None
    then show ?thesis using sqlite.remove_miss[OF None] assms Delete by auto
  next
    case Some
    then show ?thesis using sqlite.remove_hit[OF assms, of pid] Delete by auto
  qed
next
  case (DeleteByToken pid h)
  then show ?thesis using assms
    by (auto simp: DeletePasteByToken_def paste_map_def[symmetric] fun_cong[OF paste_map_def, symmetric]
        intro!: schema_ok_paste_rows split: option.splits)
next
  case PurgeExpired
  then show ?thesis using assms
    by (simp add: DeleteExpiredPastes_def purge_simps schema_ok_paste_rows)
next
  case PurgeBurned
  then show ?thesis using assms
    by (simp add: DeleteBurnedPastes_def purge_simps schema_ok_paste_rows)
qed (simp_all add: assms GetPasteByID_def CountPastes_def paste_map_def card_paste_map[OF assms, unfolded paste_map_def])

interpretation store: simulation "\<lambda>(now, c). exec_cmd now c" "\<lambda>(now, c). spec_cmd now c"
  paste_map schema_ok
  by unfold_locales (auto simp: exec_cmd_simulates)

text \<open>C2: Every sequence of paste operations (create, get, count a view, delete, delete by
  compat token, purge expired, purge burned, count), each at its own instant, run on a database
  that meets the schema constraints, gives the replies the same sequence gives on the abstract
  map from identifiers to pastes, ends in a database that represents the resulting map, and
  still meets the constraints.\<close>

theorem paste_store_refines_map:
  assumes "schema_ok d"
  shows "fst (run_cmds (\<lambda>(now, c). exec_cmd now c) cs d) =
      fst (run_cmds (\<lambda>(now, c). spec_cmd now c) cs (paste_map d)) \<and>
    paste_map (snd (run_cmds (\<lambda>(now, c). exec_cmd now c) cs d)) =
      snd (run_cmds (\<lambda>(now, c). spec_cmd now c) cs (paste_map d)) \<and>
    schema_ok (snd (run_cmds (\<lambda>(now, c). exec_cmd now c) cs d))"
  using assms by (rule store.run_simulates)

definition demo_cmds :: "(instant \<times> paste_cmd) list" where
  "demo_cmds = [(1, Create (zero_paste\<lparr>p_ID := ''aa'', p_BurnAfter := 1\<rparr>)), (2, View ''aa''),
     (3, View ''aa''), (4, Count)]"

theorem paste_store_refines_map_witness:
  "schema_ok empty_db \<and>
   fst (run_cmds (\<lambda>(now, c). exec_cmd now c) demo_cmds empty_db) =
     [Created (normalized 1 (zero_paste\<lparr>p_ID := ''aa'', p_BurnAfter := 1\<rparr>)), Viewed 1 True,
      Failed (Errorf ''paste not found''), Number 0]"
proof -
  have "fst (run_cmds (\<lambda>(now, c). exec_cmd now c) demo_cmds empty_db) =
      fst (run_cmds (\<lambda>(now, c). spec_cmd now c) demo_cmds (paste_map empty_db))"
    using paste_store_refines_map[OF schema_ok_empty, of demo_cmds] by simp
  also have "\<dots> = [Created (normalized 1 (zero_paste\<lparr>p_ID := ''aa'', p_BurnAfter := 1\<rparr>)), Viewed 1 True,
      Failed (Errorf ''paste not found''), Number 0]"
    by (simp add: demo_cmds_def paste_map_def empty_db_def row_by_def zero_paste_def burns_def
        normalized_def Let_def)
  finally show ?thesis by (simp add: schema_ok_empty)
qed

subsection \<open>Burn after reading\<close>

text \<open>A paste created with burn-after \<open>n + 1\<close> and no readings yet answers the first \<open>n\<close>
  counted readings with the counts \<open>1 .. n\<close> and stays, answers reading \<open>n + 1\<close> with
  \<open>burned = true\<close> and is gone from the store, and answers every later reading with "paste not
  found"; no other paste is touched.\<close>

theorem burn_after_exact:
  assumes "schema_ok d" and "paste_map d pid = Some p" and "p_Views p = 0"
    and "p_BurnAfter p = int (length ts) + 1"
  shows "\<exists>d'. views_seq (IncrementViewsAndCheckBurn False) (ts @ t # us) pid d =
      (map (\<lambda>i. Inr (int i, False)) [1..<Suc (length ts)] @ [Inr (int (length ts) + 1, True)]
         @ map (\<lambda>_. Inl (Errorf ''paste not found'')) us, d') \<and>
      paste_map d' = (paste_map d)(pid := None)"
  using assms by (rule sqlite.views_seq_burn)

definition demo_db :: db where
  "demo_db = empty_db\<lparr>pastes := [zero_paste\<lparr>p_ID := ''aa'', p_BurnAfter := 3\<rparr>,
     zero_paste\<lparr>p_ID := ''bb'', p_Visibility := 1, p_CreatedAt := 5\<rparr>,
     zero_paste\<lparr>p_ID := ''cc'', p_ExpiresAt := Some 100, p_CreatedAt := 7\<rparr>]\<rparr>"

lemma demo_db_ok: "schema_ok demo_db"
  by (simp add: demo_db_def schema_ok_def empty_db_def zero_paste_def)

lemma demo_db_aa: "paste_map demo_db ''aa'' = Some (zero_paste\<lparr>p_ID := ''aa'', p_BurnAfter := 3\<rparr>)"
  by (simp add: demo_db_def paste_map_def row_by_def empty_db_def)

theorem burn_after_exact_witness:
  "\<exists>d'. views_seq (IncrementViewsAndCheckBurn False) [10, 20, 30, 40] ''aa'' demo_db =
     ([Inr (1, False), Inr (2, False), Inr (3, True), Inl (Errorf ''paste not found'')], d') \<and>
   paste_map d' = (paste_map demo_db)(''aa'' := None)"
  using burn_after_exact[OF demo_db_ok demo_db_aa, of "[10, 20]" 30 "[40]"]
  by (simp add: zero_paste_def upt_rec)

subsection \<open>The public listing\<close>

lemma GetPublicPastes_page:
  assumes "1 \<le> page" and "1 \<le> limit" and "(page - 1) * limit \<le> max_int64"
  shows "GetPublicPastes False now page limit d =
    Inr (map ToListItem (take (nat limit) (drop (nat ((page - 1) * limit))
           (order_desc p_CreatedAt (filter (listed now) (pastes d))))),
         int (length (filter (listed now) (pastes d))))"
proof -
  have le: "page - 1 \<le> (page - 1) * limit" using assms by (simp add: mult_le_cancel_left1)
  then have "wrap64 (page - 1) = page - 1"
    using assms by (intro wrap64_id) (auto simp: min_int64_def)
  moreover have "wrap64 ((page - 1) * limit) = (page - 1) * limit"
    using assms le by (intro wrap64_id) (simp add: min_int64_def)
  ultimately show ?thesis
    using assms by (simp add: GetPublicPastes_def limit_offset_pos Let_def)
qed

text \<open>As long as the offset fits in 64 bits, the pages of the public listing, put end to
  end, are the list of all public unexpired pastes, newest first, each exactly once, and the
  total reported with each page is their number.\<close>

theorem public_pages_partition:
  assumes "1 \<le> limit" and "int m * limit \<le> max_int64"
    and "length (filter (listed now) (pastes d)) \<le> m * nat limit"
  shows "\<exists>rows. concat (map (\<lambda>i. fst (projr (GetPublicPastes False now (int i + 1) limit d))) [0..<m])
        = map ToListItem rows \<and>
      mset rows = filter_mset (listed now) (mset (pastes d)) \<and>
      sorted_wrt (\<lambda>a b. p_CreatedAt b \<le> p_CreatedAt a) rows \<and>
      (\<forall>i < m. snd (projr (GetPublicPastes False now (int i + 1) limit d)) = int (length rows))"
proof (intro exI conjI allI impI)
  let ?rows = "order_desc p_CreatedAt (filter (listed now) (pastes d))"
  have page: "GetPublicPastes False now (int i + 1) limit d =
      Inr (map ToListItem (take (nat limit) (drop (i * nat limit) ?rows)), int (length ?rows))"
    if "i < m" for i
  proof -
    have "int i * limit \<le> int m * limit" using that assms(1) by (intro mult_right_mono) auto
    with assms have "int i * limit \<le> max_int64" by linarith
    then show ?thesis
      using GetPublicPastes_page[of "int i + 1" limit now d] assms(1)
      by (simp add: nat_mult_distrib length_order_desc)
  qed
  then have "concat (map (\<lambda>i. fst (projr (GetPublicPastes False now (int i + 1) limit d))) [0..<m]) =
      map ToListItem (concat (map (\<lambda>i. take (nat limit) (drop (i * nat limit) ?rows)) [0..<m]))"
    unfolding map_concat map_map comp_def
    by (intro arg_cong[of _ _ concat] map_cong refl) simp
  also have "\<dots> = map ToListItem ?rows"
    using assms by (simp add: concat_pages length_order_desc)
  finally show "concat (map (\<lambda>i. fst (projr (GetPublicPastes False now (int i + 1) limit d))) [0..<m]) =
      map ToListItem ?rows" .
  show "mset ?rows = filter_mset (listed now) (mset (pastes d))" by (simp add: mset_order_desc)
  show "sorted_wrt (\<lambda>a b. p_CreatedAt b \<le> p_CreatedAt a) ?rows" by (rule order_desc_sorted)
  fix i assume "i < m"
  with page show "snd (projr (GetPublicPastes False now (int i + 1) limit d)) = int (length ?rows)"
    by simp
qed

theorem public_pages_partition_witness:
  "\<exists>rows. concat (map (\<lambda>i. fst (projr (GetPublicPastes False 50 (int i + 1) 1 demo_db))) [0..<2])
        = map ToListItem rows \<and>
      mset rows = filter_mset (listed 50) (mset (pastes demo_db)) \<and>
      sorted_wrt (\<lambda>a b. p_CreatedAt b \<le> p_CreatedAt a) rows \<and>
      (\<forall>i < 2. snd (projr (GetPublicPastes False 50 (int i + 1) 1 demo_db)) = int (length rows))"
proof (rule public_pages_partition)
  show "length (filter (listed 50) (pastes demo_db)) \<le> 2 * nat 1"
    by (simp add: demo_db_def empty_db_def zero_paste_def listed_def)
qed (simp_all add: max_int64_def)

text \<open>The offset \<^verbatim>\<open>(page - 1) * limit\<close> is computed in 64 bits: for the largest page number
  it wraps to a negative offset, which the database reads as zero, so page \<^verbatim>\<open>2^63 - 1\<close> of the
  listing is page 1 again instead of being empty.\<close>

theorem huge_page_is_first_page:
  "GetPublicPastes False now max_int64 250 d = GetPublicPastes False now 1 250 d"
proof -
  have "wrap64 (wrap64 (max_int64 - 1) * 250) = - 500"
    by (simp add: wrap64_def max_int64_def)
  then show ?thesis
    by (simp add: GetPublicPastes_def limit_offset_def max_int64_def wrap64_def Let_def)
qed

end
