(* ===== verification/Go_Net.thy ===== *)
theory Go_Net
  imports Go_Text
begin

section \<open>Addresses\<close>

text \<open>
  The part of Go's package \<^verbatim>\<open>net\<close> that decides who a request comes from: splitting and joining host
  and port, IP addresses as byte sequences of length 4 or 16, their textual forms, and
  networks. An address read from a text has length 16, one of IPv4 with the prefix
  \<^verbatim>\<open>::ffff:0:0/96\<close>.
\<close>

subsection \<open>Host and port\<close>

fun index_of :: "char \<Rightarrow> string \<Rightarrow> nat option" where
  "index_of c [] = None"
| "index_of c (x # s) = (if x = c then Some 0 else map_option Suc (index_of c s))"

definition last_index_of :: "char \<Rightarrow> string \<Rightarrow> nat option" where
  "last_index_of c s = map_option (\<lambda>i. length s - 1 - i) (index_of c (rev s))"

text \<open>\<^verbatim>\<open>net.SplitHostPort\<close>; \<^const>\<open>None\<close> for every error.\<close>

definition SplitHostPort :: "string \<Rightarrow> (string \<times> string) option" where
  "SplitHostPort s =
     (case last_index_of CHR '':'' s of
        None \<Rightarrow> None
      | Some i \<Rightarrow>
          (let parts =
             (if s \<noteq> [] \<and> hd s = CHR ''[''
              then (case index_of CHR '']'' s of
                      None \<Rightarrow> None
                    | Some close \<Rightarrow> if close + 1 = i then Some (take (close - 1) (drop 1 s), 1, close + 1) else None)
              else (let host = take i s in if CHR '':'' \<in> set host then None else Some (host, 0, 0)))
           in case parts of
                None \<Rightarrow> None
              | Some (host, j, k) \<Rightarrow>
                  if CHR ''['' \<in> set (drop j s) \<or> CHR '']'' \<in> set (drop k s) then None
                  else Some (host, drop (i + 1) s)))"

definition JoinHostPort :: "string \<Rightarrow> string \<Rightarrow> string" where
  "JoinHostPort host port = (if CHR '':'' \<in> set host then ''['' @ host @ '']:'' @ port else host @ '':'' @ port)"

text \<open>The host of a peer address, or the whole of it when it has no port.\<close>

definition client_ip :: "string \<Rightarrow> string" where
  "client_ip remoteAddr = (case SplitHostPort remoteAddr of None \<Rightarrow> remoteAddr | Some (ip, _) \<Rightarrow> ip)"

lemma index_of_append: "c \<notin> set a \<Longrightarrow> index_of c (a @ c # b) = Some (length a)"
  by (induction a) auto

lemma last_index_of_append: "c \<notin> set b \<Longrightarrow> last_index_of c (a @ c # b) = Some (length a)"
  using index_of_append[of c "rev b" "rev a"] by (simp add: last_index_of_def)

lemma SplitHostPort_join:
  assumes "CHR ''['' \<notin> set host" "CHR '']'' \<notin> set host"
    and "CHR '':'' \<notin> set port" "CHR ''['' \<notin> set port" "CHR '']'' \<notin> set port"
  shows "SplitHostPort (JoinHostPort host port) = Some (host, port)"
proof (cases "CHR '':'' \<in> set host")
  case True
  let ?s = "''['' @ host @ '']:'' @ port"
  have i: "last_index_of CHR '':'' ?s = Some (length host + 2)"
    using last_index_of_append[of "CHR '':''" port "''['' @ host @ '']''"] assms(3) by simp
  from i have i': "last_index_of CHR '':'' (CHR ''['' # host @ CHR '']'' # CHR '':'' # port) = Some (length host + 2)" by simp
  show ?thesis using True assms by (simp add: JoinHostPort_def SplitHostPort_def i' index_of_append)
next
  case False
  let ?s = "host @ '':'' @ port"
  have i: "last_index_of CHR '':'' ?s = Some (length host)"
    using last_index_of_append[of "CHR '':''" port host] assms(3) by simp
  have h: "\<not> (?s \<noteq> [] \<and> hd ?s = CHR ''['')" using assms(1) by (cases host) auto
  have "(if ?s \<noteq> [] \<and> hd ?s = CHR ''['' then x else y) = y" for x y :: "(string \<times> nat \<times> nat) option" using h by auto
  then show ?thesis using False assms i by (simp add: JoinHostPort_def SplitHostPort_def)
qed

lemma index_of_Some: "index_of c s = Some j \<Longrightarrow> j < length s \<and> c \<notin> set (take j s)"
  by (induction s arbitrary: j) (auto split: if_splits)

lemma last_index_of_Some: "last_index_of c s = Some i \<Longrightarrow> c \<notin> set (drop (i + 1) s)"
proof -
  assume "last_index_of c s = Some i"
  then obtain j where j: "index_of c (rev s) = Some j" "i = length s - 1 - j" by (auto simp: last_index_of_def)
  note b = index_of_Some[OF j(1)]
  then have "i + 1 = length s - j" using j(2) by (simp add: Suc_diff_Suc)
  then have "drop (i + 1) s = rev (take j (rev s))" by (simp add: take_rev)
  with b show ?thesis by simp
qed

lemma case_triple_Some:
  assumes "(case P of None \<Rightarrow> None | Some (x, j, k) \<Rightarrow> f x j k) = Some y"
  obtains x j k where "P = Some (x, j, k)" "f x j k = Some y"
  using assms by (cases P) auto

text \<open>The port has no colon and no bracket.\<close>

lemma SplitHostPort_port:
  assumes "SplitHostPort s = Some (h, p)"
  shows "CHR '':'' \<notin> set p" "CHR ''['' \<notin> set p" "CHR '']'' \<notin> set p"
proof -
  obtain i where i: "last_index_of CHR '':'' s = Some i" using assms by (auto simp: SplitHostPort_def split: option.splits)
  let ?parts = "(if s \<noteq> [] \<and> hd s = CHR ''[''
      then (case index_of CHR '']'' s of
              None \<Rightarrow> None
            | Some close \<Rightarrow> if close + 1 = i then Some (take (close - 1) (drop 1 s), 1, close + 1) else None)
      else (let host = take i s in if CHR '':'' \<in> set host then None else Some (host, 0, 0)))"
  have "(case ?parts of
          None \<Rightarrow> None
        | Some (host, j, k) \<Rightarrow>
            if CHR ''['' \<in> set (drop j s) \<or> CHR '']'' \<in> set (drop k s) then None
            else Some (host, drop (i + 1) s)) = Some (h, p)"
    using assms unfolding SplitHostPort_def i option.case Let_def .
  then obtain host j k where parts: "?parts = Some (host, j, k)"
    and out: "(if CHR ''['' \<in> set (drop j s) \<or> CHR '']'' \<in> set (drop k s) then None
            else Some (host, drop (i + 1) s)) = Some (h, p)"
    by (rule case_triple_Some)
  from parts have jk: "j \<le> i + 1" "k \<le> i + 1" by (auto simp: Let_def split: if_splits option.splits)
  have "CHR ''['' \<notin> set (drop j s)" "CHR '']'' \<notin> set (drop k s)" "p = drop (i + 1) s"
    using out by (auto split: if_splits)
  with jk show "CHR ''['' \<notin> set p" "CHR '']'' \<notin> set p" by (meson in_mono set_drop_subset_set_drop)+
  show "CHR '':'' \<notin> set p" using last_index_of_Some[OF i] \<open>p = drop (i + 1) s\<close> by simp
qed

subsection \<open>Textual addresses\<close>

type_synonym ip = "nat list"

definition v4_prefix :: ip where "v4_prefix = replicate 10 0 @ [255, 255]"

definition to4 :: "ip \<Rightarrow> ip option" where
  "to4 ip = (if length ip = 4 then Some ip
             else if length ip = 16 \<and> take 12 ip = v4_prefix then Some (drop 12 ip) else None)"

text \<open>One decimal field of an IPv4 address: no leading zero, at most 255.\<close>

definition v4_field :: "string \<Rightarrow> nat option" where
  "v4_field f =
     (if f = [] \<or> list_ex (\<lambda>c. digit_val c = None) f then None
      else if length f > 1 \<and> hd f = CHR ''0'' then None
      else let n = foldl (\<lambda>n c. 10 * n + the (digit_val c)) 0 f in if n > 255 then None else Some n)"

definition parse_v4 :: "string \<Rightarrow> ip option" where
  "parse_v4 s =
     (case map v4_field (split_on CHR ''.'' s) of
        [Some a, Some b, Some c, Some d] \<Rightarrow> Some [a, b, c, d]
      | _ \<Rightarrow> None)"

definition is_hex :: "char \<Rightarrow> bool" where "is_hex c \<longleftrightarrow> hex_val c \<noteq> None"

definition hex_number :: "string \<Rightarrow> nat" where
  "hex_number f = foldl (\<lambda>n c. 16 * n + the (hex_val c)) 0 f"

lemma dropWhile_shorter: "takeWhile P s \<noteq> [] \<Longrightarrow> length (dropWhile P s) < length s"
  by (cases s) (auto simp: le_imp_less_Suc length_dropWhile_le split: if_splits)

text \<open>The loop over the fields of an IPv6 address: the bytes read so far and the place of the
  double colon, if there was one.\<close>

function parse_v6_loop :: "string \<Rightarrow> ip \<Rightarrow> nat option \<Rightarrow> (ip \<times> nat option) option" where
  "parse_v6_loop s bs ellipsis =
     (if length bs \<ge> 16 then (if s = [] then Some (bs, ellipsis) else None)
      else
        let f = takeWhile is_hex s; rest = dropWhile is_hex s in
        if f = [] \<or> length f > 4 then None
        else if rest \<noteq> [] \<and> hd rest = CHR ''.'' then
          (if ellipsis = None \<and> length bs \<noteq> 12 then None
           else if length bs + 4 > 16 then None
           else case parse_v4 s of None \<Rightarrow> None | Some v4 \<Rightarrow> Some (bs @ v4, ellipsis))
        else
          let bs = bs @ [hex_number f div 256, hex_number f mod 256] in
          if rest = [] then Some (bs, ellipsis)
          else if hd rest \<noteq> CHR '':'' \<or> length rest = 1 then None
          else if rest ! 1 = CHR '':'' then
            (if ellipsis \<noteq> None then None
             else if length rest = 2 then Some (bs, Some (length bs))
             else parse_v6_loop (drop 2 rest) bs (Some (length bs)))
          else parse_v6_loop (drop 1 rest) bs ellipsis)"
  by pat_completeness auto
termination
proof (relation "measure (\<lambda>(s, _, _). length s)")
qed (auto dest!: dropWhile_shorter)

declare parse_v6_loop.simps [simp del]

definition parse_v6 :: "string \<Rightarrow> ip option" where
  "parse_v6 s =
     (if s = ''::'' then Some (replicate 16 0)
      else case (if has_prefix s ''::'' then parse_v6_loop (drop 2 s) [] (Some 0) else parse_v6_loop s [] None) of
             None \<Rightarrow> None
           | Some (bs, ellipsis) \<Rightarrow>
               if length bs < 16 then
                 (case ellipsis of
                    None \<Rightarrow> None
                  | Some k \<Rightarrow> Some (take k bs @ replicate (16 - length bs) 0 @ drop k bs))
               else if ellipsis \<noteq> None then None else Some bs)"

text \<open>\<^verbatim>\<open>net.ParseIP\<close>: the first dot or colon decides the family.\<close>

definition ParseIP :: "string \<Rightarrow> ip option" where
  "ParseIP s =
     (case dropWhile (\<lambda>c. c \<noteq> CHR ''.'' \<and> c \<noteq> CHR '':'' \<and> c \<noteq> CHR ''%'') s of
        [] \<Rightarrow> None
      | c # _ \<Rightarrow>
          if c = CHR ''.'' then map_option (\<lambda>v4. v4_prefix @ v4) (parse_v4 s)
          else if c = CHR '':'' then parse_v6 s
          else None)"

subsection \<open>Networks\<close>

record ip_net =
  in_ip :: ip
  in_bits :: nat     \<comment> \<open>the length of the prefix\<close>

definition mask_byte :: "nat \<Rightarrow> nat \<Rightarrow> nat" where
  "mask_byte bits b = b div 2 ^ (8 - min 8 bits) * 2 ^ (8 - min 8 bits)"

fun mask_ip :: "nat \<Rightarrow> ip \<Rightarrow> ip" where
  "mask_ip bits [] = []"
| "mask_ip bits (b # bs) = mask_byte bits b # mask_ip (bits - 8) bs"

text \<open>\<^verbatim>\<open>net.ParseCIDR\<close>: the prefix length is a decimal number without sign, at most the length of the
  family; the address is masked.\<close>

definition ParseCIDR :: "string \<Rightarrow> ip_net option" where
  "ParseCIDR s =
     (case index_of CHR ''/'' s of
        None \<Rightarrow> None
      | Some i \<Rightarrow>
          let addr = take i s; mask = drop (i + 1) s in
          (case ParseIP addr of
             None \<Rightarrow> None
           | Some ip \<Rightarrow>
               let v4 = (CHR '':'' \<notin> set addr); bits = foldl (\<lambda>n c. 10 * n + the (digit_val c)) 0 mask in
               if mask = [] \<or> list_ex (\<lambda>c. digit_val c = None) mask \<or> bits > (if v4 then 32 else 128) then None
               else let ip = (if v4 then drop 12 ip else ip) in Some \<lparr>in_ip = mask_ip bits ip, in_bits = bits\<rparr>))"

text \<open>\<^verbatim>\<open>IPNet.Contains\<close>: a network written in IPv6 whose masked address is an IPv4 one is compared as
  such, with the last four bytes of its mask.\<close>

definition net_number :: "ip_net \<Rightarrow> ip \<times> nat" where
  "net_number n = (case to4 (in_ip n) of
     None \<Rightarrow> (in_ip n, in_bits n)
   | Some v4 \<Rightarrow> (v4, if length (in_ip n) = 16 then in_bits n - 96 else in_bits n))"

definition canon :: "ip \<Rightarrow> ip" where "canon ip = (case to4 ip of Some v4 \<Rightarrow> v4 | None \<Rightarrow> ip)"

definition net_contains :: "ip_net \<Rightarrow> ip \<Rightarrow> bool" where
  "net_contains n ip =
     (let (nn, bits) = net_number n; x = canon ip
      in length x = length nn \<and> mask_ip bits x = mask_ip bits nn)"

definition ip_equal :: "ip \<Rightarrow> ip \<Rightarrow> bool" where "ip_equal a b \<longleftrightarrow> canon a = canon b"

subsection \<open>Text\<close>

text \<open>\<^verbatim>\<open>IP.String\<close>: dotted decimal for an IPv4 address, also one in IPv6 form; otherwise eight groups
  with the first longest run of two or more zero groups replaced by a double colon.\<close>

fun hex_text :: "nat \<Rightarrow> string" where
  "hex_text n = (if n < 16 then [hex_digit n] else hex_text (n div 16) @ [hex_digit (n mod 16)])"

declare hex_text.simps [simp del]

fun groups :: "ip \<Rightarrow> nat list" where
  "groups (a # b # bs) = (a * 256 + b) # groups bs"
| "groups _ = []"

definition zero_run :: "nat list \<Rightarrow> nat \<Rightarrow> nat" where
  "zero_run gs i = length (takeWhile (\<lambda>g. g = 0) (drop i gs))"

definition longest_run :: "nat list \<Rightarrow> nat \<times> nat" where
  "longest_run gs =
     foldl (\<lambda>(i0, l0) i. if zero_run gs i \<ge> 2 \<and> zero_run gs i > l0 then (i, zero_run gs i) else (i0, l0)) (0, 0) [0..<8]"

definition ip_String :: "ip \<Rightarrow> string" where
  "ip_String ip = (case to4 ip of
     Some v4 \<Rightarrow> join CHR ''.'' (map show_nat v4)
   | None \<Rightarrow>
       let gs = groups ip; (i, l) = longest_run gs
       in if l = 0 then join CHR '':'' (map hex_text gs)
          else join CHR '':'' (map hex_text (take i gs)) @ ''::'' @ join CHR '':'' (map hex_text (drop (i + l) gs)))"

subsection \<open>Classes\<close>

definition IsLoopback :: "ip \<Rightarrow> bool" where
  "IsLoopback ip = (case to4 ip of Some v4 \<Rightarrow> v4 ! 0 = 127 | None \<Rightarrow> ip = replicate 15 0 @ [1])"

definition IsPrivate :: "ip \<Rightarrow> bool" where
  "IsPrivate ip = (case to4 ip of
     Some v4 \<Rightarrow> v4 ! 0 = 10 \<or> (v4 ! 0 = 172 \<and> v4 ! 1 div 16 = 1) \<or> (v4 ! 0 = 192 \<and> v4 ! 1 = 168)
   | None \<Rightarrow> length ip = 16 \<and> ip ! 0 div 2 = 126)"

definition IsUnspecified :: "ip \<Rightarrow> bool" where
  "IsUnspecified ip \<longleftrightarrow> canon ip = replicate 4 0 \<or> canon ip = replicate 16 0"

definition IsLinkLocalUnicast :: "ip \<Rightarrow> bool" where
  "IsLinkLocalUnicast ip = (case to4 ip of
     Some v4 \<Rightarrow> v4 ! 0 = 169 \<and> v4 ! 1 = 254
   | None \<Rightarrow> length ip = 16 \<and> ip ! 0 = 254 \<and> ip ! 1 div 64 = 2)"

definition IsMulticast :: "ip \<Rightarrow> bool" where
  "IsMulticast ip = (case to4 ip of
     Some v4 \<Rightarrow> v4 ! 0 div 16 = 14 | None \<Rightarrow> length ip = 16 \<and> ip ! 0 = 255)"

definition IsLinkLocalMulticast :: "ip \<Rightarrow> bool" where
  "IsLinkLocalMulticast ip = (case to4 ip of
     Some v4 \<Rightarrow> v4 ! 0 = 224 \<and> v4 ! 1 = 0 \<and> v4 ! 2 = 0
   | None \<Rightarrow> length ip = 16 \<and> ip ! 0 = 255 \<and> ip ! 1 mod 16 = 2)"

definition IsGlobalUnicast :: "ip \<Rightarrow> bool" where
  "IsGlobalUnicast ip \<longleftrightarrow> (length ip = 4 \<or> length ip = 16) \<and> canon ip \<noteq> replicate 4 255 \<and>
     \<not> IsUnspecified ip \<and> \<not> IsLoopback ip \<and> \<not> IsMulticast ip \<and> \<not> IsLinkLocalUnicast ip"


subsection \<open>Facts\<close>

lemma parse_v4_length: "parse_v4 s = Some ip \<Longrightarrow> length ip = 4"
  by (auto simp: parse_v4_def split: list.splits option.splits)

lemma parse_v6_loop_length: "parse_v6_loop s bs e = Some (bs', e') \<Longrightarrow> even (length bs) \<Longrightarrow> length bs \<le> 16 \<Longrightarrow> length bs' \<le> 16"
proof (induction s bs e rule: parse_v6_loop.induct)
  case (1 s bs e)
  let ?f = "takeWhile is_hex s" and ?rest = "dropWhile is_hex s"
  let ?bs = "bs @ [hex_number ?f div 256, hex_number ?f mod 256]"
  note step = "1.prems"(1)[unfolded parse_v6_loop.simps[of s bs e] Let_def]
  show ?case
  proof (cases "length bs \<ge> 16")
    case True
    with step "1.prems"(3) show ?thesis by (simp split: if_splits)
  next
    case more: False
    have two: "even (length ?bs)" "length ?bs \<le> 16" using "1.prems"(2) more by (simp, simp, presburger)
    have ne: "\<not> (?f = [] \<or> length ?f > 4)" using step more by auto
    show ?thesis
    proof (cases "?rest \<noteq> [] \<and> hd ?rest = CHR ''.''")
      case True
      then show ?thesis using step more ne by (auto dest!: parse_v4_length split: if_splits option.splits)
    next
      case dot: False
      note step = step[unfolded if_not_P[OF more] if_not_P[OF ne] if_not_P[OF dot]]
      show ?thesis using step "1.IH"[OF more refl refl ne dot refl] two by (auto split: if_splits)
    qed
  qed
qed

lemma ParseIP_length:
  assumes "ParseIP s = Some ip" shows "length ip = 16"
proof -
  have v6: "length ip = 16" if "parse_v6 s = Some ip"
    using that parse_v6_loop_length[of "drop 2 s" "[]" "Some 0"] parse_v6_loop_length[of s "[]" None]
    by (auto simp: parse_v6_def split: if_splits option.splits)
  then show ?thesis
    using assms by (auto simp: ParseIP_def v4_prefix_def dest!: parse_v4_length split: list.splits if_splits)
qed

text \<open>The characters of an address.\<close>

definition ip_char :: "char \<Rightarrow> bool" where "ip_char c \<longleftrightarrow> is_hex c \<or> c = CHR '':'' \<or> c = CHR ''.''"

lemma digit_is_hex: "digit_val c \<noteq> None \<Longrightarrow> is_hex c"
  by (auto simp: digit_val_def is_hex_def hex_val_def Let_def split: if_splits)

lemma v4_chars: "parse_v4 s = Some ip \<Longrightarrow> list_all ip_char s"
proof -
  assume p: "parse_v4 s = Some ip"
  have "\<forall>f \<in> set (split_on CHR ''.'' s). list_all ip_char f"
  proof
    fix f assume "f \<in> set (split_on CHR ''.'' s)"
    then have "v4_field f \<in> set (map v4_field (split_on CHR ''.'' s))" by simp
    then have "v4_field f \<noteq> None" using p by (auto simp: parse_v4_def split: list.splits option.splits)
    then show "list_all ip_char f"
      using digit_is_hex by (auto simp: v4_field_def ip_char_def list_all_iff list_ex_iff split: if_splits)
  qed
  moreover have "c \<in> set s \<Longrightarrow> c = CHR ''.'' \<or> (\<exists>f \<in> set (split_on CHR ''.'' s). c \<in> set f)" for c
    by (induction "CHR ''.''" s rule: split_on.induct) (auto simp: Let_def split: list.splits if_splits)
  ultimately show ?thesis by (auto simp: list_all_iff ip_char_def)
qed

lemma v6_loop_chars: "parse_v6_loop s bs e = Some x \<Longrightarrow> list_all ip_char s"
proof (induction s bs e rule: parse_v6_loop.induct)
  case (1 s bs e)
  let ?f = "takeWhile is_hex s" and ?rest = "dropWhile is_hex s"
  note step = "1.prems"(1)[unfolded parse_v6_loop.simps[of s bs e] Let_def]
  have f: "list_all ip_char ?f" by (auto simp: list_all_iff ip_char_def dest: set_takeWhileD)
  have s: "s = ?f @ ?rest" by simp
  show ?case
  proof (cases "length bs \<ge> 16")
    case True
    with step show ?thesis by (simp split: if_splits)
  next
    case more: False
    have ne: "\<not> (?f = [] \<or> length ?f > 4)" using step more by auto
    show ?thesis
    proof (cases "?rest \<noteq> [] \<and> hd ?rest = CHR ''.''")
      case True
      then show ?thesis using step more ne by (auto dest!: v4_chars split: if_splits option.splits)
    next
      case dot: False
      note step = step[unfolded if_not_P[OF more] if_not_P[OF ne] if_not_P[OF dot]]
      have "list_all ip_char ?rest"
      proof (cases ?rest)
        case (Cons a as)
        then have "a = CHR '':''" "as \<noteq> []" using step by (auto split: if_splits)
        moreover have "list_all ip_char as"
        proof (cases "hd as = CHR '':''")
          case True
          then have "tl as = [] \<or> list_all ip_char (tl as)"
            using step "1.IH"(1)[OF more refl refl ne dot refl] Cons \<open>as \<noteq> []\<close> by (cases as) (auto split: if_splits)
          then show ?thesis using True \<open>as \<noteq> []\<close> by (cases as) (auto simp: ip_char_def)
        next
          case False
          then show ?thesis
            using step "1.IH"(2)[OF more refl refl ne dot refl] Cons \<open>as \<noteq> []\<close> by (cases as) (auto split: if_splits)
        qed
        ultimately show ?thesis using Cons by (simp add: ip_char_def)
      next
        case Nil
        show ?thesis unfolding Nil by simp
      qed
      with f s show ?thesis by (metis list_all_append)
    qed
  qed
qed

lemma ParseIP_chars: "ParseIP s = Some ip \<Longrightarrow> list_all ip_char s"
proof -
  assume p: "ParseIP s = Some ip"
  have v6: "list_all ip_char s" if q: "parse_v6 s = Some ip"
  proof (cases "has_prefix s ''::''")
    case True
    then have "take 2 s = ''::''" by (simp add: has_prefix_def numeral_2_eq_2)
    then have s: "s = ''::'' @ drop 2 s" using append_take_drop_id[of 2 s] by (simp only:)
    have "drop 2 s = [] \<or> list_all ip_char (drop 2 s)"
      using q True v6_loop_chars[of "drop 2 s" "[]" "Some 0"] by (auto simp: parse_v6_def split: if_splits option.splits)
    then show ?thesis by (subst s) (auto simp: ip_char_def)
  next
    case False
    then show ?thesis using q v6_loop_chars[of s "[]" None]
      by (auto simp: parse_v6_def ip_char_def split: if_splits option.splits)
  qed
  then show ?thesis using p v4_chars by (auto simp: ParseIP_def split: list.splits if_splits)
qed

lemma mask_ip_full: "8 * length bs \<le> bits \<Longrightarrow> mask_ip bits bs = bs"
  by (induction bs arbitrary: bits) (simp_all add: mask_byte_def)

lemma index_of_slash: "CHR ''/'' \<notin> set e \<Longrightarrow> index_of CHR ''/'' (e @ ''/'' @ m) = Some (length e)"
  using index_of_append[of "CHR ''/''" e m] by simp

lemma digits_32_128:
  "foldl (\<lambda>n c. 10 * n + the (digit_val c)) (0 :: nat) ''32'' = 32"
  "foldl (\<lambda>n c. 10 * n + the (digit_val c)) (0 :: nat) ''128'' = 128"
  "list_ex (\<lambda>c. digit_val c = None) ''32'' = False" "list_ex (\<lambda>c. digit_val c = None) ''128'' = False"
  by (simp_all add: digit_val_def)

text \<open>A network of one address holds just this address.\<close>

lemma single_v4:
  assumes "ParseIP e = Some ip" "CHR ''/'' \<notin> set e" "CHR '':'' \<notin> set e"
  shows "\<exists>n. ParseCIDR (e @ ''/32'') = Some n \<and> (\<forall>x. net_contains n x \<longleftrightarrow> ip_equal x ip)"
proof -
  obtain c rest where dw: "dropWhile (\<lambda>c. c \<noteq> CHR ''.'' \<and> c \<noteq> CHR '':'' \<and> c \<noteq> CHR ''%'') e = c # rest"
    using assms(1) by (auto simp: ParseIP_def split: list.splits)
  then have "c \<in> set e" by (metis list.set_intros(1) set_dropWhileD)
  then have "c \<noteq> CHR '':''" using assms(3) by blast
  with assms(1) dw obtain v4 where v4: "ip = v4_prefix @ v4" "parse_v4 e = Some v4"
    by (auto simp: ParseIP_def split: if_splits)
  note v4 = v4(1) parse_v4_length[OF v4(2)]
  let ?n = "\<lparr>in_ip = v4, in_bits = 32\<rparr>"
  have "ParseCIDR (e @ ''/32'') = Some ?n"
    using assms v4 index_of_slash[of e "''32''"] digits_32_128
    by (simp add: ParseCIDR_def mask_ip_full v4_prefix_def Let_def)
  moreover have "net_contains ?n x \<longleftrightarrow> ip_equal x ip" for x
  proof -
    have "net_number ?n = (v4, 32)" "canon ip = v4" using v4 by (simp_all add: net_number_def to4_def canon_def v4_prefix_def)
    then show ?thesis using v4 by (auto simp: net_contains_def ip_equal_def mask_ip_full Let_def)
  qed
  ultimately show ?thesis by blast
qed

lemma single_v6:
  assumes "ParseIP e = Some ip" "CHR ''/'' \<notin> set e" "CHR '':'' \<in> set e" "to4 ip = None"
  shows "\<exists>n. ParseCIDR (e @ ''/128'') = Some n \<and> (\<forall>x. net_contains n x \<longleftrightarrow> ip_equal x ip)"
proof -
  note len = ParseIP_length[OF assms(1)]
  let ?n = "\<lparr>in_ip = ip, in_bits = 128\<rparr>"
  have "ParseCIDR (e @ ''/128'') = Some ?n"
    using assms len index_of_slash[of e "''128''"] digits_32_128 by (simp add: ParseCIDR_def mask_ip_full Let_def)
  moreover have "net_contains ?n x \<longleftrightarrow> ip_equal x ip" for x
  proof -
    have "net_number ?n = (ip, 128)" "canon ip = ip" using assms(4) by (simp_all add: net_number_def canon_def)
    then show ?thesis using len by (auto simp: net_contains_def ip_equal_def mask_ip_full Let_def)
  qed
  ultimately show ?thesis by blast
qed

end
