(* ===== verification/Rate_Limit.thy ===== *)
theory Rate_Limit
  imports Http Go_Net
begin

section \<open>Rate limiting\<close>

text \<open>
  \<^verbatim>\<open>src/src/server/ratelimit.go\<close>: the sliding window of one client, the limiter that keeps one
  window per address, its garbage collection and the middleware. The limiter is shown to
  decide exactly as a reference that never forgets an admission, so that trimming the
  windows and collecting idle ones cannot be observed.
\<close>

subsection \<open>The limiter\<close>

record rate_limiter =
  rl_buckets :: "string \<Rightarrow> instant list option"
  rl_limit :: int
  rl_window :: duration

text \<open>The clock is read twice: for the cut-off and for the entry that is recorded.\<close>

definition bucket_allow ::
  "instant \<Rightarrow> instant \<Rightarrow> int \<Rightarrow> duration \<Rightarrow> instant list \<Rightarrow> bool \<times> instant list" where
  "bucket_allow now now2 limit window requests =
     (let cutoff = now - window; valid = filter (\<lambda>t. t > cutoff) requests
      in if int (length valid) \<ge> limit then (False, valid) else (True, valid @ [now2]))"

definition newRateLimiter :: "int \<Rightarrow> duration \<Rightarrow> rate_limiter" where
  "newRateLimiter limit window = \<lparr>rl_buckets = Map.empty, rl_limit = limit, rl_window = window\<rparr>"

definition rl_allow :: "instant \<Rightarrow> instant \<Rightarrow> string \<Rightarrow> rate_limiter \<Rightarrow> bool \<times> rate_limiter" where
  "rl_allow now now2 ip rl =
     (let b = (case rl_buckets rl ip of None \<Rightarrow> [] | Some b \<Rightarrow> b);
          (ok, b') = bucket_allow now now2 (rl_limit rl) (rl_window rl) b
      in (ok, rl\<lparr>rl_buckets := (rl_buckets rl)(ip \<mapsto> b')\<rparr>))"

definition UpdateLimit :: "int \<Rightarrow> rate_limiter \<Rightarrow> rate_limiter" where
  "UpdateLimit n rl = rl\<lparr>rl_limit := n\<rparr>"

text \<open>One round of the collector.\<close>

definition rl_gc :: "instant \<Rightarrow> rate_limiter \<Rightarrow> rate_limiter" where
  "rl_gc now rl =
     (let cutoff = now - rl_window rl
      in rl\<lparr>rl_buckets := (\<lambda>ip. case rl_buckets rl ip of
           None \<Rightarrow> None
         | Some b \<Rightarrow> if list_ex (\<lambda>t. t > cutoff) b then Some b else None)\<rparr>)"

subsection \<open>The middleware\<close>

text \<open>The middleware answers with 429, or (\<^const>\<open>None\<close>) calls the next handler.\<close>

definition rateLimitMiddleware ::
  "bool \<Rightarrow> string \<Rightarrow> instant \<Rightarrow> instant \<Rightarrow> rate_limiter \<Rightarrow> reply option \<times> rate_limiter" where
  "rateLimitMiddleware allowlisted remoteAddr now now2 rl =
     (if allowlisted then (None, rl)
      else
        (case rl_allow now now2 (client_ip remoteAddr) rl of
           (True, rl') \<Rightarrow> (None, rl')
         | (False, rl') \<Rightarrow>
             (Some \<lparr>rp_status = 429,
                rp_header = [''Retry-After'' \<mapsto> show_int (rl_window rl div Second),
                             ''Content-Type'' \<mapsto> ''application/json''],
                rp_body = JError ''RATE_LIMITED'' ''Too many requests''\<rparr>, rl')))"

subsection \<open>A reference that forgets nothing\<close>

text \<open>The log of all admissions of an address. A request is admitted when fewer than the limit of
  them are younger than the window.\<close>

record log_limiter =
  lg_log :: "string \<Rightarrow> instant list"
  lg_limit :: int
  lg_window :: duration

definition log_allow :: "instant \<Rightarrow> instant \<Rightarrow> string \<Rightarrow> log_limiter \<Rightarrow> bool \<times> log_limiter" where
  "log_allow now now2 ip lg =
     (if int (length (filter (\<lambda>t. t > now - lg_window lg) (lg_log lg ip))) \<ge> lg_limit lg then (False, lg)
      else (True, lg\<lparr>lg_log := (lg_log lg)(ip := lg_log lg ip @ [now2])\<rparr>))"

datatype rl_event = Request instant instant string | SetLimit int | Collect instant

fun rl_step :: "rl_event \<Rightarrow> rate_limiter \<Rightarrow> bool option \<times> rate_limiter" where
  "rl_step (Request t t2 ip) rl = map_prod Some id (rl_allow t t2 ip rl)"
| "rl_step (SetLimit n) rl = (None, UpdateLimit n rl)"
| "rl_step (Collect t) rl = (None, rl_gc t rl)"

fun log_step :: "rl_event \<Rightarrow> log_limiter \<Rightarrow> bool option \<times> log_limiter" where
  "log_step (Request t t2 ip) lg = map_prod Some id (log_allow t t2 ip lg)"
| "log_step (SetLimit n) lg = (None, lg\<lparr>lg_limit := n\<rparr>)"
| "log_step (Collect t) lg = (None, lg)"

fun run_events :: "('e \<Rightarrow> 's \<Rightarrow> bool option \<times> 's) \<Rightarrow> 'e list \<Rightarrow> 's \<Rightarrow> bool option list \<times> 's" where
  "run_events f [] s = ([], s)"
| "run_events f (e # es) s = (let (v, s1) = f e s; (vs, s2) = run_events f es s1 in (v # vs, s2))"

text \<open>Instants do not decrease along a history.\<close>

fun event_start :: "rl_event \<Rightarrow> instant option" where
  "event_start (Request t _ _) = Some t"
| "event_start (SetLimit _) = None"
| "event_start (Collect t) = Some t"

fun event_end :: "rl_event \<Rightarrow> instant option" where
  "event_end (Request _ t2 _) = Some t2"
| "event_end (SetLimit _) = None"
| "event_end (Collect t) = Some t"

fun in_order :: "instant \<Rightarrow> rl_event list \<Rightarrow> bool" where
  "in_order now [] = True"
| "in_order now (e # es) =
     (case event_start e of
        None \<Rightarrow> in_order now es
      | Some t \<Rightarrow> now \<le> t \<and> t \<le> the (event_end e) \<and> in_order (the (event_end e)) es)"

text \<open>The windows hold what the log holds, as far as a request from now on can look back.\<close>

definition agrees :: "instant \<Rightarrow> rate_limiter \<Rightarrow> log_limiter \<Rightarrow> bool" where
  "agrees now rl lg \<longleftrightarrow>
     rl_limit rl = lg_limit lg \<and> rl_window rl = lg_window lg \<and>
     (\<forall>ip c. now - rl_window rl \<le> c \<longrightarrow>
        filter (\<lambda>t. t > c) (case rl_buckets rl ip of None \<Rightarrow> [] | Some b \<Rightarrow> b) = filter (\<lambda>t. t > c) (lg_log lg ip))"

lemma agrees_later: "s \<le> t \<Longrightarrow> agrees s rl lg \<Longrightarrow> agrees t rl lg"
  by (auto simp: agrees_def)

lemma filter_later: "(c :: instant) \<le> c' \<Longrightarrow> filter (\<lambda>t. t > c') (filter (\<lambda>t. t > c) xs) = filter (\<lambda>t. t > c') xs"
  by (induction xs) auto

lemma rl_step_agrees:
  assumes "agrees t rl lg" and "t \<le> u" and "u \<le> u2"
  shows "fst (rl_allow u u2 ip rl) = fst (log_allow u u2 ip lg)"
    and "agrees u2 (snd (rl_allow u u2 ip rl)) (snd (log_allow u u2 ip lg))"
proof -
  let ?b = "case rl_buckets rl ip of None \<Rightarrow> [] | Some b \<Rightarrow> b" and ?c = "u - rl_window rl"
  from assms have eq: "filter (\<lambda>x. x > c) (case rl_buckets rl k of None \<Rightarrow> [] | Some b \<Rightarrow> b) = filter (\<lambda>x. x > c) (lg_log lg k)"
    if "?c \<le> c" for k c using that by (simp add: agrees_def)
  have par: "rl_limit rl = lg_limit lg" "rl_window rl = lg_window lg" using assms(1) by (simp_all add: agrees_def)
  show "fst (rl_allow u u2 ip rl) = fst (log_allow u u2 ip lg)"
    using eq[of ?c ip] by (simp add: rl_allow_def bucket_allow_def log_allow_def par Let_def)
  have "filter (\<lambda>x. x > c) (filter (\<lambda>x. x > ?c) ?b) = filter (\<lambda>x. x > c) (lg_log lg ip)" if "u2 - rl_window rl \<le> c" for c
    using that assms(3) eq[of c ip] by (subst filter_later) simp_all
  then show "agrees u2 (snd (rl_allow u u2 ip rl)) (snd (log_allow u u2 ip lg))"
    using eq[of ?c ip] eq assms(3)
    by (simp add: agrees_def rl_allow_def bucket_allow_def log_allow_def par Let_def)
qed

lemma gc_agrees: "agrees t rl lg \<Longrightarrow> t \<le> u \<Longrightarrow> agrees u (rl_gc u rl) lg"
proof -
  assume a: "agrees t rl lg" and tu: "t \<le> u"
  have "filter (\<lambda>x. x > c) (case rl_buckets (rl_gc u rl) ip of None \<Rightarrow> [] | Some b \<Rightarrow> b) =
      filter (\<lambda>x. x > c) (case rl_buckets rl ip of None \<Rightarrow> [] | Some b \<Rightarrow> b)" if "u - rl_window rl \<le> c" for ip c
    using that by (fastforce simp: rl_gc_def Let_def list_ex_iff filter_empty_conv
        empty_filter_conv split: option.splits)
  moreover have "rl_window (rl_gc u rl) = rl_window rl" "rl_limit (rl_gc u rl) = rl_limit rl"
    by (simp_all add: rl_gc_def Let_def)
  ultimately show ?thesis using agrees_later[OF tu a] by (simp add: agrees_def)
qed

lemma run_agrees:
  "agrees t rl lg \<Longrightarrow> in_order t es \<Longrightarrow> fst (run_events rl_step es rl) = fst (run_events log_step es lg)"
proof (induction es arbitrary: t rl lg)
  case (Cons e es)
  show ?case
  proof (cases e)
    case (Request u u2 ip)
    with Cons.prems have o: "t \<le> u" "u \<le> u2" "in_order u2 es" by auto
    from rl_step_agrees[OF Cons.prems(1) o(1,2), of ip] Cons.IH[OF _ o(3)] Request show ?thesis
      by (auto simp: split_beta Let_def)
  next
    case (SetLimit n)
    then have "agrees t (UpdateLimit n rl) (lg\<lparr>lg_limit := n\<rparr>)" using Cons.prems(1) by (simp add: agrees_def UpdateLimit_def)
    from Cons.IH[OF this] Cons.prems(2) SetLimit show ?thesis by (simp add: split_beta Let_def)
  next
    case (Collect u)
    with Cons.prems gc_agrees[of t rl lg u] Cons.IH[of u "rl_gc u rl" lg] show ?thesis by (simp add: split_beta Let_def)
  qed
qed simp

subsection \<open>Properties\<close>

text \<open>C35: Trimming and collecting cannot be observed. On every history of requests, limit changes and
  collections at non-decreasing instants, the limiter gives each request the verdict of the
  reference that keeps every admission: admitted exactly when fewer than the current limit
  of the admissions of its address are younger than the window.\<close>

theorem limiter_decides_like_log:
  assumes "in_order t es"
  shows "fst (run_events rl_step es (newRateLimiter n win)) =
    fst (run_events log_step es \<lparr>lg_log = (\<lambda>_. []), lg_limit = n, lg_window = win\<rparr>)"
proof -
  have "agrees t (newRateLimiter n win) \<lparr>lg_log = (\<lambda>_. []), lg_limit = n, lg_window = win\<rparr>"
    by (simp add: agrees_def newRateLimiter_def)
  from run_agrees[OF this assms] show ?thesis .
qed

definition demo_events :: "rl_event list" where
  "demo_events = [Request 1 1 ''a'', Request 2 2 ''a'', Request 3 3 ''a'', Collect 20, Request 21 22 ''a'']"

theorem limiter_decides_like_log_witness:
  "fst (run_events rl_step demo_events (newRateLimiter 2 10)) = [Some True, Some True, Some False, None, Some True]"
proof -
  have "in_order 0 demo_events" by (simp add: demo_events_def)
  from limiter_decides_like_log[OF this, of 2 10] show ?thesis
    by (simp add: demo_events_def log_allow_def)
qed

subsubsection \<open>The rate\<close>

text \<open>The instants at which requests of an address were admitted.\<close>

fun admitted :: "string \<Rightarrow> rl_event list \<Rightarrow> bool option list \<Rightarrow> instant list" where
  "admitted ip (Request t t2 k # es) (Some True # vs) = (if k = ip then [t2] else []) @ admitted ip es vs"
| "admitted ip (_ # es) (_ # vs) = admitted ip es vs"
| "admitted ip _ _ = []"

definition spaced :: "nat \<Rightarrow> duration \<Rightarrow> instant list \<Rightarrow> bool" where
  "spaced n win xs \<longleftrightarrow> (\<forall>i. i + n < length xs \<longrightarrow> xs ! i + win \<le> xs ! (i + n))"

lemma sorted_filter_count:
  assumes "sorted xs" and "i < length xs" and "(c :: int) < xs ! i"
  shows "length xs - i \<le> length (filter (\<lambda>t. t > c) xs)"
proof -
  have "c < xs ! (i + k)" if "k < length xs - i" for k
  proof -
    from that have "i + k < length xs" by simp
    from sorted_nth_mono[OF assms(1) _ this, of i] assms(3) show ?thesis by simp
  qed
  then have "filter (\<lambda>t. t > c) (drop i xs) = drop i xs"
    by (auto simp: filter_id_conv in_set_conv_nth)
  then have "length (filter (\<lambda>t. t > c) xs) = length (filter (\<lambda>t. t > c) (take i xs)) + length (drop i xs)"
    by (metis append_take_drop_id filter_append length_append)
  then show ?thesis by simp
qed

lemma spaced_admit:
  assumes "spaced n win xs" and "sorted xs" and "length (filter (\<lambda>t. t > u - win) xs) < n" and "u \<le> u2"
  shows "spaced n win (xs @ [u2])"
  unfolding spaced_def
proof (intro allI impI)
  fix i assume i: "i + n < length (xs @ [u2])"
  show "(xs @ [u2]) ! i + win \<le> (xs @ [u2]) ! (i + n)"
  proof (cases "i + n < length xs")
    case True
    with assms(1) show ?thesis by (simp add: spaced_def nth_append)
  next
    case False
    with i have l: "i + n = length xs" by simp
    with assms(3) have "i < length xs" by (cases "n = 0") auto
    with sorted_filter_count[OF assms(2), of i "u - win"] assms(3) l have "xs ! i \<le> u - win" by force
    with assms(4) l \<open>i < length xs\<close> show ?thesis by (simp add: nth_append)
  qed
qed

lemma run_spaced:
  assumes "in_order t es" and "\<forall>n. SetLimit n \<notin> set es" and "spaced (nat (lg_limit lg)) (lg_window lg) (lg_log lg ip)"
    and "sorted (lg_log lg ip)" and "\<forall>x \<in> set (lg_log lg ip). x \<le> t"
  shows "spaced (nat (lg_limit lg)) (lg_window lg) (lg_log lg ip @ admitted ip es (fst (run_events log_step es lg)))"
  using assms
proof (induction es arbitrary: t lg)
  case (Cons e es)
  show ?case
  proof (cases e)
    case (Request u u2 k)
    with Cons.prems(1) have o: "t \<le> u" "u \<le> u2" "in_order u2 es" by auto
    obtain ok lg' where st: "log_allow u u2 k lg = (ok, lg')" by (cases "log_allow u u2 k lg")
    have par: "lg_limit lg' = lg_limit lg" "lg_window lg' = lg_window lg"
      using st by (auto simp: log_allow_def split: if_splits)
    have log: "lg_log lg' ip = lg_log lg ip @ (if ok \<and> k = ip then [u2] else [])"
      and adm: "ok \<Longrightarrow> k = ip \<Longrightarrow> length (filter (\<lambda>t. t > u - lg_window lg) (lg_log lg ip)) < nat (lg_limit lg)"
      using st by (auto simp: log_allow_def split: if_splits)
    have le: "\<forall>x \<in> set (lg_log lg' ip). x \<le> u2" and so: "sorted (lg_log lg' ip)"
      using Cons.prems(4,5) o by (force simp: log sorted_append)+
    have sp: "spaced (nat (lg_limit lg)) (lg_window lg) (lg_log lg' ip)"
      using Cons.prems(3,4) adm spaced_admit[OF Cons.prems(3,4) _ o(2)] by (simp add: log)
    have ns: "\<forall>n. SetLimit n \<notin> set es" using Cons.prems(2) by auto
    from Cons.IH[OF o(3) ns, of lg'] sp so le show ?thesis
      by (cases ok) (auto simp: Request st par log Let_def split_beta)
  next
    case (SetLimit n)
    with Cons.prems(2) show ?thesis by auto
  next
    case (Collect u)
    with Cons.prems Cons.IH[of u lg] show ?thesis by (force simp: split_beta Let_def)
  qed
qed simp

text \<open>C36: The limit is a limit on every window. As long as the limit is not changed, of the admissions of
  one address any limit + 1 consecutive ones span at least the window, whatever other
  addresses do and whenever idle windows are collected: no client gets more than the limit
  of requests through in less than a window.\<close>

theorem rate_is_bounded:
  assumes "in_order t es" and "\<forall>n. SetLimit n \<notin> set es"
  shows "spaced (nat limit) win (admitted ip es (fst (run_events rl_step es (newRateLimiter limit win))))"
proof -
  let ?lg = "\<lparr>lg_log = (\<lambda>_. []), lg_limit = limit, lg_window = win\<rparr>"
  have "agrees t (newRateLimiter limit win) ?lg" by (simp add: agrees_def newRateLimiter_def)
  from run_agrees[OF this assms(1)] run_spaced[OF assms, of ?lg ip] show ?thesis by (simp add: spaced_def)
qed

theorem rate_is_bounded_witness:
  "spaced 2 10 (admitted ''a'' demo_events (fst (run_events rl_step demo_events (newRateLimiter 2 10))))"
  using rate_is_bounded[of 0 demo_events 2 10 "''a''"] by (simp add: demo_events_def)

end
