(* ===== verification/Task_Store.thy ===== *)
theory Task_Store
  imports Database_Schema Go_Stdlib "HOL-Library.Char_ord" "HOL-Library.List_Lexorder"
begin

section \<open>Scheduler rows and application secrets\<close>

text \<open>
  The scheduler and secret statements of \<^verbatim>\<open>src/src/database/database.go\<close>: the state of a task,
  its history and the server's secrets. The zero time is stored as \<^verbatim>\<open>NULL\<close> and read back as
  the zero time. Texts are compared bytewise.
\<close>

subsection \<open>Task state\<close>

record task_state =
  ts_TaskID :: string
  ts_TaskName :: string
  ts_Schedule :: string
  ts_LastRun :: instant
  ts_LastStatus :: string
  ts_LastError :: string
  ts_NextRun :: instant
  ts_RunCount :: int
  ts_FailCount :: int
  ts_Enabled :: bool

definition nullable :: "instant \<Rightarrow> instant option" where
  "nullable t = (if IsZero t then None else Some t)"

definition from_nullable :: "instant option \<Rightarrow> instant" where
  "from_nullable x = (case x of None \<Rightarrow> zero_time | Some t \<Rightarrow> t)"

definition coalesce :: "'a option \<Rightarrow> 'a option \<Rightarrow> 'a option" where
  "coalesce a b = (case a of Some x \<Rightarrow> Some x | None \<Rightarrow> b)"

definition unless_empty :: "string \<Rightarrow> string \<Rightarrow> string" where
  "unless_empty s s' = (if s = [] then s' else s)"

text \<open>The inserted row, and what \<^verbatim>\<open>ON CONFLICT DO UPDATE\<close> makes of the stored one.\<close>

definition task_values :: "task_state \<Rightarrow> task_row" where
  "task_values t =
     \<lparr>sr_task_id = ts_TaskID t, sr_task_name = ts_TaskName t, sr_schedule = ts_Schedule t,
      sr_last_run = nullable (ts_LastRun t), sr_last_status = ts_LastStatus t, sr_last_error = ts_LastError t,
      sr_next_run = nullable (ts_NextRun t), sr_run_count = ts_RunCount t, sr_fail_count = ts_FailCount t,
      sr_enabled = (if ts_Enabled t then 1 else 0)\<rparr>"

definition merge_task :: "task_row \<Rightarrow> task_row \<Rightarrow> task_row" where
  "merge_task excluded r =
     r\<lparr>sr_task_name := sr_task_name excluded, sr_schedule := sr_schedule excluded,
       sr_last_run := coalesce (sr_last_run r) (sr_last_run excluded),
       sr_last_status := unless_empty (sr_last_status r) (sr_last_status excluded),
       sr_last_error := unless_empty (sr_last_error r) (sr_last_error excluded),
       sr_next_run := coalesce (sr_next_run r) (sr_next_run excluded),
       sr_enabled := sr_enabled excluded\<rparr>"

definition UpsertSchedulerTask :: "bool \<Rightarrow> task_state \<Rightarrow> db \<Rightarrow> db_error + db" where
  "UpsertSchedulerTask fault t d =
     (if fault then Inl EngineError
      else case row_by sr_task_id (ts_TaskID t) (scheduler_tasks d) of
             None \<Rightarrow> Inr (d\<lparr>scheduler_tasks := scheduler_tasks d @ [task_values t]\<rparr>)
           | Some _ \<Rightarrow>
               Inr (d\<lparr>scheduler_tasks := update_where (\<lambda>r. sr_task_id r = ts_TaskID t)
                        (merge_task (task_values t)) (scheduler_tasks d)\<rparr>))"

definition scanTaskState :: "task_row \<Rightarrow> task_state" where
  "scanTaskState r =
     \<lparr>ts_TaskID = sr_task_id r, ts_TaskName = sr_task_name r, ts_Schedule = sr_schedule r,
      ts_LastRun = from_nullable (sr_last_run r), ts_LastStatus = sr_last_status r,
      ts_LastError = sr_last_error r, ts_NextRun = from_nullable (sr_next_run r),
      ts_RunCount = sr_run_count r, ts_FailCount = sr_fail_count r, ts_Enabled = (sr_enabled r \<noteq> 0)\<rparr>"

text \<open>\<^verbatim>\<open>sql.ErrNoRows\<close> is \<^const>\<open>None\<close>.\<close>

definition GetSchedulerTask :: "bool \<Rightarrow> string \<Rightarrow> db \<Rightarrow> db_error + task_state option" where
  "GetSchedulerTask fault taskID d =
     (if fault then Inl EngineError
      else Inr (map_option scanTaskState (row_by sr_task_id taskID (scheduler_tasks d))))"

definition ListSchedulerTasks :: "bool \<Rightarrow> db \<Rightarrow> db_error + task_state list" where
  "ListSchedulerTasks fault d =
     (if fault then Inl EngineError
      else Inr (map scanTaskState (sort_key sr_task_id (scheduler_tasks d))))"

definition SetTaskEnabled :: "bool \<Rightarrow> string \<Rightarrow> bool \<Rightarrow> db \<Rightarrow> db_error + db" where
  "SetTaskEnabled fault taskID en d =
     (if fault then Inl EngineError
      else Inr (d\<lparr>scheduler_tasks := update_where (\<lambda>r. sr_task_id r = taskID)
                    (\<lambda>r. r\<lparr>sr_enabled := (if en then 1 else 0)\<rparr>) (scheduler_tasks d)\<rparr>))"

definition UpdateTaskRun ::
  "bool \<Rightarrow> string \<Rightarrow> instant \<Rightarrow> string \<Rightarrow> string \<Rightarrow> int \<Rightarrow> int \<Rightarrow> instant \<Rightarrow> db \<Rightarrow> db_error + db" where
  "UpdateTaskRun fault taskID lastRun status lastError runCount failCount nextRun d =
     (if fault then Inl EngineError
      else Inr (d\<lparr>scheduler_tasks := update_where (\<lambda>r. sr_task_id r = taskID)
                    (\<lambda>r. r\<lparr>sr_last_run := Some lastRun, sr_last_status := status, sr_last_error := lastError,
                           sr_run_count := runCount, sr_fail_count := failCount, sr_next_run := nullable nextRun\<rparr>)
                    (scheduler_tasks d)\<rparr>))"

definition RecordTaskHistory :: "bool \<Rightarrow> task_history \<Rightarrow> db \<Rightarrow> db_error + db" where
  "RecordTaskHistory fault h d =
     (if fault then Inl EngineError else Inr (d\<lparr>scheduler_history := scheduler_history d @ [h]\<rparr>))"

definition ListTaskHistory :: "bool \<Rightarrow> string \<Rightarrow> int \<Rightarrow> db \<Rightarrow> db_error + task_history list" where
  "ListTaskHistory fault taskID limit d =
     (if fault then Inl EngineError
      else Inr (limit_offset (if limit \<le> 0 then 20 else limit) 0
             (order_desc h_StartedAt (filter (\<lambda>h. h_TaskID h = taskID) (scheduler_history d)))))"

subsection \<open>Rows by task\<close>

definition task_of :: "db \<Rightarrow> string \<Rightarrow> task_row option" where
  "task_of d k = row_by sr_task_id k (scheduler_tasks d)"

lemma merge_task_id [simp]: "sr_task_id (merge_task x r) = sr_task_id r"
  by (simp add: merge_task_def)

lemma values_id [simp]: "sr_task_id (task_values t) = ts_TaskID t"
  by (simp add: task_values_def)

lemma task_of_upsert:
  assumes "UpsertSchedulerTask False t d = Inr d'"
  shows "task_of d' k =
    (if k = ts_TaskID t
     then Some (case task_of d k of None \<Rightarrow> task_values t | Some r \<Rightarrow> merge_task (task_values t) r)
     else task_of d k)"
  using assms unfolding UpsertSchedulerTask_def task_of_def
  by (auto simp: row_by_update_key row_by_append values_id split: option.splits)

lemma task_of_update_run:
  assumes "UpdateTaskRun False i lr st er rc fc nr d = Inr d'"
  shows "task_of d' k = map_option (\<lambda>r. if k = i
      then r\<lparr>sr_last_run := Some lr, sr_last_status := st, sr_last_error := er, sr_run_count := rc,
             sr_fail_count := fc, sr_next_run := nullable nr\<rparr>
      else r) (task_of d k)"
  using assms unfolding UpdateTaskRun_def task_of_def
  by (auto simp: row_by_update_key option.map_ident)

lemma task_of_history: "RecordTaskHistory False h d = Inr d' \<Longrightarrow> task_of d' = task_of d"
  by (auto simp: RecordTaskHistory_def task_of_def fun_eq_iff)

subsection \<open>Application secrets\<close>

text \<open>\<^verbatim>\<open>EnsureAppSecret\<close>: the first read, the random bytes, the insertion and the second read can
  fail. The insertion also fails when the key has been inserted in the meantime, which is
  what happens between \<open>d\<close> and \<open>d1\<close>: other requests may run between the two statements.\<close>

definition secret_of :: "db \<Rightarrow> string \<Rightarrow> string option" where
  "secret_of d k = map_option s_value (row_by s_key k (app_secrets d))"

definition decode_secret :: "string \<Rightarrow> db_error + bytes" where
  "decode_secret v = (case b64_decode v of None \<Rightarrow> Inl (Errorf ''decode'') | Some raw \<Rightarrow> Inr raw)"

definition EnsureAppSecret ::
  "bool \<Rightarrow> bytes option \<Rightarrow> bool \<Rightarrow> bool \<Rightarrow> instant \<Rightarrow> string \<Rightarrow> db \<Rightarrow> (db \<Rightarrow> db) \<Rightarrow> (db_error + bytes) \<times> db" where
  "EnsureAppSecret readFault draw writeFault rereadFault now k d others =
     (if readFault then (Inl (Errorf ''query''), d)
      else case secret_of d k of
        Some v \<Rightarrow> (decode_secret v, d)
      | None \<Rightarrow>
          (case draw of
             None \<Rightarrow> (Inl (Errorf ''generate''), d)
           | Some buf \<Rightarrow>
               (let d1 = others d
                in if writeFault \<or> secret_of d1 k \<noteq> None
                   then (if rereadFault then (Inl (Errorf ''insert''), d1)
                         else case secret_of d1 k of
                           Some v \<Rightarrow> (decode_secret v, d1)
                         | None \<Rightarrow> (Inl (Errorf ''insert''), d1))
                   else (Inr buf,
                         d1\<lparr>app_secrets := app_secrets d1 @
                            [\<lparr>s_key = k, s_value = b64_encode buf, s_created_at = now, s_updated_at = now\<rparr>]\<rparr>))))"

text \<open>Other requests do not change a secret that is there.\<close>

definition keeps_secrets :: "(db \<Rightarrow> db) \<Rightarrow> bool" where
  "keeps_secrets f \<longleftrightarrow> (\<forall>d k v. secret_of d k = Some v \<longrightarrow> secret_of (f d) k = Some v)"

lemma decode_encoded: "decode_secret (b64_encode raw) = Inr raw"
  by (simp add: decode_secret_def b64_roundtrip)

lemma EnsureAppSecret_stored:
  assumes "EnsureAppSecret rf draw wrf rrf now k d others = (Inr raw, d')" "keeps_secrets others"
  shows "\<exists>v. secret_of d' k = Some v \<and> decode_secret v = Inr raw"
  using assms decode_encoded
  by (auto simp: EnsureAppSecret_def Let_def secret_of_def row_by_append split: if_splits option.splits)

lemma EnsureAppSecret_keeps: "keeps_secrets others \<Longrightarrow>
  keeps_secrets (\<lambda>d. snd (EnsureAppSecret rf draw wrf rrf now k d others))"
proof (unfold keeps_secrets_def, intro allI impI)
  fix d j v
  assume f: "\<forall>d k v. secret_of d k = Some v \<longrightarrow> secret_of (others d) k = Some v" and v: "secret_of d j = Some v"
  have ins: "secret_of (x\<lparr>app_secrets := app_secrets x @ [r]\<rparr>) j = Some v" if "secret_of x j = Some v" for x r
    using that by (auto simp: secret_of_def row_by_append)
  from f v have "secret_of (others d) j = Some v" by blast
  with v ins show "secret_of (snd (EnsureAppSecret rf draw wrf rrf now k d others)) j = Some v"
    by (auto simp: EnsureAppSecret_def Let_def split: option.splits)
qed

lemma keeps_secrets_fold: "\<forall>f \<in> set fs. keeps_secrets f \<Longrightarrow> keeps_secrets (fold id fs)"
  by (induction fs) (auto simp: keeps_secrets_def)

text \<open>A secret, once handed out, never changes. Two calls for the same key that succeed return the
  same bytes, whatever the database and the random source do, whatever other calls run
  between and inside them, and whichever of two racing callers inserts the row.\<close>

theorem secret_is_stable:
  assumes "EnsureAppSecret rf1 draw1 wf1 rrf1 now1 k d others1 = (Inr raw1, d1)"
    and "EnsureAppSecret rf2 draw2 wf2 rrf2 now2 k (fold id between d1) others2 = (Inr raw2, d2)"
    and "keeps_secrets others1" "\<forall>f \<in> set between. keeps_secrets f"
  shows "raw1 = raw2"
proof -
  obtain v where v: "secret_of d1 k = Some v" "decode_secret v = Inr raw1"
    using EnsureAppSecret_stored[OF assms(1,3)] by blast
  have "secret_of (fold id between d1) k = Some v"
    using keeps_secrets_fold[OF assms(4)] v(1) by (auto simp: keeps_secrets_def)
  with assms(2) v(2) show ?thesis by (auto simp: EnsureAppSecret_def split: if_splits)
qed

text \<open>Two callers race: the first has seen no row, but finds the second one's when it inserts. A third
  call comes later.\<close>

definition racing :: "db \<Rightarrow> db" where
  "racing d = snd (EnsureAppSecret False (Some ''two'') False False 2 ''k'' d id)"

theorem secret_is_stable_witness:
  "fst (EnsureAppSecret False (Some ''one'') False False 1 ''k'' empty_db racing) = Inr ''two'' \<and>
   fst (EnsureAppSecret False (Some ''three'') False False 3 ''k''
     (fold id [racing] (snd (EnsureAppSecret False (Some ''one'') False False 1 ''k'' empty_db racing))) id) = Inr ''two''"
proof -
  let ?e1 = "EnsureAppSecret False (Some ''one'') False False 1 ''k'' empty_db racing"
  let ?e2 = "EnsureAppSecret False (Some ''three'') False False 3 ''k'' (fold id [racing] (snd ?e1)) id"
  have "keeps_secrets id" by (simp add: keeps_secrets_def)
  from EnsureAppSecret_keeps[OF this] have k: "keeps_secrets racing" by (simp add: racing_def[abs_def])
  have "fst ?e1 = decode_secret (b64_encode ''two'')"
    by (simp add: EnsureAppSecret_def secret_of_def row_by_def empty_db_def racing_def)
  then have "fst ?e1 = Inr ''two''" by (simp only: decode_encoded)
  then have e1: "?e1 = (Inr ''two'', snd ?e1)" by (metis prod.collapse)
  have "fst ?e2 = decode_secret (b64_encode ''two'')"
    by (simp add: EnsureAppSecret_def secret_of_def row_by_def empty_db_def racing_def)
  then obtain raw where e2: "?e2 = (Inr raw, snd ?e2)" by (metis decode_encoded prod.collapse)
  from secret_is_stable[OF e1 e2 k] k have "raw = ''two''" by simp
  with e1 e2 show ?thesis by (metis fst_conv)
qed

end
