(* ===== verification/Cron_Parse.thy ===== *)
theory Cron_Parse
  imports Cron_Search Go_Text
begin

section \<open>Cron expressions: parsing\<close>

text \<open>
  \<^verbatim>\<open>src/src/scheduler/cron.go\<close>, the part that reads: fields, five-field expressions, intervals and
  the named schedules. An error is a value that says which check failed; the one run-time
  panic the code can reach, an index outside the 64 bits of a field set, is an error of its
  own. \<^verbatim>\<open>time.ParseDuration\<close> works with floating-point fractions and is an argument.
\<close>

subsection \<open>Fields\<close>

datatype field_error = InvalidStep | InvalidRange string | InvalidValue string | IndexPanic

lemma wrap64_step:
  assumes "0 \<le> v" "v \<le> max_int64" "0 < s" "s \<le> max_int64"
  shows "v < wrap64 (v + s) \<or> wrap64 (v + s) < 0"
proof (cases "v + s \<le> max_int64")
  case True
  with assms have "wrap64 (v + s) = v + s" by (intro wrap64_id) (simp add: min_int64_def)
  with assms show ?thesis by simp
next
  case False
  have "(v + s + 2 ^ 63) mod 2 ^ 64 = v + s + 2 ^ 63 - 2 ^ 64"
    by (rule int_mod_pos_eq[of _ _ 1]) (use False assms in \<open>simp_all add: max_int64_def\<close>)
  then show ?thesis using assms by (simp add: wrap64_def max_int64_def)
qed

text \<open>\<^verbatim>\<open>for v := lo; v <= hi; v += step\<close> for a positive 64-bit step, over an array of 64 bits: the sum
  wraps, and an index outside the array panics.\<close>

function step_bits :: "bool list \<Rightarrow> int \<Rightarrow> int \<Rightarrow> int \<Rightarrow> field_error + bool list" where
  "step_bits bs v hi step =
     (if v \<le> hi \<and> 0 < step \<and> step \<le> max_int64
      then if v < 0 \<or> v \<ge> 64 then Inl IndexPanic
           else step_bits (bs[nat v := True]) (wrap64 (v + step)) hi step
      else Inr bs)"
  by pat_completeness auto
termination
proof (relation "measure (\<lambda>(bs, v, hi, step). if v < 0 then 0 else nat (65 - v))")
  fix bs :: "bool list" and v hi step :: int
  assume "v \<le> hi \<and> 0 < step \<and> step \<le> max_int64" "\<not> (v < 0 \<or> v \<ge> 64)"
  then have "v < wrap64 (v + step) \<or> wrap64 (v + step) < 0" "0 \<le> v" "v < 64"
    using wrap64_step[of v step] by (auto simp: max_int64_def)
  then show "((bs[nat v := True], wrap64 (v + step), hi, step), (bs, v, hi, step))
    \<in> measure (\<lambda>(bs, v, hi, step). if v < 0 then 0 else nat (65 - v))" by auto
qed simp

declare step_bits.simps [simp del]

text \<open>\<^verbatim>\<open>for v := start; v <= end; v++\<close> by the number of values left.\<close>

fun range_bits :: "bool list \<Rightarrow> int \<Rightarrow> nat \<Rightarrow> bool list" where
  "range_bits bs v 0 = bs"
| "range_bits bs v (Suc k) = range_bits (bs[nat v := True]) (v + 1) k"

definition split2 :: "char \<Rightarrow> string \<Rightarrow> string \<times> string" where
  "split2 c s = (takeWhile (\<lambda>x. x \<noteq> c) s, tl (dropWhile (\<lambda>x. x \<noteq> c) s))"

definition parse_part :: "int \<Rightarrow> int \<Rightarrow> string \<Rightarrow> bool list \<Rightarrow> field_error + bool list" where
  "parse_part lo hi part bs =
     (if has_prefix part ''*/'' then
        (case Atoi (drop 2 part) of
           (step, None) \<Rightarrow> if step \<le> 0 then Inl InvalidStep else step_bits bs lo hi step
         | (_, Some _) \<Rightarrow> Inl InvalidStep)
      else if contains part ''-'' then
        (let (b0, b1) = split2 CHR ''-'' part; (start, err1) = Atoi b0; (ende, err2) = Atoi b1
         in if err1 \<noteq> None \<or> err2 \<noteq> None \<or> start < lo \<or> ende > hi \<or> start > ende
            then Inl (InvalidRange part)
            else Inr (range_bits bs start (nat (ende - start + 1))))
      else
        (let (n, err) = Atoi part
         in if err \<noteq> None \<or> n < lo \<or> n > hi then Inl (InvalidValue part) else Inr (bs[nat n := True])))"

fun parse_parts :: "int \<Rightarrow> int \<Rightarrow> string list \<Rightarrow> bool list \<Rightarrow> field_error + bool list" where
  "parse_parts lo hi [] bs = Inr bs"
| "parse_parts lo hi (p # ps) bs =
     (case parse_part lo hi p bs of Inl e \<Rightarrow> Inl e | Inr bs' \<Rightarrow> parse_parts lo hi ps bs')"

definition parseField :: "string \<Rightarrow> int \<Rightarrow> int \<Rightarrow> field_error + fieldSet" where
  "parseField s lo hi =
     (if s = ''*'' then Inr star
      else case parse_parts lo hi (split_on CHR '','' s) (replicate 64 False) of
             Inl e \<Rightarrow> Inl e
           | Inr bs \<Rightarrow> Inr \<lparr>bits = bs, is_star = False\<rparr>)"

subsection \<open>Schedules\<close>

datatype schedule = CronSched cronExpr | IntervalSched string duration

fun sched_Next :: "int \<Rightarrow> schedule \<Rightarrow> instant \<Rightarrow> instant" where
  "sched_Next off (CronSched c) t = cron_Next off c t"
| "sched_Next off (IntervalSched raw d) t = t + d"

fun sched_String :: "schedule \<Rightarrow> string" where
  "sched_String (CronSched c) = c_raw c"
| "sched_String (IntervalSched raw d) = raw"

datatype sched_error = EmptyExpression | InvalidDuration string | WrongFieldCount nat
  | BadField string field_error

text \<open>\<^verbatim>\<open>strings.Fields\<close>: the maximal runs without white space.\<close>

function go_fields :: "string \<Rightarrow> string \<Rightarrow> string list" where
  "go_fields cur s =
     (if s = [] then (if cur = [] then [] else [cur])
      else let n = space_prefix s
           in if n = 0 then go_fields (cur @ [hd s]) (tl s)
              else (if cur = [] then [] else [cur]) @ go_fields [] (drop n s))"
  by pat_completeness auto
termination
  by (relation "measure (\<lambda>(cur, s). length s)") auto

declare go_fields.simps [simp del]

definition parseCron :: "string \<Rightarrow> sched_error + cronExpr" where
  "parseCron expr =
     (case go_fields [] expr of
        [f0, f1, f2, f3, f4] \<Rightarrow>
          (case parseField f0 0 59 of
             Inl e \<Rightarrow> Inl (BadField ''minute'' e)
           | Inr mi \<Rightarrow>
               (case parseField f1 0 23 of
                  Inl e \<Rightarrow> Inl (BadField ''hour'' e)
                | Inr ho \<Rightarrow>
                    (case parseField f2 1 31 of
                       Inl e \<Rightarrow> Inl (BadField ''day-of-month'' e)
                     | Inr dm \<Rightarrow>
                         (case parseField f3 1 12 of
                            Inl e \<Rightarrow> Inl (BadField ''month'' e)
                          | Inr mo \<Rightarrow>
                              (case parseField f4 0 6 of
                                 Inl e \<Rightarrow> Inl (BadField ''day-of-week'' e)
                               | Inr dw \<Rightarrow> Inr \<lparr>c_raw = expr, c_minute = mi, c_hour = ho, c_dom = dm,
                                             c_month = mo, c_dow = dw\<rparr>)))))
      | fs \<Rightarrow> Inl (WrongFieldCount (length fs)))"

definition parseDuration :: "(string \<Rightarrow> duration option) \<Rightarrow> string \<Rightarrow> sched_error + duration" where
  "parseDuration pd s0 =
     (let s = trim_space s0
      in if has_suffix s ''d'' then
           (let (n, err) = Atoi (trim_suffix s ''d'')
            in if err \<noteq> None \<or> n \<le> 0 then Inl (InvalidDuration s)
               else Inr (wrap64 (wrap64 (n * 24) * Hour)))
         else case pd s of
                Some d \<Rightarrow> if d \<le> 0 then Inl (InvalidDuration s) else Inr d
              | None \<Rightarrow> Inl (InvalidDuration s))"

definition named_expr :: "string \<Rightarrow> fieldSet \<Rightarrow> fieldSet \<Rightarrow> fieldSet \<Rightarrow> fieldSet \<Rightarrow> fieldSet \<Rightarrow> sched_error + schedule" where
  "named_expr raw mi ho dm mo dw = Inr (CronSched \<lparr>c_raw = raw, c_minute = mi, c_hour = ho, c_dom = dm,
     c_month = mo, c_dow = dw\<rparr>)"

definition ParseSchedule :: "(string \<Rightarrow> duration option) \<Rightarrow> string \<Rightarrow> sched_error + schedule" where
  "ParseSchedule pd expr0 =
     (let expr = trim_space expr0
      in if expr = [] then Inl EmptyExpression
         else if expr = ''@hourly'' then named_expr expr (single 0) star star star star
         else if expr = ''@daily'' \<or> expr = ''@midnight'' then named_expr expr (single 0) (single 0) star star star
         else if expr = ''@weekly'' then named_expr expr (single 0) (single 0) star star (single 0)
         else if expr = ''@monthly'' then named_expr expr (single 0) (single 0) (single 1) star star
         else if expr = ''@yearly'' \<or> expr = ''@annually''
         then named_expr expr (single 0) (single 0) (single 1) (single 1) star
         else if has_prefix expr ''@every '' then
           (case parseDuration pd (trim_prefix expr ''@every '') of
              Inl e \<Rightarrow> Inl e | Inr d \<Rightarrow> Inr (IntervalSched expr d))
         else (case parseCron expr of Inl e \<Rightarrow> Inl e | Inr c \<Rightarrow> Inr (CronSched c)))"

subsection \<open>Printing, and reading back\<close>

text \<open>The grammar of a field: a star, or a list of values, ranges and steps.\<close>

datatype field_item = IVal int | IRange int int | IStep int

datatype field_text = Every | Items "field_item list"

fun print_item :: "field_item \<Rightarrow> string" where
  "print_item (IVal n) = show_int n"
| "print_item (IRange a b) = show_int a @ ''-'' @ show_int b"
| "print_item (IStep k) = ''*/'' @ show_int k"

fun print_field :: "field_text \<Rightarrow> string" where
  "print_field Every = ''*''"
| "print_field (Items its) = join CHR '','' (map print_item its)"

text \<open>The values in range; a step must be small enough for its last addition.\<close>

fun item_ok :: "int \<Rightarrow> int \<Rightarrow> field_item \<Rightarrow> bool" where
  "item_ok lo hi (IVal n) = (lo \<le> n \<and> n \<le> hi)"
| "item_ok lo hi (IRange a b) = (lo \<le> a \<and> a \<le> b \<and> b \<le> hi)"
| "item_ok lo hi (IStep k) = (0 < k \<and> k \<le> max_int64 - 64)"

fun text_ok :: "int \<Rightarrow> int \<Rightarrow> field_text \<Rightarrow> bool" where
  "text_ok lo hi Every = True"
| "text_ok lo hi (Items its) = (its \<noteq> [] \<and> list_all (item_ok lo hi) its)"

fun item_has :: "int \<Rightarrow> int \<Rightarrow> field_item \<Rightarrow> int \<Rightarrow> bool" where
  "item_has lo hi (IVal n) v = (v = n)"
| "item_has lo hi (IRange a b) v = (a \<le> v \<and> v \<le> b)"
| "item_has lo hi (IStep k) v = (lo \<le> v \<and> v \<le> hi \<and> (v - lo) mod k = 0)"

fun text_has :: "int \<Rightarrow> int \<Rightarrow> field_text \<Rightarrow> int \<Rightarrow> bool" where
  "text_has lo hi Every v = True"
| "text_has lo hi (Items its) v = list_ex (\<lambda>it. item_has lo hi it v) its"

text \<open>The bits of an array of 64.\<close>

definition bit_at :: "bool list \<Rightarrow> int \<Rightarrow> bool" where
  "bit_at bs v \<longleftrightarrow> 0 \<le> v \<and> v < 64 \<and> bs ! nat v"

lemma bit_at_update: "length bs = 64 \<Longrightarrow> 0 \<le> n \<Longrightarrow> n < 64 \<Longrightarrow> bit_at (bs[nat n := True]) v \<longleftrightarrow> bit_at bs v \<or> v = n"
  by (auto simp: bit_at_def nth_list_update)

lemma range_bits_at:
  "length bs = 64 \<Longrightarrow> 0 \<le> v \<Longrightarrow> v + int k \<le> 64 \<Longrightarrow>
   length (range_bits bs v k) = 64 \<and> (\<forall>u. bit_at (range_bits bs v k) u \<longleftrightarrow> bit_at bs u \<or> v \<le> u \<and> u < v + int k)"
proof (induction bs v k rule: range_bits.induct)
  case (2 bs v k)
  then have "length (range_bits (bs[nat v := True]) (v + 1) k) = 64 \<and>
    (\<forall>u. bit_at (range_bits (bs[nat v := True]) (v + 1) k) u \<longleftrightarrow>
      bit_at (bs[nat v := True]) u \<or> v + 1 \<le> u \<and> u < v + 1 + int k)" by simp
  then show ?case using 2 bit_at_update[of bs v] by auto
qed auto

lemma step_bits_at:
  "length bs = 64 \<Longrightarrow> 0 \<le> v \<Longrightarrow> hi < 64 \<Longrightarrow> 0 < k \<Longrightarrow> k \<le> max_int64 - 64 \<Longrightarrow>
   \<exists>bs'. step_bits bs v hi k = Inr bs' \<and> length bs' = 64 \<and>
     (\<forall>u. bit_at bs' u \<longleftrightarrow> bit_at bs u \<or> v \<le> u \<and> u \<le> hi \<and> (u - v) mod k = 0)"
proof (induction bs v hi k rule: step_bits.induct)
  case (1 bs v hi k)
  note prems = "1.prems"
  show ?case
  proof (cases "v \<le> hi")
    case True
    have go: "v \<le> hi \<and> 0 < k \<and> k \<le> max_int64" "\<not> (v < 0 \<or> v \<ge> 64)" using True prems by auto
    have w: "wrap64 (v + k) = v + k" using go prems by (intro wrap64_id) (simp add: min_int64_def)
    have "\<exists>bs'. step_bits (bs[nat v := True]) (v + k) hi k = Inr bs' \<and> length bs' = 64 \<and>
      (\<forall>u. bit_at bs' u \<longleftrightarrow> bit_at (bs[nat v := True]) u \<or> v + k \<le> u \<and> u \<le> hi \<and> (u - (v + k)) mod k = 0)"
      using "1.IH"[OF go] prems unfolding w by simp
    then obtain bs' where bs': "step_bits (bs[nat v := True]) (v + k) hi k = Inr bs'" "length bs' = 64"
      "\<forall>u. bit_at bs' u \<longleftrightarrow> bit_at (bs[nat v := True]) u \<or> v + k \<le> u \<and> u \<le> hi \<and> (u - (v + k)) mod k = 0"
      by blast
    have step: "step_bits bs v hi k = Inr bs'"
      using go bs'(1) by (subst step_bits.simps) (simp add: w)
    have mod: "(u - (v + k)) mod k = (u - v) mod k" for u
      using mod_add_self2[of "u - v - k" k] by (simp add: algebra_simps)
    have small: "u = v" if "v \<le> u" "u < v + k" "(u - v) mod k = 0" for u
      using that by simp
    have upd: "bit_at (bs[nat v := True]) u \<longleftrightarrow> bit_at bs u \<or> u = v" for u
      using prems(1) go(2) by (intro bit_at_update) simp_all
    have split: "v \<le> u \<and> u \<le> hi \<and> (u - v) mod k = 0 \<longleftrightarrow>
      u = v \<or> (v + k \<le> u \<and> u \<le> hi \<and> (u - v) mod k = 0)" for u
    proof (cases "u < v + k")
      case u: True
      then have "\<not> v + k \<le> u" by simp
      note far = this
      show ?thesis
      proof (cases "u = v")
        case eq: True
        with True show ?thesis by simp
      next
        case False
        with small[OF _ u] far show ?thesis by metis
      qed
    next
      case False
      with prems(4) show ?thesis by linarith
    qed
    have "bit_at bs' u \<longleftrightarrow> bit_at bs u \<or> v \<le> u \<and> u \<le> hi \<and> (u - v) mod k = 0" for u
      unfolding bs'(3)[rule_format] upd split mod by blast
    with step bs'(2) show ?thesis by blast
  next
    case False
    then show ?thesis using prems by (subst step_bits.simps) auto
  qed
qed

lemma split2_sep: "c \<notin> set xs \<Longrightarrow> split2 c (xs @ [c] @ ys) = (xs, ys)"
  unfolding split2_def by (induction xs) auto

lemma parse_part_item:
  assumes "item_ok lo hi it" "0 \<le> lo" "lo \<le> hi" "hi < 64" "length bs = 64"
  shows "\<exists>bs'. parse_part lo hi (print_item it) bs = Inr bs' \<and> length bs' = 64 \<and>
    (\<forall>u. bit_at bs' u \<longleftrightarrow> bit_at bs u \<or> item_has lo hi it u)"
proof (cases it)
  case (IVal n)
  then have n: "0 \<le> n" "in_int64 n" "lo \<le> n" "n \<le> hi" using assms by (auto simp: min_int64_def max_int64_def)
  have "\<not> contains (show_int n) ''-''" "\<not> has_prefix (show_int n) ''*/''"
    using n show_nat_head[of "nat n"] show_nat_no[of "CHR ''-''" "nat n"] show_nat_no[of "CHR ''*''" "nat n"]
    by (auto simp: show_int_def contains_char has_prefix_def)
  then show ?thesis
    using n assms IVal bit_at_update[of bs n] ParseInt_show_int[of n] by (simp add: parse_part_def)
next
  case (IRange a b)
  then have ab: "0 \<le> a" "0 \<le> b" "in_int64 a" "in_int64 b" "lo \<le> a" "a \<le> b" "b \<le> hi"
    using assms by (auto simp: min_int64_def max_int64_def)
  have neg: "CHR ''-'' \<notin> set (show_int a)" "CHR ''*'' \<notin> set (show_int a)"
    using ab show_nat_no[of "CHR ''-''" "nat a"] show_nat_no[of "CHR ''*''" "nat a"] by (auto simp: show_int_def)
  have split: "split2 CHR ''-'' (print_item it) = (show_int a, show_int b)"
    unfolding IRange print_item.simps by (rule split2_sep[OF neg(1)])
  have num: "ParseInt (show_int a) = (a, None)" "ParseInt (show_int b) = (b, None)"
    using ParseInt_show_int ab by blast+
  have "v < a + int (nat (b - a + 1)) \<longleftrightarrow> v \<le> b" for v using ab by auto
  then have range: "length (range_bits bs a (nat (b - a + 1))) = 64 \<and>
    (\<forall>u. bit_at (range_bits bs a (nat (b - a + 1))) u \<longleftrightarrow> bit_at bs u \<or> a \<le> u \<and> u \<le> b)"
    using range_bits_at[of bs a "nat (b - a + 1)"] ab assms(4,5) by simp
  have "\<not> has_prefix (print_item it) ''*/''" "contains (print_item it) ''-''"
    using neg IRange show_nat_head[of "nat a"] ab by (auto simp: show_int_def contains_char has_prefix_def)
  then show ?thesis
    using ab assms IRange split range by (simp add: parse_part_def Let_def num)
next
  case (IStep k)
  then have k: "0 < k" "k \<le> max_int64 - 64" "in_int64 k" using assms by (auto simp: min_int64_def)
  then show ?thesis
    using assms IStep step_bits_at[of bs lo hi k] ParseInt_show_int[of k]
    by (simp add: parse_part_def has_prefix_def)
qed

lemma parse_parts_items:
  assumes "list_all (item_ok lo hi) its" "0 \<le> lo" "lo \<le> hi" "hi < 64" "length bs = 64"
  shows "\<exists>bs'. parse_parts lo hi (map print_item its) bs = Inr bs' \<and> length bs' = 64 \<and>
    (\<forall>u. bit_at bs' u \<longleftrightarrow> bit_at bs u \<or> list_ex (\<lambda>it. item_has lo hi it u) its)"
  using assms
proof (induction its arbitrary: bs)
  case (Cons it its)
  then obtain b1 where b1: "parse_part lo hi (print_item it) bs = Inr b1" "length b1 = 64"
    "\<forall>u. bit_at b1 u \<longleftrightarrow> bit_at bs u \<or> item_has lo hi it u"
    using parse_part_item[of lo hi it bs] by auto
  with Cons.IH[of b1] Cons.prems show ?case by auto
qed simp

text \<open>Printed fields are made of these characters, none of which separates fields.\<close>

lemma plain_item: "c \<in> set (print_item it) \<Longrightarrow> plain_char c \<and> c \<noteq> CHR '','' \<and> c \<noteq> CHR ''@''"
  by (cases it) (auto dest: plain_show_int simp: plain_char_def)

lemma plain_field: "c \<in> set (print_field ft) \<Longrightarrow> plain_char c \<and> c \<noteq> CHR ''@''"
proof (cases ft)
  case (Items its)
  assume "c \<in> set (print_field ft)"
  with Items set_join[of "CHR '',''" "map print_item its"] have "c = CHR '','' \<or> (\<exists>it \<in> set its. c \<in> set (print_item it))"
    by auto
  then show ?thesis using plain_item by (auto simp: plain_char_def)
qed (simp add: plain_char_def)

lemma print_item_ne: "print_item it \<noteq> [] \<and> print_item it \<noteq> ''*''"
proof (cases it)
  case (IVal n)
  have "show_int n \<noteq> ''*''" using show_nat_no[of "CHR ''*''" "nat n"] by (auto simp: show_int_def)
  with IVal show_int_ne show ?thesis by simp
next
  case (IRange a b)
  have "show_int a @ ''-'' @ show_int b \<noteq> ''*''" using show_int_ne[of a] show_int_ne[of b]
    by (metis append_is_Nil_conv append_eq_Cons_conv)
  with IRange show ?thesis by simp
qed simp

lemma print_items_ne: "its \<noteq> [] \<Longrightarrow> print_field (Items its) \<noteq> [] \<and> print_field (Items its) \<noteq> ''*''"
  using print_item_ne by (cases its; cases "tl its") (auto simp: append_eq_Cons_conv)

lemma field_contains_bits: "length bs = 64 \<Longrightarrow> field_contains \<lparr>bits = bs, is_star = False\<rparr> v \<longleftrightarrow> bit_at bs v"
  by (auto simp: field_contains_def bit_at_def)

lemma no_bits: "\<not> bit_at (replicate 64 False) v"
  by (auto simp: bit_at_def)

lemma parseField_print:
  assumes "text_ok lo hi ft" "0 \<le> lo" "lo \<le> hi" "hi < 64"
  shows "\<exists>f. parseField (print_field ft) lo hi = Inr f \<and> (is_star f \<longleftrightarrow> ft = Every) \<and>
    (\<forall>v. field_contains f v \<longleftrightarrow> text_has lo hi ft v)"
proof (cases ft)
  case Every
  then show ?thesis by (simp add: parseField_def star_def field_contains_def)
next
  case (Items its)
  with assms have its: "its \<noteq> []" "list_all (item_ok lo hi) its" by auto
  have "\<forall>x \<in> set (map print_item its). CHR '','' \<notin> set x" using plain_item by auto
  with its have split: "split_on CHR '','' (print_field ft) = map print_item its"
    using split_on_join[of "map print_item its" "CHR '',''"] Items by simp
  obtain bs where bs: "parse_parts lo hi (map print_item its) (replicate 64 False) = Inr bs" "length bs = 64"
    "\<forall>u. bit_at bs u \<longleftrightarrow> bit_at (replicate 64 False) u \<or> list_ex (\<lambda>it. item_has lo hi it u) its"
    using parse_parts_items[OF its(2) assms(2-4), of "replicate 64 False"] by auto
  have "parseField (print_field ft) lo hi = Inr \<lparr>bits = bs, is_star = False\<rparr>"
    unfolding parseField_def split bs(1) using print_items_ne[OF its(1)] Items by simp
  moreover have "field_contains \<lparr>bits = bs, is_star = False\<rparr> v \<longleftrightarrow> text_has lo hi ft v" for v
    using bs(2,3) Items by (simp add: field_contains_bits no_bits)
  ultimately show ?thesis using Items by simp
qed

lemma go_fields_word:
  "\<forall>c \<in> set w. plain_char c \<Longrightarrow> go_fields cur (w @ s) = go_fields (cur @ w) s"
proof (induction w arbitrary: cur)
  case (Cons c w)
  then have "go_fields cur ((c # w) @ s) = go_fields (cur @ [c]) (w @ s)"
    by (subst go_fields.simps) (simp add: space_prefix_plain)
  with Cons show ?case by simp
qed simp

lemma space_prefix_blank: "space_prefix (CHR '' '' # s) = 1"
  by (simp add: space_prefix_def space_seqs_def byte_seq_def has_prefix_def char_of_def bit_Suc_0_iff)

lemma go_fields_join:
  "\<forall>x \<in> set xs. x \<noteq> [] \<and> (\<forall>c \<in> set x. plain_char c) \<Longrightarrow> go_fields [] (join CHR '' '' xs) = xs"
proof (induction "CHR '' ''" xs rule: join.induct)
  case 1
  then show ?case by (subst go_fields.simps) simp
next
  case (2 x)
  then have "go_fields [] (x @ []) = go_fields ([] @ x) []" by (intro go_fields_word) simp
  with 2 show ?case by (simp add: go_fields.simps[of x "[]"])
next
  case (3 x y xs)
  then have "go_fields [] (join CHR '' '' (x # y # xs)) = go_fields x (CHR '' '' # join CHR '' '' (y # xs))"
    using go_fields_word[of x "[]" "CHR '' '' # join CHR '' '' (y # xs)"] by simp
  also have "\<dots> = x # go_fields [] (join CHR '' '' (y # xs))"
    using 3 by (subst go_fields.simps) (simp add: space_prefix_blank)
  finally show ?case using 3 by simp
qed

definition print_cron :: "field_text \<Rightarrow> field_text \<Rightarrow> field_text \<Rightarrow> field_text \<Rightarrow> field_text \<Rightarrow> string" where
  "print_cron mi ho dm mo dw = join CHR '' '' (map print_field [mi, ho, dm, mo, dw])"

lemma print_field_ne: "text_ok lo hi ft \<Longrightarrow> print_field ft \<noteq> []"
  using print_items_ne by (cases ft) auto

text \<open>C19: Every expression of the grammar is read as it is meant. Five fields, each a star or a list of
  values, ranges and steps within the bounds of the field, printed and separated by blanks,
  are accepted, and the parsed expression matches a minute exactly when month, hour and
  minute are in their fields and the day is: in the one restricted day field, or in either
  when both the day of the month and the day of the week are restricted.\<close>

theorem ParseSchedule_print:
  assumes "text_ok 0 59 mi" "text_ok 0 23 ho" "text_ok 1 31 dm" "text_ok 1 12 mo" "text_ok 0 6 dw"
  shows "\<exists>c. ParseSchedule pd (print_cron mi ho dm mo dw) = Inr (CronSched c) \<and>
    (\<forall>n. cron_matches c n \<longleftrightarrow>
       text_has 1 12 mo (month_of (day_nr n)) \<and> text_has 0 23 ho (t_Hour n) \<and> text_has 0 59 mi (t_Minute n) \<and>
       (if dm = Every then text_has 0 6 dw (weekday_of (day_nr n))
        else if dw = Every then text_has 1 31 dm (day_of_month (day_nr n))
        else text_has 1 31 dm (day_of_month (day_nr n)) \<or> text_has 0 6 dw (weekday_of (day_nr n))))"
proof -
  let ?s = "print_cron mi ho dm mo dw" and ?fs = "map print_field [mi, ho, dm, mo, dw]"
  have words: "\<forall>x \<in> set ?fs. x \<noteq> [] \<and> (\<forall>c \<in> set x. plain_char c)"
    using assms print_field_ne plain_field by auto
  obtain f0 where f0: "parseField (print_field mi) 0 59 = Inr f0" "\<forall>v. field_contains f0 v \<longleftrightarrow> text_has 0 59 mi v"
    using parseField_print[OF assms(1)] by auto
  obtain f1 where f1: "parseField (print_field ho) 0 23 = Inr f1" "\<forall>v. field_contains f1 v \<longleftrightarrow> text_has 0 23 ho v"
    using parseField_print[OF assms(2)] by auto
  obtain f2 where f2: "parseField (print_field dm) 1 31 = Inr f2" "\<forall>v. field_contains f2 v \<longleftrightarrow> text_has 1 31 dm v"
    "is_star f2 \<longleftrightarrow> dm = Every"
    using parseField_print[OF assms(3)] by auto
  obtain f3 where f3: "parseField (print_field mo) 1 12 = Inr f3" "\<forall>v. field_contains f3 v \<longleftrightarrow> text_has 1 12 mo v"
    using parseField_print[OF assms(4)] by auto
  obtain f4 where f4: "parseField (print_field dw) 0 6 = Inr f4" "\<forall>v. field_contains f4 v \<longleftrightarrow> text_has 0 6 dw v"
    "is_star f4 \<longleftrightarrow> dw = Every"
    using parseField_print[OF assms(5)] by auto
  note f = f0 f1 f2 f3 f4
  let ?c = "\<lparr>c_raw = ?s, c_minute = f0, c_hour = f1, c_dom = f2, c_month = f3, c_dow = f4\<rparr>"
  have "go_fields [] ?s = ?fs" unfolding print_cron_def by (rule go_fields_join[OF words])
  then have parse: "parseCron ?s = Inr ?c" by (simp add: parseCron_def f)
  have ne: "print_field mi \<noteq> []" "print_field dw \<noteq> []" using words by auto
  have ends: "plain_char (hd (print_field mi))" "hd (print_field mi) \<noteq> CHR ''@''" "plain_char (last (print_field dw))"
    using plain_field[OF hd_in_set[OF ne(1)]] plain_field[OF last_in_set[OF ne(2)]] by blast+
  have s: "?s \<noteq> []" "hd ?s = hd (print_field mi)" "last ?s = last (print_field dw)"
    using ne by (simp_all add: print_cron_def hd_append)
  have "trim_space ?s = ?s" by (rule trim_space_plain) (simp_all only: s ends not_False_eq_True)
  moreover have "?s \<noteq> CHR ''@'' # w" "\<not> has_prefix ?s (CHR ''@'' # w)" for w
    using s(1) ends(2) unfolding s(2)[symmetric] by (auto simp: has_prefix_def neq_Nil_conv)
  ultimately have "ParseSchedule pd ?s = Inr (CronSched ?c)"
    unfolding ParseSchedule_def Let_def by (simp add: s parse)
  moreover have "dm = Every \<Longrightarrow> text_has 1 31 dm v" "dw = Every \<Longrightarrow> text_has 0 6 dw v" for v by simp_all
  ultimately show ?thesis using f by (auto simp: cron_matches_def dayMatches_def Let_def)
qed

theorem ParseSchedule_print_witness:
  "\<exists>c. ParseSchedule (\<lambda>_. None)
      (print_cron (Items [IStep 15]) (Items [IRange 9 17]) (Items [IVal 1, IVal 15]) Every (Items [IVal 5])) =
      Inr (CronSched c) \<and>
    (\<forall>n. cron_matches c n \<longleftrightarrow>
       (9 \<le> t_Hour n \<and> t_Hour n \<le> 17) \<and> (t_Minute n \<le> 59 \<and> 0 \<le> t_Minute n \<and> t_Minute n mod 15 = 0) \<and>
       (day_of_month (day_nr n) = 1 \<or> day_of_month (day_nr n) = 15 \<or> weekday_of (day_nr n) = 5))"
proof -
  have "max_int64 - 64 \<ge> 15" by (simp add: max_int64_def)
  with ParseSchedule_print[of "Items [IStep 15]" "Items [IRange 9 17]" "Items [IVal 1, IVal 15]" Every
      "Items [IVal 5]" "\<lambda>_. None"]
  show ?thesis by (simp add: conj_ac disj_ac)
qed

lemmas number_eval = parse_part_def has_prefix_def ParseInt_def digit_val_def clamp_sign_def

subsection \<open>Where the bounds are missed\<close>

text \<open>The step of a field is added in 64 bits without a check. For a field that starts at one, such
  as the days and the months, the largest step the parser accepts makes the sum wrap to a
  negative number, which the loop uses as an index: the parser panics instead of reporting an
  error.\<close>

theorem step_overflow_panics:
  assumes "0 < lo" "lo \<le> hi" "hi < 64"
  shows "parseField (''*/'' @ show_int max_int64) lo hi = Inl IndexPanic"
proof -
  let ?p = "''*/'' @ show_int max_int64"
  have m: "in_int64 max_int64" by (simp add: max_int64_def min_int64_def)
  have "\<forall>x \<in> set [?p]. CHR '','' \<notin> set x" using plain_item[of "CHR '',''" "IStep max_int64"] by auto
  then have split: "split_on CHR '','' ?p = [?p]" using split_on_join[of "[?p]" "CHR '',''"] by simp
  have w: "wrap64 (lo + max_int64) < 0"
  proof -
    have "(lo + max_int64 + 2 ^ 63) mod 2 ^ 64 = lo - 1"
      by (rule int_mod_pos_eq[of _ _ 1]) (use assms in \<open>simp_all add: max_int64_def\<close>)
    then show ?thesis using assms by (simp add: wrap64_def)
  qed
  have "step_bits bs lo hi max_int64 = Inl IndexPanic" for bs
    using assms w by (subst step_bits.simps, subst step_bits.simps) (auto simp: max_int64_def)
  then have "parse_part lo hi ?p bs = Inl IndexPanic" for bs
    using ParseInt_show_int[OF m] by (simp add: parse_part_def has_prefix_def) (simp add: max_int64_def)
  then show ?thesis unfolding parseField_def split by simp
qed

theorem step_overflow_panics_witness:
  "parseField (''*/'' @ show_int max_int64) 1 31 = Inl IndexPanic"
  by (rule step_overflow_panics) simp_all

definition leap_day :: cronExpr where
  "leap_day = \<lparr>c_raw = ''0 0 29 2 *'', c_minute = single 0, c_hour = single 0, c_dom = single 29,
     c_month = single 2, c_dow = star\<rparr>"

text \<open>A schedule for the leap day stops after one run. The expression is accepted, but the search
  gives up after 1460 days, one short of the distance between two leap days: asked at the
  run on the 29th of February 2024, \<^verbatim>\<open>Next\<close> answers with the zero time, although the
  expression fires again on the 29th of February 2028.\<close>

theorem leap_day_schedule_stops:
  "ParseSchedule pd ''0 0 29 2 *'' = Inr (CronSched leap_day) \<and>
   fires 0 leap_day 1709164800000000000 \<and>
   cron_Next 0 leap_day 1709164800000000000 = zero_time \<and>
   fires 0 leap_day 1835395200000000000"
proof (intro conjI)
  have trim: "trim_space ''0 0 29 2 *'' = ''0 0 29 2 *''" by (rule trim_space_plain) (simp_all add: plain_char_def)
  have "go_fields [] (join CHR '' '' [''0'', ''0'', ''29'', ''2'', ''*'']) = [''0'', ''0'', ''29'', ''2'', ''*'']"
    by (rule go_fields_join) (simp add: plain_char_def)
  then have "parseCron ''0 0 29 2 *'' = Inr leap_day"
    by (simp add: parseCron_def parseField_def leap_day_def single_def star_def number_eval)
  then show "ParseSchedule pd ''0 0 29 2 *'' = Inr (CronSched leap_day)"
    by (simp add: ParseSchedule_def trim has_prefix_def)
  show "fires 0 leap_day 1709164800000000000" by code_simp
  show "cron_Next 0 leap_day 1709164800000000000 = zero_time" by code_simp
  show "fires 0 leap_day 1835395200000000000" by code_simp
qed

text \<open>An interval in days is not bounded either: it can come out negative.\<close>

lemma day_interval_overflow: "parseDuration pd ''106752d'' = Inr (- 9223371273709551616)"
proof -
  have trim: "trim_space ''106752d'' = ''106752d''" by (rule trim_space_plain) (simp_all add: plain_char_def)
  show ?thesis unfolding parseDuration_def trim Let_def
    by (simp add: has_suffix_def trim_suffix_def number_eval wrap64_def Hour_def)
qed

end
