(* ===== verification/Scheduler.thy ===== *)
theory Scheduler
  imports Task_Store Cron_Parse
begin

section \<open>The task scheduler\<close>

text \<open>
  \<^verbatim>\<open>src/src/scheduler/scheduler.go\<close>. The scheduler keeps its tasks in a map, here a list of
  entries with distinct identifiers whose order stands for the order in which a loop over the
  map visits them. Everything that happens under the mutex is one function. A task that runs
  is a job: it is executing from the moment its entry is marked until \<^verbatim>\<open>execute\<close> records the
  outcome, and completed until the goroutine clears the mark. The task functions themselves
  are not modelled; a run ends with an error message or without one, at any later instant.

  Clocks are read by the caller: each function takes the instants it reads. Database failures
  are arguments as well; the scheduler ignores them. All instants are read in one zone with a
  fixed offset.
\<close>

subsection \<open>State\<close>

definition defaultCatchUpWindow :: duration where "defaultCatchUpWindow = Hour"
definition defaultRetryDelay :: duration where "defaultRetryDelay = 5 * Minute"
definition defaultMaxRetries :: int where "defaultMaxRetries = 3"

record task_entry =
  te_id :: string
  te_name :: string
  te_schedule :: schedule
  te_enabled :: bool
  te_retryOnFail :: bool
  te_retryMax :: int
  te_retryBase :: duration
  te_lastRun :: instant
  te_lastStatus :: string
  te_lastError :: string
  te_nextRun :: instant
  te_runCount :: int
  te_failCount :: int
  te_running :: bool
  te_retryAttempt :: int

datatype phase = Executing | Completed

record scheduler =
  sc_db :: "db option"
  sc_catchUpWindow :: duration
  sc_tasks :: "task_entry list"
  sc_running :: bool
  sc_jobs :: "(string \<times> phase) list"

definition sched_New :: "db option \<Rightarrow> scheduler" where
  "sched_New d = \<lparr>sc_db = d, sc_catchUpWindow = defaultCatchUpWindow, sc_tasks = [], sc_running = False, sc_jobs = []\<rparr>"

abbreviation entry_of :: "string \<Rightarrow> scheduler \<Rightarrow> task_entry option" where
  "entry_of k s \<equiv> row_by te_id k (sc_tasks s)"

definition change_entry :: "string \<Rightarrow> (task_entry \<Rightarrow> task_entry) \<Rightarrow> scheduler \<Rightarrow> scheduler" where
  "change_entry k f s = s\<lparr>sc_tasks := update_where (\<lambda>e. te_id e = k) f (sc_tasks s)\<rparr>"

subsection \<open>Configuration\<close>

definition SetCatchUpWindow :: "duration \<Rightarrow> scheduler \<Rightarrow> scheduler" where
  "SetCatchUpWindow d s = s\<lparr>sc_catchUpWindow := d\<rparr>"

definition SetRetry :: "string \<Rightarrow> bool \<Rightarrow> duration \<Rightarrow> int \<Rightarrow> scheduler \<Rightarrow> scheduler" where
  "SetRetry k en base0 maxRetries s =
     change_entry k (\<lambda>e. e\<lparr>te_retryOnFail := en,
       te_retryBase := (if base0 \<le> 0 then defaultRetryDelay else base0),
       te_retryMax := (if maxRetries \<le> 0 then defaultMaxRetries else maxRetries)\<rparr>) s"

definition fresh_entry :: "string \<Rightarrow> string \<Rightarrow> schedule \<Rightarrow> bool \<Rightarrow> task_entry" where
  "fresh_entry k name sched en =
     \<lparr>te_id = k, te_name = name, te_schedule = sched, te_enabled = en, te_retryOnFail = False, te_retryMax = 0,
      te_retryBase = 0, te_lastRun = zero_time, te_lastStatus = ''pending'', te_lastError = [],
      te_nextRun = zero_time, te_runCount = 0, te_failCount = 0, te_running = False, te_retryAttempt = 0\<rparr>"

definition Register ::
  "(string \<Rightarrow> duration option) \<Rightarrow> string \<Rightarrow> string \<Rightarrow> string \<Rightarrow> bool \<Rightarrow> scheduler \<Rightarrow> sched_error + scheduler" where
  "Register pd k name schedExpr en s =
     (case ParseSchedule pd schedExpr of
        Inl e \<Rightarrow> Inl e
      | Inr sched \<Rightarrow>
          (let e = fresh_entry k name sched en
           in Inr (case entry_of k s of
                     None \<Rightarrow> s\<lparr>sc_tasks := sc_tasks s @ [e]\<rparr>
                   | Some _ \<Rightarrow> change_entry k (\<lambda>_. e) s)))"

subsection \<open>Persistence\<close>

definition toTaskState :: "task_entry \<Rightarrow> task_state" where
  "toTaskState e =
     \<lparr>ts_TaskID = te_id e, ts_TaskName = te_name e, ts_Schedule = sched_String (te_schedule e),
      ts_LastRun = te_lastRun e, ts_LastStatus = te_lastStatus e, ts_LastError = te_lastError e,
      ts_NextRun = te_nextRun e, ts_RunCount = te_runCount e, ts_FailCount = te_failCount e,
      ts_Enabled = te_enabled e\<rparr>"

definition or_else :: "db_error + db \<Rightarrow> db \<Rightarrow> db" where
  "or_else r d = (case r of Inl _ \<Rightarrow> d | Inr d' \<Rightarrow> d')"

definition persistState :: "bool \<Rightarrow> task_entry \<Rightarrow> db option \<Rightarrow> db option" where
  "persistState fault e d0 =
     (case d0 of None \<Rightarrow> None | Some d \<Rightarrow> Some (or_else (UpsertSchedulerTask fault (toTaskState e) d) d))"

definition load_entry :: "int \<Rightarrow> instant \<Rightarrow> (string \<Rightarrow> task_state option) \<Rightarrow> task_entry \<Rightarrow> task_entry" where
  "load_entry off now stateByID e =
     (case stateByID (te_id e) of
        Some st \<Rightarrow>
          e\<lparr>te_lastRun := ts_LastRun st, te_lastStatus := ts_LastStatus st, te_lastError := ts_LastError st,
            te_runCount := ts_RunCount st, te_failCount := ts_FailCount st,
            te_nextRun := (if \<not> IsZero (ts_LastRun st) then sched_Next off (te_schedule e) (ts_LastRun st)
                           else sched_Next off (te_schedule e) now)\<rparr>
      | None \<Rightarrow> e\<lparr>te_nextRun := sched_Next off (te_schedule e) now\<rparr>)"

definition stored_states :: "bool \<Rightarrow> db \<Rightarrow> string \<Rightarrow> task_state option" where
  "stored_states fault d =
     (case ListSchedulerTasks fault d of
        Inl _ \<Rightarrow> Map.empty
      | Inr sts \<Rightarrow> fold (\<lambda>st m. m(ts_TaskID st \<mapsto> st)) sts Map.empty)"

definition loadState :: "int \<Rightarrow> bool \<Rightarrow> (string \<Rightarrow> bool) \<Rightarrow> instant \<Rightarrow> scheduler \<Rightarrow> scheduler" where
  "loadState off listFault upFault now s =
     (case sc_db s of
        None \<Rightarrow> s\<lparr>sc_tasks := map (\<lambda>e. e\<lparr>te_nextRun := sched_Next off (te_schedule e) now\<rparr>) (sc_tasks s)\<rparr>
      | Some d \<Rightarrow>
          (let tasks = map (load_entry off now (stored_states listFault d)) (sc_tasks s)
           in s\<lparr>sc_tasks := tasks,
                sc_db := Some (fold (\<lambda>e d. or_else (UpsertSchedulerTask (upFault (te_id e)) (toTaskState e) d) d) tasks d)\<rparr>))"

subsection \<open>Starting runs\<close>

text \<open>Marking a set of entries and starting a goroutine for each.\<close>

definition launch :: "(task_entry \<Rightarrow> bool) \<Rightarrow> scheduler \<Rightarrow> scheduler" where
  "launch P s =
     s\<lparr>sc_tasks := update_where P (\<lambda>e. e\<lparr>te_running := True\<rparr>) (sc_tasks s),
       sc_jobs := sc_jobs s @ map (\<lambda>e. (te_id e, Executing)) (filter P (sc_tasks s))\<rparr>"

definition missed :: "instant \<Rightarrow> duration \<Rightarrow> task_entry \<Rightarrow> bool" where
  "missed now window e \<longleftrightarrow>
     te_enabled e \<and> \<not> IsZero (te_nextRun e) \<and> te_nextRun e > now - window \<and> te_nextRun e < now"

definition runMissed :: "instant \<Rightarrow> scheduler \<Rightarrow> scheduler" where
  "runMissed now s = launch (missed now (sc_catchUpWindow s)) s"

definition Start :: "int \<Rightarrow> bool \<Rightarrow> (string \<Rightarrow> bool) \<Rightarrow> instant \<Rightarrow> instant \<Rightarrow> scheduler \<Rightarrow> scheduler" where
  "Start off listFault upFault now now2 s =
     (if sc_running s then s
      else runMissed now2 (loadState off listFault upFault now (s\<lparr>sc_running := True\<rparr>)))"

definition task_due :: "instant \<Rightarrow> task_entry \<Rightarrow> bool" where
  "task_due now e \<longleftrightarrow> te_enabled e \<and> \<not> te_running e \<and> \<not> IsZero (te_nextRun e) \<and> now > te_nextRun e"

definition tick :: "instant \<Rightarrow> scheduler \<Rightarrow> scheduler" where
  "tick now s = launch (task_due now) s"

datatype run_error = TaskNotFound | AlreadyRunning

text \<open>\<^verbatim>\<open>RunNow\<close> up to the call of \<^verbatim>\<open>execute\<close>; the rest is the life of the job.\<close>

definition RunNow :: "string \<Rightarrow> scheduler \<Rightarrow> run_error + scheduler" where
  "RunNow k s =
     (case entry_of k s of
        None \<Rightarrow> Inl TaskNotFound
      | Some e \<Rightarrow>
          if te_running e then Inl AlreadyRunning
          else Inr ((change_entry k (\<lambda>e. e\<lparr>te_running := True\<rparr>) s)\<lparr>sc_jobs := sc_jobs s @ [(k, Executing)]\<rparr>))"

subsection \<open>Ending runs\<close>

text \<open>The part of \<^verbatim>\<open>execute\<close> after the task function has returned. The delay before a retry is the
  base shifted by the number of retries so far, in 64 bits.\<close>

definition finish_entry :: "int \<Rightarrow> instant \<Rightarrow> instant \<Rightarrow> string option \<Rightarrow> task_entry \<Rightarrow> task_entry" where
  "finish_entry off start finished taskErr e0 =
     (let e = e0\<lparr>te_lastRun := start,
                 te_lastStatus := (if taskErr = None then ''success'' else ''failed''),
                 te_lastError := (case taskErr of None \<Rightarrow> [] | Some msg \<Rightarrow> msg)\<rparr>
      in if taskErr \<noteq> None then
           (let e1 = e\<lparr>te_failCount := te_failCount e + 1\<rparr>
            in if te_retryOnFail e1 \<and> te_retryAttempt e1 < te_retryMax e1
               then e1\<lparr>te_nextRun := finished + wrap64 (te_retryBase e1 * 2 ^ nat (te_retryAttempt e1)),
                       te_retryAttempt := te_retryAttempt e1 + 1\<rparr>
               else e1\<lparr>te_nextRun := sched_Next off (te_schedule e1) finished, te_retryAttempt := 0\<rparr>)
         else e\<lparr>te_runCount := te_runCount e + 1, te_retryAttempt := 0,
                te_nextRun := sched_Next off (te_schedule e) finished\<rparr>)"

record outcome =
  o_TaskID :: string
  o_TaskName :: string
  o_Status :: string
  o_Err :: string
  o_StartedAt :: instant
  o_FinishedAt :: instant
  o_NextRun :: instant
  o_Attempt :: int
  o_WillRetry :: bool

definition outcome_of :: "instant \<Rightarrow> instant \<Rightarrow> string option \<Rightarrow> task_entry \<Rightarrow> task_entry \<Rightarrow> outcome" where
  "outcome_of start finished taskErr e e' =
     \<lparr>o_TaskID = te_id e, o_TaskName = te_name e, o_Status = te_lastStatus e', o_Err = te_lastError e',
      o_StartedAt = start, o_FinishedAt = finished, o_NextRun = te_nextRun e', o_Attempt = te_retryAttempt e,
      o_WillRetry = (taskErr \<noteq> None \<and> te_retryOnFail e \<and> te_retryAttempt e < te_retryMax e)\<rparr>"

definition record_run :: "bool \<Rightarrow> bool \<Rightarrow> instant \<Rightarrow> task_entry \<Rightarrow> db \<Rightarrow> db" where
  "record_run runFault histFault finished e d =
     (let d1 = or_else (UpdateTaskRun runFault (te_id e) (te_lastRun e) (te_lastStatus e) (te_lastError e)
                          (te_runCount e) (te_failCount e) (te_nextRun e) d) d
      in or_else (RecordTaskHistory histFault
           \<lparr>h_TaskID = te_id e, h_StartedAt = te_lastRun e, h_FinishedAt = finished, h_Status = te_lastStatus e,
            h_ErrorMsg = te_lastError e, h_DurationMS = (finished - te_lastRun e) div Millisecond\<rparr> d1) d1)"

definition execute ::
  "int \<Rightarrow> bool \<Rightarrow> bool \<Rightarrow> instant \<Rightarrow> instant \<Rightarrow> string option \<Rightarrow> string \<Rightarrow> scheduler \<Rightarrow> outcome option \<times> scheduler" where
  "execute off runFault histFault start finished taskErr k s =
     (case entry_of k s of
        None \<Rightarrow> (None, s)
      | Some e \<Rightarrow>
          (let e' = finish_entry off start finished taskErr e
           in (Some (outcome_of start finished taskErr e e'),
               (change_entry k (\<lambda>_. e') s)
                 \<lparr>sc_db := map_option (record_run runFault histFault finished e') (sc_db s),
                  sc_jobs := map (\<lambda>j. if j = (k, Executing) then (k, Completed) else j) (sc_jobs s)\<rparr>)))"

text \<open>The goroutine clears the mark and ends.\<close>

definition release :: "string \<Rightarrow> scheduler \<Rightarrow> scheduler" where
  "release k s = (change_entry k (\<lambda>e. e\<lparr>te_running := False\<rparr>) s)\<lparr>sc_jobs := remove1 (k, Completed) (sc_jobs s)\<rparr>"

subsection \<open>Control\<close>

definition EnableTask :: "int \<Rightarrow> bool \<Rightarrow> instant \<Rightarrow> string \<Rightarrow> scheduler \<Rightarrow> scheduler" where
  "EnableTask off fault now k s =
     (case entry_of k s of
        None \<Rightarrow> s
      | Some e \<Rightarrow>
          (let e' = e\<lparr>te_enabled := True, te_nextRun := sched_Next off (te_schedule e) now\<rparr>
           in (change_entry k (\<lambda>_. e') s)\<lparr>sc_db := persistState fault e' (sc_db s)\<rparr>))"

definition DisableTask :: "bool \<Rightarrow> string \<Rightarrow> scheduler \<Rightarrow> scheduler" where
  "DisableTask fault k s =
     (case entry_of k s of
        None \<Rightarrow> s
      | Some e \<Rightarrow>
          (let e' = e\<lparr>te_enabled := False\<rparr>
           in (change_entry k (\<lambda>_. e') s)\<lparr>sc_db := persistState fault e' (sc_db s)\<rparr>))"

text \<open>\<^verbatim>\<open>Stop\<close> ends the loop and waits for the jobs; when they take longer than 30 seconds it marks the
  tasks that still run.\<close>

definition Stop :: "scheduler \<Rightarrow> scheduler" where
  "Stop s = s\<lparr>sc_running := False\<rparr>"

definition interrupt :: "instant \<Rightarrow> task_entry \<Rightarrow> task_entry" where
  "interrupt now e = e\<lparr>te_lastStatus := ''interrupted'', te_nextRun := now\<rparr>"

definition markInterrupted :: "(string \<Rightarrow> bool) \<Rightarrow> instant \<Rightarrow> scheduler \<Rightarrow> scheduler" where
  "markInterrupted upFault now s =
     s\<lparr>sc_tasks := update_where te_running (interrupt now) (sc_tasks s),
       sc_db := fold (\<lambda>e. persistState (upFault (te_id e)) (interrupt now e)) (filter te_running (sc_tasks s)) (sc_db s)\<rparr>"

definition GetTask :: "string \<Rightarrow> scheduler \<Rightarrow> task_state option" where
  "GetTask k s = map_option toTaskState (entry_of k s)"

definition GetTasks :: "scheduler \<Rightarrow> task_state list" where
  "GetTasks s = map toTaskState (sc_tasks s)"

end
