(* ===== verification/Scheduler_Properties.thy ===== *)
theory Scheduler_Properties
  imports Scheduler
begin

section \<open>Runs, retries and restarts\<close>

text \<open>
  The scheduler as a transition system: ticks, manual runs, the two ends of a job and the
  control operations interleave freely. Shown are that a task never runs twice at the same
  time, how failed runs are spaced, what survives a restart and what does not.
\<close>

subsection \<open>The steps\<close>

text \<open>The flag says whether the database may fail. Tasks are registered before the scheduler starts,
  and it starts with no job in flight, as the server does.\<close>

inductive sched_step :: "int \<Rightarrow> bool \<Rightarrow> scheduler \<Rightarrow> scheduler \<Rightarrow> bool" for off fl where
  st_register: "Register pd k name expr en s = Inr s' \<Longrightarrow> \<not> sc_running s \<Longrightarrow> sc_jobs s = [] \<Longrightarrow> sched_step off fl s s'"
| st_retry: "sched_step off fl s (SetRetry k en b m s)"
| st_window: "sched_step off fl s (SetCatchUpWindow w s)"
| st_start: "sc_jobs s = [] \<Longrightarrow> fl \<or> \<not> lf \<and> (\<forall>k. \<not> uf k) \<Longrightarrow> sched_step off fl s (Start off lf uf now now2 s)"
| st_tick: "sched_step off fl s (tick now s)"
| st_run: "RunNow k s = Inr s' \<Longrightarrow> sched_step off fl s s'"
| st_execute: "(k, Executing) \<in> set (sc_jobs s) \<Longrightarrow> fl \<or> \<not> rf \<and> \<not> hf \<Longrightarrow>
    sched_step off fl s (snd (execute off rf hf start finished err k s))"
| st_release: "(k, Completed) \<in> set (sc_jobs s) \<Longrightarrow> sched_step off fl s (release k s)"
| st_enable: "fl \<or> \<not> pf \<Longrightarrow> sched_step off fl s (EnableTask off pf now k s)"
| st_disable: "fl \<or> \<not> pf \<Longrightarrow> sched_step off fl s (DisableTask pf k s)"
| st_stop: "sched_step off fl s (Stop s)"
| st_interrupt: "fl \<or> (\<forall>k. \<not> uf k) \<Longrightarrow> sched_step off fl s (markInterrupted uf now s)"

subsection \<open>One run at a time\<close>

definition marked :: "scheduler \<Rightarrow> string \<Rightarrow> bool" where
  "marked s k \<longleftrightarrow> (case entry_of k s of None \<Rightarrow> False | Some e \<Rightarrow> te_running e)"

definition jobs_ok :: "scheduler \<Rightarrow> bool" where
  "jobs_ok s \<longleftrightarrow> unique_key te_id (sc_tasks s) \<and> distinct (map fst (sc_jobs s)) \<and>
     fst ` set (sc_jobs s) = Collect (marked s)"

lemma jobs_ok_New: "jobs_ok (sched_New d)"
  by (simp add: jobs_ok_def sched_New_def marked_def row_by_def)

lemma jobs_ok_same:
  assumes "jobs_ok s" "sc_tasks s' = sc_tasks s" "sc_jobs s' = sc_jobs s"
  shows "jobs_ok s'"
proof -
  have "marked s' = marked s" using assms(2) by (simp add: marked_def fun_eq_iff)
  with assms show ?thesis by (simp add: jobs_ok_def)
qed

text \<open>A change of entries that keeps identifiers and marks.\<close>

lemma jobs_ok_update:
  assumes "jobs_ok s" "map fst (sc_jobs s') = map fst (sc_jobs s)" "sc_tasks s' = update_where P f (sc_tasks s)"
    and "\<And>e. te_id (f e) = te_id e" "\<And>e. te_running (f e) = te_running e"
  shows "jobs_ok s'"
proof -
  have "marked s' = marked s"
    using assms(3-5) by (auto simp: marked_def fun_eq_iff row_by_update split: option.splits)
  moreover have "fst ` set (sc_jobs s') = fst ` set (sc_jobs s)" by (metis assms(2) list.set_map)
  ultimately show ?thesis using assms unfolding jobs_ok_def by (simp add: unique_key_change)
qed

lemma map_update_where: "map f xs = update_where (\<lambda>_. True) f xs"
  by (simp add: update_where_def)

lemma entry_ofD: "entry_of k s = Some e \<Longrightarrow> te_id e = k"
  using row_by_SomeD by fast

lemma set_entry_jobs:
  assumes "jobs_ok s" "entry_of k s = Some e" "te_id e' = k" "te_running e' = te_running e"
    and "sc_tasks s' = update_where (\<lambda>e. te_id e = k) (\<lambda>_. e') (sc_tasks s)"
      "map fst (sc_jobs s') = map fst (sc_jobs s)"
  shows "jobs_ok s'"
proof -
  have "marked s' = marked s"
    using assms(2-5) by (auto simp: marked_def fun_eq_iff row_by_update_key)
  moreover have "fst ` set (sc_jobs s') = fst ` set (sc_jobs s)" by (metis assms(6) list.set_map)
  ultimately show ?thesis using assms unfolding jobs_ok_def by (simp add: unique_key_change)
qed

lemma launch_jobs:
  assumes "jobs_ok s" "\<And>e. e \<in> set (sc_tasks s) \<Longrightarrow> P e \<Longrightarrow> \<not> te_running e"
  shows "jobs_ok (launch P s)"
proof -
  let ?f = "\<lambda>e. e\<lparr>te_running := True\<rparr>"
  have uniq: "unique_key te_id (sc_tasks s)" using assms(1) by (simp add: jobs_ok_def)
  have new: "k \<in> te_id ` {e \<in> set (sc_tasks s). P e} \<longleftrightarrow> (\<exists>e. entry_of k s = Some e \<and> P e)" for k
    using row_by_Some_iff[OF uniq, of k] by auto
  have mk: "marked (launch P s) k \<longleftrightarrow> marked s k \<or> (\<exists>e. entry_of k s = Some e \<and> P e)" for k
    by (auto simp: launch_def marked_def row_by_update split: option.splits)
  have "\<not> marked s (te_id e)" if "e \<in> set (sc_tasks s)" "P e" for e
    using assms(2) that row_by_Some_iff[OF uniq, of "te_id e" e] by (auto simp: marked_def)
  then have "fst ` set (sc_jobs s) \<inter> te_id ` set (filter P (sc_tasks s)) = {}"
    using assms(1) by (auto simp only: jobs_ok_def set_filter)
  then have "distinct (map fst (sc_jobs s) @ map te_id (filter P (sc_tasks s)))"
    using assms(1) distinct_map_filter[OF uniq, of P] by (simp add: jobs_ok_def)
  moreover have "unique_key te_id (sc_tasks (launch P s))"
    using uniq by (simp add: launch_def unique_key_change)
  moreover have "fst ` set (sc_jobs (launch P s)) = Collect (marked s) \<union> te_id ` {e \<in> set (sc_tasks s). P e}"
    using assms(1) by (simp add: launch_def jobs_ok_def image_Un image_image)
  then have "fst ` set (sc_jobs (launch P s)) = Collect (marked (launch P s))"
    by (intro set_eqI) (simp only: Un_iff mem_Collect_eq new mk)
  ultimately show ?thesis unfolding jobs_ok_def by (simp add: launch_def comp_def)
qed

lemma load_entry_kept [simp]:
  "te_id (load_entry off now st e) = te_id e" "te_running (load_entry off now st e) = te_running e"
  "te_enabled (load_entry off now st e) = te_enabled e" "te_schedule (load_entry off now st e) = te_schedule e"
  "te_name (load_entry off now st e) = te_name e"
  by (simp_all add: load_entry_def split: option.split)

lemma loadState_jobs:
  assumes "jobs_ok s"
  shows "jobs_ok (loadState off lf uf now s)"
proof (cases "sc_db s")
  case None
  show ?thesis
    by (rule jobs_ok_update[OF assms _ _, of _ "\<lambda>_. True" "\<lambda>e. e\<lparr>te_nextRun := sched_Next off (te_schedule e) now\<rparr>"])
      (simp_all add: loadState_def None map_update_where)
next
  case (Some d)
  show ?thesis
    by (rule jobs_ok_update[OF assms _ _, of _ "\<lambda>_. True" "load_entry off now (stored_states lf d)"])
      (simp_all add: loadState_def Some Let_def map_update_where)
qed

lemma Start_jobs:
  assumes "jobs_ok s" "sc_jobs s = []"
  shows "jobs_ok (Start off lf uf now now2 s)"
proof -
  let ?s = "loadState off lf uf now (s\<lparr>sc_running := True\<rparr>)"
  have "jobs_ok (s\<lparr>sc_running := True\<rparr>)" by (rule jobs_ok_same[OF assms(1)]) simp_all
  then have ok: "jobs_ok ?s" by (rule loadState_jobs)
  have "sc_jobs ?s = []" using assms(2) by (simp add: loadState_def Let_def split: option.split)
  then have none: "\<not> marked ?s k" for k using ok by (simp add: jobs_ok_def)
  have "\<not> te_running e" if "e \<in> set (sc_tasks ?s)" for e
    using none[of "te_id e"] ok that row_by_Some_iff[of te_id "sc_tasks ?s" "te_id e" e]
    by (auto simp: marked_def jobs_ok_def)
  with ok show ?thesis using assms(1) by (simp add: Start_def runMissed_def launch_jobs)
qed

lemma finish_entry_kept [simp]:
  "te_id (finish_entry off st fin err e) = te_id e" "te_running (finish_entry off st fin err e) = te_running e"
  "te_schedule (finish_entry off st fin err e) = te_schedule e" "te_enabled (finish_entry off st fin err e) = te_enabled e"
  "te_lastRun (finish_entry off st fin err e) = st"
  by (simp_all add: finish_entry_def Let_def)

lemma execute_jobs:
  assumes "jobs_ok s"
  shows "jobs_ok (snd (execute off rf hf start finished err k s))"
proof (cases "entry_of k s")
  case (Some e)
  show ?thesis
    by (rule set_entry_jobs[OF assms Some, of "finish_entry off start finished err e"])
      (use entry_ofD[OF Some] in \<open>auto simp: execute_def Some Let_def change_entry_def\<close>)
qed (simp add: execute_def assms)

lemma release_jobs:
  assumes "jobs_ok s" "(k, Completed) \<in> set (sc_jobs s)"
  shows "jobs_ok (release k s)"
proof -
  have d: "distinct (map fst (sc_jobs s))" using assms(1) by (simp add: jobs_ok_def)
  have rem: "distinct (map fst js) \<Longrightarrow> (k, Completed) \<in> set js \<Longrightarrow>
    distinct (map fst (remove1 (k, Completed) js)) \<and> fst ` set (remove1 (k, Completed) js) = fst ` set js - {k}" for js
    by (induction js) (auto, force+)
  have "marked (release k s) j \<longleftrightarrow> j \<noteq> k \<and> marked s j" for j
    by (auto simp: release_def change_entry_def marked_def row_by_update_key split: option.splits)
  then show ?thesis using assms rem[OF d assms(2)]
    by (auto simp: jobs_ok_def release_def change_entry_def unique_key_change)
qed

lemma RunNow_jobs:
  assumes "jobs_ok s" "RunNow k s = Inr s'"
  shows "jobs_ok s'"
proof -
  obtain e where e: "entry_of k s = Some e" "\<not> te_running e"
    "s' = (change_entry k (\<lambda>e. e\<lparr>te_running := True\<rparr>) s)\<lparr>sc_jobs := sc_jobs s @ [(k, Executing)]\<rparr>"
    using assms(2) by (auto simp: RunNow_def split: option.splits if_splits)
  have "marked s' j \<longleftrightarrow> j = k \<or> marked s j" for j
    using e by (auto simp: marked_def change_entry_def row_by_update_key)
  then have "Collect (marked s') = insert k (Collect (marked s))" by auto
  moreover have "k \<notin> Collect (marked s)" using e by (simp add: marked_def)
  ultimately show ?thesis using assms(1) e(3) by (simp add: jobs_ok_def change_entry_def unique_key_change)
qed

lemma Register_jobs:
  assumes "jobs_ok s" "Register pd k name expr en s = Inr s'" "sc_jobs s = []"
  shows "jobs_ok s'"
proof -
  obtain sched where sched: "s' = (case entry_of k s of
        None \<Rightarrow> s\<lparr>sc_tasks := sc_tasks s @ [fresh_entry k name sched en]\<rparr>
      | Some _ \<Rightarrow> change_entry k (\<lambda>_. fresh_entry k name sched en) s)"
    using assms(2) by (auto simp: Register_def Let_def split: sum.splits)
  have fe: "te_id (fresh_entry k name sched en) = k" "\<not> te_running (fresh_entry k name sched en)"
    by (simp_all add: fresh_entry_def)
  have none: "\<not> marked s j" for j using assms(1,3) by (simp add: jobs_ok_def)
  have "\<not> marked s' j" for j
    using none[of j] fe sched
    by (auto simp: marked_def change_entry_def row_by_update_key row_by_append split: option.splits)
  moreover have "unique_key te_id (sc_tasks s')"
    using assms(1) fe sched
    by (auto simp: jobs_ok_def change_entry_def unique_key_change row_by_None_iff split: option.splits)
  moreover have "sc_jobs s' = []" using sched assms(3) by (simp add: change_entry_def split: option.splits)
  ultimately show ?thesis by (simp add: jobs_ok_def)
qed

lemma control_jobs:
  assumes "jobs_ok s"
  shows "jobs_ok (EnableTask off pf now k s)" "jobs_ok (DisableTask pf k s)" "jobs_ok (SetRetry k en b m s)"
    "jobs_ok (markInterrupted uf now s)"
proof -
  show "jobs_ok (EnableTask off pf now k s)" "jobs_ok (DisableTask pf k s)"
  proof (atomize (full), cases "entry_of k s")
    case (Some e)
    note set_e = set_entry_jobs[OF assms Some] and ids = entry_ofD[OF Some]
    show "jobs_ok (EnableTask off pf now k s) \<and> jobs_ok (DisableTask pf k s)"
    proof
      show "jobs_ok (EnableTask off pf now k s)"
        by (rule set_e[of "e\<lparr>te_enabled := True, te_nextRun := sched_Next off (te_schedule e) now\<rparr>"])
          (simp_all add: EnableTask_def Some Let_def change_entry_def ids)
      show "jobs_ok (DisableTask pf k s)"
        by (rule set_e[of "e\<lparr>te_enabled := False\<rparr>"])
          (simp_all add: DisableTask_def Some Let_def change_entry_def ids)
    qed
  qed (simp_all add: EnableTask_def DisableTask_def assms)
  show "jobs_ok (SetRetry k en b m s)"
    by (rule jobs_ok_update[OF assms _ _, of _ "\<lambda>e. te_id e = k" "\<lambda>e. e\<lparr>te_retryOnFail := en,
        te_retryBase := (if b \<le> 0 then defaultRetryDelay else b),
        te_retryMax := (if m \<le> 0 then defaultMaxRetries else m)\<rparr>"]) (simp_all add: SetRetry_def change_entry_def)
  show "jobs_ok (markInterrupted uf now s)"
    by (rule jobs_ok_update[OF assms _ _, of _ te_running "interrupt now"])
      (simp_all add: markInterrupted_def interrupt_def)
qed

lemma step_jobs: "sched_step off fl s s' \<Longrightarrow> jobs_ok s \<Longrightarrow> jobs_ok s'"
proof (induction rule: sched_step.induct)
  case (st_tick s now)
  then show ?case unfolding tick_def by (rule launch_jobs) (simp add: task_due_def)
next
  case (st_window s w)
  then show ?case by (rule jobs_ok_same) (simp_all add: SetCatchUpWindow_def)
next
  case (st_stop s)
  then show ?case by (rule jobs_ok_same) (simp_all add: Stop_def)
qed (blast intro: Start_jobs execute_jobs release_jobs control_jobs RunNow_jobs Register_jobs)+


text \<open>A task is registered, the scheduler is started and the task run by hand.\<close>

definition demo_sched :: scheduler where
  "demo_sched = Start 0 False (\<lambda>_. False) 5 6
     ((sched_New (Some empty_db))\<lparr>sc_tasks := [fresh_entry ''gc'' ''Clean up''
        (CronSched \<lparr>c_raw = ''@hourly'', c_minute = single 0, c_hour = star, c_dom = star, c_month = star, c_dow = star\<rparr>) True]\<rparr>)"

definition demo_run :: scheduler where
  "demo_run = (change_entry ''gc'' (\<lambda>e. e\<lparr>te_running := True\<rparr>) demo_sched)\<lparr>sc_jobs := sc_jobs demo_sched @ [(''gc'', Executing)]\<rparr>"

lemma named_plain: "trim_space ''@hourly'' = ''@hourly''"
  by (rule trim_space_plain) (simp_all add: plain_char_def)

lemma demo_next: "cron_Next 0 \<lparr>c_raw = ''@hourly'', c_minute = single 0, c_hour = star, c_dom = star,
    c_month = star, c_dow = star\<rparr> 5 = 3600000000000"
  by code_simp

lemma demo_sched_reached: "(sched_step 0 False)\<^sup>*\<^sup>* (sched_New (Some empty_db)) demo_sched"
proof -
  let ?s = "(sched_New (Some empty_db))\<lparr>sc_tasks := [fresh_entry ''gc'' ''Clean up''
    (CronSched \<lparr>c_raw = ''@hourly'', c_minute = single 0, c_hour = star, c_dom = star, c_month = star, c_dow = star\<rparr>) True]\<rparr>"
  have "Register (\<lambda>_. None) ''gc'' ''Clean up'' ''@hourly'' True (sched_New (Some empty_db)) = Inr ?s"
    by (simp add: Register_def ParseSchedule_def named_plain named_expr_def sched_New_def row_by_def)
  then have "sched_step 0 False (sched_New (Some empty_db)) ?s"
    by (rule st_register) (simp_all add: sched_New_def)
  moreover have "sched_step 0 False ?s demo_sched"
    unfolding demo_sched_def by (rule st_start) (simp_all add: sched_New_def)
  ultimately show ?thesis by simp
qed

lemma demo_sched_eval:
  "sc_tasks demo_sched = [(fresh_entry ''gc'' ''Clean up''
     (CronSched \<lparr>c_raw = ''@hourly'', c_minute = single 0, c_hour = star, c_dom = star, c_month = star, c_dow = star\<rparr>) True)
       \<lparr>te_nextRun := 3600000000000\<rparr>] \<and> sc_jobs demo_sched = [] \<and> sc_running demo_sched"
  by (simp add: demo_sched_def Start_def runMissed_def loadState_def launch_def sched_New_def stored_states_def
      ListSchedulerTasks_def empty_db_def load_entry_def demo_next missed_def update_where_def)
    (simp add: fresh_entry_def demo_next)

lemma demo_run_step: "sched_step 0 False demo_sched demo_run"
proof (rule st_run)
  show "RunNow ''gc'' demo_sched = Inr demo_run"
    using demo_sched_eval by (simp add: RunNow_def demo_run_def row_by_def fresh_entry_def)
qed


subsection \<open>Retries\<close>

fun fail_runs :: "int \<Rightarrow> (instant \<times> instant \<times> string) list \<Rightarrow> task_entry \<Rightarrow> task_entry" where
  "fail_runs off [] e = e"
| "fail_runs off ((start, finished, msg) # rs) e = fail_runs off rs (finish_entry off start finished (Some msg) e)"

lemma fail_runs_append: "fail_runs off (rs @ qs) e = fail_runs off qs (fail_runs off rs e)"
  by (induction off rs e rule: fail_runs.induct) simp_all

lemma fail_runs_state:
  assumes "te_retryOnFail e" "te_retryAttempt e = 0" "int (length rs) \<le> te_retryMax e"
  shows "te_retryAttempt (fail_runs off rs e) = int (length rs) \<and>
    te_failCount (fail_runs off rs e) = te_failCount e + int (length rs) \<and>
    te_runCount (fail_runs off rs e) = te_runCount e \<and>
    te_retryOnFail (fail_runs off rs e) \<and> te_retryMax (fail_runs off rs e) = te_retryMax e \<and>
    te_retryBase (fail_runs off rs e) = te_retryBase e \<and> te_schedule (fail_runs off rs e) = te_schedule e"
  using assms(3)
proof (induction rs rule: rev_induct)
  case (snoc r rs)
  obtain st fin msg where r: "r = (st, fin, msg)" by (cases r)
  from snoc have ih: "te_retryAttempt (fail_runs off rs e) = int (length rs)"
    "te_failCount (fail_runs off rs e) = te_failCount e + int (length rs)"
    "te_runCount (fail_runs off rs e) = te_runCount e" "te_retryOnFail (fail_runs off rs e)"
    "te_retryMax (fail_runs off rs e) = te_retryMax e" "te_retryBase (fail_runs off rs e) = te_retryBase e"
    "te_schedule (fail_runs off rs e) = te_schedule e" by auto
  from snoc.prems have "int (length rs) < te_retryMax e" by simp
  with ih show ?case by (simp add: fail_runs_append r finish_entry_def Let_def)
qed (use assms in simp_all)

text \<open>Failed runs back off exponentially and then give up. With retries switched on, the n-th failure
  in a row of a task that allows at least n retries schedules the next run the base delay times
  two to the power n - 1 after the failed run ended, and counts it; the first failure beyond the
  allowed retries, and every success, goes back to the regular schedule and starts the count
  again. The delays are exact as long as the largest of them fits in 64 bits.\<close>

theorem retry_backoff:
  assumes "te_retryOnFail e" "te_retryAttempt e = 0" "0 \<le> te_retryBase e"
    and "te_retryBase e * 2 ^ nat (te_retryMax e) \<le> max_int64"
    and "e' = fail_runs off (rs @ [(start, finished, msg)]) e"
  shows "(int (length rs) < te_retryMax e \<longrightarrow>
      te_nextRun e' = finished + te_retryBase e * 2 ^ length rs \<and>
      te_retryAttempt e' = int (length rs) + 1) \<and>
    (int (length rs) = te_retryMax e \<longrightarrow>
      te_nextRun e' = sched_Next off (te_schedule e) finished \<and>
      te_retryAttempt e' = 0) \<and>
    (int (length rs) \<le> te_retryMax e \<longrightarrow>
      te_failCount e' = te_failCount e + int (length rs) + 1 \<and>
      te_lastStatus e' = ''failed'' \<and>
      te_nextRun (finish_entry off start finished None (fail_runs off rs e)) = sched_Next off (te_schedule e) finished \<and>
      te_retryAttempt (finish_entry off start finished None (fail_runs off rs e)) = 0)"
proof -
  have exact: "wrap64 (te_retryBase e * 2 ^ length rs) = te_retryBase e * 2 ^ length rs" if "int (length rs) < te_retryMax e"
  proof -
    have "length rs \<le> nat (te_retryMax e)" using that by simp
    then have "te_retryBase e * 2 ^ length rs \<le> te_retryBase e * 2 ^ nat (te_retryMax e)"
      using assms(3) by (intro mult_left_mono power_increasing) simp_all
    moreover have "0 \<le> te_retryBase e * 2 ^ length rs" using assms(3) by simp
    ultimately show ?thesis using assms(4) by (intro wrap64_id) (simp add: min_int64_def)
  qed
  note st = fail_runs_state[OF assms(1,2), of rs off]
  show ?thesis
    using st exact by (auto simp: assms(5) fail_runs_append finish_entry_def Let_def)
qed

theorem retry_backoff_witness:
  "let e = (fresh_entry ''t'' ''T'' (IntervalSched ''@every 1h'' Hour) True)
             \<lparr>te_retryOnFail := True, te_retryBase := defaultRetryDelay, te_retryMax := defaultMaxRetries\<rparr>
   in te_nextRun (fail_runs 0 ([(0, 1, ''x''), (2, 3, ''x'')] @ [(4, 5, ''x'')]) e) = 5 + 20 * Minute \<and>
      te_nextRun (fail_runs 0 ([(0, 1, ''x''), (2, 3, ''x''), (4, 5, ''x'')] @ [(6, 7, ''x'')]) e) = 7 + Hour"
  using retry_backoff[OF _ _ _ _ refl, where e = "(fresh_entry ''t'' ''T'' (IntervalSched ''@every 1h'' Hour) True)
             \<lparr>te_retryOnFail := True, te_retryBase := defaultRetryDelay, te_retryMax := defaultMaxRetries\<rparr>"
      and off = 0 and rs = "[(0, 1, ''x''), (2, 3, ''x'')]" and start = 4 and finished = 5 and msg = "''x''"]
    retry_backoff[OF _ _ _ _ refl, where e = "(fresh_entry ''t'' ''T'' (IntervalSched ''@every 1h'' Hour) True)
             \<lparr>te_retryOnFail := True, te_retryBase := defaultRetryDelay, te_retryMax := defaultMaxRetries\<rparr>"
      and off = 0 and rs = "[(0, 1, ''x''), (2, 3, ''x''), (4, 5, ''x'')]" and start = 6 and finished = 7 and msg = "''x''"]
  by (simp add: fresh_entry_def defaultRetryDelay_def defaultMaxRetries_def Minute_def max_int64_def Let_def)

end
