(* ===== verification/Scheduler_Restart.thy ===== *)
theory Scheduler_Restart
  imports Scheduler_Properties
begin

section \<open>What a restart keeps\<close>

text \<open>
  The rows the scheduler writes against the entries it holds: counters and the last run of
  every task are in the database at every moment, so that a new process takes them over. The
  mark of an interrupted run, the switch that disables a task and the catch-up window do not
  have the effect their comments promise.
\<close>

subsection \<open>Rows and entries\<close>

definition recorded :: "db \<Rightarrow> task_entry \<Rightarrow> bool" where
  "recorded d e \<longleftrightarrow>
     (\<exists>r. task_of d (te_id e) = Some r \<and> sr_run_count r = te_runCount e \<and> sr_fail_count r = te_failCount e \<and>
          from_nullable (sr_last_run r) = te_lastRun e)"

definition rows_unique :: "db \<Rightarrow> bool" where
  "rows_unique d \<longleftrightarrow> unique_key sr_task_id (scheduler_tasks d)"

text \<open>While the scheduler runs, every entry is recorded.\<close>

definition synced :: "scheduler \<Rightarrow> bool" where
  "synced s \<longleftrightarrow>
     (case sc_db s of
        None \<Rightarrow> True
      | Some d \<Rightarrow> rows_unique d \<and> (sc_running s \<longrightarrow> (\<forall>e \<in> set (sc_tasks s). recorded d e)))"

lemma from_nullable_nullable [simp]: "from_nullable (nullable t) = t"
  by (simp add: from_nullable_def nullable_def IsZero_def)

lemma from_nullable_coalesce: "from_nullable x = t \<Longrightarrow> from_nullable (coalesce x (nullable t)) = t"
  by (auto simp: coalesce_def split: option.split)

lemma upsert_ok: "\<exists>d'. UpsertSchedulerTask False t d = Inr d'"
  by (simp add: UpsertSchedulerTask_def split: option.split)

definition upsert :: "task_entry \<Rightarrow> db \<Rightarrow> db" where
  "upsert e d = or_else (UpsertSchedulerTask False (toTaskState e) d) d"

lemma state_id [simp]: "ts_TaskID (toTaskState e) = te_id e"
  by (simp add: toTaskState_def)

lemma task_of_upserted:
  "task_of (upsert e d) k =
    (if k = te_id e
     then Some (case task_of d k of None \<Rightarrow> task_values (toTaskState e)
                                | Some r \<Rightarrow> merge_task (task_values (toTaskState e)) r)
     else task_of d k)"
proof -
  obtain d' where d': "UpsertSchedulerTask False (toTaskState e) d = Inr d'" using upsert_ok by blast
  from task_of_upsert[OF d', of k] show ?thesis by (simp add: upsert_def or_else_def d')
qed

lemma rows_unique_upsert: "rows_unique d \<Longrightarrow> rows_unique (upsert e d)"
  by (auto simp: rows_unique_def upsert_def or_else_def UpsertSchedulerTask_def unique_key_change row_by_None_iff
      split: option.split)

text \<open>Writing an entry keeps what is recorded of every task, and records the entry itself if it was
  recorded before or had no row.\<close>

lemma merge_kept [simp]:
  "sr_run_count (merge_task x r) = sr_run_count r" "sr_fail_count (merge_task x r) = sr_fail_count r"
  by (simp_all add: merge_task_def)

lemma values_kept [simp]:
  "sr_run_count (task_values (toTaskState e)) = te_runCount e" "sr_fail_count (task_values (toTaskState e)) = te_failCount e"
  "sr_last_run (task_values (toTaskState e)) = nullable (te_lastRun e)"
  by (simp_all add: task_values_def toTaskState_def)

lemma recorded_upsert:
  assumes "recorded d x" "te_id x = te_id e \<Longrightarrow> te_lastRun x = te_lastRun e"
  shows "recorded (upsert e d) x"
proof (cases "te_id x = te_id e")
  case True
  obtain r where r: "task_of d (te_id e) = Some r" "sr_run_count r = te_runCount x" "sr_fail_count r = te_failCount x"
    "from_nullable (sr_last_run r) = te_lastRun x" using assms(1) True by (auto simp: recorded_def)
  have "from_nullable (sr_last_run (merge_task (task_values (toTaskState e)) r)) = te_lastRun x"
    using r(4) assms(2)[OF True] by (simp add: merge_task_def from_nullable_coalesce)
  with r True show ?thesis by (simp add: recorded_def task_of_upserted)
next
  case False
  with assms(1) show ?thesis by (simp add: recorded_def task_of_upserted)
qed

lemma recorded_new: "task_of d (te_id e) = None \<Longrightarrow> recorded (upsert e d) e"
  by (simp add: recorded_def task_of_upserted)

lemma upserts_recorded:
  assumes "\<forall>e \<in> set es. recorded d e \<or> task_of d (te_id e) = None" "distinct (map te_id es)"
    "x \<in> set es \<or> (recorded d x \<and> te_id x \<notin> te_id ` set es)"
  shows "recorded (fold upsert es d) x"
  using assms
proof (induction es arbitrary: d)
  case (Cons e es)
  let ?d = "upsert e d"
  have e: "recorded ?d e" using Cons.prems(1) recorded_upsert[of d e e] recorded_new by auto
  have other: "recorded ?d y \<longleftrightarrow> recorded d y" "task_of ?d (te_id y) = task_of d (te_id y)"
    if "te_id y \<noteq> te_id e" for y
    using that by (simp_all add: recorded_def task_of_upserted)
  have "te_id y \<noteq> te_id e" if "y \<in> set es" for y
    using unique_keyD[OF Cons.prems(2) that] .
  then have es: "\<forall>y \<in> set es. recorded ?d y \<or> task_of ?d (te_id y) = None"
    using Cons.prems(1) other by simp
  have "x \<in> set es \<or> recorded ?d x \<and> te_id x \<notin> te_id ` set es"
  proof (cases "x = e")
    case True
    with Cons.prems(2) e show ?thesis by simp
  next
    case False
    show ?thesis
    proof (cases "x \<in> set es")
      case notin: False
      with False Cons.prems(3) have "recorded d x" "te_id x \<noteq> te_id e" "te_id x \<notin> te_id ` set es" by auto
      with other(1)[of x] show ?thesis by blast
    qed simp
  qed
  with Cons.IH[OF es] Cons.prems(2) show ?case by simp
qed simp


lemma fold_states:
  "distinct (map ts_TaskID sts) \<Longrightarrow>
   fold (\<lambda>st m. m(ts_TaskID st \<mapsto> st)) sts m k =
     (case row_by ts_TaskID k sts of Some st \<Rightarrow> Some st | None \<Rightarrow> m k)"
proof (induction sts arbitrary: m)
  case (Cons st sts)
  then have "row_by ts_TaskID (ts_TaskID st) sts = None" by (auto simp: row_by_None_iff)
  with Cons show ?case by (auto simp: row_by_def split: option.splits)
qed (simp add: row_by_def)

lemma row_by_scan: "row_by ts_TaskID k (map scanTaskState rows) = map_option scanTaskState (row_by sr_task_id k rows)"
  unfolding row_by_def by (induction rows) (auto simp: scanTaskState_def)

lemma stored_states_task:
  assumes "rows_unique d"
  shows "stored_states False d = (\<lambda>k. map_option scanTaskState (task_of d k))"
proof
  fix k
  let ?rows = "sort_key sr_task_id (scheduler_tasks d)"
  have uniq: "unique_key sr_task_id ?rows"
    using assms by (auto simp: rows_unique_def distinct_map)
  have "map ts_TaskID (map scanTaskState ?rows) = map sr_task_id ?rows" by (simp add: scanTaskState_def)
  with uniq have "distinct (map ts_TaskID (map scanTaskState ?rows))" by (simp only:)
  from fold_states[OF this, of Map.empty k]
  have "stored_states False d k = row_by ts_TaskID k (map scanTaskState ?rows)"
    by (simp add: stored_states_def ListSchedulerTasks_def split: option.split)
  also have "\<dots> = map_option scanTaskState (row_by sr_task_id k ?rows)"
    by (rule row_by_scan)
  also have "row_by sr_task_id k ?rows = task_of d k"
    using row_by_Some_iff[OF uniq, of k] row_by_Some_iff[of sr_task_id "scheduler_tasks d" k] assms
    unfolding task_of_def rows_unique_def by (metis not_None_eq set_sort)
  finally show "stored_states False d k = map_option scanTaskState (task_of d k)" .
qed

lemma load_entry_recorded:
  "task_of d (te_id e) = Some r \<Longrightarrow> recorded d (load_entry off now (\<lambda>k. map_option scanTaskState (task_of d k)) e)"
  by (simp add: load_entry_def recorded_def scanTaskState_def)

lemma loadState_db:
  "sc_db s = Some d \<Longrightarrow> sc_db (loadState off lf (\<lambda>_. False) now s) =
     Some (fold upsert (map (load_entry off now (stored_states lf d)) (sc_tasks s)) d)"
  by (simp add: loadState_def Let_def upsert_def[abs_def])

lemma rows_unique_upserts: "rows_unique d \<Longrightarrow> rows_unique (fold upsert es d)"
  by (induction es arbitrary: d) (simp_all add: rows_unique_upsert)

lemma load_all_recorded:
  assumes "rows_unique d" "distinct (map te_id es)" "es' = map (load_entry off now (stored_states False d)) es"
    and "x \<in> set es'"
  shows "recorded (fold upsert es' d) x"
proof (rule upserts_recorded)
  show "distinct (map te_id es')" using assms(2,3) by (simp add: comp_def)
  show "\<forall>e \<in> set es'. recorded d e \<or> task_of d (te_id e) = None"
    unfolding assms(3) stored_states_task[OF assms(1)] using load_entry_recorded[of d]
    by auto
qed (use assms(4) in simp)

subsection \<open>The rows follow the entries\<close>

lemma persist_upsert: "persistState False e (Some d) = Some (upsert e d)"
  by (simp add: persistState_def upsert_def)

lemma record_run_task:
  "task_of (record_run False False fin e d) k = map_option (\<lambda>r. if k = te_id e
     then r\<lparr>sr_last_run := Some (te_lastRun e), sr_last_status := te_lastStatus e, sr_last_error := te_lastError e,
            sr_run_count := te_runCount e, sr_fail_count := te_failCount e, sr_next_run := nullable (te_nextRun e)\<rparr>
     else r) (task_of d k)"
  using task_of_update_run[of "te_id e" "te_lastRun e" "te_lastStatus e" "te_lastError e" "te_runCount e" "te_failCount e"
      "te_nextRun e" d _ k]
  by (simp add: record_run_def Let_def or_else_def UpdateTaskRun_def RecordTaskHistory_def task_of_def)

lemma record_run_unique: "rows_unique d \<Longrightarrow> rows_unique (record_run False False fin e d)"
  by (simp add: rows_unique_def record_run_def Let_def or_else_def UpdateTaskRun_def RecordTaskHistory_def unique_key_change)

lemma recorded_run:
  assumes "recorded d x"
  shows "te_id x \<noteq> te_id e \<Longrightarrow> recorded (record_run False False fin e d) x"
    and "te_id x = te_id e \<Longrightarrow> recorded (record_run False False fin e d) e"
  using assms by (auto simp: recorded_def record_run_task from_nullable_def)

lemma recorded_cong:
  "recorded d x \<Longrightarrow> te_id y = te_id x \<Longrightarrow> te_runCount y = te_runCount x \<Longrightarrow> te_failCount y = te_failCount x \<Longrightarrow>
   te_lastRun y = te_lastRun x \<Longrightarrow> recorded d y"
  by (simp add: recorded_def)

text \<open>Steps that change neither the database nor what is recorded.\<close>

lemma synced_update:
  assumes "synced s" "sc_db s' = sc_db s" "sc_tasks s' = update_where P f (sc_tasks s)" "sc_running s' \<Longrightarrow> sc_running s"
    and "\<And>e. te_id (f e) = te_id e \<and> te_runCount (f e) = te_runCount e \<and> te_failCount (f e) = te_failCount e \<and>
           te_lastRun (f e) = te_lastRun e"
  shows "synced s'"
proof (cases "sc_db s")
  case (Some d)
  have "recorded d e" if run: "sc_running s'" and e: "e \<in> set (sc_tasks s')" for e
  proof -
    obtain x where x: "x \<in> set (sc_tasks s)" "e = x \<or> e = f x" using e assms(3) by (auto simp: set_update_where)
    then have "recorded d x" using assms(1,4) run Some by (auto simp: synced_def)
    with x(2) assms(5) show ?thesis using recorded_cong by metis
  qed
  with assms(1,2) Some show ?thesis by (simp add: synced_def)
qed (use assms in \<open>simp add: synced_def\<close>)

lemma update_where_never: "update_where (\<lambda>_. False) f xs = xs"
  by (simp add: update_where_def)

lemma Start_synced:
  assumes "synced s" "jobs_ok s"
  shows "synced (Start off False (\<lambda>_. False) now now2 s)"
proof (cases "sc_running s")
  case True
  with assms show ?thesis by (simp add: Start_def)
next
  case run: False
  let ?s = "loadState off False (\<lambda>_. False) now (s\<lparr>sc_running := True\<rparr>)"
  have "synced ?s"
  proof (cases "sc_db s")
    case None
    then show ?thesis by (simp add: synced_def loadState_def)
  next
    case (Some d)
    then have d: "rows_unique d" "distinct (map te_id (sc_tasks s))" using assms by (simp_all add: synced_def jobs_ok_def)
    let ?es = "map (load_entry off now (stored_states False d)) (sc_tasks s)"
    have db: "sc_db ?s = Some (fold upsert ?es d)"
      using loadState_db[of "s\<lparr>sc_running := True\<rparr>" d off False now] Some by simp
    have tasks: "sc_tasks ?s = ?es" by (simp add: loadState_def Some Let_def)
    show ?thesis unfolding synced_def db tasks
      using rows_unique_upserts[OF d(1)] load_all_recorded[OF d refl] by simp
  qed
  then show ?thesis
    using run synced_update[of ?s "runMissed now2 ?s" "missed now2 (sc_catchUpWindow ?s)" "\<lambda>e. e\<lparr>te_running := True\<rparr>"]
    by (simp add: Start_def runMissed_def launch_def)
qed

lemma set_entry_synced:
  assumes "synced s" "sc_db s = Some d" "entry_of k s = Some e" "te_id e' = k"
    and "sc_tasks s' = update_where (\<lambda>e. te_id e = k) (\<lambda>_. e') (sc_tasks s)" "sc_running s' = sc_running s"
    and "sc_db s' = Some d'" "rows_unique d'"
    and "\<And>x. recorded d x \<Longrightarrow> te_id x \<noteq> k \<Longrightarrow> recorded d' x" "recorded d e \<Longrightarrow> recorded d' e'"
  shows "synced s'"
proof -
  have "recorded d' x" if "sc_running s'" "x \<in> set (sc_tasks s')" for x
  proof -
    from that assms(5) have "x = e' \<or> (x \<in> set (sc_tasks s) \<and> te_id x \<noteq> k)" by (auto simp: set_update_where)
    moreover have "recorded d y" if "y \<in> set (sc_tasks s)" for y
      using assms(1,2,6) \<open>sc_running s'\<close> that by (simp add: synced_def)
    moreover have "e \<in> set (sc_tasks s)" using assms(3) row_by_SomeD by fast
    ultimately show ?thesis using assms(9,10) by blast
  qed
  then show ?thesis using assms(7,8) by (simp add: synced_def)
qed

lemma execute_synced:
  assumes "synced s"
  shows "synced (snd (execute off False False start finished err k s))"
proof (cases "entry_of k s"; cases "sc_db s")
  fix e d assume e: "entry_of k s = Some e" and d: "sc_db s = Some d"
  let ?e = "finish_entry off start finished err e"
  have uniq: "rows_unique d" using assms d by (simp add: synced_def)
  show ?thesis
    by (rule set_entry_synced[OF assms d e, of ?e _ "record_run False False finished ?e d"])
      (use entry_ofD[OF e] recorded_run[of d _ ?e finished] record_run_unique[OF uniq] d in
        \<open>auto simp: execute_def e Let_def change_entry_def\<close>)
qed (use assms in \<open>auto simp: execute_def synced_def Let_def\<close>)

lemma toggle_synced:
  assumes "synced s" "entry_of k s = Some e" "te_id e' = k" "te_runCount e' = te_runCount e"
    "te_failCount e' = te_failCount e" "te_lastRun e' = te_lastRun e"
    and "s' = (change_entry k (\<lambda>_. e') s)\<lparr>sc_db := persistState False e' (sc_db s)\<rparr>"
  shows "synced s'"
proof (cases "sc_db s")
  case None
  with assms(7) show ?thesis by (simp add: synced_def persistState_def)
next
  case (Some d)
  have uniq: "rows_unique d" using assms(1) Some by (simp add: synced_def)
  have "recorded d e \<Longrightarrow> recorded (upsert e' d) e'"
    using recorded_upsert[of d e' e'] recorded_cong[of d e e'] assms(3-6) entry_ofD[OF assms(2)] by simp
  then show ?thesis
    by (intro set_entry_synced[OF assms(1) Some assms(2), of e' _ "upsert e' d"])
      (use assms(3,7) Some uniq in \<open>auto simp: change_entry_def persist_upsert rows_unique_upsert recorded_upsert\<close>)
qed

lemma interrupts_recorded:
  assumes "recorded d x" "\<forall>e \<in> set es. te_id e = te_id x \<longrightarrow> te_lastRun e = te_lastRun x"
  shows "recorded (fold (\<lambda>e. upsert (interrupt now e)) es d) x"
  using assms
proof (induction es arbitrary: d)
  case (Cons e es)
  have "recorded (upsert (interrupt now e) d) x"
    using Cons.prems by (intro recorded_upsert) (auto simp: interrupt_def)
  with Cons show ?case by simp
qed simp

lemma fold_persist:
  "fold (\<lambda>e. persistState False (f e)) es (Some d) = Some (fold (\<lambda>e. upsert (f e)) es d)"
  by (induction es arbitrary: d) (simp_all add: persist_upsert)

lemma rows_unique_fold: "rows_unique d \<Longrightarrow> rows_unique (fold (\<lambda>e. upsert (f e)) es d)"
  by (induction es arbitrary: d) (simp_all add: rows_unique_upsert)

lemma interrupted_synced:
  assumes "synced s" "jobs_ok s"
  shows "synced (markInterrupted (\<lambda>_. False) now s)"
proof (cases "sc_db s")
  case None
  have "fold (\<lambda>e. persistState False (interrupt now e)) es None = None" for es
    by (induction es) (simp_all add: persistState_def)
  with None show ?thesis by (simp add: synced_def markInterrupted_def)
next
  case (Some d)
  let ?d = "fold (\<lambda>e. upsert (interrupt now e)) (filter te_running (sc_tasks s)) d"
  have db: "sc_db (markInterrupted (\<lambda>_. False) now s) = Some ?d"
    by (simp add: markInterrupted_def Some fold_persist)
  have "recorded ?d y" if run: "sc_running s" and y: "y \<in> set (update_where te_running (interrupt now) (sc_tasks s))" for y
  proof -
    obtain x where x: "x \<in> set (sc_tasks s)" "y = x \<or> y = interrupt now x" using y by (auto simp: set_update_where)
    have "te_id e = te_id x \<Longrightarrow> e = x" if "e \<in> set (sc_tasks s)" for e
      using assms(2) that x(1) by (auto simp: jobs_ok_def distinct_map inj_on_def)
    then have "recorded ?d x"
      using assms(1) Some run x(1) by (intro interrupts_recorded) (auto simp: synced_def)
    with x(2) show ?thesis by (auto simp: interrupt_def intro: recorded_cong)
  qed
  then show ?thesis
    using assms(1) Some unfolding synced_def db by (simp add: rows_unique_fold) (simp add: markInterrupted_def)
qed

lemma Register_synced:
  assumes "synced s" "Register pd k name expr en s = Inr s'" "\<not> sc_running s"
  shows "synced s'"
  using assms by (auto simp: Register_def synced_def change_entry_def Let_def split: sum.splits option.splits)

lemma RunNow_InrD:
  "RunNow k s = Inr s' \<Longrightarrow>
   s' = (change_entry k (\<lambda>e. e\<lparr>te_running := True\<rparr>) s)\<lparr>sc_jobs := sc_jobs s @ [(k, Executing)]\<rparr>"
  by (auto simp: RunNow_def split: option.splits if_splits)

lemma switch_synced:
  assumes "synced s"
  shows "synced (EnableTask off False now k s)" "synced (DisableTask False k s)"
proof -
  show "synced (EnableTask off False now k s)"
  proof (cases "entry_of k s")
    case (Some e)
    show ?thesis
      by (rule toggle_synced[OF assms Some,
            of "e\<lparr>te_enabled := True, te_nextRun := sched_Next off (te_schedule e) now\<rparr>"])
        (simp_all add: EnableTask_def Some Let_def entry_ofD[OF Some])
  qed (simp add: EnableTask_def assms)
  show "synced (DisableTask False k s)"
  proof (cases "entry_of k s")
    case (Some e)
    show ?thesis
      by (rule toggle_synced[OF assms Some, of "e\<lparr>te_enabled := False\<rparr>"])
        (simp_all add: DisableTask_def Some Let_def entry_ofD[OF Some])
  qed (simp add: DisableTask_def assms)
qed

lemma step_synced: "sched_step off False s s' \<Longrightarrow> jobs_ok s \<Longrightarrow> synced s \<Longrightarrow> synced s'"
proof (induction rule: sched_step.induct)
  case (st_start s lf uf now now2)
  then have "uf = (\<lambda>_. False)" "\<not> lf" by auto
  with st_start Start_synced[of s off now now2] show ?case by simp
next
  case (st_interrupt uf s now)
  then have "uf = (\<lambda>_. False)" by auto
  with st_interrupt interrupted_synced[of s now] show ?case by simp
next
  case (st_enable pf s now k)
  then show ?case using switch_synced(1)[of s off now k] by simp
next
  case (st_disable pf s k)
  then show ?case using switch_synced(2)[of s k] by simp
next
  case (st_execute k s rf hf start finished err)
  then show ?case using execute_synced[of s off start finished err k] by simp
next
  case (st_tick s now)
  show ?case
    by (rule synced_update[OF st_tick.prems(2), of _ "task_due now" "\<lambda>e. e\<lparr>te_running := True\<rparr>"]) (simp_all add: tick_def launch_def)
next
  case (st_run k s s')
  show ?case
    by (rule synced_update[OF st_run.prems(2), of _ "\<lambda>e. te_id e = k" "\<lambda>e. e\<lparr>te_running := True\<rparr>"])
      (simp_all add: RunNow_InrD[OF st_run.hyps] change_entry_def)
next
  case (st_release k s)
  show ?case
    by (rule synced_update[OF st_release.prems(2), of _ "\<lambda>e. te_id e = k" "\<lambda>e. e\<lparr>te_running := False\<rparr>"])
      (simp_all add: release_def change_entry_def)
next
  case (st_retry s k en b m)
  show ?case
    by (rule synced_update[OF st_retry.prems(2), of _ "\<lambda>e. te_id e = k" "\<lambda>e. e\<lparr>te_retryOnFail := en,
        te_retryBase := (if b \<le> 0 then defaultRetryDelay else b),
        te_retryMax := (if m \<le> 0 then defaultMaxRetries else m)\<rparr>"]) (simp_all add: SetRetry_def change_entry_def)
next
  case (st_window s w)
  then show ?case by (simp add: synced_def SetCatchUpWindow_def split: option.splits)
next
  case (st_stop s)
  then show ?case by (simp add: synced_def Stop_def split: option.splits)
qed (blast intro: Register_synced)

lemma reachable_synced:
  assumes "(sched_step off False)\<^sup>*\<^sup>* (sched_New (Some d0)) s" "rows_unique d0"
  shows "jobs_ok s \<and> synced s"
  using assms(1)
proof (induction rule: rtranclp_induct)
  case base
  then show ?case using assms(2) jobs_ok_New by (simp add: synced_def sched_New_def)
next
  case (step s s')
  then show ?case using step_jobs step_synced by blast
qed

subsection \<open>Restarts\<close>

text \<open>What a new start makes of a task whose row is up to date. The counters, the last run and the
  next run come from the row; whether the task is enabled does not: it is what the new
  registration says, so that a task an operator had switched off is on again.\<close>

lemma restart_loads_row:
  assumes "(sched_step off False)\<^sup>*\<^sup>* (sched_New (Some d0)) s" "rows_unique d0"
    and "sc_running s" "sc_db s = Some d" "e \<in> set (sc_tasks s)"
    and "sc_db s0 = Some d" "\<not> sc_running s0" "e0 \<in> set (sc_tasks s0)" "te_id e0 = te_id e"
  shows "\<exists>e1 \<in> set (sc_tasks (Start off False (\<lambda>_. False) now now2 s0)).
    te_id e1 = te_id e \<and> te_runCount e1 = te_runCount e \<and> te_failCount e1 = te_failCount e \<and>
    te_lastRun e1 = te_lastRun e \<and> te_enabled e1 = te_enabled e0 \<and>
    te_nextRun e1 = sched_Next off (te_schedule e0) (if IsZero (te_lastRun e) then now else te_lastRun e)"
proof -
  have sync: "rows_unique d" "recorded d e"
    using reachable_synced[OF assms(1,2)] assms(3-5) by (simp_all add: synced_def)
  then obtain r where r: "task_of d (te_id e) = Some r" "sr_run_count r = te_runCount e" "sr_fail_count r = te_failCount e"
    "from_nullable (sr_last_run r) = te_lastRun e" by (auto simp: recorded_def)
  let ?f = "load_entry off now (stored_states False d)"
  let ?s = "loadState off False (\<lambda>_. False) now (s0\<lparr>sc_running := True\<rparr>)"
  define e1 where "e1 = (if missed now2 (sc_catchUpWindow ?s) (?f e0) then (?f e0)\<lparr>te_running := True\<rparr> else ?f e0)"
  have "sc_tasks ?s = map ?f (sc_tasks s0)" by (simp add: loadState_def assms(6) Let_def)
  then have "e1 \<in> set (sc_tasks (Start off False (\<lambda>_. False) now now2 s0))"
    using assms(7,8) unfolding Start_def runMissed_def launch_def e1_def by (auto simp: set_update_where)
  moreover have "te_id (?f e0) = te_id e \<and> te_runCount (?f e0) = te_runCount e \<and> te_failCount (?f e0) = te_failCount e \<and>
    te_lastRun (?f e0) = te_lastRun e \<and> te_enabled (?f e0) = te_enabled e0 \<and>
    te_nextRun (?f e0) = sched_Next off (te_schedule e0) (if IsZero (te_lastRun e) then now else te_lastRun e)"
    using r assms(9) by (simp add: stored_states_task[OF sync(1)] load_entry_def scanTaskState_def)
  ultimately show ?thesis by (intro bexI[of _ e1]) (auto simp: e1_def)
qed

lemma restart_enables_again:
  assumes "(sched_step off False)\<^sup>*\<^sup>* (sched_New (Some d0)) s" "rows_unique d0"
    and "sc_running s" "sc_db s = Some d" "e \<in> set (sc_tasks s)"
    and "sc_db s0 = Some d" "\<not> sc_running s0" "e0 \<in> set (sc_tasks s0)" "te_id e0 = te_id e"
    and "te_enabled e0" "\<not> te_enabled e"
  shows "\<exists>e1 \<in> set (sc_tasks (Start off False (\<lambda>_. False) now now2 s0)). te_id e1 = te_id e \<and> te_enabled e1"
  using restart_loads_row[OF assms(1-9)] assms(10) by fastforce

text \<open>C32: A restart keeps the record of every finished run. Take any state that a scheduler
  whose database calls never fail has reached, from a database with at most one row per task,
  while it is running, end the process there, and start a new scheduler, again without a failing
  database call, on that database: every task of the old process that is registered again under
  its name has the number of successful and of failed runs that the old process had counted, and
  the same instant of the last run; its next run is computed with the newly registered schedule
  from that last run, or from the present if it never ran. A run that is still going on when the
  process ends has not been counted by the old process, and is not counted by the new one
  either.\<close>

theorem restart_keeps_runs:
  assumes "(sched_step off False)\<^sup>*\<^sup>* (sched_New (Some d0)) s" "rows_unique d0"
    and "sc_running s" "sc_db s = Some d" "e \<in> set (sc_tasks s)"
    and "sc_db s0 = Some d" "\<not> sc_running s0" "e0 \<in> set (sc_tasks s0)" "te_id e0 = te_id e"
  shows "\<exists>e1 \<in> set (sc_tasks (Start off False (\<lambda>_. False) now now2 s0)).
    te_id e1 = te_id e \<and> te_runCount e1 = te_runCount e \<and> te_failCount e1 = te_failCount e \<and>
    te_lastRun e1 = te_lastRun e \<and>
    te_nextRun e1 = sched_Next off (te_schedule e0) (if IsZero (te_lastRun e) then now else te_lastRun e)"
  using restart_loads_row[OF assms] by fastforce

text \<open>The demonstration task runs once, at noon of the first day, and the process ends.\<close>

definition demo_after :: scheduler where
  "demo_after = snd (execute 0 False False (12 * Hour) (12 * Hour + Second) None ''gc'' demo_run)"

definition demo_fresh :: "db option \<Rightarrow> scheduler" where
  "demo_fresh d = (sched_New d)\<lparr>sc_tasks := [fresh_entry ''gc'' ''Clean up'' (IntervalSched ''@every 6h'' (6 * Hour)) True]\<rparr>"

theorem restart_keeps_runs_witness:
  "\<exists>e1 \<in> set (sc_tasks (Start 0 False (\<lambda>_. False) (13 * Hour) (13 * Hour) (demo_fresh (sc_db demo_after)))).
     te_runCount e1 = 1 \<and> te_lastRun e1 = 12 * Hour \<and> te_nextRun e1 = 18 * Hour"
proof -
  have "(sched_step 0 False)\<^sup>*\<^sup>* (sched_New (Some empty_db)) demo_run"
    using demo_sched_reached demo_run_step by (rule rtranclp.rtrancl_into_rtrancl)
  moreover have "sched_step 0 False demo_run demo_after"
    unfolding demo_after_def by (rule st_execute) (simp_all add: demo_run_def)
  ultimately have reach: "(sched_step 0 False)\<^sup>*\<^sup>* (sched_New (Some empty_db)) demo_after"
    by (rule rtranclp.rtrancl_into_rtrancl)
  have run: "sc_tasks demo_run = [(hd (sc_tasks demo_sched))\<lparr>te_running := True\<rparr>]"
    using demo_sched_eval by (simp add: demo_run_def change_entry_def update_where_def fresh_entry_def)
  let ?e = "finish_entry 0 (12 * Hour) (12 * Hour + Second) None ((hd (sc_tasks demo_sched))\<lparr>te_running := True\<rparr>)"
  have entry: "entry_of ''gc'' demo_run = Some ((hd (sc_tasks demo_sched))\<lparr>te_running := True\<rparr>)"
    using demo_sched_eval by (simp add: run row_by_def fresh_entry_def)
  have gc: "te_id (hd (sc_tasks demo_sched)) = ''gc''" "sc_running demo_run"
    using demo_sched_eval by (simp_all add: fresh_entry_def demo_run_def change_entry_def)
  have after: "sc_tasks demo_after = [?e]" "sc_running demo_after"
    unfolding demo_after_def execute_def entry Let_def change_entry_def using gc by (simp_all add: run update_where_def)
  have e: "te_id ?e = ''gc''" "te_runCount ?e = 1" "te_lastRun ?e = 12 * Hour"
    using demo_sched_eval by (simp_all add: finish_entry_def fresh_entry_def Let_def)
  have "sc_db demo_run \<noteq> None"
    by (simp add: demo_run_def change_entry_def demo_sched_def Start_def runMissed_def launch_def loadState_def sched_New_def Let_def)
  then obtain d where d: "sc_db demo_after = Some d"
    unfolding demo_after_def execute_def entry Let_def by auto
  have "rows_unique empty_db" by (simp add: rows_unique_def empty_db_def)
  from restart_keeps_runs[OF reach this after(2) d, of ?e "demo_fresh (Some d)"
      "fresh_entry ''gc'' ''Clean up'' (IntervalSched ''@every 6h'' (6 * Hour)) True" "13 * Hour" "13 * Hour"]
  show ?thesis using e after(1) unfolding d
    by (fastforce simp: demo_fresh_def sched_New_def fresh_entry_def IsZero_def zero_time_def Hour_def)
qed

subsection \<open>What a restart does not keep\<close>

text \<open>The mark of an interrupted run is not stored. When a shutdown times out, the tasks that still
  run are marked as interrupted and due at once, and written to the database. But the
  statement keeps the stored status and next run of a task that has them, so that for tasks
  whose row agrees with their entry nothing changes in the database: after the restart the
  tasks look as if they had never been interrupted.\<close>

theorem interruption_is_not_stored:
  assumes "sc_db s = Some d" "rows_unique d"
    and "\<forall>e \<in> set (sc_tasks s). te_running e \<longrightarrow>
      task_of d (te_id e) = Some (task_values (toTaskState e)) \<and> te_lastStatus e \<noteq> [] \<and> \<not> IsZero (te_nextRun e)"
  shows "sc_db (markInterrupted upFault now s) = sc_db s \<and>
    (\<forall>e \<in> set (sc_tasks (markInterrupted upFault now s)). te_running e \<longrightarrow>
       te_lastStatus e = ''interrupted'' \<and> te_nextRun e = now)"
proof -
  have same: "persistState f (interrupt now e) (Some d) = Some d" if e: "e \<in> set (sc_tasks s)" "te_running e" for e f
  proof -
    let ?v = "task_values (toTaskState (interrupt now e))"
    have r: "task_of d (te_id e) = Some (task_values (toTaskState e))" "te_lastStatus e \<noteq> []" "\<not> IsZero (te_nextRun e)"
      using assms(3) e by blast+
    have merge: "merge_task ?v (task_values (toTaskState e)) = task_values (toTaskState e)"
      using r(2,3) by (simp add: merge_task_def task_values_def toTaskState_def interrupt_def coalesce_def unless_empty_def nullable_def)
    have "(if sr_task_id x = te_id e then merge_task ?v x else x) = x" if "x \<in> set (scheduler_tasks d)" for x
      using r(1) merge row_by_Some_iff[of sr_task_id "scheduler_tasks d"] assms(2) that
      unfolding task_of_def rows_unique_def by (metis (no_types, lifting) option.inject)
    then have "update_where (\<lambda>x. sr_task_id x = te_id e) (merge_task ?v) (scheduler_tasks d) = scheduler_tasks d"
      by (simp add: update_where_def map_idI)
    then have "UpsertSchedulerTask False (toTaskState (interrupt now e)) d = Inr d"
      using r(1) by (simp add: UpsertSchedulerTask_def task_of_def interrupt_def)
    then show ?thesis by (cases f) (simp_all add: persistState_def or_else_def UpsertSchedulerTask_def)
  qed
  have "fold (\<lambda>e. persistState (upFault (te_id e)) (interrupt now e)) es (Some d) = Some d"
    if "\<forall>e \<in> set es. e \<in> set (sc_tasks s) \<and> te_running e" for es
    using that by (induction es) (auto simp: same)
  then have "sc_db (markInterrupted upFault now s) = sc_db s" by (simp add: markInterrupted_def assms(1))
  moreover have "te_lastStatus e = ''interrupted'' \<and> te_nextRun e = now"
    if "e \<in> set (sc_tasks (markInterrupted upFault now s))" "te_running e" for e
    using that by (auto simp: markInterrupted_def set_update_where interrupt_def)
  ultimately show ?thesis by blast
qed

definition busy :: task_entry where
  "busy = (fresh_entry ''gc'' ''Clean up'' (IntervalSched ''@every 6h'' (6 * Hour)) True)\<lparr>te_nextRun := 5, te_running := True\<rparr>"

definition busy_sched :: scheduler where
  "busy_sched = (sched_New (Some (empty_db\<lparr>scheduler_tasks := [task_values (toTaskState busy)]\<rparr>)))
     \<lparr>sc_tasks := [busy], sc_jobs := [(''gc'', Executing)]\<rparr>"

theorem interruption_is_not_stored_witness:
  "sc_db (markInterrupted (\<lambda>_. False) 9 busy_sched) = sc_db busy_sched \<and>
   map te_lastStatus (sc_tasks (markInterrupted (\<lambda>_. False) 9 busy_sched)) = [''interrupted'']"
proof -
  have "sc_db busy_sched = Some (empty_db\<lparr>scheduler_tasks := [task_values (toTaskState busy)]\<rparr>)"
    by (simp add: busy_sched_def sched_New_def)
  moreover have "rows_unique (empty_db\<lparr>scheduler_tasks := [task_values (toTaskState busy)]\<rparr>)"
    by (simp add: rows_unique_def)
  moreover have "\<forall>e \<in> set (sc_tasks busy_sched). te_running e \<longrightarrow>
      task_of (empty_db\<lparr>scheduler_tasks := [task_values (toTaskState busy)]\<rparr>) (te_id e) = Some (task_values (toTaskState e)) \<and>
      te_lastStatus e \<noteq> [] \<and> \<not> IsZero (te_nextRun e)"
    by (simp add: busy_sched_def task_of_def row_by_def) (simp add: busy_def fresh_entry_def IsZero_def zero_time_def)
  ultimately have "sc_db (markInterrupted (\<lambda>_. False) 9 busy_sched) = sc_db busy_sched"
    by (rule interruption_is_not_stored[THEN conjunct1])
  then show ?thesis by (simp add: busy_sched_def markInterrupted_def update_where_def busy_def interrupt_def)
qed

text \<open>Starting again does not look at the running mark. If a task still has a job in flight when the
  scheduler is started, and the task was due within the catch-up window, it is launched a second
  time next to the first, unlike on a tick or by a manual run.\<close>

theorem start_overlaps:
  assumes "k \<in> fst ` set (sc_jobs s)" "\<not> sc_running s"
    and "entry_of k (loadState off lf uf now (s\<lparr>sc_running := True\<rparr>)) = Some e"
    and "missed now2 (sc_catchUpWindow s) e"
  shows "\<not> distinct (map fst (sc_jobs (Start off lf uf now now2 s)))"
proof -
  let ?s = "loadState off lf uf now (s\<lparr>sc_running := True\<rparr>)"
  have kept: "sc_jobs ?s = sc_jobs s" "sc_catchUpWindow ?s = sc_catchUpWindow s"
    by (simp_all add: loadState_def Let_def split: option.split)
  have e: "e \<in> set (sc_tasks ?s)" "te_id e = k" using assms(3) row_by_SomeD by fast+
  then have "k \<in> set (map te_id (filter (missed now2 (sc_catchUpWindow s)) (sc_tasks ?s)))" using assms(4) by force
  moreover have "map fst (sc_jobs (Start off lf uf now now2 s)) =
    map fst (sc_jobs s) @ map te_id (filter (missed now2 (sc_catchUpWindow s)) (sc_tasks ?s))"
    using assms(2) by (simp add: Start_def runMissed_def launch_def kept comp_def)
  ultimately show ?thesis using assms(1) by auto
qed

theorem start_overlaps_witness:
  "\<not> distinct (map fst (sc_jobs (Start 0 False (\<lambda>_. False) (- 7 * Hour) (- Hour + 1) busy_sched)))"
proof -
  have "entry_of ''gc'' (loadState 0 False (\<lambda>_. False) (- 7 * Hour) (busy_sched\<lparr>sc_running := True\<rparr>)) =
    Some (busy\<lparr>te_nextRun := - Hour\<rparr>)"
    by (simp add: busy_sched_def sched_New_def loadState_def Let_def row_by_def stored_states_def ListSchedulerTasks_def
        load_entry_def scanTaskState_def toTaskState_def task_values_def busy_def fresh_entry_def nullable_def
        from_nullable_def IsZero_def)
  from start_overlaps[OF _ _ this, of "- Hour + 1"] show ?thesis
    by (simp add: busy_sched_def sched_New_def missed_def busy_def fresh_entry_def IsZero_def zero_time_def
        defaultCatchUpWindow_def Hour_def)
qed

text \<open>The catch-up window does not keep stale runs from being caught up. A task that is enabled, has
  no job in flight and was due before the scheduler is started has a job after the start and
  one later tick, however long ago it was due: what the window leaves out of the catch-up,
  the first tick launches.\<close>

theorem catch_up_window_is_idle:
  assumes "\<not> sc_running s" "now2 < now3"
    and "entry_of k (loadState off lf uf now (s\<lparr>sc_running := True\<rparr>)) = Some e"
    and "te_enabled e" "\<not> te_running e" "\<not> IsZero (te_nextRun e)" "te_nextRun e < now2"
  shows "(k, Executing) \<in> set (sc_jobs (tick now3 (Start off lf uf now now2 s)))"
proof -
  let ?s = "loadState off lf uf now (s\<lparr>sc_running := True\<rparr>)"
  let ?t = "Start off lf uf now now2 s" and ?P = "missed now2 (sc_catchUpWindow ?s)"
  have t: "?t = launch ?P ?s" using assms(1) by (simp add: Start_def runMissed_def)
  have e: "e \<in> set (sc_tasks ?s)" "te_id e = k" using assms(3) row_by_SomeD by fast+
  show ?thesis
  proof (cases "?P e")
    case True
    with e have "(k, Executing) \<in> set (sc_jobs ?t)" by (force simp: t launch_def)
    then show ?thesis by (simp add: tick_def launch_def)
  next
    case False
    with e have "e \<in> set (sc_tasks ?t)" by (force simp: t launch_def set_update_where)
    moreover have "task_due now3 e" using assms by (simp add: task_due_def)
    ultimately show ?thesis using e(2) by (force simp: tick_def launch_def)
  qed
qed

theorem catch_up_window_is_idle_witness:
  "(''gc'', Executing) \<in> set (sc_jobs (tick (100 * Hour) (Start 0 False (\<lambda>_. False) (- 7 * Hour) (99 * Hour)
     (demo_fresh (Some empty_db)))))"
proof -
  have "entry_of ''gc'' (loadState 0 False (\<lambda>_. False) (- 7 * Hour) ((demo_fresh (Some empty_db))\<lparr>sc_running := True\<rparr>)) =
    Some ((fresh_entry ''gc'' ''Clean up'' (IntervalSched ''@every 6h'' (6 * Hour)) True)\<lparr>te_nextRun := - Hour\<rparr>)"
    by (simp add: demo_fresh_def sched_New_def loadState_def Let_def row_by_def stored_states_def ListSchedulerTasks_def
        load_entry_def fresh_entry_def empty_db_def)
  from catch_up_window_is_idle[OF _ _ this, of "99 * Hour" "100 * Hour"] show ?thesis
    by (simp add: demo_fresh_def sched_New_def fresh_entry_def IsZero_def zero_time_def Hour_def)
qed

end
