(* ===== verification/Health_Monitor.thy ===== *)
theory Health_Monitor
  imports Http
begin

section \<open>Maintenance mode\<close>

text \<open>
  The self-healing monitor of \<^verbatim>\<open>src/src/health/monitor.go\<close> and the code of
  \<^verbatim>\<open>src/src/server/maintenance.go\<close> that plugs into it: the probe of the two critical systems
  and the middleware that refuses writes.

  The callbacks act on the world \<^typ>\<open>'w\<close> (the database and the disk): a checker reads it,
  a cleaner changes it. What the notifier is called with is the list of events an
  operation returns. \<^verbatim>\<open>tick\<close> releases the lock while it probes, so it is modelled as the two
  sections that hold the lock, between which other calls may run; \<^verbatim>\<open>tick\<close> itself is their
  composition.
\<close>

subsection \<open>The monitor\<close>

datatype health_state = StateStarting | StateNormal | StateMaintenance

definition ReasonDatabaseConnection :: string where "ReasonDatabaseConnection = ''database_connection''"
definition ReasonFileWrite :: string where "ReasonFileWrite = ''file_write''"

record health_config =
  hc_SelfHealingEnabled :: bool
  hc_RetryInterval :: duration
  hc_MaxAttempts :: int
  hc_NotifyOnEnter :: bool
  hc_NotifyOnExit :: bool

record snapshot =
  sn_State :: health_state
  sn_Reason :: string
  sn_Message :: string
  sn_Since :: instant
  sn_SelfHealingEnabled :: bool
  sn_Attempts :: int
  sn_LastAttempt :: instant
  sn_NextAttempt :: instant
  sn_RetryInterval :: duration

text \<open>\<^verbatim>\<open>int(d.Seconds())\<close> truncates a \<^verbatim>\<open>float64\<close>; it equals the integer quotient for every interval
  below \<open>2 ^ 24\<close> seconds (half a year).\<close>

definition RetrySeconds :: "snapshot \<Rightarrow> int" where
  "RetrySeconds s = (let secs = sn_RetryInterval s div Second in if secs < 1 then 1 else secs)"

type_synonym 'w checker = "'w \<Rightarrow> bool \<times> string \<times> string"

record 'w monitor =
  m_state :: health_state
  m_reason :: string
  m_message :: string
  m_since :: instant
  m_attempts :: int
  m_lastAttempt :: instant
  m_nextAttempt :: instant
  m_selfHealing :: bool
  m_retryInterval :: duration
  m_maxAttempts :: int
  m_notifyOnEnter :: bool
  m_notifyOnExit :: bool
  m_checker :: "'w checker option"
  m_cleaner :: "('w \<Rightarrow> 'w) option"
  m_notifier :: bool

datatype notice = EnterNotice snapshot | ExitNotice snapshot

definition monitor_New :: "health_config \<Rightarrow> 'w monitor" where
  "monitor_New cfg =
     \<lparr>m_state = StateStarting, m_reason = [], m_message = [], m_since = zero_time, m_attempts = 0,
      m_lastAttempt = zero_time, m_nextAttempt = zero_time, m_selfHealing = hc_SelfHealingEnabled cfg,
      m_retryInterval = (if hc_RetryInterval cfg \<le> 0 then 30 * Second else hc_RetryInterval cfg),
      m_maxAttempts = hc_MaxAttempts cfg, m_notifyOnEnter = hc_NotifyOnEnter cfg,
      m_notifyOnExit = hc_NotifyOnExit cfg, m_checker = None, m_cleaner = None, m_notifier = False\<rparr>"

definition SetChecker :: "'w checker option \<Rightarrow> 'w monitor \<Rightarrow> 'w monitor" where
  "SetChecker c m = m\<lparr>m_checker := c\<rparr>"

definition SetCleaner :: "('w \<Rightarrow> 'w) option \<Rightarrow> 'w monitor \<Rightarrow> 'w monitor" where
  "SetCleaner c m = m\<lparr>m_cleaner := c\<rparr>"

definition SetNotifier :: "bool \<Rightarrow> 'w monitor \<Rightarrow> 'w monitor" where
  "SetNotifier n m = m\<lparr>m_notifier := n\<rparr>"

definition InMaintenance :: "'w monitor \<Rightarrow> bool" where
  "InMaintenance m \<longleftrightarrow> m_state m = StateMaintenance"

definition monitor_Snapshot :: "'w monitor \<Rightarrow> snapshot" where
  "monitor_Snapshot m =
     \<lparr>sn_State = m_state m, sn_Reason = m_reason m, sn_Message = m_message m, sn_Since = m_since m,
      sn_SelfHealingEnabled = m_selfHealing m, sn_Attempts = m_attempts m,
      sn_LastAttempt = m_lastAttempt m, sn_NextAttempt = m_nextAttempt m,
      sn_RetryInterval = m_retryInterval m\<rparr>"

definition Enter :: "instant \<Rightarrow> string \<Rightarrow> string \<Rightarrow> 'w monitor \<Rightarrow> 'w monitor \<times> notice list" where
  "Enter now reason message m =
     (if m_state m = StateMaintenance then (m, [])
      else let m' = m\<lparr>m_state := StateMaintenance, m_reason := reason, m_message := message,
                      m_since := now, m_attempts := 0, m_lastAttempt := zero_time,
                      m_nextAttempt := now + m_retryInterval m\<rparr>
           in (m', if m_notifier m \<and> m_notifyOnEnter m then [EnterNotice (monitor_Snapshot m')] else []))"

definition Exit :: "'w monitor \<Rightarrow> 'w monitor \<times> notice list" where
  "Exit m =
     (if m_state m \<noteq> StateMaintenance then (m\<lparr>m_state := StateNormal\<rparr>, [])
      else let m' = m\<lparr>m_state := StateNormal, m_reason := [], m_message := [],
                      m_since := zero_time, m_nextAttempt := zero_time\<rparr>
           in (m', if m_notifier m \<and> m_notifyOnExit m then [ExitNotice (monitor_Snapshot m')] else []))"

subsection \<open>One probe\<close>

text \<open>What \<^verbatim>\<open>tick\<close> copies under the lock, the cleaning and the probe, and what it does with the
  answer. Before \<^verbatim>\<open>Exit\<close> or \<^verbatim>\<open>Enter\<close> take the lock again the attempt is counted.\<close>

record probe =
  pb_state :: health_state
  pb_selfHealing :: bool
  pb_answer :: "bool \<times> string \<times> string"

definition tick_probe :: "'w \<Rightarrow> 'w monitor \<Rightarrow> 'w \<times> probe option" where
  "tick_probe w m =
     (case m_checker m of
        None \<Rightarrow> (w, None)
      | Some checker \<Rightarrow>
          let w' = (case m_cleaner m of
                      None \<Rightarrow> w
                    | Some cleaner \<Rightarrow>
                        if m_state m = StateMaintenance \<and> m_reason m = ReasonFileWrite then cleaner w else w)
          in (w', Some \<lparr>pb_state = m_state m, pb_selfHealing = m_selfHealing m, pb_answer = checker w'\<rparr>))"

definition count_attempt :: "instant \<Rightarrow> 'w monitor \<Rightarrow> 'w monitor" where
  "count_attempt now m =
     (if m_maxAttempts m > 0 \<and> m_attempts m \<ge> m_maxAttempts m then m
      else m\<lparr>m_attempts := wrap64 (m_attempts m + 1), m_lastAttempt := now,
             m_nextAttempt := now + m_retryInterval m\<rparr>)"

definition tick_settle :: "instant \<Rightarrow> probe \<Rightarrow> 'w monitor \<Rightarrow> 'w monitor \<times> notice list" where
  "tick_settle now p m =
     (case pb_answer p of (ok, newReason, newMessage) \<Rightarrow>
        if pb_state p = StateMaintenance then
          if \<not> pb_selfHealing p then (m, [])
          else (let m' = count_attempt now m in if ok then Exit m' else (m', []))
        else if ok then (if m_state m = StateStarting then m\<lparr>m_state := StateNormal\<rparr> else m, [])
        else Enter now newReason newMessage m)"

definition monitor_tick :: "instant \<Rightarrow> 'w \<Rightarrow> 'w monitor \<Rightarrow> 'w \<times> 'w monitor \<times> notice list" where
  "monitor_tick now w m =
     (case tick_probe w m of
        (w', None) \<Rightarrow> (w', m, [])
      | (w', Some p) \<Rightarrow> (w', tick_settle now p m))"

text \<open>\<^verbatim>\<open>Start\<close> up to its cancellation: a tick at once and one per interval. Between two ticks the world
  moves on by itself; the list holds the instants of the ticks and these changes.\<close>

fun monitor_Start :: "(instant \<times> ('w \<Rightarrow> 'w)) list \<Rightarrow> 'w \<Rightarrow> 'w monitor \<Rightarrow> 'w \<times> 'w monitor \<times> notice list" where
  "monitor_Start [] w m = (w, m, [])"
| "monitor_Start ((now, f) # rest) w m =
     (let (w1, m1, ns) = monitor_tick now (f w) m; (w2, m2, ns') = monitor_Start rest w1 m1
      in (w2, m2, ns @ ns'))"

subsection \<open>The server's side\<close>

text \<open>What the server's probe reads: whether \<^verbatim>\<open>db.Ping\<close> succeeds, and what \<^verbatim>\<open>Statfs\<close> says of the
  temporary directory (free blocks and block size, both converted to signed 64-bit integers), if
  it says anything.\<close>

record server_world =
  sw_ping :: bool
  sw_statfs :: "(int \<times> int) option"

definition checkDisk :: "'a server_world_scheme \<Rightarrow> bool" where
  "checkDisk w = (case sw_statfs w of
                    None \<Rightarrow> True
                  | Some (bavail, bsize) \<Rightarrow> wrap64 (wrap64 bavail * wrap64 bsize) > 100 * 1048576)"

definition criticalCheck :: "'a server_world_scheme \<Rightarrow> bool \<times> string \<times> string" where
  "criticalCheck w =
     (if \<not> sw_ping w then (False, ReasonDatabaseConnection, ''Database connection failed'')
      else if \<not> checkDisk w then (False, ReasonFileWrite, ''Insufficient disk space for writes'')
      else (True, [], []))"

text \<open>The middleware in front of a handler \<open>next\<close>; a refusal does not call it.\<close>

definition maintenanceMiddleware ::
  "'w monitor option \<Rightarrow> (http_request \<Rightarrow> 's \<Rightarrow> reply \<times> 's) \<Rightarrow> http_request \<Rightarrow> 's \<Rightarrow> reply \<times> 's" where
  "maintenanceMiddleware mo next_handler r s =
     (case mo of
        None \<Rightarrow> next_handler r s
      | Some m \<Rightarrow>
          if \<not> InMaintenance m then next_handler r s
          else if rq_method r \<noteq> ''POST'' \<and> rq_method r \<noteq> ''PUT'' \<and> rq_method r \<noteq> ''PATCH'' \<and> rq_method r \<noteq> ''DELETE''
          then next_handler r s
          else let snap = monitor_Snapshot m;
                   rep = writeJSON 503 (JObj
                     [(''ok'', JBool False), (''error'', JStr ''MAINTENANCE''),
                      (''message'', JStr (''Server is in maintenance mode due to: '' @ sn_Message snap)),
                      (''details'', JMap [(''reason'', JStr (sn_Reason snap)),
                                         (''self_healing'', JBool (sn_SelfHealingEnabled snap))])])
               in (rep\<lparr>rp_header := (rp_header rep)(''Retry-After'' \<mapsto> show_int (RetrySeconds snap),
                       ''X-Maintenance-Mode'' \<mapsto> ''true'', ''X-Maintenance-Reason'' \<mapsto> sn_Reason snap)\<rparr>, s))"

text \<open>The monitor the server builds.\<close>

definition server_monitor ::
  "health_config \<Rightarrow> ('a server_world_scheme \<Rightarrow> 'a server_world_scheme) \<Rightarrow> 'a server_world_scheme monitor" where
  "server_monitor cfg cleanup =
     SetNotifier True (SetCleaner (Some cleanup) (SetChecker (Some criticalCheck) (monitor_New cfg)))"

subsection \<open>What an operation keeps\<close>

lemmas monitor_defs = Enter_def Exit_def count_attempt_def tick_settle_def tick_probe_def monitor_tick_def
lemmas monitor_splits = if_splits option.splits prod.splits

lemma count_attempt_kept [simp]:
  "m_state (count_attempt now m) = m_state m" "m_reason (count_attempt now m) = m_reason m"
  "m_message (count_attempt now m) = m_message m" "m_since (count_attempt now m) = m_since m"
  "m_selfHealing (count_attempt now m) = m_selfHealing m" "m_checker (count_attempt now m) = m_checker m"
  "m_notifier (count_attempt now m) = m_notifier m" "m_notifyOnEnter (count_attempt now m) = m_notifyOnEnter m"
  "m_notifyOnExit (count_attempt now m) = m_notifyOnExit m" "m_retryInterval (count_attempt now m) = m_retryInterval m"
  "m_maxAttempts (count_attempt now m) = m_maxAttempts m"
  by (simp_all add: count_attempt_def)

text \<open>The settings of a monitor, which no probe and no transition changes.\<close>

definition settings :: "'w monitor \<Rightarrow> bool \<times> duration \<times> int \<times> bool \<times> bool \<times> bool \<times> 'w checker option" where
  "settings m = (m_selfHealing m, m_retryInterval m, m_maxAttempts m, m_notifyOnEnter m, m_notifyOnExit m,
     m_notifier m, m_checker m)"

lemma settings_kept:
  "settings (fst (Enter now reason message m)) = settings m"
  "settings (fst (Exit m)) = settings m"
  "settings (fst (tick_settle now p m)) = settings m"
  by (auto simp: settings_def monitor_defs Let_def split: monitor_splits)

lemma settings_tick: "settings (fst (snd (monitor_tick now w m))) = settings m"
  by (simp add: monitor_tick_def settings_kept split: prod.split option.split)

text \<open>An unregistered checker disables the monitor; a registered one decides the next state.\<close>

lemma tick_decides:
  assumes "m_selfHealing m" "m_checker m = Some c"
  shows "InMaintenance (fst (snd (monitor_tick now w m))) \<longleftrightarrow> \<not> fst (c (fst (monitor_tick now w m)))"
  using assms by (auto simp: InMaintenance_def monitor_defs Let_def split: monitor_splits)

lemma tick_maintenance_stuck:
  assumes "\<not> m_selfHealing m" "InMaintenance m"
  shows "snd (monitor_tick now w m) = (m, [])"
  using assms by (auto simp: InMaintenance_def monitor_defs Let_def split: monitor_splits)

lemma Start_decides:
  assumes "m_selfHealing m" "m_checker m = Some c" "ts \<noteq> []"
  shows "InMaintenance (fst (snd (monitor_Start ts w m))) \<longleftrightarrow> \<not> fst (c (fst (monitor_Start ts w m)))"
  using assms
proof (induction ts arbitrary: w m)
  case (Cons t rest)
  obtain now f where t: "t = (now, f)" by fastforce
  obtain w1 m1 ns where k: "monitor_tick now (f w) m = (w1, m1, ns)" by (cases "monitor_tick now (f w) m")
  have s: "m_selfHealing m1" "m_checker m1 = Some c"
    using settings_tick[of now "f w" m] Cons.prems(1,2) by (auto simp: k settings_def)
  show ?case
  proof (cases "rest = []")
    case True
    then show ?thesis using tick_decides[OF Cons.prems(1,2), of now "f w"] by (simp add: k t)
  next
    case False
    from Cons.IH[OF s False, of w1] show ?thesis
      by (cases "monitor_Start rest w1 m1") (simp add: k t)
  qed
qed simp

lemma Start_stuck:
  assumes "\<not> m_selfHealing m" "InMaintenance m"
  shows "snd (monitor_Start ts w m) = (m, [])"
proof (induction ts arbitrary: w)
  case (Cons t rest)
  show ?case using tick_maintenance_stuck[OF assms, of "fst t" "snd t w"] Cons
    by (cases t) (auto split: prod.splits, (metis snd_conv prod.inject)+)
qed simp

lemma RetrySeconds_pos: "1 \<le> RetrySeconds s"
  by (simp add: RetrySeconds_def Let_def)

lemma middleware_passes: "\<not> InMaintenance m \<Longrightarrow> maintenanceMiddleware (Some m) h r s = h r s"
  by (simp add: maintenanceMiddleware_def)

lemma middleware_refuses:
  assumes "InMaintenance m" "rq_method r \<in> {''POST'', ''PUT'', ''PATCH'', ''DELETE''}"
  shows "snd (maintenanceMiddleware (Some m) h r s) = s"
    "rp_status (fst (maintenanceMiddleware (Some m) h r s)) = 503"
    "rp_header (fst (maintenanceMiddleware (Some m) h r s)) ''Retry-After'' = Some (show_int (RetrySeconds (monitor_Snapshot m)))"
  using assms by (auto simp: maintenanceMiddleware_def Let_def writeJSON_def)

text \<open>Whatever the number of attempts is configured to, probing and recovery go on: the cap stops the
  counter alone.\<close>

lemma attempt_cap_has_no_effect:
  assumes "hc_SelfHealingEnabled cfg" "ts \<noteq> []"
    and "monitor_Start ts w (server_monitor cfg cleanup) = (w', m, ns)"
    and "rq_method r \<in> {''POST'', ''PUT'', ''PATCH'', ''DELETE''}"
  shows "if sw_ping w' \<and> checkDisk w' then maintenanceMiddleware (Some m) h r s = h r s
    else rp_status (fst (maintenanceMiddleware (Some m) h r s)) = 503 \<and>
      snd (maintenanceMiddleware (Some m) h r s) = s \<and>
      (\<exists>n \<ge> 1. rp_header (fst (maintenanceMiddleware (Some m) h r s)) ''Retry-After'' = Some (show_int n))"
proof -
  have "InMaintenance m \<longleftrightarrow> \<not> (sw_ping w' \<and> checkDisk w')"
    using Start_decides[of "server_monitor cfg cleanup" criticalCheck ts w] assms(1-3)
    by (auto simp: server_monitor_def SetNotifier_def SetCleaner_def SetChecker_def monitor_New_def criticalCheck_def)
  then show ?thesis
    using middleware_passes[of m h r s] middleware_refuses[OF _ assms(4), of m h s]
      RetrySeconds_pos[of "monitor_Snapshot m"] by auto
qed

text \<open>C21: With self-healing on and its attempts unlimited (the default), after any number of probes, at
  least one, the server refuses a write exactly when the last probe found a critical system failing,
  whatever happened before and how often it failed: a failing database or disk answers every POST, PUT, PATCH
  and DELETE with 503 and a positive \<^verbatim>\<open>Retry-After\<close> and leaves the state as it was, and one passing
  probe lets the writes through to the handler.\<close>

theorem writes_refused_while_unhealthy:
  assumes "hc_SelfHealingEnabled cfg" "hc_MaxAttempts cfg = 0" "ts \<noteq> []"
    and "monitor_Start ts w (server_monitor cfg cleanup) = (w', m, ns)"
    and "rq_method r \<in> {''POST'', ''PUT'', ''PATCH'', ''DELETE''}"
  shows "if sw_ping w' \<and> checkDisk w' then maintenanceMiddleware (Some m) h r s = h r s
    else rp_status (fst (maintenanceMiddleware (Some m) h r s)) = 503 \<and>
      snd (maintenanceMiddleware (Some m) h r s) = s \<and>
      (\<exists>n \<ge> 1. rp_header (fst (maintenanceMiddleware (Some m) h r s)) ''Retry-After'' = Some (show_int n))"
  using attempt_cap_has_no_effect[OF assms(1,3,4,5)] .

definition sample_config :: health_config where
  "sample_config = \<lparr>hc_SelfHealingEnabled = True, hc_RetryInterval = 0, hc_MaxAttempts = 1,
     hc_NotifyOnEnter = True, hc_NotifyOnExit = True\<rparr>"

definition sample_post :: http_request where
  "sample_post = \<lparr>rq_method = ''POST'', rq_path = ''/'', rq_txt = False, rq_tls = False, rq_host = [],
     rq_header = (\<lambda>_. []), rq_query = Map.empty, rq_body = [], rq_maxbytes = None, rq_form = None\<rparr>"

definition db_down :: "server_world \<Rightarrow> server_world" where "db_down w = w\<lparr>sw_ping := False\<rparr>"

lemma writes_refused_while_unhealthy_witness:
  "let (w, m, ns) = monitor_Start [(1, db_down), (2, \<lambda>w. w), (3, \<lambda>w. w)]
       \<lparr>sw_ping = True, sw_statfs = None\<rparr> (server_monitor (sample_config\<lparr>hc_MaxAttempts := 0\<rparr>) (\<lambda>w. w))
   in rp_status (fst (maintenanceMiddleware (Some m) (\<lambda>r s. (writeJSON 201 NoBody, s + 1)) sample_post (0 :: nat))) = 503"
proof -
  let ?go = "monitor_Start [(1, db_down), (2, \<lambda>w. w), (3, \<lambda>w. w)]
       \<lparr>sw_ping = True, sw_statfs = None\<rparr> (server_monitor (sample_config\<lparr>hc_MaxAttempts := 0\<rparr>) (\<lambda>w. w))"
  obtain w m ns where go: "?go = (w, m, ns)" by (cases ?go)
  have "\<not> sw_ping (fst ?go)" by code_simp
  then have "\<not> sw_ping w" by (metis go fst_conv)
  with writes_refused_while_unhealthy[OF _ _ _ go, of sample_post "\<lambda>r s. (writeJSON 201 NoBody, s + 1)" "0 :: nat"]
  have "rp_status (fst (maintenanceMiddleware (Some m) (\<lambda>r s. (writeJSON 201 NoBody, s + 1)) sample_post (0 :: nat))) = 503"
    by (simp add: sample_config_def sample_post_def)
  then show ?thesis by (simp only: Let_def go prod.case)
qed

subsection \<open>Transitions and notices\<close>

text \<open>The monitor with the probe that is under way, if any. \<^verbatim>\<open>Enter\<close> and \<^verbatim>\<open>Exit\<close> are exported: they may
  come between the two halves of a probe.\<close>

inductive monitor_step ::
  "'w monitor \<times> probe option \<Rightarrow> notice list \<Rightarrow> 'w monitor \<times> probe option \<Rightarrow> bool" where
  ms_probe: "tick_probe w m = (w', po) \<Longrightarrow> monitor_step (m, None) [] (m, po)"
| ms_settle: "tick_settle now p m = (m', ns) \<Longrightarrow> now \<noteq> zero_time \<Longrightarrow> monitor_step (m, Some p) ns (m', None)"
| ms_enter: "Enter now reason message m = (m', ns) \<Longrightarrow> now \<noteq> zero_time \<Longrightarrow> monitor_step (m, po) ns (m', po)"
| ms_exit: "Exit m = (m', ns) \<Longrightarrow> monitor_step (m, po) ns (m', po)"

inductive monitor_run ::
  "'w monitor \<times> probe option \<Rightarrow> notice list \<Rightarrow> 'w monitor \<times> probe option \<Rightarrow> bool" where
  mr_done: "monitor_run s [] s"
| mr_step: "monitor_run s ns s' \<Longrightarrow> monitor_step s' ns' s'' \<Longrightarrow> monitor_run s (ns @ ns') s''"

text \<open>What the monitor promises to its observers: entering and leaving alternate.\<close>

fun notice_run :: "bool \<Rightarrow> notice list \<Rightarrow> bool option" where
  "notice_run b [] = Some b"
| "notice_run False (EnterNotice s # ns) = notice_run True ns"
| "notice_run True (ExitNotice s # ns) = notice_run False ns"
| "notice_run b (n # ns) = None"

lemma notice_run_append:
  "notice_run b (ns @ ns') = (case notice_run b ns of None \<Rightarrow> None | Some b' \<Rightarrow> notice_run b' ns')"
  by (induction b ns rule: notice_run.induct) simp_all

definition notifies :: "'w monitor \<Rightarrow> bool" where
  "notifies m \<longleftrightarrow> m_notifier m \<and> m_notifyOnEnter m \<and> m_notifyOnExit m"

lemma notifies_settings: "settings m' = settings m \<Longrightarrow> notifies m' = notifies m"
  by (simp add: settings_def notifies_def)

lemma step_settings: "monitor_step s ns s' \<Longrightarrow> settings (fst s') = settings (fst s)"
  by (induction rule: monitor_step.induct) (metis fst_conv settings_kept)+

lemma Enter_notices:
  "notifies m \<Longrightarrow> notice_run (InMaintenance m) (snd (Enter now reason message m)) =
     Some (InMaintenance (fst (Enter now reason message m)))"
  by (simp add: Enter_def Let_def notifies_def InMaintenance_def)

lemma Exit_notices:
  "notifies m \<Longrightarrow> notice_run (InMaintenance m) (snd (Exit m)) = Some (InMaintenance (fst (Exit m)))"
  by (simp add: Exit_def Let_def notifies_def InMaintenance_def)

lemma notifies_count [simp]: "notifies (count_attempt now m) = notifies m"
  by (simp add: notifies_def)

lemma InMaintenance_count [simp]: "InMaintenance (count_attempt now m) = InMaintenance m"
  by (simp add: InMaintenance_def)

lemma settle_notices:
  assumes "notifies m"
  shows "notice_run (InMaintenance m) (snd (tick_settle now p m)) = Some (InMaintenance (fst (tick_settle now p m)))"
  using Exit_notices[of "count_attempt now m"] Enter_notices[OF assms] assms
  by (auto simp: tick_settle_def Let_def split: prod.split) (auto simp: InMaintenance_def)

lemma step_notices:
  "monitor_step s ns s' \<Longrightarrow> notifies (fst s) \<Longrightarrow>
     notice_run (InMaintenance (fst s)) ns = Some (InMaintenance (fst s'))"
proof (induction rule: monitor_step.induct)
  case (ms_settle now p m m' ns)
  then show ?case using settle_notices[of m now p] by simp
next
  case (ms_enter now reason message m m' ns po)
  then show ?case using Enter_notices[of m now reason message] by simp
next
  case (ms_exit m m' ns po)
  then show ?case using Exit_notices[of m] by simp
qed simp

text \<open>An exit notice is built after the reason has been cleared.\<close>

definition notice_ok :: "notice \<Rightarrow> bool" where
  "notice_ok n = (case n of
     EnterNotice s \<Rightarrow> sn_State s = StateMaintenance \<and> sn_Attempts s = 0 \<and>
       sn_NextAttempt s = sn_Since s + sn_RetryInterval s
   | ExitNotice s \<Rightarrow> sn_State s = StateNormal \<and> sn_Reason s = [] \<and> sn_Message s = [])"

lemma step_notice_ok: "monitor_step s ns s' \<Longrightarrow> \<forall>n \<in> set ns. notice_ok n"
  by (induction rule: monitor_step.induct)
    (auto simp: tick_settle_def Enter_def Exit_def Let_def notice_ok_def monitor_Snapshot_def split: if_splits prod.splits)

text \<open>The notices of any run of the monitor, with \<^verbatim>\<open>Enter\<close> and \<^verbatim>\<open>Exit\<close> called at any moment,
  also between the halves of a probe, alternate: one on entering, one on leaving, none while the
  mode stays; the mode at the end is the one the last notice announces. A notice on entering
  carries the schedule of the first attempt. A notice on leaving never says what the outage was:
  reason and message are cleared before the snapshot is taken.\<close>

theorem notices_alternate:
  assumes "monitor_run (m, None) ns (m', po)" "notifies m"
  shows "notice_run (InMaintenance m) ns = Some (InMaintenance m') \<and> (\<forall>n \<in> set ns. notice_ok n)"
proof -
  have "notifies (fst s') \<and> notice_run (InMaintenance (fst s)) ns = Some (InMaintenance (fst s')) \<and>
      (\<forall>n \<in> set ns. notice_ok n)"
    if "monitor_run s ns s'" "notifies (fst s)" for s :: "'a monitor \<times> probe option" and ns s'
    using that
  proof (induction rule: monitor_run.induct)
    case (mr_step s ns s' ns' s'')
    then show ?case
      using step_notices[OF mr_step(2)] step_notice_ok[OF mr_step(2)] notifies_settings[OF step_settings[OF mr_step(2)]]
      by (auto simp: notice_run_append)
  qed simp
  from this[OF assms(1)] assms(2) show ?thesis by simp
qed

definition sample_monitor :: "server_world monitor" where
  "sample_monitor = SetNotifier True (monitor_New sample_config)"

lemma notices_alternate_witness:
  "notice_run False (snd (Enter 5 ReasonFileWrite ''full'' sample_monitor) @ snd (Exit (fst (Enter 5 ReasonFileWrite ''full'' sample_monitor)))) =
    Some False"
proof -
  let ?e = "Enter 5 ReasonFileWrite ''full'' sample_monitor"
  have "monitor_step (sample_monitor, None) (snd ?e) (fst ?e, None)"
    by (rule ms_enter[of 5 ReasonFileWrite "''full''"]) (simp_all add: zero_time_def)
  moreover have "monitor_step (fst ?e, None) (snd (Exit (fst ?e))) (fst (Exit (fst ?e)), None)"
    by (rule ms_exit) simp
  ultimately have "monitor_run (sample_monitor, None) (snd ?e @ snd (Exit (fst ?e))) (fst (Exit (fst ?e)), None)"
    using mr_step[OF mr_step[OF mr_done]] by (metis append_Nil)
  moreover have "notifies sample_monitor" by (simp add: sample_monitor_def SetNotifier_def monitor_New_def notifies_def sample_config_def)
  moreover have "\<not> InMaintenance sample_monitor" by (simp add: sample_monitor_def SetNotifier_def monitor_New_def InMaintenance_def)
  moreover have "\<not> InMaintenance (fst (Exit (fst ?e)))" by (simp add: Exit_def Let_def InMaintenance_def)
  ultimately show ?thesis using notices_alternate by fastforce
qed

end
