(* ===== verification/Go_Path.thy ===== *)
theory Go_Path
  imports Pastebin_Prelude
begin

section \<open>Slash-separated paths\<close>

text \<open>
  The lexical functions of the packages \<^verbatim>\<open>path\<close> and, on Unix, \<^verbatim>\<open>path/filepath\<close> that the sources
  call. \<^verbatim>\<open>Clean\<close> works on the elements between slashes with a stack: empty elements and
  \<^verbatim>\<open>.\<close> vanish, \<^verbatim>\<open>..\<close> takes back the element before it, or vanishes at the root. The lemmas show
  that a cleaned rooted path has no element left that a file system would interpret, which
  is what the guards against path traversal rest on.
\<close>

fun clean_step :: "bool \<Rightarrow> string list \<Rightarrow> string \<Rightarrow> string list" where
  "clean_step rooted stk c =
     (if c = [] \<or> c = ''.'' then stk
      else if c = ''..'' then
        (case stk of
           [] \<Rightarrow> if rooted then [] else [c]
         | x # xs \<Rightarrow> if x = ''..'' then c # stk else xs)
      else c # stk)"

definition clean_elems :: "bool \<Rightarrow> string \<Rightarrow> string list" where
  "clean_elems rooted p = rev (foldl (clean_step rooted) [] (split_on CHR ''/'' p))"

definition Clean :: "string \<Rightarrow> string" where
  "Clean p =
     (if p = [] then ''.''
      else if has_prefix p ''/'' then CHR ''/'' # join CHR ''/'' (clean_elems True p)
      else let out = join CHR ''/'' (clean_elems False p) in if out = [] then ''.'' else out)"

definition path_Join :: "string list \<Rightarrow> string" where
  "path_Join es = (case dropWhile (\<lambda>e. e = []) es of [] \<Rightarrow> [] | xs \<Rightarrow> Clean (join CHR ''/'' xs))"

definition path_Base :: "string \<Rightarrow> string" where
  "path_Base p =
     (if p = [] then ''.''
      else let q = after_last CHR ''/'' (trim_right_char CHR ''/'' p) in if q = [] then ''/'' else q)"

subsection \<open>Elements\<close>

definition plain_elem :: "string \<Rightarrow> bool" where
  "plain_elem c \<longleftrightarrow> c \<noteq> [] \<and> c \<noteq> ''.'' \<and> c \<noteq> ''..'' \<and> CHR ''/'' \<notin> set c"

abbreviation rooted_path :: "string list \<Rightarrow> string" where
  "rooted_path xs \<equiv> CHR ''/'' # join CHR ''/'' xs"

text \<open>A cleaned absolute directory other than the root.\<close>

definition clean_dir :: "string \<Rightarrow> bool" where
  "clean_dir d \<longleftrightarrow> (\<exists>xs. xs \<noteq> [] \<and> list_all plain_elem xs \<and> d = rooted_path xs)"

text \<open>A path below a directory, with no element that leads out of it.\<close>

definition below :: "string \<Rightarrow> string \<Rightarrow> bool" where
  "below d p \<longleftrightarrow> (\<exists>xs. xs \<noteq> [] \<and> list_all plain_elem xs \<and> p = d @ rooted_path xs)"

lemma split_on_not_Nil [simp]: "split_on c s \<noteq> []"
  by (induction s) (auto split: list.split)

lemma split_on_elems: "x \<in> set (split_on c s) \<Longrightarrow> c \<notin> set x"
  by (induction s arbitrary: x) (auto split: list.splits if_splits)

lemma join_split_on [simp]: "join c (split_on c s) = s"
proof (induction s)
  case (Cons a s)
  obtain y ys where "split_on c s = y # ys" by (meson list.exhaust split_on_not_Nil)
  with Cons show ?case by (cases ys) auto
qed simp

lemma split_on_append: "split_on c (a @ c # b) = split_on c a @ split_on c b"
proof (induction a)
  case (Cons x a)
  obtain y ys where "split_on c a = y # ys" by (meson list.exhaust split_on_not_Nil)
  with Cons show ?case by simp
qed simp

lemma join_append: "xs \<noteq> [] \<Longrightarrow> ys \<noteq> [] \<Longrightarrow> join c (xs @ ys) = join c xs @ c # join c ys"
proof (induction c xs rule: join.induct)
  case (2 c x)
  then show ?case by (cases ys) auto
qed auto

lemma plain_split: "list_all plain_elem xs \<Longrightarrow> xs \<noteq> [] \<Longrightarrow> split_on CHR ''/'' (join CHR ''/'' xs) = xs"
  by (rule split_on_join) (auto simp: list_all_iff plain_elem_def)

lemma clean_step_plain [simp]: "plain_elem c \<Longrightarrow> clean_step r stk c = c # stk"
  by (auto simp: plain_elem_def)

lemma foldl_clean_plain: "list_all plain_elem xs \<Longrightarrow> foldl (clean_step r) stk xs = rev xs @ stk"
  by (induction xs arbitrary: stk) (simp_all del: clean_step.simps)

lemma foldl_clean_rooted:
  "list_all plain_elem stk \<Longrightarrow> \<forall>x \<in> set cs. CHR ''/'' \<notin> set x \<Longrightarrow> list_all plain_elem (foldl (clean_step True) stk cs)"
proof (induction cs arbitrary: stk)
  case (Cons c cs)
  have "list_all plain_elem (clean_step True stk c)"
    using Cons.prems by (auto simp: list_all_iff plain_elem_def split: list.split)
  with Cons show ?case by (simp del: clean_step.simps)
qed simp

lemma clean_elems_plain: "list_all plain_elem (clean_elems True p)"
proof -
  have "list_all plain_elem (foldl (clean_step True) [] (split_on CHR ''/'' p))"
    by (rule foldl_clean_rooted) (auto dest: split_on_elems)
  then show ?thesis by (simp add: clean_elems_def list_all_iff)
qed

lemma Clean_rooted: "has_prefix p ''/'' \<Longrightarrow> Clean p = rooted_path (clean_elems True p)"
  by (auto simp: Clean_def has_prefix_def)

lemma clean_elems_dir: "list_all plain_elem xs \<Longrightarrow> xs \<noteq> [] \<Longrightarrow> clean_elems True (rooted_path xs) = xs"
  using foldl_clean_plain[of xs True "[]"] by (simp add: clean_elems_def plain_split del: foldl_Cons) simp

text \<open>Cleaning is idempotent on rooted paths.\<close>

lemma Clean_Clean: "has_prefix p ''/'' \<Longrightarrow> Clean (Clean p) = Clean p"
proof -
  assume p: "has_prefix p ''/''"
  let ?xs = "clean_elems True p"
  have "clean_elems True (rooted_path ?xs) = ?xs"
    using clean_elems_dir[OF clean_elems_plain, of p] by (cases "?xs = []") (auto simp: clean_elems_def)
  then show ?thesis using p by (simp add: Clean_rooted) (simp add: Clean_rooted has_prefix_def)
qed

subsection \<open>Staying below a directory\<close>

lemma path_Join_two: "d \<noteq> [] \<Longrightarrow> path_Join [d, r] = Clean (d @ CHR ''/'' # r)"
  by (simp add: path_Join_def)

lemma has_prefix_iff: "has_prefix s p \<longleftrightarrow> (\<exists>t. s = p @ t)"
  by (metis append_eq_conv_conj append_take_drop_id has_prefix_def)

lemma Join_below:
  assumes "list_all plain_elem xs" "xs \<noteq> []" "clean_dir d"
  shows "path_Join [d, join CHR ''/'' xs] = d @ rooted_path xs"
proof -
  obtain ys where ys: "ys \<noteq> []" "list_all plain_elem ys" "d = rooted_path ys" using assms(3) by (auto simp: clean_dir_def)
  have "d @ CHR ''/'' # join CHR ''/'' xs = rooted_path (ys @ xs)"
    using ys assms(2) by (simp add: join_append)
  moreover have "clean_elems True (rooted_path (ys @ xs)) = ys @ xs"
    using ys assms by (intro clean_elems_dir) simp_all
  ultimately have "Clean (d @ CHR ''/'' # join CHR ''/'' xs) = rooted_path (ys @ xs)"
    using Clean_rooted[of "rooted_path (ys @ xs)"] by (simp add: has_prefix_def)
  then show ?thesis using ys assms(2) by (simp add: path_Join_two join_append)
qed

lemma Join_relative:
  assumes "list_all plain_elem xs" "xs \<noteq> []" "plain_elem d"
  shows "path_Join [d, join CHR ''/'' xs] = d @ CHR ''/'' # join CHR ''/'' xs"
proof -
  have ds: "list_all plain_elem (d # xs)" using assms by simp
  have e: "d @ CHR ''/'' # join CHR ''/'' xs = join CHR ''/'' (d # xs)"
    using assms(2) by (cases xs) simp_all
  have "clean_elems False (join CHR ''/'' (d # xs)) = d # xs"
    unfolding clean_elems_def using plain_split[OF ds] foldl_clean_plain[OF ds, of False "[]"] by simp
  moreover have "d \<noteq> []" "\<not> has_prefix (d @ CHR ''/'' # join CHR ''/'' xs) ''/''"
    using assms(3) by (cases d, auto simp: plain_elem_def has_prefix_def)+
  moreover have "join CHR ''/'' (d # xs) \<noteq> []" using e by (metis append_is_Nil_conv list.distinct(1))
  ultimately show ?thesis by (simp add: path_Join_two Clean_def e Let_def)
qed

text \<open>What is left of a cleaned path after a cleaned directory is made of plain elements.\<close>

lemma rest_plain:
  assumes "list_all plain_elem ps" "ps \<noteq> []" "rooted_path ps = d @ CHR ''/'' # r"  "d \<noteq> []"
  shows "list_all plain_elem (split_on CHR ''/'' r)"
proof -
  obtain y ys where y: "split_on CHR ''/'' d = y # ys" by (meson list.exhaust split_on_not_Nil)
  have "split_on CHR ''/'' d @ split_on CHR ''/'' r = [] # ps"
    using assms(3) split_on_append[of "CHR ''/''" d r] plain_split[OF assms(1,2)] by (metis split_on.simps(2))
  then have "ps = ys @ split_on CHR ''/'' r" by (simp add: y)
  with assms(1) show ?thesis by simp
qed

lemma guarded_below:
  assumes "has_prefix d ''/''" "has_prefix (path_Join [d, r]) (d @ ''/'')"
  shows "below d (path_Join [d, r])"
proof -
  let ?p = "d @ CHR ''/'' # r"
  have d: "d \<noteq> []" using assms(1) by (auto simp: has_prefix_def)
  have c: "path_Join [d, r] = rooted_path (clean_elems True ?p)"
    using d assms(1) by (subst path_Join_two, simp, subst Clean_rooted) (auto simp: has_prefix_iff)
  obtain t where t: "rooted_path (clean_elems True ?p) = d @ CHR ''/'' # t"
    using assms(2) unfolding c has_prefix_iff by auto
  have ne: "clean_elems True ?p \<noteq> []" using t assms(1) by (auto simp: has_prefix_iff)
  have "list_all plain_elem (split_on CHR ''/'' t)" using rest_plain[OF clean_elems_plain ne t d] .
  then show ?thesis
    unfolding below_def c t by (intro exI[of _ "split_on CHR ''/'' t"]) simp
qed

end
