(* ===== verification/Backup_Archive.thy ===== *)
theory Backup_Archive
  imports Go_Path Go_Stdlib
begin

section \<open>Backup archives\<close>

text \<open>
  \<^verbatim>\<open>Backup\<close>, \<^verbatim>\<open>VerifyBackup\<close> and \<^verbatim>\<open>Restore\<close> of \<^verbatim>\<open>src/src/maintenance/maintenance.go\<close>. A file system is
  the list of its regular files, by absolute path; \<^verbatim>\<open>filepath.Walk\<close> meets the files in the order
  of the list, and nothing depends on that order. Audit events and printed lines are left out.

  The codecs are parameters: tar and gzip as one function from entries to bytes and back, the
  JSON form of the manifest, SHA-256, Argon2id and AES-256-GCM. What may fail outside the
  program (a file that cannot be read, a directory that cannot be made, a write that stops
  half-way) is part of an environment.
\<close>

subsection \<open>Files and codecs\<close>

type_synonym fs = "(string \<times> bytes) list"

definition fs_write :: "string \<Rightarrow> bytes \<Rightarrow> fs \<Rightarrow> fs" where
  "fs_write p b f = (if p \<in> fst ` set f then map (\<lambda>(q, c). if q = p then (q, b) else (q, c)) f else f @ [(p, b)])"

definition fs_remove :: "string \<Rightarrow> fs \<Rightarrow> fs" where
  "fs_remove p f = filter (\<lambda>(q, c). q \<noteq> p) f"

record manifest =
  mf_Version :: string
  mf_CreatedAt :: string
  mf_AppVersion :: string
  mf_CreatedBy :: string
  mf_Contents :: "string list"
  mf_Encrypted :: bool
  mf_EncryptionMethod :: string
  mf_Checksum :: string

text \<open>\<open>al_unpack\<close> is \<^verbatim>\<open>None\<close> when the gzip header is refused; otherwise the entries that can be
  read, and whether the archive ends after them without an error.\<close>

record arclib =
  al_sha256 :: "bytes \<Rightarrow> bytes"
  al_pack :: "(string \<times> bytes) list \<Rightarrow> bytes option"
  al_unpack :: "bytes \<Rightarrow> ((string \<times> bytes) list \<times> bool) option"
  al_manifest_enc :: "manifest \<Rightarrow> bytes"
  al_manifest_dec :: "bytes \<Rightarrow> manifest option"
  al_argon2 :: "string \<Rightarrow> bytes \<Rightarrow> bytes"
  al_seal :: "bytes \<Rightarrow> bytes \<Rightarrow> bytes \<Rightarrow> bytes"
  al_open :: "bytes \<Rightarrow> bytes \<Rightarrow> bytes \<Rightarrow> bytes option"

subsection \<open>Encryption\<close>

text \<open>Salt and nonce come from \<^verbatim>\<open>rand.Read\<close>, which may fail.\<close>

definition encrypt :: "arclib \<Rightarrow> bytes option \<Rightarrow> bytes option \<Rightarrow> bytes \<Rightarrow> string \<Rightarrow> bytes option" where
  "encrypt L rsalt rnonce plaintext password =
     (case rsalt of
        None \<Rightarrow> None
      | Some salt \<Rightarrow>
          (case rnonce of
             None \<Rightarrow> None
           | Some nonce \<Rightarrow> Some (salt @ nonce @ al_seal L (al_argon2 L password salt) nonce plaintext)))"

definition decrypt :: "arclib \<Rightarrow> bytes \<Rightarrow> string \<Rightarrow> bytes option" where
  "decrypt L data password =
     (if length data < 16 + 12 then None
      else let salt = take 16 data; key = al_argon2 L password salt;
               nonce = take 12 (drop 16 data); ciphertext = drop 28 data
           in al_open L key nonce ciphertext)"

subsection \<open>Creating a backup\<close>

record backup_options =
  bo_ConfigDir :: string
  bo_DataDir :: string
  bo_BackupDir :: string
  bo_AppVersion :: string
  bo_Password :: string
  bo_Filename :: string
  bo_ComplianceEnabled :: bool

text \<open>How \<^verbatim>\<open>os.WriteFile\<close> ends: done, refused before the file is touched, or stopped after some
  bytes.\<close>

datatype write_outcome = Written | NotOpened | Partial nat

record backup_env =
  be_mkdir :: bool
  be_timestamp :: string       \<comment> \<open>now as 2006-01-02_150405 in UTC\<close>
  be_created :: string         \<comment> \<open>now as RFC 3339 in UTC\<close>
  be_hostname :: string
  be_readable :: "string \<Rightarrow> bool"
  be_salt :: "bytes option"
  be_nonce :: "bytes option"
  be_write :: write_outcome

datatype backup_error =
  ComplianceBackupBlocked | CreatingBackupDir | Archiving string | WritingArchive | Encrypting | WritingBackup

definition backup_ext :: "string \<Rightarrow> string" where
  "backup_ext password = (if password \<noteq> [] then ''.tar.gz.enc'' else ''.tar.gz'')"

definition backup_filename :: "backup_env \<Rightarrow> backup_options \<Rightarrow> string" where
  "backup_filename e opts =
     (if bo_Filename opts = []
      then ''pastebin_backup_'' @ be_timestamp e @ backup_ext (bo_Password opts) else bo_Filename opts)"

definition addFile :: "fs \<Rightarrow> string \<Rightarrow> string \<Rightarrow> (string \<times> string) list" where
  "addFile f src name = (if map_of f src \<noteq> None then [(src, name)] else [])"

definition addDir :: "fs \<Rightarrow> string \<Rightarrow> string \<Rightarrow> (string \<times> string) list" where
  "addDir f dir pre =
     concat (map (\<lambda>p. addFile f p (path_Join [pre, drop (length dir + 1) p]))
       (filter (\<lambda>p. has_prefix p (dir @ ''/'')) (map fst f)))"

definition backup_entries :: "backup_options \<Rightarrow> fs \<Rightarrow> (string \<times> string) list" where
  "backup_entries opts f =
     addFile f (path_Join [bo_ConfigDir opts, ''server.yml'']) ''server.yml''
     @ addFile f (path_Join [bo_DataDir opts, ''db'', ''server.db'']) ''server.db''
     @ addFile f (path_Join [bo_DataDir opts, ''db'', ''users.db'']) ''users.db''
     @ addDir f (path_Join [bo_ConfigDir opts, ''template'']) ''template''
     @ addDir f (path_Join [bo_ConfigDir opts, ''theme'']) ''theme''
     @ addDir f (path_Join [bo_ConfigDir opts, ''security'']) ''security''"

definition file_bytes :: "fs \<Rightarrow> string \<Rightarrow> bytes" where
  "file_bytes f p = (case map_of f p of None \<Rightarrow> [] | Some b \<Rightarrow> b)"

definition checksum_of :: "arclib \<Rightarrow> bytes \<Rightarrow> string" where
  "checksum_of L b = ''sha256:'' @ hex_encode (al_sha256 L b)"

definition backup_manifest :: "arclib \<Rightarrow> backup_env \<Rightarrow> backup_options \<Rightarrow> fs \<Rightarrow> manifest" where
  "backup_manifest L e opts f =
     (let es = backup_entries opts f;
          content = concat (map (file_bytes f) (filter (be_readable e) (map fst es)))
      in \<lparr>mf_Version = ''1.0.0'', mf_CreatedAt = be_created e, mf_AppVersion = bo_AppVersion opts,
          mf_CreatedBy = ''apimgr/pastebin@'' @ be_hostname e, mf_Contents = map snd es,
          mf_Encrypted = (bo_Password opts \<noteq> []),
          mf_EncryptionMethod = (if bo_Password opts \<noteq> [] then ''AES-256-GCM'' else []),
          mf_Checksum = checksum_of L content\<rparr>)"

definition write_file :: "write_outcome \<Rightarrow> string \<Rightarrow> bytes \<Rightarrow> fs \<Rightarrow> fs" where
  "write_file o' p b f =
     (case o' of Written \<Rightarrow> fs_write p b f | NotOpened \<Rightarrow> f | Partial n \<Rightarrow> fs_write p (take n b) f)"

text \<open>The archive in memory, and the file it goes to.\<close>

definition backup_archive :: "arclib \<Rightarrow> backup_env \<Rightarrow> backup_options \<Rightarrow> fs \<Rightarrow> backup_error + bytes" where
  "backup_archive L e opts f =
     (let es = backup_entries opts f
      in case find (\<lambda>(src, name). \<not> be_readable e src) es of
           Some (_, name) \<Rightarrow> Inl (Archiving name)
         | None \<Rightarrow>
             (case al_pack L (map (\<lambda>(src, name). (name, file_bytes f src)) es
                        @ [(''manifest.json'', al_manifest_enc L (backup_manifest L e opts f))]) of
                None \<Rightarrow> Inl WritingArchive
              | Some archive \<Rightarrow>
                  if bo_Password opts = [] then Inr archive
                  else (case encrypt L (be_salt e) (be_nonce e) archive (bo_Password opts) of
                          None \<Rightarrow> Inl Encrypting
                        | Some sealed \<Rightarrow> Inr sealed)))"

definition backup_dest :: "backup_env \<Rightarrow> backup_options \<Rightarrow> string" where
  "backup_dest e opts = path_Join [bo_BackupDir opts, backup_filename e opts]"

definition Backup :: "arclib \<Rightarrow> backup_env \<Rightarrow> backup_options \<Rightarrow> fs \<Rightarrow> backup_error option \<times> fs" where
  "Backup L e opts f =
     (if bo_ComplianceEnabled opts \<and> bo_Password opts = [] then (Some ComplianceBackupBlocked, f)
      else if \<not> be_mkdir e then (Some CreatingBackupDir, f)
      else case backup_archive L e opts f of
             Inl err \<Rightarrow> (Some err, f)
           | Inr final \<Rightarrow>
               (if be_write e = Written then None else Some WritingBackup,
                write_file (be_write e) (backup_dest e opts) final f))"

subsection \<open>Verifying a backup\<close>

definition sqlite_magic :: bytes where
  "sqlite_magic = ''SQLite format 3'' @ [CHR 0x00]"

definition verifySQLiteMagic :: "bytes \<Rightarrow> bool" where
  "verifySQLiteMagic b \<longleftrightarrow> take 16 b = sqlite_magic"

text \<open>256 MiB: the most that is read of an entry.\<close>

definition entry_cap :: nat where "entry_cap = 268435456"

datatype verify_error =
  VFileNotFound | VEmpty | VCannotRead | VPasswordRequired | VDecryptFailed | VNotGzip | VTempDir
  | VReadEntry | VManifestInvalid | VExtract string | VDbIntegrity string | VManifestMissing | VChecksum

text \<open>The walk over the entries: the bytes hashed so far and the checksum of the manifest, once one
  was met. \<open>tmp\<close> says which names the temporary directory accepts.\<close>

fun verify_entries ::
  "arclib \<Rightarrow> (string \<Rightarrow> bool) \<Rightarrow> (string \<times> bytes) list \<Rightarrow> bytes \<Rightarrow> string option \<Rightarrow>
     verify_error + bytes \<times> string option" where
  "verify_entries L tmp [] acc mf = Inr (acc, mf)"
| "verify_entries L tmp ((name, body) # rest) acc mf =
     (if name = ''manifest.json'' then
        (case al_manifest_dec L body of
           None \<Rightarrow> Inl VManifestInvalid
         | Some m \<Rightarrow> verify_entries L tmp rest acc (Some (mf_Checksum m)))
      else if \<not> tmp (path_Base name) then Inl (VExtract name)
      else let b = take entry_cap body
           in if has_suffix name ''.db'' \<and> \<not> verifySQLiteMagic b then Inl (VDbIntegrity name)
              else verify_entries L tmp rest (acc @ b) mf)"

definition verify_archive :: "arclib \<Rightarrow> (string \<Rightarrow> bool) option \<Rightarrow> bytes \<Rightarrow> verify_error option" where
  "verify_archive L tmpdir data =
     (case al_unpack L data of
        None \<Rightarrow> Some VNotGzip
      | Some (es, complete) \<Rightarrow>
          (case tmpdir of
             None \<Rightarrow> Some VTempDir
           | Some tmp \<Rightarrow>
               (case verify_entries L tmp es [] None of
                  Inl err \<Rightarrow> Some err
                | Inr (acc, mf) \<Rightarrow>
                    if \<not> complete then Some VReadEntry
                    else (case mf of
                            None \<Rightarrow> Some VManifestMissing
                          | Some want \<Rightarrow>
                              if want \<noteq> [] \<and> want \<noteq> checksum_of L acc then Some VChecksum else None))))"

definition VerifyBackup ::
  "arclib \<Rightarrow> (string \<Rightarrow> bool) option \<Rightarrow> (string \<Rightarrow> bool) \<Rightarrow> string \<Rightarrow> string \<Rightarrow> fs \<Rightarrow> verify_error option" where
  "VerifyBackup L tmpdir readable path password f =
     (case map_of f path of
        None \<Rightarrow> Some VFileNotFound
      | Some data \<Rightarrow>
          if data = [] then Some VEmpty
          else if \<not> readable path then Some VCannotRead
          else if has_suffix (trim_suffix path ''.tmp'') ''.enc'' then
            if password = [] then Some VPasswordRequired
            else (case decrypt L data password of
                    None \<Rightarrow> Some VDecryptFailed
                  | Some plain \<Rightarrow> verify_archive L tmpdir plain)
          else verify_archive L tmpdir data)"

subsection \<open>Restoring a backup\<close>

definition restore_sub :: "string \<Rightarrow> string option" where
  "restore_sub name = find (\<lambda>d. has_prefix name (d @ ''/'')) [''template'', ''theme'', ''security'']"

definition restore_dest :: "string \<Rightarrow> string \<Rightarrow> string \<Rightarrow> string option" where
  "restore_dest configDir dataDir name =
     (if name = ''server.yml'' then Some (path_Join [configDir, ''server.yml''])
      else if name = ''server.db'' then Some (path_Join [dataDir, ''db'', ''server.db''])
      else if name = ''users.db'' then Some (path_Join [dataDir, ''db'', ''users.db''])
      else case restore_sub name of
             None \<Rightarrow> None
           | Some d \<Rightarrow>
               let base = path_Join [configDir, d];
                   candidate = path_Join [base, trim_prefix name (d @ ''/'')]
               in if candidate \<noteq> base \<and> \<not> has_prefix candidate (base @ ''/'') then None else Some candidate)"

datatype restore_error =
  RVerification verify_error | RReading | RPasswordRequired | RDecrypting | ROpeningGzip | RReadingArchive
  | RExtracting string

text \<open>\<open>wr\<close> says where a file can be created.\<close>

definition extractEntry ::
  "(string \<Rightarrow> bool) \<Rightarrow> string \<Rightarrow> string \<Rightarrow> string \<times> bytes \<Rightarrow> fs \<Rightarrow> restore_error + fs" where
  "extractEntry wr configDir dataDir en f =
     (case restore_dest configDir dataDir (fst en) of
        None \<Rightarrow> Inr f
      | Some dest \<Rightarrow>
          if \<not> wr dest then Inl (RExtracting (fst en)) else Inr (fs_write dest (take entry_cap (snd en)) f))"

fun restore_entries ::
  "(string \<Rightarrow> bool) \<Rightarrow> string \<Rightarrow> string \<Rightarrow> (string \<times> bytes) list \<Rightarrow> fs \<Rightarrow> restore_error option \<times> fs" where
  "restore_entries wr configDir dataDir [] f = (None, f)"
| "restore_entries wr configDir dataDir (en # rest) f =
     (if fst en = ''manifest.json'' then restore_entries wr configDir dataDir rest f
      else case extractEntry wr configDir dataDir en f of
             Inl err \<Rightarrow> (Some err, f)
           | Inr f' \<Rightarrow> restore_entries wr configDir dataDir rest f')"

definition restore_archive ::
  "arclib \<Rightarrow> (string \<Rightarrow> bool) \<Rightarrow> string \<Rightarrow> string \<Rightarrow> bytes \<Rightarrow> fs \<Rightarrow> restore_error option \<times> fs" where
  "restore_archive L wr configDir dataDir data f =
     (case al_unpack L data of
        None \<Rightarrow> (Some ROpeningGzip, f)
      | Some (es, complete) \<Rightarrow>
          (case restore_entries wr configDir dataDir es f of
             (Some err, f') \<Rightarrow> (Some err, f')
           | (None, f') \<Rightarrow> (if complete then None else Some RReadingArchive, f')))"

definition Restore ::
  "arclib \<Rightarrow> (string \<Rightarrow> bool) option \<Rightarrow> (string \<Rightarrow> bool) \<Rightarrow> (string \<Rightarrow> bool) \<Rightarrow> string \<Rightarrow> string \<Rightarrow> string \<Rightarrow> string \<Rightarrow>
     fs \<Rightarrow> restore_error option \<times> fs" where
  "Restore L tmpdir readable wr archivePath configDir dataDir password f =
     (case VerifyBackup L tmpdir readable archivePath password f of
        Some err \<Rightarrow> (Some (RVerification err), f)
      | None \<Rightarrow>
          (case map_of f archivePath of
             None \<Rightarrow> (Some RReading, f)
           | Some data \<Rightarrow>
               if has_suffix archivePath ''.enc'' then
                 if password = [] then (Some RPasswordRequired, f)
                 else (case decrypt L data password of
                         None \<Rightarrow> (Some RDecrypting, f)
                       | Some plain \<Rightarrow> restore_archive L wr configDir dataDir plain f)
               else restore_archive L wr configDir dataDir data f))"

end
