(* ===== verification/Backup_Roundtrip.thy ===== *)
theory Backup_Roundtrip
  imports Backup_Archive
begin

section \<open>What a backup gives back\<close>

text \<open>
  A backup that verifies restores the files it was made of; a restore of any archive, also a
  crafted one, stays inside the directories it is meant for; and a file over 256 MiB makes
  every backup fail its own verification.
\<close>

subsection \<open>Files\<close>

lemma map_of_replace:
  "map_of (map (\<lambda>(q, c). if q = p then (q, b) else (q, c)) f) q =
     (if q = p then map_option (\<lambda>_. b) (map_of f q) else map_of f q)"
  by (induction f) auto

lemma map_of_fs_write [simp]: "map_of (fs_write p b f) = (map_of f)(p \<mapsto> b)"
proof (rule ext)
  fix q
  show "map_of (fs_write p b f) q = ((map_of f)(p \<mapsto> b)) q"
  proof (cases "p \<in> fst ` set f")
    case True
    then obtain c where "map_of f p = Some c" by (meson map_of_eq_None_iff not_Some_eq)
    with True show ?thesis by (simp add: fs_write_def map_of_replace)
  next
    case False
    then have "map_of f p = None" by (simp add: map_of_eq_None_iff)
    with False show ?thesis by (simp add: fs_write_def map_add_def split: option.split)
  qed
qed

lemma map_of_fs_remove [simp]: "map_of (fs_remove p f) = (map_of f)(p := None)"
  by (induction f) (auto simp: fs_remove_def fun_eq_iff)

text \<open>Absolute cleaned paths, as the operating system reports them.\<close>

definition fs_ok :: "fs \<Rightarrow> bool" where
  "fs_ok f \<longleftrightarrow> (\<forall>p \<in> fst ` set f. clean_dir p)"

text \<open>What the packages document: a tar archive reads back as the entries written, a manifest decodes
  to what was encoded, and AES-GCM opens what it sealed with the same key and nonce.\<close>

definition codec_ok :: "arclib \<Rightarrow> bool" where
  "codec_ok L \<longleftrightarrow>
     (\<forall>es a. al_pack L es = Some a \<longrightarrow> a \<noteq> [] \<and> al_unpack L a = Some (es, True)) \<and>
     (\<forall>m. al_manifest_dec L (al_manifest_enc L m) = Some m) \<and>
     (\<forall>k n p. al_open L k n (al_seal L k n p) = Some p)"

lemma decrypt_encrypt:
  assumes "codec_ok L" "encrypt L (Some salt) (Some nonce) p pw = Some c" "length salt = 16" "length nonce = 12"
  shows "decrypt L c pw = Some p \<and> c \<noteq> []"
  using assms by (auto simp: encrypt_def decrypt_def codec_ok_def)

text \<open>What a backup has to find for its verification to succeed: readable files of at most 256 MiB,
  databases with the SQLite header, temporary files that can be created.\<close>

definition backup_ready :: "(string \<Rightarrow> bool) \<Rightarrow> backup_options \<Rightarrow> fs \<Rightarrow> bool" where
  "backup_ready tmp opts f \<longleftrightarrow> fs_ok f \<and> clean_dir (bo_ConfigDir opts) \<and>
     (\<forall>(src, name) \<in> set (backup_entries opts f). length (file_bytes f src) \<le> entry_cap \<and> tmp (path_Base name) \<and>
        (has_suffix name ''.db'' \<longrightarrow> verifySQLiteMagic (file_bytes f src)))"

definition random_ok :: "backup_env \<Rightarrow> bool" where
  "random_ok e \<longleftrightarrow> (\<forall>salt. be_salt e = Some salt \<longrightarrow> length salt = 16) \<and> (\<forall>nonce. be_nonce e = Some nonce \<longrightarrow> length nonce = 12)"

definition extension_ok :: "backup_env \<Rightarrow> backup_options \<Rightarrow> bool" where
  "extension_ok e opts \<longleftrightarrow> has_suffix (backup_dest e opts) ''.enc'' = (bo_Password opts \<noteq> []) \<and>
     \<not> has_suffix (backup_dest e opts) ''.tmp''"

subsection \<open>A codec with these laws\<close>

text \<open>Lengths in unary, the bytes as they are: a stand-in for tar, gzip and JSON on which the properties
  can be evaluated, with a digest and a cipher that change nothing.\<close>

definition chunk :: "bytes \<Rightarrow> bytes" where
  "chunk s = replicate (length s) CHR ''a'' @ CHR ''b'' # s"

definition unchunk :: "bytes \<Rightarrow> bytes \<times> bytes" where
  "unchunk s = (let n = length (takeWhile (\<lambda>c. c = CHR ''a'') s); r = drop (Suc n) s in (take n r, drop n r))"

fun chunks :: "(string \<times> bytes) list \<Rightarrow> bytes" where
  "chunks [] = ''e''"
| "chunks ((n, b) # es) = chunk n @ chunk b @ chunks es"

fun unchunks :: "nat \<Rightarrow> bytes \<Rightarrow> (string \<times> bytes) list option" where
  "unchunks 0 s = None"
| "unchunks (Suc k) s =
     (if s = ''e'' then Some []
      else let (n, r) = unchunk s; (b, r') = unchunk r in map_option ((#) (n, b)) (unchunks k r'))"

lemma unchunk_chunk [simp]: "unchunk (chunk x @ r) = (x, r)"
proof -
  have "takeWhile (\<lambda>c. c = CHR ''a'') (replicate n CHR ''a'' @ CHR ''b'' # y) = replicate n CHR ''a''" for n y
    by (induction n) simp_all
  then show ?thesis by (simp add: chunk_def unchunk_def Let_def)
qed

lemma chunk_first: "chunk x @ r \<noteq> ''e''"
  by (cases x) (simp_all add: chunk_def)

lemma unchunks_chunks: "length es < k \<Longrightarrow> unchunks k (chunks es) = Some es"
proof (induction es arbitrary: k)
  case Nil
  then show ?case by (cases k) simp_all
next
  case (Cons e es)
  then show ?case using chunk_first by (cases k; cases e) simp_all
qed

lemma length_chunks: "length es < length (chunks es)"
  by (induction es rule: chunks.induct) (simp_all add: chunk_def)

definition manifest_rows :: "manifest \<Rightarrow> (string \<times> bytes) list" where
  "manifest_rows m = [(mf_Version m, mf_CreatedAt m), (mf_AppVersion m, mf_CreatedBy m),
     (if mf_Encrypted m then ''1'' else [], mf_EncryptionMethod m), (mf_Checksum m, [])]
     @ map (\<lambda>c. (c, [])) (mf_Contents m)"

fun rows_manifest :: "(string \<times> bytes) list option \<Rightarrow> manifest option" where
  "rows_manifest (Some ((v, c) # (a, b) # (e, m) # (s, _) # rest)) =
     Some \<lparr>mf_Version = v, mf_CreatedAt = c, mf_AppVersion = a, mf_CreatedBy = b, mf_Contents = map fst rest,
       mf_Encrypted = (e \<noteq> []), mf_EncryptionMethod = m, mf_Checksum = s\<rparr>"
| "rows_manifest _ = None"

definition plain_codec :: arclib where
  "plain_codec = \<lparr>al_sha256 = (\<lambda>b. b), al_pack = (\<lambda>es. Some (chunks es)),
     al_unpack = (\<lambda>a. map_option (\<lambda>es. (es, True)) (unchunks (length a) a)),
     al_manifest_enc = (\<lambda>m. chunks (manifest_rows m)), al_manifest_dec = (\<lambda>b. rows_manifest (unchunks (length b) b)),
     al_argon2 = (\<lambda>pw salt. pw @ salt), al_seal = (\<lambda>k n p. p), al_open = (\<lambda>k n c. Some c)\<rparr>"

lemma plain_codec_ok: "codec_ok plain_codec"
proof -
  have "chunks es \<noteq> []" for es using length_chunks[of es] by auto
  moreover have "rows_manifest (Some (manifest_rows m)) = Some m" for m
    by (cases m) (simp add: manifest_rows_def comp_def)
  ultimately show ?thesis
    by (auto simp: codec_ok_def plain_codec_def unchunks_chunks[OF length_chunks])
qed

text \<open>A small site.\<close>

definition sample_opts :: backup_options where
  "sample_opts = \<lparr>bo_ConfigDir = ''/etc/pb'', bo_DataDir = ''/var/pb'', bo_BackupDir = ''/var/bk'',
     bo_AppVersion = ''1'', bo_Password = ''pw'', bo_Filename = [], bo_ComplianceEnabled = True\<rparr>"

definition sample_env :: backup_env where
  "sample_env = \<lparr>be_mkdir = True, be_timestamp = ''T'', be_created = [], be_hostname = ''h'', be_readable = (\<lambda>_. True),
     be_salt = Some (replicate 16 CHR ''s''), be_nonce = Some (replicate 12 CHR ''n''), be_write = Written\<rparr>"

definition sample_fs :: "bytes \<Rightarrow> fs" where
  "sample_fs db = [(''/etc/pb/server.yml'', ''a: 1''), (''/etc/pb/theme/x/y'', ''hi''), (''/var/pb/db/server.db'', sqlite_magic @ db)]"

lemma clean_dirI:
  assumes "Clean d = d" "has_prefix d ''/''" "d \<noteq> ''/''"
  shows "clean_dir d"
  unfolding clean_dir_def
  by (rule exI[of _ "clean_elems True d"]) (use assms Clean_rooted[of d] clean_elems_plain[of d] in \<open>auto split: if_splits\<close>)

lemma sample_fs_ok: "fs_ok (sample_fs db)" "clean_dir (bo_ConfigDir sample_opts)"
proof -
  have "clean_dir p" if "p \<in> {''/etc/pb/server.yml'', ''/etc/pb/theme/x/y'', ''/var/pb/db/server.db'', ''/etc/pb''}" for p
    using that by (elim insertE emptyE; hypsubst; intro clean_dirI; code_simp)
  then show "fs_ok (sample_fs db)" "clean_dir (bo_ConfigDir sample_opts)"
    by (auto simp: fs_ok_def sample_fs_def sample_opts_def)
qed

lemma sample_dest: "backup_dest sample_env sample_opts = ''/var/bk/pastebin_backup_T.tar.gz.enc''"
  by code_simp

lemma sample_entries:
  "backup_entries sample_opts (sample_fs db) =
     [(''/etc/pb/server.yml'', ''server.yml''), (''/var/pb/db/server.db'', ''server.db''), (''/etc/pb/theme/x/y'', ''theme/x/y'')]"
proof -
  have "path_Join [''/etc/pb'', ''server.yml''] = ''/etc/pb/server.yml''" "path_Join [''/etc/pb'', ''theme''] = ''/etc/pb/theme''"
    "path_Join [''/etc/pb'', ''template''] = ''/etc/pb/template''" "path_Join [''/etc/pb'', ''security''] = ''/etc/pb/security''"
    "path_Join [''/var/pb'', ''db'', ''server.db''] = ''/var/pb/db/server.db''"
    "path_Join [''/var/pb'', ''db'', ''users.db''] = ''/var/pb/db/users.db''" "path_Join [''theme'', ''x/y''] = ''theme/x/y''"
    by code_simp+
  then show ?thesis
    by (simp add: backup_entries_def addFile_def addDir_def sample_opts_def sample_fs_def has_prefix_def)
qed

lemma sample_bytes:
  "file_bytes (sample_fs db) ''/etc/pb/server.yml'' = ''a: 1''" "file_bytes (sample_fs db) ''/etc/pb/theme/x/y'' = ''hi''"
  "file_bytes (sample_fs db) ''/var/pb/db/server.db'' = sqlite_magic @ db" "length sqlite_magic = 16"
  by (simp_all add: file_bytes_def sample_fs_def sqlite_magic_def)

lemma sample_fields:
  "bo_ConfigDir sample_opts = ''/etc/pb''" "bo_DataDir sample_opts = ''/var/pb''" "bo_Password sample_opts = ''pw''"
  by (simp_all add: sample_opts_def)

lemma sample_random: "random_ok sample_env" by (simp add: random_ok_def sample_env_def)

lemma sample_extension: "extension_ok sample_env sample_opts"
  by (simp add: extension_ok_def sample_dest has_suffix_def) (simp add: sample_opts_def)

lemma sample_made: "fst (Backup plain_codec sample_env sample_opts (sample_fs db)) = None"
  by (simp add: Backup_def backup_archive_def sample_entries)
    (simp add: sample_env_def sample_opts_def plain_codec_def encrypt_def)

subsection \<open>The entries of a backup\<close>

lemma clean_dir_sub:
  assumes "clean_dir d" "plain_elem x"
  shows "path_Join [d, x] = d @ CHR ''/'' # x" "clean_dir (d @ CHR ''/'' # x)"
proof -
  show "path_Join [d, x] = d @ CHR ''/'' # x" using Join_below[of "[x]" d] assms by simp
  obtain ys where "ys \<noteq> []" "list_all plain_elem ys" "d = rooted_path ys" using assms(1) by (auto simp: clean_dir_def)
  then show "clean_dir (d @ CHR ''/'' # x)" using assms(2)
    unfolding clean_dir_def by (intro exI[of _ "ys @ [x]"]) (simp add: join_append)
qed

lemma addFileD: "(src, name) \<in> set (addFile f s n) \<Longrightarrow> src = s \<and> name = n \<and> map_of f src \<noteq> None"
  by (auto simp: addFile_def split: if_splits)

lemma addDirD:
  assumes "(src, name) \<in> set (addDir f d pre)" "fs_ok f" "clean_dir d" "plain_elem pre"
  obtains rel where "list_all plain_elem (split_on CHR ''/'' rel)" "src = d @ CHR ''/'' # rel"
    "name = pre @ CHR ''/'' # rel" "map_of f src \<noteq> None"
proof -
  obtain p where p: "p \<in> fst ` set f" "has_prefix p (d @ ''/'')"
      "(src, name) \<in> set (addFile f p (path_Join [pre, drop (length d + 1) p]))"
    using assms(1) by (auto simp: addDir_def)
  obtain rel where rel: "p = d @ CHR ''/'' # rel" using p(2) by (auto simp: has_prefix_iff)
  obtain ps where ps: "ps \<noteq> []" "list_all plain_elem ps" "p = rooted_path ps"
    using assms(2) p(1) by (auto simp: fs_ok_def clean_dir_def)
  have "d \<noteq> []" using assms(3) by (auto simp: clean_dir_def)
  with ps rel have plain: "list_all plain_elem (split_on CHR ''/'' rel)"
    using rest_plain[of ps d rel] by simp
  have "path_Join [pre, rel] = pre @ CHR ''/'' # rel"
    using Join_relative[OF plain _ assms(4)] by simp
  with p(3) have "src = d @ CHR ''/'' # rel" "name = pre @ CHR ''/'' # rel" "map_of f src \<noteq> None"
    by (auto dest!: addFileD simp: rel)
  with plain show thesis by (rule that)
qed

lemma restore_dest_sub:
  assumes "clean_dir cfg" "d \<in> {''template'', ''theme'', ''security''}" "list_all plain_elem (split_on CHR ''/'' rel)"
  shows "restore_dest cfg dat (d @ CHR ''/'' # rel) = Some ((cfg @ CHR ''/'' # d) @ CHR ''/'' # rel)"
proof -
  have plain: "plain_elem d" using assms(2) by (auto simp: plain_elem_def)
  note sub = clean_dir_sub[OF assms(1) plain]
  have "path_Join [cfg @ CHR ''/'' # d, rel] = (cfg @ CHR ''/'' # d) @ CHR ''/'' # rel"
    using Join_below[OF assms(3) _ sub(2)] by simp
  moreover have "restore_sub (d @ CHR ''/'' # rel) = Some d"
    using assms(2) by (auto simp: restore_sub_def has_prefix_def)
  moreover have "trim_prefix (d @ CHR ''/'' # rel) (d @ ''/'') = rel" by (simp add: trim_prefix_def has_prefix_def)
  moreover have "d @ CHR ''/'' # rel \<notin> {''server.yml'', ''server.db'', ''users.db''}" using assms(2) by auto
  ultimately show ?thesis using sub(1) by (simp add: restore_dest_def Let_def has_prefix_def)
qed

text \<open>An entry goes back to the file it was made of.\<close>

lemma entry_returns:
  assumes "(src, name) \<in> set (backup_entries opts f)" "fs_ok f" "clean_dir (bo_ConfigDir opts)"
  shows "restore_dest (bo_ConfigDir opts) (bo_DataDir opts) name = Some src"
    "name \<noteq> ''manifest.json''" "map_of f src \<noteq> None"
proof -
  let ?c = "bo_ConfigDir opts" and ?d = "bo_DataDir opts"
  let ?ok = "restore_dest ?c ?d name = Some src \<and> name \<noteq> ''manifest.json'' \<and> map_of f src \<noteq> None"
  have "?ok"
    if dir: "(src, name) \<in> set (addDir f (path_Join [?c, d]) d)" and d: "d \<in> {''template'', ''theme'', ''security''}" for d
  proof -
    have plain: "plain_elem d" using d by (auto simp: plain_elem_def)
    note sub = clean_dir_sub[OF assms(3) plain]
    obtain rel where rel: "list_all plain_elem (split_on CHR ''/'' rel)" "src = (?c @ CHR ''/'' # d) @ CHR ''/'' # rel"
        "name = d @ CHR ''/'' # rel" "map_of f src \<noteq> None"
      using addDirD[OF dir[unfolded sub(1)] assms(2) sub(2) plain] by blast
    show ?thesis using restore_dest_sub[OF assms(3) d rel(1), of ?d] rel(2,3,4) d by auto
  qed
  then have dirs: "?ok" if "(src, name) \<in> (\<Union>d \<in> {''template'', ''theme'', ''security''}. set (addDir f (path_Join [?c, d]) d))"
    using that by blast
  have "?ok" if "(src, name) \<in> set (addFile f (path_Join [?c, ''server.yml'']) ''server.yml'')
      \<union> set (addFile f (path_Join [?d, ''db'', ''server.db'']) ''server.db'')
      \<union> set (addFile f (path_Join [?d, ''db'', ''users.db'']) ''users.db'')"
    using that by (auto simp only: Un_iff dest!: addFileD) (simp_all add: restore_dest_def)
  with dirs assms(1) have ?ok
    unfolding backup_entries_def set_append Un_iff UN_iff bex_simps insert_iff empty_iff by blast
  then show "restore_dest ?c ?d name = Some src" "name \<noteq> ''manifest.json''" "map_of f src \<noteq> None" by simp_all
qed

subsection \<open>Verification of a fresh backup\<close>

abbreviation tar_entries :: "backup_options \<Rightarrow> fs \<Rightarrow> (string \<times> bytes) list" where
  "tar_entries opts f \<equiv> map (\<lambda>(src, name). (name, file_bytes f src)) (backup_entries opts f)"

lemma verify_entries_append:
  assumes "\<And>name body. (name, body) \<in> set es \<Longrightarrow> name \<noteq> ''manifest.json'' \<and> tmp (path_Base name) \<and>
      (has_suffix name ''.db'' \<longrightarrow> verifySQLiteMagic (take entry_cap body))"
  shows "verify_entries L tmp (es @ rest) acc mf =
    verify_entries L tmp rest (acc @ concat (map (\<lambda>(name, body). take entry_cap body) es)) mf"
  using assms
proof (induction es arbitrary: acc)
  case (Cons en es)
  obtain name body where en: "en = (name, body)" by (cases en)
  have h: "name \<noteq> ''manifest.json'' \<and> tmp (path_Base name) \<and> (has_suffix name ''.db'' \<longrightarrow> verifySQLiteMagic (take entry_cap body))"
    using Cons.prems[of name body] en by simp
  have "verify_entries L tmp (es @ rest) (acc @ take entry_cap body) mf =
      verify_entries L tmp rest ((acc @ take entry_cap body) @ concat (map (\<lambda>(name, body). take entry_cap body) es)) mf"
    using Cons.prems by (intro Cons.IH) auto
  with h show ?case by (auto simp: en Let_def)
qed simp

text \<open>What a successful \<^verbatim>\<open>Backup\<close> leaves in its file.\<close>

lemma Backup_file:
  assumes "Backup L e opts f = (None, f1)" "codec_ok L"
    and "\<forall>salt. be_salt e = Some salt \<longrightarrow> length salt = 16" "\<forall>nonce. be_nonce e = Some nonce \<longrightarrow> length nonce = 12"
  obtains plain data where
    "al_unpack L plain = Some (tar_entries opts f @ [(''manifest.json'', al_manifest_enc L (backup_manifest L e opts f))], True)"
    "map_of f1 (backup_dest e opts) = Some data" "data \<noteq> []"
    "if bo_Password opts = [] then data = plain else decrypt L data (bo_Password opts) = Some plain"
    "\<forall>(src, name) \<in> set (backup_entries opts f). be_readable e src"
proof -
  obtain final where final: "backup_archive L e opts f = Inr final" and w: "be_write e = Written"
      and f1: "f1 = fs_write (backup_dest e opts) final f"
    using assms(1) by (auto simp: Backup_def write_file_def split: if_splits sum.splits)
  let ?all = "tar_entries opts f @ [(''manifest.json'', al_manifest_enc L (backup_manifest L e opts f))]"
  have nf: "find (\<lambda>(src, name). \<not> be_readable e src) (backup_entries opts f) = None"
    using final by (auto simp: backup_archive_def Let_def split: option.splits)
  then obtain plain where plain: "al_pack L ?all = Some plain"
    using final by (auto simp: backup_archive_def Let_def split: option.splits)
  then have u: "al_unpack L plain = Some (?all, True)" "plain \<noteq> []" using assms(2) by (auto simp: codec_ok_def)
  have r: "\<forall>(src, name) \<in> set (backup_entries opts f). be_readable e src" using nf by (auto simp: find_None_iff)
  have "final \<noteq> [] \<and> (if bo_Password opts = [] then final = plain else decrypt L final (bo_Password opts) = Some plain)"
  proof (cases "bo_Password opts = []")
    case True
    with final u(2) show ?thesis by (auto simp: backup_archive_def nf plain)
  next
    case False
    with final have enc: "encrypt L (be_salt e) (be_nonce e) plain (bo_Password opts) = Some final"
      by (auto simp: backup_archive_def nf plain split: option.splits)
    then obtain salt nonce where "be_salt e = Some salt" "be_nonce e = Some nonce"
      by (auto simp: encrypt_def split: option.splits)
    with enc assms(2-4) False show ?thesis using decrypt_encrypt[OF assms(2)] by metis
  qed
  with u(1) r f1 show thesis by (intro that[of plain final]) auto
qed

lemma fresh_archive_verdict:
  assumes "codec_ok L" "\<forall>(src, name) \<in> set (backup_entries opts f). be_readable e src"
    and "al_unpack L plain = Some (tar_entries opts f @ [(''manifest.json'', al_manifest_enc L (backup_manifest L e opts f))], True)"
    and "\<And>src name. (src, name) \<in> set (backup_entries opts f) \<Longrightarrow> name \<noteq> ''manifest.json'' \<and> tmp (path_Base name) \<and>
      (has_suffix name ''.db'' \<longrightarrow> verifySQLiteMagic (take entry_cap (file_bytes f src)))"
  shows "verify_archive L (Some tmp) plain =
    (if al_sha256 L (concat (map (\<lambda>en. file_bytes f (fst en)) (backup_entries opts f))) =
        al_sha256 L (concat (map (\<lambda>en. take entry_cap (file_bytes f (fst en))) (backup_entries opts f)))
     then None else Some VChecksum)"
proof -
  let ?es = "backup_entries opts f"
  have "filter (be_readable e) (map fst ?es) = map fst ?es" using assms(2) by (auto simp: filter_id_conv)
  then have sum: "mf_Checksum (backup_manifest L e opts f) = checksum_of L (concat (map (\<lambda>en. file_bytes f (fst en)) ?es))"
    by (simp add: backup_manifest_def Let_def comp_def case_prod_beta)
  have "verify_entries L tmp (tar_entries opts f @ [(''manifest.json'', al_manifest_enc L (backup_manifest L e opts f))]) [] None =
      Inr (concat (map (\<lambda>en. take entry_cap (file_bytes f (fst en))) ?es), Some (mf_Checksum (backup_manifest L e opts f)))"
    using assms(1,4) by (subst verify_entries_append) (auto simp: codec_ok_def comp_def case_prod_beta)
  then show ?thesis using assms(3)
    by (auto simp: verify_archive_def sum checksum_of_def hex_encode_inject)
qed

subsection \<open>Restoring\<close>

definition entry_writes :: "string \<Rightarrow> string \<Rightarrow> (string \<times> bytes) list \<Rightarrow> (string \<times> bytes) list" where
  "entry_writes c d es =
     concat (map (\<lambda>(name, body). if name = ''manifest.json'' then [] else
       (case restore_dest c d name of None \<Rightarrow> [] | Some p \<Rightarrow> [(p, take entry_cap body)])) es)"

lemma map_of_writes: "map_of (fold (\<lambda>(p, b). fs_write p b) ws f) = map_of f ++ map_of (rev ws)"
  by (induction ws arbitrary: f) (simp_all add: case_prod_beta)

text \<open>Entries are written one after the other; an error stops after a prefix of them.\<close>

lemma restore_entries_writes:
  obtains n where "snd (restore_entries wr c d es f) = fold (\<lambda>(p, b). fs_write p b) (entry_writes c d (take n es)) f"
    "(\<forall>p \<in> fst ` set (entry_writes c d es). wr p) \<Longrightarrow> fst (restore_entries wr c d es f) = None \<and> n = length es"
proof (induction es arbitrary: f thesis)
  case Nil
  show ?case by (rule Nil[of 0]) (simp_all add: entry_writes_def)
next
  case (Cons en es)
  obtain name body where en: "en = (name, body)" by (cases en)
  let ?g = "fold (\<lambda>(p, b). fs_write p b) (entry_writes c d [en]) f"
  have split: "entry_writes c d (en # xs) = entry_writes c d [en] @ entry_writes c d xs" for xs
    by (simp add: entry_writes_def)
  show ?case
  proof (cases "\<forall>p \<in> fst ` set (entry_writes c d [en]). wr p")
    case True
    then have step: "restore_entries wr c d (en # es) f = restore_entries wr c d es ?g"
      by (auto simp: en entry_writes_def extractEntry_def split: if_splits option.splits)
    obtain n where n: "snd (restore_entries wr c d es ?g) = fold (\<lambda>(p, b). fs_write p b) (entry_writes c d (take n es)) ?g"
      "(\<forall>p \<in> fst ` set (entry_writes c d es). wr p) \<Longrightarrow> fst (restore_entries wr c d es ?g) = None \<and> n = length es"
      using Cons.IH by blast
    show ?thesis
      by (rule Cons.prems[of "Suc n"]) (use n in \<open>auto simp: step split[of "take n es"] split[of es] simp del: restore_entries.simps\<close>)
  next
    case False
    then have "snd (restore_entries wr c d (en # es) f) = f"
      by (auto simp: en entry_writes_def extractEntry_def split: if_splits option.splits)
    moreover have "entry_writes c d (take 0 (en # es)) = []" by (simp add: entry_writes_def)
    ultimately show ?thesis using False split[of es] by (intro Cons.prems[of 0]) auto
  qed
qed

definition restore_targets :: "string \<Rightarrow> string \<Rightarrow> string \<Rightarrow> bool" where
  "restore_targets c d p \<longleftrightarrow>
     p \<in> {path_Join [c, ''server.yml''], path_Join [d, ''db'', ''server.db''], path_Join [d, ''db'', ''users.db'']} \<or>
     (\<exists>x \<in> {''template'', ''theme'', ''security''}. p = path_Join [c, x] \<or> below (path_Join [c, x]) p)"

lemma restore_subD: "restore_sub name = Some x \<Longrightarrow> x \<in> {''template'', ''theme'', ''security''}"
  by (auto simp: restore_sub_def split: if_splits)

lemma restore_dest_inside:
  assumes "has_prefix c ''/''" "restore_dest c d name = Some p"
  shows "restore_targets c d p"
proof -
  consider "p \<in> {path_Join [c, ''server.yml''], path_Join [d, ''db'', ''server.db''], path_Join [d, ''db'', ''users.db'']}"
    | x where "x \<in> {''template'', ''theme'', ''security''}" "p = path_Join [path_Join [c, x], trim_prefix name (x @ ''/'')]"
        "p = path_Join [c, x] \<or> has_prefix p (path_Join [c, x] @ ''/'')"
  proof (cases "name \<in> {''server.yml'', ''server.db'', ''users.db''}")
    case True
    then show thesis using assms(2) that(1) by (auto simp: restore_dest_def)
  next
    case False
    with assms(2) obtain x where x: "restore_sub name = Some x"
      by (auto simp: restore_dest_def split: option.splits)
    with False assms(2) show thesis using restore_subD[OF x] that(2)[of x]
      by (auto simp: restore_dest_def Let_def split: if_splits)
  qed
  then show ?thesis
  proof cases
    case (2 x)
    have "c \<noteq> []" using assms(1) by (auto simp: has_prefix_def)
    moreover have "has_prefix (c @ CHR ''/'' # x) ''/''" using assms(1) by (auto simp: has_prefix_iff)
    ultimately have "has_prefix (path_Join [c, x]) ''/''"
      using Clean_rooted[of "c @ CHR ''/'' # x"] by (simp add: path_Join_two has_prefix_def)
    with 2 show ?thesis using guarded_below unfolding restore_targets_def by blast
  qed (auto simp: restore_targets_def)
qed

lemma entry_writes_inside:
  "has_prefix c ''/'' \<Longrightarrow> p \<in> fst ` set (entry_writes c d es) \<Longrightarrow> restore_targets c d p"
  by (auto simp: entry_writes_def intro: restore_dest_inside split: if_splits option.splits)

lemma restore_archive_inside:
  assumes "has_prefix c ''/''" "map_of (snd (restore_archive L wr c d data f)) p \<noteq> map_of f p"
  shows "restore_targets c d p"
proof -
  obtain es ok where es: "al_unpack L data = Some (es, ok)" and
      ch: "map_of (snd (restore_entries wr c d es f)) p \<noteq> map_of f p"
    using assms(2) by (auto simp: restore_archive_def split: option.splits prod.splits)
  obtain n where "snd (restore_entries wr c d es f) = fold (\<lambda>(p, b). fs_write p b) (entry_writes c d (take n es)) f"
    using restore_entries_writes by blast
  with ch have "map_of (rev (entry_writes c d (take n es))) p \<noteq> None"
    by (auto simp: map_of_writes map_add_def split: option.splits)
  then have "p \<in> fst ` set (entry_writes c d (take n es))" by (auto simp: map_of_eq_None_iff)
  then show ?thesis by (rule entry_writes_inside[OF assms(1)])
qed

text \<open>C22: restoring any archive, also one made to do harm, changes nothing before the archive has been
  verified to its end, and then writes only the configuration file, the two databases and files
  below the three sub-directories of the configuration directory: no entry name, with however
  many \<^verbatim>\<open>..\<close> elements, leads anywhere else.\<close>

theorem restore_stays_inside:
  assumes "has_prefix configDir ''/''"
    and "map_of (snd (Restore L tmpdir readable wr archivePath configDir dataDir password f)) p \<noteq> map_of f p"
  shows "VerifyBackup L tmpdir readable archivePath password f = None \<and> restore_targets configDir dataDir p"
proof -
  obtain data where "map_of (snd (restore_archive L wr configDir dataDir data f)) p \<noteq> map_of f p"
      "VerifyBackup L tmpdir readable archivePath password f = None"
    using assms(2) by (auto simp: Restore_def split: option.splits if_splits)
  then show ?thesis using restore_archive_inside[OF assms(1)] by blast
qed

definition crafted_manifest :: bytes where
  "crafted_manifest = chunks [([], []), ([], []), ([], []), (''sha256:'' @ hex_encode ''xnew'', [])]"

definition crafted_archive :: bytes where
  "crafted_archive = chunks [(''theme/../../shadow'', ''x''), (''server.yml'', ''new''), (''manifest.json'', crafted_manifest)]"

definition crafted_fs :: fs where
  "crafted_fs = [(''/etc/pb/server.yml'', ''old''), (''/tmp/b.tar.gz'', crafted_archive)]"

lemma restore_stays_inside_witness:
  "restore_targets ''/etc/pb'' ''/var/pb'' ''/etc/pb/server.yml'' \<and>
   map_of (snd (Restore plain_codec (Some (\<lambda>_. True)) (\<lambda>_. True) (\<lambda>_. True) ''/tmp/b.tar.gz'' ''/etc/pb'' ''/var/pb'' [] crafted_fs))
     ''/etc/pb/server.yml'' = Some ''new''"
proof -
  let ?es = "[(''theme/../../shadow'', ''x''), (''server.yml'', ''new''), (''manifest.json'', crafted_manifest)]"
  have u: "al_unpack plain_codec crafted_archive = Some (?es, True)" "crafted_archive \<noteq> []"
    using plain_codec_ok by (auto simp: codec_ok_def plain_codec_def crafted_archive_def simp del: chunks.simps)
  have m: "al_manifest_dec plain_codec crafted_manifest = Some \<lparr>mf_Version = [], mf_CreatedAt = [], mf_AppVersion = [], mf_CreatedBy = [],
      mf_Contents = [], mf_Encrypted = False, mf_EncryptionMethod = [], mf_Checksum = ''sha256:'' @ hex_encode ''xnew''\<rparr>"
    by (simp add: plain_codec_def crafted_manifest_def unchunks_chunks[OF length_chunks] del: chunks.simps)
  have c: "checksum_of plain_codec b = ''sha256:'' @ hex_encode b" for b by (simp add: checksum_of_def plain_codec_def)
  have d: "restore_dest ''/etc/pb'' ''/var/pb'' ''server.yml'' = Some ''/etc/pb/server.yml''"
    "restore_dest ''/etc/pb'' ''/var/pb'' ''theme/../../shadow'' = None" by code_simp+
  have v: "VerifyBackup plain_codec (Some (\<lambda>_. True)) (\<lambda>_. True) ''/tmp/b.tar.gz'' [] crafted_fs = None"
    using u by (simp add: VerifyBackup_def crafted_fs_def verify_archive_def m c entry_cap_def has_suffix_def trim_suffix_def)
  let ?f = "snd (Restore plain_codec (Some (\<lambda>_. True)) (\<lambda>_. True) (\<lambda>_. True) ''/tmp/b.tar.gz'' ''/etc/pb'' ''/var/pb'' [] crafted_fs)"
  have new: "map_of ?f ''/etc/pb/server.yml'' = Some ''new''"
    using u v by (simp add: Restore_def has_suffix_def restore_archive_def extractEntry_def d entry_cap_def crafted_fs_def)
  have "map_of crafted_fs ''/etc/pb/server.yml'' = Some ''old''" by (simp add: crafted_fs_def)
  with new have "map_of ?f ''/etc/pb/server.yml'' \<noteq> map_of crafted_fs ''/etc/pb/server.yml''" by simp
  then have "restore_targets ''/etc/pb'' ''/var/pb'' ''/etc/pb/server.yml''"
    using restore_stays_inside[of "''/etc/pb''" plain_codec "Some (\<lambda>_. True)" "\<lambda>_. True" "\<lambda>_. True" "''/tmp/b.tar.gz''" "''/var/pb''" "[]" crafted_fs]
    by (simp add: has_prefix_def)
  with new show ?thesis by blast
qed

subsection \<open>The round trip\<close>

lemma writes_lookup:
  assumes "(p, b) \<in> set ws" "\<And>b'. (p, b') \<in> set ws \<Longrightarrow> b' = b"
  shows "map_of (rev ws) p = Some b"
proof -
  obtain x where "map_of (rev ws) p = Some x"
    using assms(1) by (metis weak_map_of_SomeI set_rev)
  with assms(2) show ?thesis by (metis map_of_SomeD set_rev)
qed

lemma entry_writes_fresh:
  assumes "\<And>src name. (src, name) \<in> set xs \<Longrightarrow>
      restore_dest c d name = Some src \<and> name \<noteq> ''manifest.json'' \<and> length (file_bytes f src) \<le> entry_cap"
  shows "entry_writes c d (map (\<lambda>(src, name). (name, file_bytes f src)) xs @ [(''manifest.json'', m)]) =
    map (\<lambda>en. (fst en, file_bytes f (fst en))) xs"
  using assms
proof (induction xs)
  case (Cons x xs)
  obtain src name where x: "x = (src, name)" by (cases x)
  have "entry_writes c d ((name, b) # es) =
      (if name = ''manifest.json'' then [] else case restore_dest c d name of None \<Rightarrow> [] | Some p \<Rightarrow> [(p, take entry_cap b)])
      @ entry_writes c d es" for b es
    by (simp add: entry_writes_def)
  moreover have "restore_dest c d name = Some src \<and> name \<noteq> ''manifest.json'' \<and> length (file_bytes f src) \<le> entry_cap"
    using Cons.prems[of src name] x by simp
  moreover have "entry_writes c d (map (\<lambda>(src, name). (name, file_bytes f src)) xs @ [(''manifest.json'', m)]) =
      map (\<lambda>en. (fst en, file_bytes f (fst en))) xs"
    using Cons.prems by (intro Cons.IH) auto
  ultimately show ?case by (simp add: x)
qed (simp add: entry_writes_def)

lemma file_bytes_Some: "map_of f p \<noteq> None \<Longrightarrow> map_of f p = Some (file_bytes f p)"
  by (auto simp: file_bytes_def)

lemma restore_fresh:
  assumes "fs_ok f" "clean_dir (bo_ConfigDir opts)"
    and unp: "al_unpack L plain = Some (tar_entries opts f @ [(''manifest.json'', m)], True)"
    and small: "\<forall>src \<in> fst ` set (backup_entries opts f). length (file_bytes f src) \<le> entry_cap \<and> wr src"
  obtains f3 where "restore_archive L wr (bo_ConfigDir opts) (bo_DataDir opts) plain f2 = (None, f3)"
    "\<And>p. map_of f3 p = (if p \<in> fst ` set (backup_entries opts f) then map_of f p else map_of f2 p)"
proof -
  let ?c = "bo_ConfigDir opts" and ?d = "bo_DataDir opts" and ?es = "backup_entries opts f"
  let ?all = "tar_entries opts f @ [(''manifest.json'', m)]"
  have ws: "entry_writes ?c ?d ?all = map (\<lambda>en. (fst en, file_bytes f (fst en))) ?es"
    using entry_returns[OF _ assms(1,2)] small by (intro entry_writes_fresh) force
  then have "\<forall>p \<in> fst ` set (entry_writes ?c ?d ?all). wr p" using small by auto
  then obtain f3 where f3: "restore_entries wr ?c ?d ?all f2 = (None, f3)"
      "f3 = fold (\<lambda>(p, b). fs_write p b) (entry_writes ?c ?d ?all) f2"
    using restore_entries_writes[of wr ?c ?d ?all f2] by (metis prod.collapse take_all_iff le_refl)
  have "map_of f3 p = (if p \<in> fst ` set ?es then map_of f p else map_of f2 p)" for p
  proof (cases "p \<in> fst ` set ?es")
    case True
    have "map_of (rev (entry_writes ?c ?d ?all)) p = Some (file_bytes f p)"
      using True unfolding ws by (intro writes_lookup) auto
    moreover have "map_of f p = Some (file_bytes f p)"
      using True entry_returns(3)[OF _ assms(1,2)] file_bytes_Some by fastforce
    ultimately show ?thesis using True f3(2) by (simp add: map_of_writes map_add_def)
  next
    case False
    then have "map_of (rev (entry_writes ?c ?d ?all)) p = None"
      unfolding ws by (force simp: map_of_eq_None_iff)
    then show ?thesis using False f3(2) by (simp add: map_of_writes map_add_def)
  qed
  then show thesis using that[of f3] f3(1) unp by (simp add: restore_archive_def)
qed

lemma fresh_verifies:
  assumes "codec_ok L" "backup_ready tmp opts f" "\<forall>(src, name) \<in> set (backup_entries opts f). be_readable e src"
    and "al_unpack L plain = Some (tar_entries opts f @ [(''manifest.json'', al_manifest_enc L (backup_manifest L e opts f))], True)"
  shows "verify_archive L (Some tmp) plain = None"
proof -
  have ready: "length (file_bytes f src) \<le> entry_cap \<and> tmp (path_Base name) \<and>
        (has_suffix name ''.db'' \<longrightarrow> verifySQLiteMagic (file_bytes f src)) \<and> name \<noteq> ''manifest.json''"
    if "(src, name) \<in> set (backup_entries opts f)" for src name
    using assms(2) that entry_returns(2)[OF that] by (auto simp: backup_ready_def)
  then have "map (\<lambda>en. take entry_cap (file_bytes f (fst en))) (backup_entries opts f) =
      map (\<lambda>en. file_bytes f (fst en)) (backup_entries opts f)"
    by (intro map_cong) auto
  with fresh_archive_verdict[OF assms(1,3,4), of tmp] ready show ?thesis by auto
qed

lemma fresh_backup_verifies:
  assumes "codec_ok L" "random_ok e" "backup_ready tmp opts f"
    and "has_suffix (trim_suffix (backup_dest e opts) ''.tmp'') ''.enc'' = (bo_Password opts \<noteq> [])" "Backup L e opts f = (None, f1)"
    and "map_of f2 (backup_dest e opts) = map_of f1 (backup_dest e opts)" "readable (backup_dest e opts)"
  shows "VerifyBackup L (Some tmp) readable (backup_dest e opts) (bo_Password opts) f2 = None"
proof -
  obtain plain data where p: "al_unpack L plain =
        Some (tar_entries opts f @ [(''manifest.json'', al_manifest_enc L (backup_manifest L e opts f))], True)"
      and d: "map_of f1 (backup_dest e opts) = Some data" "data \<noteq> []"
      and enc: "if bo_Password opts = [] then data = plain else decrypt L data (bo_Password opts) = Some plain"
      and r: "\<forall>(src, name) \<in> set (backup_entries opts f). be_readable e src"
    using Backup_file[OF assms(5,1)] assms(2)[unfolded random_ok_def] by blast
  show ?thesis
    using d enc assms(4,6,7) fresh_verifies[OF assms(1,3) r p] by (simp add: VerifyBackup_def split: if_splits)
qed

text \<open>C14: a backup that was written restores what it was made of, when the files suit its
  verification: at most 256 MiB each, the databases with the SQLite header, clean paths, and
  temporary files that can be created for the check. Whatever happens to the files afterwards,
  as long as the archive is left alone, it still verifies, and restoring it with the same
  password puts every file that was backed up back to its bytes at the time of the backup,
  encrypted or not, and touches no other file. Assumed are that tar, JSON and AES-GCM read back
  what they wrote, salts and nonces of their documented length, a file name that ends in .enc
  exactly when there is a password, that the archive can be read and the files can be written.
  (A larger file makes a backup that cannot be restored: the lemma oversized_backup_fails.)\<close>

theorem backup_restores:
  assumes "codec_ok L" "random_ok e" "backup_ready tmp opts f" "extension_ok e opts"
    and made: "Backup L e opts f = (None, f1)"
    and kept: "map_of f2 (backup_dest e opts) = map_of f1 (backup_dest e opts)"
    and io: "readable (backup_dest e opts)" "\<forall>p \<in> fst ` set (backup_entries opts f). wr p"
  shows "VerifyBackup L (Some tmp) readable (backup_dest e opts) (bo_Password opts) f2 = None \<and>
    (\<exists>f3. Restore L (Some tmp) readable wr (backup_dest e opts) (bo_ConfigDir opts) (bo_DataDir opts) (bo_Password opts) f2 =
        (None, f3) \<and>
      (\<forall>p. map_of f3 p = (if p \<in> fst ` set (backup_entries opts f) then map_of f p else map_of f2 p)))"
proof -
  obtain plain data where p: "al_unpack L plain =
        Some (tar_entries opts f @ [(''manifest.json'', al_manifest_enc L (backup_manifest L e opts f))], True)"
      and d1: "map_of f1 (backup_dest e opts) = Some data" "data \<noteq> []"
      and enc: "if bo_Password opts = [] then data = plain else decrypt L data (bo_Password opts) = Some plain"
      and r: "\<forall>(src, name) \<in> set (backup_entries opts f). be_readable e src"
    using Backup_file[OF made assms(1)] assms(2)[unfolded random_ok_def] by blast
  have d: "map_of f2 (backup_dest e opts) = Some data" "data \<noteq> []" using d1 kept by simp_all
  have fine: "fs_ok f" "clean_dir (bo_ConfigDir opts)"
    "\<forall>src \<in> fst ` set (backup_entries opts f). length (file_bytes f src) \<le> entry_cap \<and> wr src"
    using assms(3) io(2) by (auto simp: backup_ready_def)
  obtain f3 where f3: "restore_archive L wr (bo_ConfigDir opts) (bo_DataDir opts) plain f2 = (None, f3)"
      "\<And>p. map_of f3 p = (if p \<in> fst ` set (backup_entries opts f) then map_of f p else map_of f2 p)"
    using restore_fresh[OF fine(1,2) p fine(3), where ?f2.0 = f2] by blast
  have ext: "has_suffix (backup_dest e opts) ''.enc'' = (bo_Password opts \<noteq> [])"
    using assms(4) by (simp add: extension_ok_def)
  have v: "VerifyBackup L (Some tmp) readable (backup_dest e opts) (bo_Password opts) f2 = None"
    using fresh_backup_verifies[OF assms(1-3) _ made kept] assms(4) io(1) by (simp add: extension_ok_def trim_suffix_def)
  moreover have "Restore L (Some tmp) readable wr (backup_dest e opts) (bo_ConfigDir opts) (bo_DataDir opts) (bo_Password opts) f2 = (None, f3)"
    using v d enc f3(1) by (simp add: Restore_def ext split: if_splits)
  ultimately show ?thesis using f3(2) by blast
qed

lemma backup_restores_witness:
  "let f1 = snd (Backup plain_codec sample_env sample_opts (sample_fs ''v1''));
       f2 = fs_write ''/var/pb/db/server.db'' ''garbage'' (fs_remove ''/etc/pb/server.yml'' f1);
       f3 = snd (Restore plain_codec (Some (\<lambda>_. True)) (\<lambda>_. True) (\<lambda>_. True) ''/var/bk/pastebin_backup_T.tar.gz.enc''
              ''/etc/pb'' ''/var/pb'' ''pw'' f2)
   in map_of f3 ''/var/pb/db/server.db'' = Some (sqlite_magic @ ''v1'') \<and> map_of f3 ''/etc/pb/server.yml'' = Some ''a: 1''"
proof -
  let ?f = "sample_fs ''v1''"
  define f1 where "f1 = snd (Backup plain_codec sample_env sample_opts ?f)"
  define f2 where "f2 = fs_write ''/var/pb/db/server.db'' ''garbage'' (fs_remove ''/etc/pb/server.yml'' f1)"
  have made: "Backup plain_codec sample_env sample_opts ?f = (None, f1)"
    using sample_made[of "''v1''"] unfolding f1_def by (metis prod.collapse)
  have ready: "backup_ready (\<lambda>_. True) sample_opts ?f"
    using sample_fs_ok by (simp add: backup_ready_def sample_entries sample_bytes verifySQLiteMagic_def entry_cap_def has_suffix_def)
  have kept: "map_of f2 (backup_dest sample_env sample_opts) = map_of f1 (backup_dest sample_env sample_opts)"
    by (simp add: f2_def sample_dest)
  obtain f3 where "Restore plain_codec (Some (\<lambda>_. True)) (\<lambda>_. True) (\<lambda>_. True) ''/var/bk/pastebin_backup_T.tar.gz.enc''
      ''/etc/pb'' ''/var/pb'' ''pw'' f2 = (None, f3)"
      "\<And>p. map_of f3 p = (if p \<in> fst ` set (backup_entries sample_opts ?f) then map_of ?f p else map_of f2 p)"
    using backup_restores[OF plain_codec_ok sample_random ready sample_extension made kept, of "\<lambda>_. True" "\<lambda>_. True"]
    unfolding sample_dest sample_fields by auto
  then show ?thesis
    unfolding Let_def f1_def[symmetric] f2_def[symmetric] by (simp add: sample_entries) (simp add: sample_fs_def)
qed

subsection \<open>Files over 256 MiB\<close>

text \<open>C38: \<^verbatim>\<open>Backup\<close> hashes and archives a file whole, but \<^verbatim>\<open>VerifyBackup\<close> hashes only the first 256 MiB of
  an entry. A backup that contains a longer file, as the database eventually is, is written without
  an error and then always refused with a checksum mismatch, unless the two contents collide under
  SHA-256; it cannot be restored either.\<close>

theorem oversized_backup_fails:
  assumes "codec_ok L" "random_ok e" "extension_ok e opts" "fs_ok f" "clean_dir (bo_ConfigDir opts)"
    and made: "Backup L e opts f = (None, f1)" and io: "readable (backup_dest e opts)"
    and fine: "\<forall>(src, name) \<in> set (backup_entries opts f). tmp (path_Base name) \<and>
        (has_suffix name ''.db'' \<longrightarrow> verifySQLiteMagic (take entry_cap (file_bytes f src)))"
    and differ: "al_sha256 L (concat (map (\<lambda>en. file_bytes f (fst en)) (backup_entries opts f))) \<noteq>
        al_sha256 L (concat (map (\<lambda>en. take entry_cap (file_bytes f (fst en))) (backup_entries opts f)))"
  shows "VerifyBackup L (Some tmp) readable (backup_dest e opts) (bo_Password opts) f1 = Some VChecksum \<and>
    Restore L (Some tmp) readable wr (backup_dest e opts) c d (bo_Password opts) f1 = (Some (RVerification VChecksum), f1)"
proof -
  obtain plain data where p: "al_unpack L plain =
        Some (tar_entries opts f @ [(''manifest.json'', al_manifest_enc L (backup_manifest L e opts f))], True)"
      and data: "map_of f1 (backup_dest e opts) = Some data" "data \<noteq> []"
      and enc: "if bo_Password opts = [] then data = plain else decrypt L data (bo_Password opts) = Some plain"
      and r: "\<forall>(src, name) \<in> set (backup_entries opts f). be_readable e src"
    using Backup_file[OF made assms(1)] assms(2)[unfolded random_ok_def] by blast
  have "name \<noteq> ''manifest.json'' \<and> tmp (path_Base name) \<and>
      (has_suffix name ''.db'' \<longrightarrow> verifySQLiteMagic (take entry_cap (file_bytes f src)))"
    if "(src, name) \<in> set (backup_entries opts f)" for src name
    using fine that entry_returns(2)[OF that assms(4,5)] by auto
  then have "verify_archive L (Some tmp) plain = Some VChecksum"
    using fresh_archive_verdict[OF assms(1) r p, of tmp] differ by auto
  moreover have "trim_suffix (backup_dest e opts) ''.tmp'' = backup_dest e opts"
    "has_suffix (backup_dest e opts) ''.enc'' = (bo_Password opts \<noteq> [])"
    using assms(3) by (auto simp: extension_ok_def trim_suffix_def)
  ultimately have "VerifyBackup L (Some tmp) readable (backup_dest e opts) (bo_Password opts) f1 = Some VChecksum"
    using data enc io by (simp add: VerifyBackup_def split: if_splits)
  then show ?thesis by (simp add: Restore_def)
qed

lemma oversized_backup_fails_witness:
  "let f1 = snd (Backup plain_codec sample_env sample_opts (sample_fs (replicate 268435456 CHR ''x'')))
   in VerifyBackup plain_codec (Some (\<lambda>_. True)) (\<lambda>_. True) ''/var/bk/pastebin_backup_T.tar.gz.enc'' ''pw'' f1 = Some VChecksum"
proof -
  let ?db = "replicate 268435456 CHR ''x''"
  let ?f = "sample_fs ?db"
  define f1 where "f1 = snd (Backup plain_codec sample_env sample_opts ?f)"
  have made: "Backup plain_codec sample_env sample_opts ?f = (None, f1)"
    using sample_made[of ?db] unfolding f1_def by (metis prod.collapse)
  have fine: "\<forall>(src, name) \<in> set (backup_entries sample_opts ?f). True \<and>
      (has_suffix name ''.db'' \<longrightarrow> verifySQLiteMagic (take entry_cap (file_bytes ?f src)))"
    by (simp add: sample_entries sample_bytes verifySQLiteMagic_def has_suffix_def entry_cap_def min_def)
  have "length (concat (map (\<lambda>en. file_bytes ?f (fst en)) (backup_entries sample_opts ?f))) \<noteq>
      length (concat (map (\<lambda>en. take entry_cap (file_bytes ?f (fst en))) (backup_entries sample_opts ?f)))"
    by (simp add: sample_entries sample_bytes entry_cap_def)
  then have differ: "al_sha256 plain_codec (concat (map (\<lambda>en. file_bytes ?f (fst en)) (backup_entries sample_opts ?f))) \<noteq>
      al_sha256 plain_codec (concat (map (\<lambda>en. take entry_cap (file_bytes ?f (fst en))) (backup_entries sample_opts ?f)))"
    unfolding plain_codec_def by auto
  show ?thesis
    using oversized_backup_fails[OF plain_codec_ok sample_random sample_extension sample_fs_ok made _ fine differ, of "\<lambda>_. True"]
    by (simp add: sample_dest sample_fields f1_def Let_def)
qed

end
