(* ===== verification/Backup_Retention.thy ===== *)
theory Backup_Retention
  imports Backup_Roundtrip Go_Time Go_Text "HOL-Library.Char_ord" "HOL-Library.List_Lexorder" "HOL-Library.Multiset"
begin

section \<open>Which backups are kept\<close>

text \<open>
  The retention policy of \<^verbatim>\<open>src/src/task/task.go\<close> (\<^verbatim>\<open>applyRetention\<close>, \<^verbatim>\<open>RetentionSweep\<close>) and the safety
  rails of \<^verbatim>\<open>src/src/task/backup_guard.go\<close>. \<^verbatim>\<open>os.ReadDir\<close> lists a directory by name;
  \<^verbatim>\<open>sort.Slice\<close> may leave elements that compare equal in any order, so the two sorts are
  parameters of which only what the package documents is assumed. \<open>rm\<close> says which files can be
  removed. The cap in bytes that \<^verbatim>\<open>resolveSizeCap\<close> computes from the setting (in floating point) is a
  parameter.
\<close>

subsection \<open>Dated names\<close>

definition is_digit :: "char \<Rightarrow> bool" where "is_digit c \<longleftrightarrow> digit_val c \<noteq> None"

definition date_shape :: "string \<Rightarrow> bool" where
  "date_shape s \<longleftrightarrow> length s = 10 \<and> s ! 4 = CHR ''-'' \<and> s ! 7 = CHR ''-'' \<and>
     list_all is_digit (take 4 s @ take 2 (drop 5 s) @ drop 8 s)"

text \<open>\<^verbatim>\<open>backupFileRE\<close> and its first group: a name that ends in the separator, a date and one of the two
  extensions.\<close>

definition backup_date :: "string \<Rightarrow> string option" where
  "backup_date name =
     (let stem = (if has_suffix name ''.tar.gz.enc'' then trim_suffix name ''.tar.gz.enc''
                  else trim_suffix name ''.tar.gz'');
          date = drop (length stem - 10) stem
      in if stem \<noteq> name \<and> has_suffix (take (length stem - 10) stem) ''_backup_'' \<and> date_shape date then Some date else None)"

definition digits_int :: "string \<Rightarrow> int" where
  "digits_int s = foldl (\<lambda>a c. 10 * a + (case digit_val c of None \<Rightarrow> 0 | Some d \<Rightarrow> int d)) 0 s"

definition daysIn :: "int \<Rightarrow> int \<Rightarrow> int" where
  "daysIn m y = (if m = 2 then (if leap y then 29 else 28) else if m \<in> {4, 6, 9, 11} then 30 else 31)"

text \<open>\<^verbatim>\<open>time.Parse\<close> with the layout \<^verbatim>\<open>2006-01-02\<close> on a string of that shape: the day, or an error when
  there is no such day.\<close>

definition parse_day :: "string \<Rightarrow> int option" where
  "parse_day s =
     (let y = digits_int (take 4 s); m = digits_int (take 2 (drop 5 s)); d = digits_int (drop 8 s)
      in if 1 \<le> m \<and> m \<le> 12 \<and> 1 \<le> d \<and> d \<le> daysIn m y then Some (date y m d) else None)"

subsection \<open>The directory\<close>

definition ReadDir :: "string \<Rightarrow> fs \<Rightarrow> string list" where
  "ReadDir dir f =
     sort (filter (\<lambda>n. n \<noteq> [] \<and> CHR ''/'' \<notin> set n)
       (map (\<lambda>p. drop (length dir + 1) p) (filter (\<lambda>p. has_prefix p (dir @ ''/'')) (map fst f))))"

definition file_size :: "string \<Rightarrow> string \<Rightarrow> fs \<Rightarrow> int" where
  "file_size dir name f = int (length (file_bytes f (path_Join [dir, name])))"

abbreviation project_backup :: "string \<Rightarrow> string \<Rightarrow> bool" where
  "project_backup project name \<equiv> has_prefix name (project @ ''_backup_'')"

definition latestBackupSize :: "string \<Rightarrow> string \<Rightarrow> fs \<Rightarrow> int" where
  "latestBackupSize dir project f =
     snd (foldl (\<lambda>(newestDate, newestSize) name.
        (case backup_date name of
           None \<Rightarrow> (newestDate, newestSize)
         | Some d \<Rightarrow> if d < newestDate then (newestDate, newestSize) else (d, file_size dir name f)))
      ([], 0) (filter (project_backup project) (ReadDir dir f)))"

subsection \<open>Disk space\<close>

text \<open>The sizes are unsigned 64-bit numbers.\<close>

definition shouldSkipBackup :: "int \<Rightarrow> int \<Rightarrow> int \<Rightarrow> int \<Rightarrow> bool" where
  "shouldSkipBackup freeBytes totalBytes lastBackupBytes thresholdPercent =
     (let thr = (if thresholdPercent \<le> 0 then 90 else thresholdPercent)
      in if lastBackupBytes > 0 \<and> freeBytes < (2 * lastBackupBytes) mod 2 ^ 64 then True
         else if totalBytes > 0 then wrap64 (100 - wrap64 ((freeBytes * 100 mod 2 ^ 64) div totalBytes)) > thr
         else False)"

definition diskPreCheck :: "(int \<times> int) option \<Rightarrow> string \<Rightarrow> string \<Rightarrow> int \<Rightarrow> fs \<Rightarrow> bool" where
  "diskPreCheck stats dir project threshold f =
     (case stats of
        None \<Rightarrow> False
      | Some (free, tot) \<Rightarrow> shouldSkipBackup free tot (latestBackupSize dir project f) threshold)"

subsection \<open>Retention\<close>

record backup_retention =
  br_MaxBackups :: int
  br_KeepWeekly :: int
  br_KeepMonthly :: int
  br_KeepYearly :: int

datatype tier = TierYearly | TierMonthly | TierWeekly | TierDaily

definition classify :: "backup_retention \<Rightarrow> int \<Rightarrow> tier" where
  "classify ret t =
     (if month_of t = 1 \<and> day_of_month t = 1 \<and> br_KeepYearly ret > 0 then TierYearly
      else if day_of_month t = 1 \<and> br_KeepMonthly ret > 0 then TierMonthly
      else if weekday_of t = 0 \<and> br_KeepWeekly ret > 0 then TierWeekly
      else TierDaily)"

fun tier_limit :: "backup_retention \<Rightarrow> tier \<Rightarrow> int" where
  "tier_limit ret TierYearly = br_KeepYearly ret"
| "tier_limit ret TierMonthly = br_KeepMonthly ret"
| "tier_limit ret TierWeekly = br_KeepWeekly ret"
| "tier_limit ret TierDaily = br_MaxBackups ret"

definition dated_backups :: "string \<Rightarrow> string \<Rightarrow> fs \<Rightarrow> (string \<times> int) list" where
  "dated_backups dir project f =
     List.map_filter (\<lambda>name. case Option.bind (backup_date name) parse_day of None \<Rightarrow> None | Some t \<Rightarrow> Some (name, t))
       (filter (project_backup project) (ReadDir dir f))"

text \<open>The walk over the backups, newest first, with the number seen of each tier; the names to be
  removed.\<close>

fun retention_walk :: "backup_retention \<Rightarrow> (tier \<Rightarrow> int) \<Rightarrow> (string \<times> int) list \<Rightarrow> string list" where
  "retention_walk ret seen [] = []"
| "retention_walk ret seen ((name, t) # rest) =
     (let k = classify ret t; seen' = seen(k := seen k + 1)
      in if seen' k \<le> tier_limit ret k then retention_walk ret seen' rest
         else name # retention_walk ret seen' rest)"

definition remove_names :: "(string \<Rightarrow> bool) \<Rightarrow> string \<Rightarrow> string list \<Rightarrow> fs \<Rightarrow> fs" where
  "remove_names rm dir names f =
     fold (\<lambda>n. fs_remove (path_Join [dir, n])) (filter (\<lambda>n. rm (path_Join [dir, n])) names) f"

definition cap_files :: "string \<Rightarrow> string \<Rightarrow> fs \<Rightarrow> (string \<times> string \<times> int) list" where
  "cap_files dir project f =
     List.map_filter (\<lambda>name. case backup_date name of None \<Rightarrow> None | Some d \<Rightarrow> Some (name, d, file_size dir name f))
       (filter (project_backup project) (ReadDir dir f))"

text \<open>Oldest first, up to the last but one, while the total exceeds the cap.\<close>

fun cap_walk :: "(string \<Rightarrow> bool) \<Rightarrow> int \<Rightarrow> int \<Rightarrow> (string \<times> string \<times> int) list \<Rightarrow> string list" where
  "cap_walk ok cap tot ((name, d, sz) # y # rest) =
     (if tot > cap then
        (if ok name then name # cap_walk ok cap (wrap64 (tot - sz)) (y # rest) else cap_walk ok cap tot (y # rest))
      else [])"
| "cap_walk ok cap tot _ = []"

definition total_size :: "(string \<times> string \<times> int) list \<Rightarrow> int" where
  "total_size files = foldl (\<lambda>a (n, d, s). wrap64 (a + s)) 0 files"

type_synonym date_sort = "(string \<times> int) list \<Rightarrow> (string \<times> int) list"
type_synonym cap_sort = "(string \<times> string \<times> int) list \<Rightarrow> (string \<times> string \<times> int) list"

definition applySizeCap ::
  "cap_sort \<Rightarrow> (string \<Rightarrow> bool) \<Rightarrow> bool \<Rightarrow> string \<Rightarrow> string \<Rightarrow> int \<Rightarrow> fs \<Rightarrow> string list \<times> fs" where
  "applySizeCap srt rm listed dir project capBytes f =
     (if capBytes \<le> 0 \<or> \<not> listed then ([], f)
      else let files = cap_files dir project f;
               deleted = cap_walk (\<lambda>n. rm (path_Join [dir, n])) capBytes (total_size files) (srt files)
           in (deleted, remove_names rm dir deleted f))"

definition applyRetention ::
  "date_sort \<Rightarrow> cap_sort \<Rightarrow> (string \<Rightarrow> bool) \<Rightarrow> bool \<Rightarrow> bool \<Rightarrow> string \<Rightarrow> string \<Rightarrow> backup_retention \<Rightarrow> int \<Rightarrow> fs \<Rightarrow>
     (string list \<times> fs) option" where
  "applyRetention srt csrt rm listed listed2 dir project ret capBytes f =
     (if \<not> listed then None
      else let doomed = retention_walk ret (\<lambda>_. 0) (srt (dated_backups dir project f));
               deleted = filter (\<lambda>n. rm (path_Join [dir, n])) doomed;
               (capped, f') = applySizeCap csrt rm listed2 dir project capBytes (remove_names rm dir doomed f)
           in Some (deleted @ capped, f'))"

definition RetentionSweep ::
  "date_sort \<Rightarrow> cap_sort \<Rightarrow> (string \<Rightarrow> bool) \<Rightarrow> bool \<Rightarrow> bool \<Rightarrow> bool option \<Rightarrow> string \<Rightarrow> string \<Rightarrow> backup_retention \<Rightarrow> int \<Rightarrow>
     fs \<Rightarrow> (string list \<times> fs) option" where
  "RetentionSweep srt csrt rm listed listed2 stat dir project ret capBytes f =
     (case stat of
        None \<Rightarrow> Some ([], f)
      | Some ok \<Rightarrow> if ok then applyRetention srt csrt rm listed listed2 dir project ret capBytes f else None)"

subsection \<open>Names and files\<close>

lemma distinct_ReadDir: "distinct (map fst f) \<Longrightarrow> distinct (ReadDir dir f)"
proof -
  assume "distinct (map fst f)"
  moreover have "inj_on (drop (length dir + 1)) {p. has_prefix p (dir @ ''/'')}"
    by (rule inj_onI) (auto simp: has_prefix_iff)
  ultimately have "distinct (map (drop (length dir + 1)) (filter (\<lambda>p. has_prefix p (dir @ ''/'')) (map fst f)))"
    by (simp add: distinct_map inj_on_def del: drop_Suc)
  then show ?thesis by (simp add: ReadDir_def distinct_filter)
qed

lemma map_filter_names:
  "map fst (List.map_filter (\<lambda>n. case g n of None \<Rightarrow> None | Some x \<Rightarrow> Some (n, x)) ns) = filter (\<lambda>n. g n \<noteq> None) ns"
  by (induction ns) (auto simp: List.map_filter_def split: option.splits)

lemma dated_names:
  "map fst (dated_backups dir project f) =
     filter (\<lambda>n. Option.bind (backup_date n) parse_day \<noteq> None) (filter (project_backup project) (ReadDir dir f))"
  unfolding dated_backups_def by (rule map_filter_names)

lemma distinct_dated: "distinct (map fst f) \<Longrightarrow> distinct (map fst (dated_backups dir project f))"
  by (simp only: dated_names distinct_filter distinct_ReadDir)

lemma map_of_remove_names:
  "map_of (remove_names rm dir names f) p =
     (if p \<in> (\<lambda>n. path_Join [dir, n]) ` set (filter (\<lambda>n. rm (path_Join [dir, n])) names) then None else map_of f p)"
proof -
  have "map_of (fold (\<lambda>n. fs_remove (path_Join [dir, n])) ns f) p =
      (if p \<in> (\<lambda>n. path_Join [dir, n]) ` set ns then None else map_of f p)" for ns
    by (induction ns arbitrary: f) auto
  then show ?thesis by (simp add: remove_names_def)
qed

subsection \<open>The count limits\<close>

lemma walk_Cons:
  "retention_walk ret seen (b # rest) =
     (let k = classify ret (snd b)
      in (if seen k + 1 \<le> tier_limit ret k then [] else [fst b]) @ retention_walk ret (seen(k := seen k + 1)) rest)"
  by (cases b) (simp add: Let_def)

lemma walk_subset: "set (retention_walk ret seen bs) \<subseteq> fst ` set bs"
proof (induction bs arbitrary: seen)
  case (Cons b bs)
  then show ?case unfolding walk_Cons Let_def by (force split: if_splits)
qed simp

text \<open>Of each tier, what is removed is what follows the first ones up to its limit.\<close>

lemma walk_tier:
  "distinct (map fst bs) \<Longrightarrow>
   filter (\<lambda>b. classify ret (snd b) = k \<and> fst b \<in> set (retention_walk ret seen bs)) bs =
     drop (nat (tier_limit ret k - seen k)) (filter (\<lambda>b. classify ret (snd b) = k) bs)"
proof (induction bs arbitrary: seen)
  case (Cons b rest)
  let ?k = "classify ret (snd b)"
  let ?c = "seen(?k := seen ?k + 1)"
  have IH: "filter (\<lambda>b. classify ret (snd b) = k \<and> fst b \<in> set (retention_walk ret ?c rest)) rest =
      drop (nat (tier_limit ret k - ?c k)) (filter (\<lambda>b. classify ret (snd b) = k) rest)"
    using Cons by simp
  have new: "fst b \<notin> fst ` set rest" using Cons.prems by simp
  then have out: "fst b \<notin> set (retention_walk ret ?c rest)" using walk_subset by blast
  have same: "filter (\<lambda>x. classify ret (snd x) = k \<and> fst x \<in> set (fst b # retention_walk ret ?c rest)) rest =
      filter (\<lambda>x. classify ret (snd x) = k \<and> fst x \<in> set (retention_walk ret ?c rest)) rest"
  proof (intro filter_cong refl)
    fix x assume "x \<in> set rest"
    with new have "fst x \<noteq> fst b" by (metis image_eqI)
    then show "(classify ret (snd x) = k \<and> fst x \<in> set (fst b # retention_walk ret ?c rest)) =
        (classify ret (snd x) = k \<and> fst x \<in> set (retention_walk ret ?c rest))" by simp
  qed
  show ?case
  proof (cases "seen ?k + 1 \<le> tier_limit ret ?k")
    case True
    then have step: "nat (tier_limit ret ?k - seen ?k) = Suc (nat (tier_limit ret ?k - (seen ?k + 1)))" by simp
    have w: "retention_walk ret seen (b # rest) = retention_walk ret ?c rest" using True by (simp add: walk_Cons Let_def)
    show ?thesis
    proof (cases "k = ?k")
      case True
      then show ?thesis unfolding w using IH out step by simp
    next
      case False
      then show ?thesis unfolding w using IH by simp
    qed
  next
    case False
    then have zero: "nat (tier_limit ret ?k - seen ?k) = 0" "nat (tier_limit ret ?k - (seen ?k + 1)) = 0" by simp_all
    have w: "retention_walk ret seen (b # rest) = fst b # retention_walk ret ?c rest" using False by (simp add: walk_Cons Let_def)
    show ?thesis
    proof (cases "k = ?k")
      case True
      then show ?thesis unfolding w using IH same zero by simp
    next
      case False
      then show ?thesis unfolding w using IH same by simp
    qed
  qed
qed simp

lemma walk_newest:
  assumes "br_MaxBackups ret \<ge> 1" "distinct (map fst (b # bs))"
  shows "fst b \<notin> set (retention_walk ret (\<lambda>_. 0) (b # bs))"
proof -
  have "1 \<le> tier_limit ret (classify ret (snd b))" using assms(1) by (simp add: classify_def)
  then show ?thesis using assms(2) walk_subset[of ret _ bs] by (force simp: walk_Cons Let_def)
qed

text \<open>What \<^verbatim>\<open>sort.Slice\<close> guarantees for the two comparisons.\<close>

definition sorts_newest_first :: "date_sort \<Rightarrow> bool" where
  "sorts_newest_first srt \<longleftrightarrow> (\<forall>xs. mset (srt xs) = mset xs \<and> sorted_wrt (\<lambda>a b. snd b \<le> snd a) (srt xs))"

definition sorts_oldest_first :: "cap_sort \<Rightarrow> bool" where
  "sorts_oldest_first srt \<longleftrightarrow> (\<forall>xs. mset (srt xs) = mset xs \<and> sorted_wrt (\<lambda>a b. fst (snd a) \<le> fst (snd b)) (srt xs))"

text \<open>Stable sorts are among those the package allows.\<close>

definition stable_newest :: date_sort where "stable_newest = sort_key (\<lambda>b. - snd b)"
definition stable_oldest :: cap_sort where "stable_oldest = sort_key (\<lambda>b. fst (snd b))"

lemma stable_newest_ok: "sorts_newest_first stable_newest"
proof -
  have "sorted (map (\<lambda>b. - snd b) (stable_newest xs))" for xs by (simp add: stable_newest_def)
  then show ?thesis by (auto simp: sorts_newest_first_def sorted_map) (simp add: stable_newest_def)
qed

lemma stable_oldest_ok: "sorts_oldest_first stable_oldest"
proof -
  have "sorted (map (\<lambda>b. fst (snd b)) (stable_oldest xs))" for xs by (simp add: stable_oldest_def)
  then show ?thesis by (auto simp: sorts_oldest_first_def sorted_map) (simp add: stable_oldest_def)
qed

definition sample_dir :: fs where
  "sample_dir = [(''/b/p-daily.tar.gz'', ''z''), (''/b/p_backup_2026-01-05.tar.gz'', ''x''), (''/b/p_backup_2026-01-06.tar.gz'', ''yy'')]"

lemma sample_dated:
  "dated_backups ''/b'' ''p'' sample_dir = [(''p_backup_2026-01-05.tar.gz'', 20458), (''p_backup_2026-01-06.tar.gz'', 20459)]"
  by code_simp

lemma sample_cap_files:
  "cap_files ''/b'' ''p'' sample_dir =
     [(''p_backup_2026-01-05.tar.gz'', ''2026-01-05'', 1), (''p_backup_2026-01-06.tar.gz'', ''2026-01-06'', 2)]"
  by code_simp

lemma sample_paths:
  "path_Join [''/b'', ''p_backup_2026-01-05.tar.gz''] = ''/b/p_backup_2026-01-05.tar.gz''"
  "path_Join [''/b'', ''p_backup_2026-01-06.tar.gz''] = ''/b/p_backup_2026-01-06.tar.gz''"
  by code_simp+

text \<open>Without a size cap and with every removal succeeding, a retention pass keeps of each tier
  (yearly, monthly, weekly, daily) exactly the newest backups up to the tier's limit and removes
  every other dated backup of the project; no other file of the system changes. The newest backup
  of all is kept whenever at least one daily backup is to be kept.\<close>

theorem retention_exact:
  assumes "sorts_newest_first srt" "distinct (map fst f)" "capBytes \<le> 0"
    and "\<forall>p. rm p"
    and bs: "bs = srt (dated_backups dir project f)"
  shows "\<exists>deleted f'. applyRetention srt csrt rm True listed2 dir project ret capBytes f = Some (deleted, f') \<and>
    (\<forall>k. filter (\<lambda>b. classify ret (snd b) = k \<and> fst b \<in> set deleted) bs =
       drop (nat (tier_limit ret k)) (filter (\<lambda>b. classify ret (snd b) = k) bs)) \<and>
    set deleted \<subseteq> fst ` set (dated_backups dir project f) \<and>
    (\<forall>p. map_of f' p = (if p \<in> (\<lambda>n. path_Join [dir, n]) ` set deleted then None else map_of f p)) \<and>
    (1 \<le> br_MaxBackups ret \<longrightarrow> bs \<noteq> [] \<longrightarrow> fst (hd bs) \<notin> set deleted)"
proof -
  let ?d = "retention_walk ret (\<lambda>_. 0) bs"
  have perm: "mset bs = mset (dated_backups dir project f)" using assms(1) bs by (simp add: sorts_newest_first_def)
  then have dist: "distinct (map fst bs)" using distinct_dated[OF assms(2), of dir project]
    by (metis mset_map mset_eq_imp_distinct_iff)
  have sub: "set ?d \<subseteq> fst ` set (dated_backups dir project f)" using walk_subset perm by (metis set_mset_mset)
  have top_kept: "1 \<le> br_MaxBackups ret \<longrightarrow> bs \<noteq> [] \<longrightarrow> fst (hd bs) \<notin> set ?d"
    using walk_newest[of ret "hd bs" "tl bs"] dist by (cases bs) auto
  have "applyRetention srt csrt rm True listed2 dir project ret capBytes f = Some (?d, remove_names rm dir ?d f)"
    using assms(3,4) by (simp add: applyRetention_def applySizeCap_def bs Let_def)
  with walk_tier[OF dist, of ret _ "\<lambda>_. 0"] sub top_kept assms(4) show ?thesis
    by (auto simp: map_of_remove_names)
qed

definition keep_one :: backup_retention where
  "keep_one = \<lparr>br_MaxBackups = 1, br_KeepWeekly = 0, br_KeepMonthly = 0, br_KeepYearly = 0\<rparr>"

lemma retention_exact_witness:
  "\<exists>deleted f'. applyRetention stable_newest stable_oldest (\<lambda>_. True) True True ''/b'' ''p'' keep_one 0 sample_dir = Some (deleted, f') \<and>
     ''p_backup_2026-01-06.tar.gz'' \<notin> set deleted \<and> map_of f' ''/b/p-daily.tar.gz'' = Some ''z''"
proof -
  have bs: "stable_newest (dated_backups ''/b'' ''p'' sample_dir) =
      [(''p_backup_2026-01-06.tar.gz'', 20459), (''p_backup_2026-01-05.tar.gz'', 20458)]"
    unfolding sample_dated by (simp add: stable_newest_def)
  have "distinct (map fst sample_dir)" by (simp add: sample_dir_def)
  from retention_exact[OF stable_newest_ok this, of 0 "\<lambda>_. True" _ "''/b''" "''p''" stable_oldest True keep_one]
  obtain deleted f' where d: "applyRetention stable_newest stable_oldest (\<lambda>_. True) True True ''/b'' ''p'' keep_one 0 sample_dir = Some (deleted, f')"
      "set deleted \<subseteq> fst ` set (dated_backups ''/b'' ''p'' sample_dir)"
      "\<And>p. map_of f' p = (if p \<in> (\<lambda>n. path_Join [''/b'', n]) ` set deleted then None else map_of sample_dir p)"
      "''p_backup_2026-01-06.tar.gz'' \<notin> set deleted"
    unfolding bs by (auto simp: keep_one_def)
  have "''/b/p-daily.tar.gz'' \<notin> (\<lambda>n. path_Join [''/b'', n]) ` set deleted"
    using d(2) sample_paths by (auto simp: sample_dated)
  with d show ?thesis by (auto simp: sample_dir_def)
qed

text \<open>The sweep at start-up takes the configured number of daily backups as it is, unlike the daily
  task, which raises it to one: with \<^verbatim>\<open>max_backups\<close> zero or negative it removes every backup of the
  daily tier, the newest one included.\<close>

theorem sweep_removes_all_daily:
  assumes "sorts_newest_first srt" "distinct (map fst f)" "capBytes \<le> 0" "\<forall>p. rm p" "br_MaxBackups ret \<le> 0"
    and "RetentionSweep srt csrt rm True listed2 (Some True) dir project ret capBytes f = Some (deleted, f')"
    and "(name, t) \<in> set (dated_backups dir project f)" "classify ret t = TierDaily"
  shows "name \<in> set deleted \<and> map_of f' (path_Join [dir, name]) = None"
proof -
  let ?bs = "srt (dated_backups dir project f)"
  have perm: "mset ?bs = mset (dated_backups dir project f)" using assms(1) by (simp add: sorts_newest_first_def)
  then have dist: "distinct (map fst ?bs)" using distinct_dated[OF assms(2), of dir project]
    by (metis mset_map mset_eq_imp_distinct_iff)
  have del: "deleted = retention_walk ret (\<lambda>_. 0) ?bs" "f' = remove_names rm dir deleted f"
    using assms(3,4,6) by (auto simp: RetentionSweep_def applyRetention_def applySizeCap_def Let_def)
  have "filter (\<lambda>b. classify ret (snd b) = TierDaily \<and> fst b \<in> set deleted) ?bs = filter (\<lambda>b. classify ret (snd b) = TierDaily) ?bs"
    using walk_tier[OF dist, of ret TierDaily "\<lambda>_. 0"] assms(5) by (simp add: del)
  moreover have "(name, t) \<in> set (filter (\<lambda>b. classify ret (snd b) = TierDaily) ?bs)"
    using assms(7,8) mset_eq_setD[OF perm] by simp
  ultimately have "(name, t) \<in> set (filter (\<lambda>b. classify ret (snd b) = TierDaily \<and> fst b \<in> set deleted) ?bs)" by simp
  then have "name \<in> set deleted" by simp
  then show ?thesis using assms(4) by (simp add: del map_of_remove_names)
qed

definition keep_none :: backup_retention where
  "keep_none = \<lparr>br_MaxBackups = 0, br_KeepWeekly = 0, br_KeepMonthly = 0, br_KeepYearly = 0\<rparr>"

lemma sweep_removes_all_daily_witness:
  "case RetentionSweep stable_newest stable_oldest (\<lambda>_. True) True True (Some True) ''/b'' ''p'' keep_none 0 sample_dir of
     None \<Rightarrow> False | Some (deleted, f') \<Rightarrow> map_of f' ''/b/p_backup_2026-01-06.tar.gz'' = None"
proof -
  let ?r = "RetentionSweep stable_newest stable_oldest (\<lambda>_. True) True True (Some True) ''/b'' ''p'' keep_none 0 sample_dir"
  obtain deleted f' where r: "?r = Some (deleted, f')"
    by (cases ?r) (auto simp: RetentionSweep_def applyRetention_def Let_def split: prod.splits)
  have "classify keep_none 20459 = TierDaily" by code_simp
  moreover have "distinct (map fst sample_dir)" by (simp add: sample_dir_def)
  ultimately have "map_of f' (path_Join [''/b'', ''p_backup_2026-01-06.tar.gz'']) = None"
    using sweep_removes_all_daily[OF stable_newest_ok _ _ _ _ r] by (simp add: sample_dated keep_none_def)
  with r show ?thesis by (simp add: sample_paths)
qed

subsection \<open>The size cap\<close>

abbreviation sizes :: "(string \<times> string \<times> int) list \<Rightarrow> int" where
  "sizes files \<equiv> (\<Sum>x \<leftarrow> files. snd (snd x))"

lemma wrap64_small: "in_int64 x \<Longrightarrow> wrap64 x = x"
  by (simp add: wrap64_def max_int64_def min_int64_def)

lemma sizes_nonneg: "\<forall>x \<in> set files. 0 \<le> snd (snd x) \<Longrightarrow> 0 \<le> sizes files"
  by (induction files) auto

lemma total_size_sum:
  assumes "\<forall>x \<in> set files. 0 \<le> snd (snd x)" "sizes files \<le> max_int64"
  shows "total_size files = sizes files"
proof -
  have "foldl (\<lambda>a (n, d, s). wrap64 (a + s)) acc files = acc + sizes files"
    if "0 \<le> acc" "acc + sizes files \<le> max_int64" for acc
    using that assms(1)
  proof (induction files arbitrary: acc)
    case (Cons x files)
    obtain n d z where x: "x = (n, d, z)" by (cases x) auto
    have "0 \<le> sizes files" using Cons.prems(3) by (intro sizes_nonneg) simp
    then have "wrap64 (acc + z) = acc + z"
      using Cons.prems by (intro wrap64_small) (auto simp: x max_int64_def min_int64_def)
    with Cons show ?case by (simp add: x)
  qed simp
  from this[of 0] assms(2) show ?thesis by (simp add: total_size_def)
qed

text \<open>The oldest files go, one by one, until the rest fits or a single one is left.\<close>

lemma cap_walk_exact:
  assumes "\<forall>x \<in> set files. 0 \<le> snd (snd x)" "sizes files \<le> max_int64"
  shows "\<exists>n. cap_walk (\<lambda>_. True) cap (sizes files) files = map fst (take n files) \<and> n \<le> length files - 1 \<and>
    (sizes (drop n files) \<le> cap \<or> n = length files - 1) \<and> (\<forall>i < n. sizes (drop i files) > cap)"
  using assms
proof (induction "\<lambda>_ :: string. True" cap "sizes files" files rule: cap_walk.induct)
  case (1 cap name d sz y rest)
  show ?case
  proof (cases "sizes ((name, d, sz) # y # rest) > cap")
    case True
    have small: "sizes (y # rest) \<le> max_int64" "0 \<le> sizes (y # rest)"
      using "1.prems" sizes_nonneg[of "y # rest"] by auto
    then have w: "wrap64 (sizes ((name, d, sz) # y # rest) - sz) = sizes (y # rest)"
      by (intro trans[OF wrap64_small]) (auto simp: min_int64_def)
    obtain n where n: "cap_walk (\<lambda>_. True) cap (sizes (y # rest)) (y # rest) = map fst (take n (y # rest))"
        "n \<le> length (y # rest) - 1" "sizes (drop n (y # rest)) \<le> cap \<or> n = length (y # rest) - 1"
        "\<forall>i < n. sizes (drop i (y # rest)) > cap"
      using "1.hyps"(1) True w small "1.prems"(1) by fastforce
    have "\<forall>i < Suc n. sizes (drop i ((name, d, sz) # y # rest)) > cap"
      using n(4) True by (auto simp: less_Suc_eq_0_disj)
    with n True w show ?thesis by (intro exI[of _ "Suc n"]) auto
  next
    case False
    then show ?thesis by (intro exI[of _ 0]) auto
  qed
qed auto

lemma cap_files_nonneg: "x \<in> set (cap_files dir project f) \<Longrightarrow> 0 \<le> snd (snd x)"
  by (auto simp: cap_files_def List.map_filter_def file_size_def split: option.splits)

text \<open>With every removal succeeding and sizes that add up within 64 bits, the size cap removes exactly
  the oldest dated backups, as few as possible, until the rest fits under the cap or one backup is
  left; a backup with the latest date is never removed, and nothing but those backups changes.\<close>

theorem size_cap_exact:
  assumes "sorts_oldest_first csrt" "0 < capBytes" "sizes (cap_files dir project f) \<le> max_int64"
    and files: "files = csrt (cap_files dir project f)"
  shows "\<exists>n. fst (applySizeCap csrt (\<lambda>_. True) True dir project capBytes f) = map fst (take n files) \<and>
    (sizes (drop n files) \<le> capBytes \<or> length files \<le> Suc n) \<and> (\<forall>i < n. sizes (drop i files) > capBytes) \<and>
    (files \<noteq> [] \<longrightarrow> last files \<in> set (drop n files) \<and> (\<forall>x \<in> set files. fst (snd x) \<le> fst (snd (last files)))) \<and>
    (\<forall>p. map_of (snd (applySizeCap csrt (\<lambda>_. True) True dir project capBytes f)) p =
       (if p \<in> (\<lambda>x. path_Join [dir, fst x]) ` set (take n files) then None else map_of f p))"
proof -
  let ?cf = "cap_files dir project f"
  have perm: "mset files = mset ?cf" and ord: "sorted_wrt (\<lambda>a b. fst (snd a) \<le> fst (snd b)) files"
    using assms(1) files by (auto simp: sorts_oldest_first_def)
  have nn: "\<forall>x \<in> set ?cf. 0 \<le> snd (snd x)" using cap_files_nonneg by blast
  then have nn': "\<forall>x \<in> set files. 0 \<le> snd (snd x)" using mset_eq_setD[OF perm] by simp
  have "mset (map (\<lambda>x. snd (snd x)) files) = mset (map (\<lambda>x. snd (snd x)) ?cf)" using perm by simp
  then have eq: "sizes files = sizes ?cf" by (metis sum_mset_sum_list)
  then have tot: "total_size ?cf = sizes files" using total_size_sum[OF nn assms(3)] by simp
  obtain n where n: "cap_walk (\<lambda>_. True) capBytes (sizes files) files = map fst (take n files)" "n \<le> length files - 1"
      "sizes (drop n files) \<le> capBytes \<or> n = length files - 1" "\<forall>i < n. sizes (drop i files) > capBytes"
    using cap_walk_exact[OF nn', of capBytes] eq assms(3) by auto
  have last_ok: "last files \<in> set (drop n files) \<and> (\<forall>x \<in> set files. fst (snd x) \<le> fst (snd (last files)))" if "files \<noteq> []"
  proof
    have "n < length files" using n(2) that by (cases files) auto
    then show "last files \<in> set (drop n files)" by (metis drop_eq_Nil last_drop last_in_set not_le)
    show "\<forall>x \<in> set files. fst (snd x) \<le> fst (snd (last files))"
      using ord that by (induction files rule: rev_induct) (auto simp: sorted_wrt_append)
  qed
  have app: "applySizeCap csrt (\<lambda>_. True) True dir project capBytes f =
      (map fst (take n files), remove_names (\<lambda>_. True) dir (map fst (take n files)) f)"
    using assms(2) n(1) tot files by (simp add: applySizeCap_def Let_def)
  have short: "sizes (drop n files) \<le> capBytes \<or> length files \<le> Suc n" using n(3) by auto
  show ?thesis
    by (intro exI[of _ n] conjI impI) (use app short n(4) last_ok in \<open>auto simp: map_of_remove_names image_image\<close>)
qed

lemma size_cap_exact_witness:
  "fst (applySizeCap stable_oldest (\<lambda>_. True) True ''/b'' ''p'' 2 sample_dir) = [''p_backup_2026-01-05.tar.gz'']"
proof -
  have files: "stable_oldest (cap_files ''/b'' ''p'' sample_dir) =
      [(''p_backup_2026-01-05.tar.gz'', ''2026-01-05'', 1), (''p_backup_2026-01-06.tar.gz'', ''2026-01-06'', 2)]" (is "_ = ?fs")
    unfolding sample_cap_files by code_simp
  have "sizes (cap_files ''/b'' ''p'' sample_dir) \<le> max_int64" by (simp add: sample_cap_files max_int64_def)
  from size_cap_exact[OF stable_oldest_ok _ this refl, of 2] obtain n where
      n: "fst (applySizeCap stable_oldest (\<lambda>_. True) True ''/b'' ''p'' 2 sample_dir) = map fst (take n ?fs)"
      "sizes (drop n ?fs) \<le> 2 \<or> length ?fs \<le> Suc n" "\<forall>i < n. sizes (drop i ?fs) > 2"
    unfolding files by auto
  have "n = 1"
  proof -
    have "n \<noteq> 0" using n(2) by (cases n) simp_all
    moreover have "\<not> 1 < n" using n(3) by force
    ultimately show ?thesis by simp
  qed
  with n(1) show ?thesis by simp
qed

end
