(* ===== verification/Backup_Task.thy ===== *)
theory Backup_Task
  imports Backup_Retention
begin

section \<open>The scheduled backups\<close>

text \<open>
  \<^verbatim>\<open>BackupDaily\<close> and \<^verbatim>\<open>BackupHourly\<close> of \<^verbatim>\<open>src/src/task/task.go\<close> over the archive functions and the
  retention policy. Mails and log lines are left out; the audit events are the list a run
  returns. What the run meets (disk statistics, today's date, failures of the operating
  system) is an environment.
\<close>

record backup_config =
  bc_ProjectName :: string
  bc_ConfigDir :: string
  bc_DataDir :: string
  bc_BackupDir :: string
  bc_AppVersion :: string
  bc_Password :: string
  bc_Compliance :: bool
  bc_Retention :: backup_retention
  bc_DiskThreshold :: int
  bc_Audit :: bool

datatype backup_event =
    EvComplianceBlocked
  | EvSkippedDiskFull
  | EvCreated string int bool
  | EvFailed string
  | EvVerificationFailed string
  | EvDailyUpdated string
  | EvRetentionCleanup "string list" int

record task_env =
  tv_mkdir :: bool
  tv_stats :: "(int \<times> int) option"
  tv_date :: string                        \<comment> \<open>today as 2006-01-02\<close>
  tv_full :: backup_env
  tv_rolling :: backup_env
  tv_tmp :: "(string \<Rightarrow> bool) option"
  tv_tmp2 :: "(string \<Rightarrow> bool) option"
  tv_readable :: "string \<Rightarrow> bool"
  tv_rename :: bool
  tv_rm :: "string \<Rightarrow> bool"
  tv_listed :: bool
  tv_listed2 :: bool
  tv_cap :: int
  tv_sort :: date_sort
  tv_csort :: cap_sort

datatype task_error = TMkdir | TCreate backup_error | TVerify verify_error | TRename

definition remove_file :: "(string \<Rightarrow> bool) \<Rightarrow> string \<Rightarrow> fs \<Rightarrow> fs" where
  "remove_file rm p f = (if rm p then fs_remove p f else f)"

definition rename_file :: "string \<Rightarrow> string \<Rightarrow> fs \<Rightarrow> fs" where
  "rename_file p q f = (case map_of f p of None \<Rightarrow> f | Some b \<Rightarrow> fs_write q b (fs_remove p f))"

definition task_options :: "backup_config \<Rightarrow> string \<Rightarrow> backup_options" where
  "task_options cfg name = \<lparr>bo_ConfigDir = bc_ConfigDir cfg, bo_DataDir = bc_DataDir cfg, bo_BackupDir = bc_BackupDir cfg,
     bo_AppVersion = bc_AppVersion cfg, bo_Password = bc_Password cfg, bo_Filename = name,
     bo_ComplianceEnabled = bc_Compliance cfg\<rparr>"

definition compliancePreCheck :: "backup_config \<Rightarrow> bool" where
  "compliancePreCheck cfg \<longleftrightarrow> bc_Compliance cfg \<and> bc_Password cfg = []"

definition audited :: "backup_config \<Rightarrow> backup_event list \<Rightarrow> backup_event list" where
  "audited cfg evs = (if bc_Audit cfg then evs else [])"

definition full_name :: "backup_config \<Rightarrow> task_env \<Rightarrow> string" where
  "full_name cfg v = bc_ProjectName cfg @ ''_backup_'' @ tv_date v @ backup_ext (bc_Password cfg)"

definition rolling_name :: "backup_config \<Rightarrow> string \<Rightarrow> string" where
  "rolling_name cfg kind = bc_ProjectName cfg @ ''-'' @ kind @ backup_ext (bc_Password cfg)"

abbreviation in_dir :: "backup_config \<Rightarrow> string \<Rightarrow> string" where
  "in_dir cfg name \<equiv> path_Join [bc_BackupDir cfg, name]"

text \<open>Steps 3 and 4: the daily incremental is built beside the old one and takes its place only when it
  verifies. Failures are only logged.\<close>

definition daily_incremental :: "arclib \<Rightarrow> backup_config \<Rightarrow> task_env \<Rightarrow> fs \<Rightarrow> fs \<times> backup_event list" where
  "daily_incremental L cfg v f =
     (let name = rolling_name cfg ''daily''; tmp = in_dir cfg (name @ ''.tmp'');
          (err, f1) = Backup L (tv_rolling v) (task_options cfg (name @ ''.tmp'')) f
      in if err \<noteq> None then (remove_file (tv_rm v) tmp f1, [])
         else if VerifyBackup L (tv_tmp2 v) (tv_readable v) tmp (bc_Password cfg) f1 \<noteq> None
         then (remove_file (tv_rm v) tmp f1, [])
         else if \<not> tv_rename v then (remove_file (tv_rm v) tmp f1, [])
         else (rename_file tmp (in_dir cfg name) f1, audited cfg [EvDailyUpdated name]))"

text \<open>Step 5, with the limit on daily backups raised to one.\<close>

definition daily_retention :: "backup_config \<Rightarrow> task_env \<Rightarrow> fs \<Rightarrow> fs \<times> backup_event list" where
  "daily_retention cfg v f =
     (let ret = bc_Retention cfg; ret' = (if br_MaxBackups ret < 1 then ret\<lparr>br_MaxBackups := 1\<rparr> else ret)
      in case applyRetention (tv_sort v) (tv_csort v) (tv_rm v) (tv_listed v) (tv_listed2 v) (bc_BackupDir cfg)
                (bc_ProjectName cfg) ret' (tv_cap v) f of
           None \<Rightarrow> (f, [])
         | Some (deleted, f') \<Rightarrow>
             (f', audited cfg (if deleted = [] then [] else
                [EvRetentionCleanup deleted
                   (int (length (dated_backups (bc_BackupDir cfg) (bc_ProjectName cfg) f)) - int (length deleted))])))"

definition BackupDaily ::
  "arclib \<Rightarrow> backup_config \<Rightarrow> task_env \<Rightarrow> fs \<Rightarrow> task_error option \<times> fs \<times> backup_event list" where
  "BackupDaily L cfg v f =
     (if \<not> tv_mkdir v then (Some TMkdir, f, [])
      else if compliancePreCheck cfg then (None, f, audited cfg [EvComplianceBlocked])
      else if diskPreCheck (tv_stats v) (bc_BackupDir cfg) (bc_ProjectName cfg) (bc_DiskThreshold cfg) f
      then (None, f, audited cfg [EvSkippedDiskFull])
      else
        let name = full_name cfg v; full = in_dir cfg name;
            (err, f1) = Backup L (tv_full v) (task_options cfg name) f
        in case err of
             Some e \<Rightarrow> (Some (TCreate e), remove_file (tv_rm v) full f1, audited cfg [EvFailed name])
           | None \<Rightarrow>
               (case VerifyBackup L (tv_tmp v) (tv_readable v) full (bc_Password cfg) f1 of
                  Some e \<Rightarrow> (Some (TVerify e), remove_file (tv_rm v) full f1, audited cfg [EvVerificationFailed name])
                | None \<Rightarrow>
                    let created = EvCreated name (int (length (file_bytes f1 full))) (bc_Password cfg \<noteq> []);
                        (f2, ev2) = daily_incremental L cfg v f1;
                        (f3, ev3) = daily_retention cfg v f2
                    in (None, f3, audited cfg [created] @ ev2 @ ev3)))"

definition BackupHourly ::
  "arclib \<Rightarrow> backup_config \<Rightarrow> task_env \<Rightarrow> fs \<Rightarrow> task_error option \<times> fs \<times> backup_event list" where
  "BackupHourly L cfg v f =
     (if \<not> tv_mkdir v then (Some TMkdir, f, [])
      else if compliancePreCheck cfg then (None, f, audited cfg [EvComplianceBlocked])
      else
        let name = rolling_name cfg ''hourly''; hourly = in_dir cfg name; tmp = in_dir cfg (name @ ''.tmp'');
            (err, f1) = Backup L (tv_rolling v) (task_options cfg (name @ ''.tmp'')) f
        in case err of
             Some e \<Rightarrow> (Some (TCreate e), remove_file (tv_rm v) tmp f1, audited cfg [EvFailed name])
           | None \<Rightarrow>
               (case VerifyBackup L (tv_tmp v) (tv_readable v) tmp (bc_Password cfg) f1 of
                  Some e \<Rightarrow> (Some (TVerify e), remove_file (tv_rm v) tmp f1, audited cfg [EvVerificationFailed name])
                | None \<Rightarrow>
                    if \<not> tv_rename v then (Some TRename, remove_file (tv_rm v) tmp f1, audited cfg [EvFailed name])
                    else let f2 = rename_file tmp hourly f1
                         in (None, f2, audited cfg [EvCreated name (int (length (file_bytes f2 hourly))) (bc_Password cfg \<noteq> [])])))"

subsection \<open>What a run touches\<close>

lemma Backup_only_dest:
  "p \<noteq> backup_dest e opts \<Longrightarrow> map_of (snd (Backup L e opts f)) p = map_of f p"
  by (auto simp: Backup_def write_file_def split: sum.split write_outcome.split)

lemma task_dest: "name \<noteq> [] \<Longrightarrow> backup_dest e (task_options cfg name) = in_dir cfg name"
  by (simp add: backup_dest_def backup_filename_def task_options_def)

lemma full_name_nonempty [simp]: "full_name cfg v \<noteq> []"
  by (simp add: full_name_def)

lemma rolling_name_nonempty [simp]: "rolling_name cfg kind \<noteq> []"
  by (simp add: rolling_name_def)

lemma map_of_remove_file: "map_of (remove_file rm p f) q = (if q = p \<and> rm p then None else map_of f q)"
  by (simp add: remove_file_def)

lemma map_of_rename_file:
  "map_of f p = Some b \<Longrightarrow> p \<noteq> q \<Longrightarrow> map_of (rename_file p q f) r = (if r = q then Some b else if r = p then None else map_of f r)"
  by (simp add: rename_file_def)

lemma verified_exists: "VerifyBackup L t rd p pw f = None \<Longrightarrow> \<exists>b. map_of f p = Some b"
  by (auto simp: VerifyBackup_def split: option.splits)

lemma verify_same_file:
  "map_of f' p = map_of f p \<Longrightarrow> VerifyBackup L t rd p pw f' = VerifyBackup L t rd p pw f"
  by (simp add: VerifyBackup_def)

lemma has_suffix_iff: "has_suffix s p \<longleftrightarrow> (\<exists>a. s = a @ p)"
  unfolding has_suffix_def by (metis append_take_drop_id length_append le_add2 add_diff_cancel_right' append_eq_conv_conj)

lemma trim_suffix_append [simp]: "trim_suffix (a @ p) p = a"
  by (simp add: trim_suffix_def has_suffix_iff)

lemma last_differs: "b \<noteq> [] \<Longrightarrow> p \<noteq> [] \<Longrightarrow> last b \<noteq> last p \<Longrightarrow> \<not> has_suffix (a @ b) p"
  by (metis has_suffix_iff last_appendR)

lemma plain_elem_long: "CHR ''/'' \<notin> set n \<Longrightarrow> 2 < length n \<Longrightarrow> plain_elem n"
  by (auto simp: plain_elem_def)

lemma ext_facts: "CHR ''/'' \<notin> set (backup_ext pw)" "3 < length (backup_ext pw)"
  "last (backup_ext pw) = (if pw = [] then CHR ''z'' else CHR ''c'')"
  by (simp_all add: backup_ext_def)

lemma plain_rolling: "CHR ''/'' \<notin> set (bc_ProjectName cfg) \<Longrightarrow> CHR ''/'' \<notin> set kind \<Longrightarrow> plain_elem (rolling_name cfg kind)"
  using ext_facts[of "bc_Password cfg"] by (intro plain_elem_long) (simp_all add: rolling_name_def)

lemma rolling_paths:
  assumes "clean_dir (bc_BackupDir cfg)" "CHR ''/'' \<notin> set (bc_ProjectName cfg)" "CHR ''/'' \<notin> set kind"
  shows "in_dir cfg (rolling_name cfg kind) = bc_BackupDir cfg @ CHR ''/'' # rolling_name cfg kind"
    "in_dir cfg (rolling_name cfg kind @ ''.tmp'') = in_dir cfg (rolling_name cfg kind) @ ''.tmp''"
    "trim_suffix (in_dir cfg (rolling_name cfg kind)) ''.tmp'' = in_dir cfg (rolling_name cfg kind)"
proof -
  note pl = plain_rolling[OF assms(2,3)]
  have "plain_elem (rolling_name cfg kind @ ''.tmp'')" using pl by (intro plain_elem_long) (auto simp: plain_elem_def rolling_name_def)
  with pl show 1: "in_dir cfg (rolling_name cfg kind) = bc_BackupDir cfg @ CHR ''/'' # rolling_name cfg kind"
    and "in_dir cfg (rolling_name cfg kind @ ''.tmp'') = in_dir cfg (rolling_name cfg kind) @ ''.tmp''"
    using clean_dir_sub(1)[OF assms(1)] by simp_all
  have "\<not> has_suffix ((bc_BackupDir cfg @ CHR ''/'' # bc_ProjectName cfg @ ''-'' @ kind) @ backup_ext (bc_Password cfg)) ''.tmp''"
    by (rule last_differs) (simp_all add: ext_facts(3), simp add: backup_ext_def)
  then have "\<not> has_suffix (in_dir cfg (rolling_name cfg kind)) ''.tmp''"
    by (simp only: 1) (simp add: rolling_name_def)
  then show "trim_suffix (in_dir cfg (rolling_name cfg kind)) ''.tmp'' = in_dir cfg (rolling_name cfg kind)"
    by (simp add: trim_suffix_def)
qed

text \<open>A daily run that fails to create or to verify the dated archive leaves every other file alone,
  reports one audit event and removes the file of today's name. That is also the name of a backup
  made earlier the same day: it is gone even when the new archive was never begun, although the
  task promises to preserve existing backups.\<close>

theorem failed_daily_backup:
  assumes "BackupDaily L cfg v f = (Some err, f', ev)" "err \<noteq> TMkdir" "tv_rm v (in_dir cfg (full_name cfg v))"
  shows "map_of f' = (map_of f)(in_dir cfg (full_name cfg v) := None) \<and>
    ev = audited cfg [if \<exists>e. err = TCreate e then EvFailed (full_name cfg v) else EvVerificationFailed (full_name cfg v)]"
proof -
  let ?p = "in_dir cfg (full_name cfg v)"
  obtain e1 f1 where b: "Backup L (tv_full v) (task_options cfg (full_name cfg v)) f = (e1, f1)" by fastforce
  have "map_of f1 q = map_of f q" if "q \<noteq> ?p" for q
    using Backup_only_dest[of q "tv_full v" "task_options cfg (full_name cfg v)" L f] that by (simp add: b task_dest)
  then have "map_of (remove_file (tv_rm v) ?p f1) = (map_of f)(?p := None)"
    using assms(3) by (auto simp: map_of_remove_file fun_eq_iff)
  with assms(1,2) b show ?thesis
    by (auto simp: BackupDaily_def Let_def split: if_splits option.splits prod.splits)
qed

definition sample_cfg :: backup_config where
  "sample_cfg = \<lparr>bc_ProjectName = ''pb'', bc_ConfigDir = ''/etc/pb'', bc_DataDir = ''/var/pb'', bc_BackupDir = ''/var/bk'',
     bc_AppVersion = ''1'', bc_Password = ''pw'', bc_Compliance = True,
     bc_Retention = \<lparr>br_MaxBackups = 0, br_KeepWeekly = 0, br_KeepMonthly = 0, br_KeepYearly = 0\<rparr>,
     bc_DiskThreshold = 0, bc_Audit = True\<rparr>"

definition sample_task :: "(string \<Rightarrow> bool) \<Rightarrow> task_env" where
  "sample_task readable = \<lparr>tv_mkdir = True, tv_stats = None, tv_date = ''2026-01-05'', tv_full = sample_env\<lparr>be_readable := readable\<rparr>,
     tv_rolling = sample_env, tv_tmp = Some (\<lambda>_. True), tv_tmp2 = Some (\<lambda>_. True), tv_readable = (\<lambda>_. True), tv_rename = True,
     tv_rm = (\<lambda>_. True), tv_listed = True, tv_listed2 = True, tv_cap = 0, tv_sort = stable_newest, tv_csort = stable_oldest\<rparr>"

lemma sample_task_paths:
  "in_dir sample_cfg (full_name sample_cfg (sample_task rd)) = ''/var/bk/pb_backup_2026-01-05.tar.gz.enc''"
  "in_dir sample_cfg (rolling_name sample_cfg ''hourly'') = ''/var/bk/pb-hourly.tar.gz.enc''"
  by (simp_all add: full_name_def rolling_name_def sample_cfg_def sample_task_def backup_ext_def) code_simp+

lemma sample_task_entries: "backup_entries (task_options sample_cfg n) f = backup_entries sample_opts f"
  by (simp add: backup_entries_def task_options_def sample_cfg_def sample_opts_def)

text \<open>Today's backup exists and the configuration file cannot be read.\<close>

lemma failed_daily_backup_witness:
  "map_of (fst (snd (BackupDaily plain_codec sample_cfg (sample_task (\<lambda>p. p \<noteq> ''/etc/pb/server.yml''))
     (sample_fs ''v1'' @ [(''/var/bk/pb_backup_2026-01-05.tar.gz.enc'', ''good'')])))) ''/var/bk/pb_backup_2026-01-05.tar.gz.enc'' = None"
proof -
  let ?v = "sample_task (\<lambda>p. p \<noteq> ''/etc/pb/server.yml'')"
  let ?f = "sample_fs ''v1'' @ [(''/var/bk/pb_backup_2026-01-05.tar.gz.enc'', ''good'')]"
  obtain r f' ev where run: "BackupDaily plain_codec sample_cfg ?v ?f = (r, f', ev)" by (rule prod_cases3)
  have "fst (BackupDaily plain_codec sample_cfg ?v ?f) = Some (TCreate (Archiving ''server.yml''))" by code_simp
  with run have "BackupDaily plain_codec sample_cfg ?v ?f = (Some (TCreate (Archiving ''server.yml'')), f', ev)" by simp
  from failed_daily_backup[OF this] show ?thesis
    unfolding run sample_task_paths by (simp add: sample_task_def)
qed

text \<open>The hourly run never loses the previous archive: on an error every file but the temporary one is
  as before, and when it succeeds the archive in its place verifies with the configured password.\<close>

theorem hourly_backup_atomic:
  assumes "BackupHourly L cfg v f = (err, f', ev)"
    and "tmp = in_dir cfg (rolling_name cfg ''hourly'' @ ''.tmp'')" "hourly = in_dir cfg (rolling_name cfg ''hourly'')"
    and "clean_dir (bc_BackupDir cfg)" "CHR ''/'' \<notin> set (bc_ProjectName cfg)" "tv_readable v hourly"
  shows "(\<forall>p. p \<noteq> tmp \<longrightarrow> p \<noteq> hourly \<longrightarrow> map_of f' p = map_of f p) \<and>
    (err \<noteq> None \<longrightarrow> map_of f' hourly = map_of f hourly) \<and>
    (err = None \<longrightarrow> \<not> compliancePreCheck cfg \<longrightarrow> VerifyBackup L (tv_tmp v) (tv_readable v) hourly (bc_Password cfg) f' = None)"
proof -
  obtain e1 f1 where b: "Backup L (tv_rolling v) (task_options cfg (rolling_name cfg ''hourly'' @ ''.tmp'')) f = (e1, f1)" by fastforce
  have keep: "map_of f1 q = map_of f q" if "q \<noteq> tmp" for q
    using Backup_only_dest[of q "tv_rolling v" "task_options cfg (rolling_name cfg ''hourly'' @ ''.tmp'')" L f] that
    by (simp add: b task_dest assms(2))
  have "tmp = hourly @ ''.tmp''" "trim_suffix hourly ''.tmp'' = hourly"
    unfolding assms(2,3) by (rule rolling_paths[OF assms(4,5)], simp)+
  then have names: "tmp \<noteq> hourly" "trim_suffix tmp ''.tmp'' = trim_suffix hourly ''.tmp''" by simp_all
  let ?verdict = "VerifyBackup L (tv_tmp v) (tv_readable v) tmp (bc_Password cfg) f1"
  show ?thesis
  proof (cases "tv_mkdir v \<and> \<not> compliancePreCheck cfg \<and> e1 = None \<and> ?verdict = None \<and> tv_rename v")
    case True
    obtain x where x: "map_of f1 tmp = Some x" using True verified_exists by blast
    have "err = None" "f' = rename_file tmp hourly f1"
      using assms(1) True b by (auto simp: BackupHourly_def Let_def assms(2,3))
    moreover have "VerifyBackup L (tv_tmp v) (tv_readable v) hourly (bc_Password cfg) (rename_file tmp hourly f1) = None"
      using True x names(2) assms(6) map_of_rename_file[OF x names(1)] by (auto simp: VerifyBackup_def split: if_splits)
    ultimately show ?thesis using keep map_of_rename_file[OF x names(1)] by auto
  next
    case False
    then have "f' = f \<or> f' = remove_file (tv_rm v) tmp f1" "err \<noteq> None \<or> compliancePreCheck cfg"
      using assms(1) b by (auto simp: BackupHourly_def Let_def assms(2,3) split: if_splits option.splits)
    then show ?thesis using keep names(1) by (auto simp: map_of_remove_file)
  qed
qed

lemma sample_task_verifies:
  assumes "e \<in> {tv_full (sample_task (\<lambda>_. True)), tv_rolling (sample_task (\<lambda>_. True))}" "n \<noteq> []"
    and "has_suffix (trim_suffix (in_dir sample_cfg n) ''.tmp'') ''.enc''"
  shows "\<exists>f1. Backup plain_codec e (task_options sample_cfg n) (sample_fs db) = (None, f1) \<and>
    (length db \<le> 100 \<longrightarrow> VerifyBackup plain_codec (Some (\<lambda>_. True)) (\<lambda>_. True) (in_dir sample_cfg n) ''pw'' f1 = None)"
proof -
  let ?o = "task_options sample_cfg n"
  have e: "e = sample_env" using assms(1) by (auto simp: sample_task_def sample_env_def)
  have pw: "bo_Password ?o = ''pw''" by (simp add: task_options_def sample_cfg_def)
  have "fst (Backup plain_codec e ?o (sample_fs db)) = None"
    unfolding Backup_def backup_archive_def sample_task_entries sample_entries e
    by (simp add: sample_env_def task_options_def sample_cfg_def plain_codec_def encrypt_def)
  then obtain f1 where f1: "Backup plain_codec e ?o (sample_fs db) = (None, f1)" by (metis prod.collapse)
  have "backup_ready (\<lambda>_. True) ?o (sample_fs db)" if "length db \<le> 100"
    using sample_fs_ok that by (simp add: backup_ready_def sample_task_entries sample_entries sample_bytes verifySQLiteMagic_def
        entry_cap_def has_suffix_def) (simp add: task_options_def sample_cfg_def sample_opts_def)
  then have "VerifyBackup plain_codec (Some (\<lambda>_. True)) (\<lambda>_. True) (in_dir sample_cfg n) ''pw'' f1 = None" if "length db \<le> 100"
    using fresh_backup_verifies[OF plain_codec_ok _ _ _ f1, of "\<lambda>_. True" f1 "\<lambda>_. True"] that assms(2,3) sample_random
    by (simp add: task_dest e pw)
  with f1 show ?thesis by blast
qed

lemma hourly_backup_atomic_witness:
  "VerifyBackup plain_codec (Some (\<lambda>_. True)) (\<lambda>_. True) ''/var/bk/pb-hourly.tar.gz.enc'' ''pw''
     (fst (snd (BackupHourly plain_codec sample_cfg (sample_task (\<lambda>_. True)) (sample_fs ''v1'')))) = None"
proof -
  let ?v = "sample_task (\<lambda>_. True)" and ?n = "rolling_name sample_cfg ''hourly''"
  obtain r f' ev where run: "BackupHourly plain_codec sample_cfg ?v (sample_fs ''v1'') = (r, f', ev)" by (rule prod_cases3)
  have clean: "clean_dir (bc_BackupDir sample_cfg)" "CHR ''/'' \<notin> set (bc_ProjectName sample_cfg)"
    by (intro clean_dirI; code_simp) code_simp
  note paths = rolling_paths[OF clean, of "''hourly''"]
  have "has_suffix (in_dir sample_cfg ?n) ''.enc''" unfolding sample_task_paths by code_simp
  then have "has_suffix (trim_suffix (in_dir sample_cfg (?n @ ''.tmp'')) ''.tmp'') ''.enc''" using paths(2) by simp
  then obtain f1 where "Backup plain_codec (tv_rolling ?v) (task_options sample_cfg (?n @ ''.tmp'')) (sample_fs ''v1'') = (None, f1)"
      "VerifyBackup plain_codec (Some (\<lambda>_. True)) (\<lambda>_. True) (in_dir sample_cfg (?n @ ''.tmp'')) ''pw'' f1 = None"
    using sample_task_verifies[of "tv_rolling ?v" "?n @ ''.tmp''" "''v1''"] by auto
  moreover have fields: "tv_tmp ?v = Some (\<lambda>_. True)" "tv_readable ?v = (\<lambda>_. True)" "bc_Password sample_cfg = ''pw''"
      "tv_mkdir ?v" "\<not> compliancePreCheck sample_cfg" "tv_rename ?v"
    by (simp_all add: sample_task_def sample_cfg_def compliancePreCheck_def)
  ultimately have "r = None" using run by (simp add: BackupHourly_def Let_def)
  with hourly_backup_atomic[OF run refl refl clean] fields
  have "VerifyBackup plain_codec (Some (\<lambda>_. True)) (\<lambda>_. True) (in_dir sample_cfg ?n) ''pw'' f' = None" by simp
  then show ?thesis unfolding run sample_task_paths by simp
qed

subsection \<open>A successful daily run\<close>

lemma in_ReadDir: "n \<in> set (ReadDir dir f) \<longleftrightarrow> n \<noteq> [] \<and> CHR ''/'' \<notin> set n \<and> dir @ CHR ''/'' # n \<in> fst ` set f"
  by (force simp: ReadDir_def has_prefix_iff)

lemma keys_map_of: "p \<in> fst ` set f \<longleftrightarrow> map_of f p \<noteq> None"
  by (simp add: map_of_eq_None_iff)

lemma in_dated:
  "(n, t) \<in> set (dated_backups dir project f) \<longleftrightarrow>
     n \<noteq> [] \<and> CHR ''/'' \<notin> set n \<and> map_of f (dir @ CHR ''/'' # n) \<noteq> None \<and> project_backup project n \<and>
     Option.bind (backup_date n) parse_day = Some t"
  unfolding dated_backups_def List.map_filter_def by (force simp: in_ReadDir keys_map_of split: option.splits)

lemma distinct_fs:
  "distinct (map fst f) \<Longrightarrow> distinct (map fst (fs_write p b f))"
  "distinct (map fst f) \<Longrightarrow> distinct (map fst (fs_remove p f))"
proof -
  have "map fst (map (\<lambda>(q, c). if q = p then (q, b) else (q, c)) f) = map fst f" by (induction f) auto
  then have "map fst (fs_write p b f) = (if p \<in> fst ` set f then map fst f else map fst f @ [p])"
    by (simp only: fs_write_def split: if_split) simp
  then show "distinct (map fst f) \<Longrightarrow> distinct (map fst (fs_write p b f))" by simp
  show "distinct (map fst f) \<Longrightarrow> distinct (map fst (fs_remove p f))"
    by (simp add: fs_remove_def distinct_map_filter)
qed

lemma distinct_Backup: "distinct (map fst f) \<Longrightarrow> distinct (map fst (snd (Backup L e opts f)))"
  by (auto simp: Backup_def write_file_def distinct_fs split: sum.split write_outcome.split)

lemma distinct_incremental: "distinct (map fst f) \<Longrightarrow> distinct (map fst (fst (daily_incremental L cfg v f)))"
  using distinct_Backup[of f L "tv_rolling v" "task_options cfg (rolling_name cfg ''daily'' @ ''.tmp'')"]
  by (auto simp: daily_incremental_def Let_def remove_file_def rename_file_def distinct_fs split: prod.split option.split)

lemma incremental_touches:
  assumes "p \<noteq> in_dir cfg (rolling_name cfg ''daily'')" "p \<noteq> in_dir cfg (rolling_name cfg ''daily'' @ ''.tmp'')"
  shows "map_of (fst (daily_incremental L cfg v f)) p = map_of f p"
  using Backup_only_dest[of p "tv_rolling v" "task_options cfg (rolling_name cfg ''daily'' @ ''.tmp'')" L f] assms
  by (auto simp: daily_incremental_def Let_def remove_file_def rename_file_def task_dest split: prod.split option.split)

lemma backup_date_full: "date_shape d \<Longrightarrow> backup_date (project @ ''_backup_'' @ d @ backup_ext pw) = Some d"
proof -
  assume d: "date_shape d"
  let ?stem = "project @ ''_backup_'' @ d"
  have len: "length d = 10" using d by (simp add: date_shape_def)
  have "has_suffix (project @ ''_backup_'') ''_backup_''" by (simp add: has_suffix_iff)
  then have core: "has_suffix (take (length ?stem - 10) ?stem) ''_backup_''" "drop (length ?stem - 10) ?stem = d"
    using len by simp_all
  have "\<not> has_suffix (?stem @ ''.tar.gz'') ''.tar.gz.enc''" by (rule last_differs) simp_all
  then have "(if has_suffix (?stem @ backup_ext pw) ''.tar.gz.enc'' then trim_suffix (?stem @ backup_ext pw) ''.tar.gz.enc''
      else trim_suffix (?stem @ backup_ext pw) ''.tar.gz'') = ?stem"
    by (auto simp: backup_ext_def has_suffix_iff simp del: append_assoc)
  then show ?thesis using core d ext_facts(2)[of pw] unfolding backup_date_def Let_def by auto
qed

lemma date_no_slash:
  assumes "date_shape s"
  shows "CHR ''/'' \<notin> set s"
proof -
  have "s = take 4 s @ s ! 4 # drop 5 s" using assms id_take_nth_drop[of 4 s] by (simp add: date_shape_def)
  moreover have "drop 5 s = take 2 (drop 5 s) @ s ! 7 # drop 8 s"
    using assms id_take_nth_drop[of 2 "drop 5 s"] by (simp add: date_shape_def)
  ultimately have s: "s = take 4 s @ s ! 4 # take 2 (drop 5 s) @ s ! 7 # drop 8 s" by simp
  have "c \<in> set (take 4 s @ take 2 (drop 5 s) @ drop 8 s) \<or> c = s ! 4 \<or> c = s ! 7" if "c \<in> set s" for c
    using that by (subst (asm) s) auto
  then show ?thesis using assms unfolding date_shape_def list_all_iff is_digit_def digit_val_def by fastforce
qed

lemma not_in_dir:
  assumes "clean_dir d" "n \<notin> S" "\<And>m. m \<in> S \<Longrightarrow> plain_elem m" "plain_elem n"
  shows "path_Join [d, n] \<notin> (\<lambda>m. path_Join [d, m]) ` S"
proof
  assume "path_Join [d, n] \<in> (\<lambda>m. path_Join [d, m]) ` S"
  then obtain m where m: "m \<in> S" "path_Join [d, n] = path_Join [d, m]" by blast
  have "d @ CHR ''/'' # n = d @ CHR ''/'' # m"
    using m(2) clean_dir_sub(1)[OF assms(1) assms(4)] clean_dir_sub(1)[OF assms(1) assms(3)[OF m(1)]] by argo
  then show False using m(1) assms(2) by simp
qed

lemma applyRetention_uncapped:
  "capBytes \<le> 0 \<Longrightarrow> applyRetention srt csrt rm listed listed2 dir project ret capBytes f =
     (if listed then let doomed = retention_walk ret (\<lambda>_. 0) (srt (dated_backups dir project f))
        in Some (filter (\<lambda>n. rm (path_Join [dir, n])) doomed, remove_names rm dir doomed f) else None)"
  by (simp add: applyRetention_def applySizeCap_def Let_def)

lemma newest_is_first:
  assumes "sorted_wrt (\<lambda>a b. snd b \<le> snd a) bs" "x \<in> set bs" "\<And>y. y \<in> set bs \<Longrightarrow> y \<noteq> x \<Longrightarrow> snd y < (snd x :: int)"
  shows "hd bs = x"
proof (cases bs)
  case (Cons y ys)
  show ?thesis
  proof (rule ccontr)
    assume "hd bs \<noteq> x"
    with Cons assms(2) have "x \<in> set ys" "y \<noteq> x" by auto
    then show False using assms(1,3) Cons by (metis list.set_intros(1) not_le sorted_wrt.simps(2))
  qed
qed (use assms in simp)

lemma dated_plain: "n \<in> fst ` set (dated_backups dir project f) \<Longrightarrow> plain_elem n"
proof -
  assume "n \<in> fst ` set (dated_backups dir project f)"
  then obtain t where "(n, t) \<in> set (dated_backups dir project f)" by fastforce
  then show ?thesis by (intro plain_elem_long) (auto simp: in_dated has_prefix_iff)
qed

text \<open>A backup that is strictly newer than every other survives the retention of the daily task.\<close>

lemma retention_keeps_newest:
  assumes "sorts_newest_first (tv_sort v)" "distinct (map fst f)" "tv_cap v \<le> 0" "clean_dir (bc_BackupDir cfg)"
    and x: "(n, t) \<in> set (dated_backups (bc_BackupDir cfg) (bc_ProjectName cfg) f)"
    and newest: "\<And>m u. (m, u) \<in> set (dated_backups (bc_BackupDir cfg) (bc_ProjectName cfg) f) \<Longrightarrow> m \<noteq> n \<Longrightarrow> u < t"
  shows "map_of (fst (daily_retention cfg v f)) (in_dir cfg n) = map_of f (in_dir cfg n)"
proof -
  let ?ds = "dated_backups (bc_BackupDir cfg) (bc_ProjectName cfg) f"
  let ?ret = "if br_MaxBackups (bc_Retention cfg) < 1 then (bc_Retention cfg)\<lparr>br_MaxBackups := 1\<rparr> else bc_Retention cfg"
  let ?bs = "tv_sort v ?ds"
  let ?doomed = "retention_walk ?ret (\<lambda>_. 0) ?bs"
  have perm: "mset ?bs = mset ?ds" and ord: "sorted_wrt (\<lambda>a b. snd b \<le> snd a) ?bs"
    using assms(1) by (auto simp: sorts_newest_first_def)
  have setb: "set ?bs = set ?ds" using mset_eq_setD[OF perm] .
  have dist: "distinct (map fst ?bs)" using distinct_dated[OF assms(2)] perm by (metis mset_map mset_eq_imp_distinct_iff)
  have uniq: "u = t" if "(n, u) \<in> set ?ds" for u using that x by (simp add: in_dated)
  have "hd ?bs = (n, t)"
  proof (rule newest_is_first[OF ord])
    show "(n, t) \<in> set ?bs" using x setb by simp
    show "snd y < snd (n, t)" if "y \<in> set ?bs" "y \<noteq> (n, t)" for y
      using newest[of "fst y" "snd y"] uniq[of "snd y"] that unfolding setb by (metis prod.collapse snd_conv)
  qed
  then obtain rest where bs: "?bs = (n, t) # rest" using x setb by (cases ?bs) auto
  have kept: "n \<notin> set ?doomed" using walk_newest[of ?ret "(n, t)" rest] dist unfolding bs by auto
  have "plain_elem m" if "m \<in> set ?doomed" for m
    using walk_subset[of ?ret "\<lambda>_. 0" ?bs] that dated_plain setb by blast
  moreover have "plain_elem n" using dated_plain x by force
  ultimately have "in_dir cfg n \<notin> (\<lambda>m. in_dir cfg m) ` set ?doomed" by (rule not_in_dir[OF assms(4) kept])
  then have "map_of (remove_names (tv_rm v) (bc_BackupDir cfg) ?doomed f) (in_dir cfg n) = map_of f (in_dir cfg n)"
    by (simp only: map_of_remove_names set_filter) auto
  moreover have "fst (daily_retention cfg v f) =
      (if tv_listed v then remove_names (tv_rm v) (bc_BackupDir cfg) ?doomed f else f)"
    unfolding daily_retention_def Let_def applyRetention_uncapped[OF assms(3)] by (cases "tv_listed v") simp_all
  ultimately show ?thesis by simp
qed

text \<open>C25: a daily run that was not skipped and reports success leaves an archive under today's
  name that verifies with the configured password, after the incremental has been replaced and
  old backups have been pruned. It needs every other dated backup of the project, the archive of
  today in the other form (encrypted or not) included, to be of an earlier day, and no size cap
  to be set; assumed are also a backup directory given as a clean path, a project name without a
  slash, distinct file names, a well-formed date for today, and a sort that orders the backups
  newest first.\<close>

theorem daily_backup_verified:
  assumes run: "BackupDaily L cfg v f = (None, f', ev)"
    and go: "\<not> compliancePreCheck cfg"
      "\<not> diskPreCheck (tv_stats v) (bc_BackupDir cfg) (bc_ProjectName cfg) (bc_DiskThreshold cfg) f"
    and env: "clean_dir (bc_BackupDir cfg)" "CHR ''/'' \<notin> set (bc_ProjectName cfg)" "distinct (map fst f)"
      "sorts_newest_first (tv_sort v)" "tv_cap v \<le> 0"
    and today: "date_shape (tv_date v)" "parse_day (tv_date v) = Some t"
      "\<forall>(m, u) \<in> set (dated_backups (bc_BackupDir cfg) (bc_ProjectName cfg) f). m \<noteq> full_name cfg v \<longrightarrow> u < t"
  shows "VerifyBackup L (tv_tmp v) (tv_readable v) (in_dir cfg (full_name cfg v)) (bc_Password cfg) f' = None"
proof -
  let ?n = "full_name cfg v" and ?d = "rolling_name cfg ''daily''" and ?D = "bc_BackupDir cfg"
  let ?p = "in_dir cfg ?n"
  obtain f1 where b: "Backup L (tv_full v) (task_options cfg ?n) f = (None, f1)"
      and ok: "VerifyBackup L (tv_tmp v) (tv_readable v) ?p (bc_Password cfg) f1 = None"
      and f': "f' = fst (daily_retention cfg v (fst (daily_incremental L cfg v f1)))"
    using run go by (auto simp: BackupDaily_def Let_def split: if_splits option.splits prod.splits)
  define f2 where "f2 = fst (daily_incremental L cfg v f1)"
  have slash: "CHR ''/'' \<notin> set (tv_date v)" using date_no_slash[OF today(1)] .
  have plain: "plain_elem ?n" "plain_elem ?d" "plain_elem (?d @ ''.tmp'')"
    using env(2) slash ext_facts[of "bc_Password cfg"]
    by (intro plain_elem_long; simp add: full_name_def rolling_name_def)+
  note path = plain[THEN clean_dir_sub(1)[OF env(1)]]
  have differ: "?n \<noteq> ?d" "?n \<noteq> ?d @ ''.tmp''" by (simp_all add: full_name_def rolling_name_def)
  have undated: "\<not> project_backup (bc_ProjectName cfg) ?d" "\<not> project_backup (bc_ProjectName cfg) (?d @ ''.tmp'')"
    by (simp_all add: rolling_name_def has_prefix_iff)
  have same: "map_of f2 ?p = map_of f1 ?p"
    unfolding f2_def using differ by (intro incremental_touches) (simp_all add: path)
  have old: "map_of f2 q = map_of f q" if "q \<notin> {?p, in_dir cfg ?d, in_dir cfg (?d @ ''.tmp'')}" for q
    using incremental_touches[of q cfg L v f1] Backup_only_dest[of q "tv_full v" "task_options cfg ?n" L f] that
    by (simp add: f2_def b task_dest)
  have "distinct (map fst f2)"
    using distinct_incremental distinct_Backup[OF env(3), of L "tv_full v" "task_options cfg ?n"] by (simp add: f2_def b)
  moreover have "(?n, t) \<in> set (dated_backups ?D (bc_ProjectName cfg) f2)"
    using verified_exists[OF ok] same plain(1) path(1) today(1,2) backup_date_full[OF today(1), of "bc_ProjectName cfg" "bc_Password cfg"]
    by (auto simp: in_dated plain_elem_def full_name_def has_prefix_iff)
  moreover have "u < t" if "(m, u) \<in> set (dated_backups ?D (bc_ProjectName cfg) f2)" "m \<noteq> ?n" for m u
  proof -
    have "m \<noteq> ?d" "m \<noteq> ?d @ ''.tmp''" using that(1) undated by (auto simp: in_dated)
    then have "map_of f2 (?D @ CHR ''/'' # m) = map_of f (?D @ CHR ''/'' # m)" using that(2) by (intro old) (simp add: path)
    then have "(m, u) \<in> set (dated_backups ?D (bc_ProjectName cfg) f)" using that(1) by (simp add: in_dated)
    with today(3) that(2) show ?thesis by auto
  qed
  ultimately have "map_of f' ?p = map_of f2 ?p"
    unfolding f' f2_def[symmetric] using env by (intro retention_keeps_newest) auto
  with ok same verify_same_file show ?thesis by metis
qed

lemma daily_backup_verified_witness:
  "VerifyBackup plain_codec (Some (\<lambda>_. True)) (\<lambda>_. True) ''/var/bk/pb_backup_2026-01-05.tar.gz.enc'' ''pw''
     (fst (snd (BackupDaily plain_codec sample_cfg (sample_task (\<lambda>_. True)) (sample_fs ''v1'')))) = None"
proof -
  let ?v = "sample_task (\<lambda>_. True)" and ?f = "sample_fs ''v1''"
  let ?n = "full_name sample_cfg ?v"
  obtain r f' ev where run: "BackupDaily plain_codec sample_cfg ?v ?f = (r, f', ev)" by (rule prod_cases3)
  have clean: "clean_dir (bc_BackupDir sample_cfg)" "CHR ''/'' \<notin> set (bc_ProjectName sample_cfg)"
    by (intro clean_dirI; code_simp) code_simp
  have "has_suffix (trim_suffix (in_dir sample_cfg ?n) ''.tmp'') ''.enc''" unfolding sample_task_paths by code_simp
  then obtain f1 where b: "Backup plain_codec (tv_full ?v) (task_options sample_cfg ?n) ?f = (None, f1)"
      "VerifyBackup plain_codec (Some (\<lambda>_. True)) (\<lambda>_. True) (in_dir sample_cfg ?n) ''pw'' f1 = None"
    using sample_task_verifies[of "tv_full ?v" ?n "''v1''"] by auto
  have fields: "tv_tmp ?v = Some (\<lambda>_. True)" "tv_readable ?v = (\<lambda>_. True)" "bc_Password sample_cfg = ''pw''" "tv_mkdir ?v"
      "tv_sort ?v = stable_newest" "tv_cap ?v = 0" "tv_stats ?v = None" "tv_date ?v = ''2026-01-05''"
    by (simp_all add: sample_task_def sample_cfg_def)
  have go: "\<not> compliancePreCheck sample_cfg"
    "\<not> diskPreCheck (tv_stats ?v) (bc_BackupDir sample_cfg) (bc_ProjectName sample_cfg) (bc_DiskThreshold sample_cfg) ?f"
    by (simp_all add: compliancePreCheck_def sample_cfg_def diskPreCheck_def fields)
  have "r = None" using run b go by (simp add: BackupDaily_def Let_def fields split: prod.splits)
  with run have run': "BackupDaily plain_codec sample_cfg ?v ?f = (None, f', ev)" by simp
  have "dated_backups (bc_BackupDir sample_cfg) (bc_ProjectName sample_cfg) ?f = []" by code_simp
  moreover have "distinct (map fst ?f)" by (simp add: sample_fs_def)
  moreover have "date_shape ''2026-01-05''" "parse_day ''2026-01-05'' = Some 20458" by code_simp+
  ultimately have "VerifyBackup plain_codec (Some (\<lambda>_. True)) (\<lambda>_. True) (in_dir sample_cfg ?n) ''pw'' f' = None"
    using daily_backup_verified[OF run' go clean, of 20458] stable_newest_ok by (simp add: fields)
  then show ?thesis unfolding run sample_task_paths by simp
qed

end
