(* ===== verification/Config_Values.thy ===== *)
theory Config_Values
  imports Go_Text Complex_Main
begin

section \<open>Configuration values: booleans, sizes, host names and ports\<close>

text \<open>
  \<^verbatim>\<open>src/src/config/bool.go\<close>, \<^verbatim>\<open>size.go\<close> and \<^verbatim>\<open>hostvalidate.go\<close>, and the port functions of
  \<^verbatim>\<open>config.go\<close>. \<^verbatim>\<open>strconv.ParseFloat\<close>, the conversion of a floating-point number that no
  64-bit integer represents (which Go leaves to the implementation), \<^verbatim>\<open>net.ParseIP\<close>, the public
  suffix list and whether a port can be bound are arguments.
\<close>

subsection \<open>Booleans\<close>

definition truthyValues :: "string list" where
  "truthyValues = [''1'', ''y'', ''t'', ''yes'', ''true'', ''on'', ''ok'', ''enable'', ''enabled'',
     ''yep'', ''yup'', ''yeah'', ''aye'', ''si'', ''oui'', ''da'', ''hai'', ''affirmative'',
     ''accept'', ''allow'', ''grant'', ''sure'', ''totally'']"

definition falsyValues :: "string list" where
  "falsyValues = [''0'', ''n'', ''f'', ''no'', ''false'', ''off'', ''disable'', ''disabled'',
     ''nope'', ''nah'', ''nay'', ''nein'', ''non'', ''niet'', ''iie'', ''lie'', ''negative'',
     ''reject'', ''block'', ''revoke'', ''deny'', ''never'', ''noway'']"

datatype config_error = InvalidBoolean | InvalidSize | NoUnusedPort

definition ParseBool :: "string \<Rightarrow> bool \<Rightarrow> config_error + bool" where
  "ParseBool s defaultVal =
     (let s = trim_space (to_lower s) in
      if s = [] then Inr defaultVal
      else if s \<in> set truthyValues then Inr True
      else if s \<in> set falsyValues then Inr False
      else Inl InvalidBoolean)"

definition IsTruthy :: "string \<Rightarrow> bool" where
  "IsTruthy s \<longleftrightarrow> trim_space (to_lower s) \<in> set truthyValues"

definition IsFalsy :: "string \<Rightarrow> bool" where
  "IsFalsy s \<longleftrightarrow> trim_space (to_lower s) \<in> set falsyValues"

lemma bool_values_disjoint: "set truthyValues \<inter> set falsyValues = {}"
  by (simp add: truthyValues_def falsyValues_def)

lemma bool_values_nonempty: "[] \<notin> set truthyValues" "[] \<notin> set falsyValues"
  by (simp_all add: truthyValues_def falsyValues_def)

text \<open>The two predicates exclude each other and are exactly what the parser decides without its
  default.\<close>

lemma ParseBool_truthy: "IsTruthy s \<longleftrightarrow> (\<forall>d. ParseBool s d = Inr True)"
  using bool_values_disjoint bool_values_nonempty by (auto simp: ParseBool_def IsTruthy_def Let_def)

lemma ParseBool_falsy: "IsFalsy s \<longleftrightarrow> (\<forall>d. ParseBool s d = Inr False)"
  using bool_values_disjoint bool_values_nonempty by (auto simp: ParseBool_def IsFalsy_def Let_def)

lemma truthy_not_falsy: "\<not> (IsTruthy s \<and> IsFalsy s)"
  using bool_values_disjoint by (auto simp: IsTruthy_def IsFalsy_def)

subsection \<open>Sizes\<close>

text \<open>
  A float64 is a rational number, an infinity or not a number. Multiplying by a power of two is
  exact unless the result is too large. \<^verbatim>\<open>conv\<close> is what the conversion to \<^verbatim>\<open>int64\<close> yields for
  the values it does not represent.
\<close>

datatype float64 = Fin rat | PosInf | NegInf | NaN

definition le_zero :: "float64 \<Rightarrow> bool" where
  "le_zero x \<longleftrightarrow> (case x of Fin q \<Rightarrow> q \<le> 0 | PosInf \<Rightarrow> False | NegInf \<Rightarrow> True | NaN \<Rightarrow> False)"

definition scale :: "float64 \<Rightarrow> int \<Rightarrow> float64" where
  "scale x m = (case x of
       Fin q \<Rightarrow> if \<bar>q * of_int m\<bar> < 2 ^ 1024 then Fin (q * of_int m)
                 else if q > 0 then PosInf else NegInf
     | _ \<Rightarrow> x)"

definition float_int64 :: "(float64 \<Rightarrow> int) \<Rightarrow> float64 \<Rightarrow> int" where
  "float_int64 conv x = (case x of
       Fin q \<Rightarrow> (let i = (if q \<ge> 0 then \<lfloor>q\<rfloor> else \<lceil>q\<rceil>) in if in_int64 i then i else conv x)
     | _ \<Rightarrow> conv x)"

definition sizeUnits :: "(string \<times> int) list" where
  "sizeUnits = [(''tb'', 2 ^ 40), (''gb'', 2 ^ 30), (''mb'', 2 ^ 20), (''kb'', 2 ^ 10), (''b'', 1)]"

definition size_number ::
  "(string \<Rightarrow> float64 option) \<Rightarrow> (float64 \<Rightarrow> int) \<Rightarrow> string \<Rightarrow> int \<Rightarrow> config_error + int" where
  "size_number pf conv num m =
     (case pf num of
        None \<Rightarrow> Inl InvalidSize
      | Some n \<Rightarrow> if le_zero n then Inr 0 else Inr (float_int64 conv (scale n m)))"

fun size_with_unit ::
  "(string \<Rightarrow> float64 option) \<Rightarrow> (float64 \<Rightarrow> int) \<Rightarrow> string \<Rightarrow> (string \<times> int) list \<Rightarrow>
   (config_error + int) option" where
  "size_with_unit pf conv t [] = None"
| "size_with_unit pf conv t ((sfx, m) # us) =
     (if \<not> has_suffix t sfx then size_with_unit pf conv t us
      else let numPart = trim_space (trim_suffix t sfx)
           in if numPart = [] then size_with_unit pf conv t us
              else Some (size_number pf conv numPart m))"

definition ParseSize ::
  "(string \<Rightarrow> float64 option) \<Rightarrow> (float64 \<Rightarrow> int) \<Rightarrow> string \<Rightarrow> int \<Rightarrow> config_error + int" where
  "ParseSize pf conv s defaultVal =
     (let trimmed = trim_space (to_lower s) in
      if trimmed = [] then Inr defaultVal
      else case size_with_unit pf conv trimmed sizeUnits of
             Some r \<Rightarrow> r
           | None \<Rightarrow> size_number pf conv trimmed (2 ^ 20))"

definition FormatSize :: "int \<Rightarrow> string" where
  "FormatSize n =
     (if n \<ge> 2 ^ 40 \<and> n mod 2 ^ 40 = 0 then show_int (n div 2 ^ 40) @ '' TB''
      else if n \<ge> 2 ^ 30 \<and> n mod 2 ^ 30 = 0 then show_int (n div 2 ^ 30) @ '' GB''
      else if n \<ge> 2 ^ 20 \<and> n mod 2 ^ 20 = 0 then show_int (n div 2 ^ 20) @ '' MB''
      else if n \<ge> 2 ^ 10 \<and> n mod 2 ^ 10 = 0 then show_int (n div 2 ^ 10) @ '' KB''
      else show_int n @ '' B'')"

lemma lower_show_int: "0 \<le> k \<Longrightarrow> map lower_char (show_int k) = show_int k"
proof -
  assume "0 \<le> k"
  moreover have "lower_char c = c" if "c \<in> set (show_nat (nat k))" for c
    using show_nat_digits[OF that] by (simp add: lower_char_def Let_def)
  ultimately show ?thesis by (simp add: show_int_def map_idI)
qed

lemma lower_unit:
  "map lower_char '' TB'' = '' tb''" "map lower_char '' GB'' = '' gb''" "map lower_char '' MB'' = '' mb''"
  "map lower_char '' KB'' = '' kb''" "map lower_char '' B'' = '' b''"
  by code_simp+

text \<open>A printed number and unit is read as that number of that unit.\<close>

lemma ParseSize_printed:
  assumes "0 < k" "(u, l, m) \<in> {('' TB'', ''tb'', 2 ^ 40), ('' GB'', ''gb'', 2 ^ 30),
      ('' MB'', ''mb'', 2 ^ 20), ('' KB'', ''kb'', 2 ^ 10), ('' B'', ''b'', 1 :: int)}"
  shows "ParseSize pf conv (show_int k @ u) d = size_number pf conv (show_int k) m"
proof -
  let ?s = "show_int k"
  have plain: "\<forall>c \<in> set ?s. plain_char c" using plain_show_int by blast
  then have low: "to_lower (?s @ u) = ?s @ map lower_char u"
    using assms lower_show_int[of k] by (subst to_lower_ascii) (auto simp: plain_char_def)
  have u: "map lower_char u = '' '' @ l" using assms(2) lower_unit by auto
  have "trim_space (?s @ '' '' @ l) = ?s @ '' '' @ l"
    using plain show_int_ne assms(2) by (intro trim_space_plain) (auto simp: plain_char_def)
  with low u have t: "trim_space (to_lower (?s @ u)) = ?s @ '' '' @ l" by simp
  have "trim_space (trim_suffix (?s @ '' '' @ l) l) = ?s"
    using suffix_append(2)[of "?s @ '' ''" l] trim_blank_after[OF show_int_ne plain] by simp
  moreover have "has_suffix (?s @ '' '' @ l) l" using suffix_append(1)[of "?s @ '' ''" l] by simp
  ultimately have "size_with_unit pf conv (?s @ '' '' @ l) sizeUnits = Some (size_number pf conv ?s m)"
    using assms(2) show_int_ne[of k] unfolding sizeUnits_def
    by (elim insertE emptyE Pair_inject) (simp_all add: suffix_within has_suffix_def[of "_ # _"] Let_def)
  with t show ?thesis by (simp add: ParseSize_def Let_def show_int_ne)
qed

lemma size_number_exact:
  assumes "pf num = Some (Fin (of_int k))" "0 < k" "0 < m" "k * m < 2 ^ 53"
  shows "size_number pf conv num m = Inr (k * m)"
proof -
  have pos: "0 < k * m" using assms by simp
  have "(of_int (k * m) :: rat) < of_int (2 ^ 53)" using assms(4) of_int_less_iff by blast
  also have "\<dots> < (2 :: rat) ^ 1024" by simp
  finally have "\<bar>of_int k * of_int m :: rat\<bar> < 2 ^ 1024" using pos by (simp flip: of_int_mult)
  moreover have "in_int64 (k * m)" using pos assms(4) by (simp add: min_int64_def max_int64_def)
  moreover have "\<lfloor>of_int k * of_int m :: rat\<rfloor> = k * m" by (metis of_int_mult floor_of_int)
  moreover have "\<not> (of_int k :: rat) \<le> 0" using assms(2) by simp
  ultimately show ?thesis using assms
    by (simp add: size_number_def le_zero_def scale_def float_int64_def Let_def)
qed

text \<open>What the server prints as a size it reads back as that size: for every positive count of
  bytes below 2^53, printed with the largest unit that divides it. The one thing assumed of
  \<^verbatim>\<open>strconv.ParseFloat\<close> is that it reads the decimal form of such an integer exactly.\<close>

theorem size_roundtrip:
  assumes exact: "\<And>k. 0 < k \<Longrightarrow> k < 2 ^ 53 \<Longrightarrow> pf (show_int k) = Some (Fin (of_int k))"
    and "0 < n" "n < 2 ^ 53"
  shows "ParseSize pf conv (FormatSize n) d = Inr n"
proof -
  have unit: "ParseSize pf conv (show_int (n div m) @ u) d = Inr n"
    if "(u, l, m) \<in> {('' TB'', ''tb'', 2 ^ 40), ('' GB'', ''gb'', 2 ^ 30),
      ('' MB'', ''mb'', 2 ^ 20), ('' KB'', ''kb'', 2 ^ 10), ('' B'', ''b'', 1 :: int)}"
      "m \<le> n" "n mod m = 0" for u l m
  proof -
    have m: "0 < m" using that(1) by auto
    then have q: "0 < n div m" "n div m * m = n"
      using that(2,3) by (auto simp: pos_imp_zdiv_pos_iff)
    moreover have "n div m \<le> n div m * m" using q(1) m by simp
    ultimately have "pf (show_int (n div m)) = Some (Fin (of_int (n div m)))"
      using assms(3) by (intro exact) simp_all
    from size_number_exact[of pf, OF this q(1) m] q(2) assms(3) ParseSize_printed[OF q(1) that(1)]
    show ?thesis by simp
  qed
  show ?thesis
    unfolding FormatSize_def
    using unit[of "'' TB''" "''tb''" "2 ^ 40"] unit[of "'' GB''" "''gb''" "2 ^ 30"]
      unit[of "'' MB''" "''mb''" "2 ^ 20"] unit[of "'' KB''" "''kb''" "2 ^ 10"]
      unit[of "'' B''" "''b''" 1] assms(2) by simp
qed

definition sample_float :: "string \<Rightarrow> float64 option" where
  "sample_float s = (case ParseInt s of (k, None) \<Rightarrow> Some (Fin (of_int k)) | _ \<Rightarrow> None)"

lemma size_roundtrip_witness: "ParseSize sample_float (\<lambda>_. 0) (FormatSize 10485760) 7 = Inr 10485760"
proof (rule size_roundtrip)
  fix k :: int
  assume "0 < k" "k < 2 ^ 53"
  then have "in_int64 k" by (simp add: min_int64_def max_int64_def)
  then show "sample_float (show_int k) = Some (Fin (of_int k))"
    by (simp add: sample_float_def ParseInt_show_int)
qed simp_all

subsection \<open>Host names\<close>

definition devOnlyTLDs :: "string list" where
  "devOnlyTLDs = [''localhost'', ''test'', ''example'', ''invalid'', ''local'', ''lan'', ''internal'',
     ''home'', ''localdomain'', ''home.arpa'', ''intranet'', ''corp'', ''private'']"

record host_lib =
  hl_parse_ip :: "string \<Rightarrow> bool"                      \<comment> \<open>net.ParseIP is not nil\<close>
  hl_public_suffix :: "string \<Rightarrow> string \<times> bool"        \<comment> \<open>publicsuffix.PublicSuffix\<close>
  hl_etld_plus_one :: "string \<Rightarrow> string option"        \<comment> \<open>publicsuffix.EffectiveTLDPlusOne\<close>

definition overlay_host :: "string \<Rightarrow> bool" where
  "overlay_host lower \<longleftrightarrow>
     has_suffix lower ''.onion'' \<or> has_suffix lower ''.i2p'' \<or> has_suffix lower ''.exit''"

definition IsValidHost :: "host_lib \<Rightarrow> string \<Rightarrow> bool \<Rightarrow> string \<Rightarrow> bool" where
  "IsValidHost H host devMode projectName =
     (let lower = to_lower (trim_space host) in
      if lower = [] then False
      else if hl_parse_ip H lower then False
      else if lower = ''localhost'' then devMode
      else if projectName \<noteq> [] \<and> lower = to_lower projectName then devMode
      else if \<not> contains lower ''.'' then False
      else if overlay_host lower then True
      else if projectName \<noteq> [] \<and> has_suffix lower (''.'' @ to_lower projectName) then devMode
      else let (sfx, icann) = hl_public_suffix H lower in
        if sfx \<in> set devOnlyTLDs then devMode
        else if \<not> devMode \<and> \<not> icann then False
        else case hl_etld_plus_one H lower of None \<Rightarrow> False | Some e \<Rightarrow> length e > 0)"

definition IsValidSSLHost :: "host_lib \<Rightarrow> string \<Rightarrow> bool" where
  "IsValidSSLHost H host =
     (if has_suffix (to_lower host) ''.onion'' then False else IsValidHost H host False [])"

text \<open>A host name is accepted in production exactly when it is neither empty nor an IP address, has
  a dot, and either belongs to an overlay network or lies below an ICANN suffix that is not
  reserved for development and outside the project's own domain; and whatever production
  accepts, development accepts too.\<close>

theorem production_hosts:
  fixes H host pn
  defines "h \<equiv> to_lower (trim_space host)"
  shows "(IsValidHost H host False pn \<longleftrightarrow>
      h \<noteq> [] \<and> \<not> hl_parse_ip H h \<and> h \<noteq> ''localhost'' \<and> \<not> (pn \<noteq> [] \<and> h = to_lower pn) \<and>
      contains h ''.'' \<and>
      (overlay_host h \<or>
       (\<not> (pn \<noteq> [] \<and> has_suffix h (''.'' @ to_lower pn)) \<and>
        fst (hl_public_suffix H h) \<notin> set devOnlyTLDs \<and> snd (hl_public_suffix H h) \<and>
        (\<exists>e. hl_etld_plus_one H h = Some e \<and> e \<noteq> [])))) \<and>
    (IsValidHost H host False pn \<longrightarrow> IsValidHost H host True pn)"
  unfolding IsValidHost_def Let_def h_def[symmetric]
  by (cases "hl_public_suffix H h"; cases "hl_etld_plus_one H h") simp_all

definition sample_hosts :: host_lib where
  "sample_hosts = \<lparr>hl_parse_ip = (\<lambda>_. False),
     hl_public_suffix = (\<lambda>h. (after_last CHR ''.'' h, after_last CHR ''.'' h = ''org'')),
     hl_etld_plus_one = (\<lambda>h. Some h)\<rparr>"

lemma production_hosts_witness:
  "IsValidHost sample_hosts ''Paste.Example.Org'' False ''pastebin'' \<and>
   IsValidHost sample_hosts ''Paste.Example.Org'' True ''pastebin''"
proof -
  have "IsValidHost sample_hosts ''Paste.Example.Org'' False ''pastebin''"
  proof -
    have "trim_space ''Paste.Example.Org'' = ''Paste.Example.Org''"
      by (rule trim_space_plain) (simp_all add: plain_char_def)
    moreover have "to_lower ''Paste.Example.Org'' = ''paste.example.org''" "to_lower ''pastebin'' = ''pastebin''"
      by code_simp+
    ultimately show ?thesis
      by (simp add: IsValidHost_def Let_def sample_hosts_def devOnlyTLDs_def overlay_host_def has_suffix_def
          contains_char after_last_def)
  qed
  with production_hosts[of sample_hosts "''Paste.Example.Org''" "''pastebin''"] show ?thesis by blast
qed

text \<open>The certificate check refuses hidden services only when the name ends in \<^verbatim>\<open>.onion\<close> as it is
  written, and does not refuse the other overlay networks at all: names that no public
  resolver knows pass as eligible for a certificate.\<close>

lemma overlay_host_valid:
  assumes s: "s \<noteq> []" "\<forall>c \<in> set s. plain_char c \<and> lower_char c = c"
    and tld: "tld = ''.onion'' \<or> tld = ''.i2p''" and "\<not> hl_parse_ip H (s @ tld)" and "trim_space host = s @ tld"
  shows "IsValidHost H host devMode []"
proof -
  let ?h = "s @ tld"
  have "to_lower ?h = map lower_char s @ map lower_char tld"
    using s tld by (subst to_lower_ascii) (auto simp: plain_char_def)
  moreover have "map lower_char tld = tld" using tld by (elim disjE) (simp_all add: lower_char_def)
  ultimately have low: "to_lower ?h = ?h" using s(2) by (simp add: map_idI)
  have "?h \<noteq> ''localhost''" using tld by (auto dest: arg_cong[where f = last])
  moreover have "contains ?h ''.''" using tld by (auto simp: contains_char)
  moreover have "overlay_host ?h" using tld suffix_append(1) by (auto simp: overlay_host_def)
  ultimately show ?thesis using assms low by (simp add: IsValidHost_def Let_def)
qed

lemma has_suffix_last: "has_suffix s p \<Longrightarrow> p \<noteq> [] \<Longrightarrow> last s = last p"
  unfolding has_suffix_def by (metis append_take_drop_id last_append)

lemma ssl_accepts_overlay:
  assumes s: "s \<noteq> []" "\<forall>c \<in> set s. plain_char c \<and> lower_char c = c"
  shows "\<not> hl_parse_ip H (s @ ''.i2p'') \<Longrightarrow> IsValidSSLHost H (s @ ''.i2p'')"
    and "\<not> hl_parse_ip H (s @ ''.onion'') \<Longrightarrow> IsValidSSLHost H (s @ ''.onion'' @ '' '')"
proof -
  have "\<forall>c \<in> set (s @ ''.i2p''). (of_char c :: nat) < 128" "\<forall>c \<in> set (s @ ''.onion '' ). (of_char c :: nat) < 128"
    using s(2) by (auto simp: plain_char_def)
  then have low: "to_lower (s @ ''.i2p'') = map lower_char (s @ ''.i2p'')"
    "to_lower (s @ ''.onion '') = map lower_char (s @ ''.onion '')" by (blast intro: to_lower_ascii)+
  have ne: "\<not> has_suffix (to_lower (s @ ''.i2p'')) ''.onion''"
    "\<not> has_suffix (to_lower (s @ ''.onion'' @ '' '')) ''.onion''"
    using has_suffix_last[of "to_lower (s @ ''.i2p'')" "''.onion''"]
      has_suffix_last[of "to_lower (s @ ''.onion '')" "''.onion''"] low
    by (auto simp: last_map lower_char_def)
  show "\<not> hl_parse_ip H (s @ ''.i2p'') \<Longrightarrow> IsValidSSLHost H (s @ ''.i2p'')"
    using ne(1) overlay_host_valid[OF s, of "''.i2p''" H "s @ ''.i2p''" False] trim_space_plain[of "s @ ''.i2p''"] s
    by (simp add: IsValidSSLHost_def plain_char_def)
  show "\<not> hl_parse_ip H (s @ ''.onion'') \<Longrightarrow> IsValidSSLHost H (s @ ''.onion'' @ '' '')"
    using ne(2) overlay_host_valid[OF s, of "''.onion''" H "s @ ''.onion'' @ '' ''" False]
      trim_blank_after[of "s @ ''.onion''"] s
    by (simp add: IsValidSSLHost_def plain_char_def)
qed

subsection \<open>Ports\<close>

definition SplitPorts :: "string \<Rightarrow> string \<times> string" where
  "SplitPorts spec =
     (let (a, b) = split2 CHR '','' (trim_space spec) in
      (trim_space a, case b of None \<Rightarrow> [] | Some t \<Rightarrow> trim_space t))"

text \<open>\<^verbatim>\<open>perm\<close> is the permutation \<^verbatim>\<open>rand.Perm\<close> draws, \<^verbatim>\<open>bindable\<close> whether \<^verbatim>\<open>net.Listen\<close> succeeds.\<close>

fun try_ports :: "(int \<Rightarrow> bool) \<Rightarrow> int \<Rightarrow> int list \<Rightarrow> config_error + int" where
  "try_ports bindable lo [] = Inl NoUnusedPort"
| "try_ports bindable lo (offset # rest) =
     (if bindable (lo + offset) then Inr (lo + offset) else try_ports bindable lo rest)"

definition randomUnusedPort :: "int list \<Rightarrow> (int \<Rightarrow> bool) \<Rightarrow> int \<Rightarrow> int \<Rightarrow> config_error + int" where
  "randomUnusedPort perm bindable lo hi = try_ports bindable lo perm"

lemma try_ports_found: "try_ports bindable lo perm = Inr p \<Longrightarrow> p - lo \<in> set perm \<and> bindable p"
  by (induction perm) (auto split: if_splits)

lemma try_ports_fails: "try_ports bindable lo perm = Inl e \<longleftrightarrow> e = NoUnusedPort \<and> (\<forall>k \<in> set perm. \<not> bindable (lo + k))"
  by (induction perm) auto

end
