(* ===== verification/Config_Contact.thy ===== *)
theory Config_Contact
  imports Config_Values
begin

section \<open>Configuration: contact roles and webhooks\<close>

text \<open>
  The contact part of \<^verbatim>\<open>src/src/config/config.go\<close>: which address and which webhooks a message for a
  role goes to. A role's webhooks are a Go map; it is the list of its entries in the order a
  range over the map happens to visit them, and nothing below depends on that order. A webhook
  called \<^verbatim>\<open>x\<close> has its signing secret under the key \<^verbatim>\<open>x_secret\<close>.
\<close>

subsection \<open>Roles and addresses\<close>

record contact_role =
  ct_Email :: string
  ct_Webhooks :: "(string \<times> string) list"

record contact_config =
  ct_Admin :: contact_role
  ct_Security :: contact_role
  ct_Abuse :: contact_role
  ct_General :: contact_role

text \<open>\<^verbatim>\<open>strings.EqualFold\<close> against ASCII text: besides letter case, U+017F folds to s and U+212A to
  k.\<close>

fun fold_case :: "string \<Rightarrow> string" where
  "fold_case [] = []"
| "fold_case (c # s) =
     (if c = CHR 0xC5 \<and> take 1 s = [CHR 0xBF] then CHR ''s'' # fold_case (drop 1 s)
      else if c = CHR 0xE2 \<and> take 2 s = [CHR 0x84, CHR 0xAA] then CHR ''k'' # fold_case (drop 2 s)
      else lower_char c # fold_case s)"

definition is_localhost :: "string \<Rightarrow> bool" where "is_localhost s \<longleftrightarrow> fold_case s = ''localhost''"

text \<open>\<^verbatim>\<open>strings.ReplaceAll\<close> with a pattern that is not empty.\<close>

function replace_all :: "string \<Rightarrow> string \<Rightarrow> string \<Rightarrow> string" where
  "replace_all pat new s =
     (if s = [] then []
      else if pat \<noteq> [] \<and> has_prefix s pat then new @ replace_all pat new (drop (length pat) s)
      else take 1 s @ replace_all pat new (drop 1 s))"
  by pat_completeness auto
termination by (relation "measure (\<lambda>(_, _, s). length s)") auto

declare replace_all.simps [simp del]

text \<open>What the resolution of the server's name looks at: the configured name and mode, the host name
  of the machine, the environment and the detected public address.\<close>

record name_sources =
  ns_FQDN :: string
  ns_Mode :: string
  ns_hostname :: "string option"
  ns_HOSTNAME :: string
  ns_public_ip :: string

definition devModeForValidation :: "name_sources \<Rightarrow> bool" where
  "devModeForValidation n \<longleftrightarrow> fold_case (trim_space (ns_Mode n)) = ''development''"

definition named :: "string \<Rightarrow> bool" where "named h \<longleftrightarrow> h \<noteq> [] \<and> \<not> is_localhost h"

definition fqdn :: "host_lib \<Rightarrow> name_sources \<Rightarrow> string" where
  "fqdn H n =
     (let f = trim_space (ns_FQDN n);
          m = (case ns_hostname n of None \<Rightarrow> [] | Some h \<Rightarrow> trim_space h);
          v = trim_space (ns_HOSTNAME n)
      in if named f then f
         else if named m then m
         else if named v \<and> IsValidHost H v (devModeForValidation n) ''pastebin'' then v
         else if ns_public_ip n \<noteq> [] then ns_public_ip n
         else ''localhost'')"

definition expandFQDN :: "string \<Rightarrow> string \<Rightarrow> string" where
  "expandFQDN host s = replace_all ''{fqdn}'' host (trim_space s)"

text \<open>The recipients take the resolved name as an argument.\<close>

definition AdminEmail :: "string \<Rightarrow> contact_config \<Rightarrow> string" where
  "AdminEmail host c =
     (let e = expandFQDN host (ct_Email (ct_Admin c)) in if e \<noteq> [] then e else ''admin@'' @ host)"

definition SecurityEmail :: "string \<Rightarrow> contact_config \<Rightarrow> string" where
  "SecurityEmail host c =
     (let e = expandFQDN host (ct_Email (ct_Security c)) in if e \<noteq> [] then e else AdminEmail host c)"

definition SecurityReportEmail :: "string \<Rightarrow> string \<Rightarrow> contact_config \<Rightarrow> string" where
  "SecurityReportEmail host contactEmail c =
     (let e = expandFQDN host (trim_space contactEmail) in if e \<noteq> [] then e else SecurityEmail host c)"

definition GeneralEmail :: "string \<Rightarrow> contact_config \<Rightarrow> string" where
  "GeneralEmail host c =
     (let e = expandFQDN host (ct_Email (ct_General c)) in if e \<noteq> [] then e else AdminEmail host c)"

definition GeneralEmailPublic :: "string \<Rightarrow> contact_config \<Rightarrow> string" where
  "GeneralEmailPublic host c = expandFQDN host (ct_Email (ct_General c))"

definition AbuseEmail :: "string \<Rightarrow> contact_config \<Rightarrow> string" where
  "AbuseEmail host c =
     (let e = expandFQDN host (ct_Email (ct_Abuse c)) in if e \<noteq> [] then e else GeneralEmail host c)"

definition AbuseEmailPublic :: "string \<Rightarrow> contact_config \<Rightarrow> string" where
  "AbuseEmailPublic host c =
     (let e = expandFQDN host (ct_Email (ct_Abuse c)) in if e \<noteq> [] then e else GeneralEmailPublic host c)"

text \<open>The addresses a page may show. A request over a hidden service sees only the address set for
  it.\<close>

definition publicContactEmail :: "bool \<Rightarrow> string \<Rightarrow> string \<Rightarrow> contact_config \<Rightarrow> string" where
  "publicContactEmail overlay torEmail host c =
     (if overlay then trim_space torEmail else GeneralEmailPublic host c)"

definition publicAbuseEmail :: "bool \<Rightarrow> string \<Rightarrow> string \<Rightarrow> contact_config \<Rightarrow> string" where
  "publicAbuseEmail overlay torEmail host c =
     (if overlay then trim_space torEmail else AbuseEmailPublic host c)"

definition publicSecurityEmail :: "bool \<Rightarrow> string \<Rightarrow> string \<Rightarrow> contact_config \<Rightarrow> string" where
  "publicSecurityEmail overlay torEmail host c =
     (if overlay then trim_space torEmail else SecurityEmail host c)"

lemma replace_all_Nil [simp]: "replace_all pat new [] = []"
  by (simp add: replace_all.simps)

lemma expandFQDN_blank: "trim_space s = [] \<Longrightarrow> expandFQDN host s = []"
  by (simp add: expandFQDN_def)

text \<open>Mail always has a recipient, and the pages for contact and abuse never show the address of the
  administrator: they do not depend on it.\<close>

lemma recipients_nonempty:
  "AdminEmail host c \<noteq> []" "SecurityEmail host c \<noteq> []" "SecurityReportEmail host e c \<noteq> []"
  "GeneralEmail host c \<noteq> []" "AbuseEmail host c \<noteq> []"
  by (auto simp: AdminEmail_def SecurityEmail_def SecurityReportEmail_def GeneralEmail_def AbuseEmail_def Let_def)

lemma admin_not_public:
  "publicContactEmail ov te host (c\<lparr>ct_Admin := a\<rparr>) = publicContactEmail ov te host c"
  "publicAbuseEmail ov te host (c\<lparr>ct_Admin := a\<rparr>) = publicAbuseEmail ov te host c"
  by (simp_all add: publicContactEmail_def publicAbuseEmail_def GeneralEmailPublic_def AbuseEmailPublic_def
      Let_def)

text \<open>The security pages do show it when no security address is set.\<close>

lemma admin_shown_on_security_pages:
  "trim_space (ct_Email (ct_Security c)) = [] \<Longrightarrow> publicSecurityEmail False te host c = AdminEmail host c"
  by (simp add: publicSecurityEmail_def SecurityEmail_def expandFQDN_blank Let_def)

subsection \<open>Webhooks\<close>

definition entry :: "(string \<times> string) list \<Rightarrow> string \<Rightarrow> string" where
  "entry m k = (case map_of m k of None \<Rightarrow> [] | Some v \<Rightarrow> v)"

definition webhookSecretSuffix :: string where "webhookSecretSuffix = ''_secret''"

definition pick :: "string \<Rightarrow> contact_role \<Rightarrow> string" where
  "pick transport r = trim_space (entry (ct_Webhooks r) transport)"

definition ContactWebhook :: "contact_config \<Rightarrow> string \<Rightarrow> string \<Rightarrow> string" where
  "ContactWebhook c role transport =
     (let v = (if role = ''security'' then pick transport (ct_Security c)
               else if role = ''abuse'' then
                 (let v = pick transport (ct_Abuse c) in
                  if v = [] then pick transport (ct_General c) else v)
               else if role = ''general'' then pick transport (ct_General c)
               else pick transport (ct_Admin c))
      in if v \<noteq> [] then v else pick transport (ct_Admin c))"

record webhook_target =
  wt_Transport :: string
  wt_URL :: string
  wt_Secret :: string

definition contactRole :: "contact_config \<Rightarrow> string \<Rightarrow> contact_role" where
  "contactRole c role =
     (if role = ''security'' then ct_Security c else if role = ''abuse'' then ct_Abuse c
      else if role = ''general'' then ct_General c else ct_Admin c)"

definition WebhookSecret :: "contact_config \<Rightarrow> string \<Rightarrow> string \<Rightarrow> string" where
  "WebhookSecret c role transport =
     (let r = contactRole c role in
      if trim_space (entry (ct_Webhooks r) transport) \<noteq> []
      then trim_space (entry (ct_Webhooks r) (transport @ webhookSecretSuffix))
      else trim_space (entry (ct_Webhooks (ct_Admin c)) (transport @ webhookSecretSuffix)))"

fun add_targets ::
  "contact_config \<Rightarrow> string \<Rightarrow> (string \<times> string) list \<Rightarrow> string list \<times> webhook_target list \<Rightarrow>
   string list \<times> webhook_target list" where
  "add_targets c role [] st = st"
| "add_targets c role ((name, _) # rest) (seen, out) =
     (if has_suffix name webhookSecretSuffix then add_targets c role rest (seen, out)
      else if name \<in> set seen then add_targets c role rest (seen, out)
      else let u = ContactWebhook c role name in
        if trim_space u = [] then add_targets c role rest (seen, out)
        else add_targets c role rest (name # seen,
          out @ [\<lparr>wt_Transport = name, wt_URL = u, wt_Secret = WebhookSecret c role name\<rparr>]))"

definition WebhookTargets :: "contact_config \<Rightarrow> string \<Rightarrow> webhook_target list" where
  "WebhookTargets c role =
     (let st = add_targets c role (ct_Webhooks (contactRole c role)) ([], []);
          st = (if role = ''abuse'' then add_targets c role (ct_Webhooks (ct_General c)) st else st)
      in snd (add_targets c role (ct_Webhooks (ct_Admin c)) st))"

text \<open>The targets collected so far are the usable transports among the names visited so far.\<close>

definition usable :: "contact_config \<Rightarrow> string \<Rightarrow> string \<Rightarrow> bool" where
  "usable c role name \<longleftrightarrow>
     \<not> has_suffix name webhookSecretSuffix \<and> trim_space (ContactWebhook c role name) \<noteq> []"

definition target :: "contact_config \<Rightarrow> string \<Rightarrow> string \<Rightarrow> webhook_target" where
  "target c role name = \<lparr>wt_Transport = name, wt_URL = ContactWebhook c role name,
     wt_Secret = WebhookSecret c role name\<rparr>"

definition collected ::
  "contact_config \<Rightarrow> string \<Rightarrow> string set \<Rightarrow> string list \<times> webhook_target list \<Rightarrow> bool" where
  "collected c role names st \<longleftrightarrow> distinct (fst st) \<and> map wt_Transport (snd st) = rev (fst st) \<and>
     set (fst st) = {n \<in> names. usable c role n} \<and> set (snd st) = target c role ` set (fst st)"

lemma add_targets_collected:
  "collected c role names st \<Longrightarrow> collected c role (names \<union> fst ` set es) (add_targets c role es st)"
proof (induction es arbitrary: names st)
  case (Cons e es)
  obtain name url where e: "e = (name, url)" by fastforce
  obtain seen out where st: "st = (seen, out)" by fastforce
  have *: "names \<union> fst ` set (e # es) = insert name names \<union> fst ` set es" by (auto simp: e)
  show ?case
  proof (cases "usable c role name \<and> name \<notin> set seen")
    case True
    with Cons.prems st have "collected c role (insert name names) (name # seen, out @ [target c role name])"
      by (auto simp: collected_def target_def)
    from Cons.IH[OF this] True show ?thesis
      unfolding * by (simp add: e st usable_def target_def Let_def)
  next
    case False
    with Cons.prems st have "collected c role (insert name names) (seen, out)"
      by (auto simp: collected_def)
    from Cons.IH[OF this] False show ?thesis unfolding * by (auto simp: e st usable_def Let_def)
  qed
qed simp

lemma collected_start: "collected c role {} ([], [])"
  by (simp add: collected_def)

text \<open>Every role that can supply an address for a transport is among those enumerated.\<close>

definition role_names :: "contact_config \<Rightarrow> string \<Rightarrow> string set" where
  "role_names c role = fst ` set (ct_Webhooks (contactRole c role)) \<union>
     (if role = ''abuse'' then fst ` set (ct_Webhooks (ct_General c)) else {}) \<union> fst ` set (ct_Webhooks (ct_Admin c))"

lemma pick_known: "n \<notin> fst ` set (ct_Webhooks r) \<Longrightarrow> pick n r = []"
  by (simp add: pick_def entry_def map_of_eq_None_iff[THEN iffD2])

lemma unnamed_unusable: "n \<notin> role_names c role \<Longrightarrow> ContactWebhook c role n = []"
  by (auto simp: role_names_def contactRole_def ContactWebhook_def Let_def pick_known split: if_splits)

lemma WebhookTargets_collected: "\<exists>seen. collected c role (role_names c role) (seen, WebhookTargets c role)"
proof -
  let ?a = "add_targets c role (ct_Webhooks (contactRole c role)) ([], [])"
  let ?b = "if role = ''abuse'' then add_targets c role (ct_Webhooks (ct_General c)) ?a else ?a"
  let ?r = "add_targets c role (ct_Webhooks (ct_Admin c)) ?b"
  have a: "collected c role (fst ` set (ct_Webhooks (contactRole c role))) ?a"
    using add_targets_collected[OF collected_start] by fastforce
  have "collected c role (fst ` set (ct_Webhooks (contactRole c role)) \<union>
      (if role = ''abuse'' then fst ` set (ct_Webhooks (ct_General c)) else {})) ?b"
    using a add_targets_collected[OF a, of "ct_Webhooks (ct_General c)"] by auto
  from add_targets_collected[OF this] have "collected c role (role_names c role) ?r"
    by (simp only: role_names_def)
  then show ?thesis
    unfolding WebhookTargets_def Let_def by (metis prod.collapse)
qed

text \<open>A message for a role goes once to every transport that resolves to an address for the role,
  through its own entry, for abuse through the general one, or through the administrator's,
  and to nothing else; the companion entries that hold signing secrets are never taken for
  transports. This holds whatever the order in which the maps are visited.\<close>

theorem webhook_targets_exact:
  "distinct (map wt_Transport (WebhookTargets c role)) \<and>
   (t \<in> set (WebhookTargets c role) \<longleftrightarrow>
      usable c role (wt_Transport t) \<and> t = target c role (wt_Transport t))"
proof -
  obtain seen where s: "collected c role (role_names c role) (seen, WebhookTargets c role)"
    using WebhookTargets_collected by blast
  have "usable c role n \<Longrightarrow> n \<in> role_names c role" for n
    using unnamed_unusable by (fastforce simp: usable_def)
  with s have "set seen = {n. usable c role n}" by (auto simp: collected_def)
  moreover have "t \<in> target c role ` {n. usable c role n} \<longleftrightarrow>
      usable c role (wt_Transport t) \<and> t = target c role (wt_Transport t)"
    by (auto simp: target_def)
  ultimately show ?thesis using s by (simp add: collected_def)
qed

text \<open>The secret that signs is the one beside the address, except for abuse reports that go to a
  general address: they are signed with the administrator's secret, or not at all.\<close>

lemma secret_of_supplier:
  "role \<noteq> ''abuse'' \<Longrightarrow>
   \<exists>r \<in> {contactRole c role, ct_Admin c}. ContactWebhook c role n = pick n r \<and>
     WebhookSecret c role n = pick (n @ webhookSecretSuffix) r"
  by (auto simp: ContactWebhook_def WebhookSecret_def contactRole_def pick_def Let_def)

lemma abuse_secret_mismatch:
  "pick n (ct_Abuse c) = [] \<Longrightarrow> pick n (ct_General c) \<noteq> [] \<Longrightarrow>
   ContactWebhook c ''abuse'' n = pick n (ct_General c) \<and>
   WebhookSecret c ''abuse'' n = pick (n @ webhookSecretSuffix) (ct_Admin c)"
  by (simp add: ContactWebhook_def WebhookSecret_def contactRole_def pick_def Let_def)

subsection \<open>Generating secrets\<close>

text \<open>\<^verbatim>\<open>ensureWebhookSecrets\<close> walks each role's map and fills in the secrets that are missing. The
  random source is the list of its coming results, an error where \<^verbatim>\<open>crand.Read\<close> fails. The keys
  it adds during the walk are companion keys, which the walk skips if it meets them.\<close>

definition put :: "string \<Rightarrow> string \<Rightarrow> (string \<times> string) list \<Rightarrow> (string \<times> string) list" where
  "put k v m = (if k \<in> fst ` set m then map (\<lambda>e. if fst e = k then (k, v) else e) m else m @ [(k, v)])"

fun ensure_role ::
  "(string \<times> string) list \<Rightarrow> bytes option list \<Rightarrow> (string \<times> string) list \<Rightarrow>
   bool \<times> bool \<times> bytes option list \<times> (string \<times> string) list" where
  "ensure_role [] rnd m = (False, True, rnd, m)"
| "ensure_role ((name, url) # rest) rnd m =
     (if has_suffix name webhookSecretSuffix then ensure_role rest rnd m
      else if trim_space url = [] then ensure_role rest rnd m
      else if trim_space (entry m (name @ webhookSecretSuffix)) \<noteq> [] then ensure_role rest rnd m
      else case rnd of
          Some b # rnd' \<Rightarrow>
            (let (g, ok, rnd'', m') = ensure_role rest rnd' (put (name @ webhookSecretSuffix) (hex_encode b) m)
             in (True, ok, rnd'', m'))
        | None # rnd' \<Rightarrow> (False, False, rnd', m)
        | [] \<Rightarrow> (False, False, [], m))"

lemma map_of_put: "map_of (put k v m) = (map_of m)(k \<mapsto> v)"
proof (cases "k \<in> fst ` set m")
  case True
  then show ?thesis
  proof (induction m)
    case (Cons e m)
    obtain k' v' where e: "e = (k', v')" by fastforce
    show ?case
    proof (cases "k \<in> fst ` set m")
      case True
      with Cons e show ?thesis by (auto simp: put_def fun_eq_iff)
    next
      case False
      then have "map (\<lambda>e. if fst e = k then (k, v) else e) m = m" by (intro map_idI) (auto simp: image_iff)
      with False Cons.prems e show ?thesis by (auto simp: put_def fun_eq_iff)
    qed
  qed simp
next
  case False
  then have "map_of m k = None" by (simp add: map_of_eq_None_iff)
  with False show ?thesis by (auto simp: put_def fun_eq_iff map_add_def split: option.splits)
qed

lemma entry_put: "entry (put k v m) j = (if j = k then v else entry m j)"
  by (simp add: entry_def map_of_put)

text \<open>A generated secret is not blank.\<close>

lemma hex_plain: "c \<in> set (hex_encode b) \<Longrightarrow> plain_char c"
proof -
  have "plain_char (hex_digit n)" if "n < 16" for n
    using that by (simp add: plain_char_def of_char_hex_digit)
  moreover assume "c \<in> set (hex_encode b)"
  ultimately show ?thesis
    by (auto simp: hex_encode_def hex_byte_def less_mult_imp_div_less)
qed

lemma hex_not_blank: "b \<noteq> [] \<Longrightarrow> trim_space (hex_encode b) \<noteq> []"
proof -
  assume "b \<noteq> []"
  then have ne: "hex_encode b \<noteq> []" by (cases b) (auto simp: hex_encode_def hex_byte_def)
  then have "trim_space (hex_encode b) = hex_encode b"
    using hex_plain hd_in_set last_in_set by (intro trim_space_plain) blast+
  with ne show ?thesis by simp
qed

text \<open>What a role's map promises after the walk: entries that were there stay, and every address
  visited has a secret.\<close>

definition well_drawn :: "bytes option list \<Rightarrow> bool" where
  "well_drawn rnd \<longleftrightarrow> (\<forall>b. Some b \<in> set rnd \<longrightarrow> b \<noteq> [])"

definition signed :: "(string \<times> string) list \<Rightarrow> string \<times> string \<Rightarrow> bool" where
  "signed m e \<longleftrightarrow> has_suffix (fst e) webhookSecretSuffix \<or> trim_space (snd e) = [] \<or>
     trim_space (entry m (fst e @ webhookSecretSuffix)) \<noteq> []"

lemma ensure_role_keeps:
  "ensure_role es rnd m = (g, ok, rnd', m') \<Longrightarrow>
   trim_space (entry m k) \<noteq> [] \<or> \<not> has_suffix k webhookSecretSuffix \<Longrightarrow> entry m' k = entry m k"
proof (induction es rnd m arbitrary: g rule: ensure_role.induct)
  case (2 name url rest rnd m)
  have "entry (put (name @ webhookSecretSuffix) (hex_encode b) m) k = entry m k"
    if "trim_space (entry m (name @ webhookSecretSuffix)) = []" for b
    using that "2.prems"(2) suffix_append(1) by (auto simp: entry_put)
  with 2 show ?case by (auto split: if_splits list.splits option.splits prod.splits)
qed simp

lemma ensure_role_signs:
  "ensure_role es rnd m = (g, True, rnd', m') \<Longrightarrow> well_drawn rnd \<Longrightarrow>
   well_drawn rnd' \<and> (\<forall>e \<in> set es. signed m' e) \<and> (\<not> g \<longrightarrow> m' = m \<and> rnd' = rnd)"
proof (induction es rnd m arbitrary: g rule: ensure_role.induct)
  case (2 name url rest rnd m)
  let ?k = "name @ webhookSecretSuffix"
  consider (skip) "has_suffix name webhookSecretSuffix \<or> trim_space url = []"
    | (kept) "\<not> (has_suffix name webhookSecretSuffix \<or> trim_space url = [])" "trim_space (entry m ?k) \<noteq> []"
    | (draw) "\<not> (has_suffix name webhookSecretSuffix \<or> trim_space url = [])" "trim_space (entry m ?k) = []"
    by blast
  then show ?case
  proof cases
    case skip
    with 2 show ?thesis by (auto simp: signed_def split: if_splits)
  next
    case kept
    then have r: "ensure_role rest rnd m = (g, True, rnd', m')" using "2.prems"(1) by simp
    from ensure_role_keeps[OF r] kept have "trim_space (entry m' ?k) \<noteq> []" by simp
    with kept "2.IH"(3)[OF _ _ _ r] 2 show ?thesis by (auto simp: signed_def)
  next
    case draw
    with "2.prems" obtain b rnd1 g1 where b: "rnd = Some b # rnd1" "g"
      and r: "ensure_role rest rnd1 (put ?k (hex_encode b) m) = (g1, True, rnd', m')"
      by (auto split: list.splits option.splits prod.splits)
    have wd: "b \<noteq> []" "well_drawn rnd1" using "2.prems"(2) b by (auto simp: well_drawn_def)
    have "entry m' ?k = hex_encode b"
      using ensure_role_keeps[OF r, of ?k] hex_not_blank[OF wd(1)] by (simp add: entry_put)
    with hex_not_blank[OF wd(1)] have "signed m' (name, url)" by (simp add: signed_def)
    moreover have "well_drawn rnd' \<and> (\<forall>e \<in> set rest. signed m' e)"
      using "2.IH"(4)[OF _ _ _ b(1)] draw r wd by auto
    ultimately show ?thesis using b by simp
  qed
qed simp

definition update_role ::
  "(contact_config \<Rightarrow> contact_role) \<Rightarrow> ((contact_role \<Rightarrow> contact_role) \<Rightarrow> contact_config \<Rightarrow> contact_config) \<Rightarrow>
   bool \<times> bool \<times> bytes option list \<times> contact_config \<Rightarrow> bool \<times> bool \<times> bytes option list \<times> contact_config" where
  "update_role get upd st =
     (let (g, ok, rnd, c) = st in
      if \<not> ok then st
      else let (g', ok', rnd', m') = ensure_role (ct_Webhooks (get c)) rnd (ct_Webhooks (get c))
           in (g \<or> g', ok', rnd', upd (ct_Webhooks_update (\<lambda>_. m')) c))"

definition ensureWebhookSecrets ::
  "bytes option list \<Rightarrow> contact_config \<Rightarrow> bool \<times> bool \<times> bytes option list \<times> contact_config" where
  "ensureWebhookSecrets rnd c =
     update_role ct_General ct_General_update
      (update_role ct_Abuse ct_Abuse_update
        (update_role ct_Security ct_Security_update
          (update_role ct_Admin ct_Admin_update (False, True, rnd, c))))"

definition role_signed :: "contact_role \<Rightarrow> contact_role \<Rightarrow> bool" where
  "role_signed r r' \<longleftrightarrow> ct_Email r' = ct_Email r \<and>
     (\<forall>e \<in> set (ct_Webhooks r). signed (ct_Webhooks r') e) \<and>
     (\<forall>k. trim_space (entry (ct_Webhooks r) k) \<noteq> [] \<or> \<not> has_suffix k webhookSecretSuffix \<longrightarrow>
        entry (ct_Webhooks r') k = entry (ct_Webhooks r) k)"

lemma update_role_signs:
  assumes "update_role get upd (g, ok, rnd, c) = (g2, True, rnd2, c2)" "well_drawn rnd"
    and upd: "\<And>f c. get (upd f c) = f (get c)"
  shows "ok \<and> role_signed (get c) (get c2) \<and> well_drawn rnd2 \<and> (\<exists>m'. c2 = upd (ct_Webhooks_update (\<lambda>_. m')) c)"
proof -
  have ok: ok using assms(1) by (auto simp: update_role_def split: if_splits)
  obtain g' m' where r: "ensure_role (ct_Webhooks (get c)) rnd (ct_Webhooks (get c)) = (g', True, rnd2, m')"
    and c2: "c2 = upd (ct_Webhooks_update (\<lambda>_. m')) c"
    using assms(1) ok by (auto simp: update_role_def Let_def split: prod.splits)
  from ensure_role_signs[OF r assms(2)] ensure_role_keeps[OF r] ok show ?thesis
    unfolding role_signed_def by (auto simp: c2 upd)
qed

text \<open>Once \<^verbatim>\<open>ensureWebhookSecrets\<close> has run without an error, every webhook of every role has a
  signing secret of its own, and no address and no secret that was configured before has
  changed.\<close>

theorem webhook_secrets_complete:
  assumes run: "ensureWebhookSecrets rnd c = (g, True, rnd', c')" and rnd: "well_drawn rnd"
  shows "role_signed (ct_Admin c) (ct_Admin c') \<and> role_signed (ct_Security c) (ct_Security c') \<and>
    role_signed (ct_Abuse c) (ct_Abuse c') \<and> role_signed (ct_General c) (ct_General c')"
proof -
  obtain g1 k1 r1 c1 where 1: "update_role ct_Admin ct_Admin_update (False, True, rnd, c) = (g1, k1, r1, c1)"
    by (metis surj_pair)
  obtain g2 k2 r2 c2 where 2: "update_role ct_Security ct_Security_update (g1, k1, r1, c1) = (g2, k2, r2, c2)"
    by (metis surj_pair)
  obtain g3 k3 r3 c3 where 3: "update_role ct_Abuse ct_Abuse_update (g2, k2, r2, c2) = (g3, k3, r3, c3)"
    by (metis surj_pair)
  have 4: "update_role ct_General ct_General_update (g3, k3, r3, c3) = (g, True, rnd', c')"
    using run by (simp add: ensureWebhookSecrets_def 1 2 3)
  have oks: k3 k2 k1 using 4 3 2 by (auto simp: update_role_def split: if_splits prod.splits)
  have a: "role_signed (ct_Admin c) (ct_Admin c1) \<and> well_drawn r1 \<and> (\<exists>m. c1 = ct_Admin_update (ct_Webhooks_update (\<lambda>_. m)) c)"
    using update_role_signs[OF _ rnd, of ct_Admin ct_Admin_update] 1 oks by simp
  have b: "role_signed (ct_Security c1) (ct_Security c2) \<and> well_drawn r2 \<and> (\<exists>m. c2 = ct_Security_update (ct_Webhooks_update (\<lambda>_. m)) c1)"
    using update_role_signs[of ct_Security ct_Security_update g1 k1 r1 c1] 2 oks a by simp
  have d: "role_signed (ct_Abuse c2) (ct_Abuse c3) \<and> well_drawn r3 \<and> (\<exists>m. c3 = ct_Abuse_update (ct_Webhooks_update (\<lambda>_. m)) c2)"
    using update_role_signs[of ct_Abuse ct_Abuse_update g2 k2 r2 c2] 3 oks b by simp
  have e: "role_signed (ct_General c3) (ct_General c') \<and> (\<exists>m. c' = ct_General_update (ct_Webhooks_update (\<lambda>_. m)) c3)"
    using update_role_signs[of ct_General ct_General_update g3 k3 r3 c3] 4 d by simp
  from a b d e show ?thesis by auto
qed

definition sample_contact :: contact_config where
  "sample_contact = \<lparr>ct_Admin = \<lparr>ct_Email = [], ct_Webhooks = [(''slack'', ''u'')]\<rparr>,
     ct_Security = \<lparr>ct_Email = [], ct_Webhooks = []\<rparr>, ct_Abuse = \<lparr>ct_Email = [], ct_Webhooks = []\<rparr>,
     ct_General = \<lparr>ct_Email = [], ct_Webhooks = [(''discord'', ''v''), (''discord_secret'', ''k'')]\<rparr>\<rparr>"

lemma trim_one: "plain_char c \<Longrightarrow> trim_space [c] = [c]"
  by (rule trim_space_plain) simp_all

lemma webhook_secrets_complete_witness:
  "role_signed (ct_Admin sample_contact)
     \<lparr>ct_Email = [], ct_Webhooks = [(''slack'', ''u''), (''slack_secret'', hex_encode ''key'')]\<rparr> \<and>
   role_signed (ct_General sample_contact) (ct_General sample_contact)"
proof -
  have t: "trim_space ''u'' = ''u''" "trim_space ''v'' = ''v''" "trim_space ''k'' = ''k''"
    by (simp_all add: trim_one plain_char_def)
  have run: "ensureWebhookSecrets [Some ''key''] sample_contact =
      (True, True, [], sample_contact\<lparr>ct_Admin := \<lparr>ct_Email = [],
         ct_Webhooks = [(''slack'', ''u''), (''slack_secret'', hex_encode ''key'')]\<rparr>\<rparr>)"
    by (simp add: ensureWebhookSecrets_def update_role_def sample_contact_def entry_def put_def
        webhookSecretSuffix_def has_suffix_def t)
  have "well_drawn [Some ''key'']" by (simp add: well_drawn_def)
  from webhook_secrets_complete[OF run this] show ?thesis by (simp add: sample_contact_def)
qed

end
