(* ===== verification/Log_Policy.thy ===== *)
theory Log_Policy
  imports Go_Text
begin

section \<open>Rotation and retention policies of log files\<close>

text \<open>
  The policy strings of \<^verbatim>\<open>src/src/logging/rotate.go\<close>: \<^verbatim>\<open>ParseRotate\<close> and \<^verbatim>\<open>ParseKeep\<close>. A rotation policy
  is an interval, a size or both; the size is a product of 64-bit integers that wraps around.
\<close>

record rotate_policy =
  rt_Interval :: string
  rt_MaxBytes :: int

record keep_policy =
  kp_Mode :: string
  kp_Count :: int
  kp_Age :: duration

datatype policy_error =
    MultipleIntervals | CannotCombine | MultipleSizes | UnknownToken | InvalidSizeToken
  | InvalidCount | UnknownPrefix | InvalidAge | InvalidRetention

definition zero_policy :: rotate_policy where "zero_policy = \<lparr>rt_Interval = [], rt_MaxBytes = 0\<rparr>"

definition intervals :: "string list" where
  "intervals = [''daily'', ''weekly'', ''monthly'', ''yearly'']"

definition parseSize_unit :: "string \<Rightarrow> int \<Rightarrow> policy_error + int \<times> int" where
  "parseSize_unit num unit =
     (case ParseInt (trim_space num) of
        (n, None) \<Rightarrow> if n \<le> 0 then Inl InvalidSizeToken else Inr (n, unit)
      | (_, Some _) \<Rightarrow> Inl InvalidSizeToken)"

definition parseSize :: "string \<Rightarrow> policy_error + int \<times> int" where
  "parseSize tok =
     (if has_suffix tok ''mb'' then parseSize_unit (trim_suffix tok ''mb'') (2 ^ 20)
      else if has_suffix tok ''gb'' then parseSize_unit (trim_suffix tok ''gb'') (2 ^ 30)
      else Inl UnknownToken)"

fun rotate_tokens :: "string list \<Rightarrow> rotate_policy \<Rightarrow> policy_error + rotate_policy" where
  "rotate_tokens [] p = Inr p"
| "rotate_tokens (t # ts) p =
     (let tok = trim_space t in
      if tok \<in> set intervals then
        (if rt_Interval p \<noteq> [] then Inl MultipleIntervals else rotate_tokens ts (p\<lparr>rt_Interval := tok\<rparr>))
      else if tok = ''never'' \<or> tok = [] then Inl CannotCombine
      else case parseSize tok of
             Inl e \<Rightarrow> Inl e
           | Inr (n, unit) \<Rightarrow>
               if rt_MaxBytes p \<noteq> 0 then Inl MultipleSizes
               else rotate_tokens ts (p\<lparr>rt_MaxBytes := wrap64 (n * unit)\<rparr>))"

definition ParseRotate :: "string \<Rightarrow> policy_error + rotate_policy" where
  "ParseRotate s =
     (let s = trim_space (to_lower s) in
      if s = [] \<or> s = ''never'' then Inr zero_policy
      else rotate_tokens (split_on CHR '','' s) zero_policy)"

definition keep_age :: "char \<Rightarrow> duration" where
  "keep_age c = (if c = CHR ''d'' then 24 * Hour else if c = CHR ''w'' then 7 * 24 * Hour
     else if c = CHR ''m'' then 30 * 24 * Hour else 0)"

definition keep_count :: "policy_error \<Rightarrow> string \<Rightarrow> policy_error + keep_policy" where
  "keep_count e s =
     (case ParseInt s of
        (n, None) \<Rightarrow> if n < 0 then Inl e else Inr \<lparr>kp_Mode = ''count'', kp_Count = n, kp_Age = 0\<rparr>
      | (_, Some _) \<Rightarrow> Inl e)"

definition ParseKeep :: "string \<Rightarrow> policy_error + keep_policy" where
  "ParseKeep s0 =
     (let s = trim_space (to_lower s0);
          before = takeWhile (\<lambda>c. c \<noteq> CHR '':'') s
      in if s = [] \<or> s = ''none'' then Inr \<lparr>kp_Mode = ''none'', kp_Count = 0, kp_Age = 0\<rparr>
         else if s = ''forever'' then Inr \<lparr>kp_Mode = ''forever'', kp_Count = 0, kp_Age = 0\<rparr>
         else if CHR '':'' \<in> set s \<and> length before > 0 then
           (case keep_count InvalidCount (drop (length before + 1) s) of
              Inl e \<Rightarrow> Inl e
            | Inr k \<Rightarrow> if before \<in> set intervals then Inr k else Inl UnknownPrefix)
         else if length s > 1 \<and> keep_age (last s) \<noteq> 0 then
           (case ParseInt (butlast s) of
              (n, None) \<Rightarrow> if n \<le> 0 then Inl InvalidAge
                else Inr \<lparr>kp_Mode = ''age'', kp_Count = 0, kp_Age = wrap64 (n * keep_age (last s))\<rparr>
            | (_, Some _) \<Rightarrow> Inl InvalidAge)
         else keep_count InvalidRetention s)"

subsection \<open>Reading back a printed policy\<close>

definition print_rotate :: "string \<Rightarrow> int \<Rightarrow> string" where
  "print_rotate interval mb = (if interval = [] then [] else interval @ '','') @ show_int mb @ ''mb''"

lemma interval_plain: "i \<in> set intervals \<Longrightarrow> i \<noteq> [] \<and> (\<forall>c \<in> set i. plain_char c \<and> c \<noteq> CHR '','' \<and> lower_char c = c)"
  by (auto simp: intervals_def plain_char_def lower_char_def)

lemma trim_plain: "s \<noteq> [] \<Longrightarrow> \<forall>c \<in> set s. plain_char c \<Longrightarrow> trim_space s = s"
  by (simp add: trim_space_plain)

lemma lower_plain: "\<forall>c \<in> set s. plain_char c \<and> lower_char c = c \<Longrightarrow> to_lower s = s"
  by (subst to_lower_ascii) (auto simp: plain_char_def intro!: map_idI)

lemma digits_lower: "0 \<le> k \<Longrightarrow> c \<in> set (show_int k) \<Longrightarrow> lower_char c = c"
  using show_nat_digits[of c "nat k"] by (simp add: show_int_def lower_char_def Let_def)

lemma parse_size_token:
  assumes "0 < n" "in_int64 n"
  shows "parseSize (show_int n @ ''mb'') = Inr (n, 2 ^ 20)"
proof -
  have "show_int n \<noteq> []" using show_nat_head[of "nat n"] assms(1) by (auto simp: show_int_def)
  then have "trim_space (show_int n) = show_int n" using plain_show_int by (intro trim_plain) blast+
  then show ?thesis
    using assms suffix_append[of "show_int n" "''mb''"]
    by (simp add: parseSize_def parseSize_unit_def ParseInt_show_int)
qed

lemma size_token_plain:
  "0 < n \<Longrightarrow> \<forall>c \<in> set (show_int n @ ''mb''). plain_char c \<and> c \<noteq> CHR '','' \<and> lower_char c = c"
  using plain_show_int[of _ n] digits_lower[of n] by (auto simp: plain_char_def lower_char_def)

lemma last_size_token: "last (a @ show_int n @ ''mb'') = CHR ''b''" "last (show_int n @ ''mb'') = CHR ''b''"
  by simp_all

lemma interval_last: "i \<in> set intervals \<Longrightarrow> last i = CHR ''y''" "last ''never'' = CHR ''r''"
  by (auto simp: intervals_def)

lemma size_token_step:
  assumes "0 < n" "in_int64 n" "rt_MaxBytes p = 0"
  shows "rotate_tokens [show_int n @ ''mb''] p = Inr (p\<lparr>rt_MaxBytes := wrap64 (n * 2 ^ 20)\<rparr>)"
proof -
  let ?t = "show_int n @ ''mb''"
  have "trim_space ?t = ?t" using size_token_plain[OF assms(1)] by (intro trim_plain) auto
  moreover have "?t \<notin> set intervals" "?t \<noteq> ''never''"
    using last_size_token(2)[of n] interval_last by force+
  ultimately show ?thesis using assms parse_size_token[OF assms(1,2)] by (simp add: Let_def)
qed

text \<open>Whatever the size, the policy read is the one written up to the width of the product.\<close>

lemma ParseRotate_print:
  assumes i: "interval = [] \<or> interval \<in> set intervals" and n: "0 < n" "in_int64 n"
  shows "ParseRotate (print_rotate interval n) = Inr \<lparr>rt_Interval = interval, rt_MaxBytes = wrap64 (n * 2 ^ 20)\<rparr>"
proof -
  let ?t = "show_int n @ ''mb''" and ?s = "print_rotate interval n"
  have chars: "\<forall>c \<in> set ?s. plain_char c \<and> lower_char c = c"
  proof -
    have "\<forall>c \<in> set interval. plain_char c \<and> lower_char c = c"
      using i interval_plain by (cases "interval = []") auto
    moreover have "plain_char CHR '','' \<and> lower_char CHR '','' = CHR '',''"
      by (simp add: plain_char_def lower_char_def)
    ultimately show ?thesis using size_token_plain[OF n(1)] by (simp add: print_rotate_def ball_Un)
  qed
  have "?s \<noteq> []" by (simp add: print_rotate_def)
  have "?s \<noteq> ''never''" 
  proof
    assume "?s = ''never''"
    then have "last ?s = CHR ''r''" by simp
    moreover have "last ?s = CHR ''b''" by (simp add: print_rotate_def)
    ultimately show False by simp
  qed
  with chars have s: "trim_space (to_lower ?s) = ?s" using trim_plain[of ?s] \<open>?s \<noteq> []\<close> by (simp add: lower_plain)
  let ?parts = "if interval = [] then [?t] else [interval, ?t]"
  have "split_on CHR '','' (join CHR '','' ?parts) = ?parts"
    using i interval_plain size_token_plain[OF n(1)] by (intro split_on_join) auto
  moreover have "join CHR '','' ?parts = ?s" by (simp add: print_rotate_def)
  ultimately have parts: "split_on CHR '','' ?s = ?parts" by simp
  have "rotate_tokens ?parts zero_policy = Inr \<lparr>rt_Interval = interval, rt_MaxBytes = wrap64 (n * 2 ^ 20)\<rparr>"
  proof (cases "interval = []")
    case True
    then show ?thesis using size_token_step[OF n, of zero_policy] by (simp add: zero_policy_def del: rotate_tokens.simps)
  next
    case False
    then have "trim_space interval = interval" "interval \<in> set intervals"
      using i interval_plain by (auto intro!: trim_plain)
    then have "rotate_tokens [interval, ?t] zero_policy = rotate_tokens [?t] \<lparr>rt_Interval = interval, rt_MaxBytes = 0\<rparr>"
      by (subst rotate_tokens.simps(2)) (simp add: zero_policy_def Let_def)
    also have "\<dots> = Inr \<lparr>rt_Interval = interval, rt_MaxBytes = wrap64 (n * 2 ^ 20)\<rparr>"
      using size_token_step[OF n, of "\<lparr>rt_Interval = interval, rt_MaxBytes = 0\<rparr>"]
      by (simp del: rotate_tokens.simps)
    finally show ?thesis using False by (simp del: rotate_tokens.simps)
  qed
  with s parts \<open>?s \<noteq> []\<close> \<open>?s \<noteq> ''never''\<close> show ?thesis by (simp add: ParseRotate_def Let_def)
qed

text \<open>A rotation policy is read as it is written: an interval or none, and a size in megabytes
  whose bytes fit in 64 bits.\<close>

theorem rotate_policy_roundtrip:
  assumes i: "interval = [] \<or> interval \<in> set intervals" and n: "0 < n" "n * 2 ^ 20 \<le> max_int64"
  shows "ParseRotate (print_rotate interval n) = Inr \<lparr>rt_Interval = interval, rt_MaxBytes = n * 2 ^ 20\<rparr>"
proof -
  have "in_int64 n" "in_int64 (n * 2 ^ 20)" using n by (simp_all add: min_int64_def max_int64_def)
  then show ?thesis using ParseRotate_print[OF i n(1)] by (simp add: wrap64_id)
qed

lemma rotate_policy_roundtrip_witness:
  "ParseRotate (print_rotate ''weekly'' 50) = Inr \<lparr>rt_Interval = ''weekly'', rt_MaxBytes = 52428800\<rparr>"
  using rotate_policy_roundtrip[of "''weekly''" 50] by (simp add: intervals_def max_int64_def)

text \<open>A size beyond that wraps around: two to the 43 megabytes become a negative limit, which the
  writer takes for none, and twice as many a limit of zero, after which a second size is
  accepted.\<close>

lemma rotate_size_wraps:
  "ParseRotate (print_rotate [] (2 ^ 43)) = Inr \<lparr>rt_Interval = [], rt_MaxBytes = min_int64\<rparr>"
  "ParseRotate (print_rotate [] (2 ^ 44)) = Inr \<lparr>rt_Interval = [], rt_MaxBytes = 0\<rparr>"
  using ParseRotate_print[of "[]" "2 ^ 43"] ParseRotate_print[of "[]" "2 ^ 44"]
  by (simp_all add: wrap64_def min_int64_def max_int64_def)

end
