(* ===== verification/Config_Validate.thy ===== *)
theory Config_Validate
  imports Config_Contact Log_Policy
begin

section \<open>Configuration: validation\<close>

text \<open>
  \<^verbatim>\<open>Validate\<close> of \<^verbatim>\<open>src/src/config/config.go\<close>, which replaces what is not usable in a configuration
  by the default, with \<^verbatim>\<open>validateLogFile\<close> and \<^verbatim>\<open>ValidateTracking\<close>. The configuration record
  has the settings that validation, loading, reloading and the contact functions look at; the
  others pass through unchanged. \<^verbatim>\<open>time.ParseDuration\<close>, \<^verbatim>\<open>strconv.ParseFloat\<close>, \<^verbatim>\<open>uuid.Parse\<close> and
  \<^verbatim>\<open>url.Parse\<close> are arguments. The warnings that are logged are left out.
\<close>

subsection \<open>The configuration\<close>

record limits_config =
  lm_MaxBodySize :: int
  lm_ReadTimeout :: string
  lm_WriteTimeout :: string
  lm_IdleTimeout :: string

record termbin_config =
  tb_Enabled :: bool
  tb_Port :: int
  tb_MaxSize :: int
  tb_Timeout :: string

record contact_page =
  cp_Enabled :: bool
  cp_Captcha :: string
  cp_SuccessMessage :: string

record rate_config =
  rl_Read :: int
  rl_Write :: int
  rl_Health :: int
  rl_GlobalBurst :: int

record cache_config =
  ca_Type :: string
  ca_URL :: string
  ca_Timeout :: string
  ca_TTL :: string

record log_file_config =
  lg_Filename :: string
  lg_Format :: string
  lg_Custom :: string
  lg_Rotate :: string
  lg_Keep :: string

record logging_config =
  lo_Level :: string
  lo_Access :: log_file_config
  lo_Server :: log_file_config
  lo_Error :: log_file_config
  lo_App :: log_file_config
  lo_Auth :: log_file_config
  lo_Security :: log_file_config
  lo_Debug :: log_file_config

record consent_config =
  cs_Position :: string
  cs_Message :: string
  cs_MessageIfSold :: string
  cs_PolicyText :: string
  cs_PolicyURL :: string
  cs_Decline :: string
  cs_Accept :: string
  cs_PreferencesText :: string

record smtp_config =
  sm_Host :: string
  sm_Port :: int
  sm_Username :: string
  sm_Password :: string
  sm_TLS :: string
  sm_FromName :: string
  sm_FromEmail :: string

record tracking_config =
  tr_Type :: string
  tr_ID :: string
  tr_URL :: string

record config =
  cf_Port :: string
  cf_Address :: string
  cf_FQDN :: string
  cf_Mode :: string
  cf_Token :: string
  cf_EncryptionKey :: string
  cf_BaseURL :: string
  cf_DatabaseType :: string
  cf_DatabasePath :: string
  cf_SiteTitle :: string
  cf_Title :: string
  cf_Tagline :: string
  cf_SMTP :: smtp_config
  cf_I2PEnabled :: bool
  cf_Contact :: contact_config
  cf_Limits :: limits_config
  cf_Termbin :: termbin_config
  cf_ContactPage :: contact_page
  cf_CountryMode :: string
  cf_Theme :: string
  cf_RateLimit :: rate_config
  cf_MaxSize :: string
  cf_MaxSizeBytes :: int
  cf_Cache :: cache_config
  cf_Logging :: logging_config
  cf_Consent :: consent_config
  cf_EssentialCookies :: bool
  cf_Tracking :: tracking_config
  cf_FirstRun :: bool

record val_lib =
  vl_duration :: "string \<Rightarrow> duration option"
  vl_float :: "string \<Rightarrow> float64 option"
  vl_conv :: "float64 \<Rightarrow> int"
  vl_uuid :: "string \<Rightarrow> bool"
  vl_url :: "string \<Rightarrow> (string \<times> string) option"   \<comment> \<open>scheme and host\<close>

subsection \<open>Defaults\<close>

definition empty_role :: contact_role where "empty_role = \<lparr>ct_Email = [], ct_Webhooks = []\<rparr>"

definition log_default :: "string \<Rightarrow> string \<Rightarrow> string \<Rightarrow> log_file_config" where
  "log_default filename format policy =
     \<lparr>lg_Filename = filename, lg_Format = format, lg_Custom = [], lg_Rotate = policy, lg_Keep = ''none''\<rparr>"

definition default_limits :: limits_config where
  "default_limits = \<lparr>lm_MaxBodySize = 10485760, lm_ReadTimeout = ''30s'', lm_WriteTimeout = ''30s'',
     lm_IdleTimeout = ''120s''\<rparr>"

definition default_termbin :: termbin_config where
  "default_termbin = \<lparr>tb_Enabled = True, tb_Port = 9999, tb_MaxSize = 32768, tb_Timeout = ''5s''\<rparr>"

definition default_logging :: logging_config where
  "default_logging = \<lparr>lo_Level = ''info'',
     lo_Access = log_default ''access.log'' ''apache'' ''monthly'',
     lo_Server = log_default ''server.log'' ''text'' ''weekly,50MB'',
     lo_Error = log_default ''error.log'' ''text'' ''weekly,50MB'',
     lo_App = log_default ''app.log'' ''logfmt'' ''weekly,50MB'',
     lo_Auth = log_default ''auth.log'' ''syslog'' ''weekly,50MB'',
     lo_Security = log_default ''security.log'' ''fail2ban'' ''weekly,50MB'',
     lo_Debug = log_default ''debug.log'' ''text'' ''weekly,50MB''\<rparr>"

definition default_consent :: consent_config where
  "default_consent = \<lparr>cs_Position = ''bottom'',
     cs_Message = ''In accordance with the EU GDPR law this message is being displayed. We use cookies for essential site functionality and, with your consent, for preferences and analytics. Your data is stored on our servers and is never sold.'',
     cs_MessageIfSold = ''In accordance with the EU GDPR law this message is being displayed. We use cookies for essential site functionality and, with your consent, for preferences and analytics. Your data may be shared with or sold to third parties as described in our Privacy Policy.'',
     cs_PolicyText = ''Privacy Policy'', cs_PolicyURL = ''/server/privacy'', cs_Decline = ''Decline'',
     cs_Accept = ''I Agree'', cs_PreferencesText = ''Manage Preferences''\<rparr>"

definition DefaultConfig :: config where
  "DefaultConfig = \<lparr>cf_Port = [], cf_Address = ''0.0.0.0'', cf_FQDN = [], cf_Mode = ''production'', cf_Token = [],
     cf_EncryptionKey = [], cf_BaseURL = [], cf_DatabaseType = ''sqlite'', cf_DatabasePath = [],
     cf_SiteTitle = ''Pastebin'', cf_Title = ''Pastebin'',
     cf_Tagline = ''A fast, public paste sharing service '' @ [CHR 0xE2, CHR 0x80, CHR 0x94] @ '' no account required.'',
     cf_SMTP = \<lparr>sm_Host = [], sm_Port = 587, sm_Username = [], sm_Password = [], sm_TLS = ''auto'', sm_FromName = [],
       sm_FromEmail = []\<rparr>,
     cf_I2PEnabled = False,
     cf_Contact = \<lparr>ct_Admin = empty_role\<lparr>ct_Email := ''admin@'' @ ''{fqdn}''\<rparr>,
       ct_Security = empty_role\<lparr>ct_Email := ''security@'' @ ''{fqdn}''\<rparr>, ct_Abuse = empty_role, ct_General = empty_role\<rparr>,
     cf_Limits = default_limits, cf_Termbin = default_termbin,
     cf_ContactPage = \<lparr>cp_Enabled = True, cp_Captcha = ''simple'',
       cp_SuccessMessage = ''Thank you for your message. We'll respond soon.''\<rparr>,
     cf_CountryMode = [], cf_Theme = ''dark'',
     cf_RateLimit = \<lparr>rl_Read = 120, rl_Write = 10, rl_Health = 120, rl_GlobalBurst = 240\<rparr>,
     cf_MaxSize = ''10mb'', cf_MaxSizeBytes = 10485760, cf_Cache = \<lparr>ca_Type = ''memory'', ca_URL = [], ca_Timeout = ''5s'', ca_TTL = ''1h''\<rparr>,
     cf_Logging = default_logging, cf_Consent = default_consent, cf_EssentialCookies = True,
     cf_Tracking = \<lparr>tr_Type = [], tr_ID = [], tr_URL = []\<rparr>, cf_FirstRun = False\<rparr>"

subsection \<open>Validation\<close>

definition positive_duration :: "val_lib \<Rightarrow> string \<Rightarrow> bool" where
  "positive_duration V s \<longleftrightarrow> (case vl_duration V s of None \<Rightarrow> False | Some t \<Rightarrow> t > 0)"

definition or_default :: "('a \<Rightarrow> bool) \<Rightarrow> 'a \<Rightarrow> 'a \<Rightarrow> 'a" where
  "or_default ok def x = (if ok x then x else def)"

definition blank :: "string \<Rightarrow> bool" where "blank s \<longleftrightarrow> trim_space s = []"

definition validateLogFile :: "log_file_config \<Rightarrow> log_file_config \<Rightarrow> string list \<Rightarrow> log_file_config" where
  "validateLogFile c def formats =
     (let fmt = to_lower (trim_space (lg_Format c));
          fmt = (if fmt = [] then lg_Format def else fmt);
          fmt = (if fmt \<in> set formats then fmt else lg_Format def);
          rot = (if blank (lg_Rotate c) then lg_Rotate def else lg_Rotate c);
          rot = (case ParseRotate rot of Inl _ \<Rightarrow> lg_Rotate def | Inr _ \<Rightarrow> rot);
          keep = (if blank (lg_Keep c) then lg_Keep def else lg_Keep c);
          keep = (case ParseKeep keep of Inl _ \<Rightarrow> lg_Keep def | Inr _ \<Rightarrow> keep)
      in c\<lparr>lg_Filename := (if blank (lg_Filename c) then lg_Filename def else lg_Filename c),
           lg_Format := fmt, lg_Rotate := rot, lg_Keep := keep\<rparr>)"

text \<open>The Google identifiers \<^verbatim>\<open>UA-\d+-\d+\<close> and \<^verbatim>\<open>G-[A-Z0-9]+\<close>.\<close>

definition all_digits :: "string \<Rightarrow> bool" where
  "all_digits s \<longleftrightarrow> s \<noteq> [] \<and> list_all (\<lambda>c. digit_val c \<noteq> None) s"

definition google_id :: "string \<Rightarrow> bool" where
  "google_id s \<longleftrightarrow>
     (has_prefix s ''UA-'' \<and> (case split_on CHR ''-'' (drop 3 s) of [a, b] \<Rightarrow> all_digits a \<and> all_digits b | _ \<Rightarrow> False)) \<or>
     (has_prefix s ''G-'' \<and> drop 2 s \<noteq> [] \<and>
      list_all (\<lambda>c. digit_val c \<noteq> None \<or> (65 \<le> (of_char c :: nat) \<and> (of_char c :: nat) \<le> 90)) (drop 2 s))"

datatype tracking_error =
    BadGoogleID | IDNotInteger | RequiresURL | RequiresID | BadUUID | UnknownType | BadURL

definition tracking_id_error :: "val_lib \<Rightarrow> tracking_config \<Rightarrow> tracking_error option" where
  "tracking_id_error V t =
     (if tr_Type t = ''google'' then (if google_id (tr_ID t) then None else Some BadGoogleID)
      else if tr_Type t = ''matomo'' \<or> tr_Type t = ''piwik'' then
        (if snd (ParseInt (tr_ID t)) \<noteq> None then Some IDNotInteger
         else if tr_URL t = [] then Some RequiresURL else None)
      else if tr_Type t = ''owa'' then
        (if tr_ID t = [] then Some RequiresID else if tr_URL t = [] then Some RequiresURL else None)
      else if tr_Type t = ''fathom'' \<or> tr_Type t = ''plausible'' \<or> tr_Type t = ''cloudflare'' then
        (if tr_ID t = [] then Some RequiresID else None)
      else if tr_Type t = ''umami'' then
        (if \<not> vl_uuid V (tr_ID t) then Some BadUUID else if tr_URL t = [] then Some RequiresURL else None)
      else if tr_Type t = ''simple'' then None
      else Some UnknownType)"

definition ValidateTracking :: "val_lib \<Rightarrow> tracking_config \<Rightarrow> tracking_error option" where
  "ValidateTracking V t =
     (if tr_Type t = [] \<or> tr_Type t = ''none'' then None
      else case tracking_id_error V t of
             Some e \<Rightarrow> Some e
           | None \<Rightarrow>
               if tr_URL t = [] then None
               else case vl_url V (tr_URL t) of
                      None \<Rightarrow> Some BadURL
                    | Some (scheme, host) \<Rightarrow> if scheme = [] \<or> host = [] then Some BadURL else None)"

definition validate_limits :: "val_lib \<Rightarrow> limits_config \<Rightarrow> limits_config" where
  "validate_limits V l =
     \<lparr>lm_MaxBodySize = or_default (\<lambda>n. n > 0) (lm_MaxBodySize default_limits) (lm_MaxBodySize l),
      lm_ReadTimeout = or_default (positive_duration V) (lm_ReadTimeout default_limits) (lm_ReadTimeout l),
      lm_WriteTimeout = or_default (positive_duration V) (lm_WriteTimeout default_limits) (lm_WriteTimeout l),
      lm_IdleTimeout = or_default (positive_duration V) (lm_IdleTimeout default_limits) (lm_IdleTimeout l)\<rparr>"

definition validate_termbin :: "val_lib \<Rightarrow> termbin_config \<Rightarrow> termbin_config" where
  "validate_termbin V t =
     (if \<not> tb_Enabled t then t
      else t\<lparr>tb_Port := or_default (\<lambda>p. 0 < p \<and> p \<le> 65535) (tb_Port default_termbin) (tb_Port t),
             tb_MaxSize := or_default (\<lambda>n. n > 0) (tb_MaxSize default_termbin) (tb_MaxSize t),
             tb_Timeout := or_default (positive_duration V) (tb_Timeout default_termbin) (tb_Timeout t)\<rparr>)"

definition captchas :: "string list" where "captchas = [''simple'', ''recaptcha'', ''hcaptcha'']"

definition validate_contact_page :: "contact_page \<Rightarrow> contact_page" where
  "validate_contact_page p =
     p\<lparr>cp_Captcha := or_default (\<lambda>c. c \<in> set captchas) (cp_Captcha (cf_ContactPage DefaultConfig)) (cp_Captcha p),
       cp_SuccessMessage := or_default (\<lambda>m. m \<noteq> []) (cp_SuccessMessage (cf_ContactPage DefaultConfig)) (cp_SuccessMessage p)\<rparr>"

definition country_modes :: "string list" where "country_modes = [[], ''none'', ''deny'', ''allow'']"

definition validate_country :: "string \<Rightarrow> string" where
  "validate_country s = (let m = to_lower (trim_space s) in if m \<in> set country_modes then m else [])"

definition themes :: "string list" where "themes = [''dark'', ''light'', ''auto'']"

definition validate_rates :: "rate_config \<Rightarrow> rate_config" where
  "validate_rates r =
     \<lparr>rl_Read = or_default (\<lambda>n. n \<ge> 0) (rl_Read (cf_RateLimit DefaultConfig)) (rl_Read r),
      rl_Write = or_default (\<lambda>n. n \<ge> 0) (rl_Write (cf_RateLimit DefaultConfig)) (rl_Write r),
      rl_Health = or_default (\<lambda>n. n \<ge> 0) (rl_Health (cf_RateLimit DefaultConfig)) (rl_Health r),
      rl_GlobalBurst = or_default (\<lambda>n. n \<ge> 0) (rl_GlobalBurst (cf_RateLimit DefaultConfig)) (rl_GlobalBurst r)\<rparr>"

definition validate_size :: "val_lib \<Rightarrow> string \<Rightarrow> string \<times> int" where
  "validate_size V s =
     (case ParseSize (vl_float V) (vl_conv V) s (cf_MaxSizeBytes DefaultConfig) of
        Inl _ \<Rightarrow> (cf_MaxSize DefaultConfig, cf_MaxSizeBytes DefaultConfig)
      | Inr n \<Rightarrow> (s, n))"

definition validate_cache :: "val_lib \<Rightarrow> cache_config \<Rightarrow> cache_config" where
  "validate_cache V c =
     c\<lparr>ca_Timeout := or_default (positive_duration V) (ca_Timeout (cf_Cache DefaultConfig)) (ca_Timeout c),
       ca_TTL := or_default (positive_duration V) (ca_TTL (cf_Cache DefaultConfig)) (ca_TTL c)\<rparr>"

definition levels :: "string list" where "levels = [''debug'', ''info'', ''warn'', ''error'']"

definition access_formats :: "string list" where "access_formats = [''apache'', ''nginx'', ''json'', ''custom'']"

definition text_formats :: "string list" where "text_formats = [''text'', ''json'']"

definition app_formats :: "string list" where "app_formats = [''logfmt'', ''json'']"

definition auth_formats :: "string list" where "auth_formats = [''syslog'', ''json'']"

definition security_formats :: "string list" where
  "security_formats = [''fail2ban'', ''syslog'', ''cef'', ''json'', ''text'']"

definition validate_logging :: "logging_config \<Rightarrow> logging_config" where
  "validate_logging l =
     \<lparr>lo_Level = or_default (\<lambda>v. v \<in> set levels) ''info'' (lo_Level l),
      lo_Access = validateLogFile (lo_Access l) (lo_Access default_logging) access_formats,
      lo_Server = validateLogFile (lo_Server l) (lo_Server default_logging) text_formats,
      lo_Error = validateLogFile (lo_Error l) (lo_Error default_logging) text_formats,
      lo_App = validateLogFile (lo_App l) (lo_App default_logging) app_formats,
      lo_Auth = validateLogFile (lo_Auth l) (lo_Auth default_logging) auth_formats,
      lo_Security = validateLogFile (lo_Security l) (lo_Security default_logging) security_formats,
      lo_Debug = validateLogFile (lo_Debug l) (lo_Debug default_logging) text_formats\<rparr>"

definition positions :: "string list" where "positions = [''top'', ''bottom'']"

definition validate_consent :: "consent_config \<Rightarrow> consent_config" where
  "validate_consent c =
     \<lparr>cs_Position = or_default (\<lambda>p. p \<in> set positions) (cs_Position default_consent) (cs_Position c),
      cs_Message = or_default (\<lambda>s. \<not> blank s) (cs_Message default_consent) (cs_Message c),
      cs_MessageIfSold = or_default (\<lambda>s. \<not> blank s) (cs_MessageIfSold default_consent) (cs_MessageIfSold c),
      cs_PolicyText = or_default (\<lambda>s. \<not> blank s) (cs_PolicyText default_consent) (cs_PolicyText c),
      cs_PolicyURL = or_default (\<lambda>s. \<not> blank s) (cs_PolicyURL default_consent) (cs_PolicyURL c),
      cs_Decline = or_default (\<lambda>s. \<not> blank s) (cs_Decline default_consent) (cs_Decline c),
      cs_Accept = or_default (\<lambda>s. \<not> blank s) (cs_Accept default_consent) (cs_Accept c),
      cs_PreferencesText = or_default (\<lambda>s. \<not> blank s) (cs_PreferencesText default_consent) (cs_PreferencesText c)\<rparr>"

definition Validate :: "val_lib \<Rightarrow> config \<Rightarrow> config" where
  "Validate V c =
     c\<lparr>cf_Limits := validate_limits V (cf_Limits c),
       cf_Termbin := validate_termbin V (cf_Termbin c),
       cf_ContactPage := validate_contact_page (cf_ContactPage c),
       cf_CountryMode := validate_country (cf_CountryMode c),
       cf_Theme := or_default (\<lambda>t. t \<in> set themes) ''dark'' (cf_Theme c),
       cf_RateLimit := validate_rates (cf_RateLimit c),
       cf_MaxSize := fst (validate_size V (cf_MaxSize c)),
       cf_MaxSizeBytes := snd (validate_size V (cf_MaxSize c)),
       cf_Cache := validate_cache V (cf_Cache c),
       cf_Logging := validate_logging (cf_Logging c),
       cf_Consent := validate_consent (cf_Consent c),
       cf_EssentialCookies := True,
       cf_Tracking := (if ValidateTracking V (cf_Tracking c) = None then cf_Tracking c
                       else \<lparr>tr_Type = [], tr_ID = [], tr_URL = []\<rparr>)\<rparr>"

subsection \<open>What a valid configuration is\<close>

definition log_valid :: "string list \<Rightarrow> log_file_config \<Rightarrow> bool" where
  "log_valid formats c \<longleftrightarrow> \<not> blank (lg_Filename c) \<and> lg_Format c \<in> set formats \<and>
     \<not> blank (lg_Rotate c) \<and> (\<exists>p. ParseRotate (lg_Rotate c) = Inr p) \<and>
     \<not> blank (lg_Keep c) \<and> (\<exists>k. ParseKeep (lg_Keep c) = Inr k)"

definition logging_valid :: "logging_config \<Rightarrow> bool" where
  "logging_valid l \<longleftrightarrow> lo_Level l \<in> set levels \<and> log_valid access_formats (lo_Access l) \<and>
     log_valid text_formats (lo_Server l) \<and> log_valid text_formats (lo_Error l) \<and>
     log_valid app_formats (lo_App l) \<and> log_valid auth_formats (lo_Auth l) \<and>
     log_valid security_formats (lo_Security l) \<and> log_valid text_formats (lo_Debug l)"

definition limits_valid :: "val_lib \<Rightarrow> limits_config \<Rightarrow> bool" where
  "limits_valid V l \<longleftrightarrow> lm_MaxBodySize l > 0 \<and> positive_duration V (lm_ReadTimeout l) \<and>
     positive_duration V (lm_WriteTimeout l) \<and> positive_duration V (lm_IdleTimeout l)"

definition termbin_valid :: "val_lib \<Rightarrow> termbin_config \<Rightarrow> bool" where
  "termbin_valid V t \<longleftrightarrow> tb_Enabled t \<longrightarrow>
     0 < tb_Port t \<and> tb_Port t \<le> 65535 \<and> tb_MaxSize t > 0 \<and> positive_duration V (tb_Timeout t)"

definition consent_valid :: "consent_config \<Rightarrow> bool" where
  "consent_valid c \<longleftrightarrow> cs_Position c \<in> set positions \<and>
     list_all (\<lambda>s. \<not> blank s) [cs_Message c, cs_MessageIfSold c, cs_PolicyText c, cs_PolicyURL c, cs_Decline c,
       cs_Accept c, cs_PreferencesText c]"

definition rates_valid :: "rate_config \<Rightarrow> bool" where
  "rates_valid r \<longleftrightarrow> rl_Read r \<ge> 0 \<and> rl_Write r \<ge> 0 \<and> rl_Health r \<ge> 0 \<and> rl_GlobalBurst r \<ge> 0"

definition valid_config :: "val_lib \<Rightarrow> config \<Rightarrow> bool" where
  "valid_config V c \<longleftrightarrow>
     limits_valid V (cf_Limits c) \<and> termbin_valid V (cf_Termbin c) \<and>
     cp_Captcha (cf_ContactPage c) \<in> set captchas \<and> cp_SuccessMessage (cf_ContactPage c) \<noteq> [] \<and>
     cf_CountryMode c \<in> set country_modes \<and> cf_Theme c \<in> set themes \<and> rates_valid (cf_RateLimit c) \<and>
     ParseSize (vl_float V) (vl_conv V) (cf_MaxSize c) (cf_MaxSizeBytes DefaultConfig) = Inr (cf_MaxSizeBytes c) \<and>
     positive_duration V (ca_Timeout (cf_Cache c)) \<and> positive_duration V (ca_TTL (cf_Cache c)) \<and>
     logging_valid (cf_Logging c) \<and> consent_valid (cf_Consent c) \<and> cf_EssentialCookies c \<and>
     ValidateTracking V (cf_Tracking c) = None"

text \<open>What is assumed of the library: it reads the defaults.\<close>

definition reads_defaults :: "val_lib \<Rightarrow> bool" where
  "reads_defaults V \<longleftrightarrow> list_all (positive_duration V) [''30s'', ''120s'', ''5s'', ''1h''] \<and>
     vl_float V ''10'' = Some (Fin 10)"

lemma or_default_ok: "ok def \<Longrightarrow> ok (or_default ok def x)" by (simp add: or_default_def)

lemma or_default_id [simp]: "ok x \<Longrightarrow> or_default ok def x = x" by (simp add: or_default_def)

text \<open>Log files.\<close>

lemma to_lower_fixed: "f \<noteq> [] \<Longrightarrow> \<forall>c \<in> set f. plain_char c \<and> lower_char c = c \<Longrightarrow> to_lower (trim_space f) = f"
  using trim_plain[of f] lower_plain[of f] by simp

definition formats_fixed :: "string list \<Rightarrow> bool" where
  "formats_fixed fs \<longleftrightarrow> (\<forall>f \<in> set fs. f \<noteq> [] \<and> (\<forall>c \<in> set f. plain_char c \<and> lower_char c = c))"

lemma formats_fixed:
  "formats_fixed access_formats" "formats_fixed text_formats" "formats_fixed app_formats"
  "formats_fixed auth_formats" "formats_fixed security_formats"
  by (simp_all add: formats_fixed_def access_formats_def text_formats_def app_formats_def auth_formats_def
      security_formats_def plain_char_def lower_char_def)

lemma validateLogFile_valid: "log_valid fs def \<Longrightarrow> log_valid fs (validateLogFile c def fs)"
  by (auto simp: log_valid_def validateLogFile_def Let_def split: sum.splits)

lemma validateLogFile_id: "formats_fixed fs \<Longrightarrow> log_valid fs c \<Longrightarrow> validateLogFile c def fs = c"
proof -
  assume "formats_fixed fs" "log_valid fs c"
  then have "to_lower (trim_space (lg_Format c)) = lg_Format c" "lg_Format c \<noteq> []"
    using to_lower_fixed[of "lg_Format c"] by (auto simp: formats_fixed_def log_valid_def)
  with \<open>log_valid fs c\<close> show ?thesis by (auto simp: log_valid_def validateLogFile_def Let_def)
qed

text \<open>Text that starts with a printable character is not blank.\<close>

lemma space_suffix_less: "s \<noteq> [] \<Longrightarrow> plain_char (hd s) \<Longrightarrow> space_suffix s < length s"
proof (cases "find (\<lambda>p. has_suffix s p) space_seqs")
  case (Some p)
  assume s: "s \<noteq> []" "plain_char (hd s)"
  from Some have p: "p \<in> set space_seqs" "has_suffix s p" by (auto simp: find_Some_iff)
  then have "p \<noteq> s" using space_seq_ends s by auto
  with p(2) have "length p < length s" by (auto simp: has_suffix_def nat_less_le)
  with Some show ?thesis by (simp add: space_suffix_def)
qed (simp add: space_suffix_def)

lemma trim_right_hd: "s \<noteq> [] \<Longrightarrow> plain_char (hd s) \<Longrightarrow> trim_right_space s \<noteq> []"
proof (induction s rule: trim_right_space.induct)
  case (1 s)
  have l: "space_suffix s < length s" using space_suffix_less 1 by blast
  show ?case
  proof (cases "space_suffix s = 0")
    case True
    then show ?thesis using 1 by (subst trim_right_space.simps) simp
  next
    case False
    have "trim_right_space (take (length s - space_suffix s) s) \<noteq> []"
      using l 1 False by (intro "1.IH"[OF refl]) simp_all
    with False show ?thesis by (subst trim_right_space.simps) (simp add: Let_def)
  qed
qed

lemma not_blank_plain: "s \<noteq> [] \<Longrightarrow> plain_char (hd s) \<Longrightarrow> \<not> blank s"
proof -
  assume s: "s \<noteq> []" "plain_char (hd s)"
  then have "trim_left_space s = s"
    using space_prefix_plain[of "hd s" "tl s"] by (subst trim_left_space.simps) simp
  with trim_right_hd[OF s] show ?thesis by (simp add: blank_def trim_space_def)
qed

lemma ParseRotate_defaults: "ParseRotate ''monthly'' = Inr \<lparr>rt_Interval = ''monthly'', rt_MaxBytes = 0\<rparr>"
  "ParseRotate ''weekly,50MB'' = Inr \<lparr>rt_Interval = ''weekly'', rt_MaxBytes = 52428800\<rparr>"
proof -
  have t: "trim_space ''monthly'' = ''monthly''" by (rule trim_plain) (simp_all add: plain_char_def)
  moreover have "to_lower ''monthly'' = ''monthly''" by code_simp
  ultimately show "ParseRotate ''monthly'' = Inr \<lparr>rt_Interval = ''monthly'', rt_MaxBytes = 0\<rparr>"
    by (simp add: ParseRotate_def zero_policy_def intervals_def)
  have "show_int 50 = ''50''" by code_simp
  then have "print_rotate ''weekly'' 50 = ''weekly,50mb''" by (simp add: print_rotate_def)
  moreover have "ParseRotate ''weekly,50MB'' = ParseRotate ''weekly,50mb''"
  proof -
    have "to_lower ''weekly,50MB'' = ''weekly,50mb''" "to_lower ''weekly,50mb'' = ''weekly,50mb''" by code_simp+
    then show ?thesis by (simp add: ParseRotate_def)
  qed
  ultimately show "ParseRotate ''weekly,50MB'' = Inr \<lparr>rt_Interval = ''weekly'', rt_MaxBytes = 52428800\<rparr>"
    using ParseRotate_print[of "''weekly''" 50]
    by (simp add: intervals_def wrap64_def max_int64_def min_int64_def)
qed

lemma ParseKeep_default: "ParseKeep ''none'' = Inr \<lparr>kp_Mode = ''none'', kp_Count = 0, kp_Age = 0\<rparr>"
proof -
  have "trim_space ''none'' = ''none''" by (rule trim_plain) (simp_all add: plain_char_def)
  moreover have "to_lower ''none'' = ''none''" by code_simp
  ultimately show ?thesis by (simp add: ParseKeep_def)
qed

lemma default_logging_valid: "logging_valid default_logging"
  using not_blank_plain
  by (auto simp: logging_valid_def log_valid_def default_logging_def log_default_def levels_def access_formats_def
      text_formats_def app_formats_def auth_formats_def security_formats_def ParseRotate_defaults ParseKeep_default
      plain_char_def)

lemma default_consent_valid: "consent_valid default_consent"
  unfolding consent_valid_def default_consent_def consent_config.simps list.pred_inject simp_thms
  by (intro conjI not_blank_plain) (simp_all add: positions_def plain_char_def)

lemma default_size:
  assumes "reads_defaults V"
  shows "ParseSize (vl_float V) (vl_conv V) ''10mb'' d = Inr 10485760"
proof -
  have "trim_space ''10mb'' = ''10mb''" "trim_space ''10'' = ''10''"
    by (rule trim_plain; simp add: plain_char_def)+
  moreover have "to_lower ''10mb'' = ''10mb''" by code_simp
  moreover have "size_number (vl_float V) (vl_conv V) ''10'' (2 ^ 20) = Inr (10 * 2 ^ 20)"
    using assms by (intro size_number_exact) (simp_all add: reads_defaults_def)
  ultimately show ?thesis
    by (simp add: ParseSize_def sizeUnits_def has_suffix_def trim_suffix_def Let_def)
qed

subsection \<open>Validation is a projection\<close>

lemma validate_size_valid:
  assumes "reads_defaults V"
  shows "ParseSize (vl_float V) (vl_conv V) (fst (validate_size V s)) (cf_MaxSizeBytes DefaultConfig) =
    Inr (snd (validate_size V s))"
  using default_size[OF assms] by (auto simp: validate_size_def DefaultConfig_def split: sum.splits)

lemma validate_country_valid: "validate_country s \<in> set country_modes"
  by (simp add: validate_country_def Let_def country_modes_def)

lemma validate_country_id: "m \<in> set country_modes \<Longrightarrow> validate_country m = m"
  using to_lower_fixed[of m]
  by (auto simp: validate_country_def Let_def country_modes_def plain_char_def lower_char_def)

lemma validate_logging_valid: "logging_valid (validate_logging l)"
  using default_logging_valid unfolding logging_valid_def validate_logging_def
  by (simp add: validateLogFile_valid or_default_def levels_def)

lemma validate_logging_id: "logging_valid l \<Longrightarrow> validate_logging l = l"
  unfolding logging_valid_def validate_logging_def
  by (simp add: validateLogFile_id formats_fixed)

lemma validate_limits_valid: "reads_defaults V \<Longrightarrow> limits_valid V (validate_limits V l)"
  by (simp add: limits_valid_def validate_limits_def default_limits_def reads_defaults_def or_default_def)

lemma validate_termbin_valid: "reads_defaults V \<Longrightarrow> termbin_valid V (validate_termbin V t)"
  by (simp add: termbin_valid_def validate_termbin_def default_termbin_def reads_defaults_def or_default_def)

lemma validate_consent_valid: "consent_valid (validate_consent c)"
  using default_consent_valid by (simp add: consent_valid_def validate_consent_def or_default_def)

lemma default_parts:
  "cf_ContactPage DefaultConfig = \<lparr>cp_Enabled = True, cp_Captcha = ''simple'',
     cp_SuccessMessage = ''Thank you for your message. We'll respond soon.''\<rparr>"
  "cf_RateLimit DefaultConfig = \<lparr>rl_Read = 120, rl_Write = 10, rl_Health = 120, rl_GlobalBurst = 240\<rparr>"
  "cf_Cache DefaultConfig = \<lparr>ca_Type = ''memory'', ca_URL = [], ca_Timeout = ''5s'', ca_TTL = ''1h''\<rparr>"
  by (simp_all add: DefaultConfig_def)

lemma validate_page_valid:
  "cp_Captcha (validate_contact_page p) \<in> set captchas" "cp_SuccessMessage (validate_contact_page p) \<noteq> []"
  by (simp_all add: validate_contact_page_def default_parts or_default_def captchas_def)

lemma validate_rates_valid: "rates_valid (validate_rates r)"
  by (simp add: validate_rates_def rates_valid_def default_parts or_default_def)

lemma validate_cache_valid:
  "reads_defaults V \<Longrightarrow> positive_duration V (ca_Timeout (validate_cache V c)) \<and> positive_duration V (ca_TTL (validate_cache V c))"
  by (simp add: validate_cache_def default_parts or_default_def reads_defaults_def)

lemma theme_valid: "or_default (\<lambda>t. t \<in> set themes) ''dark'' t \<in> set themes"
  by (simp add: or_default_def themes_def)

lemma tracking_off: "ValidateTracking V \<lparr>tr_Type = [], tr_ID = i, tr_URL = u\<rparr> = None"
  by (simp add: ValidateTracking_def)

lemma Validate_valid: "reads_defaults V \<Longrightarrow> valid_config V (Validate V c)"
  unfolding valid_config_def Validate_def
  by (simp add: validate_limits_valid validate_termbin_valid validate_page_valid validate_country_valid theme_valid
      validate_rates_valid validate_size_valid validate_cache_valid validate_logging_valid validate_consent_valid
      tracking_off)

lemma Validate_id: "valid_config V c \<Longrightarrow> Validate V c = c"
  unfolding valid_config_def Validate_def
  by (simp add: validate_limits_def limits_valid_def validate_termbin_def termbin_valid_def
      validate_contact_page_def validate_country_id validate_rates_def rates_valid_def validate_size_def
      validate_cache_def validate_logging_id validate_consent_def consent_valid_def)

text \<open>C34: Validation brings every setting it looks at into its range and leaves a configuration
  with all of them in range alone. Whatever was read from the file, in the result the largest
  body size, the request and cache timeouts and the cache lifetime are positive; port, size and
  timeout of termbin are in range if it is enabled; the captcha kind, country mode and theme are
  known names and the contact page has a success message; no rate is negative; the paste size
  limit in bytes is what its text parses to (zero and below meaning no limit); the log level is
  known, and each log file has a name, a known format and policies that parse; the consent
  dialog has a known position and no blank text, and essential cookies are on; and tracking is
  complete or off. A configuration like that passes unchanged, so a second validation changes
  nothing. Settings that validation does not look at (mode, database and cache type, mail
  encryption) are not claimed. Assumed is that the library reads the built-in defaults.\<close>

theorem validate_projects:
  assumes "reads_defaults V"
  shows "valid_config V (Validate V c) \<and> (valid_config V c \<longrightarrow> Validate V c = c) \<and>
    Validate V (Validate V c) = Validate V c"
  using Validate_valid[OF assms] Validate_id by blast

definition sample_vlib :: val_lib where
  "sample_vlib = \<lparr>vl_duration = (\<lambda>s. if s \<in> {''30s'', ''120s'', ''5s'', ''1h''} then Some Second else None),
     vl_float = sample_float, vl_conv = (\<lambda>_. 0), vl_uuid = (\<lambda>_. False), vl_url = (\<lambda>_. None)\<rparr>"

lemma sample_reads_defaults: "reads_defaults sample_vlib"
proof -
  have "show_int 10 = ''10''" by code_simp
  then have "ParseInt ''10'' = (10, None)"
    using ParseInt_show_int[of 10] by (simp add: min_int64_def max_int64_def)
  then show ?thesis
    by (simp add: reads_defaults_def sample_vlib_def positive_duration_def sample_float_def Second_def)
qed

lemma validate_projects_witness:
  "valid_config sample_vlib (Validate sample_vlib (DefaultConfig\<lparr>cf_Theme := ''neon'', cf_MaxSize := ''lots''\<rparr>))"
  using validate_projects[OF sample_reads_defaults] by blast

end
