(* ===== verification/Config_File.thy ===== *)
theory Config_File
  imports Config_Validate
begin

section \<open>Configuration: environment, file and reload\<close>

text \<open>
  \<^verbatim>\<open>loadEnv\<close>, \<^verbatim>\<open>Load\<close>, \<^verbatim>\<open>Save\<close>, \<^verbatim>\<open>ResolvePort\<close> and the \<^verbatim>\<open>ConfigManager\<close> of \<^verbatim>\<open>src/src/config/config.go\<close>.
  Reading and writing YAML are arguments; so are the environment, the sources of the server's
  name and the random draws. The file is its bytes, or absent.
\<close>

subsection \<open>The environment\<close>

type_synonym env = "string \<Rightarrow> string"       \<comment> \<open>os.Getenv: empty when unset\<close>

definition from_env :: "env \<Rightarrow> string \<Rightarrow> (string \<Rightarrow> config \<Rightarrow> config) \<Rightarrow> config \<Rightarrow> config" where
  "from_env e k upd c = (if e k \<noteq> [] then upd (e k) c else c)"

definition env_domain :: "host_lib \<Rightarrow> env \<Rightarrow> config \<Rightarrow> config" where
  "env_domain H e c =
     (let v = trim_space (e ''DOMAIN'') in
      if v \<noteq> [] \<and> IsValidHost H v (fold_case (trim_space (cf_Mode c)) = ''development'') ''pastebin''
      then c\<lparr>cf_FQDN := v\<rparr> else c)"

definition env_cache :: "string \<Rightarrow> config \<Rightarrow> config" where
  "env_cache v c =
     (let k = (cf_Cache c)\<lparr>ca_URL := v\<rparr> in
      c\<lparr>cf_Cache :=
         (if has_prefix v ''valkey://'' \<or> has_prefix v ''valkeys://'' then k\<lparr>ca_Type := ''valkey''\<rparr>
          else if has_prefix v ''redis://'' \<or> has_prefix v ''rediss://'' then k\<lparr>ca_Type := ''redis''\<rparr>
          else k)\<rparr>)"

definition env_size :: "val_lib \<Rightarrow> env \<Rightarrow> config \<Rightarrow> config" where
  "env_size V e c =
     (if e ''MAX_SIZE'' \<noteq> [] then
        (case ParseSize (vl_float V) (vl_conv V) (e ''MAX_SIZE'') (cf_MaxSizeBytes c) of
           Inr n \<Rightarrow> c\<lparr>cf_MaxSize := e ''MAX_SIZE'', cf_MaxSizeBytes := n\<rparr>
         | Inl _ \<Rightarrow> c)
      else if e ''MAX_SIZE_BYTES'' \<noteq> [] then
        (case ParseInt (e ''MAX_SIZE_BYTES'') of
           (n, None) \<Rightarrow> (let n = (if n < 0 then 0 else n) in c\<lparr>cf_MaxSize := show_int n, cf_MaxSizeBytes := n\<rparr>)
         | (_, Some _) \<Rightarrow> c)
      else c)"

definition env_int :: "(int \<Rightarrow> config \<Rightarrow> config) \<Rightarrow> string \<Rightarrow> config \<Rightarrow> config" where
  "env_int upd v c = (case ParseInt v of (n, None) \<Rightarrow> upd n c | (_, Some _) \<Rightarrow> c)"

definition env_bool :: "(config \<Rightarrow> bool) \<Rightarrow> (bool \<Rightarrow> config \<Rightarrow> config) \<Rightarrow> string \<Rightarrow> config \<Rightarrow> config" where
  "env_bool get upd v c = (case ParseBool v (get c) of Inr b \<Rightarrow> upd b c | Inl _ \<Rightarrow> c)"

definition set_smtp :: "(smtp_config \<Rightarrow> smtp_config) \<Rightarrow> config \<Rightarrow> config" where
  "set_smtp f c = c\<lparr>cf_SMTP := f (cf_SMTP c)\<rparr>"

definition set_termbin :: "(termbin_config \<Rightarrow> termbin_config) \<Rightarrow> config \<Rightarrow> config" where
  "set_termbin f c = c\<lparr>cf_Termbin := f (cf_Termbin c)\<rparr>"

text \<open>The variables in the order of the code; a later one overrides an earlier one.\<close>

definition env_names :: "host_lib \<Rightarrow> env \<Rightarrow> config \<Rightarrow> config" where
  "env_names H e c =
     (let c = from_env e ''MODE'' (\<lambda>v c. c\<lparr>cf_Mode := v\<rparr>) c;
          c = from_env e ''PORT'' (\<lambda>v c. c\<lparr>cf_Port := v\<rparr>) c;
          c = from_env e ''PASTEBIN_PORT'' (\<lambda>v c. c\<lparr>cf_Port := v\<rparr>) c;
          c = from_env e ''ADDRESS'' (\<lambda>v c. c\<lparr>cf_Address := v\<rparr>) c;
          c = from_env e ''LISTEN'' (\<lambda>v c. c\<lparr>cf_Address := v\<rparr>) c;
          c = from_env e ''BASE_URL'' (\<lambda>v c. c\<lparr>cf_BaseURL := v\<rparr>) c
      in env_domain H e c)"

definition env_store :: "env \<Rightarrow> config \<Rightarrow> config" where
  "env_store e c =
     (let c = from_env e ''DATABASE_DRIVER'' (\<lambda>v c. c\<lparr>cf_DatabaseType := v\<rparr>) c;
          c = from_env e ''DB_PATH'' (\<lambda>v c. c\<lparr>cf_DatabasePath := v\<rparr>) c;
          c = from_env e ''DATABASE_URL'' (\<lambda>v c. c\<lparr>cf_DatabasePath := v\<rparr>) c;
          c = from_env e ''CACHE_URL'' env_cache c;
          c = from_env e ''SITE_TITLE'' (\<lambda>v c. c\<lparr>cf_SiteTitle := v\<rparr>) c;
          c = from_env e ''APPLICATION_NAME'' (\<lambda>v c. c\<lparr>cf_Title := v\<rparr>) c;
          c = from_env e ''APPLICATION_TAGLINE'' (\<lambda>v c. c\<lparr>cf_Tagline := v\<rparr>) c
      in from_env e ''THEME'' (\<lambda>v c. c\<lparr>cf_Theme := v\<rparr>) c)"

definition env_mail :: "env \<Rightarrow> config \<Rightarrow> config" where
  "env_mail e c =
     (let c = from_env e ''SMTP_HOST'' (\<lambda>v. set_smtp (sm_Host_update (\<lambda>_. v))) c;
          c = from_env e ''SMTP_PORT'' (env_int (\<lambda>n. set_smtp (sm_Port_update (\<lambda>_. n)))) c;
          c = from_env e ''SMTP_USERNAME'' (\<lambda>v. set_smtp (sm_Username_update (\<lambda>_. v))) c;
          c = from_env e ''SMTP_PASSWORD'' (\<lambda>v. set_smtp (sm_Password_update (\<lambda>_. v))) c;
          c = from_env e ''SMTP_TLS'' (\<lambda>v. set_smtp (sm_TLS_update (\<lambda>_. v))) c;
          c = from_env e ''SMTP_FROM_NAME'' (\<lambda>v. set_smtp (sm_FromName_update (\<lambda>_. v))) c
      in from_env e ''SMTP_FROM_EMAIL'' (\<lambda>v. set_smtp (sm_FromEmail_update (\<lambda>_. v))) c)"

definition env_termbin :: "env \<Rightarrow> config \<Rightarrow> config" where
  "env_termbin e c =
     (let c = from_env e ''TERMBIN_ENABLED''
                (env_bool (\<lambda>c. tb_Enabled (cf_Termbin c)) (\<lambda>b. set_termbin (tb_Enabled_update (\<lambda>_. b)))) c;
          c = from_env e ''I2P_ENABLED'' (env_bool cf_I2PEnabled (\<lambda>b c. c\<lparr>cf_I2PEnabled := b\<rparr>)) c;
          c = from_env e ''TERMBIN_PORT'' (env_int (\<lambda>n. set_termbin (tb_Port_update (\<lambda>_. n)))) c;
          c = from_env e ''TERMBIN_MAX_SIZE'' (env_int (\<lambda>n. set_termbin (tb_MaxSize_update (\<lambda>_. n)))) c
      in from_env e ''TERMBIN_TIMEOUT'' (\<lambda>v. set_termbin (tb_Timeout_update (\<lambda>_. v))) c)"

definition loadEnv :: "host_lib \<Rightarrow> val_lib \<Rightarrow> env \<Rightarrow> config \<Rightarrow> config" where
  "loadEnv H V e c = env_termbin e (env_mail e (env_size V e (env_store e (env_names H e c))))"

subsection \<open>Secrets\<close>

definition tokenCharset :: string where
  "tokenCharset = ''abcdefghijklmnopqrstuvwxyzABCDEFGHIJKLMNOPQRSTUVWXYZ0123456789''"

definition ensureEncryptionKey :: "bytes option \<Rightarrow> config \<Rightarrow> config option" where
  "ensureEncryptionKey draw c =
     (if cf_EncryptionKey c \<noteq> [] then Some c
      else case draw of None \<Rightarrow> None | Some key \<Rightarrow> Some (c\<lparr>cf_EncryptionKey := hex_encode key\<rparr>))"

definition ensureServerToken :: "bytes option \<Rightarrow> config \<Rightarrow> config option" where
  "ensureServerToken draw c =
     (if cf_Token c \<noteq> [] then Some c
      else case draw of
             None \<Rightarrow> None
           | Some raw \<Rightarrow> Some (c\<lparr>cf_Token := ''tok_'' @ map (\<lambda>b. tokenCharset ! (of_char b mod 62)) raw\<rparr>))"

subsection \<open>Loading and saving\<close>

record load_env =
  le_hosts :: host_lib
  le_lib :: val_lib
  le_env :: env
  le_names :: name_sources
  le_parse :: "bytes \<Rightarrow> config \<Rightarrow> bool \<times> config"   \<comment> \<open>yaml.Unmarshal into a configuration\<close>
  le_print :: "config \<Rightarrow> bytes option"             \<comment> \<open>yaml.Marshal\<close>
  le_key :: "bytes option"
  le_token :: "bytes option"
  le_secrets :: "bytes option list"
  le_written :: bool                             \<comment> \<open>the temporary file is written and renamed\<close>

text \<open>The write is atomic: the file is replaced or untouched.\<close>

definition Save :: "load_env \<Rightarrow> config \<Rightarrow> bytes option \<Rightarrow> bool \<times> bytes option" where
  "Save L c file =
     (case le_print L c of
        None \<Rightarrow> (False, file)
      | Some data \<Rightarrow> if le_written L then (True, Some data) else (False, file))"

definition first_run :: "load_env \<Rightarrow> config \<Rightarrow> bytes option \<Rightarrow> config \<times> bytes option" where
  "first_run L cfg file =
     (let cfg = (case ensureEncryptionKey (le_key L) cfg of None \<Rightarrow> cfg | Some c \<Rightarrow> c);
          cfg = (case ensureServerToken (le_token L) cfg of None \<Rightarrow> cfg | Some c \<Rightarrow> c);
          saveCfg = DefaultConfig\<lparr>cf_FQDN := fqdn (le_hosts L) ((le_names L)\<lparr>ns_FQDN := cf_FQDN cfg, ns_Mode := cf_Mode cfg\<rparr>),
                      cf_EncryptionKey := cf_EncryptionKey cfg, cf_Token := cf_Token cfg\<rparr>
      in (cfg\<lparr>cf_FirstRun := True\<rparr>, snd (Save L saveCfg file)))"

text \<open>The part of \<^verbatim>\<open>Load\<close> after validation: secrets that are missing are drawn, and if one was, the
  configuration is written back.\<close>

definition fill_secrets :: "load_env \<Rightarrow> config \<Rightarrow> bool \<times> config" where
  "fill_secrets L cfg =
     (let (n1, cfg) = (if cf_EncryptionKey cfg = [] then
              (case ensureEncryptionKey (le_key L) cfg of None \<Rightarrow> (False, cfg) | Some c \<Rightarrow> (True, c))
            else (False, cfg));
          (n2, cfg) = (if cf_Token cfg = [] then
              (case ensureServerToken (le_token L) cfg of None \<Rightarrow> (n1, cfg) | Some c \<Rightarrow> (True, c))
            else (n1, cfg));
          (g, ok, rnd, ct) = ensureWebhookSecrets (le_secrets L) (cf_Contact cfg)
      in (n2 \<or> (ok \<and> g), cfg\<lparr>cf_Contact := ct\<rparr>))"

text \<open>\<^verbatim>\<open>Load\<close>: whether there was no error, the configuration, and the file afterwards.\<close>

definition Load :: "load_env \<Rightarrow> bool \<Rightarrow> bytes option \<Rightarrow> (bool \<times> config) \<times> bytes option" where
  "Load L readable file =
     (let cfg = loadEnv (le_hosts L) (le_lib L) (le_env L) DefaultConfig in
      case file of
        None \<Rightarrow> (let (c, f) = first_run L cfg file in ((True, c), f))
      | Some data \<Rightarrow>
          if \<not> readable then ((False, cfg), file)
          else
            let (ok, cfg) = le_parse L data cfg in
            if \<not> ok then ((False, cfg), file)
            else
              let cfg = Validate (le_lib L) (loadEnv (le_hosts L) (le_lib L) (le_env L) cfg);
                  (needSave, cfg) = fill_secrets L cfg
              in ((True, cfg), if needSave then snd (Save L cfg file) else file))"

subsection \<open>The port\<close>

definition persistPortOnly :: "load_env \<Rightarrow> bool \<Rightarrow> bytes option \<Rightarrow> string \<Rightarrow> bool \<times> bytes option" where
  "persistPortOnly L readable file port =
     (let (ok, base) = (case file of
            Some data \<Rightarrow> if readable then le_parse L data DefaultConfig else (True, DefaultConfig)
          | None \<Rightarrow> (True, DefaultConfig))
      in if \<not> ok then (False, file) else Save L (base\<lparr>cf_Port := port\<rparr>) file)"

text \<open>The result is whether there was no error, the configuration and the file.\<close>

definition ResolvePort ::
  "load_env \<Rightarrow> int list \<Rightarrow> (int \<Rightarrow> bool) \<Rightarrow> bool \<Rightarrow> config \<Rightarrow> bool \<Rightarrow> bytes option \<Rightarrow> bool \<times> config \<times> bytes option" where
  "ResolvePort L perm bindable inContainer c readable file =
     (if cf_Port c \<noteq> [] then (True, c, file)
      else if inContainer then (True, c\<lparr>cf_Port := ''80''\<rparr>, file)
      else case randomUnusedPort perm bindable 64000 64999 of
             Inl _ \<Rightarrow> (False, c, file)
           | Inr port \<Rightarrow>
               (let (ok, file') = persistPortOnly L readable file (show_int port)
                in (ok, c\<lparr>cf_Port := show_int port\<rparr>, file')))"

subsection \<open>Reloading\<close>

record config_manager =
  mg_current :: config
  mg_lastModTime :: instant

definition checkFileChanges ::
  "load_env \<Rightarrow> instant option \<Rightarrow> bool \<Rightarrow> bytes option \<Rightarrow> config_manager \<Rightarrow>
   config option \<times> config_manager \<times> bytes option" where
  "checkFileChanges L stat readable file m =
     (case stat of
        None \<Rightarrow> (None, m, file)
      | Some modTime \<Rightarrow>
          if \<not> modTime > mg_lastModTime m then (None, m, file)
          else let ((ok, next), file') = Load L readable file in
            if \<not> ok then (None, m, file')
            else (Some next, \<lparr>mg_current = next, mg_lastModTime = modTime\<rparr>, file'))"

subsection \<open>Loaded configurations are valid\<close>

lemma fill_secrets_contact:
  "\<exists>k t ct. snd (fill_secrets L c) = c\<lparr>cf_EncryptionKey := k, cf_Token := t, cf_Contact := ct\<rparr> \<and>
     (cf_EncryptionKey c \<noteq> [] \<longrightarrow> k = cf_EncryptionKey c) \<and> (cf_Token c \<noteq> [] \<longrightarrow> t = cf_Token c)"
proof -
  obtain n1 c1 where 1: "(if cf_EncryptionKey c = [] then
      (case ensureEncryptionKey (le_key L) c of None \<Rightarrow> (False, c) | Some c \<Rightarrow> (True, c)) else (False, c)) = (n1, c1)"
    by (metis surj_pair)
  have c1: "\<exists>k. c1 = c\<lparr>cf_EncryptionKey := k\<rparr> \<and> (cf_EncryptionKey c \<noteq> [] \<longrightarrow> k = cf_EncryptionKey c)"
    using 1 by (auto simp: ensureEncryptionKey_def split: if_splits option.splits intro: exI[of _ "cf_EncryptionKey c"])
  obtain n2 c2 where 2: "(if cf_Token c1 = [] then
      (case ensureServerToken (le_token L) c1 of None \<Rightarrow> (n1, c1) | Some c \<Rightarrow> (True, c)) else (n1, c1)) = (n2, c2)"
    by (metis surj_pair)
  have c2: "\<exists>t. c2 = c1\<lparr>cf_Token := t\<rparr> \<and> (cf_Token c1 \<noteq> [] \<longrightarrow> t = cf_Token c1)"
    using 2 by (auto simp: ensureServerToken_def split: if_splits option.splits intro: exI[of _ "cf_Token c1"])
  obtain g ok rnd ct where 3: "ensureWebhookSecrets (le_secrets L) (cf_Contact c2) = (g, ok, rnd, ct)"
    by (metis surj_pair)
  have "snd (fill_secrets L c) = c2\<lparr>cf_Contact := ct\<rparr>"
    unfolding fill_secrets_def by (simp add: 1 2 3)
  with c1 c2 show ?thesis by force
qed

lemma fill_secrets_valid: "valid_config V c \<Longrightarrow> valid_config V (snd (fill_secrets L c))"
  using fill_secrets_contact[of L c] by (auto simp: valid_config_def)

lemma load_valid:
  assumes "reads_defaults (le_lib L)" "Load L readable (Some data) = ((True, c), file')"
  shows "valid_config (le_lib L) c"
proof -
  obtain c0 where "c = snd (fill_secrets L (Validate (le_lib L) c0))"
    using assms(2) by (auto simp: Load_def Let_def split: if_splits prod.splits) (metis snd_conv)+
  with fill_secrets_valid Validate_valid[OF assms(1)] show ?thesis by blast
qed

text \<open>The states a running server's configuration goes through: polls of the file, whatever it contains,
  whatever the clock of the file system says and whatever the environment and the random source yield.\<close>

inductive serves :: "val_lib \<Rightarrow> config \<Rightarrow> config_manager \<Rightarrow> bool" for V initial where
  start: "mg_current m = initial \<Longrightarrow> serves V initial m"
| poll: "serves V initial m \<Longrightarrow> le_lib L = V \<Longrightarrow> checkFileChanges L stat readable (Some data) m = (r, m', file') \<Longrightarrow>
    serves V initial m'"

inductive_cases serves_pollE: "serves V initial m"

text \<open>The file can be read and is understood, as \<^verbatim>\<open>Load\<close> reads it.\<close>

definition parses :: "load_env \<Rightarrow> bool \<Rightarrow> bytes \<Rightarrow> bool" where
  "parses L readable data \<longleftrightarrow>
     readable \<and> fst (le_parse L data (loadEnv (le_hosts L) (le_lib L) (le_env L) DefaultConfig))"

lemma Load_parses:
  "fst (fst (Load L readable (Some data))) = parses L readable data"
  "\<not> parses L readable data \<Longrightarrow> snd (Load L readable (Some data)) = Some data"
  by (auto simp: Load_def parses_def Let_def split: prod.splits)

lemma poll_cases:
  assumes "checkFileChanges L stat readable (Some data) m = (r, m', file')"
  shows "(m' = m \<and> r = None \<and> file' = Some data) \<or>
    (parses L readable data \<and> Load L readable (Some data) = ((True, mg_current m'), file') \<and> r = Some (mg_current m'))"
proof (cases "stat = None \<or> (\<exists>t. stat = Some t \<and> \<not> t > mg_lastModTime m)")
  case True
  with assms show ?thesis by (auto simp: checkFileChanges_def)
next
  case False
  then obtain t where t: "stat = Some t" "t > mg_lastModTime m" by auto
  obtain ok nxt f where l: "Load L readable (Some data) = ((ok, nxt), f)" by (metis prod.collapse)
  with t assms Load_parses[of L readable data] show ?thesis by (cases ok) (auto simp: checkFileChanges_def)
qed

text \<open>C15: A running server never takes a broken configuration: whatever is written to the file it polls
  (as long as there is a file), the configuration in force is the one it started with or one that is valid, as
  validation understands it, in the settings validation covers. A file that cannot be read or
  parsed changes nothing, neither the configuration nor the file, and a configuration only ever changes
  for one from a file that was read and parsed. Assumed is that the library reads the built-in defaults.\<close>

theorem served_config_valid:
  assumes "serves V initial m" "reads_defaults V"
  shows "(mg_current m = initial \<or> valid_config V (mg_current m)) \<and>
    (\<forall>L stat readable data r m' file'.
       le_lib L = V \<and> checkFileChanges L stat readable (Some data) m = (r, m', file') \<longrightarrow>
       (\<not> readable \<or> \<not> fst (le_parse L data (loadEnv (le_hosts L) V (le_env L) DefaultConfig)) \<longrightarrow>
          m' = m \<and> r = None \<and> file' = Some data) \<and>
       (mg_current m' \<noteq> mg_current m \<longrightarrow> valid_config V (mg_current m')))"
proof
  show "mg_current m = initial \<or> valid_config V (mg_current m)"
    using assms(1)
  proof induction
    case (poll m L stat readable data r m' file')
    then show ?case using poll_cases[OF poll.hyps(3)] load_valid[of L] assms(2) by auto
  qed simp
next
  show "\<forall>L stat readable data r m' file'.
       le_lib L = V \<and> checkFileChanges L stat readable (Some data) m = (r, m', file') \<longrightarrow>
       (\<not> readable \<or> \<not> fst (le_parse L data (loadEnv (le_hosts L) V (le_env L) DefaultConfig)) \<longrightarrow>
          m' = m \<and> r = None \<and> file' = Some data) \<and>
       (mg_current m' \<noteq> mg_current m \<longrightarrow> valid_config V (mg_current m'))"
  proof (intro allI impI, elim conjE)
    fix L stat readable data r m' file'
    assume L: "le_lib L = V" and c: "checkFileChanges L stat readable (Some data) m = (r, m', file')"
    from poll_cases[OF c] load_valid[of L readable data "mg_current m'" file'] assms(2) L
    show "(\<not> readable \<or> \<not> fst (le_parse L data (loadEnv (le_hosts L) V (le_env L) DefaultConfig)) \<longrightarrow>
          m' = m \<and> r = None \<and> file' = Some data) \<and>
       (mg_current m' \<noteq> mg_current m \<longrightarrow> valid_config V (mg_current m'))"
      by (auto simp: parses_def)
  qed
qed

text \<open>The whole configuration is replaced, the settings that are announced as needing a restart
  included.\<close>

lemma reload_applies_everything:
  "checkFileChanges L (Some t) True (Some data) m = (Some next, m', file') \<Longrightarrow>
   mg_current m' = next \<and> fst (Load L True (Some data)) = (True, next)"
  by (auto simp: checkFileChanges_def split: if_splits prod.splits)

subsection \<open>Secrets and the port survive a restart\<close>

text \<open>What is assumed of YAML: what was printed parses, and the two secrets and the port come back.\<close>

definition yaml_keeps :: "load_env \<Rightarrow> bool" where
  "yaml_keeps L \<longleftrightarrow> (\<forall>c data base. le_print L c = Some data \<longrightarrow>
     (\<exists>c'. le_parse L data base = (True, c') \<and> cf_EncryptionKey c' = cf_EncryptionKey c \<and>
       cf_Token c' = cf_Token c \<and> cf_Port c' = cf_Port c))"

text \<open>A setting that no variable sets passes through \<^verbatim>\<open>loadEnv\<close>.\<close>

lemma from_env_keeps: "(\<And>v c. g (upd v c) = g c) \<Longrightarrow> g (from_env e k upd c) = g c"
  by (simp add: from_env_def)

lemma env_int_keeps: "(\<And>n c. g (upd n c) = g c) \<Longrightarrow> g (env_int upd v c) = g c"
  by (simp add: env_int_def split: prod.splits option.splits)

lemma env_bool_keeps: "(\<And>b c. g (upd b c) = g c) \<Longrightarrow> g (env_bool get upd v c) = g c"
  by (simp add: env_bool_def split: sum.splits)

lemmas env_keeps = from_env_keeps env_int_keeps env_bool_keeps

lemma stage_keeps:
  "cf_EncryptionKey (env_domain H e c) = cf_EncryptionKey c" "cf_Token (env_domain H e c) = cf_Token c"
  "cf_EncryptionKey (env_cache v c) = cf_EncryptionKey c" "cf_Token (env_cache v c) = cf_Token c"
  "cf_EncryptionKey (env_size V e c) = cf_EncryptionKey c" "cf_Token (env_size V e c) = cf_Token c"
  "cf_EncryptionKey (set_smtp f c) = cf_EncryptionKey c" "cf_Token (set_smtp f c) = cf_Token c"
  "cf_EncryptionKey (set_termbin h c) = cf_EncryptionKey c" "cf_Token (set_termbin h c) = cf_Token c"
  by (simp_all add: env_domain_def env_cache_def env_size_def set_smtp_def set_termbin_def Let_def
      split: sum.splits prod.splits option.splits)

lemmas secret_keeps = stage_keeps env_keeps[where g = cf_EncryptionKey] env_keeps[where g = cf_Token]

lemma env_parts_keep:
  "cf_EncryptionKey (env_names H e c) = cf_EncryptionKey c" "cf_Token (env_names H e c) = cf_Token c"
  "cf_EncryptionKey (env_store e c) = cf_EncryptionKey c" "cf_Token (env_store e c) = cf_Token c"
  "cf_EncryptionKey (env_mail e c) = cf_EncryptionKey c" "cf_Token (env_mail e c) = cf_Token c"
  "cf_EncryptionKey (env_termbin e c) = cf_EncryptionKey c" "cf_Token (env_termbin e c) = cf_Token c"
  by (simp_all add: env_names_def env_store_def env_mail_def env_termbin_def secret_keeps Let_def)

lemma env_keeps_secrets:
  "cf_EncryptionKey (loadEnv H V e c) = cf_EncryptionKey c" "cf_Token (loadEnv H V e c) = cf_Token c"
  by (simp_all add: loadEnv_def env_parts_keep stage_keeps)

lemma validate_keeps_secrets:
  "cf_EncryptionKey (Validate V c) = cf_EncryptionKey c" "cf_Token (Validate V c) = cf_Token c"
  by (simp_all add: Validate_def)

lemma fill_secrets_draws:
  assumes "le_key L = Some k" "le_token L = Some t" "k \<noteq> []"
  shows "cf_EncryptionKey (snd (fill_secrets L c)) \<noteq> []" "cf_Token (snd (fill_secrets L c)) \<noteq> []"
proof -
  have "hex_encode k \<noteq> []" using assms(3) by (cases k) (auto simp: hex_encode_def hex_byte_def)
  then show "cf_EncryptionKey (snd (fill_secrets L c)) \<noteq> []" "cf_Token (snd (fill_secrets L c)) \<noteq> []"
    using assms
    by (auto simp: fill_secrets_def ensureEncryptionKey_def ensureServerToken_def Let_def split: prod.splits if_splits)
qed

lemma load_from_file:
  assumes "le_parse L data (loadEnv (le_hosts L) (le_lib L) (le_env L) DefaultConfig) = (True, c0)"
  shows "\<exists>c. Load L True (Some data) = ((True, c), if fst (fill_secrets L (Validate (le_lib L) (loadEnv (le_hosts L) (le_lib L) (le_env L) c0)))
      then snd (Save L c (Some data)) else Some data) \<and>
    c = snd (fill_secrets L (Validate (le_lib L) (loadEnv (le_hosts L) (le_lib L) (le_env L) c0)))"
  using assms by (simp add: Load_def Let_def split: prod.splits)

lemma load_keeps_secrets:
  assumes "le_parse L data (loadEnv (le_hosts L) (le_lib L) (le_env L) DefaultConfig) = (True, c0)"
    and "cf_EncryptionKey c0 \<noteq> []" "cf_Token c0 \<noteq> []" and run: "Load L True (Some data) = ((ok, c), file')"
  shows "ok \<and> cf_EncryptionKey c = cf_EncryptionKey c0 \<and> cf_Token c = cf_Token c0"
proof -
  let ?v = "Validate (le_lib L) (loadEnv (le_hosts L) (le_lib L) (le_env L) c0)"
  have "ok" "c = snd (fill_secrets L ?v)" using load_from_file[OF assms(1)] run by auto
  moreover have "cf_EncryptionKey ?v = cf_EncryptionKey c0" "cf_Token ?v = cf_Token c0"
    by (simp_all add: validate_keeps_secrets env_keeps_secrets)
  ultimately show ?thesis using fill_secrets_contact[of L ?v] assms(2,3) by auto
qed

text \<open>C23: The secrets drawn on the first start are those of every later one: the server that finds no
  file draws an encryption key and a token and writes them, and any later start from that
  file, whatever its environment and its own draws, has the same two.\<close>

theorem secrets_survive_restart:
  assumes first: "Load L1 readable None = ((True, c1), Some data)"
    and draws: "le_key L1 = Some k" "le_token L1 = Some t" "k \<noteq> []"
    and yaml: "yaml_keeps L1" "le_parse L2 = le_parse L1"
    and again: "Load L2 True (Some data) = ((ok, c2), file2)"
  shows "ok \<and> cf_EncryptionKey c1 \<noteq> [] \<and> cf_EncryptionKey c2 = cf_EncryptionKey c1 \<and> cf_Token c2 = cf_Token c1"
proof -
  let ?e = "loadEnv (le_hosts L1) (le_lib L1) (le_env L1) DefaultConfig"
  let ?c = "?e\<lparr>cf_EncryptionKey := hex_encode k, cf_Token := ''tok_'' @ map (\<lambda>b. tokenCharset ! (of_char b mod 62)) t\<rparr>"
  have none: "cf_EncryptionKey ?e = []" "cf_Token ?e = []" by (simp_all add: env_keeps_secrets DefaultConfig_def)
  have ne: "hex_encode k \<noteq> []" using draws(3) by (cases k) (auto simp: hex_encode_def hex_byte_def)
  have c1: "c1 = ?c\<lparr>cf_FirstRun := True\<rparr>"
    using first draws none
    by (simp add: Load_def first_run_def ensureEncryptionKey_def ensureServerToken_def Let_def)
  obtain s where "le_print L1 s = Some data" "cf_EncryptionKey s = cf_EncryptionKey c1" "cf_Token s = cf_Token c1"
    using first draws none unfolding c1
    by (auto simp: Load_def first_run_def ensureEncryptionKey_def ensureServerToken_def Let_def Save_def
        split: option.splits if_splits)
  then obtain c0 where p: "le_parse L2 data (loadEnv (le_hosts L2) (le_lib L2) (le_env L2) DefaultConfig) = (True, c0)"
    "cf_EncryptionKey c0 = cf_EncryptionKey c1" "cf_Token c0 = cf_Token c1"
    using yaml unfolding yaml_keeps_def by metis
  have c1_ne: "cf_EncryptionKey c1 \<noteq> []" "cf_Token c1 \<noteq> []" using ne by (simp_all add: c1)
  from load_keeps_secrets[OF p(1) _ _ again] p(2,3) c1_ne show ?thesis by simp
qed

lemma port_stage_keeps:
  "cf_Port (env_domain H e c) = cf_Port c" "cf_Port (env_cache v c) = cf_Port c" "cf_Port (env_size V e c) = cf_Port c"
  "cf_Port (set_smtp f c) = cf_Port c" "cf_Port (set_termbin h c) = cf_Port c"
  by (simp_all add: env_domain_def env_cache_def env_size_def set_smtp_def set_termbin_def Let_def
      split: sum.splits prod.splits option.splits)

lemma env_keeps_port: "e ''PORT'' = [] \<Longrightarrow> e ''PASTEBIN_PORT'' = [] \<Longrightarrow> cf_Port (loadEnv H V e c) = cf_Port c"
  by (simp add: loadEnv_def env_names_def env_store_def env_mail_def env_termbin_def Let_def from_env_def[of e "''PORT''"]
      from_env_def[of e "''PASTEBIN_PORT''"] port_stage_keeps env_keeps[where g = cf_Port])

lemma loaded_port: "cf_Port (snd (fill_secrets L (Validate V c))) = cf_Port c"
  using fill_secrets_contact[of L "Validate V c"] by (auto simp: Validate_def)

text \<open>A server without a configured port picks a free one between 64000 and 64999 and keeps it: it
  is written to the file, and a later start that no variable overrides listens on the same
  port.\<close>

theorem port_survives_restart:
  assumes pick: "ResolvePort L perm bindable False c readable file = (True, c', Some data)" "cf_Port c = []"
    and perm: "set perm \<subseteq> {0..999}" and yaml: "yaml_keeps L" "le_parse L2 = le_parse L"
    and quiet: "le_env L2 ''PORT'' = []" "le_env L2 ''PASTEBIN_PORT'' = []"
    and again: "Load L2 True (Some data) = ((ok, c2), file2)"
  shows "\<exists>p. 64000 \<le> p \<and> p \<le> 64999 \<and> bindable p \<and> cf_Port c' = show_int p \<and> ok \<and> cf_Port c2 = show_int p"
proof -
  from pick obtain p where p: "try_ports bindable 64000 perm = Inr p" "cf_Port c' = show_int p"
    and per: "persistPortOnly L readable file (show_int p) = (True, Some data)"
    by (auto simp: ResolvePort_def randomUnusedPort_def split: sum.splits prod.splits)
  have "p - 64000 \<in> set perm" "bindable p" using try_ports_found[OF p(1)] by simp_all
  with perm have range: "64000 \<le> p" "p \<le> 64999" by auto
  obtain s where "le_print L s = Some data" "cf_Port s = show_int p"
    using per by (auto simp: persistPortOnly_def Save_def Let_def split: option.splits if_splits prod.splits)
  then obtain c0 where c0: "le_parse L2 data (loadEnv (le_hosts L2) (le_lib L2) (le_env L2) DefaultConfig) = (True, c0)"
    "cf_Port c0 = show_int p" using yaml unfolding yaml_keeps_def by metis
  have "ok \<and> cf_Port c2 = show_int p"
    using load_from_file[OF c0(1)] again loaded_port env_keeps_port[OF quiet] c0(2) by auto
  with p(2) range \<open>bindable p\<close> show ?thesis by blast
qed

subsection \<open>A size in bytes\<close>

text \<open>\<^verbatim>\<open>MAX_SIZE_BYTES\<close> is documented as a number of bytes. It is stored as a bare number, and validation
  reads a bare number as megabytes: every start from an existing file multiplies the limit by
  2^20. On the first start, which does not validate, it is taken as it stands.\<close>

lemma bare_number_is_megabytes:
  assumes "0 < n" "n * 2 ^ 20 < 2 ^ 53" "pf (show_int n) = Some (Fin (of_int n))"
  shows "ParseSize pf conv (show_int n) d = Inr (n * 2 ^ 20)"
proof -
  let ?s = "show_int n"
  have ne: "?s \<noteq> []" by (rule show_int_ne)
  have plain: "\<forall>c \<in> set ?s. plain_char c \<and> lower_char c = c"
    using plain_show_int digits_lower[of n] assms(1) by auto
  have t: "trim_space (to_lower ?s) = ?s" using trim_plain[OF ne] lower_plain plain by simp
  have digits: "c \<in> set ?s \<Longrightarrow> (of_char c :: nat) \<le> 57" for c
    using assms(1) show_nat_digits[of c "nat n"] by (simp add: show_int_def)
  have "\<not> has_suffix ?s u" if "u \<noteq> []" "(of_char (last u) :: nat) > 57" for u
  proof
    assume "has_suffix ?s u"
    then have "last ?s = last u" using has_suffix_last that(1) by blast
    with digits[OF last_in_set[OF ne]] that(2) show False by simp
  qed
  then have "size_with_unit pf conv ?s sizeUnits = None" by (simp add: sizeUnits_def)
  moreover have "size_number pf conv ?s (2 ^ 20) = Inr (n * 2 ^ 20)"
    using size_number_exact[of pf, OF assms(3,1) _ assms(2)] by simp
  ultimately show ?thesis using t ne by (simp add: ParseSize_def)
qed

lemma max_size_bytes_scaled:
  assumes n: "0 < n" "n * 2 ^ 20 < 2 ^ 53" "vl_float V (show_int n) = Some (Fin (of_int n))"
    and e: "e ''MAX_SIZE'' = []" "e ''MAX_SIZE_BYTES'' = show_int n"
  shows "cf_MaxSizeBytes (env_size V e c) = n"
    and "cf_MaxSizeBytes (Validate V (env_size V e c)) = n * 2 ^ 20"
proof -
  have "in_int64 n" using n by (simp add: min_int64_def max_int64_def)
  then have s: "env_size V e c = c\<lparr>cf_MaxSize := show_int n, cf_MaxSizeBytes := n\<rparr>"
    using e n(1) show_int_ne by (simp add: env_size_def ParseInt_show_int)
  then show "cf_MaxSizeBytes (env_size V e c) = n" by simp
  show "cf_MaxSizeBytes (Validate V (env_size V e c)) = n * 2 ^ 20"
    using bare_number_is_megabytes[of n "vl_float V"] n by (simp add: s Validate_def validate_size_def)
qed

lemma mode_stage_keeps:
  "cf_Mode (env_domain H e c) = cf_Mode c" "cf_Mode (env_cache v c) = cf_Mode c" "cf_Mode (env_size V e c) = cf_Mode c"
  "cf_Mode (set_smtp f c) = cf_Mode c" "cf_Mode (set_termbin h c) = cf_Mode c"
  by (simp_all add: env_domain_def env_cache_def env_size_def set_smtp_def set_termbin_def Let_def
      split: sum.splits prod.splits option.splits)

lemma mode_through_fill: "cf_Mode (snd (fill_secrets L (Validate V c))) = cf_Mode c"
  using fill_secrets_contact[of L "Validate V c"] by (auto simp: Validate_def)

text \<open>The upgrade path writes the environment's settings into the file: when a secret is missing, what
  is saved is the configuration after the overrides.\<close>

lemma overrides_are_saved:
  assumes "Load L True (Some data) = ((True, c), Some data')" "data' \<noteq> data" "le_env L ''MODE'' = v" "v \<noteq> []"
  shows "le_print L c = Some data' \<and> cf_Mode c = v"
proof -
  obtain c0 where c: "c = snd (fill_secrets L (Validate (le_lib L) (loadEnv (le_hosts L) (le_lib L) (le_env L) c0)))"
    and s: "snd (Save L c (Some data)) = Some data'"
    using assms(1,2) by (auto simp: Load_def Let_def split: if_splits prod.splits) (metis snd_conv)+
  have "cf_Mode (loadEnv (le_hosts L) (le_lib L) (le_env L) c0) = v"
    using assms(3,4)
    by (simp add: loadEnv_def env_names_def env_store_def env_mail_def env_termbin_def Let_def
        from_env_def[of _ "''MODE''"] mode_stage_keeps env_keeps[where g = cf_Mode])
  moreover have "cf_Mode c = cf_Mode (loadEnv (le_hosts L) (le_lib L) (le_env L) c0)"
    unfolding c by (rule mode_through_fill)
  ultimately show ?thesis using s assms(2) by (auto simp: Save_def split: option.splits if_splits)
qed

subsection \<open>Samples\<close>

text \<open>A printed form that a parser takes apart: every character is tagged, every string ends in another
  tag.\<close>

definition tagged :: "string \<Rightarrow> string" where
  "tagged s = concat (map (\<lambda>c. [CHR ''c'', c]) s) @ ''e''"

fun untag :: "string \<Rightarrow> string \<times> string" where
  "untag [] = ([], [])"
| "untag [t] = ([], [])"
| "untag (t # c # s) = (if t = CHR ''c'' then (let (a, r) = untag s in (c # a, r)) else ([], c # s))"

lemma untag_tagged: "untag (tagged s @ r) = (s, r)"
proof (induction s)
  case Nil
  then show ?case by (cases r) (simp_all add: tagged_def)
qed (simp add: tagged_def)

definition sample_print :: "config \<Rightarrow> bytes option" where
  "sample_print c = Some (tagged (cf_EncryptionKey c) @ tagged (cf_Token c) @ tagged (cf_Port c))"

definition sample_parse :: "bytes \<Rightarrow> config \<Rightarrow> bool \<times> config" where
  "sample_parse b c =
     (let (key, r1) = untag b; (tok, r2) = untag r1; (port, r3) = untag r2
      in (True, c\<lparr>cf_EncryptionKey := key, cf_Token := tok, cf_Port := port\<rparr>))"

definition sample_load :: load_env where
  "sample_load = \<lparr>le_hosts = sample_hosts, le_lib = sample_vlib, le_env = (\<lambda>_. []),
     le_names = \<lparr>ns_FQDN = [], ns_Mode = [], ns_hostname = Some ''box'', ns_HOSTNAME = [], ns_public_ip = []\<rparr>,
     le_parse = sample_parse, le_print = sample_print, le_key = Some ''k'', le_token = Some ''t'', le_secrets = [],
     le_written = True\<rparr>"

lemma sample_yaml: "yaml_keeps sample_load"
proof -
  have "untag (tagged p) = (p, [])" for p using untag_tagged[of p "[]"] by simp
  then show ?thesis
    by (simp add: yaml_keeps_def sample_load_def sample_print_def sample_parse_def untag_tagged)
qed

lemma sample_first: "\<exists>c1 data. Load sample_load True None = ((True, c1), Some data)"
  by (simp add: Load_def first_run_def Let_def Save_def sample_load_def sample_print_def)

lemma secrets_survive_restart_witness:
  "\<exists>c1 data c2 file2. Load sample_load True None = ((True, c1), Some data) \<and>
     Load sample_load True (Some data) = ((True, c2), file2) \<and> cf_Token c2 = cf_Token c1"
proof -
  obtain c1 data where 1: "Load sample_load True None = ((True, c1), Some data)" using sample_first by blast
  obtain ok c2 file2 where 2: "Load sample_load True (Some data) = ((ok, c2), file2)" by (metis surj_pair)
  have "le_key sample_load = Some ''k''" "le_token sample_load = Some ''t''" by (simp_all add: sample_load_def)
  from secrets_survive_restart[OF 1 this _ sample_yaml refl 2] 1 2 show ?thesis by auto
qed

lemma port_survives_restart_witness:
  "\<exists>c' data c2 file2. ResolvePort sample_load [7, 3] (\<lambda>p. p = 64003) False DefaultConfig True None = (True, c', Some data) \<and>
     Load sample_load True (Some data) = ((True, c2), file2) \<and> cf_Port c2 = show_int 64003"
proof -
  obtain c' data where 1: "ResolvePort sample_load [7, 3] (\<lambda>p. p = 64003) False DefaultConfig True None = (True, c', Some data)"
    by (simp add: ResolvePort_def randomUnusedPort_def persistPortOnly_def Save_def DefaultConfig_def sample_load_def sample_print_def)
  obtain ok c2 file2 where 2: "Load sample_load True (Some data) = ((ok, c2), file2)" by (metis surj_pair)
  have "cf_Port DefaultConfig = []" "set [7, 3] \<subseteq> {0..999 :: int}" by (simp_all add: DefaultConfig_def)
  moreover have "le_env sample_load ''PORT'' = []" "le_env sample_load ''PASTEBIN_PORT'' = []"
    by (simp_all add: sample_load_def)
  ultimately show ?thesis using port_survives_restart[OF 1 _ _ sample_yaml refl _ _ 2] 1 2 by auto
qed

lemma served_config_valid_witness:
  "\<exists>m' file'. checkFileChanges sample_load (Some 5) True (Some (tagged ''k'' @ tagged ''t'' @ tagged ''80''))
       \<lparr>mg_current = DefaultConfig, mg_lastModTime = 1\<rparr> = (Some (mg_current m'), m', file') \<and>
     (mg_current m' = DefaultConfig \<or> valid_config sample_vlib (mg_current m'))"
proof -
  let ?m = "\<lparr>mg_current = DefaultConfig, mg_lastModTime = 1\<rparr>"
  let ?f = "tagged ''k'' @ tagged ''t'' @ tagged ''80''"
  have "\<exists>c0. le_parse sample_load ?f base = (True, c0)" for base
    by (simp add: sample_load_def sample_parse_def split: prod.splits)
  then obtain c file' where "Load sample_load True (Some ?f) = ((True, c), file')" using load_from_file by metis
  then have "checkFileChanges sample_load (Some 5) True (Some ?f) ?m =
      (Some c, \<lparr>mg_current = c, mg_lastModTime = 5\<rparr>, file')" by (simp add: checkFileChanges_def)
  then obtain m' where p: "checkFileChanges sample_load (Some 5) True (Some ?f) ?m = (Some (mg_current m'), m', file')"
    by (metis config_manager.select_convs(1))
  have "serves sample_vlib DefaultConfig m'" by (rule serves.poll[OF serves.start _ p]) (simp_all add: sample_load_def)
  from served_config_valid[OF this sample_reads_defaults, THEN conjunct1] p show ?thesis by auto
qed

end
