(* ===== verification/Log_Rotate.thy ===== *)
theory Log_Rotate
  imports Log_Policy
begin

section \<open>The rotating log writer\<close>

text \<open>
  \<^verbatim>\<open>fileWriter\<close> of \<^verbatim>\<open>src/src/logging/rotate.go\<close>: an append-only log file that is renamed to a dated name
  when it would grow too large or when its period is over, with the rotated files compressed
  and pruned. The directory is an association list of names and files. Every system call may
  fail: the outcomes of one call are a record of flags. Dates are printed in the local time
  zone by functions of the clock record, and the compressor is a function. Other writers of
  the file are not modelled.
\<close>

subsection \<open>The directory\<close>

record log_file =
  lf_bytes :: bytes
  lf_mtime :: instant
  lf_dir :: bool

type_synonym log_dir = "(string \<times> log_file) list"

definition lookup :: "log_dir \<Rightarrow> string \<Rightarrow> log_file option" where "lookup d p = map_of d p"

definition remove_file :: "string \<Rightarrow> log_dir \<Rightarrow> log_dir" where
  "remove_file p d = filter (\<lambda>e. fst e \<noteq> p) d"

definition put_file :: "string \<Rightarrow> log_file \<Rightarrow> log_dir \<Rightarrow> log_dir" where
  "put_file p f d = (p, f) # remove_file p d"

lemma lookup_remove: "lookup (remove_file p d) q = (if q = p then None else lookup d q)"
  by (induction d) (auto simp: lookup_def remove_file_def)

lemma lookup_put: "lookup (put_file p f d) q = (if q = p then Some f else lookup d q)"
  using lookup_remove[of p d q] by (simp add: lookup_def put_file_def)

lemmas dir_simps = lookup_remove lookup_put

datatype gzip_outcome = GzOk | GzNotOpened | GzWriteFailed | GzNotRemoved

record log_io =
  io_open :: bool
  io_written :: "nat option"         \<comment> \<open>None: all; Some n: n bytes, then an error\<close>
  io_rename :: bool
  io_gzip :: gzip_outcome
  io_stat :: bool
  io_remove :: "string \<Rightarrow> bool"

record log_clock =
  lc_day :: "instant \<Rightarrow> string"       \<comment> \<open>layout 2006-01-02\<close>
  lc_stamp :: "instant \<Rightarrow> string"     \<comment> \<open>layout 2006-01-02\_150405\<close>
  lc_week :: "instant \<Rightarrow> string"      \<comment> \<open>ISO year and week\<close>
  lc_month :: "instant \<Rightarrow> string"
  lc_year :: "instant \<Rightarrow> string"

record file_writer =
  fw_path :: string
  fw_rotate :: rotate_policy
  fw_keep :: keep_policy
  fw_compress :: bool
  fw_holdOpen :: bool
  fw_file :: bool                    \<comment> \<open>a handle is open\<close>
  fw_size :: int
  fw_periodStart :: instant

subsection \<open>Operations\<close>

definition periodKey :: "log_clock \<Rightarrow> string \<Rightarrow> instant \<Rightarrow> string" where
  "periodKey k interval t =
     (if interval = ''daily'' then lc_day k t else if interval = ''weekly'' then lc_week k t
      else if interval = ''monthly'' then lc_month k t else if interval = ''yearly'' then lc_year k t
      else [])"

datatype log_error = OpenFailed | RenameFailed | RemoveFailed | GzipFailed | StatFailed | WriteFailed

text \<open>\<^verbatim>\<open>open\<close> creates the file if it is not there, and takes its size and its period from it.\<close>

definition open_file ::
  "log_io \<Rightarrow> instant \<Rightarrow> file_writer \<Rightarrow> log_dir \<Rightarrow> log_error option \<times> file_writer \<times> log_dir" where
  "open_file io now w d =
     (if fw_file w then (None, w, d)
      else if \<not> io_open io then (Some OpenFailed, w, d)
      else let d' = (if lookup d (fw_path w) = None
                     then put_file (fw_path w) \<lparr>lf_bytes = [], lf_mtime = now, lf_dir = False\<rparr> d else d);
               f = the (lookup d' (fw_path w));
               size = int (length (lf_bytes f))
           in (None, w\<lparr>fw_file := True, fw_size := size,
                 fw_periodStart := (if size > 0 then lf_mtime f else now)\<rparr>, d'))"

definition closeLocked :: "file_writer \<Rightarrow> file_writer" where "closeLocked w = w\<lparr>fw_file := False\<rparr>"

definition reopen ::
  "log_io \<Rightarrow> instant \<Rightarrow> file_writer \<Rightarrow> log_dir \<Rightarrow> log_error option \<times> file_writer \<times> log_dir" where
  "reopen io now w d =
     (let w = closeLocked w in if \<not> fw_holdOpen w then (None, w, d) else open_file io now w d)"

definition needsRotate :: "log_clock \<Rightarrow> file_writer \<Rightarrow> int \<Rightarrow> instant \<Rightarrow> bool" where
  "needsRotate k w n now \<longleftrightarrow>
     fw_size w \<noteq> 0 \<and>
     (rt_MaxBytes (fw_rotate w) > 0 \<and> wrap64 (fw_size w + n) > rt_MaxBytes (fw_rotate w) \<or>
      rt_Interval (fw_rotate w) \<noteq> [] \<and>
      periodKey k (rt_Interval (fw_rotate w)) (fw_periodStart w) \<noteq> periodKey k (rt_Interval (fw_rotate w)) now)"

text \<open>\<^verbatim>\<open>gzipAndRemove\<close>: the target is truncated if it exists; what is left behind depends on the step
  that fails.\<close>

definition gzipAndRemove ::
  "(bytes \<Rightarrow> bytes) \<Rightarrow> log_io \<Rightarrow> instant \<Rightarrow> string \<Rightarrow> log_dir \<Rightarrow> log_error option \<times> log_dir" where
  "gzipAndRemove gz io now src d =
     (let dst = src @ ''.gz'';
          done = put_file dst \<lparr>lf_bytes = gz (lf_bytes (the (lookup d src))), lf_mtime = now, lf_dir = False\<rparr> d
      in if lookup d src = None then (Some GzipFailed, d)
         else case io_gzip io of
            GzNotOpened \<Rightarrow> (Some GzipFailed, d)
          | GzWriteFailed \<Rightarrow> (Some GzipFailed, remove_file dst d)
          | GzNotRemoved \<Rightarrow> (Some GzipFailed, done)
          | GzOk \<Rightarrow> (None, remove_file src done))"

text \<open>The files \<^verbatim>\<open>filepath.Glob\<close> finds, newest first. \<^verbatim>\<open>sort.Slice\<close> leaves files of the same time in an
  unspecified order; here they keep the one of the list.\<close>

definition rotated_files :: "string \<Rightarrow> log_dir \<Rightarrow> (string \<times> instant) list" where
  "rotated_files path d =
     sort_key (\<lambda>f. - snd f)
       (map (\<lambda>(p, f). (p, lf_mtime f))
         (filter (\<lambda>(p, f). has_prefix p (path @ ''.'') \<and> CHR ''/'' \<notin> set (drop (length path + 1) p) \<and> \<not> lf_dir f) d))"

definition prunes :: "keep_policy \<Rightarrow> instant \<Rightarrow> nat \<Rightarrow> instant \<Rightarrow> bool" where
  "prunes k now i m \<longleftrightarrow>
     (if kp_Mode k = ''none'' then True
      else if kp_Mode k = ''count'' then int i \<ge> kp_Count k
      else if kp_Mode k = ''age'' then max min_int64 (min max_int64 (now - m)) > kp_Age k
      else False)"

fun prune_loop ::
  "log_io \<Rightarrow> keep_policy \<Rightarrow> instant \<Rightarrow> nat \<Rightarrow> (string \<times> instant) list \<Rightarrow> log_dir \<Rightarrow> bool \<times> log_dir" where
  "prune_loop io k now i [] d = (True, d)"
| "prune_loop io k now i ((p, m) # rest) d =
     (if prunes k now i m then
        (if io_remove io p then prune_loop io k now (Suc i) rest (remove_file p d)
         else (False, snd (prune_loop io k now (Suc i) rest d)))
      else prune_loop io k now (Suc i) rest d)"

definition prune :: "log_io \<Rightarrow> instant \<Rightarrow> file_writer \<Rightarrow> log_dir \<Rightarrow> log_error option \<times> log_dir" where
  "prune io now w d =
     (if kp_Mode (fw_keep w) = ''forever'' then (None, d)
      else let (ok, d') = prune_loop io (fw_keep w) now 0 (rotated_files (fw_path w) d) d
           in (if ok then None else Some RemoveFailed, d'))"

definition rotated_name :: "log_clock \<Rightarrow> instant \<Rightarrow> string \<Rightarrow> log_dir \<Rightarrow> string" where
  "rotated_name k now path d =
     (if lookup d (path @ ''.'' @ lc_day k now) \<noteq> None then path @ ''.'' @ lc_stamp k now
      else path @ ''.'' @ lc_day k now)"

definition doRotate ::
  "(bytes \<Rightarrow> bytes) \<Rightarrow> log_clock \<Rightarrow> log_io \<Rightarrow> instant \<Rightarrow> file_writer \<Rightarrow> log_dir \<Rightarrow>
   log_error option \<times> file_writer \<times> log_dir" where
  "doRotate gz k io now w d =
     (let w1 = closeLocked w;
          rotated = rotated_name k now (fw_path w) d
      in case lookup d (fw_path w) of
           None \<Rightarrow> (Some RenameFailed, w1, d)
         | Some f \<Rightarrow>
             if \<not> io_rename io then (Some RenameFailed, w1, d)
             else let d1 = put_file rotated f (remove_file (fw_path w) d);
                      w2 = w1\<lparr>fw_size := 0, fw_periodStart := now\<rparr>
               in if kp_Mode (fw_keep w) = ''none'' then
                    (if io_remove io rotated then (None, w2, remove_file rotated d1)
                     else (Some RemoveFailed, w2, d1))
                  else let (e, d2) = (if fw_compress w then gzipAndRemove gz io now rotated d1 else (None, d1))
                    in if e \<noteq> None then (e, w2, d2)
                       else let (e', d3) = prune io now w d2 in (e', w2, d3))"

definition append_line :: "log_io \<Rightarrow> instant \<Rightarrow> string \<Rightarrow> file_writer \<Rightarrow> log_dir \<Rightarrow> log_error option \<times> file_writer \<times> log_dir" where
  "append_line io now line w d =
     (let n = (case io_written io of None \<Rightarrow> length line | Some n \<Rightarrow> min n (length line));
          d' = (case lookup d (fw_path w) of
                  None \<Rightarrow> d
                | Some f \<Rightarrow> put_file (fw_path w) (f\<lparr>lf_bytes := lf_bytes f @ take n line, lf_mtime := now\<rparr>) d);
          w' = w\<lparr>fw_size := wrap64 (fw_size w + int n)\<rparr>;
          w'' = (if fw_holdOpen w then w' else closeLocked w')
      in (if io_written io = None then None else Some WriteFailed, w'', d'))"

definition terminated :: "string \<Rightarrow> string" where
  "terminated line = (if has_suffix line [CHR 0x0A] then line else line @ [CHR 0x0A])"

definition writeLine ::
  "(bytes \<Rightarrow> bytes) \<Rightarrow> log_clock \<Rightarrow> log_io \<Rightarrow> instant \<Rightarrow> string \<Rightarrow> file_writer \<Rightarrow> log_dir \<Rightarrow>
   log_error option \<times> file_writer \<times> log_dir" where
  "writeLine gz k io now line0 w d =
     (let line = terminated line0;
          (e, w, d) = open_file io now w d
      in if e \<noteq> None then (e, w, d)
         else if needsRotate k w (int (length line)) now then
           (let (e, w, d) = doRotate gz k io now w d
            in if e \<noteq> None then (e, w, d)
               else let (e, w, d) = open_file io now w d
                 in if e \<noteq> None then (e, w, d) else append_line io now line w d)
         else append_line io now line w d)"

definition rotateCheck ::
  "(bytes \<Rightarrow> bytes) \<Rightarrow> log_clock \<Rightarrow> log_io \<Rightarrow> instant \<Rightarrow> file_writer \<Rightarrow> log_dir \<Rightarrow>
   log_error option \<times> file_writer \<times> log_dir" where
  "rotateCheck gz k io now w d =
     (if \<not> io_stat io then (Some StatFailed, w, d)
      else case lookup d (fw_path w) of
        None \<Rightarrow> (let (e, d') = prune io now w d in (e, w, d'))
      | Some f \<Rightarrow>
          let size = int (length (lf_bytes f));
              start = (if fw_file w then fw_periodStart w else lf_mtime f);
              iv = rt_Interval (fw_rotate w);
              sizeHit = (rt_MaxBytes (fw_rotate w) > 0 \<and> size \<ge> rt_MaxBytes (fw_rotate w));
              timeHit = (iv \<noteq> [] \<and> periodKey k iv start \<noteq> periodKey k iv now)
          in if size > 0 \<and> (sizeHit \<or> timeHit) then doRotate gz k io now w d
             else (let (e, d') = prune io now w d in (e, w, d')))"

subsection \<open>One write\<close>

text \<open>With an open handle the writer knows the size of its file.\<close>

definition writer_ok :: "file_writer \<Rightarrow> log_dir \<Rightarrow> bool" where
  "writer_ok w d \<longleftrightarrow> fw_file w \<longrightarrow>
     (\<exists>f. lookup d (fw_path w) = Some f \<and> fw_size w = int (length (lf_bytes f)))"

definition live :: "string \<Rightarrow> log_dir \<Rightarrow> bytes" where
  "live path d = (case lookup d path of None \<Rightarrow> [] | Some f \<Rightarrow> lf_bytes f)"

definition same_config :: "file_writer \<Rightarrow> file_writer \<Rightarrow> bool" where
  "same_config w w' \<longleftrightarrow> fw_path w' = fw_path w \<and> fw_rotate w' = fw_rotate w \<and> fw_keep w' = fw_keep w \<and>
     fw_compress w' = fw_compress w \<and> fw_holdOpen w' = fw_holdOpen w"

lemma open_file_spec:
  assumes "open_file io now w d = (None, w', d')" "writer_ok w d"
  shows "same_config w w'" "fw_file w'" "lookup d' (fw_path w) \<noteq> None"
    "fw_size w' = int (length (live (fw_path w) d))" "live (fw_path w) d' = live (fw_path w) d"
    "p \<noteq> fw_path w \<Longrightarrow> lookup d' p = lookup d p"
  using assms
  by (auto simp: open_file_def writer_ok_def same_config_def live_def Let_def dir_simps
      split: if_splits option.splits)

lemma append_line_spec:
  assumes "append_line io now line w d = (None, w', d')" "lookup d (fw_path w) \<noteq> None"
    and "fw_size w = int (length (live (fw_path w) d))" "in_int64 (fw_size w + int (length line))"
  shows "same_config w w'" "live (fw_path w) d' = live (fw_path w) d @ line" "writer_ok w' d'"
    "p \<noteq> fw_path w \<Longrightarrow> lookup d' p = lookup d p"
  using assms
  by (auto simp: append_line_def writer_ok_def same_config_def live_def Let_def dir_simps closeLocked_def
      wrap64_id split: if_splits option.splits)

text \<open>Rotated names differ from the name of the live file.\<close>

lemma rotated_name_neq: "rotated_name k now path d \<noteq> path" "rotated_name k now path d @ ''.gz'' \<noteq> path"
  by (auto simp: rotated_name_def)

lemma prune_loop_other:
  "p \<notin> fst ` set fs \<Longrightarrow> lookup (snd (prune_loop io k now i fs d)) p = lookup d p"
proof (induction fs arbitrary: i d)
  case (Cons f fs)
  then show ?case by (cases f) (auto simp: dir_simps)
qed simp

lemma rotated_files_prefix: "p \<in> fst ` set (rotated_files path d) \<Longrightarrow> has_prefix p (path @ ''.'')"
  by (auto simp: rotated_files_def)

lemma not_own_prefix: "\<not> has_prefix path (path @ ''.'')"
  by (simp add: has_prefix_def)

lemma prune_other:
  assumes "prune io now w d = (e, d')" "\<not> has_prefix p (fw_path w @ ''.'')"
  shows "lookup d' p = lookup d p"
proof -
  have "p \<notin> fst ` set (rotated_files (fw_path w) d)" using assms(2) rotated_files_prefix by blast
  from prune_loop_other[OF this] assms(1) show ?thesis
    by (auto simp: prune_def Let_def split: if_splits prod.splits) (metis snd_conv)+
qed

lemmas prune_keeps_live = prune_other[OF _ not_own_prefix]

lemma gzip_keeps_live:
  "gzipAndRemove gz io now (rotated_name k now path d0) d = (e, d') \<Longrightarrow> lookup d' path = lookup d path"
  using rotated_name_neq[of k now path d0]
  by (auto simp: gzipAndRemove_def Let_def dir_simps split: if_splits gzip_outcome.splits)

lemma doRotate_clears:
  assumes "doRotate gz k io now w d = (None, w', d')"
  shows "same_config w w' \<and> \<not> fw_file w' \<and> lookup d' (fw_path w) = None"
proof -
  let ?r = "rotated_name k now (fw_path w) d"
  obtain f where f: "lookup d (fw_path w) = Some f" "io_rename io"
    using assms by (auto simp: doRotate_def Let_def split: option.splits if_splits)
  let ?d1 = "put_file ?r f (remove_file (fw_path w) d)"
  have 1: "lookup ?d1 (fw_path w) = None" using rotated_name_neq(1)[THEN not_sym] by (simp add: dir_simps)
  show ?thesis
  proof (cases "kp_Mode (fw_keep w) = ''none''")
    case True
    with assms f 1 show ?thesis
      by (auto simp: doRotate_def Let_def dir_simps closeLocked_def same_config_def split: if_splits)
  next
    case False
    obtain e2 d2 where g: "(if fw_compress w then gzipAndRemove gz io now ?r ?d1 else (None, ?d1)) = (e2, d2)"
      by fastforce
    then have 2: "lookup d2 (fw_path w) = None"
      using 1 gzip_keeps_live[of gz io now k "fw_path w" d ?d1] by (auto split: if_splits)
    obtain e3 d3 where p: "prune io now w d2 = (e3, d3)" by fastforce
    have "lookup d3 (fw_path w) = None" using prune_keeps_live[OF p] 2 by simp
    with assms f False g p show ?thesis
      by (auto simp: doRotate_def Let_def closeLocked_def same_config_def split: if_splits)
  qed
qed

lemma terminated_ne: "terminated line \<noteq> []"
  by (auto simp: terminated_def has_suffix_def split: if_splits)

text \<open>The two ways a write succeeds.\<close>

lemma writeLine_cases:
  assumes run: "writeLine gz k io now line w d = (None, w', d')" and ok: "writer_ok w d"
    and fits: "in_int64 (int (length (live (fw_path w) d)) + int (length (terminated line)))"
  obtains (grown) w1 d1 where "open_file io now w d = (None, w1, d1)" "same_config w w'" "writer_ok w' d'"
      "\<not> needsRotate k w1 (int (length (terminated line))) now"
      "live (fw_path w) d' = live (fw_path w) d @ terminated line"
      "\<And>q. q \<noteq> fw_path w \<Longrightarrow> lookup d' q = lookup d q"
  | (rotated) w1 d1 w2 d2 where "open_file io now w d = (None, w1, d1)" "same_config w w'" "writer_ok w' d'"
      "needsRotate k w1 (int (length (terminated line))) now"
      "doRotate gz k io now w1 d1 = (None, w2, d2)" "live (fw_path w) d' = terminated line"
      "\<And>q. q \<noteq> fw_path w \<Longrightarrow> lookup d' q = lookup d2 q"
proof -
  let ?l = "terminated line" and ?p = "fw_path w"
  obtain w1 d1 where o: "open_file io now w d = (None, w1, d1)"
    using run by (auto simp: writeLine_def Let_def split: prod.splits if_splits)
  note o' = open_file_spec[OF o ok]
  have p: "fw_path w1 = ?p" using o'(1) by (simp add: same_config_def)
  show thesis
  proof (cases "needsRotate k w1 (int (length ?l)) now")
    case False
    with run o have a: "append_line io now ?l w1 d1 = (None, w', d')" by (simp add: writeLine_def Let_def)
    have pre: "lookup d1 (fw_path w1) \<noteq> None" "fw_size w1 = int (length (live (fw_path w1) d1))"
      "in_int64 (fw_size w1 + int (length ?l))" using o'(3-5) p fits by simp_all
    note a' = append_line_spec[OF a pre]
    have "same_config w w'" using a'(1) o'(1) by (simp add: same_config_def)
    then show thesis using grown[OF o _ _ False] a'(2,3) a'(4) o'(5) o'(6) p by simp
  next
    case True
    with run o obtain w2 d2 w3 d3 where r: "doRotate gz k io now w1 d1 = (None, w2, d2)"
      and o2: "open_file io now w2 d2 = (None, w3, d3)" and a: "append_line io now ?l w3 d3 = (None, w', d')"
      by (auto simp: writeLine_def Let_def split: prod.splits if_splits)
    from doRotate_clears[OF r] have c: "same_config w1 w2" "\<not> fw_file w2" "lookup d2 ?p = None" using p by simp_all
    then have "writer_ok w2 d2" "live ?p d2 = []" by (simp_all add: writer_ok_def live_def)
    note o2' = open_file_spec[OF o2 this(1)] and e = this(2)
    have p3: "fw_path w2 = ?p" "fw_path w3 = ?p" using c(1) o2'(1) p by (simp_all add: same_config_def)
    have pre: "lookup d3 (fw_path w3) \<noteq> None" "fw_size w3 = int (length (live (fw_path w3) d3))"
      "in_int64 (fw_size w3 + int (length ?l))" using o2'(3-5) p3 e fits by (simp_all add: min_int64_def)
    note a' = append_line_spec[OF a pre]
    have "same_config w w'" using a'(1) o2'(1) c(1) o'(1) by (simp add: same_config_def)
    then show thesis using rotated[OF o _ _ True r] a'(2,3) a'(4) o2'(5) o2'(6) p3 e by simp
  qed
qed

text \<open>The size limit holds: after a successful write the live file ends with the line, and is no
  longer than the limit unless it holds that line alone and the line by itself is longer.\<close>

theorem log_size_bounded:
  assumes run: "writeLine gz k io now line w d = (None, w', d')" and ok: "writer_ok w d"
    and M: "rt_MaxBytes (fw_rotate w) = M" "0 < M"
    and fits: "in_int64 (int (length (live (fw_path w) d)) + int (length (terminated line)))"
  shows "writer_ok w' d' \<and> (\<exists>before. live (fw_path w) d' = before @ terminated line) \<and>
    int (length (live (fw_path w) d')) \<le> max M (int (length (terminated line)))"
  using run ok fits
proof (cases rule: writeLine_cases)
  case (grown w1 d1)
  note o' = open_file_spec[OF grown(1) ok]
  have "fw_size w1 = 0 \<or> wrap64 (fw_size w1 + int (length (terminated line))) \<le> M"
    using grown(4) M o'(1) by (auto simp: needsRotate_def same_config_def)
  then have "int (length (live (fw_path w) d @ terminated line)) \<le> max M (int (length (terminated line)))"
    using o'(4) fits by (auto simp: wrap64_id)
  with grown(3,5) show ?thesis by auto
qed auto

subsection \<open>Nothing is lost when everything is kept\<close>

definition logged :: "string \<Rightarrow> log_dir \<Rightarrow> string \<Rightarrow> bool" where
  "logged path d line \<longleftrightarrow> (\<exists>p f a b. (p = path \<or> has_prefix p (path @ ''.'')) \<and> lookup d p = Some f \<and>
     lf_bytes f = a @ line @ b)"

text \<open>A run of writes, each of which succeeds.\<close>

fun write_all ::
  "(bytes \<Rightarrow> bytes) \<Rightarrow> log_clock \<Rightarrow> (log_io \<times> instant \<times> string) list \<Rightarrow> file_writer \<Rightarrow> log_dir \<Rightarrow>
   (file_writer \<times> log_dir) option" where
  "write_all gz k [] w d = Some (w, d)"
| "write_all gz k ((io, now, line) # rest) w d =
     (case writeLine gz k io now line w d of
        (None, w', d') \<Rightarrow> write_all gz k rest w' d'
      | (Some _, _, _) \<Rightarrow> None)"

text \<open>What a write needs to lose nothing: if it rotates, the name the file is to get is free, and the
  sizes stay within 64 bits.\<close>

definition name_free :: "log_clock \<Rightarrow> log_io \<Rightarrow> instant \<Rightarrow> string \<Rightarrow> file_writer \<Rightarrow> log_dir \<Rightarrow> bool" where
  "name_free k io now line w d \<longleftrightarrow>
     in_int64 (int (length (live (fw_path w) d)) + int (length (terminated line))) \<and>
     (case open_file io now w d of (_, w1, d1) \<Rightarrow>
        needsRotate k w1 (int (length (terminated line))) now \<longrightarrow> lookup d (rotated_name k now (fw_path w) d) = None)"

fun names_free ::
  "(bytes \<Rightarrow> bytes) \<Rightarrow> log_clock \<Rightarrow> (log_io \<times> instant \<times> string) list \<Rightarrow> file_writer \<Rightarrow> log_dir \<Rightarrow> bool" where
  "names_free gz k [] w d = True"
| "names_free gz k ((io, now, line) # rest) w d =
     (name_free k io now line w d \<and>
      (case writeLine gz k io now line w d of (_, w', d') \<Rightarrow> names_free gz k rest w' d'))"

lemma rotated_name_prefix: "has_prefix (rotated_name k now path d) (path @ ''.'')"
  by (simp add: rotated_name_def has_prefix_def)

lemma doRotate_keeps_all:
  assumes "doRotate gz k io now w d = (None, w', d')" "kp_Mode (fw_keep w) = ''forever''" "\<not> fw_compress w"
  shows "\<exists>f. lookup d (fw_path w) = Some f \<and>
    d' = put_file (rotated_name k now (fw_path w) d) f (remove_file (fw_path w) d)"
  using assms by (auto simp: doRotate_def Let_def prune_def split: option.splits if_splits)

text \<open>What a step may do to the files: every other file stays, the live one grows or is kept whole
  under a name that was free.\<close>

definition kept :: "string \<Rightarrow> log_dir \<Rightarrow> log_dir \<Rightarrow> bool" where
  "kept path d d' \<longleftrightarrow> (\<forall>p f. p \<noteq> path \<longrightarrow> lookup d p = Some f \<longrightarrow> lookup d' p = Some f) \<and>
     (\<exists>b. live path d' = live path d @ b \<and> lookup d' path \<noteq> None) \<or>
     (\<forall>p f. p \<noteq> path \<longrightarrow> lookup d p = Some f \<longrightarrow> lookup d' p = Some f) \<and>
     (\<exists>p f. has_prefix p (path @ ''.'') \<and> lookup d' p = Some f \<and> lf_bytes f = live path d)"

lemma kept_logged:
  assumes "kept path d d'" "logged path d line"
  shows "logged path d' line"
proof -
  obtain p f a b where l: "p = path \<or> has_prefix p (path @ ''.'')" "lookup d p = Some f" "lf_bytes f = a @ line @ b"
    using assms(2) by (auto simp: logged_def)
  show ?thesis
  proof (cases "p = path")
    case False
    with l assms(1) show ?thesis unfolding kept_def logged_def by blast
  next
    case True
    then have lv: "live path d = a @ line @ b" using l by (simp add: live_def)
    from assms(1) consider (grown) c where "live path d' = live path d @ c" "lookup d' path \<noteq> None"
      | (moved) q g where "has_prefix q (path @ ''.'')" "lookup d' q = Some g" "lf_bytes g = live path d"
      unfolding kept_def by blast
    then show ?thesis
    proof cases
      case grown
      then obtain f' where "lookup d' path = Some f'" "lf_bytes f' = a @ line @ (b @ c)"
        using lv by (auto simp: live_def split: option.splits)
      then show ?thesis unfolding logged_def by blast
    next
      case moved
      with lv show ?thesis unfolding logged_def by metis
    qed
  qed
qed

lemma rotated_name_cong:
  "(\<And>p. p \<noteq> path \<Longrightarrow> lookup d' p = lookup d p) \<Longrightarrow> rotated_name k now path d' = rotated_name k now path d"
  by (simp add: rotated_name_def)

lemma writeLine_keeps:
  assumes run: "writeLine gz k io now line w d = (None, w', d')" and ok: "writer_ok w d"
    and reg: "name_free k io now line w d" and keep: "kp_Mode (fw_keep w) = ''forever''" "\<not> fw_compress w"
  shows "same_config w w' \<and> writer_ok w' d' \<and> kept (fw_path w) d d' \<and> logged (fw_path w) d' (terminated line)"
proof -
  let ?l = "terminated line" and ?p = "fw_path w"
  have some: "lookup d' ?p \<noteq> None \<and> logged ?p d' ?l" if "live ?p d' = x @ ?l" for x
  proof -
    from that terminated_ne obtain f where "lookup d' ?p = Some f" "lf_bytes f = x @ ?l @ []"
      by (auto simp: live_def split: option.splits)
    then show ?thesis unfolding logged_def by blast
  qed
  have fits: "in_int64 (int (length (live ?p d)) + int (length ?l))" using reg by (simp add: name_free_def)
  from run ok fits show ?thesis
  proof (cases rule: writeLine_cases)
    case grown
    then have "kept ?p d d'" using some unfolding kept_def by auto
    with grown some show ?thesis by blast
  next
    case (rotated w1 d1 w2 d2)
    note o' = open_file_spec[OF rotated(1) ok]
    have p: "fw_path w1 = ?p" "fw_keep w1 = fw_keep w" "fw_compress w1 = fw_compress w"
      using o'(1) by (simp_all add: same_config_def)
    let ?r = "rotated_name k now ?p d"
    have rn: "rotated_name k now ?p d1 = ?r" using o'(6) by (intro rotated_name_cong) simp
    obtain f where f: "lookup d1 ?p = Some f" "d2 = put_file ?r f (remove_file ?p d1)"
      using doRotate_keeps_all[OF rotated(5)] keep p rn by auto
    have others: "q \<noteq> ?p \<Longrightarrow> lookup d' q = (if q = ?r then Some f else lookup d q)" for q
      using rotated(7)[of q] o'(6)[of q] by (simp add: f(2) dir_simps)
    have "lookup d ?r = None" using reg rotated(1,4) by (simp add: name_free_def)
    moreover have "lf_bytes f = live ?p d" using f(1) o'(5) by (simp add: live_def)
    ultimately have "kept ?p d d'"
      unfolding kept_def using others rotated_name_prefix[of k now ?p d] rotated_name_neq(1)[of k now ?p d]
      by (intro disjI2 conjI) (auto split: if_splits)
    then show ?thesis using rotated(2,3) some[of "[]"] rotated(6) by simp
  qed
qed

text \<open>C33: With retention set to keep everything and no compression, a run of successful writes loses
  no line, provided that at every rotation on the way the name the file gets is free (the dated
  name, or else the one with the time of day, which a third rotation within one second finds
  taken) and that sizes fit in 64 bits: every line that was written, and every line that was
  there before, is in the live file or in one of the rotated ones. The writer is consistent
  with its directory at the start.\<close>

theorem no_line_lost:
  assumes "write_all gz k ws w d = Some (w', d')" "names_free gz k ws w d" "writer_ok w d"
    and "kp_Mode (fw_keep w) = ''forever''" "\<not> fw_compress w"
  shows "(\<forall>(io, now, line) \<in> set ws. logged (fw_path w) d' (terminated line)) \<and>
    (\<forall>l. logged (fw_path w) d l \<longrightarrow> logged (fw_path w) d' l)"
  using assms
proof (induction ws arbitrary: w d)
  case (Cons x ws)
  obtain io now line where x: "x = (io, now, line)" by (cases x) auto
  from Cons.prems(1) x obtain w1 d1 where run: "writeLine gz k io now line w d = (None, w1, d1)"
    and rest: "write_all gz k ws w1 d1 = Some (w', d')"
    by (auto split: option.splits prod.splits)
  from Cons.prems(2) x run have reg: "name_free k io now line w d" and free: "names_free gz k ws w1 d1" by simp_all
  note step = writeLine_keeps[OF run Cons.prems(3) reg Cons.prems(4,5)]
  then have "fw_path w1 = fw_path w" "fw_keep w1 = fw_keep w" "\<not> fw_compress w1"
    using Cons.prems(5) by (simp_all add: same_config_def)
  with Cons.IH[OF rest free] step Cons.prems(4) kept_logged x show ?case by auto
qed simp

subsection \<open>Retention by count\<close>

lemma prune_loop_count:
  assumes "kp_Mode k = ''count''" "\<And>p. io_remove io p"
  shows "prune_loop io k now i fs d =
    (True, filter (\<lambda>e. fst e \<notin> fst ` set (drop (nat (kp_Count k - int i)) fs)) d)"
proof (induction fs arbitrary: i d)
  case (Cons f fs)
  obtain p m where f: "f = (p, m)" by fastforce
  show ?case
  proof (cases "int i \<ge> kp_Count k")
    case True
    then have "prunes k now i m" using assms(1) by (simp add: prunes_def)
    moreover have "nat (kp_Count k - int i) = 0" "nat (kp_Count k - int (Suc i)) = 0" using True by simp_all
    ultimately show ?thesis
      using Cons.IH[of "Suc i" "remove_file p d"] assms(2)
      by (simp add: f remove_file_def conj_commute del: filter_filter flip: filter_filter)
  next
    case False
    then have "\<not> prunes k now i m" using assms(1) by (simp add: prunes_def)
    moreover have "nat (kp_Count k - int i) = Suc (nat (kp_Count k - int (Suc i)))" using False by simp
    ultimately show ?thesis using Cons.IH[of "Suc i" d] by (simp add: f)
  qed
qed simp

lemma rotated_files_filter:
  "rotated_files path (filter (\<lambda>e. fst e \<notin> X) d) = filter (\<lambda>f. fst f \<notin> X) (rotated_files path d)"
  unfolding rotated_files_def filter_sort filter_map
  by (simp add: comp_def case_prod_beta conj_commute)

lemma distinct_map_sort: "distinct (map g xs) \<Longrightarrow> distinct (map g (sort_key h xs))"
  by (simp add: distinct_map)

lemma rotated_files_distinct: "distinct (map fst d) \<Longrightarrow> distinct (map fst (rotated_files path d))"
proof -
  assume "distinct (map fst d)"
  then have "distinct (map fst (map (\<lambda>(p, f). (p, lf_mtime f)) (filter P d)))" for P
    by (simp add: comp_def case_prod_beta distinct_map_filter)
  then show ?thesis unfolding rotated_files_def by (rule distinct_map_sort)
qed

lemma filter_not_dropped:
  "distinct (map fst fs) \<Longrightarrow> filter (\<lambda>f. fst f \<notin> fst ` set (drop n fs)) fs = take n fs"
proof (induction fs arbitrary: n)
  case (Cons f fs)
  show ?case
  proof (cases n)
    case 0
    then show ?thesis by (auto simp: filter_empty_conv)
  next
    case (Suc m)
    have "fst f \<notin> fst ` set (drop m fs)" using Cons.prems by (auto dest: in_set_dropD)
    with Suc Cons show ?thesis by simp
  qed
qed simp

text \<open>Retention by count keeps exactly the newest files: after a pruning the rotated files are the
  first ones, as many as the policy says, of the list sorted by time, and no other file of the
  directory has changed.\<close>

theorem prune_count_exact:
  assumes "kp_Mode (fw_keep w) = ''count''" "\<And>p. io_remove io p" "distinct (map fst d)"
  shows "\<exists>d'. prune io now w d = (None, d') \<and>
    rotated_files (fw_path w) d' = take (nat (kp_Count (fw_keep w))) (rotated_files (fw_path w) d) \<and>
    (\<forall>p. p \<notin> fst ` set (rotated_files (fw_path w) d) \<longrightarrow> lookup d' p = lookup d p)"
proof -
  let ?fs = "rotated_files (fw_path w) d" and ?n = "nat (kp_Count (fw_keep w))"
  let ?d = "filter (\<lambda>e. fst e \<notin> fst ` set (drop ?n ?fs)) d"
  have l: "prune_loop io (fw_keep w) now 0 ?fs d = (True, ?d)"
    using prune_loop_count[OF assms(1,2), where i = 0] by simp
  then have "prune io now w d = (None, ?d)" using assms(1) by (simp add: prune_def)
  moreover have "rotated_files (fw_path w) ?d = take ?n ?fs"
    unfolding rotated_files_filter using assms(3) by (intro filter_not_dropped rotated_files_distinct)
  moreover have "\<forall>p. p \<notin> fst ` set ?fs \<longrightarrow> lookup ?d p = lookup d p"
    using prune_loop_other[of _ ?fs io "fw_keep w" now 0 d] l by simp
  ultimately show ?thesis by blast
qed

text \<open>The name with the time of day is taken without looking whether it is free. When a file has
  been rotated to it within the same second, the next rotation replaces that file: no write
  fails, and what the replaced file held is gone.\<close>

lemma rotation_within_a_second_overwrites:
  assumes "kp_Mode (fw_keep w) = ''forever''" "\<not> fw_compress w" "io_rename io"
    and "lookup d (fw_path w) = Some f" "lookup d (fw_path w @ ''.'' @ lc_day k now) \<noteq> None"
    and "lookup d (fw_path w @ ''.'' @ lc_stamp k now) = Some old"
  shows "\<exists>w' d'. doRotate gz k io now w d = (None, w', d') \<and>
    lookup d' (fw_path w @ ''.'' @ lc_stamp k now) = Some f"
  using assms by (simp add: doRotate_def rotated_name_def prune_def dir_simps Let_def)

text \<open>With compression the dated name is free again as soon as the file has been compressed, so the
  next rotation of the day takes it, too, and its compressed form replaces the earlier one:
  what was logged before is gone.\<close>

lemma compressed_rotation_overwrites:
  assumes "kp_Mode (fw_keep w) = ''forever''" "fw_compress w" "io_rename io" "io_gzip io = GzOk"
    and "lookup d (fw_path w) = Some f" "lookup d (fw_path w @ ''.'' @ lc_day k now) = None"
    and "lookup d (fw_path w @ ''.'' @ lc_day k now @ ''.gz'') = Some old"
  shows "\<exists>w' d'. doRotate gz k io now w d = (None, w', d') \<and>
    lookup d' (fw_path w @ ''.'' @ lc_day k now @ ''.gz'') =
      Some \<lparr>lf_bytes = gz (lf_bytes f), lf_mtime = now, lf_dir = False\<rparr>"
  using assms
  by (simp add: doRotate_def rotated_name_def gzipAndRemove_def prune_def dir_simps Let_def)

subsection \<open>Samples\<close>

definition sample_clock :: log_clock where
  "sample_clock = \<lparr>lc_day = (\<lambda>_. ''d''), lc_stamp = (\<lambda>t. if t < 3 then ''s'' else ''t''),
     lc_week = (\<lambda>_. []), lc_month = (\<lambda>_. []), lc_year = (\<lambda>_. [])\<rparr>"

definition sample_io :: log_io where
  "sample_io = \<lparr>io_open = True, io_written = None, io_rename = True, io_gzip = GzOk, io_stat = True,
     io_remove = (\<lambda>_. True)\<rparr>"

definition sample_writer :: "string \<Rightarrow> file_writer" where
  "sample_writer mode = \<lparr>fw_path = ''l'', fw_rotate = \<lparr>rt_Interval = [], rt_MaxBytes = 4\<rparr>,
     fw_keep = \<lparr>kp_Mode = mode, kp_Count = 1, kp_Age = 0\<rparr>, fw_compress = False, fw_holdOpen = True,
     fw_file = False, fw_size = 0, fw_periodStart = 0\<rparr>"

definition sample_dir :: log_dir where
  "sample_dir = [(''l'', \<lparr>lf_bytes = ''abc'', lf_mtime = 5, lf_dir = False\<rparr>),
     (''l.d'', \<lparr>lf_bytes = ''x'', lf_mtime = 3, lf_dir = False\<rparr>),
     (''l.c'', \<lparr>lf_bytes = ''y'', lf_mtime = 4, lf_dir = False\<rparr>)]"

lemmas sample_defs = sample_clock_def sample_io_def sample_writer_def sample_dir_def

lemma sample_ok: "writer_ok (sample_writer m) d"
  by (simp add: writer_ok_def sample_writer_def)

lemma log_size_bounded_witness:
  "length (live ''l'' (snd (snd (writeLine (\<lambda>b. b) sample_clock sample_io 9 ''de'' (sample_writer ''forever'') sample_dir)))) \<le> 4"
proof -
  let ?r = "writeLine (\<lambda>b. b) sample_clock sample_io 9 ''de'' (sample_writer ''forever'') sample_dir"
  have "fst ?r = None" by code_simp
  then have r: "?r = (None, fst (snd ?r), snd (snd ?r))" by (simp add: prod_eq_iff)
  have t: "terminated ''de'' = ''de'' @ [CHR 0x0A]" by (simp add: terminated_def has_suffix_def)
  have "in_int64 (int (length (live (fw_path (sample_writer ''forever'')) sample_dir)) + int (length (terminated ''de'')))"
    by (simp add: t sample_defs live_def lookup_def min_int64_def max_int64_def)
  from log_size_bounded[OF r sample_ok _ _ this, of 4] show ?thesis by (simp add: t sample_writer_def)
qed

definition sample_writes :: "(log_io \<times> instant \<times> string) list" where
  "sample_writes = [(sample_io, 1, ''ab''), (sample_io, 2, ''cd''), (sample_io, 3, ''ef'')]"

lemma no_line_lost_witness:
  "\<exists>w' d'. write_all (\<lambda>b. b) sample_clock sample_writes (sample_writer ''forever'') [] = Some (w', d') \<and>
     logged ''l'' d' (terminated ''ab'')"
proof -
  let ?r = "write_all (\<lambda>b. b) sample_clock sample_writes (sample_writer ''forever'') []"
  have "?r \<noteq> None" by code_simp
  then obtain w' d' where r: "?r = Some (w', d')" by auto
  have "names_free (\<lambda>b. b) sample_clock sample_writes (sample_writer ''forever'') []" by code_simp
  from no_line_lost[OF r this sample_ok] have "logged ''l'' d' (terminated ''ab'')"
    by (simp add: sample_writer_def sample_writes_def)
  with r show ?thesis by blast
qed

lemma prune_count_exact_witness:
  "\<exists>d'. prune sample_io 9 (sample_writer ''count'') sample_dir = (None, d') \<and>
     rotated_files ''l'' d' = [(''l.c'', 4)]"
proof -
  have "rotated_files ''l'' sample_dir = [(''l.c'', 4), (''l.d'', 3)]" by code_simp
  with prune_count_exact[of "sample_writer ''count''" sample_io sample_dir 9] show ?thesis
    by (auto simp: sample_writer_def sample_io_def sample_dir_def)
qed

end
