(* ===== verification/Security_Access.thy ===== *)
theory Security_Access
  imports Go_Text
begin

section \<open>Security identifiers and the arithmetic captcha\<close>

text \<open>
  \<^verbatim>\<open>src/src/server/security_id.go\<close> and \<^verbatim>\<open>src/src/server/captcha.go\<close>: the rotating identifier that opens the
  security form, and the stateless captcha whose answer travels in a signed token. HMAC-SHA-256
  is an argument, applied to a key and a message; nothing is assumed of it unless a property
  says so. A comparison in constant time is equality.
\<close>

subsection \<open>Base64 for URLs, without padding\<close>

definition url_char :: "char \<Rightarrow> char" where
  "url_char c = (if c = CHR ''+'' then CHR ''-'' else if c = CHR ''/'' then CHR ''_'' else c)"

definition std_char :: "char \<Rightarrow> char" where
  "std_char c = (if c = CHR ''-'' then CHR ''+'' else if c = CHR ''_'' then CHR ''/'' else c)"

definition raw_url_encode :: "bytes \<Rightarrow> string" where
  "raw_url_encode bs = map url_char (filter (\<lambda>c. c \<noteq> CHR ''='') (b64_encode bs))"

definition raw_url_decode :: "string \<Rightarrow> bytes option" where
  "raw_url_decode s =
     (let t = filter (\<lambda>c. c \<noteq> CHR 0x0D \<and> c \<noteq> CHR 0x0A) s
      in if list_ex (\<lambda>c. c = CHR ''='' \<or> c = CHR ''+'' \<or> c = CHR ''/'') t then None
         else if length t mod 4 = 1 then None
         else b64_quanta (map std_char t @ replicate ((4 - length t mod 4) mod 4) CHR ''=''))"

lemma b64_encode_chars: "x \<in> set (b64_encode xs) \<Longrightarrow> x = CHR ''='' \<or> (\<exists>n < 64. x = b64_char n)"
proof (induction xs rule: b64_encode.induct)
  case (2 a)
  let ?v = "of_char a * 65536 :: nat"
  have "x \<in> {b64_char (?v div 262144), b64_char (?v div 4096 mod 64), CHR ''=''}"
    using "2.prems" by (simp only: b64_encode.simps Let_def list.set)  blast
  moreover have "?v < 16777216" using group_bound[of a "CHR 0x00" "CHR 0x00"] by simp
  ultimately show ?case using sextet_bounds[of ?v] by blast
next
  case (3 a b)
  let ?v = "of_char a * 65536 + of_char b * 256 :: nat"
  have "x \<in> {b64_char (?v div 262144), b64_char (?v div 4096 mod 64), b64_char (?v div 64 mod 64), CHR ''=''}"
    using "3.prems" by (simp only: b64_encode.simps Let_def list.set)
  moreover have "?v < 16777216" using group_bound[of a b "CHR 0x00"] by simp
  ultimately show ?case using sextet_bounds[of ?v] by blast
next
  case (4 a b c rest)
  let ?v = "of_char a * 65536 + of_char b * 256 + of_char c :: nat"
  have "x \<in> {b64_char (?v div 262144), b64_char (?v div 4096 mod 64), b64_char (?v div 64 mod 64), b64_char (?v mod 64)} \<union>
      set (b64_encode rest)"
    using "4.prems" by (simp only: b64_encode.simps Let_def list.set set_append)
  then show ?case using sextet_bounds[OF group_bound[of a b c]] "4.IH" by blast
qed simp

lemma b64_char_alphabet:
  assumes "n < 64"
  shows "b64_char n \<noteq> CHR ''-''" "b64_char n \<noteq> CHR ''_''" "b64_char n \<noteq> CHR ''.''"
proof -
  have "of_char (b64_char n) \<notin> {45, 95, 46 :: nat}"
    using of_char_b64_char[OF assms] assms by (auto split: if_splits)
  then show "b64_char n \<noteq> CHR ''-''" "b64_char n \<noteq> CHR ''_''" "b64_char n \<noteq> CHR ''.''" by auto
qed

text \<open>An encoding is its characters without padding, followed by the padding its length asks for.\<close>

lemma b64_encode_padding:
  "let body = filter (\<lambda>c. c \<noteq> CHR ''='') (b64_encode xs) in
   length body mod 4 \<noteq> 1 \<and> b64_encode xs = body @ replicate ((4 - length body mod 4) mod 4) CHR ''=''"
proof (induction xs rule: b64_encode.induct)
  case (2 a)
  then show ?case
    using sextet_chars[OF group_bound[of a "CHR 0x00" "CHR 0x00"]] by (simp add: Let_def numeral_2_eq_2)
next
  case (3 a b)
  then show ?case using sextet_chars[OF group_bound[of a b "CHR 0x00"]] by (simp add: Let_def)
next
  case (4 a b c rest)
  then show ?case using sextet_chars[OF group_bound[of a b c]] by (simp add: Let_def)
qed simp

lemma raw_url_roundtrip: "raw_url_decode (raw_url_encode xs) = Some xs"
proof -
  let ?body = "filter (\<lambda>c. c \<noteq> CHR ''='') (b64_encode xs)"
  have chars: "\<exists>n < 64. c = b64_char n" if "c \<in> set ?body" for c using that b64_encode_chars by auto
  have std: "std_char (url_char c) = c" if "c \<in> set ?body" for c
    using chars[OF that] b64_char_alphabet by (auto simp: std_char_def url_char_def)
  have url: "url_char c \<notin> {CHR ''='', CHR ''+'', CHR ''/'', CHR 0x0D, CHR 0x0A}" if "c \<in> set ?body" for c
    using chars[OF that] b64_char_plain by (auto simp: url_char_def)
  have "filter (\<lambda>c. c \<noteq> CHR 0x0D \<and> c \<noteq> CHR 0x0A) (raw_url_encode xs) = raw_url_encode xs"
    using url by (auto simp: raw_url_encode_def filter_id_conv)
  moreover have "\<not> list_ex (\<lambda>c. c = CHR ''='' \<or> c = CHR ''+'' \<or> c = CHR ''/'') (raw_url_encode xs)"
    using url by (auto simp: raw_url_encode_def list_ex_iff)
  moreover have "map std_char (raw_url_encode xs) = ?body"
    unfolding raw_url_encode_def map_map comp_def using std by (intro map_idI) blast
  moreover have "length (raw_url_encode xs) = length ?body" by (simp add: raw_url_encode_def)
  moreover have "length ?body mod 4 \<noteq> 1" "b64_encode xs = ?body @ replicate ((4 - length ?body mod 4) mod 4) CHR ''=''"
    using b64_encode_padding[of xs] by (simp_all add: Let_def)
  ultimately show ?thesis using b64_quanta_encode[of xs] by (simp add: raw_url_decode_def Let_def)
qed

lemma raw_url_no_dot: "CHR ''.'' \<notin> set (raw_url_encode xs)"
proof
  assume "CHR ''.'' \<in> set (raw_url_encode xs)"
  then obtain c where "c \<in> set (b64_encode xs)" "c \<noteq> CHR ''=''" "url_char c = CHR ''.''"
    by (auto simp: raw_url_encode_def)
  moreover from this obtain n where "n < 64" "c = b64_char n" using b64_encode_chars by blast
  ultimately show False using b64_char_alphabet(3) by (auto simp: url_char_def split: if_splits)
qed

subsection \<open>Security identifiers\<close>

definition securityIDWindow :: int where "securityIDWindow = 172800"

fun itoa_loop :: "nat \<Rightarrow> string \<Rightarrow> string" where
  "itoa_loop n buf = (if n = 0 then buf else itoa_loop (n div 10) (digit_char (n mod 10) # buf))"

declare itoa_loop.simps [simp del]

definition itoa64 :: "int \<Rightarrow> string" where
  "itoa64 n =
     (if n = 0 then ''0''
      else let neg = n < 0;
               m = (if neg then wrap64 (- n) else n);
               buf = itoa_loop (nat m) []
           in if neg then CHR ''-'' # buf else buf)"

type_synonym hmac = "bytes \<Rightarrow> bytes \<Rightarrow> bytes"

definition securityIDForWindow :: "hmac \<Rightarrow> bytes \<Rightarrow> int \<Rightarrow> string" where
  "securityIDForWindow hm installSecret window = take 16 (hex_encode (hm installSecret (itoa64 window)))"

text \<open>The division of Go, which truncates.\<close>

definition quot64 :: "int \<Rightarrow> int \<Rightarrow> int" where
  "quot64 a b = (if a < 0 then - ((- a) div b) else a div b)"

definition currentSecurityID :: "hmac \<Rightarrow> bytes \<Rightarrow> instant \<Rightarrow> string" where
  "currentSecurityID hm installSecret now =
     (if installSecret = [] then []
      else securityIDForWindow hm installSecret (quot64 (unix now) securityIDWindow))"

definition validSecurityID :: "hmac \<Rightarrow> bytes \<Rightarrow> instant \<Rightarrow> string \<Rightarrow> bool" where
  "validSecurityID hm installSecret now id0 =
     (if id0 = [] \<or> installSecret = [] then False
      else let w = quot64 (unix now) securityIDWindow
           in list_ex (\<lambda>w. securityIDForWindow hm installSecret w = id0) [w, wrap64 (w - 1)])"

lemma itoa_loop_show: "itoa_loop n buf = (if n = 0 then buf else show_nat n @ buf)"
proof (induction n buf rule: itoa_loop.induct)
  case (1 n buf)
  show ?case
  proof (cases "n = 0")
    case True
    then show ?thesis by (simp add: itoa_loop.simps)
  next
    case False
    have "show_nat n = (if n < 10 then [digit_char n] else show_nat (n div 10) @ [digit_char (n mod 10)])"
      by (subst show_nat.simps) simp
    with 1[OF False] False show ?thesis by (subst itoa_loop.simps) auto
  qed
qed

text \<open>The hand-written conversion prints what \<^verbatim>\<open>strconv\<close> prints, except for the smallest integer, which
  has no negation.\<close>

lemma itoa64_show_int: "in_int64 n \<Longrightarrow> n \<noteq> min_int64 \<Longrightarrow> itoa64 n = show_int n"
proof -
  assume "in_int64 n" "n \<noteq> min_int64"
  then have "wrap64 (- n) = - n" by (intro wrap64_id) (auto simp: min_int64_def max_int64_def)
  moreover have "show_nat 0 = ''0''" by code_simp
  ultimately show ?thesis by (auto simp: itoa64_def show_int_def itoa_loop_show Let_def)
qed

lemma itoa64_min: "itoa64 min_int64 = ''-''"
  by (simp add: itoa64_def min_int64_def wrap64_def itoa_loop_show)

text \<open>A security identifier opens the form for at least 48 hours after it was shown: from the moment
  it is current until 48 hours later it is accepted. Without an installation secret there is
  no identifier and none is accepted.\<close>

theorem security_id_accepted:
  assumes "0 \<le> unix shown" "unix shown \<le> unix now" "unix now \<le> unix shown + 172800" "unix now < 2 ^ 62"
    and hm: "\<And>k m. hm k m \<noteq> []"
  shows "validSecurityID hm secret now (currentSecurityID hm secret shown) \<longleftrightarrow> secret \<noteq> []"
proof (cases "secret = []")
  case False
  let ?w = "unix now div 172800" and ?v = "unix shown div 172800"
  have "?v \<le> ?w" using assms(2) by (simp add: zdiv_mono1)
  moreover have "?w \<le> (unix shown + 172800) div 172800" using assms(3) by (simp add: zdiv_mono1)
  ultimately have "?v = ?w \<or> ?v = ?w - 1" by auto
  moreover have "0 \<le> ?w" using assms(1,2) by (simp add: pos_imp_zdiv_nonneg_iff)
  moreover have "unix now = ?w * 172800 + unix now mod 172800" "0 \<le> unix now mod 172800" by simp_all
  ultimately have "0 \<le> ?w" "?w \<le> unix now" "?v = ?w \<or> ?v = ?w - 1" by linarith+
  moreover from this have "wrap64 (?w - 1) = ?w - 1"
    using assms(4) by (intro wrap64_id) (simp add: min_int64_def max_int64_def)
  moreover have "securityIDForWindow hm secret x \<noteq> []" for x
    using hm[of secret "itoa64 x"]
    by (cases "hm secret (itoa64 x)") (auto simp: securityIDForWindow_def hex_encode_def hex_byte_def)
  ultimately show ?thesis
    using False assms(1,2) by (auto simp: validSecurityID_def currentSecurityID_def securityIDWindow_def quot64_def Let_def)
qed (simp add: validSecurityID_def)

lemma security_id_accepted_witness:
  "validSecurityID (\<lambda>k m. CHR ''x'' # k @ m) ''s'' (1000000 * Second)
     (currentSecurityID (\<lambda>k m. CHR ''x'' # k @ m) ''s'' (900000 * Second))"
proof -
  have "validSecurityID (\<lambda>k m. CHR ''x'' # k @ m) ''s'' (1000000 * Second)
      (currentSecurityID (\<lambda>k m. CHR ''x'' # k @ m) ''s'' (900000 * Second)) \<longleftrightarrow> ''s'' \<noteq> []"
    by (rule security_id_accepted) (simp_all add: unix_def Second_def)
  then show ?thesis by simp
qed

subsection \<open>The captcha\<close>

record simple_captcha =
  sc_Question :: string
  sc_Token :: string

definition captchaTTL :: duration where "captchaTTL = 10 * Minute"

definition signCaptchaPayload :: "hmac \<Rightarrow> bytes \<Rightarrow> string \<Rightarrow> string" where
  "signCaptchaPayload hm csrfSecret payload =
     raw_url_encode payload @ ''.'' @ raw_url_encode (hm csrfSecret payload)"

text \<open>The two random bytes, or the failure to read them.\<close>

definition generateSimpleCaptcha :: "hmac \<Rightarrow> bytes \<Rightarrow> (char \<times> char) option \<Rightarrow> instant \<Rightarrow> simple_captcha option" where
  "generateSimpleCaptcha hm csrfSecret draw now =
     (case draw of
        None \<Rightarrow> None
      | Some (x, y) \<Rightarrow>
          let a = int (of_char x mod 9) + 1;
              b = int (of_char y mod 9) + 1;
              payload = show_int (a + b) @ '':'' @ show_int (unix (now + captchaTTL))
          in Some \<lparr>sc_Question = ''What is '' @ show_int a @ '' + '' @ show_int b @ ''?'',
                   sc_Token = signCaptchaPayload hm csrfSecret payload\<rparr>)"

definition validateSimpleCaptcha :: "hmac \<Rightarrow> bytes \<Rightarrow> instant \<Rightarrow> string \<Rightarrow> string \<Rightarrow> bool" where
  "validateSimpleCaptcha hm csrfSecret now token answer =
     (case split2 CHR ''.'' token of
        (p0, Some p1) \<Rightarrow>
          (case (raw_url_decode p0, raw_url_decode p1) of
             (Some payload, Some sig) \<Rightarrow>
               if sig \<noteq> hm csrfSecret payload then False
               else (case split2 CHR '':'' payload of
                       (want, Some e) \<Rightarrow>
                         (case ParseInt e of
                            (expiry, None) \<Rightarrow>
                              if unix now > expiry then False
                              else let got = trim_space answer
                                   in got \<noteq> [] \<and> trim_space want = got
                          | (_, Some _) \<Rightarrow> False)
                     | (_, None) \<Rightarrow> False)
           | _ \<Rightarrow> False)
      | (_, None) \<Rightarrow> False)"

lemma trim_show_int: "trim_space (show_int k) = show_int k"
proof (rule trim_space_plain)
  show "show_int k \<noteq> []" using show_nat_head[of "nat k"] show_nat_head[of "nat (- k)"] by (auto simp: show_int_def)
  then show "plain_char (hd (show_int k))" "plain_char (last (show_int k))"
    using plain_show_int hd_in_set last_in_set by blast+
qed

lemma show_int_no_colon: "CHR '':'' \<notin> set (show_int k)"
  using show_nat_digits[of "CHR '':''" "nat k"] show_nat_digits[of "CHR '':''" "nat (- k)"] by (auto simp: show_int_def)

lemma signed_payload:
  assumes "in_int64 e"
  shows "validateSimpleCaptcha hm s now (signCaptchaPayload hm s (show_int k @ '':'' @ show_int e)) answer \<longleftrightarrow>
    unix now \<le> e \<and> trim_space answer = show_int k"
proof -
  let ?p = "show_int k @ '':'' @ show_int e"
  have t: "split2 CHR ''.'' (signCaptchaPayload hm s ?p) = (raw_url_encode ?p, Some (raw_url_encode (hm s ?p)))"
    using split2_join[OF raw_url_no_dot] by (simp add: signCaptchaPayload_def)
  have c: "split2 CHR '':'' ?p = (show_int k, Some (show_int e))"
    using split2_join[OF show_int_no_colon] by simp
  have "show_int k \<noteq> []" using show_nat_head[of "nat k"] show_nat_head[of "nat (- k)"] by (auto simp: show_int_def)
  then show ?thesis
    unfolding validateSimpleCaptcha_def t prod.case option.case raw_url_roundtrip c ParseInt_show_int[OF assms]
    by (auto simp: trim_show_int Let_def)
qed

text \<open>The captcha accepts exactly the right answer in time: the token of a generated challenge is
  accepted with an answer, for ten minutes, if and only if the answer, without surrounding
  blanks, is the sum of the two numbers of the question, both between 1 and 9.\<close>

theorem captcha_exact:
  assumes "generateSimpleCaptcha hm secret (Some (x, y)) t0 = Some c" and "in_int64 (unix (t0 + captchaTTL))"
  shows "\<exists>a b. 1 \<le> a \<and> a \<le> 9 \<and> 1 \<le> b \<and> b \<le> 9 \<and>
    sc_Question c = ''What is '' @ show_int a @ '' + '' @ show_int b @ ''?'' \<and>
    (validateSimpleCaptcha hm secret now (sc_Token c) answer \<longleftrightarrow>
       unix now \<le> unix (t0 + captchaTTL) \<and> trim_space answer = show_int (a + b))"
proof -
  let ?a = "int (of_char x mod 9) + 1" and ?b = "int (of_char y mod 9) + 1"
  have c: "c = \<lparr>sc_Question = ''What is '' @ show_int ?a @ '' + '' @ show_int ?b @ ''?'',
      sc_Token = signCaptchaPayload hm secret (show_int (?a + ?b) @ '':'' @ show_int (unix (t0 + captchaTTL)))\<rparr>"
    using assms(1) by (simp add: generateSimpleCaptcha_def Let_def)
  have "of_char x mod 9 < (9 :: nat)" "of_char y mod 9 < (9 :: nat)" by simp_all
  then have "1 \<le> ?a" "?a \<le> 9" "1 \<le> ?b" "?b \<le> 9" by linarith+
  with signed_payload[OF assms(2), of hm secret now "?a + ?b" answer] show ?thesis
    unfolding c simple_captcha.simps by blast
qed

lemma captcha_exact_witness:
  "\<exists>c a b. generateSimpleCaptcha (\<lambda>k m. k @ m) ''s'' (Some (CHR 0x02, CHR 0x0B)) 0 = Some c \<and>
     (validateSimpleCaptcha (\<lambda>k m. k @ m) ''s'' (5 * Minute) (sc_Token c) '' 6 '' \<longleftrightarrow> trim_space '' 6 '' = show_int (a + b))"
proof -
  obtain c where c: "generateSimpleCaptcha (\<lambda>k m. k @ m) ''s'' (Some (CHR 0x02, CHR 0x0B)) 0 = Some c"
    by (simp add: generateSimpleCaptcha_def Let_def)
  have "in_int64 (unix (0 + captchaTTL))"
    by (simp add: captchaTTL_def Minute_def unix_def Second_def min_int64_def max_int64_def)
  from captcha_exact[OF c this, of "5 * Minute" "'' 6 ''"] c show ?thesis
    by (auto simp: captchaTTL_def Minute_def unix_def Second_def)
qed

end
