(* ===== verification/Security_Store.thy ===== *)
theory Security_Store
  imports Database_Schema Go_Stdlib Go_Text
begin

section \<open>Security reports: rows and sealing\<close>

text \<open>
  The statements of \<^verbatim>\<open>src/src/database/security_reports.go\<close>, the authenticated encryption of
  \<^verbatim>\<open>src/src/common/secretbox/secretbox.go\<close> and the choice between PGP and AES of
  \<^verbatim>\<open>src/src/server/pgp_keypair.go\<close>. The ciphers themselves are arguments.
\<close>

subsection \<open>Rows\<close>

definition SecStatusReceived :: string where "SecStatusReceived = ''Received''"
definition SecStatusTriaged :: string where "SecStatusTriaged = ''Triaged''"
definition SecStatusConfirmed :: string where "SecStatusConfirmed = ''Confirmed''"
definition SecStatusPatching :: string where "SecStatusPatching = ''Patching''"
definition SecStatusDisclosed :: string where "SecStatusDisclosed = ''Disclosed''"
definition SecStatusWontFix :: string where "SecStatusWontFix = ''Won'' @ [CHR 0x27] @ ''t Fix''"

definition CreateSecurityReport :: "bool \<Rightarrow> instant \<Rightarrow> security_report \<Rightarrow> db \<Rightarrow> db_error + db" where
  "CreateSecurityReport fault now r d =
     (let row = r\<lparr>r_CreatedAt := now, r_UpdatedAt := now,
                  r_Status := (if r_Status r = [] then SecStatusReceived else r_Status r),
                  r_DisclosedAt := None, r_TokenLastUsed := None\<rparr>
      in if fault then Inl EngineError
         else if row_by r_TrackingID (r_TrackingID r) (security_reports d) \<noteq> None then Inl ConstraintError
         else Inr (d\<lparr>security_reports := security_reports d @ [row]\<rparr>))"

definition GetSecurityReport :: "bool \<Rightarrow> string \<Rightarrow> db \<Rightarrow> db_error + security_report option" where
  "GetSecurityReport fault trackingID d =
     (if fault then Inl EngineError else Inr (row_by r_TrackingID trackingID (security_reports d)))"

definition MarkSecurityReportTokenUsed :: "bool \<Rightarrow> string \<Rightarrow> instant \<Rightarrow> db \<Rightarrow> db_error + db" where
  "MarkSecurityReportTokenUsed fault trackingID at d =
     (if fault then Inl EngineError
      else Inr (d\<lparr>security_reports := update_where (\<lambda>r. r_TrackingID r = trackingID)
                    (\<lambda>r. r\<lparr>r_TokenLastUsed := Some at\<rparr>) (security_reports d)\<rparr>))"

definition UpdateSecurityReportStatus :: "bool \<Rightarrow> instant \<Rightarrow> string \<Rightarrow> string \<Rightarrow> string \<Rightarrow> db \<Rightarrow> db_error + db" where
  "UpdateSecurityReportStatus fault now trackingID status comment d =
     (if fault then Inl EngineError
      else Inr (d\<lparr>security_reports := update_where (\<lambda>r. r_TrackingID r = trackingID)
            (\<lambda>r. r\<lparr>r_Status := status, r_MaintainerComment := comment, r_UpdatedAt := now,
                   r_DisclosedAt := (if status = SecStatusDisclosed then Some now else r_DisclosedAt r)\<rparr>)
            (security_reports d)\<rparr>))"

text \<open>The columns the listing reads; \<^verbatim>\<open>NULL\<close> sorts below every time.\<close>

record ack_row =
  ak_TrackingID :: string
  ak_Status :: string
  ak_Severity :: string
  ak_Component :: string
  ak_CreditPreference :: string
  ak_CreditName :: string
  ak_DisclosedAt :: "instant option"

definition scan_ack :: "security_report \<Rightarrow> ack_row" where
  "scan_ack r = \<lparr>ak_TrackingID = r_TrackingID r, ak_Status = r_Status r, ak_Severity = r_Severity r,
     ak_Component = r_Component r, ak_CreditPreference = r_CreditPreference r, ak_CreditName = r_CreditName r,
     ak_DisclosedAt = r_DisclosedAt r\<rparr>"

definition ack_listed :: "security_report \<Rightarrow> bool" where
  "ack_listed r \<longleftrightarrow> r_Status r = SecStatusDisclosed \<and> r_CreditPreference r \<in> {''name'', ''handle'', ''anonymous''}"

definition ListDisclosedSecurityReports :: "bool \<Rightarrow> db \<Rightarrow> db_error + ack_row list" where
  "ListDisclosedSecurityReports fault d =
     (if fault then Inl EngineError
      else let rows = filter ack_listed (security_reports d)
           in Inr (map scan_ack (order_desc (\<lambda>r. the (r_DisclosedAt r)) (filter (\<lambda>r. r_DisclosedAt r \<noteq> None) rows)
                @ filter (\<lambda>r. r_DisclosedAt r = None) rows)))"

lemma report_ops_schema:
  "schema_ok d \<Longrightarrow> CreateSecurityReport f now r d = Inr d' \<Longrightarrow> schema_ok d'"
  "schema_ok d \<Longrightarrow> MarkSecurityReportTokenUsed f k t d = Inr d' \<Longrightarrow> schema_ok d'"
  "schema_ok d \<Longrightarrow> UpdateSecurityReportStatus f now k s c d = Inr d' \<Longrightarrow> schema_ok d'"
  unfolding schema_ok_def CreateSecurityReport_def MarkSecurityReportTokenUsed_def UpdateSecurityReportStatus_def
  by (auto simp: Let_def row_by_None_iff unique_key_update split: if_splits)

text \<open>A disclosed report always has the time of its disclosure, and keeps one whatever becomes of its
  status.\<close>

definition disclosure_dated :: "db \<Rightarrow> bool" where
  "disclosure_dated d \<longleftrightarrow>
     (\<forall>r \<in> set (security_reports d). r_Status r = SecStatusDisclosed \<longrightarrow> r_DisclosedAt r \<noteq> None)"

lemma report_ops_dated:
  "disclosure_dated d \<Longrightarrow> r_Status r = [] \<Longrightarrow> CreateSecurityReport f now r d = Inr d' \<Longrightarrow> disclosure_dated d'"
  "disclosure_dated d \<Longrightarrow> MarkSecurityReportTokenUsed f k t d = Inr d' \<Longrightarrow> disclosure_dated d'"
  "disclosure_dated d \<Longrightarrow> UpdateSecurityReportStatus f now k s c d = Inr d' \<Longrightarrow> disclosure_dated d'"
  unfolding disclosure_dated_def CreateSecurityReport_def MarkSecurityReportTokenUsed_def UpdateSecurityReportStatus_def
  by (auto simp: Let_def sql_simps SecStatusReceived_def SecStatusDisclosed_def split: if_splits)

lemma listed_rows:
  "ListDisclosedSecurityReports False d = Inr acks \<Longrightarrow>
   set acks = scan_ack ` {r \<in> set (security_reports d). ack_listed r}"
proof -
  let ?rows = "filter ack_listed (security_reports d)"
  assume "ListDisclosedSecurityReports False d = Inr acks"
  then have "set acks = scan_ack ` ({r \<in> set ?rows. r_DisclosedAt r \<noteq> None} \<union> {r \<in> set ?rows. r_DisclosedAt r = None})"
    by (auto simp: ListDisclosedSecurityReports_def Let_def set_order_desc)
  also have "{r \<in> set ?rows. r_DisclosedAt r \<noteq> None} \<union> {r \<in> set ?rows. r_DisclosedAt r = None} = set ?rows" by auto
  finally show ?thesis by simp
qed

subsection \<open>Sealing\<close>

record ciphers =
  ci_gcm_seal :: "bytes \<Rightarrow> bytes \<Rightarrow> bytes \<Rightarrow> bytes"             \<comment> \<open>key, nonce, plaintext\<close>
  ci_gcm_open :: "bytes \<Rightarrow> bytes \<Rightarrow> bytes \<Rightarrow> bytes option"
  ci_pgp_encrypt :: "string \<Rightarrow> bytes \<Rightarrow> string option"
  ci_pgp_decrypt :: "string \<Rightarrow> string \<Rightarrow> bytes option"

datatype box_error = ErrKeySize | ErrNonce | ErrShortCiphertext | ErrOpen | ErrNoPrivateKey

definition nonce_size :: nat where "nonce_size = 12"

definition Seal :: "ciphers \<Rightarrow> bytes option \<Rightarrow> bytes \<Rightarrow> bytes \<Rightarrow> box_error + bytes" where
  "Seal C draw key plaintext =
     (if length key \<noteq> 32 then Inl ErrKeySize
      else case draw of
             None \<Rightarrow> Inl ErrNonce
           | Some nonce \<Rightarrow> Inr (nonce @ ci_gcm_seal C key nonce plaintext))"

definition Open :: "ciphers \<Rightarrow> bytes \<Rightarrow> bytes \<Rightarrow> box_error + bytes" where
  "Open C key data =
     (if length key \<noteq> 32 then Inl ErrKeySize
      else if length data < nonce_size then Inl ErrShortCiphertext
      else case ci_gcm_open C key (take nonce_size data) (drop nonce_size data) of
             None \<Rightarrow> Inl ErrOpen
           | Some p \<Rightarrow> Inr p)"

text \<open>\<^verbatim>\<open>pub\<close> is the project's public key, empty when there is none; \<^verbatim>\<open>privs\<close> are the private keys that can be
  read, the current one before the one that was rotated out.\<close>

definition encryptSecurityReport ::
  "ciphers \<Rightarrow> string \<Rightarrow> bytes option \<Rightarrow> bytes \<Rightarrow> bytes \<Rightarrow> box_error + bytes \<times> string" where
  "encryptSecurityReport C pub draw aesKey body =
     (case (if pub \<noteq> [] then ci_pgp_encrypt C pub body else None) of
        Some msg \<Rightarrow> Inr (msg, ''pgp'')
      | None \<Rightarrow>
          (case Seal C draw aesKey body of
             Inl e \<Rightarrow> Inl e
           | Inr sealed \<Rightarrow> Inr (sealed, ''aes-256-gcm'')))"

fun try_decrypt :: "ciphers \<Rightarrow> string list \<Rightarrow> string \<Rightarrow> box_error + bytes" where
  "try_decrypt C [] msg = Inl ErrNoPrivateKey"
| "try_decrypt C (priv # privs) msg =
     (case ci_pgp_decrypt C priv msg of Some p \<Rightarrow> Inr p | None \<Rightarrow> try_decrypt C privs msg)"

definition decryptSecurityReport :: "ciphers \<Rightarrow> string list \<Rightarrow> bytes \<Rightarrow> security_report \<Rightarrow> box_error + bytes" where
  "decryptSecurityReport C privs aesKey rec =
     (if r_EncMethod rec = ''pgp'' then try_decrypt C privs (r_EncryptedBody rec)
      else Open C aesKey (r_EncryptedBody rec))"

text \<open>What is assumed of the ciphers: a sealed text opens with its key and nonce, a message for a public
  key opens with its private key, and no other private key opens it to something else.\<close>

definition ciphers_ok :: "ciphers \<Rightarrow> string \<Rightarrow> string \<Rightarrow> bool" where
  "ciphers_ok C pub priv \<longleftrightarrow>
     (\<forall>k n p. ci_gcm_open C k n (ci_gcm_seal C k n p) = Some p) \<and>
     (\<forall>p m. ci_pgp_encrypt C pub p = Some m \<longrightarrow>
        ci_pgp_decrypt C priv m = Some p \<and> (\<forall>k q. ci_pgp_decrypt C k m = Some q \<longrightarrow> q = p))"

lemma try_decrypt_finds:
  assumes "priv \<in> set privs" "ci_pgp_decrypt C priv m = Some p" "\<And>k q. ci_pgp_decrypt C k m = Some q \<Longrightarrow> q = p"
  shows "try_decrypt C privs m = Inr p"
  using assms(1)
proof (induction privs)
  case (Cons k ks)
  show ?case
  proof (cases "ci_pgp_decrypt C k m")
    case None
    then have "priv \<noteq> k" using assms(2) by auto
    with Cons None show ?thesis by simp
  next
    case (Some q)
    with assms(3)[OF Some] show ?thesis by simp
  qed
qed simp

lemma report_opens:
  assumes "ciphers_ok C pub priv" "encryptSecurityReport C pub (Some nonce) aesKey body = Inr (sealed, method)"
    and "length nonce = nonce_size" "priv \<in> set privs"
    and "r_EncryptedBody rec = sealed" "r_EncMethod rec = method"
  shows "decryptSecurityReport C privs aesKey rec = Inr body"
proof (cases "if pub \<noteq> [] then ci_pgp_encrypt C pub body else None")
  case (Some msg)
  then have "ci_pgp_encrypt C pub body = Some msg" by (simp split: if_splits)
  with assms(1) have "try_decrypt C privs msg = Inr body"
    unfolding ciphers_ok_def by (intro try_decrypt_finds[OF assms(4)]) blast+
  with Some assms show ?thesis by (simp add: encryptSecurityReport_def decryptSecurityReport_def)
next
  case None
  with assms(2) have s: "length aesKey = 32" "sealed = nonce @ ci_gcm_seal C aesKey nonce body" "method = ''aes-256-gcm''"
    by (auto simp: encryptSecurityReport_def Seal_def split: if_splits)
  have "ci_gcm_open C aesKey nonce (ci_gcm_seal C aesKey nonce body) = Some body"
    using assms(1) by (simp add: ciphers_ok_def)
  with s assms(3,5,6) show ?thesis by (simp add: decryptSecurityReport_def Open_def)
qed

text \<open>A sealed report can be read again: whichever of the two ways it was sealed, it opens to the
  text that was submitted, with the encryption key, or with the private key of the pair that
  was current then, also after it was rotated out.\<close>

theorem report_seal_roundtrip:
  assumes "ciphers_ok C pub priv" "encryptSecurityReport C pub (Some nonce) aesKey body = Inr (sealed, method)"
    and "length nonce = nonce_size" "priv \<in> set privs"
    and "r_EncryptedBody rec = sealed" "r_EncMethod rec = method"
  shows "decryptSecurityReport C privs aesKey rec = Inr body"
  using assms by (rule report_opens)

definition sample_ciphers :: ciphers where
  "sample_ciphers = \<lparr>ci_gcm_seal = (\<lambda>k n p. k @ p),
     ci_gcm_open = (\<lambda>k n c. if take (length k) c = k then Some (drop (length k) c) else None),
     ci_pgp_encrypt = (\<lambda>pub p. Some (pub @ p)),
     ci_pgp_decrypt = (\<lambda>priv m. if priv = ''private'' \<and> take 3 m = ''pub'' then Some (drop 3 m) else None)\<rparr>"

lemma report_seal_roundtrip_witness:
  "decryptSecurityReport sample_ciphers [''newer'', ''private''] []
     \<lparr>r_TrackingID = [], r_Status = [], r_Severity = [], r_Component = [], r_EncryptedBody = ''pubsecret'', r_EncMethod = ''pgp'',
      r_CreditPreference = [], r_CreditName = [], r_TokenHash = [], r_MaintainerComment = [], r_DisclosureDays = 0,
      r_CreatedAt = 0, r_UpdatedAt = 0, r_DisclosedAt = None, r_TokenLastUsed = None\<rparr> = Inr ''secret''"
proof (rule report_seal_roundtrip)
  show "ciphers_ok sample_ciphers ''pub'' ''private''" by (auto simp: ciphers_ok_def sample_ciphers_def split: if_splits)
  show "encryptSecurityReport sample_ciphers ''pub'' (Some (replicate 12 CHR ''n'')) [] ''secret'' = Inr (''pubsecret'', ''pgp'')"
    by (simp add: encryptSecurityReport_def sample_ciphers_def)
qed (simp_all add: nonce_size_def)

end
