(* ===== verification/Security_Reports.thy ===== *)
theory Security_Reports
  imports Security_Access Security_Store Config_Validate Rate_Limit
begin

section \<open>Security reports: submission\<close>

text \<open>
  \<^verbatim>\<open>src/src/server/security_report.go\<close> and \<^verbatim>\<open>security_log.go\<close>, and the part of \<^verbatim>\<open>handleContactPost\<close> in
  \<^verbatim>\<open>server.go\<close> that routes a submission to them. What leaves the handler besides the reply and
  the row (log lines, audit entries, the webhook message and the mails) is a list of events.
  The template that renders the contact page is left out: a reply is its status and message.
\<close>

subsection \<open>Cleaning up the component\<close>

fun keep_component :: "string \<Rightarrow> string \<Rightarrow> string" where
  "keep_component [] b = b"
| "keep_component (c # s) b =
     (let n = (of_char c :: nat);
          b = (if (97 \<le> n \<and> n \<le> 122) \<or> (48 \<le> n \<and> n \<le> 57) \<or> c = CHR ''-'' \<or> c = CHR ''_'' \<or> c = CHR ''/'' \<or> c = CHR ''.''
               then b @ [c] else if c = CHR '' '' then b @ ''-'' else b)
      in if length b \<ge> 64 then b else keep_component s b)"

definition trim_dashes :: "string \<Rightarrow> string" where
  "trim_dashes s = rev (dropWhile (\<lambda>c. c = CHR ''-'') (rev (dropWhile (\<lambda>c. c = CHR ''-'') s)))"

definition sanitizeComponent :: "string \<Rightarrow> string" where
  "sanitizeComponent s =
     (let out = trim_dashes (keep_component (trim_space (to_lower s)) [])
      in if out = [] then ''unspecified'' else out)"

definition component_char :: "char \<Rightarrow> bool" where
  "component_char c \<longleftrightarrow> (97 \<le> (of_char c :: nat) \<and> (of_char c :: nat) \<le> 122) \<or>
     (48 \<le> (of_char c :: nat) \<and> (of_char c :: nat) \<le> 57) \<or>
     c = CHR ''-'' \<or> c = CHR ''_'' \<or> c = CHR ''/'' \<or> c = CHR ''.''"

lemma keep_component_spec:
  "list_all component_char b \<Longrightarrow> length b < 64 \<Longrightarrow>
   list_all component_char (keep_component s b) \<and> length (keep_component s b) \<le> 64"
proof (induction s arbitrary: b)
  case (Cons c s)
  let ?b = "if component_char c then b @ [c] else if c = CHR '' '' then b @ ''-'' else b"
  have step: "keep_component (c # s) b = (if length ?b \<ge> 64 then ?b else keep_component s ?b)"
    by (simp add: Let_def component_char_def)
  have "component_char CHR ''-''" by (simp add: component_char_def)
  then have ok: "list_all component_char ?b" using Cons.prems(1) by simp
  have "length ?b \<le> 64" using Cons.prems(2) by simp
  with Cons.IH[OF ok] ok show ?case unfolding step by simp
qed simp

lemma trim_dashes_spec:
  "set (trim_dashes s) \<subseteq> set s" "length (trim_dashes s) \<le> length s"
  "trim_dashes s \<noteq> [] \<Longrightarrow> hd (trim_dashes s) \<noteq> CHR ''-'' \<and> last (trim_dashes s) \<noteq> CHR ''-''"
proof -
  let ?P = "\<lambda>c. c = CHR ''-''"
  let ?t = "dropWhile ?P s"
  show "set (trim_dashes s) \<subseteq> set s" by (auto simp: trim_dashes_def dest!: set_dropWhileD)
  show "length (trim_dashes s) \<le> length s"
    using length_dropWhile_le[of ?P s] length_dropWhile_le[of ?P "rev ?t"] by (simp add: trim_dashes_def)
  assume ne: "trim_dashes s \<noteq> []"
  then have l: "last (trim_dashes s) \<noteq> CHR ''-''"
    using hd_dropWhile[of ?P "rev ?t"] by (simp add: trim_dashes_def last_rev)
  obtain z where z: "?t = trim_dashes s @ z"
    using takeWhile_dropWhile_id[of ?P "rev ?t"] unfolding trim_dashes_def
    by (metis rev_append rev_rev_ident)
  then have "hd ?t = hd (trim_dashes s)" using ne by simp
  moreover have "?t \<noteq> []" using z ne by simp
  ultimately show "hd (trim_dashes s) \<noteq> CHR ''-'' \<and> last (trim_dashes s) \<noteq> CHR ''-''"
    using hd_dropWhile[of ?P s] l by simp
qed

text \<open>Whatever a researcher types as the affected component, what is stored, logged and sent to the
  webhook is a short token: between 1 and 64 characters, all of them lower-case letters,
  digits, dash, underscore, slash or dot, neither beginning nor ending in a dash.\<close>

theorem sanitized_component:
  "sanitizeComponent s \<noteq> [] \<and> length (sanitizeComponent s) \<le> 64 \<and>
   list_all component_char (sanitizeComponent s) \<and>
   hd (sanitizeComponent s) \<noteq> CHR ''-'' \<and> last (sanitizeComponent s) \<noteq> CHR ''-''"
proof -
  let ?k = "keep_component (trim_space (to_lower s)) []"
  have k: "list_all component_char ?k \<and> length ?k \<le> 64" by (rule keep_component_spec) simp_all
  then have "list_all component_char (trim_dashes ?k)" "length (trim_dashes ?k) \<le> 64"
    using trim_dashes_spec(1,2)[of ?k] by (auto simp: list_all_iff)
  moreover have "list_all component_char ''unspecified''" by (simp add: component_char_def)
  ultimately show ?thesis
    using trim_dashes_spec(3)[of ?k] by (cases "trim_dashes ?k = []") (simp_all add: sanitizeComponent_def Let_def)
qed

subsection \<open>The security log\<close>

definition log_rune :: "char \<Rightarrow> char" where
  "log_rune c = (if (of_char c :: nat) < 32 then CHR '' '' else c)"

definition logfmtValue :: "(string \<Rightarrow> string) \<Rightarrow> string \<Rightarrow> string" where
  "logfmtValue quote v =
     (let v = map log_rune (utf8_coerce v)
      in if v = [] then [CHR 0x22, CHR 0x22]
         else if contains_any v ('' '' @ [CHR 0x22] @ ''='') then quote v
         else v)"

definition log_line :: "(string \<Rightarrow> string) \<Rightarrow> string \<Rightarrow> string \<Rightarrow> (string \<times> string) list \<Rightarrow> string" where
  "log_line quote stamp event kvs =
     stamp @ '' [security] event='' @ event @
     concat (map (\<lambda>(k, v). '' '' @ k @ ''='' @ logfmtValue quote v) kvs) @ [CHR 0x0A]"

text \<open>Nobody can write lines of their own into the security log: whatever the values logged, one
  event is one line. Assumed is what \<^verbatim>\<open>strconv.Quote\<close> documents, that its output is printable,
  and that the time stamp, the event code and the keys, which the program itself writes, have
  no line break.\<close>

theorem security_log_one_line:
  assumes quote: "\<And>v. CHR 0x0A \<notin> set (quote v)"
    and own: "CHR 0x0A \<notin> set stamp" "CHR 0x0A \<notin> set event" "\<forall>(k, v) \<in> set kvs. CHR 0x0A \<notin> set k"
  shows "\<exists>text. log_line quote stamp event kvs = text @ [CHR 0x0A] \<and> CHR 0x0A \<notin> set text"
proof -
  have val: "CHR 0x0A \<notin> set (logfmtValue quote v)" for v
  proof -
    have "log_rune c \<noteq> CHR 0x0A" for c by (auto simp: log_rune_def)
    then have "CHR 0x0A \<notin> set (map log_rune (utf8_coerce v))" by (metis imageE list.set_map)
    then show ?thesis using quote by (auto simp: logfmtValue_def Let_def)
  qed
  have "CHR 0x0A \<notin> set (concat (map (\<lambda>(k, v). '' '' @ k @ ''='' @ logfmtValue quote v) kvs))"
    using own(3) val by (auto split: prod.splits)
  with own(1,2) show ?thesis
    by (intro exI[of _ "stamp @ '' [security] event='' @ event @
        concat (map (\<lambda>(k, v). '' '' @ k @ ''='' @ logfmtValue quote v) kvs)"])
      (simp add: log_line_def)
qed

lemma security_log_one_line_witness:
  "\<exists>text. log_line (\<lambda>v. ''q'') ''now'' ''x'' [(''ip'', ''a'' @ [CHR 0x0A] @ ''fake'')] = text @ [CHR 0x0A] \<and> CHR 0x0A \<notin> set text"
  by (rule security_log_one_line) simp_all

subsection \<open>The encryption key and random names\<close>

fun hex_decode :: "string \<Rightarrow> bytes option" where
  "hex_decode [] = Some []"
| "hex_decode [c] = None"
| "hex_decode (a # b # s) =
     (case (hex_val a, hex_val b, hex_decode s) of
        (Some x, Some y, Some bs) \<Rightarrow> Some (char_of (16 * x + y) # bs)
      | _ \<Rightarrow> None)"

datatype key_error = NotConfigured | NotHex | BadKeyLength

definition EncryptionKey :: "config \<Rightarrow> key_error + bytes" where
  "EncryptionKey c =
     (if cf_EncryptionKey c = [] then Inl NotConfigured
      else case hex_decode (cf_EncryptionKey c) of
             None \<Rightarrow> Inl NotHex
           | Some b \<Rightarrow> if length b \<noteq> 32 then Inl BadKeyLength else Inr b)"

lemma hex_decode_encode: "hex_decode (hex_encode bs) = Some bs"
proof (induction bs)
  case (Cons b bs)
  have "of_char b div 16 < (16 :: nat)" "of_char b mod 16 < (16 :: nat)" by (simp_all add: less_mult_imp_div_less)
  moreover have "char_of (16 * (of_char b div 16) + of_char b mod 16 :: nat) = b" by simp
  ultimately show ?case using Cons by (simp add: hex_encode_def hex_byte_def hex_val_digit)
qed (simp add: hex_encode_def)

definition randomHex :: "nat \<Rightarrow> bytes option \<Rightarrow> string option" where
  "randomHex n draw = map_option (\<lambda>b. take n (hex_encode b)) draw"

subsection \<open>The report\<close>

definition securityComponents :: "string list" where
  "securityComponents = [''api'', ''frontend'', ''cli'', ''paste'', ''storage'', ''config'', ''scheduler'', ''email'', ''other'']"

definition validSeverities :: "string list" where
  "validSeverities = [''Critical'', ''High'', ''Medium'', ''Low'', ''Informational'']"

definition validCreditPrefs :: "string list" where
  "validCreditPrefs = [''name'', ''handle'', ''no'', ''anonymous'']"

record report_fields =
  rf_trackingID :: string
  rf_timestamp :: string
  rf_name :: string
  rf_email :: string
  rf_gpg :: string
  rf_component :: string
  rf_endpoint :: string
  rf_severity :: string
  rf_summary :: string
  rf_steps :: string
  rf_impact :: string
  rf_suggestedFix :: string
  rf_cveRequested :: bool
  rf_disclosureDays :: int
  rf_creditPref :: string
  rf_creditName :: string
  rf_userAgent :: string
  rf_remoteIP :: string
  rf_appVersion :: string
  rf_commitHash :: string

definition nl :: string where "nl = [CHR 0x0A]"

definition yes_no :: "bool \<Rightarrow> string" where "yes_no b = (if b then ''yes'' else ''no'')"

definition buildReportBody :: "report_fields \<Rightarrow> string" where
  "buildReportBody f =
     ''Tracking ID: '' @ rf_trackingID f @ nl @
     ''Received: '' @ rf_timestamp f @ nl @ nl @
     ''Reporter: '' @ rf_name f @ '' <'' @ rf_email f @ ''>'' @ nl @
     (if rf_gpg f \<noteq> [] then ''Reporter PGP: '' @ rf_gpg f @ nl else []) @
     ''Credit preference: '' @ rf_creditPref f @
     (if rf_creditName f \<noteq> [] then '' ('' @ rf_creditName f @ '')'' else []) @ nl @ nl @
     ''Severity (self-assessed): '' @ rf_severity f @ nl @
     ''Affected component: '' @ rf_component f @ nl @
     (if rf_endpoint f \<noteq> [] then ''Affected endpoint: '' @ rf_endpoint f @ nl else []) @
     ''CVE requested: '' @ yes_no (rf_cveRequested f) @ nl @
     ''Requested disclosure window: '' @ show_int (rf_disclosureDays f) @ '' days'' @ nl @ nl @
     ''Summary:'' @ nl @ rf_summary f @ nl @ nl @
     ''Steps to reproduce:'' @ nl @ rf_steps f @ nl @ nl @
     ''Impact:'' @ nl @ rf_impact f @ nl @ nl @
     (if rf_suggestedFix f \<noteq> [] then ''Suggested fix:'' @ nl @ rf_suggestedFix f @ nl @ nl else []) @
     ''-- triage metadata --'' @ nl @
     ''app_version: '' @ rf_appVersion f @ nl @
     ''commit_hash: '' @ rf_commitHash f @ nl @
     ''request_user_agent: '' @ rf_userAgent f @ nl @
     ''request_ip: '' @ rf_remoteIP f @ nl"

subsection \<open>What leaves the handler\<close>

datatype event =
    SecurityLog string "(string \<times> string) list"
  | AuditEntry string string string string "(string \<times> string) list"  \<comment> \<open>event, severity, result, target, details\<close>
  | RoleWebhook string string string string string             \<comment> \<open>role, event, subject, body, severity\<close>
  | MaintainerMail string string string "(string \<times> bytes) option" \<comment> \<open>to, subject, body, attachment\<close>
  | AckMail string "(string \<times> string) list"                    \<comment> \<open>the template, with its variables\<close>
  | SealedAckMail string string string                         \<comment> \<open>to, subject, armoured text\<close>

record server =
  sv_cfg :: config
  sv_siteTitle :: string
  sv_installSecret :: bytes
  sv_csrfSecret :: bytes
  sv_hmac :: hmac
  sv_ciphers :: ciphers
  sv_pub :: string                       \<comment> \<open>the project's public key, if any\<close>
  sv_version :: string
  sv_commitID :: string
  sv_baseURL :: string
  sv_reportEmail :: string               \<comment> \<open>SecurityReportEmail\<close>
  sv_mail :: bool                        \<comment> \<open>the mailer is enabled\<close>
  sv_sent :: "event \<Rightarrow> bool"             \<comment> \<open>the mail was accepted\<close>
  sv_key_ok :: "string \<Rightarrow> bool"          \<comment> \<open>pgp.FingerprintFromPublic succeeds\<close>
  sv_get :: "string \<Rightarrow> bytes option"     \<comment> \<open>the body of a key fetched through the guarded client\<close>
  sv_render_ack :: "(string \<times> string) list \<Rightarrow> (string \<times> string) option"

record submission_env =
  se_now :: instant
  se_remoteAddr :: string
  se_track :: "bytes option"
  se_token :: "bytes option"
  se_nonce :: "bytes option"
  se_fault :: bool

subsection \<open>The researcher's key\<close>

definition maxResearcherKeyBytes :: nat where "maxResearcherKeyBytes = 1048576"

definition pgpPublicKeyHeader :: string where
  "pgpPublicKeyHeader = ''-----BEGIN PGP PUBLIC KEY BLOCK-----''"

definition fetchResearcherPubKey :: "golib \<Rightarrow> server \<Rightarrow> string \<Rightarrow> string option" where
  "fetchResearcherPubKey L s src0 =
     (let src = trim_space src0 in
      if src = [] then None
      else if contains src pgpPublicKeyHeader then (if sv_key_ok s src then Some src else None)
      else case lib_url L src of
             None \<Rightarrow> None
           | Some (scheme, host) \<Rightarrow>
               if scheme \<noteq> ''https'' then None
               else case sv_get s src of
                      None \<Rightarrow> None
                    | Some body \<Rightarrow>
                        let key = take maxResearcherKeyBytes body
                        in if contains key pgpPublicKeyHeader \<and> sv_key_ok s key then Some key else None)"

text \<open>An address a dial may go to. The classes are those of \<^verbatim>\<open>net.IP\<close>.\<close>

record ip_class =
  ip_loopback :: bool
  ip_private :: bool
  ip_unspecified :: bool
  ip_link_local_unicast :: bool
  ip_link_local_multicast :: bool
  ip_multicast :: bool

definition isPublicIP :: "ip_class option \<Rightarrow> bool" where
  "isPublicIP ip = (case ip of
     None \<Rightarrow> False
   | Some c \<Rightarrow> \<not> (ip_loopback c \<or> ip_private c \<or> ip_unspecified c \<or> ip_link_local_unicast c \<or>
       ip_link_local_multicast c \<or> ip_multicast c))"

subsection \<open>Mail\<close>

record email_ctx =
  ec_trackingID :: string
  ec_timestamp :: string
  ec_researcher :: string
  ec_severity :: string
  ec_summary :: string
  ec_component :: string
  ec_cveRequested :: bool
  ec_disclosureDays :: int
  ec_encMethod :: string
  ec_statusToken :: string
  ec_sealed :: bytes
  ec_researcherGPG :: string

definition crlf :: string where "crlf = [CHR 0x0D, CHR 0x0A]"

definition mail_cover :: "server \<Rightarrow> email_ctx \<Rightarrow> string" where
  "mail_cover s c =
     ''SECURITY REPORT RECEIVED'' @ crlf @ crlf @
     ''Received: '' @ ec_timestamp c @ crlf @
     ''Site: '' @ sv_siteTitle s @ '' ('' @ cf_FQDN (sv_cfg s) @ '')'' @ crlf @ crlf @
     ''Tracking ID: '' @ ec_trackingID c @ crlf @
     ''Severity (researcher self-assessment): '' @ ec_severity c @ crlf @
     ''Affected component: '' @ ec_component c @ crlf @
     ''CVE requested: '' @ yes_no (ec_cveRequested c) @ crlf @
     ''Requested disclosure window: '' @ show_int (ec_disclosureDays c) @ '' days'' @ crlf @ crlf"

definition maintainer_mail :: "server \<Rightarrow> email_ctx \<Rightarrow> event list" where
  "maintainer_mail s c =
     (let to = trim_space (sv_reportEmail s);
          subject = ''[Security] '' @ ec_severity c @ '': '' @ ec_summary c
      in if to = [] then []
         else if ec_encMethod c = ''pgp'' then
           [MaintainerMail to subject (mail_cover s c @
              ''The full encrypted report follows. Decrypt it with the project PGP private key.'' @ crlf @ crlf @
              ec_sealed c @ crlf) None]
         else
           [MaintainerMail to subject (mail_cover s c @
              ''No PGP key is configured, so the full report is attached as an'' @ crlf @
              ''AES-256-GCM encrypted file. Decrypt it with the server encryption'' @ crlf @
              ''key (server.security.encryption_key).'' @ crlf)
              (Some (ec_trackingID c @ ''.enc'', ec_sealed c))])"

definition ack_vars :: "server \<Rightarrow> email_ctx \<Rightarrow> (string \<times> string) list" where
  "ack_vars s c =
     [(''timestamp'', ec_timestamp c), (''tracking_id'', ec_trackingID c),
      (''status_url'', sv_baseURL s @ ''/server/security/report/'' @ ec_trackingID c @ ''?token='' @ ec_statusToken c)]"

definition sealed_ack :: "golib \<Rightarrow> server \<Rightarrow> email_ctx \<Rightarrow> event option" where
  "sealed_ack L s c =
     (if trim_space (ec_researcherGPG c) = [] then None
      else case fetchResearcherPubKey L s (ec_researcherGPG c) of
             None \<Rightarrow> None
           | Some pub \<Rightarrow>
               (case sv_render_ack s (ack_vars s c) of
                  None \<Rightarrow> None
                | Some (subject, body) \<Rightarrow>
                    (case ci_pgp_encrypt (sv_ciphers s) pub body of
                       None \<Rightarrow> None
                     | Some armored \<Rightarrow>
                         let m = SealedAckMail (ec_researcher c) subject armored
                         in if sv_sent s m then Some m else None)))"

definition sendSecurityReportEmails :: "golib \<Rightarrow> server \<Rightarrow> email_ctx \<Rightarrow> event list" where
  "sendSecurityReportEmails L s c =
     (if \<not> sv_mail s then []
      else maintainer_mail s c @
           (case sealed_ack L s c of
              Some m \<Rightarrow> [m]
            | None \<Rightarrow> [AckMail (ec_researcher c) (ack_vars s c)]))"

subsection \<open>Submission\<close>

datatype contact_reply =
    ContactError int string        \<comment> \<open>status and message\<close>
  | ReceivedJSON string            \<comment> \<open>the tracking id\<close>
  | ReceivedPage string
  | ContactDisabled
  | StandardForm                   \<comment> \<open>the ordinary contact form goes on\<close>

type_synonym form = "string \<Rightarrow> string option"

definition post :: "form \<Rightarrow> string \<Rightarrow> string" where "post f k = opt_str (f k)"

definition defaultDisclosureDays :: int where "defaultDisclosureDays = 90"

definition disclosure_days :: "form \<Rightarrow> int" where
  "disclosure_days f =
     (let v = trim_space (post f ''disclosure_days'') in
      if v = [] then defaultDisclosureDays
      else case ParseInt v of
             (n, None) \<Rightarrow> if 1 \<le> n \<and> n \<le> 365 then n else defaultDisclosureDays
           | (_, Some _) \<Rightarrow> defaultDisclosureDays)"

definition required_fields :: "string list" where
  "required_fields = [''name'', ''email'', ''component'', ''severity'', ''summary'', ''steps'', ''impact'', ''credit_preference'']"

definition report_invalid :: "server \<Rightarrow> submission_env \<Rightarrow> form \<Rightarrow> string option" where
  "report_invalid s e f =
     (let email = trim_space (post f ''email'') in
      if list_ex (\<lambda>k. trim_space (post f k) = []) required_fields then Some ''Please complete all required fields.''
      else if \<not> contains email ''@'' \<or> contains_any email ('' '' @ [CHR 0x09, CHR 0x0D, CHR 0x0A])
      then Some ''Please enter a valid email address.''
      else if trim_space (post f ''severity'') \<notin> set validSeverities then Some ''Please choose a valid severity.''
      else if trim_space (post f ''credit_preference'') \<notin> set validCreditPrefs
      then Some ''Please choose a valid credit preference.''
      else if \<not> IsTruthy (post f ''agreement'')
      then Some ''You must agree to coordinated disclosure to submit a report.''
      else if cp_Captcha (cf_ContactPage (sv_cfg s)) = ''simple'' \<and>
        \<not> validateSimpleCaptcha (sv_hmac s) (sv_csrfSecret s) (se_now e) (post f ''captcha_token'') (post f ''captcha'')
      then Some ''Captcha answer was incorrect. Please try again.''
      else None)"

definition component_label :: "form \<Rightarrow> string" where
  "component_label f =
     (let c = trim_space (post f ''component''); other = trim_space (post f ''component_other'')
      in if c = ''other'' \<and> other \<noteq> [] then other else c)"

definition report_of :: "golib \<Rightarrow> server \<Rightarrow> submission_env \<Rightarrow> http_request \<Rightarrow> form \<Rightarrow> string \<Rightarrow> report_fields" where
  "report_of L s e r f trackingID =
     \<lparr>rf_trackingID = trackingID, rf_timestamp = lib_rfc3339 L (se_now e), rf_name = trim_space (post f ''name''),
      rf_email = trim_space (post f ''email''), rf_gpg = trim_space (post f ''researcher_gpg''),
      rf_component = component_label f, rf_endpoint = trim_space (post f ''endpoint''),
      rf_severity = trim_space (post f ''severity''), rf_summary = trim_space (post f ''summary''),
      rf_steps = trim_space (post f ''steps''), rf_impact = trim_space (post f ''impact''),
      rf_suggestedFix = trim_space (post f ''suggested_fix''), rf_cveRequested = IsTruthy (post f ''cve_requested''),
      rf_disclosureDays = disclosure_days f, rf_creditPref = trim_space (post f ''credit_preference''),
      rf_creditName = trim_space (post f ''credit_name''), rf_userAgent = user_agent r,
      rf_remoteIP = client_ip (se_remoteAddr e), rf_appVersion = sv_version s, rf_commitHash = sv_commitID s\<rparr>"

definition report_row :: "golib \<Rightarrow> form \<Rightarrow> string \<Rightarrow> string \<Rightarrow> bytes \<Rightarrow> string \<Rightarrow> security_report" where
  "report_row L f trackingID rawToken sealed encMethod =
     (let pref = trim_space (post f ''credit_preference'') in
      \<lparr>r_TrackingID = trackingID, r_Status = [], r_Severity = trim_space (post f ''severity''),
       r_Component = sanitizeComponent (component_label f), r_EncryptedBody = sealed, r_EncMethod = encMethod,
       r_CreditPreference = pref,
       r_CreditName = (if pref = ''anonymous'' \<or> pref = ''no'' then [] else trim_space (post f ''credit_name'')),
       r_TokenHash = hex_encode (lib_sha256 L rawToken), r_MaintainerComment = [], r_DisclosureDays = disclosure_days f,
       r_CreatedAt = zero_time, r_UpdatedAt = zero_time, r_DisclosedAt = None, r_TokenLastUsed = None\<rparr>)"

definition notice_events :: "string \<Rightarrow> string \<Rightarrow> string \<Rightarrow> event list" where
  "notice_events trackingID severity sanitized =
     [RoleWebhook ''admin'' ''admin.security_report_received'' (''Security report received: '' @ trackingID)
        (''A new security report was received. Severity: '' @ severity @ ''; component: '' @ sanitized @
         ''. Decrypt the at-rest report to read the full submission.'') severity,
      SecurityLog ''security.report_received''
        [(''tracking_id'', trackingID), (''severity'', severity), (''component'', sanitized)],
      AuditEntry ''security.report_received'' ''warn'' ''success'' trackingID [(''severity'', severity), (''component'', sanitized)]]"

definition handleSecurityReport ::
  "golib \<Rightarrow> server \<Rightarrow> submission_env \<Rightarrow> http_request \<Rightarrow> form \<Rightarrow> db \<Rightarrow> contact_reply \<times> event list \<times> db" where
  "handleSecurityReport L s e r f d =
     (let try_again = (\<lambda>m. (ContactError 500 m, [], d)) in
      case report_invalid s e f of
        Some msg \<Rightarrow> (ContactError 400 msg, [], d)
      | None \<Rightarrow>
          (case EncryptionKey (sv_cfg s) of
             Inl _ \<Rightarrow> (ContactError 503
               ''Security reporting is temporarily unavailable. Please email the security contact directly.'', [], d)
           | Inr key \<Rightarrow>
               (case (randomHex 16 (se_track e), randomHex 32 (se_token e)) of
                  (Some t, Some rawToken) \<Rightarrow>
                    let trackingID = ''sec_'' @ t;
                        report = report_of L s e r f trackingID
                    in (case encryptSecurityReport (sv_ciphers s) (sv_pub s) (se_nonce e) key (buildReportBody report) of
                          Inl _ \<Rightarrow> try_again ''Could not securely store your report. Please try again.''
                        | Inr (sealed, encMethod) \<Rightarrow>
                            (case CreateSecurityReport (se_fault e) (se_now e)
                                    (report_row L f trackingID rawToken sealed encMethod) d of
                               Inl _ \<Rightarrow> try_again ''Could not record your report. Please try again.''
                             | Inr d' \<Rightarrow>
                                 let mails = sendSecurityReportEmails L s
                                       \<lparr>ec_trackingID = trackingID, ec_timestamp = rf_timestamp report,
                                        ec_researcher = rf_email report, ec_severity = rf_severity report,
                                        ec_summary = rf_summary report, ec_component = rf_component report,
                                        ec_cveRequested = rf_cveRequested report,
                                        ec_disclosureDays = rf_disclosureDays report, ec_encMethod = encMethod,
                                        ec_statusToken = rawToken, ec_sealed = sealed, ec_researcherGPG = rf_gpg report\<rparr>;
                                     notes = notice_events trackingID (rf_severity report)
                                       (sanitizeComponent (rf_component report));
                                     ct = detectClientType r
                                 in (if ct = ''json'' \<or> ct = ''text'' then ReceivedJSON trackingID
                                     else ReceivedPage trackingID, mails @ notes, d')))
                | _ \<Rightarrow> try_again ''Could not process your report. Please try again.'')))"

text \<open>The routing of a posted contact form. \<^const>\<open>StandardForm\<close> stands for what follows for an ordinary
  message.\<close>

definition handleContactPost ::
  "golib \<Rightarrow> server \<Rightarrow> submission_env \<Rightarrow> http_request \<Rightarrow> db \<Rightarrow> contact_reply \<times> event list \<times> db" where
  "handleContactPost L s e r d =
     (if \<not> cp_Enabled (cf_ContactPage (sv_cfg s)) then (ContactDisabled, [], d)
      else case ParseForm L r of
             (_, Some _) \<Rightarrow> (ContactError 400 ''Invalid form submission.'', [], d)
           | (f, None) \<Rightarrow>
               (let q = trim_space (query_get r ''security_id'');
                    supplied = (if q = [] then trim_space (post f ''security_id'') else q)
                in if supplied = [] then (StandardForm, [], d)
                   else if validSecurityID (sv_hmac s) (sv_installSecret s) (se_now e) supplied
                   then handleSecurityReport L s e r f d
                   else (StandardForm,
                     [SecurityLog ''security.security_id_invalid''
                        [(''ip'', client_ip (se_remoteAddr e)), (''ua'', user_agent r), (''supplied_id'', supplied)],
                      AuditEntry ''security.security_id_invalid'' ''warn'' ''failure'' [] []], d)))"

subsection \<open>All or nothing\<close>

definition accepted :: "contact_reply \<Rightarrow> bool" where
  "accepted rep \<longleftrightarrow> (\<exists>t. rep = ReceivedJSON t \<or> rep = ReceivedPage t)"

text \<open>The shape of an accepted submission.\<close>

lemma accepted_submission:
  assumes "handleSecurityReport L s e r f d = (rep, evs, d')" "accepted rep"
  obtains key t rawToken sealed encMethod mails where
    "report_invalid s e f = None" "EncryptionKey (sv_cfg s) = Inr key"
    "randomHex 16 (se_track e) = Some t" "randomHex 32 (se_token e) = Some rawToken"
    "encryptSecurityReport (sv_ciphers s) (sv_pub s) (se_nonce e) key (buildReportBody (report_of L s e r f (''sec_'' @ t))) =
       Inr (sealed, encMethod)"
    "CreateSecurityReport (se_fault e) (se_now e) (report_row L f (''sec_'' @ t) rawToken sealed encMethod) d = Inr d'"
    "evs = mails @ notice_events (''sec_'' @ t) (trim_space (post f ''severity'')) (sanitizeComponent (component_label f))"
    "rep = ReceivedJSON (''sec_'' @ t) \<or> rep = ReceivedPage (''sec_'' @ t)"
    "\<exists>c. mails = sendSecurityReportEmails L s c"
proof -
  note h = assms(1)[unfolded handleSecurityReport_def Let_def]
  have inv: "report_invalid s e f = None" using h assms(2) by (auto simp: accepted_def split: option.splits)
  obtain key where key: "EncryptionKey (sv_cfg s) = Inr key"
    using h inv assms(2) by (auto simp: accepted_def split: sum.splits)
  obtain t where t: "randomHex 16 (se_track e) = Some t"
    using h inv key assms(2) by (auto simp: accepted_def split: option.splits)
  obtain tok where tok: "randomHex 32 (se_token e) = Some tok"
    using h inv key t assms(2) by (auto simp: accepted_def split: option.splits)
  obtain sealed meth where enc: "encryptSecurityReport (sv_ciphers s) (sv_pub s) (se_nonce e) key
      (buildReportBody (report_of L s e r f (''sec_'' @ t))) = Inr (sealed, meth)"
    using h inv key t tok assms(2) by (auto simp: accepted_def split: sum.splits)
  obtain d1 where cr: "CreateSecurityReport (se_fault e) (se_now e) (report_row L f (''sec_'' @ t) tok sealed meth) d = Inr d1"
    using h inv key t tok enc assms(2) by (auto simp: accepted_def split: sum.splits)
  have "d1 = d'" using h inv key t tok enc cr by simp
  moreover have "rep = ReceivedJSON (''sec_'' @ t) \<or> rep = ReceivedPage (''sec_'' @ t)"
    using h inv key t tok enc cr by (auto split: if_splits)
  moreover have "\<exists>c. evs = sendSecurityReportEmails L s c @
      notice_events (''sec_'' @ t) (trim_space (post f ''severity'')) (sanitizeComponent (component_label f))"
    using h inv key t tok enc cr by (auto simp: report_of_def)
  ultimately show thesis using that inv key t tok enc cr by blast
qed

lemma refused_submission:
  "handleSecurityReport L s e r f d = (rep, evs, d') \<Longrightarrow> \<not> accepted rep \<Longrightarrow> evs = [] \<and> d' = d"
  by (auto simp: handleSecurityReport_def accepted_def Let_def split: option.splits sum.splits prod.splits if_splits)

text \<open>What the text of a report is made of, piece by piece.\<close>

lemma contains_mid: "contains (a @ p @ b) p"
proof (induction a)
  case Nil
  have "contains s p" if "has_prefix s p" for s using that by (cases s) (auto simp: has_prefix_def)
  then show ?case by (simp add: has_prefix_def)
qed simp

lemma contains_concat: "p \<in> set ps \<Longrightarrow> contains (concat ps) p"
proof -
  assume "p \<in> set ps"
  then obtain xs ys where "ps = xs @ p # ys" by (meson split_list)
  then show ?thesis using contains_mid[of "concat xs" p "concat ys"] by simp
qed

lemma report_body_pieces:
  "list_all (contains (buildReportBody f))
     [''Tracking ID: '' @ rf_trackingID f @ nl,
      ''Reporter: '' @ rf_name f @ '' <'' @ rf_email f @ ''>'' @ nl,
      if rf_gpg f \<noteq> [] then ''Reporter PGP: '' @ rf_gpg f @ nl else [],
      ''Credit preference: '' @ rf_creditPref f @ (if rf_creditName f \<noteq> [] then '' ('' @ rf_creditName f @ '')'' else []) @ nl,
      ''Severity (self-assessed): '' @ rf_severity f @ nl,
      ''Affected component: '' @ rf_component f @ nl,
      if rf_endpoint f \<noteq> [] then ''Affected endpoint: '' @ rf_endpoint f @ nl else [],
      ''CVE requested: '' @ yes_no (rf_cveRequested f) @ nl,
      ''Requested disclosure window: '' @ show_int (rf_disclosureDays f) @ '' days'' @ nl,
      ''Summary:'' @ nl @ rf_summary f @ nl,
      ''Steps to reproduce:'' @ nl @ rf_steps f @ nl,
      ''Impact:'' @ nl @ rf_impact f @ nl,
      if rf_suggestedFix f \<noteq> [] then ''Suggested fix:'' @ nl @ rf_suggestedFix f @ nl else []]"
proof -
  let ?ps = "[''Tracking ID: '' @ rf_trackingID f @ nl,
      ''Received: '' @ rf_timestamp f @ nl @ nl,
      ''Reporter: '' @ rf_name f @ '' <'' @ rf_email f @ ''>'' @ nl,
      if rf_gpg f \<noteq> [] then ''Reporter PGP: '' @ rf_gpg f @ nl else [],
      ''Credit preference: '' @ rf_creditPref f @ (if rf_creditName f \<noteq> [] then '' ('' @ rf_creditName f @ '')'' else []) @ nl, nl,
      ''Severity (self-assessed): '' @ rf_severity f @ nl,
      ''Affected component: '' @ rf_component f @ nl,
      if rf_endpoint f \<noteq> [] then ''Affected endpoint: '' @ rf_endpoint f @ nl else [],
      ''CVE requested: '' @ yes_no (rf_cveRequested f) @ nl,
      ''Requested disclosure window: '' @ show_int (rf_disclosureDays f) @ '' days'' @ nl, nl,
      ''Summary:'' @ nl @ rf_summary f @ nl, nl,
      ''Steps to reproduce:'' @ nl @ rf_steps f @ nl, nl,
      ''Impact:'' @ nl @ rf_impact f @ nl, nl,
      if rf_suggestedFix f \<noteq> [] then ''Suggested fix:'' @ nl @ rf_suggestedFix f @ nl else [],
      if rf_suggestedFix f \<noteq> [] then nl else [],
      ''-- triage metadata --'' @ nl @ ''app_version: '' @ rf_appVersion f @ nl @ ''commit_hash: '' @ rf_commitHash f @ nl @
      ''request_user_agent: '' @ rf_userAgent f @ nl @ ''request_ip: '' @ rf_remoteIP f @ nl]"
  have body: "buildReportBody f = concat ?ps" by (simp add: buildReportBody_def)
  show ?thesis unfolding body list_all_iff using contains_concat[of _ ?ps] by (simp only: set_simps insert_iff ball_simps) blast
qed

lemma disclosure_window:
  "disclosure_days f = (case ParseInt (trim_space (post f ''disclosure_days'')) of
     (v, None) \<Rightarrow> if 1 \<le> v \<and> v \<le> 365 then v else 90 | (_, Some _) \<Rightarrow> 90)"
proof -
  have "ParseInt [] = (0, Some ErrSyntax)" by (simp add: ParseInt_def)
  then show ?thesis unfolding disclosure_days_def defaultDisclosureDays_def Let_def by simp
qed

lemma report_text_pieces:
  "list_all (contains (buildReportBody (report_of L s e r f t)))
        [''Tracking ID: '' @ t @ nl,
         ''Reporter: '' @ trim_space (post f ''name'') @ '' <'' @ trim_space (post f ''email'') @ ''>'' @ nl,
         if trim_space (post f ''researcher_gpg'') \<noteq> [] then ''Reporter PGP: '' @ trim_space (post f ''researcher_gpg'') @ nl else [],
         ''Credit preference: '' @ trim_space (post f ''credit_preference'') @
           (if trim_space (post f ''credit_name'') \<noteq> [] then '' ('' @ trim_space (post f ''credit_name'') @ '')'' else []) @ nl,
         ''Severity (self-assessed): '' @ trim_space (post f ''severity'') @ nl,
         ''Affected component: '' @
           (if trim_space (post f ''component'') = ''other'' \<and> trim_space (post f ''component_other'') \<noteq> []
            then trim_space (post f ''component_other'') else trim_space (post f ''component'')) @ nl,
         if trim_space (post f ''endpoint'') \<noteq> [] then ''Affected endpoint: '' @ trim_space (post f ''endpoint'') @ nl else [],
         ''CVE requested: '' @ (if IsTruthy (post f ''cve_requested'') then ''yes'' else ''no'') @ nl,
         ''Requested disclosure window: '' @
           show_int (case ParseInt (trim_space (post f ''disclosure_days'')) of
             (v, None) \<Rightarrow> if 1 \<le> v \<and> v \<le> 365 then v else 90 | (_, Some _) \<Rightarrow> 90) @ '' days'' @ nl,
         ''Summary:'' @ nl @ trim_space (post f ''summary'') @ nl,
         ''Steps to reproduce:'' @ nl @ trim_space (post f ''steps'') @ nl,
         ''Impact:'' @ nl @ trim_space (post f ''impact'') @ nl,
         if trim_space (post f ''suggested_fix'') \<noteq> [] then ''Suggested fix:'' @ nl @ trim_space (post f ''suggested_fix'') @ nl else []]"
proof -
  let ?F = "report_of L s e r f t"
  have rf: "rf_trackingID ?F = t" "rf_name ?F = trim_space (post f ''name'')" "rf_email ?F = trim_space (post f ''email'')"
    "rf_gpg ?F = trim_space (post f ''researcher_gpg'')" "rf_endpoint ?F = trim_space (post f ''endpoint'')"
    "rf_severity ?F = trim_space (post f ''severity'')" "rf_summary ?F = trim_space (post f ''summary'')"
    "rf_steps ?F = trim_space (post f ''steps'')" "rf_impact ?F = trim_space (post f ''impact'')"
    "rf_suggestedFix ?F = trim_space (post f ''suggested_fix'')" "rf_cveRequested ?F = IsTruthy (post f ''cve_requested'')"
    "rf_creditPref ?F = trim_space (post f ''credit_preference'')" "rf_creditName ?F = trim_space (post f ''credit_name'')"
    "rf_disclosureDays ?F = disclosure_days f"
    "rf_component ?F = (if trim_space (post f ''component'') = ''other'' \<and> trim_space (post f ''component_other'') \<noteq> []
            then trim_space (post f ''component_other'') else trim_space (post f ''component''))"
    by (simp_all only: report_of_def report_fields.simps component_label_def Let_def)
  show ?thesis using report_body_pieces[of ?F] unfolding rf disclosure_window yes_no_def .
qed

text \<open>C12: A submission is stored whole or not at all. A refused one changes nothing and sends nothing. An
  accepted one adds exactly one report under the tracking id that is returned, in the state
  Received, and the stored text can be decrypted, with the project's private key or the encryption
  key, to a text that holds what the researcher entered, without the blanks around it: name and
  email, severity, summary, steps, impact, the wish for a CVE and the credit preference with the
  name for it, each in a line or a section of its own under its heading, and the PGP key, the
  endpoint and the suggested fix if they were given; the component, or what was entered
  beside \<^verbatim>\<open>other\<close>; and the disclosure window, where 90 days stand for anything but a number from 1 to 365.
  Assumed are ciphers that open what they sealed, a private key that matches the public one, and
  a nonce of the right length.\<close>

theorem report_stored_whole:
  fixes f :: form
  assumes run: "handleSecurityReport L s e r f d = (rep, evs, d')"
    and ok: "ciphers_ok (sv_ciphers s) (sv_pub s) priv" "priv \<in> set privs"
    and nonce: "se_nonce e = Some n" "length n = nonce_size"
  defines "fld \<equiv> \<lambda>k. trim_space (post f k)"
  shows "if accepted rep
    then \<exists>t row key body. (rep = ReceivedJSON t \<or> rep = ReceivedPage t) \<and> EncryptionKey (sv_cfg s) = Inr key \<and>
      row_by r_TrackingID t (security_reports d) = None \<and> security_reports d' = security_reports d @ [row] \<and>
      r_TrackingID row = t \<and> r_Status row = SecStatusReceived \<and>
      decryptSecurityReport (sv_ciphers s) privs key row = Inr body \<and>
      list_all (contains body)
        [''Tracking ID: '' @ t @ nl,
         ''Reporter: '' @ fld ''name'' @ '' <'' @ fld ''email'' @ ''>'' @ nl,
         if fld ''researcher_gpg'' \<noteq> [] then ''Reporter PGP: '' @ fld ''researcher_gpg'' @ nl else [],
         ''Credit preference: '' @ fld ''credit_preference'' @
           (if fld ''credit_name'' \<noteq> [] then '' ('' @ fld ''credit_name'' @ '')'' else []) @ nl,
         ''Severity (self-assessed): '' @ fld ''severity'' @ nl,
         ''Affected component: '' @
           (if fld ''component'' = ''other'' \<and> fld ''component_other'' \<noteq> [] then fld ''component_other'' else fld ''component'') @ nl,
         if fld ''endpoint'' \<noteq> [] then ''Affected endpoint: '' @ fld ''endpoint'' @ nl else [],
         ''CVE requested: '' @ (if IsTruthy (post f ''cve_requested'') then ''yes'' else ''no'') @ nl,
         ''Requested disclosure window: '' @
           show_int (case ParseInt (fld ''disclosure_days'') of
             (v, None) \<Rightarrow> if 1 \<le> v \<and> v \<le> 365 then v else 90 | (_, Some _) \<Rightarrow> 90) @ '' days'' @ nl,
         ''Summary:'' @ nl @ fld ''summary'' @ nl,
         ''Steps to reproduce:'' @ nl @ fld ''steps'' @ nl,
         ''Impact:'' @ nl @ fld ''impact'' @ nl,
         if fld ''suggested_fix'' \<noteq> [] then ''Suggested fix:'' @ nl @ fld ''suggested_fix'' @ nl else []]
    else evs = [] \<and> d' = d"
proof (cases "accepted rep")
  case True
  from run True obtain key t tok sealed meth where
    k: "EncryptionKey (sv_cfg s) = Inr key"
    and enc: "encryptSecurityReport (sv_ciphers s) (sv_pub s) (Some n) key
      (buildReportBody (report_of L s e r f (''sec_'' @ t))) = Inr (sealed, meth)"
    and cr: "CreateSecurityReport (se_fault e) (se_now e) (report_row L f (''sec_'' @ t) tok sealed meth) d = Inr d'"
    and rep: "rep = ReceivedJSON (''sec_'' @ t) \<or> rep = ReceivedPage (''sec_'' @ t)"
    unfolding nonce(1)[symmetric] by (rule accepted_submission)
  let ?row = "(report_row L f (''sec_'' @ t) tok sealed meth)\<lparr>r_CreatedAt := se_now e, r_UpdatedAt := se_now e,
      r_Status := SecStatusReceived, r_DisclosedAt := None, r_TokenLastUsed := None\<rparr>"
  have d': "row_by r_TrackingID (''sec_'' @ t) (security_reports d) = None" "security_reports d' = security_reports d @ [?row]"
    using cr by (auto simp: CreateSecurityReport_def report_row_def Let_def split: if_splits)
  have "decryptSecurityReport (sv_ciphers s) privs key ?row = Inr (buildReportBody (report_of L s e r f (''sec_'' @ t)))"
    by (rule report_opens[OF ok(1) enc nonce(2) ok(2)]) (simp_all add: report_row_def Let_def)
  moreover have "r_TrackingID ?row = ''sec_'' @ t" "r_Status ?row = SecStatusReceived" by (simp_all add: report_row_def Let_def)
  moreover have "list_all (contains (buildReportBody (report_of L s e r f (''sec_'' @ t))))
        [''Tracking ID: '' @ (''sec_'' @ t) @ nl,
         ''Reporter: '' @ fld ''name'' @ '' <'' @ fld ''email'' @ ''>'' @ nl,
         if fld ''researcher_gpg'' \<noteq> [] then ''Reporter PGP: '' @ fld ''researcher_gpg'' @ nl else [],
         ''Credit preference: '' @ fld ''credit_preference'' @
           (if fld ''credit_name'' \<noteq> [] then '' ('' @ fld ''credit_name'' @ '')'' else []) @ nl,
         ''Severity (self-assessed): '' @ fld ''severity'' @ nl,
         ''Affected component: '' @
           (if fld ''component'' = ''other'' \<and> fld ''component_other'' \<noteq> [] then fld ''component_other'' else fld ''component'') @ nl,
         if fld ''endpoint'' \<noteq> [] then ''Affected endpoint: '' @ fld ''endpoint'' @ nl else [],
         ''CVE requested: '' @ (if IsTruthy (post f ''cve_requested'') then ''yes'' else ''no'') @ nl,
         ''Requested disclosure window: '' @
           show_int (case ParseInt (fld ''disclosure_days'') of
             (v, None) \<Rightarrow> if 1 \<le> v \<and> v \<le> 365 then v else 90 | (_, Some _) \<Rightarrow> 90) @ '' days'' @ nl,
         ''Summary:'' @ nl @ fld ''summary'' @ nl,
         ''Steps to reproduce:'' @ nl @ fld ''steps'' @ nl,
         ''Impact:'' @ nl @ fld ''impact'' @ nl,
         if fld ''suggested_fix'' \<noteq> [] then ''Suggested fix:'' @ nl @ fld ''suggested_fix'' @ nl else []]"
    unfolding fld_def by (rule report_text_pieces)
  ultimately show ?thesis using True k rep d' by (simp only: if_True) blast
next
  case False
  then show ?thesis using refused_submission[OF run] by simp
qed


subsection \<open>What is kept in the clear\<close>

definition is_mail :: "event \<Rightarrow> bool" where
  "is_mail ev \<longleftrightarrow> (case ev of MaintainerMail _ _ _ _ \<Rightarrow> True | AckMail _ _ \<Rightarrow> True | SealedAckMail _ _ _ \<Rightarrow> True | _ \<Rightarrow> False)"

definition without_body :: "security_report \<Rightarrow> security_report" where
  "without_body r = r\<lparr>r_EncryptedBody := [], r_EncMethod := []\<rparr>"

lemma emails_are_mail: "list_all is_mail (sendSecurityReportEmails L s c)"
  by (auto simp: sendSecurityReportEmails_def maintainer_mail_def sealed_ack_def is_mail_def Let_def
      split: option.splits if_splits)

lemma notices_no_mail: "filter (\<lambda>ev. \<not> is_mail ev) (notice_events t sev c) = notice_events t sev c"
  by (simp add: notice_events_def is_mail_def)

text \<open>What an accepted submission leaves outside the sealed text and the mails, as a function of five
  values of the form.\<close>

lemma public_part:
  assumes "handleSecurityReport L s e r f d = (rep, evs, d')" "accepted rep"
  obtains t tok where "randomHex 16 (se_track e) = Some t" "randomHex 32 (se_token e) = Some tok"
    "map without_body (security_reports d') = map without_body (security_reports d) @
       [without_body ((report_row L f (''sec_'' @ t) tok [] [])\<lparr>r_CreatedAt := se_now e, r_UpdatedAt := se_now e,
          r_Status := SecStatusReceived, r_DisclosedAt := None, r_TokenLastUsed := None\<rparr>)]"
    "filter (\<lambda>ev. \<not> is_mail ev) evs =
       notice_events (''sec_'' @ t) (trim_space (post f ''severity'')) (sanitizeComponent (component_label f))"
proof (rule accepted_submission[OF assms])
  fix key t tok sealed meth mails
  assume t: "randomHex 16 (se_track e) = Some t" "randomHex 32 (se_token e) = Some tok"
    and cr: "CreateSecurityReport (se_fault e) (se_now e) (report_row L f (''sec_'' @ t) tok sealed meth) d = Inr d'"
    and evs: "evs = mails @ notice_events (''sec_'' @ t) (trim_space (post f ''severity'')) (sanitizeComponent (component_label f))"
    and m: "\<exists>c. mails = sendSecurityReportEmails L s c"
  have "map without_body (security_reports d') = map without_body (security_reports d) @
       [without_body ((report_row L f (''sec_'' @ t) tok [] [])\<lparr>r_CreatedAt := se_now e, r_UpdatedAt := se_now e,
          r_Status := SecStatusReceived, r_DisclosedAt := None, r_TokenLastUsed := None\<rparr>)]"
    using cr by (auto simp: CreateSecurityReport_def report_row_def without_body_def Let_def split: if_splits)
  moreover have "filter (\<lambda>ev. \<not> is_mail ev) mails = []"
    using m emails_are_mail by (force simp: filter_empty_conv list_all_iff)
  ultimately show thesis using that[OF t] evs notices_no_mail by simp
qed

text \<open>Nothing of a report but five values is kept or sent in the clear outside the mails: two accepted
  submissions that agree on the severity, the cleaned-up component, the credit preference,
  the credit name (where it is to be shown) and the disclosure window leave the same rows,
  apart from the sealed text, and the same log lines, audit entries and webhook messages,
  whatever else they say.\<close>

theorem report_text_sealed:
  assumes run: "handleSecurityReport L s e r f d = (rep, evs, d1)" "accepted rep"
    and run': "handleSecurityReport L s e r' g d = (rep', evs', d2)" "accepted rep'"
    and same: "trim_space (post f ''severity'') = trim_space (post g ''severity'')"
      "sanitizeComponent (component_label f) = sanitizeComponent (component_label g)"
      "trim_space (post f ''credit_preference'') = trim_space (post g ''credit_preference'')"
      "trim_space (post f ''credit_preference'') \<notin> {''anonymous'', ''no''} \<Longrightarrow>
         trim_space (post f ''credit_name'') = trim_space (post g ''credit_name'')"
      "disclosure_days f = disclosure_days g"
  shows "map without_body (security_reports d1) = map without_body (security_reports d2) \<and>
    filter (\<lambda>ev. \<not> is_mail ev) evs = filter (\<lambda>ev. \<not> is_mail ev) evs'"
proof -
  have row: "report_row L f t tok [] [] = report_row L g t tok [] []" for t tok
    using same by (simp add: report_row_def Let_def)
  show ?thesis
    by (rule public_part[OF run], rule public_part[OF run']) (simp add: row same(1,2))
qed

subsection \<open>A concrete submission\<close>

definition demo_server :: server where
  "demo_server = \<lparr>sv_cfg = DefaultConfig\<lparr>cf_EncryptionKey := hex_encode (replicate 32 CHR ''k''),
       cf_ContactPage := \<lparr>cp_Enabled = True, cp_Captcha = ''none'', cp_SuccessMessage = []\<rparr>\<rparr>,
     sv_siteTitle = ''Pastebin'', sv_installSecret = [], sv_csrfSecret = [], sv_hmac = (\<lambda>k m. k @ m), sv_ciphers = sample_ciphers,
     sv_pub = ''pub'', sv_version = ''1'', sv_commitID = ''c'', sv_baseURL = ''https://p'', sv_reportEmail = [], sv_mail = False,
     sv_sent = (\<lambda>_. True), sv_key_ok = (\<lambda>_. True), sv_get = (\<lambda>_. None), sv_render_ack = (\<lambda>_. None)\<rparr>"

definition report_lib :: golib where
  "report_lib = \<lparr>lib_sha256 = (\<lambda>b. b), lib_detect = (\<lambda>_. ''text/plain''), lib_url = (\<lambda>_. None), lib_json_create = (\<lambda>_. None),
     lib_json_token = (\<lambda>_. []), lib_form = (\<lambda>_. (Map.empty, True)), lib_multipart = (\<lambda>_ _. None), lib_parse_media = (\<lambda>_. None),
     lib_format_media = (\<lambda>t _. t), lib_rfc3339 = show_int, lib_quote = (\<lambda>s. s)\<rparr>"

definition demo_submission :: submission_env where
  "demo_submission = \<lparr>se_now = 7, se_remoteAddr = ''1.2.3.4:5'', se_track = Some ''12345678'', se_token = Some (replicate 16 CHR ''t''),
     se_nonce = Some (replicate 12 CHR ''n''), se_fault = False\<rparr>"

definition demo_form :: "string \<Rightarrow> form" where
  "demo_form steps = map_of [(''name'', ''r''), (''email'', ''r@x''), (''component'', ''api''), (''severity'', ''Low''),
     (''summary'', ''s''), (''steps'', steps), (''impact'', ''i''), (''credit_preference'', ''no''), (''agreement'', ''yes'')]"

lemma demo_valid: "steps \<noteq> [] \<Longrightarrow> \<forall>c \<in> set steps. plain_char c \<Longrightarrow> report_invalid demo_server demo_submission (demo_form steps) = None"
  by (simp add: report_invalid_def demo_server_def demo_form_def post_def opt_str_def required_fields_def trim_space_plain
      plain_char_def contains_any_def contains_def has_prefix_def validSeverities_def validCreditPrefs_def IsTruthy_def to_lower_ascii lower_char_def
      truthyValues_def Let_def)


abbreviation demo_get :: http_request where
  "demo_get \<equiv> \<lparr>rq_method = ''POST'', rq_path = ''/server/contact'', rq_txt = False, rq_tls = True, rq_host = ''p'',
     rq_header = (\<lambda>k. if k = ''Accept'' then ''text/html'' else []), rq_query = Map.empty, rq_body = [], rq_maxbytes = None,
     rq_form = None\<rparr>"

lemma demo_key: "EncryptionKey (sv_cfg demo_server) = Inr (replicate 32 CHR ''k'')"
proof -
  have "hex_encode (replicate 32 CHR ''k'') \<noteq> []" by (simp add: hex_encode_def hex_byte_def)
  then show ?thesis by (simp add: demo_server_def EncryptionKey_def hex_decode_encode)
qed

lemma demo_accepted:
  assumes "steps \<noteq> []" "\<forall>c \<in> set steps. plain_char c"
  obtains evs d' t where "handleSecurityReport L demo_server demo_submission r (demo_form steps) empty_db = (ReceivedPage t, evs, d')"
    | evs d' t where "handleSecurityReport L demo_server demo_submission r (demo_form steps) empty_db = (ReceivedJSON t, evs, d')"
proof -
  let ?h = "handleSecurityReport L demo_server demo_submission r (demo_form steps) empty_db"
  have *: "se_track demo_submission = Some ''12345678''" "se_token demo_submission = Some (replicate 16 CHR ''t'')"
    "se_fault demo_submission = False" by (simp_all add: demo_submission_def)
  have c: "sv_ciphers demo_server = sample_ciphers" "sv_pub demo_server = ''pub''" by (simp_all add: demo_server_def)
  have enc: "encryptSecurityReport sample_ciphers ''pub'' n k b = Inr (''pub'' @ b, ''pgp'')" for n k b
    by (simp add: encryptSecurityReport_def sample_ciphers_def)
  have "\<exists>t evs d'. ?h = (ReceivedPage t, evs, d') \<or> ?h = (ReceivedJSON t, evs, d')"
    by (simp add: handleSecurityReport_def demo_valid[OF assms] demo_key randomHex_def * c enc CreateSecurityReport_def
        empty_db_def row_by_def Let_def)
  then show thesis using that by blast
qed

lemma report_stored_whole_witness:
  "\<exists>evs d' t row key body. (let h = handleSecurityReport report_lib demo_server demo_submission demo_get (demo_form ''boom'') empty_db
      in (h = (ReceivedJSON t, evs, d') \<or> h = (ReceivedPage t, evs, d'))) \<and>
     security_reports d' = [row] \<and> r_TrackingID row = t \<and> EncryptionKey (sv_cfg demo_server) = Inr key \<and>
     decryptSecurityReport sample_ciphers [''private''] key row = Inr body \<and>
     contains body (''Steps to reproduce:'' @ nl @ trim_space (post (demo_form ''boom'') ''steps'') @ nl)"
proof -
  let ?h = "handleSecurityReport report_lib demo_server demo_submission demo_get (demo_form ''boom'') empty_db"
  have "''boom'' \<noteq> []" "\<forall>c \<in> set ''boom''. plain_char c" by (simp_all add: plain_char_def)
  then obtain rep evs d' where h: "?h = (rep, evs, d')" "accepted rep"
    by (rule demo_accepted[of _ report_lib demo_get]) (auto simp: accepted_def)
  have ok: "ciphers_ok (sv_ciphers demo_server) (sv_pub demo_server) ''private''"
    by (auto simp: ciphers_ok_def sample_ciphers_def demo_server_def split: if_splits)
  have n: "se_nonce demo_submission = Some (replicate 12 CHR ''n'')" "length (replicate 12 CHR ''n'') = nonce_size"
    by (simp_all add: demo_submission_def nonce_size_def)
  have e: "security_reports empty_db = []" "sv_ciphers demo_server = sample_ciphers"
    by (simp_all add: empty_db_def demo_server_def)
  have p: "''private'' \<in> set [''private'']" by simp
  from report_stored_whole[OF h(1) ok p n, unfolded if_P[OF h(2)] list.pred_inject e append_Nil]
  obtain t row key body where "rep = ReceivedJSON t \<or> rep = ReceivedPage t" "EncryptionKey (sv_cfg demo_server) = Inr key"
    "security_reports d' = [row]" "r_TrackingID row = t" "decryptSecurityReport sample_ciphers [''private''] key row = Inr body"
    "contains body (''Steps to reproduce:'' @ nl @ trim_space (post (demo_form ''boom'') ''steps'') @ nl)"
    by (elim exE conjE) (rule that)
  then show ?thesis using h(1) unfolding Let_def by (intro exI[of _ evs] exI[of _ d'] exI[of _ t] exI[of _ row] exI[of _ key] exI[of _ body]) simp
qed

lemma report_text_sealed_witness:
  "\<exists>rep rep' evs evs' d1 d2.
     handleSecurityReport report_lib demo_server demo_submission demo_get (demo_form ''boom'') empty_db = (rep, evs, d1) \<and>
     handleSecurityReport report_lib demo_server demo_submission demo_get (demo_form ''bang'') empty_db = (rep', evs', d2) \<and>
     accepted rep \<and> accepted rep' \<and> map without_body (security_reports d1) = map without_body (security_reports d2) \<and>
     filter (\<lambda>ev. \<not> is_mail ev) evs = filter (\<lambda>ev. \<not> is_mail ev) evs'"
proof -
  let ?h = "\<lambda>w. handleSecurityReport report_lib demo_server demo_submission demo_get (demo_form w) empty_db"
  have "''boom'' \<noteq> []" "\<forall>c \<in> set ''boom''. plain_char c" by (simp_all add: plain_char_def)
  then obtain rep evs d1 where h: "?h ''boom'' = (rep, evs, d1)" "accepted rep"
    by (rule demo_accepted[of _ report_lib demo_get]) (auto simp: accepted_def)
  have "''bang'' \<noteq> []" "\<forall>c \<in> set ''bang''. plain_char c" by (simp_all add: plain_char_def)
  then obtain rep' evs' d2 where g: "?h ''bang'' = (rep', evs', d2)" "accepted rep'"
    by (rule demo_accepted[of _ report_lib demo_get]) (auto simp: accepted_def)
  have f: "post (demo_form ''boom'') k = post (demo_form ''bang'') k" if "k \<noteq> ''steps''" for k
    using that by (simp add: post_def demo_form_def)
  have "map without_body (security_reports d1) = map without_body (security_reports d2) \<and>
     filter (\<lambda>ev. \<not> is_mail ev) evs = filter (\<lambda>ev. \<not> is_mail ev) evs'"
    by (rule report_text_sealed[OF h g]) (simp_all add: f component_label_def disclosure_days_def)
  with h g show ?thesis by blast
qed

end
