(* ===== verification/Security_Status.thy ===== *)
theory Security_Status
  imports Security_Reports Go_Time
begin

section \<open>Security reports: status and acknowledgments\<close>

text \<open>
  The researcher's status page and the acknowledgments page of
  \<^verbatim>\<open>src/src/server/security_pages.go\<close>. A page is the data its template is given. Times are read in UTC,
  which is the zone of the server here; how a date is written is an argument.
\<close>

subsection \<open>Closing and the day of use\<close>

definition securityClosedGrace :: duration where "securityClosedGrace = 30 * 24 * Hour"

definition securityReportClosedAt :: "security_report \<Rightarrow> instant \<times> bool" where
  "securityReportClosedAt rep =
     (if r_Status rep = SecStatusDisclosed
      then (case r_DisclosedAt rep of Some t \<Rightarrow> (t, True) | None \<Rightarrow> (r_UpdatedAt rep, True))
      else if r_Status rep = SecStatusWontFix then (r_UpdatedAt rep, True)
      else (zero_time, False))"

definition utc_day :: "instant \<Rightarrow> int" where "utc_day t = t div (24 * Hour)"

definition utc_date :: "instant \<Rightarrow> int \<times> int \<times> int" where
  "utc_date t = (year_of (utc_day t), month_of (utc_day t), day_of_month (utc_day t))"

definition sameUTCDate :: "instant \<Rightarrow> instant \<Rightarrow> bool" where
  "sameUTCDate a b \<longleftrightarrow>
     (case (utc_date a, utc_date b) of ((ay, am, ad), (by, bm, bd)) \<Rightarrow> ay = by \<and> am = bm \<and> ad = bd)"

lemma month_index_split: "month_index d = 12 * year_of d + (month_of d - 1)"
proof -
  have "month_index d mod 12 = month0 (leap (year_of d)) (d - ystart (year_of d))"
    using month0_range[of "leap (year_of d)" "d - ystart (year_of d)"] by (simp add: month_index_def)
  then show ?thesis by (simp add: month_of_def month_index_def)
qed

text \<open>A date names a day.\<close>

lemma sameUTCDate_iff: "sameUTCDate a b \<longleftrightarrow> utc_day a = utc_day b"
proof
  assume "sameUTCDate a b"
  then have "month_index (utc_day a) = month_index (utc_day b)" "day_of_month (utc_day a) = day_of_month (utc_day b)"
    by (simp_all add: sameUTCDate_def utc_date_def month_index_split)
  then show "utc_day a = utc_day b" by (simp add: day_of_month_def)
qed (simp add: sameUTCDate_def utc_date_def)

subsection \<open>The status page\<close>

definition securityStatusStages :: "string list" where
  "securityStatusStages = [SecStatusReceived, SecStatusTriaged, SecStatusConfirmed, SecStatusPatching, SecStatusDisclosed]"

record page_site =
  ps_SiteTitle :: string
  ps_Theme :: string
  ps_BaseURL :: string
  ps_SecurityEmail :: string
  ps_long_date :: "instant \<Rightarrow> string"   \<comment> \<open>Local().Format of January 2, 2006\<close>
  ps_iso_date :: "instant \<Rightarrow> string"    \<comment> \<open>UTC().Format of 2006-01-02\<close>

record status_view =
  vw_SiteTitle :: string
  vw_Theme :: string
  vw_BaseURL :: string
  vw_TrackingID :: string
  vw_Status :: string
  vw_Severity :: string
  vw_Component :: string
  vw_Comment :: string
  vw_ReceivedAt :: string
  vw_UpdatedAt :: string
  vw_ExpectedDate :: string
  vw_Stages :: "string list"
  vw_CurrentStage :: string
  vw_SecurityEmail :: string
  vw_DisclosedAt :: "string option"
  vw_RateLimited :: bool

definition reportStatusPageData :: "page_site \<Rightarrow> security_report \<Rightarrow> status_view" where
  "reportStatusPageData p rep =
     \<lparr>vw_SiteTitle = ps_SiteTitle p, vw_Theme = ps_Theme p, vw_BaseURL = ps_BaseURL p,
      vw_TrackingID = r_TrackingID rep, vw_Status = r_Status rep, vw_Severity = r_Severity rep,
      vw_Component = r_Component rep, vw_Comment = trim_space (r_MaintainerComment rep),
      vw_ReceivedAt = ps_long_date p (r_CreatedAt rep), vw_UpdatedAt = ps_long_date p (r_UpdatedAt rep),
      vw_ExpectedDate = ps_long_date p (r_CreatedAt rep + r_DisclosureDays rep * (24 * Hour)),
      vw_Stages = securityStatusStages, vw_CurrentStage = r_Status rep, vw_SecurityEmail = ps_SecurityEmail p,
      vw_DisclosedAt = map_option (ps_iso_date p) (r_DisclosedAt rep), vw_RateLimited = False\<rparr>"

datatype status_reply =
    StatusError int string
  | StatusPage int status_view

record status_env =
  sq_now :: instant
  sq_remoteAddr :: string
  sq_get_fault :: bool
  sq_mark_fault :: bool

definition token_events :: "string \<Rightarrow> string \<Rightarrow> string \<Rightarrow> event list" where
  "token_events ev trackingID ip =
     [SecurityLog ev [(''tracking_id'', trackingID), (''ip'', ip)],
      AuditEntry ev ''warn'' ''failure'' trackingID []]"

definition handleSecurityReportStatus ::
  "golib \<Rightarrow> page_site \<Rightarrow> status_env \<Rightarrow> string \<Rightarrow> string \<Rightarrow> db \<Rightarrow> status_reply \<times> event list \<times> db" where
  "handleSecurityReportStatus L p e urlID urlToken d =
     (let trackingID = trim_space urlID; token = trim_space urlToken; ip = client_ip (sq_remoteAddr e);
          not_found = StatusError 404 ''Report not found.''
      in if trackingID = [] \<or> token = [] then (not_found, [], d)
         else case GetSecurityReport (sq_get_fault e) trackingID d of
           Inl _ \<Rightarrow> (StatusError 500 ''Could not load the report status.'', [], d)
         | Inr None \<Rightarrow> (not_found, [], d)
         | Inr (Some rep) \<Rightarrow>
             if hex_encode (lib_sha256 L token) \<noteq> r_TokenHash rep
             then (not_found, token_events ''security.status_token_invalid'' trackingID ip, d)
             else let (closedAt, closed) = securityReportClosedAt rep in
               if closed \<and> sq_now e > closedAt + securityClosedGrace
               then (StatusError 410 ''This report is closed and its status link has expired.'', [], d)
               else if (case r_TokenLastUsed rep of Some t \<Rightarrow> sameUTCDate t (sq_now e) | None \<Rightarrow> False)
               then (StatusPage 429 ((reportStatusPageData p rep)\<lparr>vw_RateLimited := True\<rparr>),
                     token_events ''security.status_token_reused'' trackingID ip, d)
               else let d' = (case MarkSecurityReportTokenUsed (sq_mark_fault e) trackingID (sq_now e) d of
                                Inl _ \<Rightarrow> d | Inr d' \<Rightarrow> d')
                    in (StatusPage 200 (reportStatusPageData p rep),
                        [SecurityLog ''security.status_viewed'' [(''tracking_id'', trackingID), (''status'', r_Status rep)],
                         AuditEntry ''security.status_viewed'' ''info'' ''success'' trackingID [(''status'', r_Status rep)]],
                        d'))"


subsection \<open>The researcher's token\<close>

text \<open>What else happens to the table between two visits: a submission and a step of triage.\<close>

datatype status_op =
    Visit status_env string string
  | Triage bool instant string string string
  | Submit bool instant security_report

definition ok_or :: "'a \<Rightarrow> 'e + 'a \<Rightarrow> 'a" where
  "ok_or a x = (case x of Inl _ \<Rightarrow> a | Inr b \<Rightarrow> b)"

fun status_run :: "golib \<Rightarrow> page_site \<Rightarrow> status_op list \<Rightarrow> db \<Rightarrow> (status_env \<times> string \<times> status_reply) list" where
  "status_run L p [] d = []"
| "status_run L p (Visit e i tok # ops) d =
     (case handleSecurityReportStatus L p e i tok d of (rep, evs, d') \<Rightarrow> (e, trim_space i, rep) # status_run L p ops d')"
| "status_run L p (Triage f now i st c # ops) d = status_run L p ops (ok_or d (UpdateSecurityReportStatus f now i st c d))"
| "status_run L p (Submit f now r # ops) d = status_run L p ops (ok_or d (CreateSecurityReport f now r d))"

fun op_ok :: "status_op \<Rightarrow> bool" where
  "op_ok (Visit e i tok) \<longleftrightarrow> \<not> sq_mark_fault e"
| "op_ok _ \<longleftrightarrow> True"

fun visit_times :: "status_op list \<Rightarrow> instant list" where
  "visit_times [] = []"
| "visit_times (Visit e i tok # ops) = sq_now e # visit_times ops"
| "visit_times (_ # ops) = visit_times ops"

definition counted_view :: "status_reply \<Rightarrow> bool" where
  "counted_view rep \<longleftrightarrow> (case rep of StatusPage n v \<Rightarrow> n = 200 | StatusError _ _ \<Rightarrow> False)"

definition served :: "string \<Rightarrow> int \<Rightarrow> status_env \<times> string \<times> status_reply \<Rightarrow> bool" where
  "served i day v \<longleftrightarrow> (case v of (e, j, rep) \<Rightarrow> j = i \<and> utc_day (sq_now e) = day \<and> counted_view rep)"

definition last_used :: "string \<Rightarrow> db \<Rightarrow> instant option" where
  "last_used i d = Option.bind (row_by r_TrackingID i (security_reports d)) r_TokenLastUsed"

lemma visit_cases:
  assumes "handleSecurityReportStatus L p e i tok d = (rep, evs, d')" "\<not> sq_mark_fault e"
  shows "if counted_view rep
    then d' = d\<lparr>security_reports := update_where (\<lambda>r. r_TrackingID r = trim_space i)
                    (\<lambda>r. r\<lparr>r_TokenLastUsed := Some (sq_now e)\<rparr>) (security_reports d)\<rparr> \<and>
      row_by r_TrackingID (trim_space i) (security_reports d) \<noteq> None \<and>
      (\<forall>t. last_used (trim_space i) d = Some t \<longrightarrow> utc_day t \<noteq> utc_day (sq_now e))
    else d' = d"
  using assms
  by (auto simp: handleSecurityReportStatus_def counted_view_def last_used_def GetSecurityReport_def MarkSecurityReportTokenUsed_def
      sameUTCDate_iff Let_def split: option.splits if_splits prod.splits sum.splits)

lemma last_used_ops:
  "last_used i (ok_or d (UpdateSecurityReportStatus f now j st c d)) = last_used i d"
  "last_used i (ok_or d (CreateSecurityReport f now r d)) = last_used i d"
  by (cases "row_by r_TrackingID i (security_reports d)";
      auto simp: last_used_def ok_or_def UpdateSecurityReportStatus_def CreateSecurityReport_def Let_def sql_simps
      split: sum.splits option.splits if_splits)+

lemma last_used_mark:
  "last_used i (d\<lparr>security_reports := update_where (\<lambda>r. r_TrackingID r = j) (\<lambda>r. r\<lparr>r_TokenLastUsed := Some t\<rparr>)
     (security_reports d)\<rparr>) =
   (if i = j \<and> row_by r_TrackingID i (security_reports d) \<noteq> None then Some t else last_used i d)"
  by (cases "row_by r_TrackingID i (security_reports d)") (auto simp: last_used_def row_by_update dest: row_by_SomeD)

text \<open>Once a day, or a later one, is marked, nothing more is shown on that day.\<close>

lemma spent_day:
  assumes "list_all op_ok ops" "sorted (visit_times ops)" "last_used i d = Some t" "day \<le> utc_day t"
    "\<forall>now \<in> set (visit_times ops). t \<le> now"
  shows "filter (served i day) (status_run L p ops d) = []"
  using assms
proof (induction L p ops d arbitrary: t rule: status_run.induct)
  case (2 L p e j tok ops d)
  obtain rep evs d' where h: "handleSecurityReportStatus L p e j tok d = (rep, evs, d')" by (metis prod_cases3)
  have ok: "\<not> sq_mark_fault e" using "2.prems"(1) by simp
  note v = visit_cases[OF h ok]
  have le: "utc_day t \<le> utc_day (sq_now e)" unfolding utc_day_def
    by (rule zdiv_mono1) (use "2.prems"(5) in \<open>simp_all add: Hour_def Minute_def Second_def\<close>)
  have "\<not> served i day (e, trim_space j, rep)"
    using v le "2.prems"(3,4) by (auto simp: served_def split: if_splits)
  moreover have "\<exists>t'. last_used i d' = Some t' \<and> day \<le> utc_day t' \<and> (\<forall>now \<in> set (visit_times ops). t' \<le> now)"
    using v le "2.prems"(2-5) by (auto simp: last_used_mark split: if_splits)
  ultimately show ?case using "2.IH"[OF h[symmetric] refl] "2.prems"(1,2) h by auto
qed (simp_all add: last_used_ops)

lemma view_once_a_day:
  assumes "list_all op_ok ops" "sorted (visit_times ops)"
  shows "length (filter (served i day) (status_run L p ops d)) \<le> 1"
  using assms
proof (induction L p ops d rule: status_run.induct)
  case (2 L p e j tok ops d)
  obtain rep evs d' where h: "handleSecurityReportStatus L p e j tok d = (rep, evs, d')" by (metis prod_cases3)
  have ok: "\<not> sq_mark_fault e" using "2.prems"(1) by simp
  note v = visit_cases[OF h ok]
  show ?case
  proof (cases "served i day (e, trim_space j, rep)")
    case True
    then have s: "trim_space j = i" "utc_day (sq_now e) = day" "counted_view rep" by (simp_all add: served_def)
    with v have "last_used i d' = Some (sq_now e)" by (simp add: last_used_mark)
    then have "filter (served i day) (status_run L p ops d') = []"
      using "2.prems" s(2) by (intro spent_day) auto
    then show ?thesis by (simp add: h)
  next
    case False
    then show ?thesis using "2.IH"[OF h[symmetric] refl] "2.prems" h by simp
  qed
qed simp_all

text \<open>What a visit can be answered with.\<close>

definition answer_ok :: "status_reply \<Rightarrow> bool" where
  "answer_ok rep \<longleftrightarrow>
     (case rep of StatusPage n v \<Rightarrow> n = 200 \<or> n = 429 \<and> vw_RateLimited v | StatusError n _ \<Rightarrow> n \<in> {404, 410, 500})"

lemma visit_answer: "answer_ok (fst (handleSecurityReportStatus L p e i tok d))"
  by (simp add: handleSecurityReportStatus_def answer_ok_def Let_def split: option.splits prod.splits sum.splits)

lemma run_answers: "(e, i, rep) \<in> set (status_run L p ops d) \<Longrightarrow> answer_ok rep"
proof (induction L p ops d rule: status_run.induct)
  case (2 L p e' j tok ops d)
  obtain r evs d' where h: "handleSecurityReportStatus L p e' j tok d = (r, evs, d')" by (metis prod_cases3)
  then have "answer_ok r" using visit_answer[of L p e' j tok d] by simp
  moreover have "(e, i, rep) = (e', trim_space j, r) \<or> (e, i, rep) \<in> set (status_run L p ops d')"
    using "2.prems" by (simp add: h)
  ultimately show ?case using "2.IH"[OF h[symmetric] refl] by blast
qed simp_all

text \<open>C24: The daily limit of a status token counts right, whatever else happens in between: in every
  sequence of visits in time order, with reports submitted and triaged among them, at most one
  visit to a report on one day (UTC) is answered with status 200. Every other visit is answered with
  429 and a page marked as rate limited (what that page shows is not claimed to differ), or with an
  error: 404, 410 or 500. Assumed is that the database takes the mark of each visit and that
  visits do not overlap.\<close>

theorem status_once_a_day:
  assumes "list_all op_ok ops" "sorted (visit_times ops)"
  shows "length (filter (served i day) (status_run L p ops d)) \<le> 1 \<and>
    (\<forall>(e, j, rep) \<in> set (status_run L p ops d).
       case rep of StatusPage n v \<Rightarrow> n = 200 \<or> n = 429 \<and> vw_RateLimited v
       | StatusError n m \<Rightarrow> n \<in> {404, 410, 500})"
  using view_once_a_day[OF assms] run_answers[of _ _ _ L p ops d] unfolding answer_ok_def by blast

definition demo_site :: page_site where
  "demo_site = \<lparr>ps_SiteTitle = ''Pastebin'', ps_Theme = ''dark'', ps_BaseURL = ''https://p'', ps_SecurityEmail = [],
     ps_long_date = show_int, ps_iso_date = show_int\<rparr>"

definition demo_report :: security_report where
  "demo_report = \<lparr>r_TrackingID = ''sec_1'', r_Status = SecStatusReceived, r_Severity = ''Low'', r_Component = ''api'',
     r_EncryptedBody = [], r_EncMethod = ''pgp'', r_CreditPreference = ''anonymous'', r_CreditName = [],
     r_TokenHash = hex_encode ''tok'', r_MaintainerComment = [], r_DisclosureDays = 90, r_CreatedAt = 0, r_UpdatedAt = 0,
     r_DisclosedAt = None, r_TokenLastUsed = None\<rparr>"

definition demo_visit :: "instant \<Rightarrow> status_op" where
  "demo_visit t = Visit \<lparr>sq_now = t, sq_remoteAddr = ''1.2.3.4:5'', sq_get_fault = False, sq_mark_fault = False\<rparr> ''sec_1'' ''tok''"

lemma demo_visit_served:
  "filter (served ''sec_1'' 0) (status_run report_lib demo_site [demo_visit 1] (empty_db\<lparr>security_reports := [demo_report]\<rparr>)) \<noteq> []"
proof -
  have t: "trim_space ''sec_1'' = ''sec_1''" "trim_space ''tok'' = ''tok''" by (simp_all add: trim_space_plain plain_char_def)
  have s: "SecStatusReceived \<noteq> SecStatusDisclosed" "SecStatusReceived \<noteq> SecStatusWontFix"
    by (simp_all add: SecStatusReceived_def SecStatusDisclosed_def SecStatusWontFix_def)
  show ?thesis
    by (simp add: demo_visit_def handleSecurityReportStatus_def t s GetSecurityReport_def row_by_def demo_report_def
        report_lib_def securityReportClosedAt_def Let_def served_def counted_view_def utc_day_def Hour_def Minute_def Second_def)
qed

lemma status_once_a_day_witness:
  "length (filter (served ''sec_1'' 0) (status_run report_lib demo_site
     [demo_visit 1, Triage False 2 ''sec_1'' SecStatusTriaged [], demo_visit 3] (empty_db\<lparr>security_reports := [demo_report]\<rparr>))) \<le> 1"
  by (rule status_once_a_day[THEN conjunct1]) (simp_all add: demo_visit_def)

text \<open>The status page does not tell whether a tracking id exists: a visitor without the right token gets
  the same reply for a report that exists and for one that does not, and changes nothing.\<close>

theorem status_uniform_refusal:
  assumes "\<not> sq_get_fault e"
    and "\<forall>rep. row_by r_TrackingID (trim_space i) (security_reports d) = Some rep \<longrightarrow>
           hex_encode (lib_sha256 L (trim_space tok)) \<noteq> r_TokenHash rep"
  shows "\<exists>evs. handleSecurityReportStatus L p e i tok d = (StatusError 404 ''Report not found.'', evs, d)"
  using assms by (auto simp: handleSecurityReportStatus_def GetSecurityReport_def Let_def split: option.splits)

lemma status_uniform_refusal_witness:
  "\<exists>evs. handleSecurityReportStatus report_lib demo_site
     \<lparr>sq_now = 1, sq_remoteAddr = [], sq_get_fault = False, sq_mark_fault = False\<rparr> ''sec_1'' ''nope''
     (empty_db\<lparr>security_reports := [demo_report]\<rparr>) =
   (StatusError 404 ''Report not found.'', evs, empty_db\<lparr>security_reports := [demo_report]\<rparr>)"
  by (rule status_uniform_refusal)
    (simp_all add: row_by_def demo_report_def trim_space_plain plain_char_def report_lib_def hex_encode_def hex_byte_def hex_digit_def)

text \<open>On a second visit the page is made from the row as it is now, not as it was when it was last
  loaded.\<close>

lemma reused_token_shows_current:
  assumes "handleSecurityReportStatus L p e i tok d = (StatusPage 429 v, evs, d')"
    "row_by r_TrackingID (trim_space i) (security_reports d) = Some rep"
  shows "v = (reportStatusPageData p rep)\<lparr>vw_RateLimited := True\<rparr>"
  using assms by (auto simp: handleSecurityReportStatus_def GetSecurityReport_def Let_def
      split: option.splits if_splits prod.splits sum.splits)

subsection \<open>Acknowledgments\<close>

record ackEntry =
  ae_Year :: int
  ae_Display :: string
  ae_Severity :: string
  ae_Component :: string

fun ack_loop :: "ack_row list \<Rightarrow> int \<Rightarrow> ackEntry list" where
  "ack_loop [] anon = []"
| "ack_loop (rep # reps) anon =
     (let display = trim_space (ak_CreditName rep);
          hidden = (ak_CreditPreference rep = ''anonymous'' \<or> display = []);
          anon = (if hidden then anon + 1 else anon);
          display = (if hidden then ''Anonymous Researcher #'' @ show_int anon else display);
          year = (case ak_DisclosedAt rep of Some t \<Rightarrow> year_of (utc_day t) | None \<Rightarrow> 0)
      in \<lparr>ae_Year = year, ae_Display = display, ae_Severity = ak_Severity rep, ae_Component = ak_Component rep\<rparr>
         # ack_loop reps anon)"

definition buildAckEntries :: "ack_row list \<Rightarrow> ackEntry list" where
  "buildAckEntries reports = ack_loop reports 0"

definition handleSecurityThanks :: "bool \<Rightarrow> db \<Rightarrow> string + ackEntry list" where
  "handleSecurityThanks fault d =
     (case ListDisclosedSecurityReports fault d of
        Inl _ \<Rightarrow> Inl ''Could not load acknowledgments.''
      | Inr reports \<Rightarrow> Inr (buildAckEntries reports))"

definition hidden_name :: "ack_row \<Rightarrow> bool" where
  "hidden_name r \<longleftrightarrow> ak_CreditPreference r = ''anonymous'' \<or> trim_space (ak_CreditName r) = []"

definition ack_of :: "ack_row list \<Rightarrow> nat \<Rightarrow> ackEntry" where
  "ack_of acks i =
     (let r = acks ! i
      in \<lparr>ae_Year = (case ak_DisclosedAt r of Some t \<Rightarrow> year_of (utc_day t) | None \<Rightarrow> 0),
          ae_Display = (if hidden_name r
             then ''Anonymous Researcher #'' @ show_int (1 + int (length (filter hidden_name (take i acks))))
             else trim_space (ak_CreditName r)),
          ae_Severity = ak_Severity r, ae_Component = ak_Component r\<rparr>)"

lemma ack_loop_nth:
  "length (ack_loop acks n) = length acks \<and>
   (\<forall>i < length acks. ack_loop acks n ! i = (ack_of acks i)\<lparr>ae_Display := (if hidden_name (acks ! i)
      then ''Anonymous Researcher #'' @ show_int (n + 1 + int (length (filter hidden_name (take i acks))))
      else trim_space (ak_CreditName (acks ! i)))\<rparr>)"
proof (induction acks arbitrary: n)
  case (Cons r acks)
  note ih = Cons.IH[of "if hidden_name r then n + 1 else n"]
  have loop: "ack_loop (r # acks) n = (ack_of (r # acks) 0)\<lparr>ae_Display := (if hidden_name r
      then ''Anonymous Researcher #'' @ show_int (n + 1) else trim_space (ak_CreditName r))\<rparr> #
      ack_loop acks (if hidden_name r then n + 1 else n)"
    by (simp add: ack_of_def hidden_name_def Let_def)
  show ?case
  proof (intro conjI allI impI)
    show "length (ack_loop (r # acks) n) = length (r # acks)" unfolding loop using ih by simp
    fix i assume "i < length (r # acks)"
    then show "ack_loop (r # acks) n ! i = (ack_of (r # acks) i)\<lparr>ae_Display := (if hidden_name ((r # acks) ! i)
      then ''Anonymous Researcher #'' @ show_int (n + 1 + int (length (filter hidden_name (take i (r # acks)))))
      else trim_space (ak_CreditName ((r # acks) ! i)))\<rparr>"
      unfolding loop using ih by (cases i) (auto simp: ack_of_def Let_def algebra_simps)
  qed
qed simp


text \<open>The page as a function of what may be seen: a name only where its researcher wants it shown.\<close>

definition seen :: "ack_row \<Rightarrow> ack_row" where
  "seen r = (if ak_CreditPreference r = ''anonymous'' then r\<lparr>ak_CreditName := []\<rparr> else r)\<lparr>ak_TrackingID := []\<rparr>"

lemma ack_loop_seen: "ack_loop (map seen acks) n = ack_loop acks n"
  by (induction acks arbitrary: n) (simp_all add: seen_def Let_def)

lemma map_insort: "map f (insort_key (\<lambda>x. k (f x)) y ys) = insort_key k (f y) (map f ys)"
  by (induction ys) simp_all

lemma map_order_desc: "map f (order_desc (\<lambda>x. k (f x)) rows) = order_desc k (map f rows)"
  unfolding order_desc_def using map_insort[of f "\<lambda>y. - k y"] by (induction rows) simp_all

lemma listing_map:
  "ListDisclosedSecurityReports False d = Inr
     (order_desc (\<lambda>a. the (ak_DisclosedAt a)) (filter (\<lambda>a. ak_DisclosedAt a \<noteq> None) (map scan_ack (filter ack_listed (security_reports d)))) @
      filter (\<lambda>a. ak_DisclosedAt a = None) (map scan_ack (filter ack_listed (security_reports d))))"
proof -
  have k: "(\<lambda>r. the (r_DisclosedAt r)) = (\<lambda>r. the (ak_DisclosedAt (scan_ack r)))" by (simp add: scan_ack_def)
  have p: "r_DisclosedAt r = None \<longleftrightarrow> ak_DisclosedAt (scan_ack r) = None" for r by (simp add: scan_ack_def)
  show ?thesis
    by (simp only: ListDisclosedSecurityReports_def Let_def if_False map_append k map_order_desc filter_map comp_def p
        map_order_desc[of scan_ack "\<lambda>a. the (ak_DisclosedAt a)"])
qed

text \<open>The acknowledgments show one entry for each disclosed report whose researcher did not refuse
  credit, the latest disclosure first; under its own name or handle a researcher appears
  exactly where it gave one and did not ask for anonymity, and the others are numbered in the
  order of the page.\<close>

theorem thanks_page_exact:
  assumes "handleSecurityThanks False d = Inr entries" "disclosure_dated d"
  shows "\<exists>acks. mset acks = image_mset scan_ack (filter_mset ack_listed (mset (security_reports d))) \<and>
    sorted_wrt (\<lambda>a b. the (ak_DisclosedAt b) \<le> the (ak_DisclosedAt a)) acks \<and>
    entries = map (ack_of acks) [0..<length acks]"
proof -
  let ?rows = "map scan_ack (filter ack_listed (security_reports d))"
  let ?acks = "order_desc (\<lambda>a. the (ak_DisclosedAt a)) ?rows"
  have dated: "\<forall>a \<in> set ?rows. ak_DisclosedAt a \<noteq> None"
    using assms(2) by (auto simp: disclosure_dated_def ack_listed_def scan_ack_def)
  then have "filter (\<lambda>a. ak_DisclosedAt a \<noteq> None) ?rows = ?rows" "filter (\<lambda>a. ak_DisclosedAt a = None) ?rows = []"
    by (simp_all only: filter_id_conv filter_empty_conv)
  then have entries: "entries = ack_loop ?acks 0"
    using assms(1) by (simp add: handleSecurityThanks_def buildAckEntries_def listing_map)
  have "entries = map (ack_of ?acks) [0..<length ?acks]"
  proof (rule nth_equalityI)
    show "length entries = length (map (ack_of ?acks) [0..<length ?acks])" using ack_loop_nth[of ?acks 0] entries by simp
    fix i assume "i < length entries"
    then show "entries ! i = map (ack_of ?acks) [0..<length ?acks] ! i"
      using ack_loop_nth[of ?acks 0] entries by (auto simp: ack_of_def Let_def)
  qed
  moreover have "mset ?acks = image_mset scan_ack (filter_mset ack_listed (mset (security_reports d)))"
    by (simp add: mset_order_desc)
  moreover have "sorted_wrt (\<lambda>a b. the (ak_DisclosedAt b) \<le> the (ak_DisclosedAt a)) ?acks" by (rule order_desc_sorted)
  ultimately show ?thesis by blast
qed

definition disclosed_report :: security_report where
  "disclosed_report = demo_report\<lparr>r_Status := SecStatusDisclosed, r_DisclosedAt := Some 5\<rparr>"

lemma thanks_page_exact_witness:
  "\<exists>entries acks. handleSecurityThanks False (empty_db\<lparr>security_reports := [disclosed_report, demo_report]\<rparr>) = Inr entries \<and>
     mset acks = {#scan_ack disclosed_report#} \<and> entries = map (ack_of acks) [0..<length acks]"
proof -
  let ?d = "empty_db\<lparr>security_reports := [disclosed_report, demo_report]\<rparr>"
  obtain entries where h: "handleSecurityThanks False ?d = Inr entries" by (auto simp: handleSecurityThanks_def listing_map)
  have l: "ack_listed disclosed_report" "\<not> ack_listed demo_report"
    by (simp_all add: ack_listed_def disclosed_report_def demo_report_def SecStatusDisclosed_def SecStatusReceived_def)
  have "disclosure_dated ?d"
    by (simp add: disclosure_dated_def disclosed_report_def demo_report_def SecStatusDisclosed_def SecStatusReceived_def)
  from thanks_page_exact[OF h this] h l show ?thesis by auto
qed

text \<open>Anonymity is kept: the acknowledgments are the same whatever the name of a researcher who asked to
  stay anonymous, and whatever the reports that are not disclosed or whose researchers
  refused credit.\<close>

theorem thanks_keeps_anonymity:
  assumes "map (\<lambda>r. seen (scan_ack r)) (filter ack_listed (security_reports d)) =
           map (\<lambda>r. seen (scan_ack r)) (filter ack_listed (security_reports d'))"
  shows "handleSecurityThanks False d = handleSecurityThanks False d'"
proof -
  let ?rows = "\<lambda>d. map scan_ack (filter ack_listed (security_reports d))"
  let ?list = "\<lambda>rows. order_desc (\<lambda>a. the (ak_DisclosedAt a)) (filter (\<lambda>a. ak_DisclosedAt a \<noteq> None) rows) @
      filter (\<lambda>a. ak_DisclosedAt a = None) rows"
  have key: "ak_DisclosedAt (seen a) = ak_DisclosedAt a" for a by (simp add: seen_def)
  have "map seen (?list rows) = ?list (map seen rows)" for rows
    using map_order_desc[of seen "\<lambda>a. the (ak_DisclosedAt a)"] by (simp add: filter_map comp_def key)
  then have page: "handleSecurityThanks False x = Inr (ack_loop (?list (map seen (?rows x))) 0)" for x
    using ack_loop_seen[of "?list (?rows x)" 0]
    by (simp only: handleSecurityThanks_def buildAckEntries_def listing_map sum.case)
  have "map seen (?rows d) = map seen (?rows d')" using assms by (simp add: comp_def)
  then show ?thesis unfolding page by simp
qed

lemma thanks_keeps_anonymity_witness:
  "handleSecurityThanks False (empty_db\<lparr>security_reports := [disclosed_report\<lparr>r_CreditName := ''Eve''\<rparr>]\<rparr>) =
   handleSecurityThanks False (empty_db\<lparr>security_reports := [demo_report, disclosed_report]\<rparr>)"
  by (rule thanks_keeps_anonymity)
    (simp add: ack_listed_def disclosed_report_def demo_report_def SecStatusDisclosed_def SecStatusReceived_def seen_def scan_ack_def)

text \<open>The numbers are not kept: a disclosure moves every earlier anonymous researcher on by one.\<close>

lemma anonymous_renumbered:
  assumes "hidden_name new" "hidden_name old"
  shows "map ae_Display (buildAckEntries [old]) = [''Anonymous Researcher #'' @ show_int 1]"
    and "map ae_Display (buildAckEntries [new, old]) =
      [''Anonymous Researcher #'' @ show_int 1, ''Anonymous Researcher #'' @ show_int 2]"
  using assms by (simp_all add: buildAckEntries_def hidden_name_def Let_def)

end
