(* ===== verification/Request_Origin.thy ===== *)
theory Request_Origin
  imports Go_Net Http Config_Contact
begin

section \<open>Where a request comes from\<close>

text \<open>
  The part of \<^verbatim>\<open>src/src/server/server.go\<close> that decides which proxy headers to believe: the trust in the
  immediate peer, the address of the client, the base URL of a reply, and
  \<^verbatim>\<open>src/src/server/domainlearn.go\<close>. A request carries, besides what \<^typ>\<open>http_request\<close> holds, the address of its
  peer and the values that the middleware puts into its context.
\<close>

record http_ctx =
  cx_req :: http_request
  cx_remote :: string                  \<comment> \<open>RemoteAddr\<close>
  cx_peer :: "string option"           \<comment> \<open>peerAddrKey\<close>
  cx_rawpath :: string                 \<comment> \<open>URL.RawPath\<close>
  cx_authority :: string               \<comment> \<open>scheme and host of a URL in absolute form, else empty\<close>
  cx_querytext :: string               \<comment> \<open>the URL from its question mark on\<close>
  cx_cookie :: "string \<Rightarrow> string option"
  cx_allowlisted :: bool
  cx_csrf :: "string option"           \<comment> \<open>csrfTokenKey\<close>

definition header :: "http_ctx \<Rightarrow> string \<Rightarrow> string" where
  "header r k = rq_header (cx_req r) k"

subsection \<open>Trusted peers\<close>

record trust_config =
  tc_Address :: string
  tc_Additional :: "string list"
  tc_resolved :: "(string \<times> ip list) list"    \<comment> \<open>resolvedProxyIPs\<close>

definition privateNets :: "ip_net list" where
  "privateNets = List.map_filter ParseCIDR
     [''127.0.0.0/8'', ''::1/128'', ''10.0.0.0/8'', ''172.16.0.0/12'', ''192.168.0.0/16'', ''fc00::/7'',
      ''169.254.0.0/16'', ''fe80::/10'']"

definition peerAddr :: "http_ctx \<Rightarrow> string" where
  "peerAddr r = (case cx_peer r of Some v \<Rightarrow> if v \<noteq> [] then v else cx_remote r | None \<Rightarrow> cx_remote r)"

definition same_24 :: "ip \<Rightarrow> ip \<Rightarrow> bool" where
  "same_24 a b = (case (to4 a, to4 b) of
     (Some a4, Some b4) \<Rightarrow> mask_ip 24 a4 = mask_ip 24 b4
   | _ \<Rightarrow> False)"

definition additional_match :: "ip \<Rightarrow> string \<Rightarrow> bool" where
  "additional_match ip e =
     (if contains e ''/''
      then (case ParseCIDR e of Some n \<Rightarrow> net_contains n ip | None \<Rightarrow> False)
      else (case ParseIP e of Some x \<Rightarrow> ip_equal x ip | None \<Rightarrow> False))"

definition trusted_ip :: "trust_config \<Rightarrow> ip \<Rightarrow> bool" where
  "trusted_ip t ip \<longleftrightarrow>
     list_ex (\<lambda>n. net_contains n ip) privateNets \<or>
     (case ParseIP (trim_space (tc_Address t)) of Some l \<Rightarrow> same_24 ip l | None \<Rightarrow> False) \<or>
     list_ex (additional_match ip) (tc_Additional t) \<or>
     list_ex (\<lambda>(_, ips). list_ex (\<lambda>x. ip_equal x ip) ips) (tc_resolved t)"

definition isTrustedPeer :: "trust_config \<Rightarrow> http_ctx \<Rightarrow> bool" where
  "isTrustedPeer t r =
     (case ParseIP (client_ip (peerAddr r)) of None \<Rightarrow> False | Some ip \<Rightarrow> trusted_ip t ip)"

text \<open>One round of the resolver; \<^verbatim>\<open>LookupIPAddr\<close> is an argument.\<close>

definition refreshDNSTrustedProxies :: "(string \<Rightarrow> ip list option) \<Rightarrow> trust_config \<Rightarrow> trust_config" where
  "refreshDNSTrustedProxies lookup t =
     t\<lparr>tc_resolved := List.map_filter (\<lambda>e.
         if contains e ''/'' \<or> ParseIP e \<noteq> None then None
         else map_option (Pair e) (lookup e)) (tc_Additional t)\<rparr>"

subsection \<open>The address of the client\<close>

fun first_header :: "http_ctx \<Rightarrow> string list \<Rightarrow> string" where
  "first_header r [] = []"
| "first_header r (h # hs) = (if header r h \<noteq> [] then header r h else first_header r hs)"

definition claimed_ip :: "http_ctx \<Rightarrow> string" where
  "claimed_ip r =
     (let real = trim_space (first_header r [''CF-Connecting-IP'', ''True-Client-IP'', ''X-Real-IP'']);
          real = (if real = [] \<and> header r ''X-Forwarded-For'' \<noteq> []
                  then trim_space (takeWhile (\<lambda>c. c \<noteq> CHR '','') (header r ''X-Forwarded-For'')) else real)
      in if real = [] \<and> header r ''X-Client-IP'' \<noteq> [] then trim_space (header r ''X-Client-IP'') else real)"

definition realIPMiddleware :: "trust_config \<Rightarrow> http_ctx \<Rightarrow> http_ctx" where
  "realIPMiddleware t r0 =
     (let r = r0\<lparr>cx_peer := Some (cx_remote r0)\<rparr> in
      if isTrustedPeer t r then
        (let port = (case SplitHostPort (cx_remote r) of Some (_, p) \<Rightarrow> p | None \<Rightarrow> []);
             realIP = claimed_ip r
         in if realIP \<noteq> [] \<and> ParseIP realIP \<noteq> None
            then r\<lparr>cx_remote := (if port \<noteq> [] then JoinHostPort realIP port else realIP)\<rparr>
            else r)
      else r)"

subsection \<open>The base URL\<close>

record url_config =
  uc_trust :: trust_config
  uc_onion :: string
  uc_b32 :: string
  uc_base_url :: string
  uc_fqdn :: string              \<comment> \<open>ResolveFQDN\<close>

definition strip_port :: "string \<Rightarrow> string" where
  "strip_port h = (case SplitHostPort h of Some (x, _) \<Rightarrow> x | None \<Rightarrow> h)"

definition torRequestOnion :: "url_config \<Rightarrow> http_ctx \<Rightarrow> string" where
  "torRequestOnion u r =
     (let onion = trim_space (uc_onion u)
      in if onion = [] then []
         else if fold_case (strip_port (rq_host (cx_req r))) = fold_case onion then onion else [])"

definition i2pRequestB32 :: "url_config \<Rightarrow> http_ctx \<Rightarrow> string" where
  "i2pRequestB32 u r =
     (let b32 = trim_space (uc_b32 u)
      in if b32 = [] then []
         else if fold_case (strip_port (rq_host (cx_req r))) = fold_case b32 then b32 else [])"

definition named_scheme :: "string \<Rightarrow> string" where
  "named_scheme v = (if fold_case v = ''https'' then ''https'' else if fold_case v = ''http'' then ''http'' else [])"

definition forwardedScheme :: "http_ctx \<Rightarrow> bool \<Rightarrow> string" where
  "forwardedScheme r trusted =
     (if \<not> trusted then []
      else
        let p = named_scheme (trim_space (header r ''X-Forwarded-Proto'')) in
        if p \<noteq> [] then p
        else if fold_case (trim_space (header r ''X-Forwarded-Ssl'')) = ''on'' then ''https''
        else named_scheme (trim_space (header r ''X-Url-Scheme'')))"

definition splitHostPort :: "string \<Rightarrow> string \<times> string" where
  "splitHostPort host =
     (case SplitHostPort host of
        Some (h, p) \<Rightarrow> (h, p)
      | None \<Rightarrow> if has_prefix host ''['' \<and> has_suffix host '']'' then (take (length host - 2) (drop 1 host), []) else (host, []))"

definition isRoutableHost :: "string \<Rightarrow> bool" where
  "isRoutableHost h0 =
     (let h = trim_space h0 in
      if h = [] \<or> is_localhost h then False
      else case ParseIP h of
             None \<Rightarrow> True
           | Some ip \<Rightarrow>
               if IsLoopback ip \<or> IsPrivate ip \<or> IsLinkLocalUnicast ip \<or> IsLinkLocalMulticast ip \<or> IsUnspecified ip
               then False else IsGlobalUnicast ip)"

text \<open>The loop over the characters stops at a byte that is a control character, a blank, a colon, a
  backslash or \<^verbatim>\<open>DEL\<close>; the bytes of a longer character are none of these.\<close>

definition validPathPrefix :: "string \<Rightarrow> bool" where
  "validPathPrefix p \<longleftrightarrow> p \<noteq> [] \<and> hd p = CHR ''/'' \<and> \<not> has_prefix p ''//'' \<and> \<not> has_prefix p [CHR ''/'', CHR 0x5C] \<and>
     list_all (\<lambda>c. c \<noteq> CHR '':'' \<and> c \<noteq> CHR 0x5C \<and> (of_char c :: nat) > 32 \<and> (of_char c :: nat) \<noteq> 127) p"

fun trimmed_header :: "http_ctx \<Rightarrow> string list \<Rightarrow> string" where
  "trimmed_header r [] = []"
| "trimmed_header r (h # hs) = (if trim_space (header r h) \<noteq> [] then trim_space (header r h) else trimmed_header r hs)"

definition prefix_headers :: "string list" where
  "prefix_headers = [''X-Forwarded-Prefix'', ''X-Forwarded-Path'', ''X-Script-Name'']"

definition proxy_prefix :: "http_ctx \<Rightarrow> string" where
  "proxy_prefix r =
     (let p = trim_right_char CHR ''/'' (first_header r prefix_headers) in if validPathPrefix p then p else [])"

text \<open>The host and port of the URL before the standard ports are removed.\<close>

definition url_host :: "url_config \<Rightarrow> http_ctx \<Rightarrow> bool \<Rightarrow> string \<times> string" where
  "url_host u r trusted =
     (let fh = (if trusted then trimmed_header r [''X-Forwarded-Host'', ''X-Real-Host'', ''X-Original-Host''] else []);
          (hostname, port) = splitHostPort (if fh \<noteq> [] then fh else rq_host (cx_req r));
          f = trim_space (uc_fqdn u);
          (hostname, port) =
            (if fh = [] \<and> \<not> isRoutableHost hostname \<and> f \<noteq> [] \<and> \<not> is_localhost f then splitHostPort f else (hostname, port));
          fp = (if trusted then trim_space (header r ''X-Forwarded-Port'') else [])
      in (hostname, if fp \<noteq> [] then fp else port))"

definition baseURL :: "url_config \<Rightarrow> http_ctx \<Rightarrow> string" where
  "baseURL u r =
     (let onion = torRequestOnion u r; b32 = i2pRequestB32 u r in
      if onion \<noteq> [] then ''http://'' @ onion
      else if b32 \<noteq> [] then ''http://'' @ b32
      else if uc_base_url u \<noteq> [] then uc_base_url u
      else
        let trusted = isTrustedPeer (uc_trust u) r;
            fs = forwardedScheme r trusted;
            scheme = (if fs \<noteq> [] then fs else if rq_tls (cx_req r) then ''https'' else ''http'');
            (hostname, port) = url_host u r trusted;
            port = (if (scheme = ''http'' \<and> port = ''80'') \<or> (scheme = ''https'' \<and> port = ''443'') then [] else port);
            hostport = (if port \<noteq> [] then JoinHostPort hostname port
                        else if CHR '':'' \<in> set hostname then ''['' @ hostname @ '']'' else hostname)
        in scheme @ ''://'' @ hostport @ (if trusted then proxy_prefix r else []))"

text \<open>Here a prefix that is blank after trimming does not end the search; an invalid one does.\<close>

fun asset_header :: "http_ctx \<Rightarrow> string list \<Rightarrow> string" where
  "asset_header r [] = []"
| "asset_header r (h # hs) =
     (let p = trim_right_char CHR ''/'' (header r h)
      in if p \<noteq> [] then (if validPathPrefix p then p else []) else asset_header r hs)"

text \<open>\<^verbatim>\<open>url.Parse\<close> yields the path of the configured URL.\<close>

definition assetPrefix :: "(string \<Rightarrow> string option) \<Rightarrow> url_config \<Rightarrow> http_ctx \<Rightarrow> string" where
  "assetPrefix url_path u r =
     (let p = (if isTrustedPeer (uc_trust u) r then asset_header r prefix_headers else [])
      in if p \<noteq> [] then p
         else if uc_base_url u \<noteq> [] then
           (case url_path (uc_base_url u) of
              Some b \<Rightarrow> let q = trim_right_char CHR ''/'' b in if validPathPrefix q then q else []
            | None \<Rightarrow> [])
         else [])"


subsection \<open>Learning the domain\<close>

record learner_config =
  dc_Learning :: bool
  dc_MinSamples :: int
  dc_SampleWindow :: duration

record domain_learner =
  dl_observations :: "string \<Rightarrow> instant list"
  dl_baseDomain :: string
  dl_wildcardDomain :: string

definition newDomainLearner :: domain_learner where
  "newDomainLearner = \<lparr>dl_observations = (\<lambda>_. []), dl_baseDomain = [], dl_wildcardDomain = []\<rparr>"

definition sample_window :: "learner_config \<Rightarrow> duration" where
  "sample_window c = (if dc_SampleWindow c \<le> 0 then 5 * Minute else dc_SampleWindow c)"

definition min_samples :: "learner_config \<Rightarrow> int" where
  "min_samples c = (if dc_MinSamples c \<le> 0 then 3 else dc_MinSamples c)"

text \<open>\<^verbatim>\<open>publicsuffix.EffectiveTLDPlusOne\<close> is an argument, as for the validation of host names.\<close>

definition Observe :: "host_lib \<Rightarrow> learner_config \<Rightarrow> instant \<Rightarrow> string \<Rightarrow> domain_learner \<Rightarrow> domain_learner" where
  "Observe H c now hostname d =
     (if hostname = [] \<or> \<not> dc_Learning c then d
      else
        let fresh = filter (\<lambda>t. t > now - sample_window c) (dl_observations d hostname @ [now]);
            d = d\<lparr>dl_observations := (dl_observations d)(hostname := fresh)\<rparr>
        in if int (length fresh) < min_samples c then d
           else case hl_etld_plus_one H hostname of
                  None \<Rightarrow> d
                | Some base \<Rightarrow>
                    if base = [] \<or> base = dl_baseDomain d then d
                    else d\<lparr>dl_baseDomain := base, dl_wildcardDomain := ''*.'' @ base\<rparr>)"

definition CORSOrigins :: "domain_learner \<Rightarrow> string list" where
  "CORSOrigins d =
     (if dl_baseDomain d = [] then []
      else [''https://'' @ dl_baseDomain d, ''http://'' @ dl_baseDomain d,
            ''https://'' @ dl_wildcardDomain d, ''http://'' @ dl_wildcardDomain d])"

definition observed_host :: "trust_config \<Rightarrow> http_ctx \<Rightarrow> string" where
  "observed_host t r =
     (if isTrustedPeer t r then strip_port (trim_space (header r ''X-Forwarded-Host'')) else [])"

definition domainObserveMiddleware ::
  "host_lib \<Rightarrow> learner_config \<Rightarrow> trust_config \<Rightarrow> instant \<Rightarrow> http_ctx \<Rightarrow> domain_learner \<Rightarrow> domain_learner" where
  "domainObserveMiddleware H c t now r d =
     (if observed_host t r \<noteq> [] then Observe H c now (observed_host t r) d else d)"

subsection \<open>Only a trusted peer is believed\<close>

definition with_headers :: "(string \<Rightarrow> string) \<Rightarrow> http_ctx \<Rightarrow> http_ctx" where
  "with_headers h r = r\<lparr>cx_req := (cx_req r)\<lparr>rq_header := h\<rparr>\<rparr>"

definition trusted_addr :: "trust_config \<Rightarrow> string \<Rightarrow> bool" where
  "trusted_addr t a = (case ParseIP (client_ip a) of None \<Rightarrow> False | Some ip \<Rightarrow> trusted_ip t ip)"

lemma trusted_after_real_ip: "cx_remote r \<noteq> [] \<Longrightarrow> isTrustedPeer t (realIPMiddleware t r) = trusted_addr t (cx_remote r)"
  by (simp add: isTrustedPeer_def realIPMiddleware_def peerAddr_def trusted_addr_def Let_def)

lemma real_ip_untrusted:
  "cx_remote r \<noteq> [] \<Longrightarrow> \<not> trusted_addr t (cx_remote r) \<Longrightarrow> realIPMiddleware t r = r\<lparr>cx_peer := Some (cx_remote r)\<rparr>"
  by (simp add: isTrustedPeer_def realIPMiddleware_def peerAddr_def trusted_addr_def Let_def)

text \<open>C28: A client that is not a trusted proxy cannot disguise itself: the address the server
  works with is that of the connection, and the base URL of its replies, the prefix of its
  assets and what the server learns about its domain are the same whatever header fields it
  sends besides Host, which Go keeps apart from the other fields (the request line, Host and the
  connection being the same).\<close>

theorem untrusted_headers_ignored:
  assumes peer: "cx_remote r \<noteq> []" "\<not> trusted_addr (uc_trust u) (cx_remote r)"
  shows "cx_remote (realIPMiddleware (uc_trust u) (with_headers h r)) = cx_remote r \<and>
    baseURL u (realIPMiddleware (uc_trust u) (with_headers h r)) = baseURL u (realIPMiddleware (uc_trust u) r) \<and>
    assetPrefix up u (realIPMiddleware (uc_trust u) (with_headers h r)) = assetPrefix up u (realIPMiddleware (uc_trust u) r) \<and>
    domainObserveMiddleware H c (uc_trust u) now (realIPMiddleware (uc_trust u) (with_headers h r)) d = d"
proof -
  let ?t = "uc_trust u" and ?r = "r\<lparr>cx_peer := Some (cx_remote r)\<rparr>"
  have same: "realIPMiddleware ?t r = ?r" "realIPMiddleware ?t (with_headers h r) = with_headers h ?r"
    using peer real_ip_untrusted[of r] real_ip_untrusted[of "with_headers h r"] by (simp_all add: with_headers_def)
  have t: "isTrustedPeer ?t (with_headers h ?r) = False" "isTrustedPeer ?t ?r = False"
    using peer by (simp_all add: isTrustedPeer_def peerAddr_def trusted_addr_def with_headers_def)
  have eqs: "torRequestOnion u (with_headers h ?r) = torRequestOnion u ?r" "i2pRequestB32 u (with_headers h ?r) = i2pRequestB32 u ?r"
    "url_host u (with_headers h ?r) False = url_host u ?r False" "rq_tls (cx_req (with_headers h ?r)) = rq_tls (cx_req ?r)"
    by (simp_all add: torRequestOnion_def i2pRequestB32_def url_host_def with_headers_def Let_def)
  have "forwardedScheme x False = []" for x by (simp add: forwardedScheme_def)
  then have "baseURL u (with_headers h ?r) = baseURL u ?r" by (simp only: baseURL_def t eqs Let_def if_False)
  moreover have "assetPrefix up u (with_headers h ?r) = assetPrefix up u ?r" by (simp only: assetPrefix_def t if_False)
  moreover have "domainObserveMiddleware H c ?t now (with_headers h ?r) d = d"
    by (simp add: domainObserveMiddleware_def observed_host_def t)
  moreover have "cx_remote (with_headers h ?r) = cx_remote r" by (simp add: with_headers_def)
  ultimately show ?thesis unfolding same by blast
qed

text \<open>A peer that is trusted is believed: the address becomes the one it names, if that is one.\<close>

lemma ip_text_chars:
  assumes "ParseIP s = Some ip"
  shows "CHR ''['' \<notin> set s" "CHR '']'' \<notin> set s"
  using ParseIP_chars[OF assms] by (auto simp: ip_char_def is_hex_def hex_val_def list_all_iff)

lemma real_ip_claim:
  assumes "SplitHostPort (cx_remote r) = Some (host, port)" "port \<noteq> []"
  shows "client_ip (cx_remote (realIPMiddleware t r)) =
    (if trusted_addr t (cx_remote r) \<and> ParseIP (claimed_ip r) \<noteq> None then claimed_ip r else host)"
proof -
  have ne: "cx_remote r \<noteq> []" using assms(1) by (auto simp: SplitHostPort_def last_index_of_def)
  have claim: "claimed_ip (r\<lparr>cx_peer := x\<rparr>) = claimed_ip r" for x
    by (simp add: claimed_ip_def header_def Let_def)
  have blank: "ParseIP [] = None" by (simp add: ParseIP_def)
  show ?thesis
  proof (cases "trusted_addr t (cx_remote r) \<and> ParseIP (claimed_ip r) \<noteq> None")
    case True
    then obtain ip where ip: "ParseIP (claimed_ip r) = Some ip" by blast
    have "realIPMiddleware t r = r\<lparr>cx_peer := Some (cx_remote r), cx_remote := JoinHostPort (claimed_ip r) port\<rparr>"
      using True ne assms claim blank
      by (auto simp: realIPMiddleware_def isTrustedPeer_def peerAddr_def trusted_addr_def Let_def)
    then show ?thesis
      using True SplitHostPort_join[OF ip_text_chars[OF ip] SplitHostPort_port[OF assms(1)]] by (simp add: client_ip_def)
  next
    case False
    then have "cx_remote (realIPMiddleware t r) = cx_remote r"
      using ne claim by (auto simp: realIPMiddleware_def isTrustedPeer_def peerAddr_def trusted_addr_def Let_def)
    with False assms(1) show ?thesis by (auto simp: client_ip_def)
  qed
qed

text \<open>The first of the five headers that is there decides, if it names anything.\<close>

lemma five_split:
  "[a, b, c, d, e] = before @ h # after \<Longrightarrow>
     before = [] \<and> h = a \<or> before = [a] \<and> h = b \<or> before = [a, b] \<and> h = c \<or> before = [a, b, c] \<and> h = d \<or>
     before = [a, b, c, d] \<and> h = e"
  by (auto simp: Cons_eq_append_conv)

lemma claimed_ip_first:
  assumes "[''CF-Connecting-IP'', ''True-Client-IP'', ''X-Real-IP'', ''X-Forwarded-For'', ''X-Client-IP''] = before @ h # after"
    and "\<forall>k \<in> set before. header r k = []" and "header r h \<noteq> []"
    and "a = trim_space (if h = ''X-Forwarded-For'' then takeWhile (\<lambda>c. c \<noteq> CHR '','') (header r h) else header r h)"
    and "a \<noteq> []"
  shows "claimed_ip r = a"
  using five_split[OF assms(1)] assms(2-5) by (elim disjE) (simp_all add: claimed_ip_def Let_def trim_space_Nil)

lemma claimed_ip_none:
  "\<forall>k \<in> {''CF-Connecting-IP'', ''True-Client-IP'', ''X-Real-IP'', ''X-Forwarded-For'', ''X-Client-IP''}. header r k = [] \<Longrightarrow>
   claimed_ip r = []"
  by (simp add: claimed_ip_def trim_space_Nil)

text \<open>C17: The client's address is the one a trusted proxy names, in the documented order of the headers.
  For a connection from a host and port: if the connection is not trusted, the address is the
  host. If it is, take the first header present of CF-Connecting-IP, True-Client-IP, X-Real-IP,
  X-Forwarded-For and X-Client-IP, without surrounding blanks, of X-Forwarded-For the part before
  the first comma: if that is an address, it is the client's; if it is not blank and no address, the client's is
  the host, and likewise if there is none of the five. (A header that is there but blank is not covered.)\<close>

theorem real_ip_exact:
  assumes "SplitHostPort (cx_remote r) = Some (host, port)" "port \<noteq> []"
  shows "(\<not> trusted_addr t (cx_remote r) \<longrightarrow> client_ip (cx_remote (realIPMiddleware t r)) = host) \<and>
    (\<forall>before h after a.
       [''CF-Connecting-IP'', ''True-Client-IP'', ''X-Real-IP'', ''X-Forwarded-For'', ''X-Client-IP''] = before @ h # after \<longrightarrow>
       trusted_addr t (cx_remote r) \<and> (\<forall>k \<in> set before. header r k = []) \<and> header r h \<noteq> [] \<longrightarrow>
       a = trim_space (if h = ''X-Forwarded-For'' then takeWhile (\<lambda>c. c \<noteq> CHR '','') (header r h) else header r h) \<longrightarrow>
       a \<noteq> [] \<longrightarrow>
       client_ip (cx_remote (realIPMiddleware t r)) = (if ParseIP a \<noteq> None then a else host)) \<and>
    ((\<forall>k \<in> {''CF-Connecting-IP'', ''True-Client-IP'', ''X-Real-IP'', ''X-Forwarded-For'', ''X-Client-IP''}. header r k = []) \<longrightarrow>
       client_ip (cx_remote (realIPMiddleware t r)) = host)"
proof (intro conjI allI impI)
  fix before h after a
  assume h: "[''CF-Connecting-IP'', ''True-Client-IP'', ''X-Real-IP'', ''X-Forwarded-For'', ''X-Client-IP''] = before @ h # after"
    and k: "trusted_addr t (cx_remote r) \<and> (\<forall>k \<in> set before. header r k = []) \<and> header r h \<noteq> []"
    and a: "a = trim_space (if h = ''X-Forwarded-For'' then takeWhile (\<lambda>c. c \<noteq> CHR '','') (header r h) else header r h)" "a \<noteq> []"
  have "claimed_ip r = a" using k by (intro claimed_ip_first[OF h _ _ a]) simp_all
  with real_ip_claim[OF assms, of t] k
  show "client_ip (cx_remote (realIPMiddleware t r)) = (if ParseIP a \<noteq> None then a else host)" by simp
next
  have blank: "ParseIP [] = None" by (simp add: ParseIP_def)
  assume "\<forall>k \<in> {''CF-Connecting-IP'', ''True-Client-IP'', ''X-Real-IP'', ''X-Forwarded-For'', ''X-Client-IP''}. header r k = []"
  with real_ip_claim[OF assms, of t] blank show "client_ip (cx_remote (realIPMiddleware t r)) = host"
    by (simp add: claimed_ip_none)
qed (simp add: real_ip_claim[OF assms])

subsection \<open>What is learned has been seen\<close>

text \<open>A history of requests, each passing through both middlewares.\<close>

fun learn_run ::
  "host_lib \<Rightarrow> learner_config \<Rightarrow> trust_config \<Rightarrow> (instant \<times> http_ctx) list \<Rightarrow> domain_learner \<Rightarrow> domain_learner" where
  "learn_run H c t [] d = d"
| "learn_run H c t ((now, r) # rs) d =
     learn_run H c t rs (domainObserveMiddleware H c t now (realIPMiddleware t r) d)"

definition sightings :: "trust_config \<Rightarrow> string \<Rightarrow> instant \<Rightarrow> (instant \<times> http_ctx) list \<Rightarrow> nat" where
  "sightings t host since rs =
     length (filter (\<lambda>(now, r). now > since \<and> observed_host t (realIPMiddleware t r) = host) rs)"

definition seen_enough :: "host_lib \<Rightarrow> learner_config \<Rightarrow> trust_config \<Rightarrow> (instant \<times> http_ctx) list \<Rightarrow> string \<Rightarrow> bool" where
  "seen_enough H c t rs base \<longleftrightarrow>
     (\<exists>past now r future host. rs = past @ (now, r) # future \<and> host \<noteq> [] \<and> hl_etld_plus_one H host = Some base \<and>
        min_samples c \<le> int (sightings t host (now - sample_window c) (past @ [(now, r)])))"

definition obs_ok :: "trust_config \<Rightarrow> (instant \<times> http_ctx) list \<Rightarrow> (string \<Rightarrow> instant list) \<Rightarrow> bool" where
  "obs_ok t rs obs \<longleftrightarrow>
     (\<forall>host since. host \<noteq> [] \<longrightarrow> length (filter (\<lambda>x. x > since) (obs host)) \<le> sightings t host since rs)"

definition learner_ok :: "host_lib \<Rightarrow> learner_config \<Rightarrow> trust_config \<Rightarrow> (instant \<times> http_ctx) list \<Rightarrow> domain_learner \<Rightarrow> bool" where
  "learner_ok H c t rs d \<longleftrightarrow> obs_ok t rs (dl_observations d) \<and>
     (dl_baseDomain d \<noteq> [] \<longrightarrow> dl_wildcardDomain d = ''*.'' @ dl_baseDomain d \<and> seen_enough H c t rs (dl_baseDomain d))"

lemma length_filter_filter: "length (filter P (filter Q xs)) \<le> length (filter P xs)"
proof -
  have "filter P (filter Q xs) = filter Q (filter P xs)" by (simp add: conj_commute)
  then show ?thesis by (simp only: length_filter_le)
qed

lemma sightings_snoc:
  "sightings t host since (rs @ [(now, r)]) =
     sightings t host since rs + (if now > since \<and> observed_host t (realIPMiddleware t r) = host then 1 else 0)"
  by (simp add: sightings_def)

lemma seen_enough_snoc: "seen_enough H c t rs base \<Longrightarrow> seen_enough H c t (rs @ [x]) base"
  unfolding seen_enough_def by (metis append.assoc append_Cons)

lemma obs_ok_snoc:
  assumes "obs_ok t rs obs"
  shows "obs_ok t (rs @ [(now, r)]) obs"
  unfolding obs_ok_def
proof (intro allI impI)
  fix host :: string and since
  assume "host \<noteq> []"
  then have "length (filter (\<lambda>x. x > since) (obs host)) \<le> sightings t host since rs"
    using assms unfolding obs_ok_def by blast
  then show "length (filter (\<lambda>x. x > since) (obs host)) \<le> sightings t host since (rs @ [(now, r)])"
    unfolding sightings_snoc by linarith
qed

lemma obs_ok_fresh:
  assumes obs: "obs_ok t rs obs" and h: "host = observed_host t (realIPMiddleware t r)"
  shows "obs_ok t (rs @ [(now, r)]) (obs(host := filter Q (obs host @ [now])))"
  unfolding obs_ok_def
proof (intro allI impI)
  fix k :: string and since
  assume k: "k \<noteq> []"
  show "length (filter (\<lambda>x. x > since) ((obs(host := filter Q (obs host @ [now]))) k))
      \<le> sightings t k since (rs @ [(now, r)])"
  proof (cases "k = host")
    case True
    have "length (filter (\<lambda>x. x > since) (obs host)) \<le> sightings t host since rs"
      using obs k True unfolding obs_ok_def by blast
    then have "length (filter (\<lambda>x. x > since) (obs host @ [now])) \<le> sightings t host since (rs @ [(now, r)])"
      unfolding sightings_snoc h by simp
    with True show ?thesis
      using length_filter_filter[of "\<lambda>x. x > since" Q "obs host @ [now]"] by (simp only: fun_upd_same order_trans)
  next
    case False
    with obs_ok_snoc[OF obs] k show ?thesis by (simp add: obs_ok_def)
  qed
qed

lemma observe_ok:
  assumes ok: "learner_ok H c t rs d" and h: "host = observed_host t (realIPMiddleware t r)"
  shows "learner_ok H c t (rs @ [(now, r)]) (Observe H c now host d)"
proof (cases "host = [] \<or> \<not> dc_Learning c")
  case True
  then show ?thesis using ok obs_ok_snoc seen_enough_snoc by (simp add: Observe_def learner_ok_def)
next
  case False
  define fresh where "fresh = filter (\<lambda>x. x > now - sample_window c) (dl_observations d host @ [now])"
  define e where "e = d\<lparr>dl_observations := (dl_observations d)(host := fresh)\<rparr>"
  have obs: "obs_ok t (rs @ [(now, r)]) (dl_observations e)"
    using obs_ok_fresh[OF _ h, of rs "dl_observations d" now "\<lambda>x. x > now - sample_window c"] ok
    unfolding learner_ok_def e_def fresh_def by simp
  then have e: "learner_ok H c t (rs @ [(now, r)]) e"
    using ok seen_enough_snoc by (simp add: learner_ok_def e_def)
  have enough: "seen_enough H c t (rs @ [(now, r)]) b"
    if "hl_etld_plus_one H host = Some b" "\<not> int (length fresh) < min_samples c" for b
  proof -
    have "filter (\<lambda>x. x > now - sample_window c) fresh = fresh" by (simp add: fresh_def)
    with obs False have "length fresh \<le> sightings t host (now - sample_window c) (rs @ [(now, r)])"
      unfolding obs_ok_def e_def by (metis domain_learner.select_convs(1) domain_learner.surjective
          domain_learner.update_convs(1) fun_upd_same)
    with that False show ?thesis unfolding seen_enough_def by (intro exI conjI refl) (auto simp del: of_nat_le_iff)
  qed
  have "Observe H c now host d =
      (if int (length fresh) < min_samples c then e
       else case hl_etld_plus_one H host of None \<Rightarrow> e
         | Some b \<Rightarrow> if b = [] \<or> b = dl_baseDomain e then e else e\<lparr>dl_baseDomain := b, dl_wildcardDomain := ''*.'' @ b\<rparr>)"
    using False unfolding Observe_def e_def fresh_def Let_def by (simp del: filter_append filter.simps)
  moreover have "learner_ok H c t (rs @ [(now, r)]) (e\<lparr>dl_baseDomain := b, dl_wildcardDomain := ''*.'' @ b\<rparr>)"
    if "hl_etld_plus_one H host = Some b" "\<not> int (length fresh) < min_samples c" for b
    using obs enough[OF that] by (simp add: learner_ok_def)
  ultimately show ?thesis using e by (simp split: option.split)
qed

lemma learner_step:
  assumes ok: "learner_ok H c t rs d"
  shows "learner_ok H c t (rs @ [(now, r)]) (domainObserveMiddleware H c t now (realIPMiddleware t r) d)"
  using observe_ok[OF ok refl, of now r] ok obs_ok_snoc seen_enough_snoc
  by (simp add: domainObserveMiddleware_def learner_ok_def)

lemma learn_run_snoc: "learn_run H c t (rs @ [(now, r)]) d =
    domainObserveMiddleware H c t now (realIPMiddleware t r) (learn_run H c t rs d)"
  by (induction H c t rs d rule: learn_run.induct) simp_all

lemma learn_run_ok: "learner_ok H c t rs (learn_run H c t rs newDomainLearner)"
proof (induction rs rule: rev_induct)
  case Nil
  show ?case by (simp add: learner_ok_def obs_ok_def newDomainLearner_def)
next
  case (snoc x rs)
  obtain now r where x: "x = (now, r)" by fastforce
  show ?case unfolding x learn_run_snoc by (rule learner_step[OF snoc])
qed

text \<open>C29: The server never takes a domain for its own that was not seen often enough: whatever requests
  arrive, when it has learned a domain then some host below it was named by trusted proxies in
  at least the required number of requests within one sampling window.\<close>

theorem learned_domain_seen:
  assumes "dl_baseDomain (learn_run H c t rs newDomainLearner) \<noteq> []"
  shows "\<exists>past now r future host. rs = past @ (now, r) # future \<and> host \<noteq> [] \<and>
    hl_etld_plus_one H host = Some (dl_baseDomain (learn_run H c t rs newDomainLearner)) \<and>
    min_samples c \<le> int (sightings t host (now - sample_window c) (past @ [(now, r)]))"
  using learn_run_ok[of H c t rs] assms by (simp add: learner_ok_def seen_enough_def)

definition plain_trust :: trust_config where
  "plain_trust = \<lparr>tc_Address = [], tc_Additional = [], tc_resolved = []\<rparr>"

definition demo_ctx :: "string \<Rightarrow> (string \<times> string) list \<Rightarrow> http_ctx" where
  "demo_ctx remote hs = \<lparr>cx_req = \<lparr>rq_method = ''POST'', rq_path = ''/api/v1/pastes'', rq_txt = False, rq_tls = False,
     rq_host = ''p.example'', rq_header = (\<lambda>k. opt_str (map_of hs k)), rq_query = Map.empty, rq_body = [],
     rq_maxbytes = None, rq_form = None\<rparr>, cx_remote = remote, cx_peer = None, cx_rawpath = [], cx_authority = [], cx_querytext = [], cx_cookie = Map.empty,
     cx_allowlisted = False, cx_csrf = None\<rparr>"

lemmas ip_eval = parse_v4_def v4_field_def digit_val_def mask_byte_def

lemma zero_bytes:
  "replicate 10 (0::nat) = [0, 0, 0, 0, 0, 0, 0, 0, 0, 0]" "replicate 14 (0::nat) = [0, 0, 0, 0, 0, 0, 0, 0, 0, 0, 0, 0, 0, 0]"
  "replicate 15 (0::nat) = [0, 0, 0, 0, 0, 0, 0, 0, 0, 0, 0, 0, 0, 0, 0]"
  by (simp_all add: numeral_eq_Suc)

lemma v6_literals:
  "ParseCIDR ''::1/128'' = Some \<lparr>in_ip = replicate 15 0 @ [1], in_bits = 128\<rparr>"
  "ParseCIDR ''fc00::/7'' = Some \<lparr>in_ip = 252 # replicate 15 0, in_bits = 7\<rparr>"
  "ParseCIDR ''fe80::/10'' = Some \<lparr>in_ip = 254 # 128 # replicate 14 0, in_bits = 10\<rparr>"
  by (simp_all add: ParseCIDR_def ParseIP_def parse_v6_def parse_v6_loop.simps is_hex_def hex_val_def hex_number_def
    has_prefix_def ip_eval zero_bytes)

lemma privateNets_list:
  "privateNets = [\<lparr>in_ip = [127, 0, 0, 0], in_bits = 8\<rparr>, \<lparr>in_ip = replicate 15 0 @ [1], in_bits = 128\<rparr>,
     \<lparr>in_ip = [10, 0, 0, 0], in_bits = 8\<rparr>, \<lparr>in_ip = [172, 16, 0, 0], in_bits = 12\<rparr>,
     \<lparr>in_ip = [192, 168, 0, 0], in_bits = 16\<rparr>, \<lparr>in_ip = 252 # replicate 15 0, in_bits = 7\<rparr>,
     \<lparr>in_ip = [169, 254, 0, 0], in_bits = 16\<rparr>, \<lparr>in_ip = 254 # 128 # replicate 14 0, in_bits = 10\<rparr>]"
proof -
  have "ParseCIDR ''127.0.0.0/8'' = Some \<lparr>in_ip = [127, 0, 0, 0], in_bits = 8\<rparr>"
    "ParseCIDR ''10.0.0.0/8'' = Some \<lparr>in_ip = [10, 0, 0, 0], in_bits = 8\<rparr>"
    "ParseCIDR ''172.16.0.0/12'' = Some \<lparr>in_ip = [172, 16, 0, 0], in_bits = 12\<rparr>"
    "ParseCIDR ''192.168.0.0/16'' = Some \<lparr>in_ip = [192, 168, 0, 0], in_bits = 16\<rparr>"
    "ParseCIDR ''169.254.0.0/16'' = Some \<lparr>in_ip = [169, 254, 0, 0], in_bits = 16\<rparr>"
    by (simp_all add: ParseCIDR_def ParseIP_def v4_prefix_def ip_eval)
  then show ?thesis using v6_literals by (simp add: privateNets_def map_filter_simps)
qed

lemma demo_hosts:
  "SplitHostPort ''8.8.8.8:5'' = Some (''8.8.8.8'', ''5'')" "SplitHostPort ''10.0.0.1:5'' = Some (''10.0.0.1'', ''5'')"
  using SplitHostPort_join[of "''8.8.8.8''" "''5''"] SplitHostPort_join[of "''10.0.0.1''" "''5''"]
  by (simp_all add: JoinHostPort_def)

lemma demo_trust:
  "trusted_addr plain_trust ''8.8.8.8:5'' = False" "trusted_addr plain_trust ''10.0.0.1:5'' = True"
proof -
  have ip: "ParseIP ''8.8.8.8'' = Some (v4_prefix @ [8, 8, 8, 8])" "ParseIP ''10.0.0.1'' = Some (v4_prefix @ [10, 0, 0, 1])"
    by (simp_all add: ParseIP_def ip_eval)
  have blank: "ParseIP [] = None" by (simp add: ParseIP_def)
  show "trusted_addr plain_trust ''8.8.8.8:5'' = False" "trusted_addr plain_trust ''10.0.0.1:5'' = True"
    by (simp_all add: trusted_addr_def client_ip_def demo_hosts ip trusted_ip_def plain_trust_def privateNets_list
      net_contains_def net_number_def canon_def to4_def v4_prefix_def blank mask_byte_def zero_bytes)
qed

theorem untrusted_headers_ignored_witness:
  "let u = \<lparr>uc_trust = plain_trust, uc_onion = [], uc_b32 = [], uc_base_url = [], uc_fqdn = []\<rparr>;
       r = demo_ctx ''8.8.8.8:5'' [(''X-Real-IP'', ''10.9.9.9''), (''X-Forwarded-Host'', ''evil.example'')]
   in cx_remote (realIPMiddleware plain_trust r) = ''8.8.8.8:5'' \<and>
      baseURL u (realIPMiddleware plain_trust r) = baseURL u (realIPMiddleware plain_trust (demo_ctx ''8.8.8.8:5'' []))"
proof -
  let ?u = "\<lparr>uc_trust = plain_trust, uc_onion = [], uc_b32 = [], uc_base_url = [], uc_fqdn = []\<rparr>"
  let ?hs = "[(''X-Real-IP'', ''10.9.9.9''), (''X-Forwarded-Host'', ''evil.example'')]"
  have "demo_ctx ''8.8.8.8:5'' ?hs = with_headers (\<lambda>k. opt_str (map_of ?hs k)) (demo_ctx ''8.8.8.8:5'' [])"
    by (simp add: demo_ctx_def with_headers_def)
  moreover have "cx_remote (demo_ctx ''8.8.8.8:5'' []) = ''8.8.8.8:5''" by (simp add: demo_ctx_def)
  ultimately show ?thesis
    using untrusted_headers_ignored[of "demo_ctx ''8.8.8.8:5'' []" ?u "\<lambda>k. opt_str (map_of ?hs k)"] demo_trust(1)
    unfolding Let_def by simp
qed

theorem real_ip_exact_witness:
  "client_ip (cx_remote (realIPMiddleware plain_trust (demo_ctx ''10.0.0.1:5'' [(''X-Real-IP'', ''8.8.8.8'')]))) = ''8.8.8.8''"
proof -
  let ?r = "demo_ctx ''10.0.0.1:5'' [(''X-Real-IP'', ''8.8.8.8'')]"
  have "trim_space ''8.8.8.8'' = ''8.8.8.8''" by (rule trim_space_plain) (simp_all add: plain_char_def)
  then have a: "''8.8.8.8'' = trim_space (if ''X-Real-IP'' = ''X-Forwarded-For'' then
      takeWhile (\<lambda>c. c \<noteq> CHR '','') (header ?r ''X-Real-IP'') else header ?r ''X-Real-IP'')"
    by (simp add: header_def demo_ctx_def opt_str_def)
  have h: "\<forall>k \<in> set [''CF-Connecting-IP'', ''True-Client-IP'']. header ?r k = []" "header ?r ''X-Real-IP'' \<noteq> []"
    by (simp_all add: header_def demo_ctx_def opt_str_def)
  have p: "ParseIP ''8.8.8.8'' \<noteq> None" by (simp add: ParseIP_def ip_eval)
  have remote: "cx_remote ?r = ''10.0.0.1:5''" by (simp add: demo_ctx_def)
  then have sp: "SplitHostPort (cx_remote ?r) = Some (''10.0.0.1'', ''5'')" and t: "trusted_addr plain_trust (cx_remote ?r)"
    using demo_hosts(2) demo_trust(2) by simp_all
  have five: "[''CF-Connecting-IP'', ''True-Client-IP'', ''X-Real-IP'', ''X-Forwarded-For'', ''X-Client-IP''] =
      [''CF-Connecting-IP'', ''True-Client-IP''] @ ''X-Real-IP'' # [''X-Forwarded-For'', ''X-Client-IP'']" by simp
  have ne: "''5'' \<noteq> []" "''8.8.8.8'' \<noteq> []" by simp_all
  from real_ip_exact[OF sp ne(1), of plain_trust, THEN conjunct2, THEN conjunct1, rule_format, OF five _ a ne(2)] t h p
  show ?thesis by simp
qed

text \<open>A host named three times within the window.\<close>

definition demo_hosts_lib :: host_lib where
  "demo_hosts_lib = \<lparr>hl_parse_ip = (\<lambda>_. False), hl_public_suffix = (\<lambda>_. (''example'', True)),
     hl_etld_plus_one = (\<lambda>h. Some ''p.example'')\<rparr>"

theorem learned_domain_seen_witness:
  "let rs = map (\<lambda>n. (n, demo_ctx ''10.0.0.1:5'' [(''X-Forwarded-Host'', ''p.example'')])) [1, 2, 3];
       c = \<lparr>dc_Learning = True, dc_MinSamples = 0, dc_SampleWindow = 0\<rparr>
   in dl_baseDomain (learn_run demo_hosts_lib c plain_trust rs newDomainLearner) = ''p.example'' \<and>
      (\<exists>past now r future host. rs = past @ (now, r) # future \<and>
         min_samples c \<le> int (sightings plain_trust host (now - sample_window c) (past @ [(now, r)])))"
proof -
  let ?r = "demo_ctx ''10.0.0.1:5'' [(''X-Forwarded-Host'', ''p.example'')]"
  let ?c = "\<lparr>dc_Learning = True, dc_MinSamples = 0, dc_SampleWindow = 0\<rparr>"
  have "trim_space ''p.example'' = ''p.example''" by (rule trim_space_plain) (simp_all add: plain_char_def)
  moreover have "SplitHostPort ''p.example'' = None" by (simp add: SplitHostPort_def last_index_of_def)
  moreover have "header (realIPMiddleware plain_trust ?r) ''X-Forwarded-Host'' = ''p.example''"
    by (simp add: realIPMiddleware_def Let_def header_def demo_ctx_def opt_str_def)
  ultimately have host: "observed_host plain_trust (realIPMiddleware plain_trust ?r) = ''p.example''"
    using trusted_after_real_ip[of ?r plain_trust] demo_trust(2)
    by (simp add: observed_host_def strip_port_def demo_ctx_def)
  have run: "dl_baseDomain (learn_run demo_hosts_lib ?c plain_trust [(1, ?r), (2, ?r), (3, ?r)] newDomainLearner) = ''p.example''"
    by (simp add: domainObserveMiddleware_def host Observe_def newDomainLearner_def sample_window_def min_samples_def
      Minute_def demo_hosts_lib_def)
  show ?thesis
    using learned_domain_seen[of demo_hosts_lib ?c plain_trust "[(1, ?r), (2, ?r), (3, ?r)]"] run
    unfolding Let_def by simp blast
qed

end
