(* ===== verification/Request_Guard.thy ===== *)
theory Request_Guard
  imports Request_Origin Go_Path
begin

section \<open>Paths and addresses\<close>

text \<open>
  The guards of \<^verbatim>\<open>src/src/server/security_middleware.go\<close>, the redirect of trailing slashes, the access to the
  metrics and the operator's token of \<^verbatim>\<open>src/src/server/server.go\<close>, and the country policy of
  \<^verbatim>\<open>src/src/geoip/geoip.go\<close>. A middleware answers the request, with the headers set so far, or passes it,
  changed or not, to the next one. Opening, reading and refreshing the GeoIP databases is not modelled:
  a lookup in one of them is an argument.
\<close>

record set_cookie =
  ck_Name :: string
  ck_Value :: string
  ck_Path :: string
  ck_HttpOnly :: bool
  ck_Secure :: bool
  ck_SameSiteStrict :: bool

record writer =
  rw_header :: "string \<Rightarrow> string option"
  rw_cookies :: "set_cookie list"
  rw_events :: "string list list"      \<comment> \<open>what the security and authentication logs were told\<close>

datatype verdict = Answered reply writer | Passed http_ctx writer

definition set_header :: "string \<Rightarrow> string \<Rightarrow> writer \<Rightarrow> writer" where
  "set_header k v w = w\<lparr>rw_header := (rw_header w)(k \<mapsto> v)\<rparr>"

definition log_event :: "string list \<Rightarrow> writer \<Rightarrow> writer" where
  "log_event e w = w\<lparr>rw_events := rw_events w @ [e]\<rparr>"

definition answer :: "reply \<Rightarrow> writer \<Rightarrow> verdict" where
  "answer rep w = Answered (rep\<lparr>rp_header := rw_header w ++ rp_header rep\<rparr>) w"

definition refuse :: "int \<Rightarrow> string \<Rightarrow> string \<Rightarrow> writer \<Rightarrow> verdict" where
  "refuse status code msg = answer (writeJSON status (JError code msg))"

abbreviation cx_path :: "http_ctx \<Rightarrow> string" where
  "cx_path r \<equiv> rq_path (cx_req r)"

definition with_path :: "string \<Rightarrow> http_ctx \<Rightarrow> http_ctx" where
  "with_path p r = r\<lparr>cx_req := (cx_req r)\<lparr>rq_path := p\<rparr>\<rparr>"

subsection \<open>Trailing slashes\<close>

text \<open>\<^verbatim>\<open>URL.String\<close> after the path was set: the escaped form of the request no longer fits, so the path is
  escaped anew. In a path the server accepts the first character is a slash.\<close>

definition path_plain :: "char \<Rightarrow> bool" where
  "path_plain c \<longleftrightarrow> in_range 97 122 c \<or> in_range 65 90 c \<or> in_range 48 57 c \<or>
     c \<in> set ''-_.~$&+,/:;=@''"

definition escape_path :: "string \<Rightarrow> string" where
  "escape_path s = concat (map (\<lambda>c. if path_plain c then [c]
     else [CHR ''%'', upper_hex ((of_char c :: nat) div 16), upper_hex ((of_char c :: nat) mod 16)]) s)"

definition url_String :: "http_ctx \<Rightarrow> string" where
  "url_String r = cx_authority r @ escape_path (cx_path r) @ cx_querytext r"

text \<open>The target of \<^verbatim>\<open>http.Redirect\<close>: without scheme and host it is made absolute and cleaned.\<close>

definition path_dir :: "string \<Rightarrow> string" where
  "path_dir p = rev (dropWhile (\<lambda>c. c \<noteq> CHR ''/'') (rev p))"

definition redirect_target :: "golib \<Rightarrow> string \<Rightarrow> string \<Rightarrow> string" where
  "redirect_target L oldpath url =
     (if lib_url L url = Some ([], []) then
        (let url = (if url = [] \<or> hd url \<noteq> CHR ''/'' then path_dir (if oldpath = [] then ''/'' else oldpath) @ url else url);
             path = takeWhile (\<lambda>c. c \<noteq> CHR ''?'') url; query = dropWhile (\<lambda>c. c \<noteq> CHR ''?'') url;
             cleaned = Clean path
         in (if has_suffix path ''/'' \<and> \<not> has_suffix cleaned ''/'' then cleaned @ ''/'' else cleaned) @ query)
      else url)"

definition last_segment :: "string \<Rightarrow> string" where
  "last_segment p = (case last_index_of CHR ''/'' p of Some i \<Rightarrow> drop i p | None \<Rightarrow> p)"

definition noTrailingSlash :: "golib \<Rightarrow> http_ctx \<Rightarrow> writer \<Rightarrow> verdict" where
  "noTrailingSlash L r w =
     (let p = cx_path r in
      if p \<noteq> ''/'' \<and> has_suffix p ''/'' \<and> \<not> contains (last_segment p) ''.''
      then (let r' = with_path (trim_right_char CHR ''/'' p) r
            in answer (http_Redirect (cx_req r') (redirect_target L (cx_path r') (url_String r')) 301) w)
      else Passed r w)"

subsection \<open>Paths\<close>

definition traversal :: "http_ctx \<Rightarrow> bool" where
  "traversal r =
     (let original = cx_path r; raw = (if cx_rawpath r = [] then original else cx_rawpath r)
      in contains original ''..'' \<or> contains raw ''..'' \<or> contains (to_lower raw) ''%2e'')"

definition normal_path :: "string \<Rightarrow> string" where
  "normal_path original =
     (let cleaned = Clean original;
          cleaned = (if has_prefix cleaned ''/'' then cleaned else CHR ''/'' # cleaned)
      in if original \<noteq> ''/'' \<and> has_suffix original ''/'' \<and> \<not> has_suffix cleaned ''/'' then cleaned @ ''/'' else cleaned)"

definition pathSecurityMiddleware :: "http_ctx \<Rightarrow> writer \<Rightarrow> verdict" where
  "pathSecurityMiddleware r w =
     (if traversal r then refuse 400 ''BAD_REQUEST'' ''bad request'' w
      else Passed (with_path (normal_path (cx_path r)) r) w)"

subsection \<open>The allowlist\<close>

definition allow_entry :: "string \<Rightarrow> ip_net option" where
  "allow_entry e =
     (if contains e ''/'' then ParseCIDR e
      else case ParseIP e of
             None \<Rightarrow> None
           | Some ip \<Rightarrow> ParseCIDR (e @ (if to4 ip \<noteq> None then ''/32'' else ''/128'')))"

definition newAllowlistSet :: "string list \<Rightarrow> ip_net list" where
  "newAllowlistSet = List.map_filter allow_entry"

definition allowlist_contains :: "ip_net list \<Rightarrow> ip \<Rightarrow> bool" where
  "allowlist_contains nets ip = list_ex (\<lambda>n. net_contains n ip) nets"

definition allowlistMiddleware :: "string list \<Rightarrow> http_ctx \<Rightarrow> writer \<Rightarrow> verdict" where
  "allowlistMiddleware entries r w =
     (case ParseIP (client_ip (cx_remote r)) of
        Some ip \<Rightarrow> if allowlist_contains (newAllowlistSet entries) ip then Passed (r\<lparr>cx_allowlisted := True\<rparr>) w else Passed r w
      | None \<Rightarrow> Passed r w)"

subsection \<open>The blocklists\<close>

text \<open>\<^verbatim>\<open>bufio.Scanner\<close>: the lines, without a carriage return at their end, up to the first one that does not
  fit into its buffer of 64 KiB.\<close>

definition scan_lines :: "string \<Rightarrow> string list" where
  "scan_lines s =
     (let ls = split_on CHR 0x0A s; ls = (if last ls = [] then butlast ls else ls)
      in map (\<lambda>l. trim_suffix l [CHR 0x0D]) (takeWhile (\<lambda>l. length l < 65536) ls))"

text \<open>A directory entry with the content that can be read from it; the set of exact addresses is
  keyed by their text, which is the same for two addresses exactly when their canonical bytes are.\<close>

record dir_file =
  df_name :: string
  df_dir :: bool
  df_content :: "string option"

record blocklist_store =
  bs_ips :: "ip list"
  bs_nets :: "ip_net list"

definition block_line :: "string \<Rightarrow> blocklist_store \<Rightarrow> blocklist_store" where
  "block_line text b =
     (let line = trim_space text in
      if line = [] \<or> has_prefix line ''#'' then b
      else if contains line ''/'' then
        (case ParseCIDR line of Some n \<Rightarrow> b\<lparr>bs_nets := bs_nets b @ [n]\<rparr> | None \<Rightarrow> b)
      else (case ParseIP line of Some ip \<Rightarrow> b\<lparr>bs_ips := bs_ips b @ [canon ip]\<rparr> | None \<Rightarrow> b))"

definition block_file :: "dir_file \<Rightarrow> blocklist_store \<Rightarrow> blocklist_store" where
  "block_file f b =
     (if df_dir f \<or> \<not> has_suffix (df_name f) ''.txt'' then b
      else case df_content f of None \<Rightarrow> b | Some s \<Rightarrow> fold block_line (scan_lines s) b)"

definition loadBlocklists :: "dir_file list option \<Rightarrow> blocklist_store" where
  "loadBlocklists dir = (case dir of
     None \<Rightarrow> \<lparr>bs_ips = [], bs_nets = []\<rparr>
   | Some fs \<Rightarrow> fold block_file fs \<lparr>bs_ips = [], bs_nets = []\<rparr>)"

definition blocklist_contains :: "blocklist_store \<Rightarrow> ip \<Rightarrow> bool" where
  "blocklist_contains b ip \<longleftrightarrow> canon ip \<in> set (bs_ips b) \<or> list_ex (\<lambda>n. net_contains n ip) (bs_nets b)"

definition blocklistMiddleware :: "dir_file list option \<Rightarrow> http_ctx \<Rightarrow> writer \<Rightarrow> verdict" where
  "blocklistMiddleware dir r w =
     (if cx_allowlisted r then Passed r w
      else case ParseIP (client_ip (cx_remote r)) of
             Some ip \<Rightarrow> if blocklist_contains (loadBlocklists dir) ip
                        then refuse 403 ''FORBIDDEN'' ''forbidden'' w else Passed r w
           | None \<Rightarrow> Passed r w)"

subsection \<open>Countries\<close>

record 'f city_record =
  cr_City :: string
  cr_CountryCode :: string
  cr_State1 :: string
  cr_Timezone :: string
  cr_Latitude :: 'f
  cr_Longitude :: 'f

record 'f geo_info =
  gi_IP :: string
  gi_CountryCode :: string
  gi_City :: string
  gi_State1 :: string
  gi_Timezone :: string
  gi_Latitude :: 'f
  gi_Longitude :: 'f
  gi_ASN :: int
  gi_ASNOrg :: string
  gi_RegistrantOrg :: string

record 'f geo_db =
  gd_CountryMode :: string
  gd_DenyCountries :: "string list"
  gd_AllowCountries :: "string list"
  gd_Allowlist :: "string list"
  gd_count :: "(ip \<Rightarrow> string option) option"            \<comment> \<open>None: the database is not open\<close>
  gd_asn :: "(ip \<Rightarrow> (int \<times> string) option) option"
  gd_city :: "(ip \<Rightarrow> 'f city_record option) option"
  gd_whois :: "(ip \<Rightarrow> string option) option"
  gd_override :: "(ip \<Rightarrow> string) option"

definition db_lookup :: "(ip \<Rightarrow> 'a option) option \<Rightarrow> ip \<Rightarrow> 'a option" where
  "db_lookup d ip = (case d of None \<Rightarrow> None | Some f \<Rightarrow> f ip)"

text \<open>The zero coordinate is an argument.\<close>

definition Lookup :: "'f \<Rightarrow> 'f geo_db \<Rightarrow> ip \<Rightarrow> 'f geo_info" where
  "Lookup z d ip =
     (let i = \<lparr>gi_IP = ip_String ip, gi_CountryCode = opt_str (db_lookup (gd_count d) ip), gi_City = [], gi_State1 = [],
                gi_Timezone = [], gi_Latitude = z, gi_Longitude = z, gi_ASN = 0, gi_ASNOrg = [], gi_RegistrantOrg = []\<rparr>;
          i = (case db_lookup (gd_asn d) ip of None \<Rightarrow> i | Some (n, org) \<Rightarrow> i\<lparr>gi_ASN := n, gi_ASNOrg := org\<rparr>);
          i = (case db_lookup (gd_city d) ip of None \<Rightarrow> i | Some c \<Rightarrow>
                 i\<lparr>gi_City := cr_City c,
                   gi_CountryCode := (if gi_CountryCode i = [] then cr_CountryCode c else gi_CountryCode i),
                   gi_State1 := cr_State1 c, gi_Timezone := cr_Timezone c,
                   gi_Latitude := cr_Latitude c, gi_Longitude := cr_Longitude c\<rparr>);
          i = (case db_lookup (gd_whois d) ip of None \<Rightarrow> i | Some org \<Rightarrow> i\<lparr>gi_RegistrantOrg := org\<rparr>)
      in case gd_override d of None \<Rightarrow> i | Some f \<Rightarrow> i\<lparr>gi_CountryCode := f ip\<rparr>)"

definition countryMode :: "'f geo_db \<Rightarrow> string" where
  "countryMode d =
     (let m = to_lower (trim_space (gd_CountryMode d)) in
      if m = ''none'' then ''none'' else if m = ''deny'' then ''deny'' else if m = ''allow'' then ''allow''
      else if gd_AllowCountries d \<noteq> [] then ''allow''
      else if gd_DenyCountries d \<noteq> [] then ''deny''
      else ''none'')"

definition geo_private :: "ip \<Rightarrow> bool" where
  "geo_private ip \<longleftrightarrow> IsLoopback ip \<or> IsLinkLocalUnicast ip \<or> IsLinkLocalMulticast ip \<or>
     list_ex (\<lambda>n. net_contains n ip) (List.map_filter ParseCIDR
       [''10.0.0.0/8'', ''172.16.0.0/12'', ''192.168.0.0/16'', ''fc00::/7'', ''100.64.0.0/10''])"

definition geo_allowed :: "string list \<Rightarrow> ip \<Rightarrow> bool" where
  "geo_allowed entries ip =
     list_ex (\<lambda>a. a = ip_String ip \<or> (case ParseCIDR a of Some n \<Rightarrow> net_contains n ip | None \<Rightarrow> False)) entries"

definition IsBlocked :: "'f \<Rightarrow> 'f geo_db \<Rightarrow> ip \<Rightarrow> bool" where
  "IsBlocked z d ip =
     (if geo_private ip \<or> geo_allowed (gd_Allowlist d) ip \<or> countryMode d = ''none'' then False
      else
        let cc = to_upper (gi_CountryCode (Lookup z d ip)) in
        if countryMode d = ''allow'' then cc \<noteq> [] \<and> \<not> list_ex (\<lambda>c. to_upper c = cc) (gd_AllowCountries d)
        else list_ex (\<lambda>c. to_upper c = cc) (gd_DenyCountries d))"

definition geoMiddleware :: "'f \<Rightarrow> 'f geo_db option \<Rightarrow> http_ctx \<Rightarrow> writer \<Rightarrow> verdict" where
  "geoMiddleware z db r w =
     (case (db, ParseIP (client_ip (cx_remote r))) of
        (Some d, Some ip) \<Rightarrow>
          if IsBlocked z d ip then answer (http_Error ''access denied: your region is not permitted'' 403) w else Passed r w
      | _ \<Rightarrow> Passed r w)"

subsection \<open>Metrics and the operator\<close>

definition metricsIPAllowlistMiddleware :: "string list \<Rightarrow> http_ctx \<Rightarrow> writer \<Rightarrow> verdict" where
  "metricsIPAllowlistMiddleware allowed r w =
     (case ParseIP (client_ip (cx_remote r)) of
        None \<Rightarrow> refuse 403 ''FORBIDDEN'' ''metrics access denied'' w
      | Some ip \<Rightarrow>
          if IsLoopback ip then Passed r w
          else if allowed \<noteq> [] \<and> allowlist_contains (newAllowlistSet allowed) ip then Passed r w
          else refuse 403 ''FORBIDDEN'' ''metrics access denied'' w)"

text \<open>The hash of the configured token; the zero hash stands for none.\<close>

definition requireOperatorToken :: "golib \<Rightarrow> bytes \<Rightarrow> http_ctx \<Rightarrow> writer \<Rightarrow> verdict" where
  "requireOperatorToken L token_hash r w =
     (let auth = header r ''Authorization'';
          denied = (\<lambda>reason. refuse 401 ''UNAUTHORIZED'' ''operator token required''
                     (set_header ''WWW-Authenticate'' (''Bearer realm='' @ [CHR 0x22] @ ''pastebin'' @ [CHR 0x22])
                       (log_event [''operator'', ''fail'', reason] w)))
      in if \<not> (length auth > 7 \<and> has_prefix auth ''Bearer '') then denied ''missing_bearer_token''
         else if token_hash = zero_hash
         then refuse 503 ''SERVER_ERROR'' ''server.token not configured'' (log_event [''operator'', ''fail'', ''token_not_configured''] w)
         else if lib_sha256 L (drop 7 auth) \<noteq> token_hash then denied ''invalid_token''
         else Passed r (log_event [''operator'', ''success'', []] w))"

subsection \<open>What every middleware promises\<close>

text \<open>A middleware that passes a request leaves its origin alone (where it comes from, its method,
  host, headers and cookies, and what it was allowlisted for) and takes no header back that
  was set for the reply. The laws carry over to a chain of middlewares.\<close>

definition same_origin_data :: "http_ctx \<Rightarrow> http_ctx \<Rightarrow> bool" where
  "same_origin_data r r' \<longleftrightarrow> cx_remote r' = cx_remote r \<and> cx_peer r' = cx_peer r \<and> cx_cookie r' = cx_cookie r \<and>
     rq_method (cx_req r') = rq_method (cx_req r) \<and> rq_host (cx_req r') = rq_host (cx_req r) \<and>
     rq_header (cx_req r') = rq_header (cx_req r) \<and> (cx_allowlisted r \<longrightarrow> cx_allowlisted r')"

definition keeps_headers :: "writer \<Rightarrow> writer \<Rightarrow> bool" where
  "keeps_headers w w' \<longleftrightarrow> dom (rw_header w) \<subseteq> dom (rw_header w') \<and> set (rw_cookies w) \<subseteq> set (rw_cookies w') \<and>
     set (rw_events w) \<subseteq> set (rw_events w')"

fun run_chain :: "(http_ctx \<Rightarrow> writer \<Rightarrow> verdict) list \<Rightarrow> http_ctx \<Rightarrow> writer \<Rightarrow> verdict" where
  "run_chain [] r w = Passed r w"
| "run_chain (m # ms) r w = (case m r w of Answered rep v \<Rightarrow> Answered rep v | Passed r' w' \<Rightarrow> run_chain ms r' w')"

locale middleware =
  fixes mw :: "http_ctx \<Rightarrow> writer \<Rightarrow> verdict"
  assumes origin: "mw r w = Passed r' w' \<Longrightarrow> same_origin_data r r'"
    and headers: "mw r w = Passed r' w' \<Longrightarrow> keeps_headers w w'"
begin

lemma remote: "mw r w = Passed r' w' \<Longrightarrow> cx_remote r' = cx_remote r"
  using origin by (simp add: same_origin_data_def)

lemma header_kept: "mw r w = Passed r' w' \<Longrightarrow> rw_header w k \<noteq> None \<Longrightarrow> rw_header w' k \<noteq> None"
  using headers[of r w r' w'] unfolding keeps_headers_def by blast

lemma request_header: "mw r w = Passed r' w' \<Longrightarrow> header r' k = header r k"
  using origin by (simp add: same_origin_data_def header_def)

end

lemma same_origin_data_trans: "same_origin_data a b \<Longrightarrow> same_origin_data b c \<Longrightarrow> same_origin_data a c"
  by (auto simp: same_origin_data_def)

lemma keeps_headers_trans: "keeps_headers a b \<Longrightarrow> keeps_headers b c \<Longrightarrow> keeps_headers a c"
  unfolding keeps_headers_def by blast

lemma same_origin_data_refl: "same_origin_data r r"
  by (simp add: same_origin_data_def)

lemma keeps_headers_refl: "keeps_headers w w"
  by (simp add: keeps_headers_def)

lemma run_chain_append:
  "run_chain (ms @ ns) r w =
     (case run_chain ms r w of Answered rep v \<Rightarrow> Answered rep v | Passed r' w' \<Rightarrow> run_chain ns r' w')"
  by (induction ms arbitrary: r w) (simp_all split: verdict.split)

lemma run_chain_passed:
  assumes "run_chain ms r w = Passed r' w'" "\<forall>m \<in> set ms. middleware m"
  shows "same_origin_data r r' \<and> keeps_headers w w'"
  using assms
proof (induction ms arbitrary: r w)
  case (Cons m ms)
  then obtain r1 w1 where s: "m r w = Passed r1 w1" "run_chain ms r1 w1 = Passed r' w'"
    by (auto split: verdict.splits)
  have "middleware m" using Cons.prems by simp
  then have "same_origin_data r r1" "keeps_headers w w1"
    using s(1) middleware.origin middleware.headers by blast+
  with Cons.IH[OF s(2)] Cons.prems show ?case
    using same_origin_data_trans keeps_headers_trans by fastforce
qed (simp add: same_origin_data_refl keeps_headers_refl)

lemma answered_not_passed [simp]: "answer rep w \<noteq> Passed r' w'" "refuse n c m w \<noteq> Passed r' w'"
  by (simp_all add: answer_def refuse_def)

lemma with_path_origin: "same_origin_data r (with_path p r)"
  by (simp add: same_origin_data_def with_path_def)

interpretation slash: middleware "noTrailingSlash L"
  by unfold_locales
    (auto simp: noTrailingSlash_def Let_def same_origin_data_refl keeps_headers_refl split: if_splits)

interpretation paths: middleware pathSecurityMiddleware
  by unfold_locales
    (auto simp: pathSecurityMiddleware_def with_path_origin keeps_headers_refl split: if_splits)

interpretation allow: middleware "allowlistMiddleware entries"
  by unfold_locales
    (auto simp: allowlistMiddleware_def same_origin_data_def keeps_headers_refl split: if_splits option.splits)

interpretation block: middleware "blocklistMiddleware dir"
  by unfold_locales
    (auto simp: blocklistMiddleware_def same_origin_data_refl keeps_headers_refl split: if_splits option.splits)

interpretation geo: middleware "geoMiddleware z db"
  by unfold_locales
    (auto simp: geoMiddleware_def same_origin_data_refl keeps_headers_refl split: if_splits option.splits)

interpretation metrics: middleware "metricsIPAllowlistMiddleware allowed"
  by unfold_locales
    (auto simp: metricsIPAllowlistMiddleware_def same_origin_data_refl keeps_headers_refl split: if_splits option.splits)

interpretation operator: middleware "requireOperatorToken L h"
  by unfold_locales
    (auto simp: requireOperatorToken_def Let_def same_origin_data_refl keeps_headers_def log_event_def split: if_splits)

subsection \<open>Paths that are passed\<close>

definition clean_path :: "string \<Rightarrow> bool" where
  "clean_path p \<longleftrightarrow> (\<exists>xs. list_all plain_elem xs \<and> (p = rooted_path xs \<or> p = rooted_path xs @ ''/''))"

lemma normal_path_clean: "has_prefix p ''/'' \<Longrightarrow> clean_path (normal_path p)"
  using clean_elems_plain[of p]
  by (auto simp: normal_path_def Clean_rooted clean_path_def Let_def has_prefix_def)

lemma last_segment_slash: "has_suffix p ''/'' \<Longrightarrow> last_segment p = ''/''"
proof -
  assume "has_suffix p ''/''"
  then have "p \<noteq> [] \<and> drop (length p - 1) p = ''/''" by (auto simp: has_suffix_def)
  then obtain q where "p = q @ ''/''" by (metis append_take_drop_id)
  then show ?thesis using last_index_of_append[of "CHR ''/''" "[]" q] by (simp add: last_segment_def)
qed

lemma noTrailingSlash_cases:
  "noTrailingSlash L r w =
     (if cx_path r \<noteq> ''/'' \<and> has_suffix (cx_path r) ''/''
      then (let r' = with_path (trim_right_char CHR ''/'' (cx_path r)) r
            in answer (http_Redirect (cx_req r') (redirect_target L (cx_path r') (url_String r')) 301) w)
      else Passed r w)"
  using last_segment_slash[of "cx_path r"] by (auto simp: noTrailingSlash_def Let_def has_prefix_def)

text \<open>A redirect leads away from the server when the path begins with two slashes.\<close>

lemma escape_path_plain: "list_all path_plain s \<Longrightarrow> escape_path s = s"
  by (induction s) (simp_all add: escape_path_def)

lemma path_plain_slash: "path_plain CHR ''/''"
  by (simp add: path_plain_def)

lemma trailing_slash_offsite:
  assumes host: "host \<noteq> []" "list_all path_plain host" "CHR ''/'' \<notin> set host"
    and url: "lib_url L (''//'' @ host) = Some ([], host)"
    and r: "cx_path r = ''//'' @ host @ ''/''" "cx_authority r = []" "cx_querytext r = []"
  shows "\<exists>rep. noTrailingSlash L r w = Answered rep w \<and> rp_status rep = 301 \<and>
    rp_header rep ''Location'' = Some (''//'' @ host)"
proof -
  let ?r = "with_path (''//'' @ host) r"
  have suf: "has_suffix (cx_path r) ''/''" "cx_path r \<noteq> ''/''"
    using r suffix_append(1)[of "''//'' @ host" "''/''"] by simp_all
  have "dropWhile (\<lambda>x. x = CHR ''/'') (rev host @ ''//'') = rev host @ ''//''"
    using host by (cases host rule: rev_cases) auto
  then have trim: "trim_right_char CHR ''/'' (cx_path r) = ''//'' @ host" by (simp add: trim_right_char_def r)
  have str: "url_String ?r = ''//'' @ host"
    using r host(2) escape_path_plain[of "''//'' @ host"] by (simp add: url_String_def with_path_def path_plain_slash)
  then have "redirect_target L (cx_path ?r) (url_String ?r) = ''//'' @ host"
    using url host(1) by (simp add: redirect_target_def)
  moreover have "hexEscapeNonASCII (''//'' @ host) = ''//'' @ host"
    using host(2) by (induction host) (auto simp: hexEscapeNonASCII_def list_all_iff path_plain_def in_range_def)
  ultimately show ?thesis
    using suf unfolding noTrailingSlash_cases trim by (simp add: answer_def http_Redirect_def Let_def)
qed

end
