(* ===== verification/Request_Forgery.thy ===== *)
theory Request_Forgery
  imports Request_Guard Security_Access
begin

section \<open>Requests from other sites\<close>

text \<open>
  The middleware of \<^verbatim>\<open>src/src/server/server.go\<close> against forged requests: the security headers and the content
  security policy, the \<^verbatim>\<open>Sec-Fetch\<close> rules, the signed tokens of the double-submit pattern and CORS.
\<close>

subsection \<open>The content security policy\<close>

record csp_config =
  cs_Enabled :: bool
  cs_Mode :: string
  cs_ScriptSrcOverride :: string
  cs_ScriptSrcExtra :: string
  cs_StyleSrcExtra :: string
  cs_ImgSrcExtra :: string
  cs_FontSrcExtra :: string
  cs_ConnectSrcExtra :: string
  cs_FrameSrcExtra :: string
  cs_FormActionExtra :: string
  cs_EmbedFrameAncestors :: string

record header_config =
  hd_csp :: csp_config
  hd_fqdn :: string
  hd_APIVersion :: string
  hd_mode :: string
  hd_tls :: bool
  hd_hsts :: bool
  hd_hsts_max_age :: int
  hd_hsts_subdomains :: bool
  hd_hsts_preload :: bool

definition apiVersion :: "header_config \<Rightarrow> string" where
  "apiVersion c = (let v = trim_space (hd_APIVersion c) in if v = [] then ''v1'' else v)"

definition isEmbedPath :: "string \<Rightarrow> bool" where
  "isEmbedPath p \<longleftrightarrow> has_prefix p ''/emb/'' \<and> length p > 5"

definition extra :: "string \<Rightarrow> string" where
  "extra s = (if s \<noteq> [] then '' '' @ s else [])"

text \<open>\<^verbatim>\<open>strings.Join\<close> with any separator.\<close>

fun join_text :: "string \<Rightarrow> string list \<Rightarrow> string" where
  "join_text sep [] = []"
| "join_text sep [x] = x"
| "join_text sep (x # y # xs) = x @ sep @ join_text sep (y # xs)"

abbreviation self_src :: string where "self_src \<equiv> [CHR 0x27] @ ''self'' @ [CHR 0x27]"

definition script_src :: "csp_config \<Rightarrow> string" where
  "script_src c = (if cs_ScriptSrcOverride c \<noteq> [] then cs_ScriptSrcOverride c else self_src @ extra (cs_ScriptSrcExtra c))"

definition connect_src :: "header_config \<Rightarrow> string" where
  "connect_src h = self_src @ (if hd_fqdn h \<noteq> [] \<and> hd_fqdn h \<noteq> ''localhost'' then '' https://'' @ hd_fqdn h else []) @
     extra (cs_ConnectSrcExtra (hd_csp h))"

definition frame_ancestors :: "csp_config \<Rightarrow> string \<Rightarrow> string" where
  "frame_ancestors c path =
     (if isEmbedPath path
      then let a = trim_space (cs_EmbedFrameAncestors c) in if a = [] then ''*'' else a
      else self_src)"

definition csp_directives :: "header_config \<Rightarrow> string \<Rightarrow> string list" where
  "csp_directives h path =
     (let c = hd_csp h in
      [''default-src '' @ self_src,
       ''script-src '' @ script_src c,
       ''style-src '' @ self_src @ '' '' @ [CHR 0x27] @ ''unsafe-inline'' @ [CHR 0x27] @ extra (cs_StyleSrcExtra c),
       ''img-src '' @ self_src @ '' data: blob: https:'' @ extra (cs_ImgSrcExtra c),
       ''font-src '' @ self_src @ '' https:'' @ extra (cs_FontSrcExtra c),
       ''connect-src '' @ connect_src h,
       ''media-src '' @ self_src @ '' blob:'',
       ''worker-src '' @ self_src @ '' blob:'',
       ''manifest-src '' @ self_src,
       ''frame-src '' @ self_src @ extra (cs_FrameSrcExtra c),
       ''frame-ancestors '' @ frame_ancestors c path,
       ''base-uri '' @ self_src,
       ''form-action '' @ self_src @ extra (cs_FormActionExtra c),
       ''object-src '' @ [CHR 0x27] @ ''none'' @ [CHR 0x27]] @
      (if hd_tls h then [''upgrade-insecure-requests''] else []) @
      [''report-to default'', ''report-uri /api/'' @ apiVersion h @ ''/server/reports/csp''])"

definition buildCSP :: "header_config \<Rightarrow> http_ctx \<Rightarrow> string \<times> bool" where
  "buildCSP h r =
     (if \<not> cs_Enabled (hd_csp h) then ([], False)
      else (join_text ''; '' (csp_directives h (cx_path r)), cs_Mode (hd_csp h) = ''report-only'' \<or> hd_mode h = ''development''))"

abbreviation quoted :: "string \<Rightarrow> string" where "quoted s \<equiv> [CHR 0x22] @ s @ [CHR 0x22]"

definition buildReportingHeaders :: "header_config \<Rightarrow> string \<times> string \<times> string" where
  "buildReportingHeaders h =
     (if hd_fqdn h = [] \<or> hd_fqdn h = ''localhost'' \<or> \<not> hd_tls h then ([], [], [])
      else
        let base = ''https://'' @ hd_fqdn h @ ''/api/'' @ apiVersion h @ ''/server/reports''
        in (''default='' @ quoted (base @ ''/default''),
            ''{'' @ quoted ''group'' @ '':'' @ quoted ''default'' @ '','' @ quoted ''max_age'' @ '':10886400,'' @ quoted ''endpoints'' @
              '':[{'' @ quoted ''url'' @ '':'' @ quoted (base @ ''/default'') @ ''}]}'',
            ''{'' @ quoted ''report_to'' @ '':'' @ quoted ''default'' @ '','' @ quoted ''max_age'' @ '':2592000,'' @
              quoted ''include_subdomains'' @ '':true}''))"

definition permissionsPolicy :: string where
  "permissionsPolicy = join_text '', ''
     (map (\<lambda>f. f @ ''=()'') [''accelerometer'', ''ambient-light-sensor'', ''battery'', ''camera'', ''display-capture'',
        ''geolocation'', ''gyroscope'', ''hid'', ''idle-detection'', ''magnetometer'', ''microphone'', ''midi'',
        ''screen-wake-lock'', ''serial'', ''usb'', ''xr-spatial-tracking'', ''attribution-reporting'', ''browsing-topics'',
        ''interest-cohort''] @
      map (\<lambda>f. f @ ''=(self)'') [''autoplay'', ''encrypted-media'', ''fullscreen'', ''payment'', ''picture-in-picture'',
        ''publickey-credentials-get'', ''storage-access'', ''web-share''])"

definition newRequestID :: "bytes option \<Rightarrow> string" where
  "newRequestID rnd = (case rnd of None \<Rightarrow> ''00000000'' | Some b \<Rightarrow> hex_encode b)"

definition hsts_value :: "header_config \<Rightarrow> string" where
  "hsts_value h = ''max-age='' @ show_int (hd_hsts_max_age h) @ (if hd_hsts_subdomains h then ''; includeSubDomains'' else []) @
     (if hd_hsts_preload h then ''; preload'' else [])"

definition legacy_headers :: "http_ctx \<Rightarrow> writer \<Rightarrow> writer" where
  "legacy_headers r w =
     (let w = set_header ''X-Content-Type-Options'' ''nosniff'' w;
          w = (if isEmbedPath (cx_path r) then w else set_header ''X-Frame-Options'' ''SAMEORIGIN'' w);
          w = set_header ''X-XSS-Protection'' ''1; mode=block'' w;
          w = set_header ''Referrer-Policy'' ''strict-origin-when-cross-origin'' w;
          w = set_header ''X-Permitted-Cross-Domain-Policies'' ''none'' w;
          w = set_header ''Origin-Agent-Cluster'' ''?1'' w;
          w = set_header ''Cross-Origin-Opener-Policy'' ''unsafe-none'' w;
          w = set_header ''Cross-Origin-Embedder-Policy'' ''unsafe-none'' w
      in set_header ''Cross-Origin-Resource-Policy'' ''cross-origin'' w)"

definition policy_header :: "header_config \<Rightarrow> http_ctx \<Rightarrow> writer \<Rightarrow> writer" where
  "policy_header h r w =
     (let policy = fst (buildCSP h r)
      in if policy = [] then w
         else set_header (if snd (buildCSP h r) then ''Content-Security-Policy-Report-Only'' else ''Content-Security-Policy'') policy w)"

definition report_headers :: "header_config \<Rightarrow> writer \<Rightarrow> writer" where
  "report_headers h w =
     (case buildReportingHeaders h of (endpoints, reportTo, nel) \<Rightarrow>
        if endpoints = [] then w
        else set_header ''NEL'' nel (set_header ''Report-To'' reportTo (set_header ''Reporting-Endpoints'' endpoints w)))"

definition request_id :: "bytes option \<Rightarrow> http_ctx \<Rightarrow> string" where
  "request_id rnd r = (if header r ''X-Request-ID'' = [] then newRequestID rnd else header r ''X-Request-ID'')"

definition securityHeadersMiddleware :: "header_config \<Rightarrow> bytes option \<Rightarrow> http_ctx \<Rightarrow> writer \<Rightarrow> verdict" where
  "securityHeadersMiddleware h rnd r w =
     (let w = policy_header h r (legacy_headers r w);
          w = set_header ''Permissions-Policy'' permissionsPolicy w;
          w = (if hd_tls h \<and> hd_hsts h then set_header ''Strict-Transport-Security'' (hsts_value h) w else w)
      in Passed r (set_header ''X-Request-ID'' (request_id rnd r) (report_headers h w)))"

subsection \<open>Sec-Fetch\<close>

definition mutating :: "http_ctx \<Rightarrow> bool" where
  "mutating r \<longleftrightarrow> rq_method (cx_req r) \<in> {''POST'', ''PUT'', ''PATCH'', ''DELETE''}"

definition exempt_pattern :: "string \<Rightarrow> string \<Rightarrow> bool" where
  "exempt_pattern path p =
     (if has_suffix p ''/*'' then has_prefix path (trim_suffix p ''/*'' @ ''/'') \<or> path = trim_suffix p ''/*'' else p = path)"

definition isCSRFExempt :: "string \<Rightarrow> string list \<Rightarrow> bool" where
  "isCSRFExempt path patterns = list_ex (exempt_pattern path) patterns"

definition hasBearer :: "http_ctx \<Rightarrow> bool" where
  "hasBearer r \<longleftrightarrow> header r ''Authorization'' \<noteq> [] \<or> header r ''X-API-Token'' \<noteq> []"

definition secFetchMiddleware :: "bool \<Rightarrow> string list \<Rightarrow> http_ctx \<Rightarrow> writer \<Rightarrow> verdict" where
  "secFetchMiddleware validation exempt r w =
     (if \<not> validation then Passed r w
      else
        let cross = (header r ''Sec-Fetch-Site'' = ''cross-site'') in
        if cross \<and> \<not> isEmbedPath (cx_path r) \<and>
           header r ''Sec-Fetch-Dest'' \<in> {''iframe'', ''frame'', ''embed'', ''object''}
        then refuse 403 ''FORBIDDEN'' ''cross-site framing of this endpoint is not allowed'' w
        else if cross \<and> mutating r \<and> \<not> hasBearer r \<and> \<not> isCSRFExempt (cx_path r) exempt
        then refuse 403 ''FORBIDDEN'' ''cross-site state-changing request blocked'' w
        else if header r ''Sec-Fetch-Mode'' = ''navigate'' \<and> has_prefix (cx_path r) ''/api/'' \<and> mutating r
        then refuse 403 ''FORBIDDEN'' ''direct navigation to API endpoint blocked'' w
        else Passed r w)"

subsection \<open>Signed tokens\<close>

definition generateCSRFToken :: "hmac \<Rightarrow> bytes \<Rightarrow> bytes option \<Rightarrow> string option" where
  "generateCSRFToken hm secret rnd = (case rnd of
     None \<Rightarrow> None
   | Some nonce \<Rightarrow> Some (raw_url_encode nonce @ ''.'' @ raw_url_encode (hm secret nonce)))"

definition validateCSRFToken :: "hmac \<Rightarrow> bytes \<Rightarrow> string \<Rightarrow> bool" where
  "validateCSRFToken hm secret token =
     (case split2 CHR ''.'' token of
        (_, None) \<Rightarrow> False
      | (a, Some b) \<Rightarrow>
          (case raw_url_decode a of
             None \<Rightarrow> False
           | Some nonce \<Rightarrow>
               if length nonce \<noteq> 32 then False
               else (case raw_url_decode b of None \<Rightarrow> False | Some sig \<Rightarrow> sig = hm secret nonce)))"

record csrf_config =
  cf_Enabled :: bool
  cf_CookieName :: string
  cf_HeaderName :: string
  cf_ExemptPaths :: "string list"
  cf_Secure :: string

definition isWebSocketUpgrade :: "http_ctx \<Rightarrow> bool" where
  "isWebSocketUpgrade r \<longleftrightarrow> fold_case (header r ''Upgrade'') = ''websocket''"

definition isSameOrigin :: "golib \<Rightarrow> http_ctx \<Rightarrow> bool" where
  "isSameOrigin L r =
     (let src = (if header r ''Origin'' = [] then header r ''Referer'' else header r ''Origin'') in
      if src = [] then False
      else case lib_url L src of
             None \<Rightarrow> False
           | Some (_, host) \<Rightarrow> host \<noteq> [] \<and> fold_case host = fold_case (rq_host (cx_req r)))"

text \<open>The token a request submits: the header, else the form field. \<^verbatim>\<open>ParseForm\<close> reads an urlencoded body, so
  the handlers behind find the form parsed and the body read.\<close>

definition reads_body :: "golib \<Rightarrow> http_request \<Rightarrow> bool" where
  "reads_body L r \<longleftrightarrow> rq_form r = None \<and> parses_body r \<and>
     map_option fst (lib_parse_media L
        (if rq_header r ''Content-Type'' = [] then ''application/octet-stream'' else rq_header r ''Content-Type''))
     = Some ''application/x-www-form-urlencoded''"

definition after_form :: "golib \<Rightarrow> http_ctx \<Rightarrow> http_ctx" where
  "after_form L r =
     r\<lparr>cx_req := (cx_req r)\<lparr>rq_form := Some (fst (ParseForm L (cx_req r))),
        rq_body := (if reads_body L (cx_req r) then drop 10485761 (rq_body (cx_req r)) else rq_body (cx_req r))\<rparr>\<rparr>"

definition submitted_token :: "golib \<Rightarrow> csrf_config \<Rightarrow> http_ctx \<Rightarrow> string \<times> http_ctx" where
  "submitted_token L c r =
     (if header r (cf_HeaderName c) \<noteq> [] then (header r (cf_HeaderName c), r)
      else (form_value (cx_req r) (fst (ParseForm L (cx_req r))) ''csrf_token'', after_form L r))"

definition csrf_bypass :: "golib \<Rightarrow> csrf_config \<Rightarrow> http_ctx \<Rightarrow> string \<Rightarrow> bool" where
  "csrf_bypass L c r cookie \<longleftrightarrow> \<not> mutating r \<or> hasBearer r \<or> isWebSocketUpgrade r \<or>
     isCSRFExempt (cx_path r) (cf_ExemptPaths c) \<or> isSameOrigin L r \<or> cookie = []"

definition csrf_reason :: "hmac \<Rightarrow> bytes \<Rightarrow> string \<Rightarrow> string \<Rightarrow> string" where
  "csrf_reason hm secret cookie submitted =
     (if submitted = [] then ''token absent''
      else if \<not> validateCSRFToken hm secret submitted then ''token signature invalid''
      else if submitted \<noteq> cookie then ''token mismatch''
      else [])"

definition csrf_cookie :: "csrf_config \<Rightarrow> bool \<Rightarrow> string \<Rightarrow> set_cookie" where
  "csrf_cookie c tls token =
     \<lparr>ck_Name = cf_CookieName c, ck_Value = token, ck_Path = ''/'', ck_HttpOnly = False,
      ck_Secure = (if cf_Secure c = ''true'' then True else if cf_Secure c = ''false'' then False else tls),
      ck_SameSiteStrict = True\<rparr>"

definition csrf_pass :: "csrf_config \<Rightarrow> string \<Rightarrow> http_ctx \<Rightarrow> writer \<Rightarrow> verdict" where
  "csrf_pass c token r w =
     Passed (r\<lparr>cx_csrf := Some token\<rparr>)
       (w\<lparr>rw_cookies := rw_cookies w @ [csrf_cookie c (rq_tls (cx_req r)) token]\<rparr>)"

definition csrf_token :: "hmac \<Rightarrow> bytes \<Rightarrow> bytes option \<Rightarrow> string \<Rightarrow> string option" where
  "csrf_token hm secret rnd cookie =
     (if cookie \<noteq> [] \<and> validateCSRFToken hm secret cookie then Some cookie else generateCSRFToken hm secret rnd)"

definition csrf_check :: "golib \<Rightarrow> hmac \<Rightarrow> bytes \<Rightarrow> csrf_config \<Rightarrow> string \<Rightarrow> string \<Rightarrow> http_ctx \<Rightarrow> writer \<Rightarrow> verdict" where
  "csrf_check L hm secret c cookie token r w =
     (let (submitted, r') = submitted_token L c r; reason = csrf_reason hm secret cookie submitted
      in if reason \<noteq> []
         then refuse 403 ''CSRF_FAILED'' ''CSRF token validation failed''
           (log_event [''security.csrf_failure'', client_ip (cx_remote r), cx_path r, reason] w)
         else csrf_pass c token r' w)"

definition csrfMiddleware ::
  "golib \<Rightarrow> hmac \<Rightarrow> bytes \<Rightarrow> csrf_config \<Rightarrow> bytes option \<Rightarrow> http_ctx \<Rightarrow> writer \<Rightarrow> verdict" where
  "csrfMiddleware L hm secret c rnd r w =
     (if \<not> cf_Enabled c \<or> secret = [] then Passed r w
      else
        let cookie = opt_str (cx_cookie r (cf_CookieName c))
        in case csrf_token hm secret rnd cookie of
             None \<Rightarrow> Passed r w
           | Some token \<Rightarrow>
               if csrf_bypass L c r cookie then csrf_pass c token r w else csrf_check L hm secret c cookie token r w)"

subsection \<open>CORS\<close>

record cors_config =
  co_AllowedOrigins :: "string list"
  co_AllowCredentials :: bool
  co_MaxAge :: int

definition corsAllowedHeaders :: string where
  "corsAllowedHeaders = ''Content-Type, Accept, X-Requested-With, Authorization, X-API-Key, X-Api-Key, API-Key, ApiKey, X-Auth-Token, X-Access-Token, X-Token, Token, X-CSRF-Token, X-XSRF-Token, X-Session-ID, X-Service-Token, X-Internal-Token''"

text \<open>\<^verbatim>\<open>strings.Cut\<close>.\<close>

fun cut :: "string \<Rightarrow> string \<Rightarrow> (string \<times> string) option" where
  "cut sep [] = (if sep = [] then Some ([], []) else None)"
| "cut sep (c # cs) =
     (if has_prefix (c # cs) sep then Some ([], drop (length sep) (c # cs))
      else map_option (\<lambda>(a, b). (c # a, b)) (cut sep cs))"

text \<open>\<^verbatim>\<open>URL.Hostname\<close>, from the host of a URL.\<close>

definition url_Hostname :: "string \<Rightarrow> string" where
  "url_Hostname hostport =
     (let h = (case last_index_of CHR '':'' hostport of
                 Some i \<Rightarrow> if list_all (\<lambda>c. digit_val c \<noteq> None) (drop (i + 1) hostport) then take i hostport else hostport
               | None \<Rightarrow> hostport)
      in if has_prefix h ''['' \<and> has_suffix h '']'' then take (length h - 2) (drop 1 h) else h)"

definition corsOriginMatches :: "golib \<Rightarrow> string \<Rightarrow> string \<Rightarrow> bool" where
  "corsOriginMatches L allowed origin =
     (if allowed = origin then True
      else case cut ''://*.'' allowed of
             None \<Rightarrow> False
           | Some (scheme, wild) \<Rightarrow>
               (case lib_url L origin of
                  None \<Rightarrow> False
                | Some (s, host) \<Rightarrow>
                    s = scheme \<and> (url_Hostname host = wild \<or> has_suffix (url_Hostname host) (''.'' @ wild))))"

text \<open>The list, or \<^const>\<open>None\<close> when CORS is switched off. The variable \<^verbatim>\<open>DOMAIN\<close> of the environment is an argument.\<close>

definition resolveCORSAllowList :: "cors_config \<Rightarrow> string \<Rightarrow> domain_learner option \<Rightarrow> string list option" where
  "resolveCORSAllowList c domain learner =
     (if co_AllowedOrigins c = [[]] then None
      else if co_AllowedOrigins c \<noteq> [] then Some (co_AllowedOrigins c)
      else
        let named = (if domain = [] then []
                     else map (\<lambda>h. ''https://'' @ h) (filter (\<lambda>h. h \<noteq> []) (map trim_space (split_on CHR '','' domain))));
            resolved = named @ (case learner of None \<Rightarrow> [] | Some d \<Rightarrow> CORSOrigins d)
        in Some (if resolved = [] then [''*''] else resolved))"

definition resolveCORSOrigin ::
  "golib \<Rightarrow> url_config \<Rightarrow> cors_config \<Rightarrow> string \<Rightarrow> domain_learner option \<Rightarrow> http_ctx \<Rightarrow> (string \<times> bool) option" where
  "resolveCORSOrigin L u c domain learner r =
     (let onion = torRequestOnion u r in
      if onion \<noteq> [] then Some (''http://'' @ onion, False)
      else case resolveCORSAllowList c domain learner of
             None \<Rightarrow> None
           | Some list \<Rightarrow>
               if ''*'' \<in> set list then Some (''*'', False)
               else let org = header r ''Origin'' in
                 if org = [] then Some (hd list, False)
                 else if list_ex (\<lambda>a. corsOriginMatches L a org) list then Some (org, co_AllowCredentials c)
                 else Some (''*'', False))"

definition corsMiddleware ::
  "golib \<Rightarrow> url_config \<Rightarrow> cors_config \<Rightarrow> string \<Rightarrow> domain_learner option \<Rightarrow> http_ctx \<Rightarrow> writer \<Rightarrow> verdict" where
  "corsMiddleware L u c domain learner r w =
     (let w = (case resolveCORSOrigin L u c domain learner r of
                 None \<Rightarrow> w
               | Some (origin, creds) \<Rightarrow>
                   (let w = set_header ''Access-Control-Allow-Origin'' origin w;
                        w = set_header ''Access-Control-Allow-Methods'' ''GET, POST, PUT, PATCH, DELETE, OPTIONS'' w;
                        w = set_header ''Access-Control-Allow-Headers'' corsAllowedHeaders w;
                        w = (if creds \<and> origin \<noteq> ''*'' then set_header ''Access-Control-Allow-Credentials'' ''true'' w else w)
                    in set_header ''Access-Control-Max-Age'' (show_int (co_MaxAge c)) w))
      in if rq_method (cx_req r) = ''OPTIONS''
         then answer \<lparr>rp_status = 204, rp_header = Map.empty, rp_body = NoBody\<rparr> w
         else Passed r w)"

subsection \<open>Reserved names\<close>

definition reservedSlugs :: "string list" where
  "reservedSlugs = [''api'', ''server'', ''static'', ''assets'', ''healthz'', ''metrics'', ''webhook'', ''webhooks'', ''search'',
     ''explore'', ''discover'', ''trending'', ''help'', ''support'', ''docs'', ''documentation'', ''about'', ''contact'', ''terms'',
     ''privacy'', ''legal'', ''security'', ''graphql'', ''swagger'', ''rest'', ''rpc'', ''ws'', ''websocket'', ''cdn'', ''media'',
     ''uploads'', ''files'', ''images'', ''robots.txt'', ''sitemap.xml'', ''llms.txt'', ''favicon.ico'', ''.well-known'', ''raw'',
     ''dl'', ''download'', ''file'', ''r'', ''emb'', ''qr'', ''remove'', ''upload'', ''p'', ''u'', ''url'', ''auth'', ''recent'']"

definition isReservedSlug :: "string \<Rightarrow> bool" where
  "isReservedSlug slug = (to_lower slug \<in> set reservedSlugs)"

subsection \<open>The contract\<close>

lemma set_header_keeps: "keeps_headers w w' \<Longrightarrow> keeps_headers w (set_header k v w')"
  by (auto simp: keeps_headers_def set_header_def)

lemma security_headers_keep:
  "keeps_headers w (legacy_headers r w)" "keeps_headers w v \<Longrightarrow> keeps_headers w (policy_header h r v)"
  "keeps_headers w v \<Longrightarrow> keeps_headers w (report_headers h v)"
  by (auto simp: legacy_headers_def policy_header_def report_headers_def Let_def keeps_headers_refl
    intro!: set_header_keeps split: prod.split)

interpretation sec_headers: middleware "securityHeadersMiddleware h rnd"
  by unfold_locales
    (auto simp: securityHeadersMiddleware_def Let_def same_origin_data_refl intro!: security_headers_keep set_header_keeps split: if_splits)

interpretation sec_fetch: middleware "secFetchMiddleware v exempt"
  by unfold_locales
    (auto simp: secFetchMiddleware_def Let_def same_origin_data_refl keeps_headers_refl split: if_splits)

lemma submitted_origin: "submitted_token L c r = (t, r') \<Longrightarrow> same_origin_data r r'"
  by (auto simp: submitted_token_def after_form_def same_origin_data_def split: if_splits)

lemma csrf_pass_contract: "csrf_pass c token r w = Passed r' w' \<Longrightarrow> same_origin_data r r' \<and> keeps_headers w w'"
  by (auto simp: csrf_pass_def same_origin_data_def keeps_headers_def)

lemma csrf_cases:
  assumes "csrfMiddleware L hm secret c rnd r w = Passed r' w'" "cf_Enabled c" "secret \<noteq> []"
    and cookie: "cookie = opt_str (cx_cookie r (cf_CookieName c))"
  obtains (no_token) "csrf_token hm secret rnd cookie = None" "r' = r" "w' = w"
  | (bypassed) token where "csrf_token hm secret rnd cookie = Some token" "csrf_bypass L c r cookie"
      "csrf_pass c token r w = Passed r' w'"
  | (verified) token t r1 where "csrf_token hm secret rnd cookie = Some token" "\<not> csrf_bypass L c r cookie"
      "submitted_token L c r = (t, r1)" "csrf_reason hm secret cookie t = []" "csrf_pass c token r1 w = Passed r' w'"
proof (cases "csrf_token hm secret rnd cookie")
  case None
  then have "csrfMiddleware L hm secret c rnd r w = Passed r w" by (simp add: csrfMiddleware_def cookie)
  then show ?thesis using None assms(1) by (intro that(1)) simp_all
next
  case (Some token)
  obtain t r1 where s: "submitted_token L c r = (t, r1)" by fastforce
  from Some have m: "csrfMiddleware L hm secret c rnd r w =
      (if csrf_bypass L c r cookie then csrf_pass c token r w else csrf_check L hm secret c cookie token r w)"
    using assms(2,3) cookie by (simp add: csrfMiddleware_def)
  show ?thesis
  proof (cases "csrf_bypass L c r cookie")
    case True
    with m assms(1) have "csrf_pass c token r w = Passed r' w'" by simp
    with Some True show ?thesis by (rule that(2))
  next
    case False
    then have "csrf_check L hm secret c cookie token r w = Passed r' w'" using m assms(1) by simp
    then have "csrf_reason hm secret cookie t = []" "csrf_pass c token r1 w = Passed r' w'"
      using s by (simp_all add: csrf_check_def Let_def split: if_splits)
    with Some False s show ?thesis by (rule that(3))
  qed
qed

lemma csrf_contract:
  assumes "csrfMiddleware L hm secret c rnd r w = Passed r' w'"
  shows "same_origin_data r r' \<and> keeps_headers w w'"
proof (cases "cf_Enabled c \<and> secret \<noteq> []")
  case False
  then show ?thesis using assms by (auto simp: csrfMiddleware_def same_origin_data_refl keeps_headers_refl)
next
  case True
  then have "cf_Enabled c" "secret \<noteq> []" by simp_all
  show ?thesis
  proof (cases rule: csrf_cases[OF assms \<open>cf_Enabled c\<close> \<open>secret \<noteq> []\<close> refl])
    case 1
    then show ?thesis by (simp add: same_origin_data_refl keeps_headers_refl)
  next
    case 2
    then show ?thesis by (blast dest: csrf_pass_contract)
  next
    case 3
    then show ?thesis using csrf_pass_contract submitted_origin same_origin_data_trans by blast
  qed
qed

interpretation csrf: middleware "csrfMiddleware L hm secret c rnd"
  using csrf_contract by unfold_locales blast+

interpretation cors: middleware "corsMiddleware L u c domain learner"
  by unfold_locales
    (auto simp: corsMiddleware_def Let_def same_origin_data_refl keeps_headers_refl
      intro!: set_header_keeps split: if_splits option.splits prod.splits)

subsection \<open>Tokens\<close>

lemma minted_valid:
  assumes "generateCSRFToken hm secret (Some nonce) = Some t" "length nonce = 32"
  shows "validateCSRFToken hm secret t" "t \<noteq> []"
proof -
  have t: "t = raw_url_encode nonce @ CHR ''.'' # raw_url_encode (hm secret nonce)"
    using assms(1) by (simp add: generateCSRFToken_def)
  then have "split2 CHR ''.'' t = (raw_url_encode nonce, Some (raw_url_encode (hm secret nonce)))"
    using split2_join[OF raw_url_no_dot] by simp
  then show "validateCSRFToken hm secret t" using assms(2) by (simp add: validateCSRFToken_def raw_url_roundtrip)
  show "t \<noteq> []" using t by simp
qed

lemma valid_signed:
  assumes "validateCSRFToken hm secret t"
  obtains a b nonce where "split2 CHR ''.'' t = (a, Some b)" "raw_url_decode a = Some nonce" "length nonce = 32"
    "raw_url_decode b = Some (hm secret nonce)"
  using assms by (auto simp: validateCSRFToken_def split: prod.splits option.splits if_splits)

text \<open>What a request that passes has shown, when it is one that has to.\<close>

lemma csrf_checked:
  assumes pass: "csrfMiddleware L hm secret c rnd r w = Passed r' w'"
    and on: "cf_Enabled c" "secret \<noteq> []" "rnd \<noteq> None"
    and must: "\<not> csrf_bypass L c r (opt_str (cx_cookie r (cf_CookieName c)))"
  shows "fst (submitted_token L c r) = opt_str (cx_cookie r (cf_CookieName c)) \<and>
    validateCSRFToken hm secret (opt_str (cx_cookie r (cf_CookieName c)))"
proof -
  let ?cookie = "opt_str (cx_cookie r (cf_CookieName c))"
  have "csrf_token hm secret rnd ?cookie \<noteq> None" using on(3) by (auto simp: csrf_token_def generateCSRFToken_def)
  with csrf_cases[OF pass on(1,2) refl] must obtain t r1
    where "submitted_token L c r = (t, r1)" "csrf_reason hm secret ?cookie t = []" by metis
  then show ?thesis by (auto simp: csrf_reason_def split: if_splits)
qed

end
