(* ===== verification/Request_Chain.thy ===== *)
theory Request_Chain
  imports Request_Forgery Handler_Creation
begin

section \<open>The way of a request to its handler\<close>

text \<open>
  The middleware of \<^verbatim>\<open>setupRoutes\<close> in \<^verbatim>\<open>src/src/server/server.go\<close>, composed in its order. The panic handler, the
  access log, the counters and the compression neither answer nor change a request; chi's \<^verbatim>\<open>CleanPath\<close> only
  prepares the path of the router. The maintenance mode, which comes last, is in the theory
  Health_Monitor.
\<close>

definition txtExtensionMiddleware :: "http_ctx \<Rightarrow> writer \<Rightarrow> verdict" where
  "txtExtensionMiddleware r w =
     (if has_prefix (cx_path r) ''/api/'' \<and> has_suffix (cx_path r) ''.txt''
      then Passed (r\<lparr>cx_req := (cx_req r)\<lparr>rq_path := trim_suffix (cx_path r) ''.txt'', rq_txt := True\<rparr>, cx_rawpath := []\<rparr>) w
      else Passed r w)"

record 'f front =
  fr_lib :: golib
  fr_hosts :: host_lib
  fr_url :: url_config
  fr_learning :: learner_config
  fr_headers :: header_config
  fr_sec_fetch :: bool
  fr_hmac :: hmac
  fr_csrfSecret :: bytes
  fr_csrf :: csrf_config
  fr_cors :: cors_config
  fr_domain :: string
  fr_allowlist :: "string list"
  fr_blocklists :: "dir_file list option"
  fr_zero :: 'f
  fr_geo :: "'f geo_db option"

text \<open>What a request finds besides: the time and what the random source yields.\<close>

record moment =
  mo_now :: instant
  mo_request_id :: "bytes option"
  mo_nonce :: "bytes option"

definition guards :: "'f front \<Rightarrow> moment \<Rightarrow> domain_learner \<Rightarrow> (http_ctx \<Rightarrow> writer \<Rightarrow> verdict) list" where
  "guards S m d =
     [noTrailingSlash (fr_lib S),
      pathSecurityMiddleware,
      securityHeadersMiddleware (fr_headers S) (mo_request_id m),
      secFetchMiddleware (fr_sec_fetch S) (cf_ExemptPaths (fr_csrf S)),
      csrfMiddleware (fr_lib S) (fr_hmac S) (fr_csrfSecret S) (fr_csrf S) (mo_nonce m),
      corsMiddleware (fr_lib S) (fr_url S) (fr_cors S) (fr_domain S) (Some d),
      allowlistMiddleware (fr_allowlist S),
      blocklistMiddleware (fr_blocklists S),
      geoMiddleware (fr_zero S) (fr_geo S),
      txtExtensionMiddleware]"

definition new_writer :: writer where
  "new_writer = \<lparr>rw_header = Map.empty, rw_cookies = [], rw_events = []\<rparr>"

definition front_of_handlers :: "'f front \<Rightarrow> moment \<Rightarrow> http_ctx \<Rightarrow> domain_learner \<Rightarrow> verdict \<times> domain_learner" where
  "front_of_handlers S m r d =
     (let t = uc_trust (fr_url S);
          r = realIPMiddleware t r;
          d = domainObserveMiddleware (fr_hosts S) (fr_learning S) t (mo_now m) r d
      in (run_chain (guards S m d) r new_writer, d))"

interpretation txt_ext: middleware txtExtensionMiddleware
  by unfold_locales
    (auto simp: txtExtensionMiddleware_def same_origin_data_def keeps_headers_refl split: if_splits)

lemma guards_contract: "\<forall>g \<in> set (guards S m d). middleware g"
  by (simp add: guards_def slash.middleware_axioms paths.middleware_axioms sec_headers.middleware_axioms
    sec_fetch.middleware_axioms csrf.middleware_axioms cors.middleware_axioms allow.middleware_axioms
    block.middleware_axioms geo.middleware_axioms txt_ext.middleware_axioms)

text \<open>The stages a request has passed.\<close>

lemma run_chain_Cons:
  assumes "run_chain (g # gs) r w = Passed r' w'"
  obtains r1 w1 where "g r w = Passed r1 w1" "run_chain gs r1 w1 = Passed r' w'"
  using assms by (auto split: verdict.splits)

subsection \<open>Addresses\<close>

definition blocked_by_list :: "'f front \<Rightarrow> string \<Rightarrow> bool" where
  "blocked_by_list S remote = (case ParseIP (client_ip remote) of
     None \<Rightarrow> False | Some ip \<Rightarrow> blocklist_contains (loadBlocklists (fr_blocklists S)) ip)"

definition allowlisted :: "'f front \<Rightarrow> string \<Rightarrow> bool" where
  "allowlisted S remote = (case ParseIP (client_ip remote) of
     None \<Rightarrow> False | Some ip \<Rightarrow> allowlist_contains (newAllowlistSet (fr_allowlist S)) ip)"

definition blocked_by_country :: "'f front \<Rightarrow> string \<Rightarrow> bool" where
  "blocked_by_country S remote = (case (fr_geo S, ParseIP (client_ip remote)) of
     (Some db, Some ip) \<Rightarrow> IsBlocked (fr_zero S) db ip | _ \<Rightarrow> False)"

lemma allowlist_step:
  "allowlistMiddleware (fr_allowlist S) r w = Passed (r\<lparr>cx_allowlisted := cx_allowlisted r \<or> allowlisted S (cx_remote r)\<rparr>) w"
  by (simp add: allowlistMiddleware_def allowlisted_def split: option.split)

lemma blocklist_step:
  "blocklistMiddleware (fr_blocklists S) r w = Passed r' w' \<longleftrightarrow>
     (cx_allowlisted r \<or> \<not> blocked_by_list S (cx_remote r)) \<and> r' = r \<and> w' = w"
  by (auto simp: blocklistMiddleware_def blocked_by_list_def split: option.split)

lemma geo_step:
  "geoMiddleware (fr_zero S) (fr_geo S) r w = Passed r' w' \<longleftrightarrow> \<not> blocked_by_country S (cx_remote r) \<and> r' = r \<and> w' = w"
  by (auto simp: geoMiddleware_def blocked_by_country_def split: option.split)

text \<open>What each stage has done to a request that passes them all.\<close>

lemma stage_cases:
  "noTrailingSlash L r w = Passed r1 w1 \<Longrightarrow> r1 = r \<and> w1 = w"
  "pathSecurityMiddleware r w = Passed r1 w1 \<Longrightarrow> \<not> traversal r \<and> r1 = with_path (normal_path (cx_path r)) r \<and> w1 = w"
  "securityHeadersMiddleware h rnd r w = Passed r1 w1 \<Longrightarrow> r1 = r"
  "secFetchMiddleware v ex r w = Passed r1 w1 \<Longrightarrow> r1 = r \<and> w1 = w"
  "corsMiddleware L u c domain l r w = Passed r1 w1 \<Longrightarrow> r1 = r"
  by (auto simp: noTrailingSlash_def pathSecurityMiddleware_def securityHeadersMiddleware_def
      secFetchMiddleware_def corsMiddleware_def Let_def split: if_splits)

lemma guards_passed:
  assumes "run_chain (guards S m d) r w = Passed r' w'"
  obtains p w3 r5 w5 w6 where
    "p = with_path (normal_path (cx_path r)) r" "\<not> traversal r"
    "securityHeadersMiddleware (fr_headers S) (mo_request_id m) p w = Passed p w3"
    "secFetchMiddleware (fr_sec_fetch S) (cf_ExemptPaths (fr_csrf S)) p w3 = Passed p w3"
    "csrfMiddleware (fr_lib S) (fr_hmac S) (fr_csrfSecret S) (fr_csrf S) (mo_nonce m) p w3 = Passed r5 w5"
    "corsMiddleware (fr_lib S) (fr_url S) (fr_cors S) (fr_domain S) (Some d) r5 w5 = Passed r5 w6"
    "cx_allowlisted r5 \<or> allowlisted S (cx_remote r5) \<or> \<not> blocked_by_list S (cx_remote r5)"
    "\<not> blocked_by_country S (cx_remote r5)"
    "txtExtensionMiddleware (r5\<lparr>cx_allowlisted := cx_allowlisted r5 \<or> allowlisted S (cx_remote r5)\<rparr>) w6 = Passed r' w'"
proof -
  let ?p = "with_path (normal_path (cx_path r)) r"
  from assms[unfolded guards_def] obtain r1 w1 r2 w2 r3 w3 r4 w4 r5 w5 r6 w6 r7 w7 r8 w8 r9 w9 r10 w10 where s:
    "noTrailingSlash (fr_lib S) r w = Passed r1 w1" "pathSecurityMiddleware r1 w1 = Passed r2 w2"
    "securityHeadersMiddleware (fr_headers S) (mo_request_id m) r2 w2 = Passed r3 w3"
    "secFetchMiddleware (fr_sec_fetch S) (cf_ExemptPaths (fr_csrf S)) r3 w3 = Passed r4 w4"
    "csrfMiddleware (fr_lib S) (fr_hmac S) (fr_csrfSecret S) (fr_csrf S) (mo_nonce m) r4 w4 = Passed r5 w5"
    "corsMiddleware (fr_lib S) (fr_url S) (fr_cors S) (fr_domain S) (Some d) r5 w5 = Passed r6 w6"
    "allowlistMiddleware (fr_allowlist S) r6 w6 = Passed r7 w7"
    "blocklistMiddleware (fr_blocklists S) r7 w7 = Passed r8 w8"
    "geoMiddleware (fr_zero S) (fr_geo S) r8 w8 = Passed r9 w9" "txtExtensionMiddleware r9 w9 = Passed r10 w10"
    "run_chain [] r10 w10 = Passed r' w'"
    by (elim run_chain_Cons)
  have eqs: "r1 = r" "w1 = w" "r2 = ?p" "w2 = w" "r3 = ?p" "r4 = ?p" "w4 = w3" "r6 = r5" and nt: "\<not> traversal r"
    using s stage_cases by metis+
  have late: "r7 = r5\<lparr>cx_allowlisted := cx_allowlisted r5 \<or> allowlisted S (cx_remote r5)\<rparr>" "w7 = w6"
    using s(7) eqs by (simp_all add: allowlist_step)
  have "r8 = r7" "w8 = w7" "r9 = r7" "w9 = w7" and addr: "cx_allowlisted r7 \<or> \<not> blocked_by_list S (cx_remote r7)"
    "\<not> blocked_by_country S (cx_remote r7)"
    using s(8,9) by (simp_all add: blocklist_step geo_step)
  then have "txtExtensionMiddleware (r5\<lparr>cx_allowlisted := cx_allowlisted r5 \<or> allowlisted S (cx_remote r5)\<rparr>) w6 = Passed r' w'"
    using s(10,11) late by simp
  then show ?thesis
    using that[of ?p w3 r5 w5 w6] s(3-6) eqs nt addr late by simp
qed

lemma guards_no_slash:
  assumes "run_chain (guards S m d) r w = Passed r' w'"
  shows "cx_path r = ''/'' \<or> \<not> has_suffix (cx_path r) ''/''"
proof -
  from assms[unfolded guards_def] obtain r1 w1 where "noTrailingSlash (fr_lib S) r w = Passed r1 w1" by (rule run_chain_Cons)
  then show ?thesis by (auto simp: noTrailingSlash_cases Let_def split: if_splits)
qed

subsection \<open>Paths\<close>

lemma contains_iff: "contains s p \<longleftrightarrow> (\<exists>a b. s = a @ p @ b)"
proof (induction s)
  case (Cons c s)
  show ?case
  proof
    assume "contains (c # s) p"
    then consider "has_prefix (c # s) p" | "contains s p" by auto
    then show "\<exists>a b. c # s = a @ p @ b"
    proof cases
      case 1
      then show ?thesis using has_prefix_iff[of "c # s" p] by (metis append_Nil)
    next
      case 2
      then show ?thesis using Cons.IH by (metis append_Cons)
    qed
  next
    assume "\<exists>a b. c # s = a @ p @ b"
    then obtain a b where ab: "c # s = a @ p @ b" by blast
    then have "has_prefix (c # s) p \<or> contains s p"
      using Cons.IH has_prefix_iff[of "c # s" p] by (cases a) auto
    then show "contains (c # s) p" by simp
  qed
qed simp

lemma split_on_part: "x \<in> set (split_on c s) \<Longrightarrow> \<exists>a b. s = a @ x @ b"
proof (induction s arbitrary: x)
  case (Cons d s)
  obtain y ys where y: "split_on c s = y # ys" using split_on_not_Nil[of c s] by (cases "split_on c s") auto
  have parts: "\<exists>a b. d # s = a @ z @ b" if "z \<in> set (split_on c s)" for z
    using Cons.IH[OF that] by (metis append_Cons)
  show ?case
  proof (cases "d = c")
    case True
    with Cons.prems consider "x = []" | "x \<in> set (split_on c s)" by auto
    then show ?thesis using parts by cases auto
  next
    case False
    with Cons.prems y consider "x = d # y" | "x \<in> set ys" by auto
    then show ?thesis
    proof cases
      case 1
      have "join c (y # ys) = s" using join_split_on[of c s] y by simp
      then obtain b where "s = y @ b" by (cases ys) auto
      with 1 have "d # s = [] @ x @ b" by simp
      then show ?thesis by blast
    next
      case 2
      then show ?thesis using parts y by simp
    qed
  qed
qed simp

lemma clean_step_subset: "set (foldl (clean_step True) stk cs) \<subseteq> set stk \<union> set cs"
proof (induction cs arbitrary: stk)
  case (Cons c cs)
  have "set (clean_step True stk c) \<subseteq> insert c (set stk)" by (auto split: list.split)
  with Cons.IH[of "clean_step True stk c"] show ?case by (simp del: clean_step.simps) blast
qed simp

lemma clean_elems_part:
  assumes "x \<in> set (clean_elems True p)"
  shows "\<exists>a b. p = a @ x @ b"
  using clean_step_subset[of "[]" "split_on CHR ''/'' p"] assms split_on_part by (auto simp: clean_elems_def)

lemma clean_elems_no_dots:
  assumes "\<not> contains p ''..''" "x \<in> set (clean_elems True p)"
  shows "\<not> contains x ''..''"
proof
  assume "contains x ''..''"
  then obtain a b where "x = a @ ''..'' @ b" unfolding contains_iff by blast
  then show False using clean_elems_part[OF assms(2)] assms(1) unfolding contains_iff by (metis append.assoc)
qed

lemma normal_path_shape:
  assumes "has_prefix p ''/''" "\<not> contains p ''..''" "p = ''/'' \<or> \<not> has_suffix p ''/''"
  obtains xs where "list_all (\<lambda>x. plain_elem x \<and> \<not> contains x ''..'') xs" "normal_path p = rooted_path xs"
proof -
  have "list_all (\<lambda>x. plain_elem x \<and> \<not> contains x ''..'') (clean_elems True p)"
    using clean_elems_plain[of p] clean_elems_no_dots[OF assms(2)] by (simp add: list_all_iff)
  moreover have "normal_path p = rooted_path (clean_elems True p)"
    using assms(1,3) by (auto simp: normal_path_def Clean_rooted has_prefix_def Let_def)
  ultimately show ?thesis using that by blast
qed

text \<open>Taking \<^verbatim>\<open>.txt\<close> off the last element leaves no element that leads elsewhere.\<close>

lemma strip_txt_clean:
  assumes xs: "list_all (\<lambda>x. plain_elem x \<and> \<not> contains x ''..'') xs" and suf: "has_suffix (rooted_path xs) ''.txt''"
  obtains ys where "list_all plain_elem ys" "trim_suffix (rooted_path xs) ''.txt'' = rooted_path ys \<or>
    rooted_path xs = rooted_path ys @ ''/.txt'' \<and> trim_suffix (rooted_path xs) ''.txt'' = rooted_path ys @ ''/''"
proof -
  have "xs \<noteq> []" using suf by (auto simp: has_suffix_def)
  then obtain ys e where ye: "xs = ys @ [e]" by (cases xs rule: rev_cases) auto
  let ?pre = "if ys = [] then ''/'' else rooted_path ys @ ''/''"
  have p: "rooted_path xs = ?pre @ e" using ye join_append[of ys "[e]" "CHR ''/''"] by simp
  have slash: "CHR ''/'' \<notin> set e" using xs ye by (simp add: plain_elem_def)
  obtain pre' where pre: "?pre = pre' @ ''/''" by (cases "ys = []") auto
  have "4 \<le> length e"
  proof (rule ccontr)
    assume short: "\<not> 4 \<le> length e"
    have "drop (length (pre' @ CHR ''/'' # e) - 4) (pre' @ CHR ''/'' # e) = ''.txt''"
      using suf unfolding p pre by (simp add: has_suffix_def numeral_eq_Suc)
    moreover have "length (pre' @ CHR ''/'' # e) - 4 \<le> length pre'" using short by simp
    ultimately have "drop (length (pre' @ CHR ''/'' # e) - 4) pre' @ CHR ''/'' # e = ''.txt''" by simp
    then have "CHR ''/'' \<in> set ''.txt''" by (metis in_set_conv_decomp)
    then show False by simp
  qed
  then have "has_suffix e ''.txt''" using suf suffix_within[of "''.txt''" e ?pre] unfolding p by simp
  then obtain b where e: "e = b @ ''.txt''" by (auto simp: has_suffix_def) (metis append_take_drop_id)
  have "b \<noteq> ''.''" "b \<noteq> ''..''" using xs ye e by (auto simp: has_prefix_def)
  then have b: "b = [] \<or> plain_elem b" using slash e by (auto simp: plain_elem_def)
  have "trim_suffix (rooted_path xs) ''.txt'' = ?pre @ b" unfolding p e append.assoc[symmetric] suffix_append(2) ..
  moreover have "list_all plain_elem ys" using xs ye by (simp add: list_all_iff)
  ultimately show ?thesis
  proof (cases "b = []")
    case True
    with \<open>trim_suffix _ _ = _\<close> \<open>list_all plain_elem ys\<close> p e show ?thesis
      by (cases "ys = []") (auto intro: that[of ys] that[of "[]"])
  next
    case False
    have "list_all plain_elem (ys @ [b])" using xs ye b False by (simp add: list_all_iff)
    moreover have "?pre @ b = rooted_path (ys @ [b])" using join_append[of ys "[b]" "CHR ''/''"] by simp
    ultimately show ?thesis using that[of "ys @ [b]"] \<open>trim_suffix _ _ = _\<close> by simp
  qed
qed

subsection \<open>What reaches a handler\<close>

lemma csrf_frame:
  assumes "csrfMiddleware L hm secret c rnd r w = Passed r' w'"
  shows "cx_allowlisted r' = cx_allowlisted r" "cx_path r' = cx_path r" "rw_header w' = rw_header w"
proof -
  have "cx_allowlisted r' = cx_allowlisted r \<and> cx_path r' = cx_path r \<and> rw_header w' = rw_header w"
  proof (cases "cf_Enabled c \<and> secret \<noteq> []")
    case True
    then have on: "cf_Enabled c" "secret \<noteq> []" by simp_all
    show ?thesis
      by (cases rule: csrf_cases[OF assms on refl])
        (auto simp: csrf_pass_def submitted_token_def after_form_def split: if_splits)
  qed (use assms in \<open>auto simp: csrfMiddleware_def\<close>)
  then show "cx_allowlisted r' = cx_allowlisted r" "cx_path r' = cx_path r" "rw_header w' = rw_header w" by simp_all
qed

lemma cors_headers:
  assumes "corsMiddleware L u c domain l r w = Passed r' w'" "\<not> has_prefix k ''Access-Control-''"
  shows "rw_header w' k = rw_header w k"
proof -
  have k: "k \<noteq> ''Access-Control-'' @ x" for x using assms(2) by (auto simp: has_prefix_def)
  show ?thesis
    using assms(1) k[of "''Allow-Origin''"] k[of "''Allow-Methods''"] k[of "''Allow-Headers''"]
      k[of "''Allow-Credentials''"] k[of "''Max-Age''"]
    by (auto simp: corsMiddleware_def Let_def set_header_def split: if_splits option.splits prod.splits)
qed

lemma security_headers_set:
  assumes "securityHeadersMiddleware h rnd r w = Passed r' w'"
  shows "rw_header w' ''X-Content-Type-Options'' = Some ''nosniff''"
    "\<not> isEmbedPath (cx_path r) \<Longrightarrow> rw_header w' ''X-Frame-Options'' = Some ''SAMEORIGIN''"
proof -
  define v where "v = set_header ''Permissions-Policy'' permissionsPolicy (policy_header h r (legacy_headers r w))"
  have w': "w' = set_header ''X-Request-ID'' (request_id rnd r)
      (report_headers h (if hd_tls h \<and> hd_hsts h then set_header ''Strict-Transport-Security'' (hsts_value h) v else v))"
    using assms by (auto simp: securityHeadersMiddleware_def v_def Let_def)
  have other: "rw_header (report_headers h x) k = rw_header x k" if "k \<in> {''X-Content-Type-Options'', ''X-Frame-Options''}" for x k
    using that by (auto simp: report_headers_def set_header_def split: prod.split)
  have pol: "rw_header (policy_header h r x) k = rw_header x k" if "k \<in> {''X-Content-Type-Options'', ''X-Frame-Options''}" for x k
    using that by (auto simp: policy_header_def set_header_def Let_def)
  have k: "rw_header w' k = rw_header (legacy_headers r w) k" if "k \<in> {''X-Content-Type-Options'', ''X-Frame-Options''}" for k
    using that other pol unfolding w' v_def by (auto simp: set_header_def)
  show "rw_header w' ''X-Content-Type-Options'' = Some ''nosniff''"
    "\<not> isEmbedPath (cx_path r) \<Longrightarrow> rw_header w' ''X-Frame-Options'' = Some ''SAMEORIGIN''"
    using k by (simp_all add: legacy_headers_def set_header_def Let_def)
qed


subsection \<open>Forged requests\<close>

text \<open>C10: A browser that carries the server's cookie cannot be used by another site: when a state-changing
  request without a token of its own reaches a handler although it comes from elsewhere (no web socket, no
  exempt path, no matching origin), it repeats in its header or form the value of the cookie, and the
  server itself has signed that value.\<close>

theorem forged_request_stopped:
  assumes "front_of_handlers S m r d = (Passed r' w', d')"
    and on: "cf_Enabled (fr_csrf S)" "fr_csrfSecret S \<noteq> []" "mo_nonce m \<noteq> None"
    and cookie: "cx_cookie r (cf_CookieName (fr_csrf S)) = Some v" "v \<noteq> []"
    and req: "mutating r" "\<not> hasBearer r" "\<not> isWebSocketUpgrade r" "\<not> isSameOrigin (fr_lib S) r"
    and path: "\<not> isCSRFExempt (normal_path (cx_path r)) (cf_ExemptPaths (fr_csrf S))"
  shows "fst (submitted_token (fr_lib S) (fr_csrf S) (with_path (normal_path (cx_path r)) r)) = v \<and>
    (\<exists>a b nonce. split2 CHR ''.'' v = (a, Some b) \<and> raw_url_decode a = Some nonce \<and> length nonce = 32 \<and>
       raw_url_decode b = Some (fr_hmac S (fr_csrfSecret S) nonce))"
proof -
  let ?r = "realIPMiddleware (uc_trust (fr_url S)) r" and ?c = "fr_csrf S"
  have same: "header ?r k = header r k" "cx_cookie ?r = cx_cookie r" "cx_req ?r = cx_req r" for k
    by (simp_all add: realIPMiddleware_def header_def Let_def)
  from assms(1) have "run_chain (guards S m d') ?r new_writer = Passed r' w'" by (auto simp: front_of_handlers_def Let_def)
  then obtain p w3 r5 w5 where p: "p = with_path (normal_path (cx_path ?r)) ?r"
    and s: "csrfMiddleware (fr_lib S) (fr_hmac S) (fr_csrfSecret S) ?c (mo_nonce m) p w3 = Passed r5 w5"
    by (rule guards_passed)
  have hp: "header p k = header r k" "cx_req p = cx_req (with_path (normal_path (cx_path r)) r)" "opt_str (cx_cookie p (cf_CookieName ?c)) = v"
    for k using same cookie(1) by (simp_all add: p with_path_def header_def opt_str_def)
  have eqs: "rq_host (cx_req p) = rq_host (cx_req r)" "rq_method (cx_req p) = rq_method (cx_req r)" "cx_path p = normal_path (cx_path r)"
    using hp(2) by (simp_all add: with_path_def)
  have "isSameOrigin (fr_lib S) p = isSameOrigin (fr_lib S) r" "mutating p = mutating r" "hasBearer p = hasBearer r"
    "isWebSocketUpgrade p = isWebSocketUpgrade r"
    unfolding isSameOrigin_def mutating_def hasBearer_def isWebSocketUpgrade_def hp(1) eqs by (rule refl)+
  then have "\<not> csrf_bypass (fr_lib S) ?c p (opt_str (cx_cookie p (cf_CookieName ?c)))"
    using req path cookie(2) hp(3) eqs(3) by (simp add: csrf_bypass_def)
  from csrf_checked[OF s on this] have "fst (submitted_token (fr_lib S) ?c p) = v" and v: "validateCSRFToken (fr_hmac S) (fr_csrfSecret S) v"
    using hp by simp_all
  moreover have "fst (submitted_token (fr_lib S) ?c p) = fst (submitted_token (fr_lib S) ?c (with_path (normal_path (cx_path r)) r))"
    using hp by (simp add: submitted_token_def header_def)
  moreover obtain a b nonce where "split2 CHR ''.'' v = (a, Some b)" "raw_url_decode a = Some nonce" "length nonce = 32"
    "raw_url_decode b = Some (fr_hmac S (fr_csrfSecret S) nonce)" using v by (rule valid_signed)
  ultimately show ?thesis by auto
qed

text \<open>C30: The server's own pages keep working: the first request of a browser is given a token, in its page and
  as a cookie; any later state-changing request with that cookie that repeats it in the header passes,
  and the cookie stays the same.\<close>

theorem served_token_accepted:
  assumes on: "cf_Enabled c" "secret \<noteq> []" and first: "cx_cookie r (cf_CookieName c) = None"
    and nonce: "length nonce = 32"
    and later: "cx_cookie r2 (cf_CookieName c) = cx_csrf r1" "header r2 (cf_HeaderName c) = opt_str (cx_csrf r1)"
    and pass: "csrfMiddleware L hm secret c (Some nonce) r w = Passed r1 w1"
  shows "\<exists>t. cx_csrf r1 = Some t \<and> csrf_cookie c (rq_tls (cx_req r)) t \<in> set (rw_cookies w1) \<and>
    (\<forall>rnd w2. csrfMiddleware L hm secret c rnd r2 w2 = csrf_pass c t r2 w2)"
proof -
  obtain t where t: "generateCSRFToken hm secret (Some nonce) = Some t" by (simp add: generateCSRFToken_def)
  note valid = minted_valid[OF t nonce]
  have "csrfMiddleware L hm secret c (Some nonce) r w = csrf_pass c t r w"
    using on first t by (simp add: csrfMiddleware_def csrf_token_def csrf_bypass_def opt_str_def)
  then have r1: "cx_csrf r1 = Some t" "csrf_cookie c (rq_tls (cx_req r)) t \<in> set (rw_cookies w1)"
    using pass by (auto simp: csrf_pass_def)
  have "csrfMiddleware L hm secret c rnd r2 w2 = csrf_pass c t r2 w2" for rnd w2
  proof -
    have k: "opt_str (cx_cookie r2 (cf_CookieName c)) = t" "csrf_token hm secret rnd t = Some t"
      "submitted_token L c r2 = (t, r2)" "csrf_reason hm secret t t = []"
      using later r1 valid by (simp_all add: opt_str_def csrf_token_def submitted_token_def csrf_reason_def)
    then show ?thesis using on by (simp add: csrfMiddleware_def csrf_check_def Let_def)
  qed
  then show ?thesis using r1 by blast
qed

subsection \<open>Credentials across origins\<close>

text \<open>The header fields of the reply, be it answered here (a preflight) or later by the handler.\<close>

definition reply_header :: "verdict \<Rightarrow> string \<Rightarrow> string option" where
  "reply_header v = (case v of Answered rep w \<Rightarrow> rp_header rep | Passed r w \<Rightarrow> rw_header w)"

lemma reply_header_cors:
  "reply_header (corsMiddleware L u c domain learner r w) k =
     (case resolveCORSOrigin L u c domain learner r of
        None \<Rightarrow> rw_header w k
      | Some (origin, creds) \<Rightarrow>
          if k = ''Access-Control-Allow-Credentials'' \<and> creds \<and> origin \<noteq> ''*'' then Some ''true''
          else if k = ''Access-Control-Allow-Origin'' then Some origin
          else if k = ''Access-Control-Allow-Methods'' then Some ''GET, POST, PUT, PATCH, DELETE, OPTIONS''
          else if k = ''Access-Control-Allow-Headers'' then Some corsAllowedHeaders
          else if k = ''Access-Control-Max-Age'' then Some (show_int (co_MaxAge c))
          else rw_header w k)"
  by (auto simp: corsMiddleware_def reply_header_def answer_def Let_def set_header_def split: option.split)

text \<open>C16: The browser may send credentials for another origin only when the operator allowed it and the allow-list
  names that origin, in the replies to preflight requests as well as in those a handler completes: a
  reply that the CORS step gives the header for credentials names exactly the origin of the request, never
  a wildcard, and the request did not come through Tor.\<close>

theorem credentials_only_for_listed:
  assumes "rw_header w ''Access-Control-Allow-Credentials'' = None"
    and "reply_header (corsMiddleware L u c domain learner r w) ''Access-Control-Allow-Credentials'' \<noteq> None"
  shows "co_AllowCredentials c \<and> torRequestOnion u r = [] \<and> header r ''Origin'' \<noteq> [] \<and> header r ''Origin'' \<noteq> ''*'' \<and>
    reply_header (corsMiddleware L u c domain learner r w) ''Access-Control-Allow-Origin'' = Some (header r ''Origin'') \<and>
    (\<exists>list. resolveCORSAllowList c domain learner = Some list \<and> ''*'' \<notin> set list \<and>
      (\<exists>a \<in> set list. corsOriginMatches L a (header r ''Origin'')))"
proof -
  obtain org where org: "resolveCORSOrigin L u c domain learner r = Some (org, True)" "org \<noteq> ''*''"
    using assms by (auto simp: reply_header_cors split: option.splits if_splits)
  then have "reply_header (corsMiddleware L u c domain learner r w) ''Access-Control-Allow-Origin'' = Some org"
    by (simp add: reply_header_cors)
  with org show ?thesis
    by (auto simp: resolveCORSOrigin_def Let_def list_ex_iff split: if_splits option.splits)
qed

subsection \<open>The operator\<close>

text \<open>C40: The operator's routes open for the operator's token alone. A request passes, unchanged, exactly
  if its Authorization header is the word Bearer, a blank and a non-empty token whose hash is the configured
  one, and a token is configured at all; every other request is answered with 401 or 503 and does
  not reach them. Either way exactly one entry is added to the log, which tells success from failure.\<close>

theorem operator_only:
  "if \<exists>t. header r ''Authorization'' = ''Bearer '' @ t \<and> t \<noteq> [] \<and> lib_sha256 L t = h \<and> h \<noteq> zero_hash
   then requireOperatorToken L h r w = Passed r (w\<lparr>rw_events := rw_events w @ [[''operator'', ''success'', []]]\<rparr>)
   else \<exists>rep w' why. requireOperatorToken L h r w = Answered rep w' \<and> rp_status rep \<in> {401, 503} \<and>
     rw_events w' = rw_events w @ [[''operator'', ''fail'', why]]"
proof -
  have bearer: "(length a > 7 \<and> has_prefix a ''Bearer '') \<longleftrightarrow> (\<exists>t. a = ''Bearer '' @ t \<and> t \<noteq> [])" for a
  proof
    assume b: "length a > 7 \<and> has_prefix a ''Bearer ''"
    then have "take 7 a = ''Bearer ''" by (simp add: has_prefix_def numeral_eq_Suc)
    with b have "a = ''Bearer '' @ drop 7 a \<and> drop 7 a \<noteq> []" by (metis append_take_drop_id drop_eq_Nil not_le)
    then show "\<exists>t. a = ''Bearer '' @ t \<and> t \<noteq> []" by blast
  qed (auto simp: has_prefix_def)
  show ?thesis
  proof (cases "\<exists>t. header r ''Authorization'' = ''Bearer '' @ t \<and> t \<noteq> []")
    case True
    then obtain t where t: "header r ''Authorization'' = ''Bearer '' @ t" "t \<noteq> []" by blast
    then have b: "length (header r ''Authorization'') > 7 \<and> has_prefix (header r ''Authorization'') ''Bearer ''" unfolding bearer by blast
    have d: "drop 7 (header r ''Authorization'') = t" unfolding t(1) by simp
    show ?thesis unfolding requireOperatorToken_def Let_def d
      using t(2) b unfolding t(1)
      by (simp add: refuse_def answer_def writeJSON_def log_event_def set_header_def)
  next
    case False
    then have "\<not> (length (header r ''Authorization'') > 7 \<and> has_prefix (header r ''Authorization'') ''Bearer '')" unfolding bearer by blast
    with False show ?thesis
      by (simp add: requireOperatorToken_def refuse_def answer_def writeJSON_def log_event_def set_header_def)
  qed
qed

subsection \<open>Entries of the lists\<close>

lemma allow_entry_single:
  assumes "ParseIP e = Some ip" "CHR ''/'' \<notin> set e" "CHR '':'' \<notin> set e \<or> to4 ip = None"
  shows "\<exists>n. allow_entry e = Some n \<and> (\<forall>x. net_contains n x \<longleftrightarrow> ip_equal x ip)"
proof -
  have noslash: "\<not> contains e ''/''" using assms(2) by (simp add: contains_char)
  have v4: "to4 ip \<noteq> None" if "CHR '':'' \<notin> set e"
  proof -
    obtain c rest where dw: "dropWhile (\<lambda>c. c \<noteq> CHR ''.'' \<and> c \<noteq> CHR '':'' \<and> c \<noteq> CHR ''%'') e = c # rest"
      using assms(1) by (auto simp: ParseIP_def split: list.splits)
    then have "c \<in> set e" by (metis list.set_intros(1) set_dropWhileD)
    with that have "c \<noteq> CHR '':''" by blast
    with assms(1) dw obtain q where "ip = v4_prefix @ q" "parse_v4 e = Some q" by (auto simp: ParseIP_def split: if_splits)
    then show ?thesis using parse_v4_length[of e q] by (simp add: to4_def v4_prefix_def)
  qed
  show ?thesis
  proof (cases "CHR '':'' \<in> set e")
    case False
    then show ?thesis using single_v4[OF assms(1,2)] v4 noslash assms(1) by (auto simp: allow_entry_def)
  next
    case True
    then have "to4 ip = None" using assms(3) by blast
    then show ?thesis using single_v6[OF assms(1,2) True] noslash assms(1) by (simp add: allow_entry_def)
  qed
qed

text \<open>An entry of the allowlist without a prefix length that is written as an IPv4 address, or as an IPv6
  address that is not an IPv4 one in disguise, admits exactly the address it names.\<close>

theorem single_entry_exact:
  assumes "ParseIP e = Some ip" "CHR ''/'' \<notin> set e" "CHR '':'' \<notin> set e \<or> to4 ip = None"
  shows "\<exists>n. allow_entry e = Some n \<and> (\<forall>x. net_contains n x \<longleftrightarrow> ip_equal x ip)"
  by (rule allow_entry_single[OF assms])

theorem single_entry_exact_witness:
  "\<exists>n. allow_entry ''8.8.8.8'' = Some n \<and> net_contains n (v4_prefix @ [8, 8, 8, 8]) \<and> \<not> net_contains n (v4_prefix @ [8, 8, 8, 9])"
proof -
  have ip: "ParseIP ''8.8.8.8'' = Some (v4_prefix @ [8, 8, 8, 8])" by (simp add: ParseIP_def ip_eval)
  have "ip_equal (v4_prefix @ [8, 8, 8, 8]) (v4_prefix @ [8, 8, 8, 8])"
    "\<not> ip_equal (v4_prefix @ [8, 8, 8, 9]) (v4_prefix @ [8, 8, 8, 8])"
    by (simp_all add: ip_equal_def canon_def to4_def v4_prefix_def)
  then show ?thesis using single_entry_exact[OF ip] by auto
qed

lemma mask_nothing: "list_all (\<lambda>b. b < 256) xs \<Longrightarrow> mask_ip 0 xs = replicate (length xs) 0"
  by (induction xs) (simp_all add: mask_byte_def)

lemma mapped_literal:
  "ParseIP ''::ffff:1.2.3.4'' = Some (v4_prefix @ [1, 2, 3, 4])"
  "ParseCIDR ''::ffff:1.2.3.4/32'' = Some \<lparr>in_ip = replicate 16 0, in_bits = 32\<rparr>"
proof -
  have z: "replicate 16 (0::nat) = [0, 0, 0, 0, 0, 0, 0, 0, 0, 0, 0, 0, 0, 0, 0, 0]" by (simp add: numeral_eq_Suc)
  show "ParseIP ''::ffff:1.2.3.4'' = Some (v4_prefix @ [1, 2, 3, 4])"
    by (simp add: ParseIP_def parse_v6_def parse_v6_loop.simps is_hex_def hex_val_def hex_number_def has_prefix_def
      ip_eval zero_bytes v4_prefix_def)
  then show "ParseCIDR ''::ffff:1.2.3.4/32'' = Some \<lparr>in_ip = replicate 16 0, in_bits = 32\<rparr>"
    by (simp add: ParseCIDR_def v4_prefix_def ip_eval zero_bytes z)
qed

text \<open>An IPv4 address written in its IPv6 form is taken for one, but as an entry of the allowlist it does
  not admit itself: it becomes the network of the IPv6 addresses that begin with four zero bytes.\<close>

theorem mapped_entry_misses_itself:
  "\<exists>ip n. ParseIP ''::ffff:1.2.3.4'' = Some ip \<and> allow_entry ''::ffff:1.2.3.4'' = Some n \<and> \<not> net_contains n ip \<and>
     (\<forall>rest. length rest = 12 \<and> list_all (\<lambda>b. b < 256) rest \<and> to4 ([0, 0, 0, 0] @ rest) = None \<longrightarrow>
        net_contains n ([0, 0, 0, 0] @ rest))"
proof -
  let ?n = "\<lparr>in_ip = replicate 16 0, in_bits = 32\<rparr>" and ?ip = "v4_prefix @ [1, 2, 3, 4]"
  have sixteen: "replicate 16 (0::nat) = 0 # 0 # 0 # 0 # replicate 12 0" by (simp add: numeral_eq_Suc)
  have num: "net_number ?n = (replicate 16 0, 32)" by (simp add: net_number_def to4_def v4_prefix_def numeral_eq_Suc)
  have "\<not> contains ''::ffff:1.2.3.4'' ''/''" by (simp add: contains_char)
  moreover have "to4 ?ip \<noteq> None" by (simp add: to4_def v4_prefix_def)
  ultimately have "allow_entry ''::ffff:1.2.3.4'' = Some ?n"
    using mapped_literal unfolding allow_entry_def by simp
  moreover have "\<not> net_contains ?n ?ip" using num by (simp add: net_contains_def canon_def to4_def v4_prefix_def)
  moreover have "net_contains ?n ([0, 0, 0, 0] @ rest)" if "length rest = 12" "list_all (\<lambda>b. b < 256) rest" "to4 ([0, 0, 0, 0] @ rest) = None" for rest
  proof -
    have "canon ([0, 0, 0, 0] @ rest) = [0, 0, 0, 0] @ rest" using that(3) by (simp add: canon_def)
    moreover have "mask_ip 32 ([0, 0, 0, 0] @ rest) = replicate 16 0"
      using that(1) mask_nothing[OF that(2)] by (simp add: mask_byte_def sixteen)
    moreover have "mask_ip 32 (replicate 16 0) = replicate 16 0"
      using mask_nothing[of "replicate 12 0"] by (simp add: mask_byte_def sixteen list_all_iff)
    ultimately show ?thesis using num that(1) by (simp add: net_contains_def)
  qed
  ultimately show ?thesis using mapped_literal(1) by blast
qed

text \<open>The country policy compares an entry without a prefix length with the canonical text of the address:
  an address that is entered in another spelling is allowlisted, but not for the country policy.\<close>

theorem geo_allowlist_spelling:
  assumes "ParseIP e = Some ip" "CHR ''/'' \<notin> set e" "to4 ip = None" "e \<noteq> ip_String ip"
  shows "allowlist_contains (newAllowlistSet [e]) ip \<and> \<not> geo_allowed [e] ip"
proof -
  obtain n where "allow_entry e = Some n" "\<forall>x. net_contains n x \<longleftrightarrow> ip_equal x ip"
    using allow_entry_single[OF assms(1,2)] assms(3) by blast
  then have "allowlist_contains (newAllowlistSet [e]) ip"
    by (simp add: newAllowlistSet_def map_filter_simps allowlist_contains_def ip_equal_def)
  moreover have "index_of CHR ''/'' e = None" using assms(2) by (induction e) auto
  ultimately show ?thesis using assms(4) by (simp add: geo_allowed_def ParseCIDR_def)
qed

theorem geo_allowlist_spelling_witness:
  "\<exists>ip. ParseIP ''2001:DB8::1'' = Some ip \<and> allowlist_contains (newAllowlistSet [''2001:DB8::1'']) ip \<and>
     \<not> geo_allowed [''2001:DB8::1''] ip"
proof -
  let ?ip = "[32, 1, 13, 184, 0, 0, 0, 0, 0, 0, 0, 0, 0, 0, 0, 1] :: nat list"
  have ten: "replicate 10 (0::nat) = [0, 0, 0, 0, 0, 0, 0, 0, 0, 0]" by (rule zero_bytes)
  have ip: "ParseIP ''2001:DB8::1'' = Some ?ip"
    by (simp add: ParseIP_def parse_v6_def parse_v6_loop.simps is_hex_def hex_val_def hex_number_def has_prefix_def ten)
  have run: "longest_run [8193, 3512, 0, 0, 0, 0, 0, 1] = (2, 5)" by (simp add: longest_run_def zero_run_def upt_rec)
  have hex: "hex_text 8193 = ''2001''" "hex_text 3512 = ''db8''" "hex_text 1 = ''1''"
    by (simp_all add: hex_text.simps hex_digit_def char_of_def bit_iff_odd)
  have "ip_String ?ip = ''2001:db8::1''" using run hex by (simp add: ip_String_def to4_def v4_prefix_def)
  then show ?thesis using geo_allowlist_spelling[OF ip] ip by (simp add: to4_def v4_prefix_def)
qed

text \<open>Every path that ends in a slash, other than the root, is redirected, also one that names a file,
  such as \<^verbatim>\<open>/static/app.js/\<close>: the exemption for files inspects what follows the last slash, and there
  is nothing there.\<close>

theorem trailing_slash_always_redirected:
  "(\<exists>r' w'. noTrailingSlash L r w = Passed r' w') \<longleftrightarrow> cx_path r = ''/'' \<or> \<not> has_suffix (cx_path r) ''/''"
  by (auto simp: noTrailingSlash_cases Let_def)

text \<open>The redirect of a trailing slash can lead to another site: a request for a path of two slashes, a
  host name and a slash is answered with a permanent redirect to that host.\<close>

theorem trailing_slash_open_redirect:
  assumes "host \<noteq> []" "list_all path_plain host" "CHR ''/'' \<notin> set host" "lib_url L (''//'' @ host) = Some ([], host)"
    and "cx_path r = ''//'' @ host @ ''/''" "cx_authority r = []" "cx_querytext r = []"
  shows "\<exists>rep w' d'. front_of_handlers (S\<lparr>fr_lib := L\<rparr>) m r d = (Answered rep w', d') \<and> rp_status rep = 301 \<and>
    rp_header rep ''Location'' = Some (''//'' @ host)"
proof -
  let ?r = "realIPMiddleware (uc_trust (fr_url S)) r"
  have "cx_path ?r = cx_path r" "cx_authority ?r = cx_authority r" "cx_querytext ?r = cx_querytext r"
    by (simp_all add: realIPMiddleware_def Let_def)
  then obtain rep where "noTrailingSlash L ?r new_writer = Answered rep new_writer" "rp_status rep = 301"
    "rp_header rep ''Location'' = Some (''//'' @ host)"
    using trailing_slash_offsite[OF assms(1-4), of ?r new_writer] assms(5-7) by auto
  then show ?thesis by (simp add: front_of_handlers_def guards_def Let_def)
qed

subsection \<open>Examples\<close>

definition demo_front :: "nat front" where
  "demo_front = \<lparr>fr_lib = demo_lib\<lparr>lib_url := (\<lambda>u. if has_prefix u ''//'' then Some ([], drop 2 u) else None)\<rparr>,
     fr_hosts = demo_hosts_lib,
     fr_url = \<lparr>uc_trust = plain_trust, uc_onion = [], uc_b32 = [], uc_base_url = [], uc_fqdn = []\<rparr>,
     fr_learning = \<lparr>dc_Learning = False, dc_MinSamples = 0, dc_SampleWindow = 0\<rparr>,
     fr_headers = \<lparr>hd_csp = \<lparr>cs_Enabled = True, cs_Mode = [], cs_ScriptSrcOverride = [], cs_ScriptSrcExtra = [],
         cs_StyleSrcExtra = [], cs_ImgSrcExtra = [], cs_FontSrcExtra = [], cs_ConnectSrcExtra = [], cs_FrameSrcExtra = [],
         cs_FormActionExtra = [], cs_EmbedFrameAncestors = []\<rparr>, hd_fqdn = [], hd_APIVersion = [], hd_mode = [], hd_tls = False,
       hd_hsts = False, hd_hsts_max_age = 0, hd_hsts_subdomains = False, hd_hsts_preload = False\<rparr>,
     fr_sec_fetch = False, fr_hmac = (\<lambda>k msg. k), fr_csrfSecret = ''key'',
     fr_csrf = \<lparr>cf_Enabled = True, cf_CookieName = ''csrf_token'', cf_HeaderName = ''X-CSRF-Token'', cf_ExemptPaths = [],
       cf_Secure = ''auto''\<rparr>,
     fr_cors = \<lparr>co_AllowedOrigins = [], co_AllowCredentials = False, co_MaxAge = 60\<rparr>, fr_domain = [],
     fr_allowlist = [''8.8.8.8''],
     fr_blocklists = Some [\<lparr>df_name = ''scanners.txt'', df_dir = False, df_content = Some ''8.8.8.0/24''\<rparr>],
     fr_zero = 0, fr_geo = None\<rparr>"

definition demo_moment :: moment where
  "demo_moment = \<lparr>mo_now = 0, mo_request_id = None, mo_nonce = Some (replicate 32 (CHR ''n''))\<rparr>"

definition demo_token :: string where
  "demo_token = raw_url_encode (replicate 32 (CHR ''n'')) @ ''.'' @ raw_url_encode ''key''"

lemma demo_token_valid: "validateCSRFToken (\<lambda>k msg. k) ''key'' demo_token" "demo_token \<noteq> []"
  using minted_valid[of "\<lambda>k msg. k" "''key''" "replicate 32 (CHR ''n'')" demo_token]
  by (simp_all add: generateCSRFToken_def demo_token_def)

lemma demo_address:
  "allowlisted demo_front ''8.8.8.8:5''" "blocked_by_list demo_front ''8.8.8.8:5''" "\<not> blocked_by_country demo_front ''8.8.8.8:5''"
proof -
  have ip: "ParseIP ''8.8.8.8'' = Some (v4_prefix @ [8, 8, 8, 8])" by (simp add: ParseIP_def ip_eval)
  have "ip_equal (v4_prefix @ [8, 8, 8, 8]) (v4_prefix @ [8, 8, 8, 8])" by (simp add: ip_equal_def)
  then obtain n where n: "allow_entry ''8.8.8.8'' = Some n" "net_contains n (v4_prefix @ [8, 8, 8, 8])"
    using allow_entry_single[OF ip] by auto
  have cl: "client_ip ''8.8.8.8:5'' = ''8.8.8.8''" by (simp add: client_ip_def demo_hosts)
  have al: "fr_allowlist demo_front = [''8.8.8.8'']" "fr_geo demo_front = None"
    "fr_blocklists demo_front = Some [\<lparr>df_name = ''scanners.txt'', df_dir = False, df_content = Some ''8.8.8.0/24''\<rparr>]"
    by (simp_all add: demo_front_def)
  show "allowlisted demo_front ''8.8.8.8:5''"
    using n by (simp add: allowlisted_def cl ip al newAllowlistSet_def map_filter_simps allowlist_contains_def)
  show "\<not> blocked_by_country demo_front ''8.8.8.8:5''" by (simp add: blocked_by_country_def al)
  have "trim_space ''8.8.8.0/24'' = ''8.8.8.0/24''" by (rule trim_space_plain) (simp_all add: plain_char_def)
  moreover have "ParseCIDR ''8.8.8.0/24'' = Some \<lparr>in_ip = [8, 8, 8, 0], in_bits = 24\<rparr>"
    by (simp add: ParseCIDR_def ParseIP_def v4_prefix_def ip_eval)
  ultimately have "loadBlocklists (fr_blocklists demo_front) = \<lparr>bs_ips = [], bs_nets = [\<lparr>in_ip = [8, 8, 8, 0], in_bits = 24\<rparr>]\<rparr>"
    by (simp add: loadBlocklists_def al block_file_def has_suffix_def scan_lines_def trim_suffix_def block_line_def has_prefix_def)
  then show "blocked_by_list demo_front ''8.8.8.8:5''"
    by (simp add: blocked_by_list_def cl ip blocklist_contains_def net_contains_def net_number_def canon_def to4_def
      v4_prefix_def mask_byte_def)
qed

definition demo_post :: http_ctx where
  "demo_post = (demo_ctx ''8.8.8.8:5'' [(''X-CSRF-Token'', demo_token), (''Origin'', ''https://other.example'')])
     \<lparr>cx_cookie := [''csrf_token'' \<mapsto> demo_token]\<rparr>"

lemma demo_post_passes: "\<exists>r' w' d'. front_of_handlers demo_front demo_moment demo_post newDomainLearner = (Passed r' w', d')"
proof -
  let ?c = "fr_csrf demo_front"
  define r where "r = realIPMiddleware plain_trust demo_post"
  have "cx_remote demo_post = ''8.8.8.8:5''" by (simp add: demo_post_def demo_ctx_def)
  then have r: "r = demo_post\<lparr>cx_peer := Some ''8.8.8.8:5''\<rparr>"
    unfolding r_def using real_ip_untrusted[of demo_post plain_trust] demo_trust(1) by simp
  have path: "cx_path r = ''/api/v1/pastes''" "cx_rawpath r = []" "cx_remote r = ''8.8.8.8:5''" "rq_method (cx_req r) = ''POST''"
    by (simp_all add: r demo_post_def demo_ctx_def)
  have "to_lower ''/api/v1/pastes'' = ''/api/v1/pastes''" by (simp add: to_lower_ascii lower_char_def)
  then have nt: "\<not> traversal r" by (simp add: traversal_def path has_prefix_def)
  have norm: "with_path (normal_path (cx_path r)) r = r"
  proof -
    have "normal_path ''/api/v1/pastes'' = ''/api/v1/pastes''"
      by (simp add: normal_path_def Clean_def clean_elems_def has_prefix_def has_suffix_def Let_def)
    moreover have "with_path (cx_path r) r = r" by (simp add: with_path_def)
    ultimately show ?thesis using path(1) by simp
  qed
  obtain w3 where w3: "securityHeadersMiddleware (fr_headers demo_front) None r new_writer = Passed r w3"
    by (simp add: securityHeadersMiddleware_def Let_def)
  have "submitted_token (fr_lib demo_front) ?c r = (demo_token, r)"
    using demo_token_valid(2) by (simp add: submitted_token_def demo_front_def header_def r demo_post_def demo_ctx_def opt_str_def)
  moreover have "opt_str (cx_cookie r (cf_CookieName ?c)) = demo_token"
    by (simp add: demo_front_def r demo_post_def opt_str_def)
  moreover have "cf_Enabled ?c" "fr_csrfSecret demo_front = ''key''" "fr_hmac demo_front = (\<lambda>k msg. k)" by (simp_all add: demo_front_def)
  ultimately obtain r5 w5 where csrf: "csrfMiddleware (fr_lib demo_front) (fr_hmac demo_front) (fr_csrfSecret demo_front) ?c
      (mo_nonce demo_moment) r w3 = Passed r5 w5"
    using demo_token_valid by (simp add: csrfMiddleware_def csrf_token_def csrf_check_def csrf_reason_def csrf_pass_def)
  have r5: "cx_remote r5 = ''8.8.8.8:5''" "rq_method (cx_req r5) = ''POST''"
    using csrf.origin[OF csrf] path by (simp_all add: same_origin_data_def)
  obtain w6 where cors: "corsMiddleware (fr_lib demo_front) (fr_url demo_front) (fr_cors demo_front) (fr_domain demo_front)
      (Some d) r5 w5 = Passed r5 (w6 d)" for d
    using r5 by (simp add: corsMiddleware_def Let_def)
  have stages: "noTrailingSlash (fr_lib demo_front) r new_writer = Passed r new_writer"
    "pathSecurityMiddleware r new_writer = Passed r new_writer"
    "secFetchMiddleware (fr_sec_fetch demo_front) (cf_ExemptPaths ?c) r w3 = Passed r w3" "mo_request_id demo_moment = None"
    using path nt norm
    by (simp_all add: noTrailingSlash_cases has_suffix_def pathSecurityMiddleware_def secFetchMiddleware_def demo_front_def demo_moment_def)
  define r7 where "r7 = r5\<lparr>cx_allowlisted := True\<rparr>"
  have late: "allowlistMiddleware (fr_allowlist demo_front) r5 w = Passed r7 w"
    "blocklistMiddleware (fr_blocklists demo_front) r7 w = Passed r7 w"
    "geoMiddleware (fr_zero demo_front) (fr_geo demo_front) r7 w = Passed r7 w" for w
    using demo_address r5(1) by (simp_all add: allowlist_step blocklist_step geo_step r7_def)
  have "run_chain (guards demo_front demo_moment d) r new_writer = run_chain [txtExtensionMiddleware] r7 (w6 d)" for d
    by (simp only: guards_def run_chain.simps stages w3 csrf cors late verdict.case)
  moreover have "uc_trust (fr_url demo_front) = plain_trust" by (simp add: demo_front_def)
  ultimately show ?thesis by (auto simp: front_of_handlers_def r_def[symmetric] txtExtensionMiddleware_def Let_def)
qed


theorem forged_request_stopped_witness:
  "\<exists>r' w' d'. front_of_handlers demo_front demo_moment demo_post newDomainLearner = (Passed r' w', d') \<and>
     fst (submitted_token (fr_lib demo_front) (fr_csrf demo_front) (with_path (normal_path (cx_path demo_post)) demo_post)) = demo_token"
proof -
  obtain r' w' d' where run: "front_of_handlers demo_front demo_moment demo_post newDomainLearner = (Passed r' w', d')"
    using demo_post_passes by blast
  have h: "header demo_post ''Authorization'' = []" "header demo_post ''X-API-Token'' = []" "header demo_post ''Upgrade'' = []"
    "header demo_post ''Origin'' = ''https://other.example''"
    by (simp_all add: demo_post_def demo_ctx_def header_def opt_str_def)
  have "lib_url (fr_lib demo_front) ''https://other.example'' = None" by (simp add: demo_front_def has_prefix_def)
  then have "\<not> isSameOrigin (fr_lib demo_front) demo_post" using h by (simp add: isSameOrigin_def)
  moreover have "mutating demo_post" "cx_cookie demo_post (cf_CookieName (fr_csrf demo_front)) = Some demo_token"
    by (simp_all add: demo_post_def demo_ctx_def mutating_def demo_front_def)
  moreover have "\<not> hasBearer demo_post" "\<not> isWebSocketUpgrade demo_post" using h by (simp_all add: hasBearer_def isWebSocketUpgrade_def)
  moreover have "cf_Enabled (fr_csrf demo_front)" "fr_csrfSecret demo_front \<noteq> []" "mo_nonce demo_moment \<noteq> None"
    "\<not> isCSRFExempt q (cf_ExemptPaths (fr_csrf demo_front))" for q
    by (simp_all add: demo_front_def demo_moment_def isCSRFExempt_def)
  ultimately show ?thesis using forged_request_stopped[OF run, of demo_token] demo_token_valid(2) run by blast
qed

theorem served_token_accepted_witness:
  "\<exists>t w1. csrfMiddleware demo_lib (\<lambda>k msg. k) ''key'' (fr_csrf demo_front) (Some (replicate 32 (CHR ''n'')))
       (demo_ctx ''8.8.8.8:5'' []) new_writer = Passed ((demo_ctx ''8.8.8.8:5'' [])\<lparr>cx_csrf := Some t\<rparr>) w1 \<and>
     (\<forall>rnd w2. csrfMiddleware demo_lib (\<lambda>k msg. k) ''key'' (fr_csrf demo_front) rnd
       ((demo_ctx ''8.8.8.8:5'' [(''X-CSRF-Token'', t)])\<lparr>cx_cookie := [''csrf_token'' \<mapsto> t]\<rparr>) w2
       = csrf_pass (fr_csrf demo_front) t ((demo_ctx ''8.8.8.8:5'' [(''X-CSRF-Token'', t)])\<lparr>cx_cookie := [''csrf_token'' \<mapsto> t]\<rparr>) w2)"
proof -
  let ?r = "demo_ctx ''8.8.8.8:5'' []" and ?c = "fr_csrf demo_front" and ?n = "replicate 32 (CHR ''n'')"
  have c: "cf_Enabled ?c" "cf_CookieName ?c = ''csrf_token''" "cf_HeaderName ?c = ''X-CSRF-Token''" by (simp_all add: demo_front_def)
  obtain t where t: "generateCSRFToken (\<lambda>k msg. k) ''key'' (Some ?n) = Some t" by (simp add: generateCSRFToken_def)
  have none: "cx_cookie ?r (cf_CookieName ?c) = None" by (simp add: demo_ctx_def)
  have pass: "csrfMiddleware demo_lib (\<lambda>k msg. k) ''key'' ?c (Some ?n) ?r new_writer = csrf_pass ?c t ?r new_writer"
    using c t none by (simp add: csrfMiddleware_def csrf_token_def csrf_bypass_def opt_str_def)
  let ?r2 = "(demo_ctx ''8.8.8.8:5'' [(''X-CSRF-Token'', t)])\<lparr>cx_cookie := [''csrf_token'' \<mapsto> t]\<rparr>"
  have "\<exists>t'. cx_csrf (?r\<lparr>cx_csrf := Some t\<rparr>) = Some t' \<and>
      csrf_cookie ?c (rq_tls (cx_req ?r)) t' \<in> set (rw_cookies (new_writer\<lparr>rw_cookies := rw_cookies new_writer @ [csrf_cookie ?c (rq_tls (cx_req ?r)) t]\<rparr>)) \<and>
      (\<forall>rnd w2. csrfMiddleware demo_lib (\<lambda>k msg. k) ''key'' ?c rnd ?r2 w2 = csrf_pass ?c t' ?r2 w2)"
    by (rule served_token_accepted[OF c(1) _ none _ _ _ pass[unfolded csrf_pass_def]])
      (simp_all add: c header_def demo_ctx_def opt_str_def)
  then have "\<forall>rnd w2. csrfMiddleware demo_lib (\<lambda>k msg. k) ''key'' ?c rnd ?r2 w2 = csrf_pass ?c t ?r2 w2" by simp
  then show ?thesis using pass unfolding csrf_pass_def by blast
qed

theorem credentials_only_for_listed_witness:
  "let c = \<lparr>co_AllowedOrigins = [''https://a.example''], co_AllowCredentials = True, co_MaxAge = 0\<rparr>;
       r = demo_ctx ''8.8.8.8:5'' [(''Origin'', ''https://a.example'')];
       preflight = r\<lparr>cx_req := (cx_req r)\<lparr>rq_method := ''OPTIONS''\<rparr>\<rparr>
   in (\<exists>rep w'. corsMiddleware demo_lib (fr_url demo_front) c [] None preflight new_writer = Answered rep w') \<and>
      reply_header (corsMiddleware demo_lib (fr_url demo_front) c [] None preflight new_writer) ''Access-Control-Allow-Origin'' =
        Some ''https://a.example''"
proof -
  let ?c = "\<lparr>co_AllowedOrigins = [''https://a.example''], co_AllowCredentials = True, co_MaxAge = 0\<rparr>"
  let ?r = "demo_ctx ''8.8.8.8:5'' [(''Origin'', ''https://a.example'')]"
  let ?p = "?r\<lparr>cx_req := (cx_req ?r)\<lparr>rq_method := ''OPTIONS''\<rparr>\<rparr>"
  have h: "header ?p ''Origin'' = ''https://a.example''"
    by (simp add: header_def demo_ctx_def opt_str_def)
  have res: "resolveCORSOrigin demo_lib (fr_url demo_front) ?c [] None ?p = Some (''https://a.example'', True)"
    using h by (simp add: resolveCORSOrigin_def torRequestOnion_def demo_front_def resolveCORSAllowList_def corsOriginMatches_def)
  have "reply_header (corsMiddleware demo_lib (fr_url demo_front) ?c [] None ?p new_writer) ''Access-Control-Allow-Credentials'' \<noteq> None"
    by (simp add: reply_header_cors res)
  moreover have "\<exists>rep w'. corsMiddleware demo_lib (fr_url demo_front) ?c [] None ?p new_writer = Answered rep w'"
    by (simp add: corsMiddleware_def answer_def Let_def)
  ultimately show ?thesis
    using credentials_only_for_listed[of new_writer demo_lib "fr_url demo_front" ?c "[]" None ?p] h
    unfolding Let_def by (simp add: new_writer_def)
qed

theorem trailing_slash_open_redirect_witness:
  "\<exists>rep w' d'. front_of_handlers demo_front demo_moment
       (with_path ''//evil.example/'' (demo_ctx ''8.8.8.8:5'' [])) newDomainLearner = (Answered rep w', d') \<and>
     rp_header rep ''Location'' = Some ''//evil.example''"
proof -
  let ?L = "fr_lib demo_front" and ?r = "with_path ''//evil.example/'' (demo_ctx ''8.8.8.8:5'' [])"
  have "lib_url ?L (''//'' @ ''evil.example'') = Some ([], ''evil.example'')" by (simp add: demo_front_def has_prefix_def)
  moreover have "list_all path_plain ''evil.example''" by (simp add: path_plain_def in_range_def)
  moreover have "cx_path ?r = ''//'' @ ''evil.example'' @ ''/''" "cx_authority ?r = []" "cx_querytext ?r = []"
    by (simp_all add: with_path_def demo_ctx_def)
  moreover have "demo_front\<lparr>fr_lib := ?L\<rparr> = demo_front" by simp
  ultimately show ?thesis
    using trailing_slash_open_redirect[of "''evil.example''" ?L ?r demo_front demo_moment newDomainLearner] by auto
qed

end
