(* ===== verification/Mail_Message.thy ===== *)
theory Mail_Message
  imports Config_Contact Go_Net Go_Path
begin

section \<open>Outgoing mail\<close>

text \<open>
  \<^verbatim>\<open>src/src/common/email/email.go\<close>: templates and their variables, the two message formats, the choice of the
  way to the SMTP server and its detection. The dialogue with that server is not modelled: a mail is
  the plan with which \<^verbatim>\<open>net/smtp\<close> or a TLS client is called. A Go map is visited in an order that the
  runtime chooses; the order is an argument.
\<close>

record mailer =
  ml_Enabled :: bool
  ml_Host :: string
  ml_Port :: int
  ml_Username :: string
  ml_Password :: string
  ml_TLS :: string
  ml_FromName :: string
  ml_FromEmail :: string
  ml_ReplyTo :: string
  ml_TemplateDir :: string
  ml_appName :: string
  ml_appURL :: string
  ml_fqdn :: string
  ml_onionAddress :: string
  ml_i2pAddress :: string

definition SetOnionAddress :: "string \<Rightarrow> mailer \<Rightarrow> mailer" where
  "SetOnionAddress a m = m\<lparr>ml_onionAddress := a\<rparr>"

definition SetI2PAddress :: "string \<Rightarrow> mailer \<Rightarrow> mailer" where
  "SetI2PAddress a m = m\<lparr>ml_i2pAddress := a\<rparr>"

definition mailer_Enabled :: "mailer \<Rightarrow> bool" where
  "mailer_Enabled m \<longleftrightarrow> ml_Enabled m \<and> ml_Host m \<noteq> []"

definition resolveFrom :: "mailer \<Rightarrow> string \<times> string" where
  "resolveFrom m =
     (if ml_FromName m = [] then ml_appName m else ml_FromName m,
      if ml_FromEmail m = [] then ''no-reply@'' @ ml_fqdn m else ml_FromEmail m)"

subsection \<open>Templates\<close>

text \<open>The files: an override in the configured directory, else the text compiled into the program.\<close>

record template_files =
  tf_file :: "string \<Rightarrow> string option"
  tf_embedded :: "string \<Rightarrow> string option"

definition loadTemplate :: "template_files \<Rightarrow> mailer \<Rightarrow> string \<Rightarrow> string option" where
  "loadTemplate F m name =
     (case (if ml_TemplateDir m = [] then None else tf_file F (ml_TemplateDir m @ ''/'' @ name @ ''.txt'')) of
        Some t \<Rightarrow> Some t
      | None \<Rightarrow> tf_embedded F (''templates/'' @ name @ ''.txt''))"

record stamps =
  st_timestamp :: string
  st_year :: string

definition global_vars :: "mailer \<Rightarrow> stamps \<Rightarrow> (string \<times> string) list" where
  "global_vars m t =
     [(''app_name'', ml_appName m), (''app_url'', ml_appURL m), (''fqdn'', ml_fqdn m),
      (''timestamp'', st_timestamp t), (''year'', st_year t),
      (''onion_address'', ml_onionAddress m),
      (''onion_url'', if ml_onionAddress m = [] then [] else ''http://'' @ ml_onionAddress m),
      (''i2p_address'', ml_i2pAddress m),
      (''i2p_url'', if ml_i2pAddress m = [] then [] else ''http://'' @ ml_i2pAddress m),
      (''notification_reply_to'', ml_ReplyTo m)]"

definition placeholder :: "string \<Rightarrow> string" where
  "placeholder k = CHR ''{'' # k @ ''}''"

definition substitute :: "string \<times> string \<Rightarrow> string \<Rightarrow> string" where
  "substitute kv s = replace_all (placeholder (fst kv)) (snd kv) s"

definition renderTemplate ::
  "template_files \<Rightarrow> mailer \<Rightarrow> stamps \<Rightarrow> ((string \<times> string) list \<Rightarrow> (string \<times> string) list) \<Rightarrow> string \<Rightarrow>
   (string \<times> string) list \<Rightarrow> string option" where
  "renderTemplate F m t order name vars =
     map_option (\<lambda>raw. fold substitute (order vars) (fold substitute (order (global_vars m t)) raw)) (loadTemplate F m name)"

abbreviation newline :: char where "newline \<equiv> CHR 0x0A"

fun after_separator :: "string list \<Rightarrow> string list option" where
  "after_separator [] = None"
| "after_separator (l # ls) = (if trim_space l = ''---'' then Some ls else after_separator ls)"

definition parseTemplate :: "string \<Rightarrow> (string \<times> string) option" where
  "parseTemplate text =
     (let ls = split_on newline text in
      if length ls < 3 then None
      else if \<not> has_prefix (hd ls) ''Subject: '' then None
      else case after_separator ls of
             None \<Rightarrow> None
           | Some body \<Rightarrow> Some (trim_space (trim_prefix (hd ls) ''Subject: ''), trim_space (join newline body)))"

subsection \<open>Messages\<close>

definition header_byte :: "char \<Rightarrow> bool" where
  "header_byte c \<longleftrightarrow> (of_char c :: nat) \<ge> 32 \<or> c = CHR 0x09"

definition sanitizeHeader :: "string \<Rightarrow> string" where
  "sanitizeHeader v = filter header_byte (utf8_coerce v)"

definition crlf_line :: "string \<Rightarrow> string" where
  "crlf_line l = l @ [CHR 0x0D, CHR 0x0A]"

definition envelope_lines :: "string \<Rightarrow> string \<Rightarrow> string \<Rightarrow> string \<Rightarrow> string \<Rightarrow> string list" where
  "envelope_lines fromName fromAddr to subject replyTo =
     [''From: '' @ sanitizeHeader fromName @ '' <'' @ sanitizeHeader fromAddr @ ''>'',
      ''To: '' @ sanitizeHeader to, ''Subject: '' @ sanitizeHeader subject] @
     (if sanitizeHeader replyTo \<noteq> [] then [''Reply-To: '' @ sanitizeHeader replyTo] else [])"

definition buildMessage :: "string \<Rightarrow> string \<Rightarrow> string \<Rightarrow> string \<Rightarrow> string \<Rightarrow> string \<Rightarrow> string" where
  "buildMessage fromName fromAddr to subject body replyTo =
     concat (map crlf_line (envelope_lines fromName fromAddr to subject replyTo)) @
     crlf_line ''MIME-Version: 1.0'' @ crlf_line ''Content-Type: text/plain; charset=utf-8'' @ crlf_line [] @ body"

function chunks :: "nat \<Rightarrow> 'a list \<Rightarrow> 'a list list" where
  "chunks n xs = (if xs = [] \<or> n = 0 then [] else take n xs # chunks n (drop n xs))"
  by pat_completeness auto
termination by (relation "measure (length \<circ> snd)") auto

declare chunks.simps [simp del]

text \<open>The parts as \<^verbatim>\<open>mime/multipart\<close> writes them, with its random boundary as an argument; the header fields
  of a part are written in the order of their names.\<close>

definition part :: "string \<Rightarrow> bool \<Rightarrow> string list \<Rightarrow> string \<Rightarrow> string" where
  "part boundary first hdrs content =
     (if first then [] else crlf_line []) @ crlf_line (''--'' @ boundary) @ concat (map crlf_line hdrs) @ crlf_line [] @ content"

definition attachment_name :: "string \<Rightarrow> string" where
  "attachment_name f = filter (\<lambda>c. c \<noteq> CHR 0x22) (sanitizeHeader f)"

definition buildMultipartMessage ::
  "string \<Rightarrow> string \<Rightarrow> string \<Rightarrow> string \<Rightarrow> string \<Rightarrow> string \<Rightarrow> string \<Rightarrow> string \<Rightarrow> bytes \<Rightarrow> string" where
  "buildMultipartMessage boundary fromName fromAddr to subject body replyTo filename data =
     concat (map crlf_line (envelope_lines fromName fromAddr to subject replyTo)) @
     crlf_line ''MIME-Version: 1.0'' @
     crlf_line (''Content-Type: multipart/mixed; boundary='' @ [CHR 0x22] @ boundary @ [CHR 0x22]) @ crlf_line [] @
     part boundary True [''Content-Type: text/plain; charset=utf-8''] body @
     part boundary False
       [''Content-Disposition: attachment; filename='' @ [CHR 0x22] @ attachment_name filename @ [CHR 0x22],
        ''Content-Transfer-Encoding: base64'', ''Content-Type: application/octet-stream'']
       (concat (map crlf_line (chunks 76 (b64_encode data)))) @
     crlf_line [] @ crlf_line (''--'' @ boundary @ ''--'')"

subsection \<open>Sending\<close>

datatype smtp_plan =
    SmtpSendMail string "(string \<times> string \<times> string) option" string "string list" string
      \<comment> \<open>address, credentials with the host they are for, sender, recipients, message\<close>
  | SmtpTLS string "(string \<times> string \<times> string) option" string string string

definition sendSMTP :: "mailer \<Rightarrow> string \<Rightarrow> string \<Rightarrow> string \<Rightarrow> smtp_plan" where
  "sendSMTP m from to msg =
     (let addr = ml_Host m @ '':'' @ show_int (ml_Port m);
          mode = (if to_lower (ml_TLS m) = [] then ''auto'' else to_lower (ml_TLS m));
          auth = (if ml_Username m \<noteq> [] then Some (ml_Username m, ml_Password m, ml_Host m) else None)
      in if mode = ''tls'' then SmtpTLS addr auth from to msg else SmtpSendMail addr auth from [to] msg)"

datatype mail_error = NoTemplate | NoSubject

text \<open>The result of a mail: nothing to do, a plan, or an error before anything is sent.\<close>

definition mail_Render ::
  "template_files \<Rightarrow> mailer \<Rightarrow> stamps \<Rightarrow> ((string \<times> string) list \<Rightarrow> (string \<times> string) list) \<Rightarrow> string \<Rightarrow>
   (string \<times> string) list \<Rightarrow> mail_error + string \<times> string" where
  "mail_Render F m t order name vars =
     (case renderTemplate F m t order name vars of
        None \<Rightarrow> Inl NoTemplate
      | Some raw \<Rightarrow> (case parseTemplate raw of None \<Rightarrow> Inl NoSubject | Some sb \<Rightarrow> Inr sb))"

definition SendRawMessage :: "mailer \<Rightarrow> string \<Rightarrow> string \<Rightarrow> string \<Rightarrow> smtp_plan option" where
  "SendRawMessage m to subject body =
     (if \<not> mailer_Enabled m then None
      else let (name, addr) = resolveFrom m
           in Some (sendSMTP m addr to (buildMessage name addr to subject body (ml_ReplyTo m))))"

definition Send ::
  "template_files \<Rightarrow> mailer \<Rightarrow> stamps \<Rightarrow> ((string \<times> string) list \<Rightarrow> (string \<times> string) list) \<Rightarrow> string \<Rightarrow> string \<Rightarrow>
   (string \<times> string) list \<Rightarrow> mail_error + smtp_plan option" where
  "Send F m t order to name vars =
     (if \<not> mailer_Enabled m then Inr None
      else case mail_Render F m t order name vars of
             Inl e \<Rightarrow> Inl e
           | Inr (subject, body) \<Rightarrow> Inr (SendRawMessage m to subject body))"

definition SendWithAttachment :: "string \<Rightarrow> mailer \<Rightarrow> string \<Rightarrow> string \<Rightarrow> string \<Rightarrow> string \<Rightarrow> bytes \<Rightarrow> smtp_plan option" where
  "SendWithAttachment boundary m to subject body filename data =
     (if \<not> mailer_Enabled m then None
      else let (name, addr) = resolveFrom m
           in Some (sendSMTP m addr to
                (buildMultipartMessage boundary name addr to subject body (ml_ReplyTo m) filename data)))"

definition TestSMTP :: "(string \<Rightarrow> bool) \<Rightarrow> mailer \<Rightarrow> bool" where
  "TestSMTP dial m \<longleftrightarrow> ml_Host m \<noteq> [] \<and> dial (JoinHostPort (ml_Host m) (show_int (ml_Port m)))"

definition smtp_ports :: "string \<Rightarrow> (string \<times> int) list" where
  "smtp_ports h = [(h, 587), (h, 465), (h, 25)]"

definition smtp_candidates :: "string \<Rightarrow> string \<Rightarrow> string \<Rightarrow> (string \<times> int) list" where
  "smtp_candidates gatewayIP globalIP host =
     (let named = (host \<noteq> [] \<and> host \<noteq> ''localhost'') in
      smtp_ports ''127.0.0.1'' @ smtp_ports ''172.17.0.1'' @
      (if gatewayIP \<noteq> [] then smtp_ports gatewayIP else []) @
      (if named then smtp_ports host else []) @
      (if globalIP \<noteq> [] then smtp_ports globalIP else []) @
      (if named then smtp_ports (''mail.'' @ host) @ smtp_ports (''smtp.'' @ host) else []))"

definition AutoDetect :: "(string \<Rightarrow> bool) \<Rightarrow> string \<Rightarrow> string \<Rightarrow> string \<Rightarrow> (string \<times> int) option" where
  "AutoDetect dial gatewayIP globalIP host =
     find (\<lambda>(h, p). dial (JoinHostPort h (show_int p))) (smtp_candidates gatewayIP globalIP host)"

text \<open>The first address of an interface that is up and not a loopback: a global IPv4 address.\<close>

record net_interface =
  if_up :: bool
  if_loopback :: bool
  if_addrs :: "ip list option"

definition iface_address :: "net_interface \<Rightarrow> ip option" where
  "iface_address i =
     (if \<not> if_up i \<or> if_loopback i then None
      else case if_addrs i of
             None \<Rightarrow> None
           | Some ips \<Rightarrow>
               find (\<lambda>ip. \<not> (IsLoopback ip \<or> IsLinkLocalUnicast ip \<or> IsPrivate ip) \<and> to4 ip \<noteq> None) ips)"

definition globalIPv4 :: "net_interface list option \<Rightarrow> string" where
  "globalIPv4 ifs = (case ifs of
     None \<Rightarrow> []
   | Some is \<Rightarrow> (case List.map_filter iface_address is of [] \<Rightarrow> [] | ip # _ \<Rightarrow> ip_String ip))"

subsection \<open>No header can be injected\<close>

lemma sanitized_chars: "c \<in> set (sanitizeHeader v) \<Longrightarrow> header_byte c"
  by (simp add: sanitizeHeader_def)

lemma sanitized_no_break: "CHR 0x0D \<notin> set (sanitizeHeader v)" "CHR 0x0A \<notin> set (sanitizeHeader v)"
proof -
  have "\<not> header_byte (CHR 0x0D)" "\<not> header_byte (CHR 0x0A)" by (simp_all add: header_byte_def)
  then show "CHR 0x0D \<notin> set (sanitizeHeader v)" "CHR 0x0A \<notin> set (sanitizeHeader v)" using sanitized_chars by blast+
qed

lemma envelope_no_break:
  "l \<in> set (envelope_lines a b c d e) \<Longrightarrow> CHR 0x0D \<notin> set l \<and> CHR 0x0A \<notin> set l"
  using sanitized_no_break by (auto simp: envelope_lines_def)

text \<open>C27: Nobody who supplies a sender's name, an address, a subject, a reply address or the name of an
  attachment can add a header line to a message that is built, with or without an attachment: whatever
  the values, the message is its fixed header lines, each without a line break, an empty line, and then what follows
  as it was given; with an attachment that is a part with the text and a part with the data, each with its
  fixed headers, where the file name has no line break and no quote. The boundary of the
  parts, which the library draws, is assumed to have no line break. Nothing is claimed of the text of the
  body, or of how templates are filled in before.\<close>

theorem no_header_injection:
  assumes "CHR 0x0D \<notin> set boundary" "CHR 0x0A \<notin> set boundary"
  shows "(\<exists>hs. buildMessage fromName fromAddr to subject body replyTo = concat (map crlf_line hs) @ crlf_line [] @ body \<and>
     list_all (\<lambda>h. CHR 0x0D \<notin> set h \<and> CHR 0x0A \<notin> set h) hs \<and>
     map (\<lambda>h. takeWhile (\<lambda>c. c \<noteq> CHR '':'') h) hs =
       [''From'', ''To'', ''Subject''] @ (if sanitizeHeader replyTo = [] then [] else [''Reply-To'']) @ [''MIME-Version'', ''Content-Type'']) \<and>
   (\<exists>hs n. buildMultipartMessage boundary fromName fromAddr to subject body replyTo filename data =
       concat (map crlf_line hs) @ crlf_line [] @
       crlf_line (''--'' @ boundary) @ crlf_line ''Content-Type: text/plain; charset=utf-8'' @ crlf_line [] @ body @
       crlf_line [] @ crlf_line (''--'' @ boundary) @
       crlf_line (''Content-Disposition: attachment; filename='' @ [CHR 0x22] @ n @ [CHR 0x22]) @
       crlf_line ''Content-Transfer-Encoding: base64'' @ crlf_line ''Content-Type: application/octet-stream'' @ crlf_line [] @
       concat (map crlf_line (chunks 76 (b64_encode data))) @ crlf_line [] @ crlf_line (''--'' @ boundary @ ''--'') \<and>
     set n \<inter> {CHR 0x0D, CHR 0x0A, CHR 0x22} = {} \<and>
     list_all (\<lambda>h. CHR 0x0D \<notin> set h \<and> CHR 0x0A \<notin> set h) hs \<and>
     map (\<lambda>h. takeWhile (\<lambda>c. c \<noteq> CHR '':'') h) hs =
       [''From'', ''To'', ''Subject''] @ (if sanitizeHeader replyTo = [] then [] else [''Reply-To'']) @ [''MIME-Version'', ''Content-Type''])"
proof
  let ?env = "envelope_lines fromName fromAddr to subject replyTo"
  have env: "list_all (\<lambda>h. CHR 0x0D \<notin> set h \<and> CHR 0x0A \<notin> set h) ?env"
    using envelope_no_break[of _ fromName fromAddr to subject replyTo] by (auto simp: list_all_iff)
  have names: "map (\<lambda>h. takeWhile (\<lambda>c. c \<noteq> CHR '':'') h) ?env =
       [''From'', ''To'', ''Subject''] @ (if sanitizeHeader replyTo = [] then [] else [''Reply-To''])"
    by (simp add: envelope_lines_def)
  show "\<exists>hs. buildMessage fromName fromAddr to subject body replyTo = concat (map crlf_line hs) @ crlf_line [] @ body \<and>
     list_all (\<lambda>h. CHR 0x0D \<notin> set h \<and> CHR 0x0A \<notin> set h) hs \<and>
     map (\<lambda>h. takeWhile (\<lambda>c. c \<noteq> CHR '':'') h) hs =
       [''From'', ''To'', ''Subject''] @ (if sanitizeHeader replyTo = [] then [] else [''Reply-To'']) @ [''MIME-Version'', ''Content-Type'']"
    by (intro exI[of _ "?env @ [''MIME-Version: 1.0'', ''Content-Type: text/plain; charset=utf-8'']"] conjI)
       (simp add: buildMessage_def, use env in simp, use names in simp)
  have att: "set (attachment_name filename) \<inter> {CHR 0x0D, CHR 0x0A, CHR 0x22} = {}"
    using sanitized_no_break[of filename] by (auto simp: attachment_name_def)
  have type: "takeWhile (\<lambda>c. c \<noteq> CHR '':'') (''Content-Type: multipart/mixed; boundary='' @ x) = ''Content-Type''" for x
    by simp
  show "\<exists>hs n. buildMultipartMessage boundary fromName fromAddr to subject body replyTo filename data =
       concat (map crlf_line hs) @ crlf_line [] @
       crlf_line (''--'' @ boundary) @ crlf_line ''Content-Type: text/plain; charset=utf-8'' @ crlf_line [] @ body @
       crlf_line [] @ crlf_line (''--'' @ boundary) @
       crlf_line (''Content-Disposition: attachment; filename='' @ [CHR 0x22] @ n @ [CHR 0x22]) @
       crlf_line ''Content-Transfer-Encoding: base64'' @ crlf_line ''Content-Type: application/octet-stream'' @ crlf_line [] @
       concat (map crlf_line (chunks 76 (b64_encode data))) @ crlf_line [] @ crlf_line (''--'' @ boundary @ ''--'') \<and>
     set n \<inter> {CHR 0x0D, CHR 0x0A, CHR 0x22} = {} \<and>
     list_all (\<lambda>h. CHR 0x0D \<notin> set h \<and> CHR 0x0A \<notin> set h) hs \<and>
     map (\<lambda>h. takeWhile (\<lambda>c. c \<noteq> CHR '':'') h) hs =
       [''From'', ''To'', ''Subject''] @ (if sanitizeHeader replyTo = [] then [] else [''Reply-To'']) @ [''MIME-Version'', ''Content-Type'']"
    by (intro exI[of _ "?env @ [''MIME-Version: 1.0'', ''Content-Type: multipart/mixed; boundary='' @ [CHR 0x22] @ boundary @ [CHR 0x22]]"]
          exI[of _ "attachment_name filename"] conjI att)
       (simp add: buildMultipartMessage_def part_def, use env assms in simp, use names in simp)
qed

subsection \<open>Variables\<close>

lemma replace_all_prefix: "CHR ''{'' \<notin> set p \<Longrightarrow> replace_all (placeholder k) v (p @ s) = p @ replace_all (placeholder k) v s"
proof (induction p)
  case (Cons c p)
  then have "c \<noteq> CHR ''{''" by auto
  then have "\<not> has_prefix (c # p @ s) (placeholder k)" by (simp add: has_prefix_def placeholder_def)
  with Cons show ?case by (simp add: replace_all.simps[of _ _ "c # p @ s"])
qed simp

lemma replace_all_hit: "replace_all (placeholder k) v (placeholder k @ s) = v @ replace_all (placeholder k) v s"
  by (subst replace_all.simps) (simp add: has_prefix_def placeholder_def)

lemma replace_all_miss:
  assumes "k \<noteq> j" "CHR ''{'' \<notin> set j" "CHR ''}'' \<notin> set k" "CHR ''}'' \<notin> set j"
  shows "replace_all (placeholder k) v (placeholder j @ s) = placeholder j @ replace_all (placeholder k) v s"
proof -
  have "\<not> has_prefix (placeholder j @ s) (placeholder k)"
  proof
    assume "has_prefix (placeholder j @ s) (placeholder k)"
    then obtain t where "j @ CHR ''}'' # s = k @ CHR ''}'' # t"
      unfolding has_prefix_iff by (auto simp: placeholder_def)
    then have "takeWhile (\<lambda>c. c \<noteq> CHR ''}'') (j @ CHR ''}'' # s) = takeWhile (\<lambda>c. c \<noteq> CHR ''}'') (k @ CHR ''}'' # t)" by simp
    moreover have "takeWhile (\<lambda>c. c \<noteq> CHR ''}'') (x @ CHR ''}'' # y) = x" if "CHR ''}'' \<notin> set x" for x y :: string
      using that by (induction x) auto
    ultimately show False using assms by simp
  qed
  then have "replace_all (placeholder k) v (placeholder j @ s) = CHR ''{'' # replace_all (placeholder k) v ((j @ ''}'') @ s)"
    by (subst replace_all.simps) (simp add: placeholder_def)
  also have "\<dots> = placeholder j @ replace_all (placeholder k) v s"
    using assms(2) by (subst replace_all_prefix) (simp_all add: placeholder_def)
  finally show ?thesis .
qed

definition plain_key :: "string \<Rightarrow> bool" where
  "plain_key k \<longleftrightarrow> CHR ''{'' \<notin> set k \<and> CHR ''}'' \<notin> set k"

lemma render_prefix: "CHR ''{'' \<notin> set p \<Longrightarrow> fold substitute kvs (p @ s) = p @ fold substitute kvs s"
  by (induction kvs arbitrary: s) (simp_all add: substitute_def replace_all_prefix)

text \<open>A placeholder is replaced by the value of its variable, once, in whatever order the variables come.\<close>

lemma render_placeholder:
  assumes "\<forall>(k, v) \<in> set kvs. plain_key k \<and> (k = j \<longrightarrow> v = x)" "plain_key j" "j \<in> fst ` set kvs" "CHR ''{'' \<notin> set x"
  shows "fold substitute kvs (placeholder j @ s) = x @ fold substitute kvs s"
  using assms
proof (induction kvs arbitrary: s)
  case (Cons kv kvs)
  obtain k v where kv: "kv = (k, v)" by fastforce
  show ?case
  proof (cases "k = j")
    case True
    then have "substitute kv (placeholder j @ s) = x @ substitute kv s"
      using Cons.prems(1) kv by (simp add: substitute_def replace_all_hit)
    then show ?thesis using render_prefix[OF Cons.prems(4)] by simp
  next
    case False
    then have "substitute kv (placeholder j @ s) = placeholder j @ substitute kv s"
      using Cons.prems kv by (simp add: substitute_def replace_all_miss plain_key_def)
    then show ?thesis using Cons False kv by simp
  qed
qed simp

text \<open>Without line breaks in the values, a text is rendered line by line.\<close>

lemma split_on_prefix: "c \<notin> set x \<Longrightarrow> split_on c (x @ s) = (x @ hd (split_on c s)) # tl (split_on c s)"
proof (induction x)
  case (Cons a x)
  then have "a \<noteq> c" "split_on c (x @ s) = (x @ hd (split_on c s)) # tl (split_on c s)" by auto
  then show ?case by simp
qed simp

lemma split_on_hd_prefix: "\<exists>t. s = hd (split_on c s) @ t"
proof (induction s)
  case (Cons d s)
  then show ?case by (cases "split_on c s") auto
qed simp

lemma has_prefix_shorter: "has_prefix h p \<Longrightarrow> has_prefix (h @ t) p"
  unfolding has_prefix_def by (metis append_take_drop_id append_assoc append_eq_conv_conj)

lemma split_on_replace:
  assumes pat: "newline \<notin> set pat" "pat \<noteq> []" and new: "newline \<notin> set new"
  shows "split_on newline (replace_all pat new s) = map (replace_all pat new) (split_on newline s)"
proof (induction s rule: length_induct)
  case (1 s)
  show ?case
  proof (cases s)
    case (Cons c r)
    obtain y ys where y: "split_on newline r = y # ys" using split_on_not_Nil[of newline r] by (cases "split_on newline r") auto
    obtain t where t: "r = y @ t" using split_on_hd_prefix[of r newline] y by auto
    show ?thesis
    proof (cases "has_prefix s pat")
      case True
      then obtain q where q: "s = pat @ q" by (metis append_take_drop_id has_prefix_def)
      obtain z zs where z: "split_on newline q = z # zs" using split_on_not_Nil[of newline q] by (cases "split_on newline q") auto
      have "length q < length s" using q pat(2) by simp
      then have IH: "split_on newline (replace_all pat new q) = map (replace_all pat new) (z # zs)" using 1 z by metis
      have hit: "replace_all pat new (pat @ u) = new @ replace_all pat new u" for u
        using pat(2) by (subst replace_all.simps) (simp add: has_prefix_def)
      show ?thesis unfolding q hit split_on_prefix[OF pat(1)] split_on_prefix[OF new] z IH by (simp add: hit)
    next
      case False
      then have step: "replace_all pat new s = c # replace_all pat new r" using Cons by (subst replace_all.simps) simp
      have IH: "split_on newline (replace_all pat new r) = map (replace_all pat new) (y # ys)" using 1 Cons y by (metis length_Cons lessI)
      have "\<not> has_prefix (c # y) pat" using False has_prefix_shorter[of "c # y" pat t] Cons t by auto
      then have "replace_all pat new (c # y) = c # replace_all pat new y" by (subst replace_all.simps) simp
      then show ?thesis using step IH y Cons by simp
    qed
  qed simp
qed

lemma render_lines:
  assumes "\<forall>(k, v) \<in> set kvs. newline \<notin> set k \<and> newline \<notin> set v"
  shows "split_on newline (fold substitute kvs s) = map (fold substitute kvs) (split_on newline s)"
  using assms
proof (induction kvs arbitrary: s)
  case (Cons kv kvs)
  then have "split_on newline (substitute kv s) = map (substitute kv) (split_on newline s)"
    unfolding substitute_def by (intro split_on_replace) (auto simp: placeholder_def)
  with Cons show ?case by simp
qed (simp add: map_idI)

subsection \<open>Two embedded templates\<close>

definition update_available_lines :: "string list" where
  "update_available_lines =
     [''Subject: Update Available - {app_name}'', [], ''UPDATE AVAILABLE'', [], ''From: {app_name} ({fqdn})'',
      ''Time: {timestamp}'', [], ''A new version of {app_name} is available.'', [],
      ''Current version: {current_version}'', ''New version: {new_version}'', ''Branch: {branch}'', [],
      ''Run `--update yes` to install, or enable auto_install in server.yml.'', [], ''--'', ''{app_name}'', ''{app_url}'', []]"

definition contact_rest :: "string list" where
  "contact_rest =
     [''CONTACT FORM SUBMISSION'', [], ''Received: {timestamp}'', ''Site: {app_name} ({fqdn})'', [],
      ''From: {name} <{email}>'', ''Subject: {subject}'', [], ''Message:'', ''{message}'', [], ''--'',
      ''Respond to {name} at {email}.'', ''{app_name}'', ''{app_url}'', []]"

definition contact_template :: string where
  "contact_template = ''Subject: Contact form: '' @ placeholder ''subject'' @ newline # ''---'' @ newline # join newline contact_rest"

lemma split_join_lines: "xs \<noteq> [] \<Longrightarrow> \<forall>x \<in> set xs. newline \<notin> set x \<Longrightarrow> split_on newline (join newline xs) = xs"
  by (rule split_on_join)

text \<open>A line that begins with a letter is no separator, whatever follows.\<close>

lemma trim_right_prefix: "\<exists>t. s = trim_right_space s @ t"
proof (induction s rule: trim_right_space.induct)
  case (1 s)
  show ?case
  proof (cases "space_suffix s = 0")
    case False
    with 1 obtain t where "take (length s - space_suffix s) s = trim_right_space s @ t"
      by (auto simp: trim_right_space.simps[of s])
    then have "s = trim_right_space s @ t @ drop (length s - space_suffix s) s" by (metis append_assoc append_take_drop_id)
    then show ?thesis by blast
  qed (simp add: trim_right_space.simps[of s])
qed

lemma trim_space_no_dashes:
  assumes "plain_char c" "c \<noteq> CHR ''-''"
  shows "trim_space (c # s) \<noteq> ''---''"
proof
  assume "trim_space (c # s) = ''---''"
  moreover have "trim_left_space (c # s) = c # s"
    using space_prefix_plain[of c s] assms(1) by (simp add: trim_left_space.simps)
  ultimately have "trim_right_space (c # s) = ''---''" by (simp add: trim_space_def)
  then show False using trim_right_prefix[of "c # s"] assms(2) by auto
qed

definition letter_first :: "string \<Rightarrow> bool" where
  "letter_first l \<longleftrightarrow> l \<noteq> [] \<and> plain_char (hd l) \<and> hd l \<noteq> CHR ''-'' \<and> hd l \<noteq> CHR ''{''"

lemma letter_line:
  assumes "letter_first l"
  shows "trim_space (fold substitute kvs l) \<noteq> ''---''"
proof -
  obtain c r where l: "l = [c] @ r" "plain_char c" "c \<noteq> CHR ''-''" "c \<noteq> CHR ''{''"
    using assms by (cases l) (auto simp: letter_first_def)
  then show ?thesis using render_prefix[of "[c]" kvs r] trim_space_no_dashes by simp
qed

lemma after_separator_None: "\<forall>l \<in> set ls. trim_space l \<noteq> ''---'' \<Longrightarrow> after_separator ls = None"
  by (induction ls) simp_all

lemma render_nil: "fold substitute kvs [] = []"
  by (induction kvs) (simp_all add: substitute_def)

lemma render_alone:
  assumes "\<forall>(k, v) \<in> set kvs. plain_key k \<and> (k = j \<longrightarrow> v = x)" "plain_key j" "j \<in> fst ` set kvs" "CHR ''{'' \<notin> set x"
  shows "fold substitute kvs (placeholder j) = x"
  using render_placeholder[OF assms, of "[]"] by (simp add: render_nil)

text \<open>The variables a mail is rendered with, in any order of the two maps.\<close>

definition map_order :: "((string \<times> string) list \<Rightarrow> (string \<times> string) list) \<Rightarrow> bool" where
  "map_order order \<longleftrightarrow> (\<forall>xs. set (order xs) = set xs)"

lemma rendered:
  "loadTemplate F m name = Some raw \<Longrightarrow>
   renderTemplate F m t order name vars = Some (fold substitute (order (global_vars m t) @ order vars) raw)"
  by (simp add: renderTemplate_def)

lemma plain_literals:
  "list_all plain_key [''app_name'', ''app_url'', ''fqdn'', ''timestamp'', ''year'', ''onion_address'', ''onion_url'',
     ''i2p_address'', ''i2p_url'', ''notification_reply_to'', ''current_version'', ''new_version'', ''branch'', ''subject'',
     ''name'', ''email'', ''message'']"
  by (simp add: plain_key_def)

text \<open>The mails about updates are never sent: the embedded template has no line that separates its header
  from its body, so with any application name, versions and addresses (each on one line, and name and
  URL without a brace and not three dashes) rendering succeeds and parsing the result fails.\<close>

theorem update_mail_never_sent:
  assumes "mailer_Enabled m" "loadTemplate F m ''update_available'' = Some (join newline update_available_lines)" "map_order order"
    and one_line: "\<forall>(k, v) \<in> set (global_vars m t). newline \<notin> set v" "newline \<notin> set cur" "newline \<notin> set new" "newline \<notin> set branch"
    and names: "CHR ''{'' \<notin> set (ml_appName m)" "CHR ''{'' \<notin> set (ml_appURL m)"
      "trim_space (ml_appName m) \<noteq> ''---''" "trim_space (ml_appURL m) \<noteq> ''---''"
  shows "Send F m t order to ''update_available'' [(''current_version'', cur), (''new_version'', new), (''branch'', branch)] = Inl NoSubject"
proof -
  let ?vars = "[(''current_version'', cur), (''new_version'', new), (''branch'', branch)]"
  let ?kvs = "order (global_vars m t) @ order ?vars"
  have kvs: "set ?kvs = set (global_vars m t) \<union> set ?vars" using assms(3) by (simp add: map_order_def)
  have nl: "\<forall>(k, v) \<in> set ?kvs. newline \<notin> set k \<and> newline \<notin> set v"
    unfolding kvs using one_line by (auto simp: global_vars_def)
  have keys: "\<forall>(k, v) \<in> set ?kvs. plain_key k \<and> (k = ''app_name'' \<longrightarrow> v = ml_appName m)"
    "\<forall>(k, v) \<in> set ?kvs. plain_key k \<and> (k = ''app_url'' \<longrightarrow> v = ml_appURL m)"
    unfolding kvs using plain_literals by (simp_all add: global_vars_def)
  have bound: "''app_name'' \<in> fst ` set ?kvs" "''app_url'' \<in> fst ` set ?kvs" unfolding kvs by (simp_all add: global_vars_def)
  have plain: "plain_key ''app_name''" "plain_key ''app_url''" using plain_literals by simp_all
  note name = render_alone[OF keys(1) plain(1) bound(1) names(1)] render_alone[OF keys(2) plain(2) bound(2) names(2)]
  have dash: "fold substitute ?kvs ''--'' = ''--''" using render_prefix[of "''--''" ?kvs "[]"] by (simp add: render_nil)
  have "trim_space ''--'' = ''--''" by (rule trim_space_plain) (simp_all add: plain_char_def)
  then have "trim_space (fold substitute ?kvs l) \<noteq> ''---''" if "l \<in> set update_available_lines" for l
    using that name dash names(3,4) letter_line[of l ?kvs] render_nil[of ?kvs]
    by (auto simp: update_available_lines_def letter_first_def plain_char_def placeholder_def)
  moreover have "split_on newline (fold substitute ?kvs (join newline update_available_lines)) = map (fold substitute ?kvs) update_available_lines"
    unfolding render_lines[OF nl] by (subst split_join_lines) (simp_all add: update_available_lines_def)
  ultimately have "parseTemplate (fold substitute ?kvs (join newline update_available_lines)) = None"
    using after_separator_None[of "map (fold substitute ?kvs) update_available_lines"] by (auto simp: parseTemplate_def Let_def)
  then show ?thesis using assms(1) rendered[OF assms(2)] by (simp add: Send_def mail_Render_def)
qed

text \<open>A visitor can write the beginning of the body of the mail the contact form sends: a subject with a
  line of three dashes in it ends the header of the template, and what follows them becomes the
  first text the recipient reads, before the form's own.\<close>

theorem contact_subject_forges_body:
  assumes "mailer_Enabled m" "loadTemplate F m ''contact'' = Some contact_template" "map_order order"
    and subject: "subject = front @ newline # ''---'' @ newline # forged" "newline \<notin> set front" "CHR ''{'' \<notin> set subject"
  shows "\<exists>rest. mail_Render F m t order ''contact''
      [(''name'', name), (''email'', email), (''subject'', subject), (''message'', message)] =
    Inr (trim_space (''Contact form: '' @ front), trim_space (forged @ rest))"
proof -
  let ?vars = "[(''name'', name), (''email'', email), (''subject'', subject), (''message'', message)]"
  let ?kvs = "order (global_vars m t) @ order ?vars" and ?tail = "newline # ''---'' @ newline # join newline contact_rest"
  have kvs: "set ?kvs = set (global_vars m t) \<union> set ?vars" using assms(3) by (simp add: map_order_def)
  have keys: "\<forall>(k, v) \<in> set ?kvs. plain_key k \<and> (k = ''subject'' \<longrightarrow> v = subject)"
    unfolding kvs using plain_literals by (simp add: global_vars_def)
  have bound: "''subject'' \<in> fst ` set ?kvs" unfolding kvs by simp
  have plain: "plain_key ''subject''" using plain_literals by simp
  note subj = render_placeholder[OF keys plain bound subject(3), of ?tail]
  have whole: "fold substitute ?kvs contact_template = (''Subject: Contact form: '' @ front) @ newline # ''---'' @ newline # forged @ fold substitute ?kvs ?tail"
    unfolding contact_template_def using render_prefix[of "''Subject: Contact form: ''"] subj subject(1) by simp
  let ?first = "''Subject: Contact form: '' @ front" and ?rest = "forged @ fold substitute ?kvs ?tail"
  have "split_on newline (fold substitute ?kvs contact_template) = ?first # ''---'' # split_on newline ?rest"
    unfolding whole split_on_append using split_on_prefix[of newline ?first "[]"] subject(2) by simp
  moreover have "trim_space ?first \<noteq> ''---''" using trim_space_no_dashes[of "CHR ''S''"] by (simp add: plain_char_def)
  moreover have "trim_space ''---'' = ''---''" by (rule trim_space_plain) (simp_all add: plain_char_def)
  moreover have "trim_prefix ?first ''Subject: '' = ''Contact form: '' @ front" by (simp add: trim_prefix_def has_prefix_def)
  ultimately have "parseTemplate (fold substitute ?kvs contact_template) = Some (trim_space (''Contact form: '' @ front), trim_space ?rest)"
    by (simp add: parseTemplate_def has_prefix_def Let_def join_split_on del: split_on.simps)
  then show ?thesis using rendered[OF assms(2)] by (auto simp: mail_Render_def)
qed

text \<open>The order in which the runtime visits the variables shows in the mail: a value that looks like a
  placeholder is replaced or not, depending on that order.\<close>

theorem render_depends_on_order:
  "substitute (''email'', ''e'') (substitute (''name'', ''{email}'') ''{name}'') = ''e'' \<and>
   substitute (''name'', ''{email}'') (substitute (''email'', ''e'') ''{name}'') = ''{email}''"
proof -
  have "replace_all ''{name}'' v ''{name}'' = v" "replace_all ''{email}'' v ''{email}'' = v" for v
    using replace_all_hit[of "''name''" v "[]"] replace_all_hit[of "''email''" v "[]"] by (simp_all add: placeholder_def)
  moreover have "replace_all ''{email}'' v ''{name}'' = ''{name}''" for v
    using replace_all_miss[of "''email''" "''name''" v "[]"] by (simp add: placeholder_def)
  ultimately show ?thesis by (simp add: substitute_def placeholder_def)
qed

text \<open>The test of the mail settings and the sending of mail do not use the same address: for a server
  given by an IPv6 address the test dials it, while the address mail is sent to is none.\<close>

theorem ipv6_server_tested_not_used:
  assumes "CHR '':'' \<in> set (ml_Host m)" "CHR ''['' \<notin> set (ml_Host m)" "CHR '']'' \<notin> set (ml_Host m)"
    and "dial = (\<lambda>addr. SplitHostPort addr = Some (ml_Host m, show_int (ml_Port m)))"
    and "ml_TLS m = ''starttls''"
  shows "TestSMTP dial m \<and> (\<exists>addr auth. sendSMTP m from to msg = SmtpSendMail addr auth from [to] msg \<and> SplitHostPort addr = None)"
proof -
  have port: "c \<notin> set (show_int i)" if "c \<in> {CHR '':'', CHR ''['', CHR '']''}" for c i
    using that show_nat_digits[of c "nat i"] show_nat_digits[of c "nat (- i)"] by (auto simp: show_int_def split: if_splits)
  have "SplitHostPort (ml_Host m @ CHR '':'' # show_int (ml_Port m)) = None"
  proof -
    have i: "last_index_of CHR '':'' (ml_Host m @ CHR '':'' # show_int (ml_Port m)) = Some (length (ml_Host m))"
      using port by (intro last_index_of_append) simp
    have "hd (ml_Host m @ CHR '':'' # show_int (ml_Port m)) \<noteq> CHR ''[''" using assms(1,2) by (cases "ml_Host m") auto
    then show ?thesis using assms(1) by (simp add: SplitHostPort_def i)
  qed
  moreover have "SplitHostPort (JoinHostPort (ml_Host m) (show_int (ml_Port m))) = Some (ml_Host m, show_int (ml_Port m))"
    using assms(2,3) port by (intro SplitHostPort_join) simp_all
  moreover have "to_lower ''starttls'' = ''starttls''" by (simp add: to_lower_ascii lower_char_def)
  ultimately show ?thesis using assms(1,4,5) by (auto simp: TestSMTP_def sendSMTP_def Let_def)
qed

subsection \<open>Examples\<close>

definition demo_mailer :: mailer where
  "demo_mailer = \<lparr>ml_Enabled = True, ml_Host = ''::1'', ml_Port = 25, ml_Username = [], ml_Password = [], ml_TLS = ''starttls'',
     ml_FromName = [], ml_FromEmail = [], ml_ReplyTo = [], ml_TemplateDir = [], ml_appName = ''Pastebin'',
     ml_appURL = ''https://p.example'', ml_fqdn = ''p.example'', ml_onionAddress = [], ml_i2pAddress = []\<rparr>"

definition embedded :: template_files where
  "embedded = \<lparr>tf_file = Map.empty, tf_embedded = [''templates/update_available.txt'' \<mapsto> join newline update_available_lines,
     ''templates/contact.txt'' \<mapsto> contact_template]\<rparr>"

definition demo_stamps :: stamps where
  "demo_stamps = \<lparr>st_timestamp = ''2026-01-01 00:00:00 UTC'', st_year = ''2026''\<rparr>"

lemma demo_templates:
  "loadTemplate embedded demo_mailer ''update_available'' = Some (join newline update_available_lines)"
  "loadTemplate embedded demo_mailer ''contact'' = Some contact_template"
  by (simp_all add: loadTemplate_def embedded_def demo_mailer_def)

theorem update_mail_never_sent_witness:
  "Send embedded demo_mailer demo_stamps id ''op@p.example'' ''update_available''
     [(''current_version'', ''1.0''), (''new_version'', ''1.1''), (''branch'', ''stable'')] = Inl NoSubject"
proof -
  have "trim_space ''Pastebin'' = ''Pastebin''" "trim_space ''https://p.example'' = ''https://p.example''"
    by (rule trim_space_plain; simp add: plain_char_def)+
  then show ?thesis
    by (intro update_mail_never_sent demo_templates)
      (simp_all add: mailer_Enabled_def map_order_def global_vars_def demo_mailer_def demo_stamps_def)
qed

theorem contact_subject_forges_body_witness:
  "\<exists>rest. mail_Render embedded demo_mailer demo_stamps id ''contact''
      [(''name'', ''N''), (''email'', ''n@x''), (''subject'', ''Hi'' @ newline # ''---'' @ newline # ''Pay now''), (''message'', ''M'')] =
    Inr (trim_space ''Contact form: Hi'', trim_space (''Pay now'' @ rest))"
  using contact_subject_forges_body[of demo_mailer embedded id "''Hi'' @ newline # ''---'' @ newline # ''Pay now''" "''Hi''" "''Pay now''"
      demo_stamps "''N''" "''n@x''" "''M''"] demo_templates(2)
  by (simp add: mailer_Enabled_def map_order_def demo_mailer_def)

theorem ipv6_server_tested_not_used_witness:
  "TestSMTP (\<lambda>addr. SplitHostPort addr = Some (''::1'', show_int 25)) demo_mailer \<and>
   (\<exists>addr auth. sendSMTP demo_mailer ''a'' ''b'' ''m'' = SmtpSendMail addr auth ''a'' [''b''] ''m'' \<and> SplitHostPort addr = None)"
  by (rule ipv6_server_tested_not_used) (simp_all add: demo_mailer_def)

theorem no_header_injection_witness:
  "\<exists>hs. length hs = 5 \<and>
     buildMessage ''N'' ''a@b'' ''c@d'' (''S'' @ [CHR 0x0D, CHR 0x0A] @ ''Bcc: e@f'') ''body'' [] =
       concat (map crlf_line hs) @ crlf_line [] @ ''body''"
proof -
  have b: "CHR 0x0D \<notin> set ''b''" "CHR 0x0A \<notin> set ''b''" by simp_all
  have r: "sanitizeHeader [] = []" by (simp add: sanitizeHeader_def)
  obtain hs where hs: "buildMessage ''N'' ''a@b'' ''c@d'' (''S'' @ [CHR 0x0D, CHR 0x0A] @ ''Bcc: e@f'') ''body'' [] =
       concat (map crlf_line hs) @ crlf_line [] @ ''body''"
    "map (\<lambda>h. takeWhile (\<lambda>c. c \<noteq> CHR '':'') h) hs =
       [''From'', ''To'', ''Subject''] @ (if sanitizeHeader [] = [] then [] else [''Reply-To'']) @ [''MIME-Version'', ''Content-Type'']"
    using no_header_injection[OF b, of "''N''" "''a@b''" "''c@d''" "''S'' @ [CHR 0x0D, CHR 0x0A] @ ''Bcc: e@f''" "''body''" "[]",
      THEN conjunct1] by (elim exE conjE)
  have "length hs = length (map (\<lambda>h. takeWhile (\<lambda>c. c \<noteq> CHR '':'') h) hs)" by simp
  also have "\<dots> = 5" unfolding hs(2) r by simp
  finally show ?thesis using hs(1) by blast
qed

end
