(* ===== verification/Go_Url.thy ===== *)
theory Go_Url
  imports Go_Text
begin

section \<open>Escaping in URLs\<close>

text \<open>
  The escapes of \<^verbatim>\<open>net/url\<close> for the values of a query and for the segments of a path, with the reading of a
  query: its parameters are separated by ampersands, a semicolon is an error, and so is an escape that is
  not hexadecimal; what was read before or after an error is kept.
\<close>

text \<open>\<^verbatim>\<open>url.QueryEscape\<close> and its inverse.\<close>

definition query_plain :: "char \<Rightarrow> bool" where
  "query_plain c \<longleftrightarrow> in_range 97 122 c \<or> in_range 65 90 c \<or> in_range 48 57 c \<or> c \<in> set ''-_.~''"

definition escape_char :: "char \<Rightarrow> string" where
  "escape_char c =
     (if query_plain c then [c] else if c = CHR '' '' then ''+''
      else [CHR ''%'', upper_hex ((of_char c :: nat) div 16), upper_hex ((of_char c :: nat) mod 16)])"

definition QueryEscape :: "string \<Rightarrow> string" where
  "QueryEscape s = concat (map escape_char s)"

fun QueryUnescape :: "string \<Rightarrow> string option" where
  "QueryUnescape [] = Some []"
| "QueryUnescape (c # s) =
     (if c = CHR ''%'' then
        (case s of
           a # b # r \<Rightarrow>
             (case (hex_val a, hex_val b) of
                (Some x, Some y) \<Rightarrow> map_option (Cons (char_of (16 * x + y))) (QueryUnescape r)
              | _ \<Rightarrow> None)
         | _ \<Rightarrow> None)
      else map_option (Cons (if c = CHR ''+'' then CHR '' '' else c)) (QueryUnescape s))"

text \<open>\<^verbatim>\<open>url.PathEscape\<close>.\<close>

definition segment_plain :: "char \<Rightarrow> bool" where
  "segment_plain c \<longleftrightarrow> query_plain c \<or> c \<in> set ''$&+=:@''"

definition PathEscape :: "string \<Rightarrow> string" where
  "PathEscape s = concat (map (\<lambda>c. if segment_plain c then [c]
     else [CHR ''%'', upper_hex ((of_char c :: nat) div 16), upper_hex ((of_char c :: nat) mod 16)]) s)"

text \<open>\<^verbatim>\<open>url.ParseQuery\<close>: the pairs in their order, and whether all of the text was understood. \<^verbatim>\<open>Values.Get\<close>
  returns the first value of a key.\<close>

definition query_pair :: "string \<Rightarrow> (string \<times> string) option" where
  "query_pair p =
     (let k = takeWhile (\<lambda>c. c \<noteq> CHR ''='') p; v = drop 1 (dropWhile (\<lambda>c. c \<noteq> CHR ''='') p) in
      if CHR '';'' \<in> set p then None
      else case (QueryUnescape k, QueryUnescape v) of (Some a, Some b) \<Rightarrow> Some (a, b) | _ \<Rightarrow> None)"

definition ParseQuery :: "string \<Rightarrow> (string \<times> string) list \<times> bool" where
  "ParseQuery q =
     (let ps = map query_pair (filter (\<lambda>p. p \<noteq> []) (split_on CHR ''&'' q))
      in (concat (map (\<lambda>p. case p of Some kv \<Rightarrow> [kv] | None \<Rightarrow> []) ps), list_all (\<lambda>p. p \<noteq> None) ps))"

definition values_get :: "(string \<times> string) list \<Rightarrow> string \<Rightarrow> string" where
  "values_get kvs k = (case map_of kvs k of Some v \<Rightarrow> v | None \<Rightarrow> [])"

lemma hex_val_upper: "n < 16 \<Longrightarrow> hex_val (upper_hex n) = Some n"
  by (simp add: hex_val_def Let_def of_char_upper_hex)

lemma char_nibbles: "char_of (16 * ((of_char c :: nat) div 16) + of_char c mod 16) = c"
  by (simp add: mult_div_mod_eq)

lemma unescape_char: "QueryUnescape (escape_char c @ s) = map_option (Cons c) (QueryUnescape s)"
proof -
  have "(of_char c :: nat) div 16 < 16" by (simp add: less_mult_imp_div_less)
  moreover have "query_plain c \<Longrightarrow> c \<noteq> CHR ''%'' \<and> c \<noteq> CHR ''+''" by (auto simp: query_plain_def in_range_def)
  ultimately show ?thesis by (auto simp: escape_char_def hex_val_upper char_nibbles)
qed

lemma query_roundtrip: "QueryUnescape (QueryEscape s) = Some s"
  by (induction s) (simp_all add: QueryEscape_def unescape_char)

lemma escape_chars: "x \<in> set (QueryEscape s) \<Longrightarrow> query_plain x \<or> x = CHR ''+'' \<or> x = CHR ''%''"
proof -
  have hex: "query_plain (upper_hex n)" if "n < 16" for n
    using that by (simp add: query_plain_def in_range_def of_char_upper_hex)
  have "(of_char c :: nat) div 16 < 16" for c by (simp add: less_mult_imp_div_less)
  then have "x \<in> set (escape_char c) \<Longrightarrow> query_plain x \<or> x = CHR ''+'' \<or> x = CHR ''%''" for c x
    using hex by (auto simp: escape_char_def split: if_splits)
  then show "x \<in> set (QueryEscape s) \<Longrightarrow> query_plain x \<or> x = CHR ''+'' \<or> x = CHR ''%''"
    by (auto simp: QueryEscape_def)
qed

end
