(* ===== verification/Webhook_Delivery.thy ===== *)
theory Webhook_Delivery
  imports Http Go_Url Go_Net Go_Path Config_Contact Security_Access
begin

section \<open>Webhooks\<close>

text \<open>
  \<^verbatim>\<open>src/src/notify\<close>: the request a message becomes for each transport, its signature and identifier, the
  ladder of attempts and the log of failures. JSON encoding, HMAC and the network are arguments: an
  attempt is answered with a status or not at all, and a pause between attempts is slept through or
  cancelled by the shutdown.
\<close>

record wh_message =
  wm_Role :: string
  wm_Event :: string
  wm_Subject :: string
  wm_Body :: string
  wm_Severity :: string
  wm_TrackingID :: string
  wm_Timestamp :: instant

record wh_meta =
  me_ProjectName :: string
  me_ProjectVersion :: string
  me_AppURL :: string

record built_request =
  br_method :: string
  br_url :: string
  br_contentType :: string
  br_body :: bytes

definition plainMessage :: "wh_message \<Rightarrow> string" where
  "plainMessage m =
     (if wm_Severity m \<noteq> [] then ''['' @ to_upper (wm_Severity m) @ ''] '' else []) @ wm_Subject m @
     (if wm_Body m \<noteq> [] then [CHR 0x0A, CHR 0x0A] @ wm_Body m else [])"

definition messageOrSubject :: "wh_message \<Rightarrow> string" where
  "messageOrSubject m = (if trim_space (wm_Body m) \<noteq> [] then wm_Body m else wm_Subject m)"

definition pushoverPriority :: "string \<Rightarrow> int" where
  "pushoverPriority sev = (if to_lower sev = ''critical'' then 1 else if to_lower sev = ''warning'' then 0 else -1)"

definition gotifyPriority :: "string \<Rightarrow> int" where
  "gotifyPriority sev = (if to_lower sev = ''critical'' then 8 else if to_lower sev = ''warning'' then 5 else 2)"

definition json_post :: "(jval \<Rightarrow> bytes) \<Rightarrow> string \<Rightarrow> (string \<times> jval) list \<Rightarrow> built_request" where
  "json_post js dest kvs =
     \<lparr>br_method = ''POST'', br_url = dest, br_contentType = ''application/json'', br_body = js (JMap kvs)\<rparr>"

definition buildRequest :: "(jval \<Rightarrow> bytes) \<Rightarrow> string \<Rightarrow> wh_message \<Rightarrow> wh_meta \<Rightarrow> string \<Rightarrow> built_request" where
  "buildRequest js transport m me dest =
     (if transport = ''telegram'' then
        \<lparr>br_method = ''POST'', br_url = dest @ (if contains dest ''?'' then ''&'' else ''?'') @ ''text='' @ QueryEscape (plainMessage m),
         br_contentType = [], br_body = []\<rparr>
      else if transport = ''discord'' then
        json_post js dest [(''content'', JStr (plainMessage m)), (''username'', JStr (me_ProjectName me))]
      else if transport = ''slack'' \<or> transport = ''mattermost'' then
        json_post js dest [(''text'', JStr (plainMessage m))]
      else if transport = ''pushover'' then
        \<lparr>br_method = ''POST'', br_url = dest, br_contentType = ''application/x-www-form-urlencoded'',
         br_body = ''message='' @ QueryEscape (messageOrSubject m) @
           ''&priority='' @ QueryEscape (show_int (pushoverPriority (wm_Severity m))) @
           ''&title='' @ QueryEscape (wm_Subject m)\<rparr>
      else if transport = ''gotify'' then
        json_post js dest [(''message'', JStr (messageOrSubject m)), (''priority'', JInt (gotifyPriority (wm_Severity m))),
          (''title'', JStr (wm_Subject m))]
      else
        json_post js dest ([(''role'', JStr (wm_Role m)), (''event'', JStr (wm_Event m)), (''subject'', JStr (wm_Subject m)),
          (''body'', JStr (wm_Body m)), (''severity'', JStr (wm_Severity m)), (''timestamp'', JInt (unix (wm_Timestamp m))),
          (''project_name'', JStr (me_ProjectName me)), (''project_version'', JStr (me_ProjectVersion me)),
          (''app_url'', JStr (me_AppURL me))] @
          (if wm_TrackingID m \<noteq> [] then [(''tracking_id'', JStr (wm_TrackingID m))] else [])))"

subsection \<open>Signing\<close>

definition signBody :: "hmac \<Rightarrow> string \<Rightarrow> bytes \<Rightarrow> string" where
  "signBody hm secret body = ''sha256='' @ hex_encode (hm secret body)"

definition userAgent :: "wh_meta \<Rightarrow> string" where
  "userAgent me =
     (if me_ProjectName me = [] then ''pastebin'' else me_ProjectName me) @ ''/'' @
     (if me_ProjectVersion me = [] then ''0.0.0'' else me_ProjectVersion me) @
     (if me_AppURL me \<noteq> [] then '' (+'' @ me_AppURL me @ '')'' else [])"

text \<open>Sixteen bytes: 48 bits of milliseconds, then random ones with the version and the variant set.\<close>

definition time_bytes :: "nat \<Rightarrow> bytes" where
  "time_bytes ms = map (\<lambda>i. char_of (ms div 256 ^ (5 - i) mod 256)) [0..<6]"

definition unix_milli :: "instant \<Rightarrow> nat" where
  "unix_milli t = nat ((t div 1000000) mod 2 ^ 64)"

definition uuidV7 :: "instant \<Rightarrow> bytes option \<Rightarrow> string option" where
  "uuidV7 now rnd = (case rnd of
     None \<Rightarrow> None
   | Some r \<Rightarrow>
       let b = time_bytes (unix_milli now) @ r;
           b = b[6 := char_of ((of_char (b ! 6) :: nat) mod 16 + 112)];
           b = b[8 := char_of ((of_char (b ! 8) :: nat) mod 64 + 128)]
       in Some (hex_encode (take 4 b) @ ''-'' @ hex_encode (take 2 (drop 4 b)) @ ''-'' @ hex_encode (take 2 (drop 6 b)) @ ''-'' @
            hex_encode (take 2 (drop 8 b)) @ ''-'' @ hex_encode (drop 10 b)))"

record signed_request =
  sg_request :: built_request
  sg_signature :: string
  sg_timestamp :: string
  sg_id :: string
  sg_event :: string
  sg_agent :: string

text \<open>\<^verbatim>\<open>http.NewRequest\<close> refuses an address it cannot parse.\<close>

definition buildSigned ::
  "(jval \<Rightarrow> bytes) \<Rightarrow> hmac \<Rightarrow> (string \<Rightarrow> bool) \<Rightarrow> wh_meta \<Rightarrow> wh_message \<Rightarrow> webhook_target \<Rightarrow> string \<Rightarrow> signed_request option" where
  "buildSigned js hm url_ok me m tgt wid =
     (let b = buildRequest js (wt_Transport tgt) m me (wt_URL tgt) in
      if \<not> url_ok (br_url b) then None
      else Some \<lparr>sg_request = b, sg_signature = signBody hm (wt_Secret tgt) (br_body b),
                 sg_timestamp = show_int (unix (wm_Timestamp m)), sg_id = wid, sg_event = wm_Event m,
                 sg_agent = userAgent me\<rparr>)"

subsection \<open>The ladder\<close>

definition backoffSchedule :: "duration list" where
  "backoffSchedule = [1 * Minute, 5 * Minute, 15 * Minute, 1 * Hour, 6 * Hour, 24 * Hour]"

datatype delivery_end = Delivered | Dropped "int option" | Cancelled

definition success :: "int option \<Rightarrow> bool" where
  "success status \<longleftrightarrow> (case status of None \<Rightarrow> False | Some st \<Rightarrow> 200 \<le> st \<and> st < 300)"

text \<open>What a delivery does, in its order: calls of the receiver and pauses slept through.\<close>

datatype delivery_step = Call signed_request | Slept duration

text \<open>One attempt: the request is built anew, and if it can be built it is sent.\<close>

definition send ::
  "(jval \<Rightarrow> bytes) \<Rightarrow> hmac \<Rightarrow> (string \<Rightarrow> bool) \<Rightarrow> wh_meta \<Rightarrow> wh_message \<Rightarrow> webhook_target \<Rightarrow> string \<Rightarrow> int option \<Rightarrow>
   delivery_step list \<times> int option" where
  "send js hm url_ok me m tgt wid resp =
     (case buildSigned js hm url_ok me m tgt wid of None \<Rightarrow> ([], None) | Some q \<Rightarrow> ([Call q], resp))"

text \<open>The loop over the schedule. The attempts are numbered; each yields what it did and its answer, and
  each pause lasts or is cut short.\<close>

fun attempts ::
  "(nat \<Rightarrow> delivery_step list \<times> int option) \<Rightarrow> (nat \<Rightarrow> bool) \<Rightarrow> nat \<Rightarrow> duration list \<Rightarrow> delivery_step list \<times> delivery_end" where
  "attempts att slept n [] = (case att n of (tr, st) \<Rightarrow> (tr, if success st then Delivered else Dropped st))"
| "attempts att slept n (d # ds) =
     (case att n of (tr, st) \<Rightarrow>
        if success st then (tr, Delivered)
        else if \<not> slept n then (tr, Cancelled)
        else (case attempts att slept (n + 1) ds of (tr', e) \<Rightarrow> (tr @ Slept d # tr', e)))"

definition deliver ::
  "(jval \<Rightarrow> bytes) \<Rightarrow> hmac \<Rightarrow> (string \<Rightarrow> bool) \<Rightarrow> wh_meta \<Rightarrow> instant \<Rightarrow> bytes option \<Rightarrow> (nat \<Rightarrow> int option) \<Rightarrow> (nat \<Rightarrow> bool) \<Rightarrow>
   wh_message \<Rightarrow> webhook_target \<Rightarrow> (delivery_step list \<times> delivery_end) option" where
  "deliver js hm url_ok me now rnd resp slept m tgt =
     (case uuidV7 now rnd of
        None \<Rightarrow> None
      | Some wid \<Rightarrow> Some (attempts (\<lambda>n. send js hm url_ok me m tgt wid (resp n)) slept 0 backoffSchedule))"

text \<open>The targets that get a delivery of their own, and the time of the message.\<close>

definition Dispatch :: "instant \<Rightarrow> wh_message \<Rightarrow> webhook_target list \<Rightarrow> (wh_message \<times> webhook_target) list" where
  "Dispatch now m tgts =
     (let m = (if IsZero (wm_Timestamp m) then m\<lparr>wm_Timestamp := now\<rparr> else m)
      in map (Pair m) (filter (\<lambda>t. trim_space (wt_URL t) \<noteq> []) tgts))"

subsection \<open>The log of failures\<close>

definition failureLogWindow :: duration where "failureLogWindow = 10 * Minute"

definition after_scheme :: "string \<Rightarrow> string" where
  "after_scheme s = (if contains s ''://'' then
     drop (length (takeWhile (\<lambda>i. \<not> has_prefix (drop i s) ''://'') [0..<length s]) + 3) s else s)"

definition hostOf :: "string \<Rightarrow> string" where
  "hostOf raw = takeWhile (\<lambda>c. c \<notin> set ''/?#'') (after_scheme raw)"

definition logFailure :: "instant \<Rightarrow> string \<Rightarrow> (string \<Rightarrow> instant option) \<Rightarrow> bool \<times> (string \<Rightarrow> instant option)" where
  "logFailure now url lastFail =
     (case lastFail (hostOf url) of
        Some before \<Rightarrow> if now - before < failureLogWindow then (False, lastFail) else (True, lastFail(hostOf url \<mapsto> now))
      | None \<Rightarrow> (True, lastFail(hostOf url \<mapsto> now)))"

subsection \<open>What arrives\<close>

text \<open>The query of an address: what follows its first question mark, without a fragment.\<close>

definition url_query :: "string \<Rightarrow> string" where
  "url_query u = drop 1 (dropWhile (\<lambda>c. c \<noteq> CHR ''?'') (takeWhile (\<lambda>c. c \<noteq> CHR ''#'') u))"

lemma url_query_plain: "CHR ''#'' \<notin> set u \<Longrightarrow> url_query u = drop 1 (dropWhile (\<lambda>c. c \<noteq> CHR ''?'') u)"
proof -
  assume "CHR ''#'' \<notin> set u"
  then have "takeWhile (\<lambda>c. c \<noteq> CHR ''#'') u = u" by (induction u) auto
  then show ?thesis unfolding url_query_def by (rule arg_cong)
qed

lemma split_on_plain: "c \<notin> set p \<Longrightarrow> split_on c p = [p]"
  using split_on_join[of "[p]" c] by simp

lemma ParseQuery_snoc:
  assumes "CHR ''&'' \<notin> set p" and "p \<noteq> []" and "query_pair p = Some kv"
  shows "ParseQuery (q @ CHR ''&'' # p) = (fst (ParseQuery q) @ [kv], snd (ParseQuery q))"
  using assms by (simp add: ParseQuery_def split_on_append split_on_plain)

lemma ParseQuery_single:
  assumes "CHR ''&'' \<notin> set p" and "p \<noteq> []" and "query_pair p = Some kv"
  shows "ParseQuery p = ([kv], True)"
  using assms by (simp add: ParseQuery_def split_on_plain)

lemma text_parameter:
  "query_pair (''text='' @ QueryEscape s) = Some (''text'', s)" "CHR ''&'' \<notin> set (''text='' @ QueryEscape s)"
  "CHR ''#'' \<notin> set (''text='' @ QueryEscape s)" "CHR ''?'' \<notin> set (''text='' @ QueryEscape s)"
proof -
  have "c \<notin> set ''&=#?;/ ''" if "c \<in> set (QueryEscape s)" for c
    using escape_chars[OF that] by (auto simp: query_plain_def in_range_def)
  then have n: "c \<notin> set (QueryEscape s)" if "c \<in> set ''&=#?;/ ''" for c using that by blast
  show "query_pair (''text='' @ QueryEscape s) = Some (''text'', s)"
    using n[of "CHR '';''"] by (simp add: query_pair_def query_roundtrip)
  show "CHR ''&'' \<notin> set (''text='' @ QueryEscape s)" "CHR ''#'' \<notin> set (''text='' @ QueryEscape s)"
    "CHR ''?'' \<notin> set (''text='' @ QueryEscape s)"
    using n[of "CHR ''&''"] n[of "CHR ''#''"] n[of "CHR ''?''"] by simp_all
qed

text \<open>C31: A message reaches Telegram as it was written. For a configured address without a fragment, the
  request is a POST without a body to the same address up to its query, and a reader of the query
  finds the parameters of the configured address, in their order, and then one more, called text, whose value is the
  severity in capitals in brackets and a blank, if there is one, the subject, and after an empty line the body, if
  there is one, whatever characters these contain.\<close>

theorem telegram_text_arrives:
  assumes "CHR ''#'' \<notin> set dest"
  shows "let b = buildRequest js ''telegram'' m me dest in
    br_method b = ''POST'' \<and> br_body b = [] \<and>
    takeWhile (\<lambda>c. c \<noteq> CHR ''?'') (br_url b) = takeWhile (\<lambda>c. c \<noteq> CHR ''?'') dest \<and>
    ParseQuery (url_query (br_url b)) =
      (fst (ParseQuery (url_query dest)) @
         [(''text'', (if wm_Severity m = [] then [] else ''['' @ to_upper (wm_Severity m) @ ''] '') @ wm_Subject m @
            (if wm_Body m = [] then [] else CHR 0x0A # CHR 0x0A # wm_Body m))],
       snd (ParseQuery (url_query dest)))"
proof -
  let ?T = "(if wm_Severity m = [] then [] else ''['' @ to_upper (wm_Severity m) @ ''] '') @ wm_Subject m @
            (if wm_Body m = [] then [] else CHR 0x0A # CHR 0x0A # wm_Body m)"
  let ?p = "''text='' @ QueryEscape ?T"
  have "plainMessage m = ?T" by (simp add: plainMessage_def)
  then have url: "br_url (buildRequest js ''telegram'' m me dest) =
      dest @ (if CHR ''?'' \<in> set dest then CHR ''&'' # ?p else CHR ''?'' # ?p)"
    by (simp add: buildRequest_def contains_char)
  have rest: "br_method (buildRequest js ''telegram'' m me dest) = ''POST''"
    "br_body (buildRequest js ''telegram'' m me dest) = []" by (simp_all add: buildRequest_def)
  note t = text_parameter[of ?T]
  show ?thesis
  proof (cases "CHR ''?'' \<in> set dest")
    case True
    then obtain a q where d: "dest = a @ CHR ''?'' # q" "CHR ''?'' \<notin> set a" by (metis split_list_first)
    have tw: "takeWhile (\<lambda>c. c \<noteq> CHR ''?'') (a @ CHR ''?'' # x) = a" "dropWhile (\<lambda>c. c \<noteq> CHR ''?'') (a @ CHR ''?'' # x) = CHR ''?'' # x" for x
      using d(2) by (induction a) auto
    have "url_query dest = q" "url_query (dest @ CHR ''&'' # ?p) = q @ CHR ''&'' # ?p"
      using assms t(3) by (simp_all add: url_query_plain d(1) tw)
    with True url rest t(1,2) ParseQuery_snoc[OF t(2) _ t(1), of q] show ?thesis by (simp add: d(1) tw)
  next
    case False
    then have tw: "takeWhile (\<lambda>c. c \<noteq> CHR ''?'') (dest @ x) = dest @ takeWhile (\<lambda>c. c \<noteq> CHR ''?'') x"
      "dropWhile (\<lambda>c. c \<noteq> CHR ''?'') (dest @ x) = dropWhile (\<lambda>c. c \<noteq> CHR ''?'') x" for x
      by (induction dest) auto
    have none: "takeWhile (\<lambda>c. c \<noteq> CHR ''?'') dest = dest" "dropWhile (\<lambda>c. c \<noteq> CHR ''?'') dest = []"
      using tw[of "[]"] by simp_all
    have "url_query dest = []" "url_query (dest @ CHR ''?'' # ?p) = ?p"
      using assms t(3) by (simp_all add: url_query_plain tw none)
    moreover have "ParseQuery [] = ([], True)" by (simp add: ParseQuery_def)
    ultimately show ?thesis
      using False url rest ParseQuery_single[OF t(2) _ t(1)] by (simp add: tw none)
  qed
qed

subsection \<open>Attempts\<close>

text \<open>Attempts that all do the same leave a regular trace.\<close>

lemma attempts_spec:
  assumes "attempts att slept k ds = (tr, e)" and "\<And>i. fst (att i) = c"
  shows "\<exists>n \<le> length ds. tr = c @ concat (map (\<lambda>d. Slept d # c) (take n ds)) \<and>
    (\<forall>i < n. \<not> success (snd (att (k + i))) \<and> slept (k + i)) \<and>
    (if success (snd (att (k + n))) then e = Delivered
     else if n < length ds then e = Cancelled \<and> \<not> slept (k + n) else e = Dropped (snd (att (k + n))))"
  using assms(1)
proof (induction ds arbitrary: k tr)
  case Nil
  then show ?case using assms(2)[of k] by (auto split: prod.splits)
next
  case (Cons d ds)
  have f: "att k = (c, snd (att k))" using assms(2)[of k] by (metis prod.collapse)
  show ?case
  proof (cases "success (snd (att k)) \<or> \<not> slept k")
    case True
    with Cons.prems f show ?thesis by (intro exI[of _ 0]) (auto split: prod.splits if_splits)
  next
    case False
    obtain tr' e' where r: "attempts att slept (k + 1) ds = (tr', e')" by fastforce
    from Cons.prems False r f have eqs: "tr = c @ Slept d # tr'" "e = e'" by (auto split: prod.splits if_splits)
    from Cons.IH[of "k + 1" tr'] r eqs(2) obtain n where n: "n \<le> length ds" "tr' = c @ concat (map (\<lambda>d. Slept d # c) (take n ds))"
      "\<forall>i < n. \<not> success (snd (att (k + 1 + i))) \<and> slept (k + 1 + i)"
      "if success (snd (att (k + 1 + n))) then e = Delivered
       else if n < length ds then e = Cancelled \<and> \<not> slept (k + 1 + n) else e = Dropped (snd (att (k + 1 + n)))" by auto
    have "\<forall>i < Suc n. \<not> success (snd (att (k + i))) \<and> slept (k + i)"
      using n(3) False by (auto simp: less_Suc_eq_0_disj)
    moreover have "tr = c @ concat (map (\<lambda>d. Slept d # c) (take (Suc n) (d # ds)))" using n(2) eqs(1) by simp
    moreover have "if success (snd (att (k + Suc n))) then e = Delivered
        else if Suc n < length (d # ds) then e = Cancelled \<and> \<not> slept (k + Suc n) else e = Dropped (snd (att (k + Suc n)))"
      using n(4) by (simp split: if_splits)
    moreover have "Suc n \<le> length (d # ds)" using n(1) by simp
    ultimately show ?thesis by blast
  qed
qed

text \<open>C13: How a webhook is delivered. Each delivery draws one identifier. If the address of the request can
  be parsed, the trace is one call and then, some number of times between none and six, a pause and
  another call: the pauses are those of the schedule from its beginning (1, 5 and 15 minutes, 1, 6
  and 24 hours), every call has the same content, identifier, time and event, and a signature that is the digest of its
  body under the secret of the target, so that a receiver can tell a repetition. It is
  called again only after a failed attempt and a full pause, never after it has accepted, and the
  message is given up before the seventh call only when a pause is cut short by the shutdown. If the
  address cannot be parsed, nothing is sent, the same pauses pass, and the delivery never counts as
  accepted. How long the calls themselves take is not counted.\<close>

theorem webhook_delivery:
  assumes "deliver js hm url_ok me now rnd resp slept m tgt = Some (tr, e)"
  shows "\<exists>wid n. uuidV7 now rnd = Some wid \<and> n \<le> 6 \<and>
    (let b = buildRequest js (wt_Transport tgt) m me (wt_URL tgt);
         q = \<lparr>sg_request = b, sg_signature = ''sha256='' @ hex_encode (hm (wt_Secret tgt) (br_body b)),
              sg_timestamp = show_int (unix (wm_Timestamp m)), sg_id = wid, sg_event = wm_Event m, sg_agent = userAgent me\<rparr>;
         pauses = take n [1 * Minute, 5 * Minute, 15 * Minute, 1 * Hour, 6 * Hour, 24 * Hour]
     in if url_ok (br_url b)
        then tr = Call q # concat (map (\<lambda>d. [Slept d, Call q]) pauses) \<and> (\<forall>i < n. \<not> success (resp i) \<and> slept i) \<and>
          (if success (resp n) then e = Delivered
           else if n < 6 then e = Cancelled \<and> \<not> slept n else e = Dropped (resp 6))
        else tr = map Slept pauses \<and> (\<forall>i < n. slept i) \<and>
          (if n < 6 then e = Cancelled \<and> \<not> slept n else e = Dropped None))"
proof -
  obtain wid where wid: "uuidV7 now rnd = Some wid" using assms by (auto simp: deliver_def split: option.splits)
  let ?att = "\<lambda>n. send js hm url_ok me m tgt wid (resp n)"
  have a: "attempts ?att slept 0 backoffSchedule = (tr, e)" using assms by (simp add: deliver_def wid)
  let ?b = "buildRequest js (wt_Transport tgt) m me (wt_URL tgt)"
  let ?q = "\<lparr>sg_request = ?b, sg_signature = ''sha256='' @ hex_encode (hm (wt_Secret tgt) (br_body ?b)),
              sg_timestamp = show_int (unix (wm_Timestamp m)), sg_id = wid, sg_event = wm_Event m, sg_agent = userAgent me\<rparr>"
  have att: "?att i = (if url_ok (br_url ?b) then ([Call ?q], resp i) else ([], None))" for i
    by (simp add: send_def buildSigned_def signBody_def Let_def)
  have len: "length backoffSchedule = 6" by (simp add: backoffSchedule_def)
  have "fst (?att i) = (if url_ok (br_url ?b) then [Call ?q] else [])" for i by (simp add: att)
  from attempts_spec[OF a this, unfolded len add_0 att] obtain n where n: "n \<le> 6"
    "tr = (if url_ok (br_url ?b) then [Call ?q] else []) @
       concat (map (\<lambda>d. Slept d # (if url_ok (br_url ?b) then [Call ?q] else [])) (take n backoffSchedule))"
    "\<forall>i < n. \<not> success (snd (if url_ok (br_url ?b) then ([Call ?q], resp i) else ([], None))) \<and> slept i"
    "if success (snd (if url_ok (br_url ?b) then ([Call ?q], resp n) else ([], None))) then e = Delivered
     else if n < 6 then e = Cancelled \<and> \<not> slept n
     else e = Dropped (snd (if url_ok (br_url ?b) then ([Call ?q], resp n) else ([], None)))" by blast
  have six: "\<not> n < 6 \<Longrightarrow> n = 6" using n(1) by simp
  have flat: "concat (map (\<lambda>d. [Slept d]) ds) = map Slept ds" for ds by (induction ds) simp_all
  have fail: "\<not> success None" by (simp add: success_def)
  show ?thesis
  proof (cases "url_ok (br_url ?b)")
    case True
    have "tr = Call ?q # concat (map (\<lambda>d. [Slept d, Call ?q]) (take n backoffSchedule))" using n(2) True by simp
    moreover have "\<forall>i < n. \<not> success (resp i) \<and> slept i" using n(3) True by simp
    moreover have "if success (resp n) then e = Delivered else if n < 6 then e = Cancelled \<and> \<not> slept n else e = Dropped (resp 6)"
      using n(4) True six by (auto split: if_splits)
    ultimately show ?thesis
      unfolding Let_def using wid n(1) True by (intro exI[of _ wid] exI[of _ n]) (simp add: backoffSchedule_def)
  next
    case False
    have "tr = map Slept (take n backoffSchedule)" using n(2) False by (simp add: flat)
    moreover have "\<forall>i < n. slept i" using n(3) False by simp
    moreover have "if n < 6 then e = Cancelled \<and> \<not> slept n else e = Dropped None"
      using n(4) False fail by (auto split: if_splits)
    ultimately show ?thesis
      unfolding Let_def using wid n(1) False by (intro exI[of _ wid] exI[of _ n]) (simp add: backoffSchedule_def)
  qed
qed

subsection \<open>Failures and identifiers\<close>

text \<open>The lines written for a history of dropped deliveries, with their times and hosts.\<close>

fun failure_lines :: "(instant \<times> string) list \<Rightarrow> (string \<Rightarrow> instant option) \<Rightarrow> (instant \<times> string) list" where
  "failure_lines [] lastFail = []"
| "failure_lines ((now, url) # es) lastFail =
     (case logFailure now url lastFail of
        (logged, lastFail') \<Rightarrow> (if logged then [(now, hostOf url)] else []) @ failure_lines es lastFail')"

lemma failure_lines_after:
  "(t, h) \<in> set (failure_lines es lastFail) \<Longrightarrow> lastFail h = Some t0 \<Longrightarrow> failureLogWindow \<le> t - t0"
proof (induction es lastFail arbitrary: t0 rule: failure_lines.induct)
  case (2 now url es lastFail)
  have w: "0 \<le> failureLogWindow" by (simp add: failureLogWindow_def Minute_def)
  obtain logged lf where l: "logFailure now url lastFail = (logged, lf)" by fastforce
  show ?case
  proof (cases logged)
    case False
    then have "lf = lastFail" using l by (auto simp: logFailure_def split: option.splits if_splits)
    then show ?thesis using 2 l False by simp
  next
    case True
    then have lf: "lf = lastFail(hostOf url \<mapsto> now)" and
      gap: "\<And>before. lastFail (hostOf url) = Some before \<Longrightarrow> failureLogWindow \<le> now - before"
      using l by (auto simp: logFailure_def split: option.splits if_splits)
    from 2(2) l True consider "t = now" "h = hostOf url" | "(t, h) \<in> set (failure_lines es lf)" by auto
    then show ?thesis
    proof cases
      case 1
      then show ?thesis using gap 2(3) by blast
    next
      case 2
      show ?thesis
      proof (cases "h = hostOf url")
        case True
        then have "failureLogWindow \<le> t - now" using "2.IH"[OF l[symmetric] 2] lf by simp
        moreover have "failureLogWindow \<le> now - t0" using gap "2.prems"(2) True by simp
        ultimately show ?thesis using w by linarith
      next
        case False
        then show ?thesis using "2.IH"[OF l[symmetric] 2] lf "2.prems"(2) by simp
      qed
    qed
  qed
qed simp

text \<open>A receiver that is broken for good cannot flood the log: whatever deliveries to it are dropped and
  when, two lines about the same host are at least ten minutes apart.\<close>

theorem failures_logged_rarely:
  "sorted_wrt (\<lambda>(t, h) (t', h'). h = h' \<longrightarrow> 10 * Minute \<le> t' - t) (failure_lines es lastFail)"
proof (induction es lastFail rule: failure_lines.induct)
  case (2 now url es lastFail)
  obtain logged lf where l: "logFailure now url lastFail = (logged, lf)" by fastforce
  then have "logged \<Longrightarrow> lf = lastFail(hostOf url \<mapsto> now)" by (auto simp: logFailure_def split: option.splits if_splits)
  then show ?case
    using "2.IH"[OF l[symmetric]] l failure_lines_after[of _ "hostOf url" es lf now]
    by (auto simp: failureLogWindow_def)
qed simp

text \<open>Every delivery carries a well-formed identifier of version 7: 36 characters, the dashes in their
  places, the version and the variant set, and its first twelve digits are the time in milliseconds.\<close>

theorem webhook_ids_well_formed:
  assumes "uuidV7 now (Some r) = Some u" "length r = 10"
  shows "length u = 36 \<and> u ! 8 = CHR ''-'' \<and> u ! 13 = CHR ''-'' \<and> u ! 18 = CHR ''-'' \<and> u ! 23 = CHR ''-'' \<and>
    u ! 14 = CHR ''7'' \<and> u ! 19 \<in> set ''89ab'' \<and>
    take 8 u @ take 4 (drop 9 u) = hex_encode (time_bytes (unix_milli now))"
proof -
  have tb: "time_bytes (unix_milli now) = map (\<lambda>i. char_of (unix_milli now div 256 ^ (5 - i) mod 256)) [0, 1, 2, 3, 4, 5]"
    by (simp add: time_bytes_def upt_rec)
  obtain t0 t1 t2 t3 t4 t5 where t: "time_bytes (unix_milli now) = [t0, t1, t2, t3, t4, t5]" unfolding tb by simp
  obtain r0 r1 r2 r3 r4 r5 r6 r7 r8 r9 where r: "r = [r0, r1, r2, r3, r4, r5, r6, r7, r8, r9]"
  proof -
    have "length r = Suc (Suc (Suc (Suc (Suc (Suc (Suc (Suc (Suc (Suc 0)))))))))" using assms(2) by simp
    then show ?thesis using that by (auto simp only: length_Suc_conv length_0_conv)
  qed
  let ?v = "char_of ((of_char r0 :: nat) mod 16 + 112) :: char" and ?w = "char_of ((of_char r2 :: nat) mod 64 + 128) :: char"
  have u: "u = hex_encode [t0, t1, t2, t3] @ ''-'' @ hex_encode [t4, t5] @ ''-'' @ hex_encode [?v, r1] @ ''-'' @
      hex_encode [?w, r3] @ ''-'' @ hex_encode [r4, r5, r6, r7, r8, r9]"
  proof -
    have six: "(a # b # c # d # e # f # x # xs)[6 := y] = a # b # c # d # e # f # y # xs" "(a # b # c # d # e # f # x # xs) ! 6 = x"
      for a b c d e f x y :: char and xs by (simp_all add: numeral_eq_Suc)
    have eight: "(a # b # c # d # e # f # x # z # g # xs)[8 := y] = a # b # c # d # e # f # x # z # y # xs"
      "(a # b # c # d # e # f # x # z # g # xs) ! 8 = g"
      for a b c d e f x y z g :: char and xs by (simp_all add: numeral_eq_Suc)
    show ?thesis using assms(1) unfolding uuidV7_def t r Let_def option.case append.simps six eight by simp
  qed
  have digits: "hex_digit 7 = CHR ''7''" "hex_digit 8 = CHR ''8''" "hex_digit 9 = CHR ''9''" "hex_digit 10 = CHR ''a''" "hex_digit 11 = CHR ''b''"
    by (simp_all add: hex_digit_def char_of_def bit_iff_odd)
  define x y where "x = (of_char r0 :: nat) mod 16" and "y = (of_char r2 :: nat) mod 64"
  have xy: "x < 16" "y < 64" by (simp_all add: x_def y_def)
  have "of_char ?v = x + 112" "of_char ?w = y + 128" using xy unfolding x_def[symmetric] y_def[symmetric] by simp_all
  moreover have "(x + 112) div 16 = 7" using xy(1) by simp
  moreover have "(y + 128) div 16 = 8 \<or> (y + 128) div 16 = 9 \<or> (y + 128) div 16 = 10 \<or> (y + 128) div 16 = 11" using xy(2) by linarith
  ultimately have v: "hex_digit (of_char ?v div 16) = CHR ''7''" and w: "hex_digit (of_char ?w div 16) \<in> set ''89ab''"
    using digits by auto
  show ?thesis using v w unfolding u t by (simp add: hex_encode_def hex_byte_def)
qed

subsection \<open>Examples\<close>

theorem webhook_ids_well_formed_witness:
  "\<exists>u. uuidV7 0 (Some (replicate 10 (CHR ''r''))) = Some u \<and> length u = 36 \<and> u ! 14 = CHR ''7''"
proof -
  obtain u where u: "uuidV7 0 (Some (replicate 10 (CHR ''r''))) = Some u" by (simp add: uuidV7_def Let_def)
  then show ?thesis using webhook_ids_well_formed[OF u] by simp
qed

theorem webhook_delivery_witness:
  "\<exists>q tr e. deliver (\<lambda>_. ''{}'') (\<lambda>k msg. k) (\<lambda>_. True) \<lparr>me_ProjectName = [], me_ProjectVersion = [], me_AppURL = []\<rparr> 0
       (Some (replicate 10 (CHR ''r''))) (\<lambda>n. if n = 1 then Some 204 else Some 500) (\<lambda>_. True)
       \<lparr>wm_Role = ''admin'', wm_Event = ''x'', wm_Subject = ''S'', wm_Body = [], wm_Severity = ''info'', wm_TrackingID = [], wm_Timestamp = 0\<rparr>
       \<lparr>wt_Transport = ''slack'', wt_URL = ''https://h'', wt_Secret = ''k''\<rparr> = Some (tr, e) \<and>
     tr = [Call q, Slept Minute, Call q] \<and> e = Delivered"
proof -
  let ?js = "\<lambda>_ :: jval. ''{}''" and ?hm = "\<lambda>k msg :: bytes. k :: bytes"
  let ?me = "\<lparr>me_ProjectName = [], me_ProjectVersion = [], me_AppURL = []\<rparr>" and ?rnd = "Some (replicate 10 (CHR ''r''))"
  let ?m = "\<lparr>wm_Role = ''admin'', wm_Event = ''x'', wm_Subject = ''S'', wm_Body = [], wm_Severity = ''info'', wm_TrackingID = [], wm_Timestamp = 0\<rparr>"
  let ?t = "\<lparr>wt_Transport = ''slack'', wt_URL = ''https://h'', wt_Secret = ''k''\<rparr>" and ?resp = "\<lambda>n :: nat. if n = 1 then Some 204 else Some 500 :: int option"
  obtain wid where wid: "uuidV7 0 ?rnd = Some wid" by (simp add: uuidV7_def Let_def)
  then obtain tr e where d: "deliver ?js ?hm (\<lambda>_. True) ?me 0 ?rnd ?resp (\<lambda>_. True) ?m ?t = Some (tr, e)"
    by (cases "attempts (\<lambda>n. send ?js ?hm (\<lambda>_. True) ?me ?m ?t wid (?resp n)) (\<lambda>_. True) 0 backoffSchedule") (simp add: deliver_def)
  let ?b = "buildRequest ?js ''slack'' ?m ?me ''https://h''"
  let ?q = "\<lambda>wid. \<lparr>sg_request = ?b, sg_signature = ''sha256='' @ hex_encode (?hm ''k'' (br_body ?b)), sg_timestamp = show_int (unix 0),
     sg_id = wid, sg_event = ''x'', sg_agent = userAgent ?me\<rparr>"
  from webhook_delivery[OF d, unfolded Let_def if_True wh_message.simps webhook_target.simps] obtain wid' n where n:
    "tr = Call (?q wid') # concat (map (\<lambda>d. [Slept d, Call (?q wid')]) (take n [1 * Minute, 5 * Minute, 15 * Minute, 1 * Hour, 6 * Hour, 24 * Hour]))"
    "\<forall>i < n. \<not> success (?resp i) \<and> True" "if success (?resp n) then e = Delivered else if n < 6 then e = Cancelled \<and> \<not> True else e = Dropped (?resp 6)"
    "n \<le> 6" by blast
  have s: "success (?resp i) \<longleftrightarrow> i = 1" for i by (simp add: success_def)
  have "n = 1"
  proof (rule ccontr)
    assume "n \<noteq> 1"
    then have "\<not> n < 6" using n(3) unfolding s by auto
    then have "1 < n" by simp
    then show False using n(2) unfolding s by blast
  qed
  with n(1,3) d show ?thesis unfolding s by (intro exI[of _ "?q wid'"] exI[of _ tr] exI[of _ e]) simp
qed

theorem telegram_text_arrives_witness:
  "ParseQuery (url_query (br_url (buildRequest (\<lambda>_. []) ''telegram''
       \<lparr>wm_Role = ''admin'', wm_Event = ''x'', wm_Subject = ''a & b #1'', wm_Body = ''c'', wm_Severity = [], wm_TrackingID = [], wm_Timestamp = 0\<rparr>
       \<lparr>me_ProjectName = [], me_ProjectVersion = [], me_AppURL = []\<rparr> ''https://t/send?chat_id=5''))) =
     ([(''chat_id'', ''5''), (''text'', ''a & b #1'' @ [CHR 0x0A, CHR 0x0A] @ ''c'')], True)"
proof -
  have q: "ParseQuery (url_query ''https://t/send?chat_id=5'') = ([(''chat_id'', ''5'')], True)" by code_simp
  show ?thesis
    using telegram_text_arrives[of "''https://t/send?chat_id=5''" "\<lambda>_. []"
      "\<lparr>wm_Role = ''admin'', wm_Event = ''x'', wm_Subject = ''a & b #1'', wm_Body = ''c'', wm_Severity = [], wm_TrackingID = [], wm_Timestamp = 0\<rparr>"
      "\<lparr>me_ProjectName = [], me_ProjectVersion = [], me_AppURL = []\<rparr>"]
    by (simp add: q Let_def)
qed

end
