(* ===== verification/Contact_Form.thy ===== *)
theory Contact_Form
  imports Security_Reports Mail_Message Webhook_Delivery
begin

section \<open>The contact form\<close>

text \<open>
  What \<^verbatim>\<open>handleContactPost\<close> in \<^verbatim>\<open>src/src/server/server.go\<close> does with an ordinary message, and \<^verbatim>\<open>notifyRole\<close> in
  \<^verbatim>\<open>src/src/server/notify.go\<close>: the checks, the webhooks of the role \<^verbatim>\<open>general\<close> and the mail. It goes on where the
  theory Security_Reports, which routes reports of vulnerabilities, answers \<^const>\<open>StandardForm\<close>. The page that is
  rendered is its status and its message.
\<close>

record contact_env =
  ne_host :: string                          \<comment> \<open>the name the contact addresses are completed with\<close>
  ne_mailer :: mailer
  ne_files :: template_files
  ne_stamps :: stamps
  ne_order :: "(string \<times> string) list \<Rightarrow> (string \<times> string) list"
  ne_accepts :: "smtp_plan \<Rightarrow> bool"         \<comment> \<open>the SMTP server takes the mail\<close>
  ne_notifier :: bool

record contact_result =
  nr_status :: int
  nr_message :: string
  nr_hooks :: "(wh_message \<times> webhook_target) list"
  nr_mails :: "smtp_plan list"

definition notifyRole ::
  "bool \<Rightarrow> contact_config \<Rightarrow> instant \<Rightarrow> string \<Rightarrow> string \<Rightarrow> string \<Rightarrow> string \<Rightarrow> string \<Rightarrow> (wh_message \<times> webhook_target) list" where
  "notifyRole notifier c now role ev subject body severity =
     (if \<not> notifier \<or> WebhookTargets c role = [] then []
      else Dispatch now \<lparr>wm_Role = role, wm_Event = ev, wm_Subject = subject, wm_Body = body, wm_Severity = severity,
             wm_TrackingID = [], wm_Timestamp = now\<rparr> (WebhookTargets c role))"

definition contact_invalid :: "server \<Rightarrow> submission_env \<Rightarrow> form \<Rightarrow> string option" where
  "contact_invalid s e f =
     (let email = trim_space (post f ''email'') in
      if list_ex (\<lambda>k. trim_space (post f k) = []) [''name'', ''email'', ''subject'', ''message'']
      then Some ''All fields are required.''
      else if \<not> contains email ''@'' \<or> contains_any email ('' '' @ [CHR 0x09, CHR 0x0D, CHR 0x0A])
      then Some ''Please enter a valid email address.''
      else if cp_Captcha (cf_ContactPage (sv_cfg s)) = ''simple'' \<and>
        \<not> validateSimpleCaptcha (sv_hmac s) (sv_csrfSecret s) (se_now e) (post f ''captcha_token'') (post f ''captcha'')
      then Some ''Captcha answer was incorrect. Please try again.''
      else None)"

definition contact_vars :: "form \<Rightarrow> (string \<times> string) list" where
  "contact_vars f = map (\<lambda>k. (k, trim_space (post f k))) [''name'', ''email'', ''subject'', ''message'']"

definition contact_page_error :: "int \<Rightarrow> string \<Rightarrow> contact_result" where
  "contact_page_error status msg = \<lparr>nr_status = status, nr_message = msg, nr_hooks = [], nr_mails = []\<rparr>"

definition standardContact :: "contact_env \<Rightarrow> server \<Rightarrow> submission_env \<Rightarrow> form \<Rightarrow> contact_result" where
  "standardContact E s e f =
     (case contact_invalid s e f of
        Some msg \<Rightarrow> contact_page_error 400 msg
      | None \<Rightarrow>
          let c = cf_Contact (sv_cfg s);
              to = trim_space (GeneralEmail (ne_host E) c);
              emailReady = (to \<noteq> [] \<and> mailer_Enabled (ne_mailer E))
          in if \<not> emailReady \<and> WebhookTargets c ''general'' = []
             then contact_page_error 503 ''The contact form is currently unavailable. Please try again later.''
             else
               let hooks = notifyRole (ne_notifier E) c (se_now e) ''general'' ''general.contact_submitted''
                     (''Contact form: '' @ trim_space (post f ''subject''))
                     (''From: '' @ trim_space (post f ''name'') @ '' <'' @ trim_space (post f ''email'') @ ''>'' @ [CHR 0x0A, CHR 0x0A] @
                      trim_space (post f ''message'')) ''info'';
                   ok = \<lparr>nr_status = 200, nr_message = cp_SuccessMessage (cf_ContactPage (sv_cfg s)), nr_hooks = hooks, nr_mails = []\<rparr>;
                   failed = ok\<lparr>nr_status := 502, nr_message := ''Failed to send your message. Please try again later.''\<rparr>
               in if \<not> emailReady then ok
                  else case Send (ne_files E) (ne_mailer E) (ne_stamps E) (ne_order E) to ''contact'' (contact_vars f) of
                         Inl _ \<Rightarrow> failed
                       | Inr None \<Rightarrow> ok
                       | Inr (Some plan) \<Rightarrow> if ne_accepts E plan then ok\<lparr>nr_mails := [plan]\<rparr> else failed)"

text \<open>The whole handler.\<close>

definition contactPost ::
  "golib \<Rightarrow> contact_env \<Rightarrow> server \<Rightarrow> submission_env \<Rightarrow> http_request \<Rightarrow> db \<Rightarrow>
   (contact_reply + contact_result) \<times> event list \<times> db" where
  "contactPost L E s e r d =
     (case handleContactPost L s e r d of
        (StandardForm, evs, d') \<Rightarrow> (Inr (standardContact E s e (fst (ParseForm L r))), evs, d')
      | (rep, evs, d') \<Rightarrow> (Inl rep, evs, d'))"

subsection \<open>No message is lost\<close>

lemma targets_have_url: "t \<in> set (WebhookTargets c role) \<Longrightarrow> trim_space (wt_URL t) \<noteq> []"
  using WebhookTargets_collected[of c role] by (auto simp: collected_def usable_def target_def)

lemma notify_all:
  assumes "n"
  shows "notifyRole n c now role ev subject body severity =
    map (Pair \<lparr>wm_Role = role, wm_Event = ev, wm_Subject = subject, wm_Body = body, wm_Severity = severity,
      wm_TrackingID = [], wm_Timestamp = now\<rparr>) (WebhookTargets c role)"
proof -
  have "filter (\<lambda>t. trim_space (wt_URL t) \<noteq> []) (WebhookTargets c role) = WebhookTargets c role"
    using targets_have_url by (simp add: filter_id_conv)
  then show ?thesis using assms by (simp add: notifyRole_def Dispatch_def Let_def)
qed

definition mail_ready :: "contact_env \<Rightarrow> server \<Rightarrow> bool" where
  "mail_ready E s \<longleftrightarrow> trim_space (GeneralEmail (ne_host E) (cf_Contact (sv_cfg s))) \<noteq> [] \<and> mailer_Enabled (ne_mailer E)"

lemma Send_enabled: "mailer_Enabled m \<Longrightarrow> Send F m t order to name vars = Inr x \<Longrightarrow> x \<noteq> None"
  by (auto simp: Send_def SendRawMessage_def split: sum.splits prod.splits)

text \<open>C26: A visitor is told that a message was sent (status 200) only when it was handed over: then every
  webhook of the role general has been dispatched to, with the message \<^verbatim>\<open>Contact form: \<close> and the
  subject, the sender's name and address, an empty line and the text, all as entered without the
  blanks around them; if there is a recipient and a mail server, the mail rendered from these four values has
  been taken by that server; and if there is none, there is at least one webhook. Any other
  status is 400, 502 or 503. It is assumed that the server was given a dispatcher of webhooks; whether a
  dispatched webhook arrives is another matter.\<close>

theorem contact_never_lost:
  fixes f :: form
  assumes "ne_notifier E"
  defines "name \<equiv> trim_space (post f ''name'')" and "sender \<equiv> trim_space (post f ''email'')"
    and "subject \<equiv> trim_space (post f ''subject'')" and "message \<equiv> trim_space (post f ''message'')"
  shows "nr_status (standardContact E s e f) \<in> {200, 400, 502, 503} \<and>
    (nr_status (standardContact E s e f) = 200 \<longrightarrow>
      nr_hooks (standardContact E s e f) =
        map (Pair \<lparr>wm_Role = ''general'', wm_Event = ''general.contact_submitted'', wm_Subject = ''Contact form: '' @ subject,
               wm_Body = ''From: '' @ name @ '' <'' @ sender @ ''>'' @ [CHR 0x0A, CHR 0x0A] @ message, wm_Severity = ''info'',
               wm_TrackingID = [], wm_Timestamp = se_now e\<rparr>)
          (WebhookTargets (cf_Contact (sv_cfg s)) ''general'') \<and>
      (if mail_ready E s then \<exists>plan. nr_mails (standardContact E s e f) = [plan] \<and> ne_accepts E plan \<and>
         Send (ne_files E) (ne_mailer E) (ne_stamps E) (ne_order E)
           (trim_space (GeneralEmail (ne_host E) (cf_Contact (sv_cfg s)))) ''contact''
           [(''name'', name), (''email'', sender), (''subject'', subject), (''message'', message)] = Inr (Some plan)
       else nr_hooks (standardContact E s e f) \<noteq> []))"
proof -
  let ?c = "cf_Contact (sv_cfg s)" and ?to = "trim_space (GeneralEmail (ne_host E) (cf_Contact (sv_cfg s)))"
  let ?m = "\<lparr>wm_Role = ''general'', wm_Event = ''general.contact_submitted'', wm_Subject = ''Contact form: '' @ subject,
     wm_Body = ''From: '' @ name @ '' <'' @ sender @ ''>'' @ [CHR 0x0A, CHR 0x0A] @ message, wm_Severity = ''info'',
     wm_TrackingID = [], wm_Timestamp = se_now e\<rparr>"
  define hooks where "hooks = map (Pair ?m) (WebhookTargets ?c ''general'')"
  define sent where "sent = Send (ne_files E) (ne_mailer E) (ne_stamps E) (ne_order E) ?to ''contact''
      [(''name'', name), (''email'', sender), (''subject'', subject), (''message'', message)]"
  define ok where "ok = \<lparr>nr_status = 200, nr_message = cp_SuccessMessage (cf_ContactPage (sv_cfg s)), nr_hooks = hooks, nr_mails = []\<rparr>"
  define failed where "failed = ok\<lparr>nr_status := 502, nr_message := ''Failed to send your message. Please try again later.''\<rparr>"
  have vars: "contact_vars f = [(''name'', name), (''email'', sender), (''subject'', subject), (''message'', message)]"
    by (simp add: contact_vars_def name_def sender_def subject_def message_def)
  show ?thesis
  proof (cases "contact_invalid s e f")
    case (Some msg)
    then show ?thesis by (simp add: standardContact_def contact_page_error_def)
  next
    case None
    have unfold: "standardContact E s e f =
        (if \<not> mail_ready E s \<and> WebhookTargets ?c ''general'' = []
         then contact_page_error 503 ''The contact form is currently unavailable. Please try again later.''
         else if \<not> mail_ready E s then ok
         else case sent of Inl _ \<Rightarrow> failed | Inr None \<Rightarrow> ok
              | Inr (Some plan) \<Rightarrow> if ne_accepts E plan then ok\<lparr>nr_mails := [plan]\<rparr> else failed)"
      unfolding standardContact_def None option.case Let_def mail_ready_def failed_def ok_def hooks_def sent_def
        notify_all[OF assms(1)] vars name_def sender_def subject_def message_def by (rule refl)
    have mail: "sent \<noteq> Inr None" if "mail_ready E s"
      using that Send_enabled unfolding sent_def mail_ready_def by blast
    have end200: "nr_status ok = 200" "nr_hooks ok = hooks" "nr_status failed = 502" "nr_status (contact_page_error 503 x) = 503" for x
      by (simp_all add: ok_def failed_def contact_page_error_def)
    show ?thesis
      unfolding unfold using mail
      by (auto simp: end200 hooks_def[symmetric] sent_def[symmetric] ok_def failed_def contact_page_error_def
          split: sum.split option.split) (auto simp: hooks_def)
  qed
qed

text \<open>A form that reaches a webhook only.\<close>

definition hook_server :: server where
  "hook_server = demo_server\<lparr>sv_cfg := (sv_cfg demo_server)\<lparr>
     cf_ContactPage := \<lparr>cp_Enabled = True, cp_Captcha = [], cp_SuccessMessage = ''Thanks''\<rparr>,
     cf_Contact := \<lparr>ct_Admin = \<lparr>ct_Email = [], ct_Webhooks = []\<rparr>, ct_Security = \<lparr>ct_Email = [], ct_Webhooks = []\<rparr>,
       ct_Abuse = \<lparr>ct_Email = [], ct_Webhooks = []\<rparr>, ct_General = \<lparr>ct_Email = [], ct_Webhooks = [(''slack'', ''h'')]\<rparr>\<rparr>\<rparr>\<rparr>"

definition hook_env :: contact_env where
  "hook_env = \<lparr>ne_host = ''p.example'', ne_mailer = demo_mailer\<lparr>ml_Enabled := False\<rparr>, ne_files = embedded, ne_stamps = demo_stamps,
     ne_order = id, ne_accepts = (\<lambda>_. True), ne_notifier = True\<rparr>"

theorem contact_never_lost_witness:
  "nr_status (standardContact hook_env hook_server demo_submission (\<lambda>_. Some ''a@b'')) = 200 \<and>
   nr_hooks (standardContact hook_env hook_server demo_submission (\<lambda>_. Some ''a@b'')) \<noteq> []"
proof -
  have t: "trim_space ''a@b'' = ''a@b''" "trim_space ''h'' = ''h''" by (rule trim_space_plain; simp add: plain_char_def)+
  have valid: "contact_invalid hook_server demo_submission (\<lambda>_. Some ''a@b'') = None"
    by (simp add: contact_invalid_def post_def opt_str_def t contains_char contains_any_def hook_server_def)
  have hook: "WebhookTargets (cf_Contact (sv_cfg hook_server)) ''general'' \<noteq> []"
    by (simp add: hook_server_def WebhookTargets_def contactRole_def has_suffix_def webhookSecretSuffix_def ContactWebhook_def
      pick_def entry_def t Let_def)
  have off: "\<not> mailer_Enabled (ne_mailer hook_env)" by (simp add: hook_env_def mailer_Enabled_def)
  have "nr_status (standardContact hook_env hook_server demo_submission (\<lambda>_. Some ''a@b'')) = 200"
    using valid hook off by (simp add: standardContact_def)
  then show ?thesis
    using contact_never_lost[of hook_env hook_server demo_submission "\<lambda>_. Some ''a@b''"] off hook
    by (simp add: hook_env_def)
qed

end
