(* ===== verification/Spec2Isabelle.thy ===== *)
theory Spec2Isabelle
  imports Store_Invariant Server_Reads Cron_Zone Paste_Refinement Handler_Creation Handler_Reading Handler_Access
    Compat_Properties Rate_Limit Scheduler_Restart Cron_Cost Health_Monitor Backup_Task Config_File Log_Rotate
    Security_Status Request_Chain Contact_Form
begin

text \<open>
  \<^bold>\<open>The program.\<close> The repository is a self-hosted pastebin server written in Go
  (\<^verbatim>\<open>src/src\<close>). HTTP handlers create, read, list and delete pastes; they keep them in an
  SQLite database behind a read cache, hand out owner tokens, and count readings so that a
  paste can burn after a number of views. A second set of handlers imitates the interfaces of
  other pastebins on the same store. Around this core run a rate limiter, a task scheduler
  with cron expressions, scheduled backups with retention and restore, a monitor that
  switches the server to maintenance mode, the chain of middleware that every request passes,
  mails and web hooks, a configuration that is read from a file and the
  environment and reloaded while the server runs, log files with rotation, and the
  coordinated-disclosure pipeline for security reports.

  \<^bold>\<open>Theories, bottom up.\<close>
  \<^item> \<open>Pastebin_Prelude\<close>, \<open>Go_Stdlib\<close>, \<open>Go_Text\<close>, \<open>Go_Time\<close>, \<open>Go_Path\<close>, \<open>Go_Net\<close>, \<open>Go_Url\<close>: the part of the language and its
    packages the sources use: 64-bit arithmetic with its wrap-around, byte strings,
    \<^verbatim>\<open>strconv\<close>, \<^verbatim>\<open>hex\<close>, \<^verbatim>\<open>base64\<close>, UTF-8 coercion, the calendar, lexical paths, IP addresses and networks,
    the escapes of URLs.
  \<^item> \<open>Sql_Rows\<close>, \<open>Database_Schema\<close>: tables as lists of rows and the meaning of the statements;
    the record \<open>db\<close> has one field per table.
  \<^item> \<open>Paste_Model\<close>, \<open>Paste_Store\<close>, \<open>Paste_Refinement\<close>, \<open>Token_Store\<close>, \<open>Task_Store\<close>
    (\<^verbatim>\<open>model/models.go\<close>, \<^verbatim>\<open>database/database.go\<close>): one function per method of \<^verbatim>\<open>SQLiteDB\<close>, from the
    database to an error or a new database. \<open>Paste_Refinement\<close> proves that the store simulates a
    map from identifiers to pastes, through the locale \<open>simulation\<close>; the locales
    \<open>paste_repository\<close> and \<open>token_authority\<close> state what the handlers rely on and are
    interpreted on these operations.
  \<^item> \<open>Cache\<close> (\<^verbatim>\<open>cache/cache.go\<close>): drivers as values, with the contract \<open>cache_contract\<close>.
  \<^item> \<open>Http\<close>, \<open>Paste_Handler\<close>, \<open>Handler_Creation\<close>, \<open>Handler_Reading\<close>, \<open>Handler_Access\<close>
    (\<^verbatim>\<open>handler/paste.go\<close>, \<^verbatim>\<open>common/httputil/detect.go\<close>): requests, replies and the handlers over a
    world of database, cache and counters; which request creates what, that reading through the
    cache is reading the store, who may delete, when a paste burns, what is served inline.
  \<^item> \<open>Compat_Handler\<close>, \<open>Compat_Properties\<close> (\<^verbatim>\<open>handler/compat.go\<close>): the imitated interfaces.
  \<^item> \<open>Store_Invariant\<close>: the invariant of the database under every interleaving of handler steps
    and maintenance statements. \<open>Server_Reads\<close>: the same server with its cache, its native and its
    compatibility handlers; what a reading finds, when the cache is stale, which readings count.
  \<^item> \<open>Rate_Limit\<close> (\<^verbatim>\<open>server/ratelimit.go\<close>): the limiter decides as a log of all requests would.
  \<^item> \<open>Cron_Search\<close>, \<open>Cron_Parse\<close>, \<open>Scheduler\<close>, \<open>Scheduler_Properties\<close>, \<open>Scheduler_Restart\<close>
    (\<^verbatim>\<open>scheduler/cron.go\<close>, \<^verbatim>\<open>scheduler/scheduler.go\<close>): expressions and their next run, registration,
    ticks, jobs, retries and persistence as steps of a transition system.
    \<open>Cron_Cost\<close> bounds the turns of the search; \<open>Cron_Zone\<close> follows it through zones with daylight
    saving, where it may not end.
  \<^item> \<open>Health_Monitor\<close> (\<^verbatim>\<open>health/monitor.go\<close>, \<^verbatim>\<open>server/maintenance.go\<close>): maintenance mode.
  \<^item> \<open>Backup_Archive\<close>, \<open>Backup_Roundtrip\<close>, \<open>Backup_Retention\<close>, \<open>Backup_Task\<close>
    (\<^verbatim>\<open>maintenance/maintenance.go\<close>, \<^verbatim>\<open>task/task.go\<close>, \<^verbatim>\<open>task/backup_guard.go\<close>): making, verifying, restoring
    and pruning backups.
  \<^item> \<open>Config_Values\<close>, \<open>Config_Contact\<close>, \<open>Config_Validate\<close>, \<open>Config_File\<close> (\<^verbatim>\<open>config/*.go\<close>): the readers of single
    values, the contact roles with their addresses and web hooks, validation as a projection
    onto the valid configurations, and loading, saving and reloading; the relation \<open>serves\<close>
    follows the configuration a running server uses through polls that fail and polls that install.
  \<^item> \<open>Log_Policy\<close>, \<open>Log_Rotate\<close> (\<^verbatim>\<open>logging/rotate.go\<close>): rotation and retention policies, and the writer over
    an explicit directory of files.
  \<^item> \<open>Security_Access\<close>, \<open>Security_Store\<close>, \<open>Security_Reports\<close>, \<open>Security_Status\<close> (\<^verbatim>\<open>server/security_*.go\<close>,
    \<^verbatim>\<open>server/captcha.go\<close>, \<^verbatim>\<open>database/security_reports.go\<close>, \<^verbatim>\<open>common/secretbox/secretbox.go\<close>): the rotating
    identifier and the captcha that guard the form, the rows and their encryption, the
    submission with everything it sends and logs as a list of events, the status page and the
    acknowledgments.
  \<^item> \<open>Request_Origin\<close>, \<open>Request_Guard\<close>, \<open>Request_Forgery\<close>, \<open>Request_Chain\<close> (\<^verbatim>\<open>server/server.go\<close>,
    \<^verbatim>\<open>server/security_middleware.go\<close>, \<^verbatim>\<open>server/domainlearn.go\<close>, \<^verbatim>\<open>geoip/geoip.go\<close>): which address a request is
    attributed to and which base URL it gets, path normalisation, allow and block lists, country
    blocking, security headers, CSRF tokens, allowed origins, and all of them composed in the
    order of \<^verbatim>\<open>setupRoutes\<close>. Every middleware is a function to a reply or to the request and headers
    that go on; the locale \<open>middleware\<close> states what each keeps and is interpreted on all of them.
  \<^item> \<open>Mail_Message\<close>, \<open>Webhook_Delivery\<close>, \<open>Contact_Form\<close> (\<^verbatim>\<open>common/email/email.go\<close>, \<^verbatim>\<open>notify/*.go\<close>,
    \<^verbatim>\<open>server/notify.go\<close>): mails from template to message and SMTP call, web hook requests with signature
    and retries, and the contact form that uses both.

  \<^bold>\<open>How code becomes definitions.\<close> Every operation is one definition with the name of the
  method, its guards in the order of the code and its early returns as branches; state is
  passed explicitly, errors are values. Structs are records with the fields of the source
  under a prefix. What the environment decides is an argument: the clock, random bytes, a flag
  per statement that says whether the engine fails it, a predicate that says which file can be
  written. Code of other modules is a parameter (SHA-256, AES-GCM, tar, JSON, MIME sniffing,
  \<^verbatim>\<open>url.Parse\<close>, \<^verbatim>\<open>time.ParseDuration\<close>); where a property needs one of their laws, the law is a named
  predicate that is shown to hold for a concrete function.

  Goroutines are modelled by the sections that hold a lock: these are atomic, and step relations
  let them interleave freely (\<open>sched_step\<close>, \<open>monitor_step\<close>, the handler steps). Go maps whose order the
  code cannot observe are functions or lists; \<^verbatim>\<open>sort.Slice\<close> is any sorting permutation. Time zones
  have a fixed offset, but for \<open>Cron_Zone\<close>. Integers are integers with \<open>wrap64\<close> wherever the code can leave the range.

  \<^bold>\<open>Bounds and fuel.\<close> Recursions follow the data or have a termination proof. The search for the
  next run is bounded by the code's own limit of 1460 days, and \<open>Cron_Cost\<close> shows that 35043 units
  of fuel are enough for it in a zone with a fixed offset: after the first turn every candidate is a full
  hour or the answer. The ladder of a web hook has seven attempts.

  \<^bold>\<open>Findings.\<close> Where the code falls short of its own comments the behaviour is modelled as it is
  and stated as a theorem or lemma; the manifest lists these places.

  \<^bold>\<open>Not modelled.\<close> The routing table, templates, most pages and static files; the settings that the
  code never checks; the command-line client, service management, daemons and signals; the
  dialogues with SMTP and HTTP servers, Tor, I2P, TLS, the download of the geoip databases, PGP and
  the updater, which drive external programs and third-party libraries; metrics, the format of
  audit and access lines; the Redis driver of the cache and the syntax highlighter. These parts are input and
  output around the core, or need models of code outside the repository.
\<close>

end
